(* ===== verification/Base_Prelude.thy ===== *)
theory Base_Prelude
  imports Main "HOL-Library.Word"
begin

text \<open>
  Shared vocabulary of the development.

  \<^item> Failures. The C code stops in several ways that the model keeps apart: \<open>vpanic\<close> and
    \<open>vassert\<close> of VEX, \<open>tl_assert\<close> and \<open>VG_(tool_panic)\<close> of a tool, the reports of
    \<open>sanityCheckFail\<close>, and the undefined behaviours the code can run into (a NULL dereference, a
    read of a union member that was not written, a division by zero, a shift by the width of the
    type or more, signed arithmetic that overflows, a write past the end of a buffer). \<open>NoReturn\<close> is a loop that does not end. \<open>BadOption\<close> is the exit of
    \<open>VG_(fmsg_bad_option)\<close>. A function that may stop returns \<open>vex_err + 'a\<close>, with \<open>Inl\<close> for the stop.
  \<^item> The sequencing operators of that result type (\<open>bindR\<close>, \<open>assertR\<close>, \<open>forR\<close>,
    \<open>foldR\<close>), with one rewrite rule each for \<open>... = Inr _\<close>; these rules are the collection
    \<open>res_iff\<close> and carry most of the proofs about error paths.
  \<^item> Little-endian byte strings, the form in which the tools write their records.
\<close>

section \<open>Failures as values\<close>

datatype vex_err =
    VPanic string
  | VAssert string
  | ToolAssert string
  | ToolPanic string
  | SanityFail string
  | NullDeref
  | UninitRead
  | DivByZero
  | BadShift
  | SignedOverflow
  | BufOverflow
  | NoReturn
  | BadOption string

type_synonym 'a res = "vex_err + 'a"

named_theorems res_iff \<open>rewrite rules for success of a computation\<close>

definition bindR :: "'e + 'a \<Rightarrow> ('a \<Rightarrow> 'e + 'b) \<Rightarrow> 'e + 'b" where
  "bindR m f = (case m of Inl e \<Rightarrow> Inl e | Inr x \<Rightarrow> f x)"

definition assertR :: "bool \<Rightarrow> 'e \<Rightarrow> 'e + unit" where
  "assertR b e = (if b then Inr () else Inl e)"

definition isOk :: "'e + 'a \<Rightarrow> bool" where
  "isOk m = (case m of Inl _ \<Rightarrow> False | Inr _ \<Rightarrow> True)"

fun forR :: "('a \<Rightarrow> 'e + unit) \<Rightarrow> 'a list \<Rightarrow> 'e + unit" where
  "forR f [] = Inr ()"
| "forR f (x # xs) = bindR (f x) (\<lambda>_. forR f xs)"

fun foldR :: "('s \<Rightarrow> 'a \<Rightarrow> 'e + 's) \<Rightarrow> 's \<Rightarrow> 'a list \<Rightarrow> 'e + 's" where
  "foldR f s [] = Inr s"
| "foldR f s (x # xs) = bindR (f s x) (\<lambda>s'. foldR f s' xs)"

fun mapR :: "('a \<Rightarrow> 'e + 'b) \<Rightarrow> 'a list \<Rightarrow> 'e + 'b list" where
  "mapR f [] = Inr []"
| "mapR f (x # xs) = bindR (f x) (\<lambda>y. bindR (mapR f xs) (\<lambda>ys. Inr (y # ys)))"

definition optR :: "'e \<Rightarrow> 'a option \<Rightarrow> 'e + 'a" where
  "optR e x = (case x of None \<Rightarrow> Inl e | Some y \<Rightarrow> Inr y)"

lemma bindR_Inl [simp]: "bindR (Inl e) f = Inl e"
  by (simp add: bindR_def)

lemma bindR_Inr [simp]: "bindR (Inr x) f = f x"
  by (simp add: bindR_def)

lemma bindR_eq_Inr [res_iff]: "(bindR m f = Inr y) = (\<exists>x. m = Inr x \<and> f x = Inr y)"
  by (cases m) auto

lemma bindR_InrE:
  assumes "bindR m f = Inr y"
  obtains x where "m = Inr x" "f x = Inr y"
  using assms by (auto simp: bindR_eq_Inr)

lemma bindR_assoc: "bindR (bindR m f) g = bindR m (\<lambda>x. bindR (f x) g)"
  by (cases m) auto

lemma bindR_cong [fundef_cong]:
  "m = m' \<Longrightarrow> (\<And>x. m' = Inr x \<Longrightarrow> f x = f' x) \<Longrightarrow> bindR m f = bindR m' f'"
  by (cases m') auto

lemma assertR_eq_Inr [res_iff]: "(assertR b e = Inr u) = b"
  by (auto simp: assertR_def)

lemma assertR_simps [simp]: "assertR True e = Inr ()" "assertR False e = Inl e"
  by (simp_all add: assertR_def)

lemma isOk_simps [simp]: "isOk (Inl e) = False" "isOk (Inr x) = True"
  by (simp_all add: isOk_def)

lemma isOk_iff: "isOk m = (\<exists>x. m = Inr x)"
  by (cases m) auto

lemma optR_eq_Inr [res_iff]: "(optR e x = Inr y) = (x = Some y)"
  by (cases x) (auto simp: optR_def)

lemma optR_simps [simp]: "optR e None = Inl e" "optR e (Some y) = Inr y"
  by (simp_all add: optR_def)

lemma forR_cong [fundef_cong]:
  "xs = ys \<Longrightarrow> (\<And>x. x \<in> set ys \<Longrightarrow> f x = g x) \<Longrightarrow> forR f xs = forR g ys"
  by (induction ys arbitrary: xs) auto

lemma mapR_cong [fundef_cong]:
  "xs = ys \<Longrightarrow> (\<And>x. x \<in> set ys \<Longrightarrow> f x = g x) \<Longrightarrow> mapR f xs = mapR g ys"
  by (induction ys arbitrary: xs) auto

lemma foldR_cong [fundef_cong]:
  "s = t \<Longrightarrow> xs = ys \<Longrightarrow> (\<And>x s. x \<in> set ys \<Longrightarrow> f s x = g s x) \<Longrightarrow> foldR f s xs = foldR g t ys"
  by (induction ys arbitrary: xs s t) (auto intro: bindR_cong)

lemma forR_eq_Inr [res_iff]: "(forR f xs = Inr u) = (\<forall>x\<in>set xs. f x = Inr ())"
  by (induction xs) (auto simp: res_iff)

lemma forR_append: "forR f (xs @ ys) = bindR (forR f xs) (\<lambda>_. forR f ys)"
  by (induction xs) (auto simp: bindR_assoc)

lemma foldR_append: "foldR f s (xs @ ys) = bindR (foldR f s xs) (\<lambda>s'. foldR f s' ys)"
  by (induction xs arbitrary: s) (auto simp: bindR_assoc)

lemma mapR_id: "(\<And>x. x \<in> set xs \<Longrightarrow> f x = Inr x) \<Longrightarrow> mapR f xs = Inr xs"
  by (induction xs) auto

lemma mapR_eq_Inr: "(mapR f xs = Inr ys) = list_all2 (\<lambda>x y. f x = Inr y) xs ys"
  by (induction xs arbitrary: ys) (auto simp: res_iff list_all2_Cons1)

section \<open>Monotonicity of success\<close>

text \<open>\<open>okle m m'\<close>: when \<open>m\<close> succeeds, \<open>m'\<close> succeeds with the same value. The rules
  lift it through the sequencing operators, so that a check written with them is shown to survive a
  change of its environment by the rules of the collection \<open>okle_intros\<close> alone.\<close>

definition okle :: "'e + 'a \<Rightarrow> 'e + 'a \<Rightarrow> bool" where
  "okle m m' \<longleftrightarrow> (\<forall>x. m = Inr x \<longrightarrow> m' = Inr x)"

named_theorems okle_intros \<open>introduction rules for monotonicity of success\<close>

lemma okleD: "okle m m' \<Longrightarrow> m = Inr x \<Longrightarrow> m' = Inr x"
  by (simp add: okle_def)

lemma okle_refl [okle_intros]: "okle m m"
  by (simp add: okle_def)

lemma okle_bindR [okle_intros]:
  "okle m m' \<Longrightarrow> (\<And>x. m = Inr x \<Longrightarrow> okle (f x) (f' x)) \<Longrightarrow> okle (bindR m f) (bindR m' f')"
  by (auto simp: okle_def res_iff)

lemma okle_if [okle_intros]:
  "(b \<Longrightarrow> okle m m') \<Longrightarrow> (\<not> b \<Longrightarrow> okle n n') \<Longrightarrow> okle (if b then m else n) (if b then m' else n')"
  by simp

lemma okle_option [okle_intros]:
  "okle m m' \<Longrightarrow> (\<And>x. y = Some x \<Longrightarrow> okle (f x) (f' x)) \<Longrightarrow>
     okle (case y of None \<Rightarrow> m | Some x \<Rightarrow> f x) (case y of None \<Rightarrow> m' | Some x \<Rightarrow> f' x)"
  by (cases y) auto

lemma okle_prod [okle_intros]:
  "(\<And>a b. okle (f a b) (f' a b)) \<Longrightarrow> okle (case p of (a, b) \<Rightarrow> f a b) (case p of (a, b) \<Rightarrow> f' a b)"
  by (cases p) auto

lemma okle_forR [okle_intros]:
  "(\<And>x. x \<in> set xs \<Longrightarrow> okle (f x) (f' x)) \<Longrightarrow> okle (forR f xs) (forR f' xs)"
  by (auto simp: okle_def res_iff)

section \<open>Little-endian byte strings\<close>

type_synonym byte = "8 word"

fun le_of_nat :: "nat \<Rightarrow> nat \<Rightarrow> byte list" where
  "le_of_nat 0 k = []"
| "le_of_nat (Suc n) k = of_nat k # le_of_nat n (k div 256)"

fun nat_of_le :: "byte list \<Rightarrow> nat" where
  "nat_of_le [] = 0"
| "nat_of_le (b # bs) = unat b + 256 * nat_of_le bs"

text \<open>The \<open>n\<close> low-order bytes of a machine word, as they lie in memory on the two
  little-endian targets (amd64 and arm64).\<close>

definition le_bytes :: "nat \<Rightarrow> 'a::len word \<Rightarrow> byte list" where
  "le_bytes n w = le_of_nat n (unat w)"

definition le_word :: "byte list \<Rightarrow> 'a::len word" where
  "le_word bs = of_nat (nat_of_le bs)"

lemma length_le_of_nat [simp]: "length (le_of_nat n k) = n"
  by (induction n arbitrary: k) auto

lemma length_le_bytes [simp]: "length (le_bytes n w) = n"
  by (simp add: le_bytes_def)

lemma nat_of_le_of_nat: "nat_of_le (le_of_nat n k) = k mod 256 ^ n"
proof (induction n arbitrary: k)
  case 0
  then show ?case by simp
next
  case (Suc n)
  have "k mod 256 ^ Suc n = k mod 256 + 256 * (k div 256 mod 256 ^ n)"
    using mod_mult2_eq [of k 256 "256 ^ n"] by simp
  then show ?case
    by (simp add: Suc unat_of_nat)
qed

lemma unat_bound: "unat (w :: 'a::len word) < 2 ^ LENGTH('a)"
  by (rule unsigned_less)

lemma nat_of_le_bytes_64: "nat_of_le (le_bytes 8 (w :: 64 word)) = unat w"
  using unat_bound [of w] by (simp add: le_bytes_def nat_of_le_of_nat)

lemma le_word_bytes_64 [simp]: "le_word (le_bytes 8 (w :: 64 word)) = w"
  by (simp add: le_word_def nat_of_le_bytes_64)

lemma le_word_bytes_32 [simp]: "le_word (le_bytes 4 (w :: 32 word)) = w"
  using unat_bound [of w] by (simp add: le_word_def le_bytes_def nat_of_le_of_nat)

lemma le_word_bytes_16 [simp]: "le_word (le_bytes 2 (w :: 16 word)) = w"
  using unat_bound [of w] by (simp add: le_word_def le_bytes_def nat_of_le_of_nat)

section \<open>Counters\<close>

lemma of_nat_eq_64:
  assumes "a < 2 ^ 64" "b < 2 ^ 64"
  shows "(of_nat a :: 64 word) = of_nat b \<longleftrightarrow> a = b"
proof
  assume "(of_nat a :: 64 word) = of_nat b"
  then have "unat (of_nat a :: 64 word) = unat (of_nat b :: 64 word)" by simp
  with assms show "a = b" by (simp add: unat_of_nat)
qed simp

section \<open>Lists\<close>

lemma find_SomeD: "find P xs = Some x \<Longrightarrow> x \<in> set xs \<and> P x"
  by (induction xs) (auto split: if_splits)

lemma find_append:
  "find P (xs @ ys) = (case find P xs of None \<Rightarrow> find P ys | Some x \<Rightarrow> Some x)"
  by (induction xs) auto

lemma filter_map_Some: "map the (filter (\<lambda>x. x \<noteq> None) (map Some xs)) = xs"
  by (induction xs) auto

lemma concat_concat_map: "concat (concat (map f xs)) = concat (map (\<lambda>x. concat (f x)) xs)"
  by (induction xs) auto

end
