(* ===== verification/Vex_IR.thy ===== *)
theory Vex_IR
  imports Base_Prelude
begin

text \<open>
  The VEX intermediate representation: the data types of \<open>VEX/pub/libvex_ir.h\<close> and their
  constructor functions of \<open>VEX/priv/ir_defs.c\<close>.

  Correspondence. An enumeration is a datatype with the source's enumerators; a tagged union is a
  datatype whose constructors carry the union member's fields in their order; a \<open>struct\<close> is a
  record whose fields carry a short prefix for the struct. A pointer the code may leave or test as
  NULL is an \<open>option\<close>; a NULL-terminated argument vector is a list. \<open>IRTemp\<close>, an unsigned
  32-bit number in C, is a natural number with \<open>IRTemp_INVALID\<close> its largest value. The 1200
  primitive operations \<open>Iop_X\<close> are \<open>Iop ''X''\<close>: an enumerator is used by VEX only through
  equality and through the tables that list enumerators by name. The floating-point constants are
  kept as their bit patterns. A C function used as a call target is \<open>Fn name\<close>, the null
  function pointer \<open>NullFn\<close>.
\<close>

section \<open>Enumerations\<close>

datatype IRType =
    Ity_INVALID | Ity_I1 | Ity_I8 | Ity_I16 | Ity_I32 | Ity_I64 | Ity_I128 | Ity_F16
  | Ity_F32 | Ity_F64 | Ity_D32 | Ity_D64 | Ity_D128 | Ity_F128 | Ity_V128 | Ity_V256

datatype IREndness = Iend_LE | Iend_BE

datatype IROp = Iop string

datatype IRJumpKind =
    Ijk_INVALID | Ijk_Boring | Ijk_Call | Ijk_Ret | Ijk_ClientReq | Ijk_Yield | Ijk_EmWarn
  | Ijk_EmFail | Ijk_NoDecode | Ijk_MapFail | Ijk_InvalICache | Ijk_FlushDCache | Ijk_NoRedir
  | Ijk_SigILL | Ijk_SigTRAP | Ijk_SigSEGV | Ijk_SigBUS | Ijk_SigFPE | Ijk_SigFPE_IntDiv
  | Ijk_SigFPE_IntOvf | Ijk_Sys_syscall | Ijk_Sys_int32 | Ijk_Sys_int128 | Ijk_Sys_int129
  | Ijk_Sys_int130 | Ijk_Sys_int145 | Ijk_Sys_int210 | Ijk_Sys_sysenter

datatype IREffect = Ifx_None | Ifx_Read | Ifx_Write | Ifx_Modify

datatype IRMBusEvent = Imbe_Fence | Imbe_CancelReservation

datatype IRLoadGOp =
    ILGop_INVALID | ILGop_IdentV128 | ILGop_Ident64 | ILGop_Ident32
  | ILGop_16Uto32 | ILGop_16Sto32 | ILGop_8Uto32 | ILGop_8Sto32

section \<open>Constants, callees, register arrays\<close>

type_synonym Addr = "64 word"
type_synonym IRTemp = nat

definition IRTemp_INVALID :: IRTemp where
  "IRTemp_INVALID = 0xFFFFFFFF"

datatype IRConst =
    Ico_U1 byte
  | Ico_U8 byte
  | Ico_U16 "16 word"
  | Ico_U32 "32 word"
  | Ico_U64 "64 word"
  | Ico_F32 "32 word"
  | Ico_F32i "32 word"
  | Ico_F64 "64 word"
  | Ico_F64i "64 word"
  | Ico_V128 "16 word"
  | Ico_V256 "32 word"

datatype fnptr = NullFn | Fn string

record IRCallee =
  cee_regparms :: int
  cee_name :: "string option"
  cee_addr :: fnptr
  cee_mcx_mask :: "32 word"

record IRRegArray =
  ra_base :: int
  ra_elemTy :: IRType
  ra_nElems :: int

section \<open>Expressions\<close>

datatype IRExpr =
    Iex_Binder int
  | Iex_Get int IRType
  | Iex_GetI IRRegArray IRExpr int
  | Iex_RdTmp IRTemp
  | Iex_Qop IROp IRExpr IRExpr IRExpr IRExpr
  | Iex_Triop IROp IRExpr IRExpr IRExpr
  | Iex_Binop IROp IRExpr IRExpr
  | Iex_Unop IROp IRExpr
  | Iex_Load IREndness IRType IRExpr
  | Iex_Const IRConst
  | Iex_ITE IRExpr IRExpr IRExpr
  | Iex_CCall IRCallee IRType "IRExpr list"
  | Iex_VECRET
  | Iex_GSPTR

fun isIRAtom :: "IRExpr \<Rightarrow> bool" where
  "isIRAtom (Iex_RdTmp _) = True"
| "isIRAtom (Iex_Const _) = True"
| "isIRAtom _ = False"

fun is_IRExpr_VECRET_or_GSPTR :: "IRExpr \<Rightarrow> bool" where
  "is_IRExpr_VECRET_or_GSPTR Iex_VECRET = True"
| "is_IRExpr_VECRET_or_GSPTR Iex_GSPTR = True"
| "is_IRExpr_VECRET_or_GSPTR _ = False"

section \<open>Statements\<close>

record IRFxState =
  fx_fx :: IREffect
  fx_offset :: nat
  fx_size :: nat
  fx_nRepeats :: nat
  fx_repeatLen :: nat

record IRDirty =
  d_cee :: "IRCallee option"
  d_guard :: "IRExpr option"
  d_args :: "IRExpr list option"
  d_tmp :: IRTemp
  d_mFx :: IREffect
  d_mAddr :: "IRExpr option"
  d_mSize :: int
  d_nFxState :: int
  d_fxState :: "IRFxState list"

record IRCAS =
  cas_oldHi :: IRTemp
  cas_oldLo :: IRTemp
  cas_end :: IREndness
  cas_addr :: IRExpr
  cas_expdHi :: "IRExpr option"
  cas_expdLo :: IRExpr
  cas_dataHi :: "IRExpr option"
  cas_dataLo :: IRExpr

record IRPutI =
  puti_descr :: IRRegArray
  puti_ix :: IRExpr
  puti_bias :: int
  puti_data :: IRExpr

record IRStoreG =
  sg_end :: IREndness
  sg_addr :: IRExpr
  sg_data :: IRExpr
  sg_guard :: IRExpr

record IRLoadG =
  lg_end :: IREndness
  lg_cvt :: IRLoadGOp
  lg_dst :: IRTemp
  lg_addr :: IRExpr
  lg_alt :: IRExpr
  lg_guard :: IRExpr

datatype IRStmt =
    Ist_NoOp
  | Ist_IMark Addr "32 word" byte
  | Ist_AbiHint IRExpr int IRExpr
  | Ist_Put int IRExpr
  | Ist_PutI IRPutI
  | Ist_WrTmp IRTemp IRExpr
  | Ist_Store IREndness IRExpr IRExpr
  | Ist_LoadG IRLoadG
  | Ist_StoreG IRStoreG
  | Ist_CAS IRCAS
  | Ist_LLSC IREndness IRTemp IRExpr "IRExpr option"
  | Ist_Dirty IRDirty
  | Ist_MBE IRMBusEvent
  | Ist_Exit IRExpr IRJumpKind IRConst int

section \<open>Type environments and superblocks\<close>

text \<open>
  A growable C array is its used prefix together with its allocated size: the field \<open>types\<close>
  holds the first \<open>types_used\<close> entries, the field \<open>stmts\<close> the first \<open>stmts_used\<close> ones. A
  NULL statement pointer is \<open>None\<close>.
\<close>

record IRTypeEnv =
  types :: "IRType list"
  types_size :: nat

abbreviation types_used :: "IRTypeEnv \<Rightarrow> nat" where
  "types_used env \<equiv> length (types env)"

record IRSB =
  tyenv :: IRTypeEnv
  stmts :: "IRStmt option list"
  stmts_size :: nat
  sb_next :: "IRExpr option"
  sb_jumpkind :: IRJumpKind
  sb_offsIP :: int

abbreviation stmts_used :: "IRSB \<Rightarrow> nat" where
  "stmts_used bb \<equiv> length (stmts bb)"

section \<open>Constructor functions\<close>

definition IRConst_U1 :: "byte \<Rightarrow> IRConst res" where
  "IRConst_U1 b = bindR (assertR (b = 0 \<or> b = 1) (VAssert ''bit == False || bit == True'')) (\<lambda>_. Inr (Ico_U1 b))"

definition mkIRCallee :: "int \<Rightarrow> string option \<Rightarrow> fnptr \<Rightarrow> IRCallee res" where
  "mkIRCallee regparms name addr =
     bindR (assertR (regparms \<ge> 0 \<and> regparms \<le> 3) (VAssert ''regparms'')) (\<lambda>_.
     bindR (assertR (name \<noteq> None) (VAssert ''name != NULL'')) (\<lambda>_.
     bindR (assertR (addr \<noteq> NullFn) (VAssert ''addr != 0'')) (\<lambda>_.
     Inr \<lparr>cee_regparms = regparms, cee_name = name, cee_addr = addr, cee_mcx_mask = 0\<rparr>)))"

definition mkIRRegArray :: "int \<Rightarrow> IRType \<Rightarrow> int \<Rightarrow> IRRegArray res" where
  "mkIRRegArray base elemTy nElems =
     bindR (assertR (\<not> (base < 0 \<or> base > 10000)) (VAssert ''base'')) (\<lambda>_.
     bindR (assertR (elemTy \<noteq> Ity_I1) (VAssert ''elemTy'')) (\<lambda>_.
     bindR (assertR (\<not> (nElems \<le> 0 \<or> nElems > 500)) (VAssert ''nElems'')) (\<lambda>_.
     Inr \<lparr>ra_base = base, ra_elemTy = elemTy, ra_nElems = nElems\<rparr>)))"

definition emptyIRDirty :: IRDirty where
  "emptyIRDirty = \<lparr>d_cee = None, d_guard = None, d_args = None, d_tmp = IRTemp_INVALID,
     d_mFx = Ifx_None, d_mAddr = None, d_mSize = 0, d_nFxState = 0, d_fxState = []\<rparr>"

definition mkIRCAS :: "IRTemp \<Rightarrow> IRTemp \<Rightarrow> IREndness \<Rightarrow> IRExpr \<Rightarrow> IRExpr option \<Rightarrow> IRExpr \<Rightarrow>
    IRExpr option \<Rightarrow> IRExpr \<Rightarrow> IRCAS" where
  "mkIRCAS oldHi oldLo en addr expdHi expdLo dataHi dataLo =
     \<lparr>cas_oldHi = oldHi, cas_oldLo = oldLo, cas_end = en, cas_addr = addr, cas_expdHi = expdHi,
      cas_expdLo = expdLo, cas_dataHi = dataHi, cas_dataLo = dataLo\<rparr>"

definition mkIRPutI :: "IRRegArray \<Rightarrow> IRExpr \<Rightarrow> int \<Rightarrow> IRExpr \<Rightarrow> IRPutI" where
  "mkIRPutI descr ix bias dat =
     \<lparr>puti_descr = descr, puti_ix = ix, puti_bias = bias, puti_data = dat\<rparr>"

definition mkIRStoreG :: "IREndness \<Rightarrow> IRExpr \<Rightarrow> IRExpr \<Rightarrow> IRExpr \<Rightarrow> IRStoreG" where
  "mkIRStoreG en addr dat guard =
     \<lparr>sg_end = en, sg_addr = addr, sg_data = dat, sg_guard = guard\<rparr>"

definition mkIRLoadG :: "IREndness \<Rightarrow> IRLoadGOp \<Rightarrow> IRTemp \<Rightarrow> IRExpr \<Rightarrow> IRExpr \<Rightarrow> IRExpr \<Rightarrow> IRLoadG" where
  "mkIRLoadG en cvt dst addr alt guard =
     \<lparr>lg_end = en, lg_cvt = cvt, lg_dst = dst, lg_addr = addr, lg_alt = alt, lg_guard = guard\<rparr>"

definition emptyIRTypeEnv :: IRTypeEnv where
  "emptyIRTypeEnv = \<lparr>types = [], types_size = 8\<rparr>"

definition emptyIRSB :: IRSB where
  "emptyIRSB = \<lparr>tyenv = emptyIRTypeEnv, stmts = [], stmts_size = 8, sb_next = None,
     sb_jumpkind = Ijk_Boring, sb_offsIP = 0\<rparr>"

text \<open>On the 64-bit hosts the tools are built for, \<open>sizeof(RegWord)\<close> is 8.\<close>

definition mkIRExpr_HWord :: "64 word \<Rightarrow> IRExpr" where
  "mkIRExpr_HWord hw = Iex_Const (Ico_U64 hw)"

definition unsafeIRDirty_0_N ::
    "int \<Rightarrow> string \<Rightarrow> fnptr \<Rightarrow> IRExpr list \<Rightarrow> IRDirty res" where
  "unsafeIRDirty_0_N regparms name addr args =
     bindR (mkIRCallee regparms (Some name) addr) (\<lambda>cee.
     bindR (IRConst_U1 1) (\<lambda>c.
     Inr (emptyIRDirty\<lparr>d_cee := Some cee, d_guard := Some (Iex_Const c), d_args := Some args\<rparr>)))"

definition unsafeIRDirty_1_N ::
    "IRTemp \<Rightarrow> int \<Rightarrow> string \<Rightarrow> fnptr \<Rightarrow> IRExpr list \<Rightarrow> IRDirty res" where
  "unsafeIRDirty_1_N dst regparms name addr args =
     bindR (mkIRCallee regparms (Some name) addr) (\<lambda>cee.
     bindR (IRConst_U1 1) (\<lambda>c.
     Inr (emptyIRDirty\<lparr>d_cee := Some cee, d_guard := Some (Iex_Const c), d_args := Some args,
            d_tmp := dst\<rparr>)))"

definition mkIRExprCCall :: "IRType \<Rightarrow> int \<Rightarrow> string \<Rightarrow> fnptr \<Rightarrow> IRExpr list \<Rightarrow> IRExpr res" where
  "mkIRExprCCall retty regparms name addr args =
     bindR (mkIRCallee regparms (Some name) addr) (\<lambda>cee. Inr (Iex_CCall cee retty args))"

section \<open>Growing a block and its type environment\<close>

text \<open>
  \<open>addStmtToIRSB\<close> doubles a full statement array before it appends; its assertion fails exactly
  for an array of size zero, which doubling leaves at zero.
\<close>

definition addStmtToIRSB :: "IRSB \<Rightarrow> IRStmt option \<Rightarrow> IRSB res" where
  "addStmtToIRSB bb st =
     (let bb = (if stmts_used bb = stmts_size bb then bb\<lparr>stmts_size := 2 * stmts_size bb\<rparr> else bb)
      in bindR (assertR (stmts_used bb < stmts_size bb) (VAssert ''bb->stmts_used < bb->stmts_size''))
           (\<lambda>_. Inr (bb\<lparr>stmts := stmts bb @ [st]\<rparr>)))"

text \<open>The recursive call of \<open>newIRTemp\<close> after growing the array takes its first branch.\<close>

definition newIRTemp :: "IRTypeEnv \<Rightarrow> IRType \<Rightarrow> (IRTypeEnv \<times> IRTemp) res" where
  "newIRTemp env ty =
     bindR (assertR (types_used env \<le> types_size env) (VAssert ''env->types_used <= env->types_size''))
       (\<lambda>_. let env = (if types_used env < types_size env then env
                       else env\<lparr>types_size := (if types_size env = 0 then 8 else 2 * types_size env)\<rparr>)
            in Inr (env\<lparr>types := types env @ [ty]\<rparr>, types_used env))"

section \<open>Facts about the constructors\<close>

text \<open>A block in the shape every VEX function keeps: used parts within allocated ones, and a
  statement array that was allocated with at least one slot.\<close>

definition wf_env :: "IRTypeEnv \<Rightarrow> bool" where
  "wf_env env \<longleftrightarrow> types_used env \<le> types_size env"

definition wf_sb :: "IRSB \<Rightarrow> bool" where
  "wf_sb bb \<longleftrightarrow> stmts_used bb \<le> stmts_size bb \<and> 8 \<le> stmts_size bb \<and> wf_env (tyenv bb)"

lemma IRConst_U1_1 [simp]: "IRConst_U1 1 = Inr (Ico_U1 1)"
  by (simp add: IRConst_U1_def)

lemma mkIRCallee_ok [simp]:
  "0 \<le> n \<Longrightarrow> n \<le> 3 \<Longrightarrow> mkIRCallee n (Some nm) (Fn f) =
     Inr \<lparr>cee_regparms = n, cee_name = Some nm, cee_addr = Fn f, cee_mcx_mask = 0\<rparr>"
  by (simp add: mkIRCallee_def)

text \<open>What the two growing functions compute on a well-formed block, as total functions.\<close>

definition push_stmt :: "IRSB \<Rightarrow> IRStmt option \<Rightarrow> IRSB" where
  "push_stmt bb st = bb\<lparr>stmts := stmts bb @ [st],
     stmts_size := (if stmts_used bb = stmts_size bb then 2 * stmts_size bb else stmts_size bb)\<rparr>"

definition push_type :: "IRTypeEnv \<Rightarrow> IRType \<Rightarrow> IRTypeEnv" where
  "push_type env ty = env\<lparr>types := types env @ [ty],
     types_size := (if types_used env < types_size env then types_size env
                    else if types_size env = 0 then 8 else 2 * types_size env)\<rparr>"

lemma addStmtToIRSB_ok: "wf_sb bb \<Longrightarrow> addStmtToIRSB bb st = Inr (push_stmt bb st)"
  by (cases bb) (auto simp: addStmtToIRSB_def push_stmt_def wf_sb_def Let_def)

lemma newIRTemp_ok: "wf_env env \<Longrightarrow> newIRTemp env ty = Inr (push_type env ty, types_used env)"
  by (cases env) (auto simp: newIRTemp_def push_type_def wf_env_def Let_def)

lemma push_stmt_fields [simp]:
  "stmts (push_stmt bb st) = stmts bb @ [st]"
  "tyenv (push_stmt bb st) = tyenv bb"
  "sb_next (push_stmt bb st) = sb_next bb"
  "sb_jumpkind (push_stmt bb st) = sb_jumpkind bb"
  "sb_offsIP (push_stmt bb st) = sb_offsIP bb"
  by (simp_all add: push_stmt_def)

lemma types_push_type [simp]: "types (push_type env ty) = types env @ [ty]"
  by (simp add: push_type_def)

lemma wf_push_stmt [simp]: "wf_sb bb \<Longrightarrow> wf_sb (push_stmt bb st)"
  by (auto simp: wf_sb_def push_stmt_def)

lemma wf_push_type [simp]: "wf_env env \<Longrightarrow> wf_env (push_type env ty)"
  by (auto simp: wf_env_def push_type_def)

lemma wf_sb_env [simp]: "wf_sb bb \<Longrightarrow> wf_env (tyenv bb)"
  by (simp add: wf_sb_def)

lemma wf_sb_tyenv_update [simp]: "wf_sb bb \<Longrightarrow> wf_env env \<Longrightarrow> wf_sb (bb\<lparr>tyenv := env\<rparr>)"
  by (simp add: wf_sb_def)

lemma wf_emptyIRSB [simp]: "wf_sb emptyIRSB"
  by (simp add: wf_sb_def wf_env_def emptyIRSB_def emptyIRTypeEnv_def)

end
