(* ===== verification/Vex_Types.thy ===== *)
theory Vex_Types
  imports Vex_Primops
begin

text \<open>
  Types of expressions and sizes of types (\<open>typeOf*\<close>, \<open>sizeofIRType\<close>,
  \<open>integerIRTypeOfSize\<close> of \<open>VEX/priv/ir_defs.c\<close>), and the deep-copy functions.

  The lemmas: typing an expression is stable when temporaries are appended to the type environment,
  which is what lets a tool add temporaries while it copies statements over; the deep copy of a
  block's parts is structurally the original, or an assertion of one of the constructors fails.
\<close>

section \<open>Types and sizes\<close>

definition typeOfIRTemp :: "IRTypeEnv \<Rightarrow> IRTemp \<Rightarrow> IRType res" where
  "typeOfIRTemp env tmp =
     bindR (assertR (tmp < types_used env) (VAssert ''tmp < env->types_used''))
       (\<lambda>_. Inr (types env ! tmp))"

fun typeOfIRConst :: "IRConst \<Rightarrow> IRType" where
  "typeOfIRConst (Ico_U1 _) = Ity_I1"
| "typeOfIRConst (Ico_U8 _) = Ity_I8"
| "typeOfIRConst (Ico_U16 _) = Ity_I16"
| "typeOfIRConst (Ico_U32 _) = Ity_I32"
| "typeOfIRConst (Ico_U64 _) = Ity_I64"
| "typeOfIRConst (Ico_F32 _) = Ity_F32"
| "typeOfIRConst (Ico_F32i _) = Ity_F32"
| "typeOfIRConst (Ico_F64 _) = Ity_F64"
| "typeOfIRConst (Ico_F64i _) = Ity_F64"
| "typeOfIRConst (Ico_V128 _) = Ity_V128"
| "typeOfIRConst (Ico_V256 _) = Ity_V256"

text \<open>The pair is the result type and the type the load is done at.\<close>

fun typeOfIRLoadGOp :: "IRLoadGOp \<Rightarrow> (IRType \<times> IRType) res" where
  "typeOfIRLoadGOp ILGop_IdentV128 = Inr (Ity_V128, Ity_V128)"
| "typeOfIRLoadGOp ILGop_Ident64 = Inr (Ity_I64, Ity_I64)"
| "typeOfIRLoadGOp ILGop_Ident32 = Inr (Ity_I32, Ity_I32)"
| "typeOfIRLoadGOp ILGop_16Uto32 = Inr (Ity_I32, Ity_I16)"
| "typeOfIRLoadGOp ILGop_16Sto32 = Inr (Ity_I32, Ity_I16)"
| "typeOfIRLoadGOp ILGop_8Uto32 = Inr (Ity_I32, Ity_I8)"
| "typeOfIRLoadGOp ILGop_8Sto32 = Inr (Ity_I32, Ity_I8)"
| "typeOfIRLoadGOp ILGop_INVALID = Inl (VPanic ''typeOfIRLoadGOp'')"

fun typeOfIRExpr :: "IRTypeEnv \<Rightarrow> IRExpr \<Rightarrow> IRType res" where
  "typeOfIRExpr env (Iex_Load _ ty _) = Inr ty"
| "typeOfIRExpr env (Iex_Get _ ty) = Inr ty"
| "typeOfIRExpr env (Iex_GetI descr _ _) = Inr (ra_elemTy descr)"
| "typeOfIRExpr env (Iex_RdTmp tmp) = typeOfIRTemp env tmp"
| "typeOfIRExpr env (Iex_Const con) = Inr (typeOfIRConst con)"
| "typeOfIRExpr env (Iex_Qop op _ _ _ _) = bindR (typeOfPrimop op) (\<lambda>s. Inr (t_dst s))"
| "typeOfIRExpr env (Iex_Triop op _ _ _) = bindR (typeOfPrimop op) (\<lambda>s. Inr (t_dst s))"
| "typeOfIRExpr env (Iex_Binop op _ _) = bindR (typeOfPrimop op) (\<lambda>s. Inr (t_dst s))"
| "typeOfIRExpr env (Iex_Unop op _) = bindR (typeOfPrimop op) (\<lambda>s. Inr (t_dst s))"
| "typeOfIRExpr env (Iex_CCall _ retty _) = Inr retty"
| "typeOfIRExpr env (Iex_ITE _ _ iffalse) = typeOfIRExpr env iffalse"
| "typeOfIRExpr env (Iex_Binder _) =
     Inl (VPanic ''typeOfIRExpr: Binder is not a valid expression'')"
| "typeOfIRExpr env Iex_VECRET =
     Inl (VPanic ''typeOfIRExpr: VECRET is not a valid expression'')"
| "typeOfIRExpr env Iex_GSPTR =
     Inl (VPanic ''typeOfIRExpr: GSPTR is not a valid expression'')"

fun isPlausibleIRType :: "IRType \<Rightarrow> bool" where
  "isPlausibleIRType Ity_INVALID = True"
| "isPlausibleIRType Ity_I1 = True"
| "isPlausibleIRType Ity_I8 = True"
| "isPlausibleIRType Ity_I16 = True"
| "isPlausibleIRType Ity_I32 = True"
| "isPlausibleIRType Ity_I64 = True"
| "isPlausibleIRType Ity_I128 = True"
| "isPlausibleIRType Ity_F16 = True"
| "isPlausibleIRType Ity_F32 = True"
| "isPlausibleIRType Ity_F64 = True"
| "isPlausibleIRType Ity_F128 = True"
| "isPlausibleIRType Ity_D32 = True"
| "isPlausibleIRType Ity_D64 = True"
| "isPlausibleIRType Ity_D128 = True"
| "isPlausibleIRType Ity_V128 = True"
| "isPlausibleIRType Ity_V256 = True"

fun sizeofIRType :: "IRType \<Rightarrow> int res" where
  "sizeofIRType Ity_I8 = Inr 1"
| "sizeofIRType Ity_I16 = Inr 2"
| "sizeofIRType Ity_I32 = Inr 4"
| "sizeofIRType Ity_I64 = Inr 8"
| "sizeofIRType Ity_I128 = Inr 16"
| "sizeofIRType Ity_F16 = Inr 2"
| "sizeofIRType Ity_F32 = Inr 4"
| "sizeofIRType Ity_F64 = Inr 8"
| "sizeofIRType Ity_F128 = Inr 16"
| "sizeofIRType Ity_D32 = Inr 4"
| "sizeofIRType Ity_D64 = Inr 8"
| "sizeofIRType Ity_D128 = Inr 16"
| "sizeofIRType Ity_V128 = Inr 16"
| "sizeofIRType Ity_V256 = Inr 32"
| "sizeofIRType _ = Inl (VPanic ''sizeofIRType'')"

definition integerIRTypeOfSize :: "int \<Rightarrow> IRType res" where
  "integerIRTypeOfSize szB =
     (if szB = 8 then Inr Ity_I64
      else if szB = 4 then Inr Ity_I32
      else if szB = 2 then Inr Ity_I16
      else if szB = 1 then Inr Ity_I8
      else Inl (VPanic ''integerIRTypeOfSize''))"

section \<open>Deep copies\<close>

fun deepCopyIRConst :: "IRConst \<Rightarrow> IRConst res" where
  "deepCopyIRConst (Ico_U1 b) = IRConst_U1 b"
| "deepCopyIRConst (Ico_U8 w) = Inr (Ico_U8 w)"
| "deepCopyIRConst (Ico_U16 w) = Inr (Ico_U16 w)"
| "deepCopyIRConst (Ico_U32 w) = Inr (Ico_U32 w)"
| "deepCopyIRConst (Ico_U64 w) = Inr (Ico_U64 w)"
| "deepCopyIRConst (Ico_F32 w) = Inr (Ico_F32 w)"
| "deepCopyIRConst (Ico_F32i w) = Inr (Ico_F32i w)"
| "deepCopyIRConst (Ico_F64 w) = Inr (Ico_F64 w)"
| "deepCopyIRConst (Ico_F64i w) = Inr (Ico_F64i w)"
| "deepCopyIRConst (Ico_V128 w) = Inr (Ico_V128 w)"
| "deepCopyIRConst (Ico_V256 w) = Inr (Ico_V256 w)"

definition deepCopyIRCallee :: "IRCallee \<Rightarrow> IRCallee res" where
  "deepCopyIRCallee ce =
     bindR (mkIRCallee (cee_regparms ce) (cee_name ce) (cee_addr ce))
       (\<lambda>ce2. Inr (ce2\<lparr>cee_mcx_mask := cee_mcx_mask ce\<rparr>))"

definition deepCopyIRRegArray :: "IRRegArray \<Rightarrow> IRRegArray res" where
  "deepCopyIRRegArray d = mkIRRegArray (ra_base d) (ra_elemTy d) (ra_nElems d)"

fun deepCopyIRExpr :: "IRExpr \<Rightarrow> IRExpr res" where
  "deepCopyIRExpr (Iex_Get off ty) = Inr (Iex_Get off ty)"
| "deepCopyIRExpr (Iex_GetI descr ix bias) =
     bindR (deepCopyIRRegArray descr) (\<lambda>descr'.
     bindR (deepCopyIRExpr ix) (\<lambda>ix'. Inr (Iex_GetI descr' ix' bias)))"
| "deepCopyIRExpr (Iex_RdTmp tmp) = Inr (Iex_RdTmp tmp)"
| "deepCopyIRExpr (Iex_Qop op a1 a2 a3 a4) =
     bindR (deepCopyIRExpr a1) (\<lambda>b1. bindR (deepCopyIRExpr a2) (\<lambda>b2.
     bindR (deepCopyIRExpr a3) (\<lambda>b3. bindR (deepCopyIRExpr a4) (\<lambda>b4.
     Inr (Iex_Qop op b1 b2 b3 b4)))))"
| "deepCopyIRExpr (Iex_Triop op a1 a2 a3) =
     bindR (deepCopyIRExpr a1) (\<lambda>b1. bindR (deepCopyIRExpr a2) (\<lambda>b2.
     bindR (deepCopyIRExpr a3) (\<lambda>b3. Inr (Iex_Triop op b1 b2 b3))))"
| "deepCopyIRExpr (Iex_Binop op a1 a2) =
     bindR (deepCopyIRExpr a1) (\<lambda>b1. bindR (deepCopyIRExpr a2) (\<lambda>b2.
     Inr (Iex_Binop op b1 b2)))"
| "deepCopyIRExpr (Iex_Unop op a1) = bindR (deepCopyIRExpr a1) (\<lambda>b1. Inr (Iex_Unop op b1))"
| "deepCopyIRExpr (Iex_Load en ty addr) =
     bindR (deepCopyIRExpr addr) (\<lambda>addr'. Inr (Iex_Load en ty addr'))"
| "deepCopyIRExpr (Iex_Const con) = bindR (deepCopyIRConst con) (\<lambda>con'. Inr (Iex_Const con'))"
| "deepCopyIRExpr (Iex_CCall cee retty args) =
     bindR (deepCopyIRCallee cee) (\<lambda>cee'.
     bindR (mapR deepCopyIRExpr args) (\<lambda>args'. Inr (Iex_CCall cee' retty args')))"
| "deepCopyIRExpr (Iex_ITE c t f) =
     bindR (deepCopyIRExpr c) (\<lambda>c'. bindR (deepCopyIRExpr t) (\<lambda>t'.
     bindR (deepCopyIRExpr f) (\<lambda>f'. Inr (Iex_ITE c' t' f'))))"
| "deepCopyIRExpr Iex_VECRET = Inr Iex_VECRET"
| "deepCopyIRExpr Iex_GSPTR = Inr Iex_GSPTR"
| "deepCopyIRExpr (Iex_Binder b) = Inr (Iex_Binder b)"

definition deepCopyIRExprVec :: "IRExpr list \<Rightarrow> IRExpr list res" where
  "deepCopyIRExprVec vec = mapR deepCopyIRExpr vec"

text \<open>The copy of a pointer that the source tests for NULL first, and of one it does not.\<close>

definition copy_opt :: "IRExpr option \<Rightarrow> IRExpr option res" where
  "copy_opt e = (case e of None \<Rightarrow> Inr None | Some x \<Rightarrow> bindR (deepCopyIRExpr x) (\<lambda>y. Inr (Some y)))"

definition deepCopyIRDirty :: "IRDirty \<Rightarrow> IRDirty res" where
  "deepCopyIRDirty d =
     bindR (optR NullDeref (d_cee d)) (\<lambda>cee. bindR (deepCopyIRCallee cee) (\<lambda>cee'.
     bindR (optR NullDeref (d_guard d)) (\<lambda>g. bindR (deepCopyIRExpr g) (\<lambda>g'.
     bindR (optR NullDeref (d_args d)) (\<lambda>args. bindR (deepCopyIRExprVec args) (\<lambda>args'.
     bindR (copy_opt (d_mAddr d)) (\<lambda>mAddr'.
     Inr (emptyIRDirty\<lparr>d_cee := Some cee', d_guard := Some g', d_args := Some args',
            d_tmp := d_tmp d, d_mFx := d_mFx d, d_mAddr := mAddr', d_mSize := d_mSize d,
            d_nFxState := d_nFxState d,
            d_fxState := take (nat (d_nFxState d)) (d_fxState d)\<rparr>))))))))"

definition deepCopyIRCAS :: "IRCAS \<Rightarrow> IRCAS res" where
  "deepCopyIRCAS cas =
     bindR (deepCopyIRExpr (cas_addr cas)) (\<lambda>addr'.
     bindR (copy_opt (cas_expdHi cas)) (\<lambda>eh. bindR (deepCopyIRExpr (cas_expdLo cas)) (\<lambda>el.
     bindR (copy_opt (cas_dataHi cas)) (\<lambda>dh. bindR (deepCopyIRExpr (cas_dataLo cas)) (\<lambda>dl.
     Inr (mkIRCAS (cas_oldHi cas) (cas_oldLo cas) (cas_end cas) addr' eh el dh dl))))))"

definition deepCopyIRPutI :: "IRPutI \<Rightarrow> IRPutI res" where
  "deepCopyIRPutI p =
     bindR (deepCopyIRRegArray (puti_descr p)) (\<lambda>d. bindR (deepCopyIRExpr (puti_ix p)) (\<lambda>ix.
     bindR (deepCopyIRExpr (puti_data p)) (\<lambda>dat. Inr (mkIRPutI d ix (puti_bias p) dat))))"

fun deepCopyIRStmt :: "IRStmt \<Rightarrow> IRStmt res" where
  "deepCopyIRStmt Ist_NoOp = Inr Ist_NoOp"
| "deepCopyIRStmt (Ist_AbiHint base len nia) =
     bindR (deepCopyIRExpr base) (\<lambda>base'. bindR (deepCopyIRExpr nia) (\<lambda>nia'.
     Inr (Ist_AbiHint base' len nia')))"
| "deepCopyIRStmt (Ist_IMark addr len delta) = Inr (Ist_IMark addr len delta)"
| "deepCopyIRStmt (Ist_Put off dat) = bindR (deepCopyIRExpr dat) (\<lambda>dat'. Inr (Ist_Put off dat'))"
| "deepCopyIRStmt (Ist_PutI p) = bindR (deepCopyIRPutI p) (\<lambda>p'. Inr (Ist_PutI p'))"
| "deepCopyIRStmt (Ist_WrTmp tmp dat) =
     bindR (deepCopyIRExpr dat) (\<lambda>dat'. Inr (Ist_WrTmp tmp dat'))"
| "deepCopyIRStmt (Ist_Store en addr dat) =
     bindR (deepCopyIRExpr addr) (\<lambda>addr'. bindR (deepCopyIRExpr dat) (\<lambda>dat'.
     Inr (Ist_Store en addr' dat')))"
| "deepCopyIRStmt (Ist_StoreG sg) =
     bindR (deepCopyIRExpr (sg_addr sg)) (\<lambda>a. bindR (deepCopyIRExpr (sg_data sg)) (\<lambda>dt.
     bindR (deepCopyIRExpr (sg_guard sg)) (\<lambda>g. Inr (Ist_StoreG (mkIRStoreG (sg_end sg) a dt g)))))"
| "deepCopyIRStmt (Ist_LoadG lg) =
     bindR (deepCopyIRExpr (lg_addr lg)) (\<lambda>a. bindR (deepCopyIRExpr (lg_alt lg)) (\<lambda>al.
     bindR (deepCopyIRExpr (lg_guard lg)) (\<lambda>g.
     Inr (Ist_LoadG (mkIRLoadG (lg_end lg) (lg_cvt lg) (lg_dst lg) a al g)))))"
| "deepCopyIRStmt (Ist_CAS cas) = bindR (deepCopyIRCAS cas) (\<lambda>cas'. Inr (Ist_CAS cas'))"
| "deepCopyIRStmt (Ist_LLSC en result addr storedata) =
     bindR (deepCopyIRExpr addr) (\<lambda>addr'. bindR (copy_opt storedata) (\<lambda>sd.
     Inr (Ist_LLSC en result addr' sd)))"
| "deepCopyIRStmt (Ist_Dirty d) = bindR (deepCopyIRDirty d) (\<lambda>d'. Inr (Ist_Dirty d'))"
| "deepCopyIRStmt (Ist_MBE ev) = Inr (Ist_MBE ev)"
| "deepCopyIRStmt (Ist_Exit guard jk dst offsIP) =
     bindR (deepCopyIRExpr guard) (\<lambda>guard'. bindR (deepCopyIRConst dst) (\<lambda>dst'.
     Inr (Ist_Exit guard' jk dst' offsIP)))"

definition deepCopyIRTypeEnv :: "IRTypeEnv \<Rightarrow> IRTypeEnv" where
  "deepCopyIRTypeEnv src = \<lparr>types = types src, types_size = types_size src\<rparr>"

definition deepCopyIRSBExceptStmts :: "IRSB \<Rightarrow> IRSB res" where
  "deepCopyIRSBExceptStmts bb =
     bindR (optR NullDeref (sb_next bb)) (\<lambda>nx. bindR (deepCopyIRExpr nx) (\<lambda>nx'.
     Inr (emptyIRSB\<lparr>tyenv := deepCopyIRTypeEnv (tyenv bb), sb_next := Some nx',
            sb_jumpkind := sb_jumpkind bb, sb_offsIP := sb_offsIP bb\<rparr>)))"

definition deepCopyIRSB :: "IRSB \<Rightarrow> IRSB res" where
  "deepCopyIRSB bb =
     bindR (deepCopyIRSBExceptStmts bb) (\<lambda>bb2.
     bindR (mapR (\<lambda>st. bindR (optR NullDeref st) (\<lambda>s. bindR (deepCopyIRStmt s) (\<lambda>s'. Inr (Some s'))))
              (stmts bb)) (\<lambda>sts2.
     Inr (bb2\<lparr>stmts := sts2, stmts_size := stmts_used bb\<rparr>)))"

section \<open>Typing is stable under new temporaries\<close>

definition env_ext :: "IRTypeEnv \<Rightarrow> IRTypeEnv \<Rightarrow> bool" where
  "env_ext env env' \<longleftrightarrow> (\<exists>ts. types env' = types env @ ts)"

lemma env_ext_refl [simp]: "env_ext env env"
  by (simp add: env_ext_def)

lemma env_ext_trans [trans]: "env_ext a b \<Longrightarrow> env_ext b c \<Longrightarrow> env_ext a c"
  by (auto simp: env_ext_def)

lemma env_ext_push_type [simp]: "env_ext env (push_type env ty)"
  by (simp add: env_ext_def)

lemma env_ext_used: "env_ext env env' \<Longrightarrow> types_used env \<le> types_used env'"
  by (auto simp: env_ext_def)

lemma typeOfIRTemp_ext:
  "env_ext env env' \<Longrightarrow> typeOfIRTemp env t = Inr ty \<Longrightarrow> typeOfIRTemp env' t = Inr ty"
  by (auto simp: env_ext_def typeOfIRTemp_def res_iff nth_append)

lemma typeOfIRExpr_ext:
  "env_ext env env' \<Longrightarrow> typeOfIRExpr env e = Inr ty \<Longrightarrow> typeOfIRExpr env' e = Inr ty"
  by (induction env e rule: typeOfIRExpr.induct) (auto simp: res_iff typeOfIRTemp_ext)

lemma okle_typeOf [okle_intros]:
  "env_ext env env' \<Longrightarrow> okle (typeOfIRTemp env t) (typeOfIRTemp env' t)"
  "env_ext env env' \<Longrightarrow> okle (typeOfIRExpr env e) (typeOfIRExpr env' e)"
  by (simp_all add: okle_def typeOfIRTemp_ext typeOfIRExpr_ext)

lemma sizeofIRType_ok: "(\<exists>n. sizeofIRType ty = Inr n) = (ty \<noteq> Ity_INVALID \<and> ty \<noteq> Ity_I1)"
  by (cases ty) auto

lemma sizeofIRType_bounds: "sizeofIRType ty = Inr n \<Longrightarrow> 1 \<le> n \<and> n \<le> 32"
  by (cases ty) auto

section \<open>A deep copy is the original\<close>

lemma deepCopyIRConst_eq: "deepCopyIRConst c = Inr c' \<Longrightarrow> c' = c"
  by (cases c) (auto simp: IRConst_U1_def res_iff)

lemma deepCopyIRCallee_eq: "deepCopyIRCallee ce = Inr ce' \<Longrightarrow> ce' = ce"
  by (auto simp: deepCopyIRCallee_def mkIRCallee_def res_iff)

lemma deepCopyIRRegArray_eq: "deepCopyIRRegArray d = Inr d' \<Longrightarrow> d' = d"
  by (auto simp: deepCopyIRRegArray_def mkIRRegArray_def res_iff)

lemma mapR_eq_same: "mapR f xs = Inr ys \<Longrightarrow> (\<And>x y. x \<in> set xs \<Longrightarrow> f x = Inr y \<Longrightarrow> y = x) \<Longrightarrow> ys = xs"
  by (induction xs arbitrary: ys) (auto simp: res_iff)

lemma deepCopyIRExpr_eq: "deepCopyIRExpr e = Inr e' \<Longrightarrow> e' = e"
proof (induction e arbitrary: e' rule: deepCopyIRExpr.induct)
  case (10 cee retty args)
  from "10.prems" obtain cee' args' where
    c: "deepCopyIRCallee cee = Inr cee'" "mapR deepCopyIRExpr args = Inr args'"
       "e' = Iex_CCall cee' retty args'"
    by (auto simp: res_iff)
  then have "args' = args"
    using "10.IH" by (blast intro: mapR_eq_same)
  with c show ?case
    by (simp add: deepCopyIRCallee_eq)
qed (auto simp: res_iff dest: deepCopyIRConst_eq deepCopyIRRegArray_eq)

lemma copy_opt_eq: "copy_opt e = Inr e' \<Longrightarrow> e' = e"
  by (auto simp: copy_opt_def res_iff deepCopyIRExpr_eq split: option.splits)

lemmas deepCopy_eqs = deepCopyIRConst_eq deepCopyIRCallee_eq deepCopyIRRegArray_eq
  deepCopyIRExpr_eq copy_opt_eq

text \<open>The model keeps of a dirty call's effect array the entries it declares.\<close>

definition fx_trimmed :: "IRStmt \<Rightarrow> bool" where
  "fx_trimmed st = (case st of Ist_Dirty d \<Rightarrow> int (length (d_fxState d)) \<le> d_nFxState d | _ \<Rightarrow> True)"

lemma deepCopyIRDirty_eq:
  "deepCopyIRDirty d = Inr d' \<Longrightarrow> int (length (d_fxState d)) \<le> d_nFxState d \<Longrightarrow> d' = d"
  by (auto simp: deepCopyIRDirty_def deepCopyIRExprVec_def emptyIRDirty_def res_iff
      dest!: deepCopyIRCallee_eq deepCopyIRExpr_eq copy_opt_eq
      elim!: mapR_eq_same intro!: IRDirty.equality)

lemma deepCopyIRStmt_eq:
  assumes "deepCopyIRStmt s = Inr s'" and "fx_trimmed s"
  shows "s' = s"
  using assms
  by (cases s) (auto simp: res_iff fx_trimmed_def deepCopyIRPutI_def deepCopyIRCAS_def mkIRPutI_def
      mkIRCAS_def mkIRStoreG_def mkIRLoadG_def deepCopyIRDirty_eq dest!: deepCopy_eqs)

lemma deepCopyIRSBExceptStmts_ok:
  assumes "sb_next bb = Some nx" and "deepCopyIRExpr nx = Inr nx'" and "wf_env (tyenv bb)"
  shows "\<exists>bb2. deepCopyIRSBExceptStmts bb = Inr bb2 \<and> wf_sb bb2 \<and> stmts bb2 = []
           \<and> types (tyenv bb2) = types (tyenv bb) \<and> sb_next bb2 = sb_next bb
           \<and> sb_jumpkind bb2 = sb_jumpkind bb \<and> sb_offsIP bb2 = sb_offsIP bb"
proof -
  have "nx' = nx" using assms(2) by (rule deepCopyIRExpr_eq)
  then show ?thesis
    using assms by (simp add: deepCopyIRSBExceptStmts_def emptyIRSB_def deepCopyIRTypeEnv_def
        wf_sb_def wf_env_def)
qed

lemma deepCopy_atom:
  assumes "isIRAtom e" and "typeOfIRExpr env e = Inr ty" and "ty \<noteq> Ity_I1"
  shows "deepCopyIRExpr e = Inr e"
proof (cases e)
  case (Iex_Const c)
  with assms show ?thesis by (cases c) auto
qed (use assms in auto)

section \<open>Growing blocks\<close>

text \<open>A fresh temporary has the type asked for, no temporary had its number, and the others keep their types.\<close>

lemma fresh_temporary:
  assumes "wf_env env"
  shows "\<exists>env' t. newIRTemp env ty = Inr (env', t) \<and> wf_env env' \<and> typeOfIRTemp env' t = Inr ty
    \<and> \<not> isOk (typeOfIRTemp env t)
    \<and> (\<forall>u ty'. typeOfIRTemp env u = Inr ty' \<longrightarrow> typeOfIRTemp env' u = Inr ty')"
proof -
  have "typeOfIRTemp (push_type env ty) (types_used env) = Inr ty"
    by (simp add: typeOfIRTemp_def)
  moreover have "\<not> isOk (typeOfIRTemp env (types_used env))"
    by (simp add: typeOfIRTemp_def isOk_def)
  ultimately show ?thesis
    using newIRTemp_ok [OF assms, of ty] assms typeOfIRTemp_ext [OF env_ext_push_type] by auto
qed

text \<open>A statement is appended whether or not the statement array has to grow.\<close>

lemma append_statement:
  assumes "wf_sb bb"
  shows "\<exists>bb'. addStmtToIRSB bb st = Inr bb' \<and> wf_sb bb' \<and> stmts bb' = stmts bb @ [st]
    \<and> tyenv bb' = tyenv bb \<and> sb_next bb' = sb_next bb \<and> sb_jumpkind bb' = sb_jumpkind bb
    \<and> stmts_size bb' = (if stmts_used bb = stmts_size bb then 2 * stmts_size bb else stmts_size bb)"
  using addStmtToIRSB_ok [OF assms, of st] assms by (simp add: push_stmt_def [of bb st, symmetric]) (simp add: push_stmt_def)

end
