(* ===== verification/Vex_Sanity.thy ===== *)
theory Vex_Sanity
  imports Vex_Types
begin

text \<open>
  The IR sanity checker of \<open>VEX/priv/ir_defs.c\<close>: flatness, definition before use and single
  assignment of temporaries, and the type checker, up to \<open>sanityCheckIRSB\<close>, which VEX runs on the
  block a tool hands back.

  A checking function is a computation that either returns or stops: \<open>SanityFail\<close> is a call of
  \<open>sanityCheckFail\<close>, the other errors are the panics and dereferences the checker itself can run
  into. Of the block argument \<open>bb\<close> that the C functions pass around for their messages only the
  type environment matters and is kept. \<open>def_counts\<close> is the list of its entries.

  The lemmas show what success of each check means and that every check stays successful when
  temporaries are appended to the type environment and to \<open>def_counts\<close>.
\<close>

section \<open>Flatness\<close>

definition isIRAtom_or_VECRET_or_GSPTR :: "IRExpr \<Rightarrow> bool" where
  "isIRAtom_or_VECRET_or_GSPTR e = (if isIRAtom e then True else is_IRExpr_VECRET_or_GSPTR e)"

fun isFlatRHS :: "IRExpr \<Rightarrow> bool res" where
  "isFlatRHS (Iex_Binder _) = Inr True"
| "isFlatRHS (Iex_Get _ _) = Inr True"
| "isFlatRHS (Iex_GetI _ ix _) = Inr (isIRAtom ix)"
| "isFlatRHS (Iex_RdTmp _) = Inr True"
| "isFlatRHS (Iex_Qop _ a1 a2 a3 a4) = Inr (isIRAtom a1 \<and> isIRAtom a2 \<and> isIRAtom a3 \<and> isIRAtom a4)"
| "isFlatRHS (Iex_Triop _ a1 a2 a3) = Inr (isIRAtom a1 \<and> isIRAtom a2 \<and> isIRAtom a3)"
| "isFlatRHS (Iex_Binop _ a1 a2) = Inr (isIRAtom a1 \<and> isIRAtom a2)"
| "isFlatRHS (Iex_Unop _ a1) = Inr (isIRAtom a1)"
| "isFlatRHS (Iex_Load _ _ addr) = Inr (isIRAtom addr)"
| "isFlatRHS (Iex_Const _) = Inr True"
| "isFlatRHS (Iex_CCall _ _ args) = Inr (list_all isIRAtom args)"
| "isFlatRHS (Iex_ITE c t f) = Inr (isIRAtom c \<and> isIRAtom t \<and> isIRAtom f)"
| "isFlatRHS _ = Inl (VPanic ''isFlatIRStmt(e)'')"

fun atom_or_null :: "IRExpr option \<Rightarrow> bool" where
  "atom_or_null None = True"
| "atom_or_null (Some e) = isIRAtom e"

fun isFlatIRStmt :: "IRStmt \<Rightarrow> bool res" where
  "isFlatIRStmt (Ist_AbiHint base _ nia) = Inr (isIRAtom base \<and> isIRAtom nia)"
| "isFlatIRStmt (Ist_Put _ dat) = Inr (isIRAtom dat)"
| "isFlatIRStmt (Ist_PutI p) = Inr (isIRAtom (puti_ix p) \<and> isIRAtom (puti_data p))"
| "isFlatIRStmt (Ist_WrTmp _ e) = isFlatRHS e"
| "isFlatIRStmt (Ist_Store _ addr dat) = Inr (isIRAtom addr \<and> isIRAtom dat)"
| "isFlatIRStmt (Ist_StoreG sg) =
     Inr (isIRAtom (sg_addr sg) \<and> isIRAtom (sg_data sg) \<and> isIRAtom (sg_guard sg))"
| "isFlatIRStmt (Ist_LoadG lg) =
     Inr (isIRAtom (lg_addr lg) \<and> isIRAtom (lg_alt lg) \<and> isIRAtom (lg_guard lg))"
| "isFlatIRStmt (Ist_CAS cas) =
     Inr (isIRAtom (cas_addr cas) \<and> atom_or_null (cas_expdHi cas) \<and> isIRAtom (cas_expdLo cas)
          \<and> atom_or_null (cas_dataHi cas) \<and> isIRAtom (cas_dataLo cas))"
| "isFlatIRStmt (Ist_LLSC _ _ addr storedata) = Inr (isIRAtom addr \<and> atom_or_null storedata)"
| "isFlatIRStmt (Ist_Dirty di) =
     bindR (optR NullDeref (d_guard di)) (\<lambda>g.
     if \<not> isIRAtom g then Inr False
     else bindR (optR NullDeref (d_args di)) (\<lambda>args.
          if \<not> list_all isIRAtom_or_VECRET_or_GSPTR args then Inr False
          else Inr (atom_or_null (d_mAddr di))))"
| "isFlatIRStmt Ist_NoOp = Inr True"
| "isFlatIRStmt (Ist_IMark _ _ _) = Inr True"
| "isFlatIRStmt (Ist_MBE _) = Inr True"
| "isFlatIRStmt (Ist_Exit guard _ _ _) = Inr (isIRAtom guard)"

definition isFlatIRSB :: "IRSB \<Rightarrow> bool res" where
  "isFlatIRSB sb =
     bindR (foldR (\<lambda>ok st. if ok then bindR (optR NullDeref st) isFlatIRStmt else Inr False)
              True (stmts sb)) (\<lambda>ok.
     if \<not> ok then Inr False
     else bindR (optR NullDeref (sb_next sb)) (\<lambda>nx. Inr (isIRAtom nx)))"

section \<open>Sane constants, callees and register arrays\<close>

definition saneIRRegArray :: "IRRegArray \<Rightarrow> bool" where
  "saneIRRegArray arr =
     (if ra_base arr < 0 \<or> ra_base arr > 10000 then False
      else if ra_elemTy arr = Ity_I1 then False
      else if ra_nElems arr \<le> 0 \<or> ra_nElems arr > 500 then False
      else True)"

definition saneIRCallee :: "IRCallee \<Rightarrow> bool" where
  "saneIRCallee cee =
     (if cee_name cee = None then False
      else if cee_addr cee = NullFn then False
      else if cee_regparms cee < 0 \<or> cee_regparms cee > 3 then False
      else True)"

fun saneIRConst :: "IRConst \<Rightarrow> bool" where
  "saneIRConst (Ico_U1 b) = (b = 1 \<or> b = 0)"
| "saneIRConst _ = True"

section \<open>Definition before use, single assignment\<close>

definition useBeforeDef_Temp :: "IRTypeEnv \<Rightarrow> nat list \<Rightarrow> IRTemp \<Rightarrow> unit res" where
  "useBeforeDef_Temp env dc tmp =
     bindR (assertR (tmp < types_used env) (SanityFail ''out of range Temp in IRExpr'')) (\<lambda>_.
     assertR (\<not> dc ! tmp < 1) (SanityFail ''IRTemp use before def in IRExpr''))"

definition assignedOnce_Temp ::
    "IRTemp \<Rightarrow> nat list \<Rightarrow> nat \<Rightarrow> string \<Rightarrow> string \<Rightarrow> nat list res" where
  "assignedOnce_Temp tmp dc n_def_counts err_range err_once =
     bindR (assertR (tmp < n_def_counts) (SanityFail err_range)) (\<lambda>_.
     let dc' = dc[tmp := dc ! tmp + 1] in
     bindR (assertR (\<not> dc' ! tmp > 1) (SanityFail err_once)) (\<lambda>_. Inr dc'))"

fun useBeforeDef_Expr :: "IRTypeEnv \<Rightarrow> nat list \<Rightarrow> IRExpr \<Rightarrow> unit res" where
  "useBeforeDef_Expr env dc (Iex_Get _ _) = Inr ()"
| "useBeforeDef_Expr env dc (Iex_GetI _ ix _) = useBeforeDef_Expr env dc ix"
| "useBeforeDef_Expr env dc (Iex_RdTmp tmp) = useBeforeDef_Temp env dc tmp"
| "useBeforeDef_Expr env dc (Iex_Qop _ a1 a2 a3 a4) =
     bindR (useBeforeDef_Expr env dc a1) (\<lambda>_. bindR (useBeforeDef_Expr env dc a2) (\<lambda>_.
     bindR (useBeforeDef_Expr env dc a3) (\<lambda>_. useBeforeDef_Expr env dc a4)))"
| "useBeforeDef_Expr env dc (Iex_Triop _ a1 a2 a3) =
     bindR (useBeforeDef_Expr env dc a1) (\<lambda>_. bindR (useBeforeDef_Expr env dc a2) (\<lambda>_.
     useBeforeDef_Expr env dc a3))"
| "useBeforeDef_Expr env dc (Iex_Binop _ a1 a2) =
     bindR (useBeforeDef_Expr env dc a1) (\<lambda>_. useBeforeDef_Expr env dc a2)"
| "useBeforeDef_Expr env dc (Iex_Unop _ a1) = useBeforeDef_Expr env dc a1"
| "useBeforeDef_Expr env dc (Iex_Load _ _ addr) = useBeforeDef_Expr env dc addr"
| "useBeforeDef_Expr env dc (Iex_Const _) = Inr ()"
| "useBeforeDef_Expr env dc (Iex_CCall _ _ args) =
     forR (\<lambda>arg. if is_IRExpr_VECRET_or_GSPTR arg
                  then Inl (SanityFail ''IRExprP__* value in CCall arg list'')
                  else useBeforeDef_Expr env dc arg) args"
| "useBeforeDef_Expr env dc (Iex_ITE c t f) =
     bindR (useBeforeDef_Expr env dc c) (\<lambda>_. bindR (useBeforeDef_Expr env dc t) (\<lambda>_.
     useBeforeDef_Expr env dc f))"
| "useBeforeDef_Expr env dc _ = Inl (VPanic ''useBeforeDef_Expr'')"

definition useBeforeDef_opt :: "IRTypeEnv \<Rightarrow> nat list \<Rightarrow> IRExpr option \<Rightarrow> unit res" where
  "useBeforeDef_opt env dc e = (case e of None \<Rightarrow> Inr () | Some x \<Rightarrow> useBeforeDef_Expr env dc x)"

fun useBeforeDef_Stmt :: "IRTypeEnv \<Rightarrow> nat list \<Rightarrow> IRStmt \<Rightarrow> unit res" where
  "useBeforeDef_Stmt env dc (Ist_IMark _ _ _) = Inr ()"
| "useBeforeDef_Stmt env dc (Ist_AbiHint base _ nia) =
     bindR (useBeforeDef_Expr env dc base) (\<lambda>_. useBeforeDef_Expr env dc nia)"
| "useBeforeDef_Stmt env dc (Ist_Put _ dat) = useBeforeDef_Expr env dc dat"
| "useBeforeDef_Stmt env dc (Ist_PutI p) =
     bindR (useBeforeDef_Expr env dc (puti_ix p)) (\<lambda>_. useBeforeDef_Expr env dc (puti_data p))"
| "useBeforeDef_Stmt env dc (Ist_WrTmp _ dat) = useBeforeDef_Expr env dc dat"
| "useBeforeDef_Stmt env dc (Ist_Store _ addr dat) =
     bindR (useBeforeDef_Expr env dc addr) (\<lambda>_. useBeforeDef_Expr env dc dat)"
| "useBeforeDef_Stmt env dc (Ist_StoreG sg) =
     bindR (useBeforeDef_Expr env dc (sg_addr sg)) (\<lambda>_.
     bindR (useBeforeDef_Expr env dc (sg_data sg)) (\<lambda>_. useBeforeDef_Expr env dc (sg_guard sg)))"
| "useBeforeDef_Stmt env dc (Ist_LoadG lg) =
     bindR (useBeforeDef_Expr env dc (lg_addr lg)) (\<lambda>_.
     bindR (useBeforeDef_Expr env dc (lg_alt lg)) (\<lambda>_. useBeforeDef_Expr env dc (lg_guard lg)))"
| "useBeforeDef_Stmt env dc (Ist_CAS cas) =
     bindR (useBeforeDef_Expr env dc (cas_addr cas)) (\<lambda>_.
     bindR (useBeforeDef_opt env dc (cas_expdHi cas)) (\<lambda>_.
     bindR (useBeforeDef_Expr env dc (cas_expdLo cas)) (\<lambda>_.
     bindR (useBeforeDef_opt env dc (cas_dataHi cas)) (\<lambda>_.
     useBeforeDef_Expr env dc (cas_dataLo cas)))))"
| "useBeforeDef_Stmt env dc (Ist_LLSC _ _ addr storedata) =
     bindR (useBeforeDef_Expr env dc addr) (\<lambda>_. useBeforeDef_opt env dc storedata)"
| "useBeforeDef_Stmt env dc (Ist_Dirty d) =
     bindR (optR NullDeref (d_args d)) (\<lambda>args.
     bindR (forR (\<lambda>arg. if is_IRExpr_VECRET_or_GSPTR arg then Inr ()
                         else useBeforeDef_Expr env dc arg) args) (\<lambda>_.
     if d_mFx d \<noteq> Ifx_None
     then bindR (optR NullDeref (d_mAddr d)) (\<lambda>a. useBeforeDef_Expr env dc a)
     else Inr ()))"
| "useBeforeDef_Stmt env dc Ist_NoOp = Inr ()"
| "useBeforeDef_Stmt env dc (Ist_MBE _) = Inr ()"
| "useBeforeDef_Stmt env dc (Ist_Exit guard _ _ _) = useBeforeDef_Expr env dc guard"

fun assignedOnce_Stmt :: "IRStmt \<Rightarrow> nat list \<Rightarrow> nat \<Rightarrow> nat list res" where
  "assignedOnce_Stmt (Ist_WrTmp tmp _) dc n =
     assignedOnce_Temp tmp dc n ''IRStmt.Tmp: destination tmp is out of range''
       ''IRStmt.Tmp: destination tmp is assigned more than once''"
| "assignedOnce_Stmt (Ist_LoadG lg) dc n =
     assignedOnce_Temp (lg_dst lg) dc n ''IRStmt.LoadG: destination tmp is out of range''
       ''IRStmt.LoadG: destination tmp is assigned more than once''"
| "assignedOnce_Stmt (Ist_Dirty d) dc n =
     (if d_tmp d \<noteq> IRTemp_INVALID
      then assignedOnce_Temp (d_tmp d) dc n ''IRStmt.Dirty: destination tmp is out of range''
             ''IRStmt.Dirty: destination tmp is assigned more than once''
      else Inr dc)"
| "assignedOnce_Stmt (Ist_CAS cas) dc n =
     bindR (if cas_oldHi cas \<noteq> IRTemp_INVALID
            then assignedOnce_Temp (cas_oldHi cas) dc n
                   ''IRStmt.CAS: destination tmpHi is out of range''
                   ''IRStmt.CAS: destination tmpHi is assigned more than once''
            else Inr dc) (\<lambda>dc.
     assignedOnce_Temp (cas_oldLo cas) dc n ''IRStmt.CAS: destination tmpLo is out of range''
       ''IRStmt.CAS: destination tmpLo is assigned more than once'')"
| "assignedOnce_Stmt (Ist_LLSC _ result _ _) dc n =
     assignedOnce_Temp result dc n ''IRStmt.LLSC: destination tmp is out of range''
       ''IRStmt.LLSC: destination tmp is assigned more than once''"
| "assignedOnce_Stmt _ dc n = Inr dc"

section \<open>The type checker\<close>

function (sequential) tcExpr :: "IRTypeEnv \<Rightarrow> IRType \<Rightarrow> IRExpr \<Rightarrow> unit res" where
  "tcExpr env gw (Iex_Get _ _) = Inr ()"
| "tcExpr env gw (Iex_RdTmp _) = Inr ()"
| "tcExpr env gw (Iex_GetI descr ix _) =
     bindR (tcExpr env gw ix) (\<lambda>_.
     bindR (typeOfIRExpr env ix) (\<lambda>t.
     bindR (assertR (t = Ity_I32) (SanityFail ''IRExpr.GetI.ix: not :: Ity_I32'')) (\<lambda>_.
     assertR (saneIRRegArray descr) (SanityFail ''IRExpr.GetI.descr: invalid descr''))))"
| "tcExpr env gw (Iex_Qop op a1 a2 a3 a4) =
     bindR (tcExpr env gw a1) (\<lambda>_. bindR (tcExpr env gw a2) (\<lambda>_.
     bindR (tcExpr env gw a3) (\<lambda>_. bindR (tcExpr env gw a4) (\<lambda>_.
     bindR (typeOfPrimop op) (\<lambda>s.
     bindR (assertR (\<not> (t_arg1 s = Ity_INVALID \<or> t_arg2 s = Ity_INVALID
                        \<or> t_arg3 s = Ity_INVALID \<or> t_arg4 s = Ity_INVALID))
              (SanityFail ''Iex.Qop: wrong arity op'')) (\<lambda>_.
     bindR (typeOfIRExpr env a1) (\<lambda>tt1. bindR (typeOfIRExpr env a2) (\<lambda>tt2.
     bindR (typeOfIRExpr env a3) (\<lambda>tt3. bindR (typeOfIRExpr env a4) (\<lambda>tt4.
     assertR (\<not> (t_arg1 s \<noteq> tt1 \<or> t_arg2 s \<noteq> tt2 \<or> t_arg3 s \<noteq> tt3 \<or> t_arg4 s \<noteq> tt4))
       (SanityFail ''Iex.Qop: arg tys don't match op tys'')))))))))))"
| "tcExpr env gw (Iex_Triop op a1 a2 a3) =
     bindR (tcExpr env gw a1) (\<lambda>_. bindR (tcExpr env gw a2) (\<lambda>_. bindR (tcExpr env gw a3) (\<lambda>_.
     bindR (typeOfPrimop op) (\<lambda>s.
     bindR (assertR (\<not> (t_arg1 s = Ity_INVALID \<or> t_arg2 s = Ity_INVALID
                        \<or> t_arg3 s = Ity_INVALID \<or> t_arg4 s \<noteq> Ity_INVALID))
              (SanityFail ''Iex.Triop: wrong arity op'')) (\<lambda>_.
     bindR (typeOfIRExpr env a1) (\<lambda>tt1. bindR (typeOfIRExpr env a2) (\<lambda>tt2.
     bindR (typeOfIRExpr env a3) (\<lambda>tt3.
     assertR (\<not> (t_arg1 s \<noteq> tt1 \<or> t_arg2 s \<noteq> tt2 \<or> t_arg3 s \<noteq> tt3))
       (SanityFail ''Iex.Triop: arg tys don't match op tys'')))))))))"
| "tcExpr env gw (Iex_Binop op a1 a2) =
     bindR (tcExpr env gw a1) (\<lambda>_. bindR (tcExpr env gw a2) (\<lambda>_.
     bindR (typeOfPrimop op) (\<lambda>s.
     bindR (assertR (\<not> (t_arg1 s = Ity_INVALID \<or> t_arg2 s = Ity_INVALID
                        \<or> t_arg3 s \<noteq> Ity_INVALID \<or> t_arg4 s \<noteq> Ity_INVALID))
              (SanityFail ''Iex.Binop: wrong arity op'')) (\<lambda>_.
     bindR (typeOfIRExpr env a1) (\<lambda>tt1. bindR (typeOfIRExpr env a2) (\<lambda>tt2.
     assertR (\<not> (t_arg1 s \<noteq> tt1 \<or> t_arg2 s \<noteq> tt2))
       (SanityFail ''Iex.Binop: arg tys don't match op tys'')))))))"
| "tcExpr env gw (Iex_Unop op a1) =
     bindR (tcExpr env gw a1) (\<lambda>_.
     bindR (typeOfPrimop op) (\<lambda>s.
     bindR (assertR (\<not> (t_arg1 s = Ity_INVALID \<or> t_arg2 s \<noteq> Ity_INVALID
                        \<or> t_arg3 s \<noteq> Ity_INVALID \<or> t_arg4 s \<noteq> Ity_INVALID))
              (SanityFail ''Iex.Unop: wrong arity op'')) (\<lambda>_.
     bindR (typeOfIRExpr env a1) (\<lambda>tt1.
     assertR (t_arg1 s = tt1) (SanityFail ''Iex.Unop: arg ty doesn't match op ty'')))))"
| "tcExpr env gw (Iex_Load _ _ addr) =
     bindR (tcExpr env gw addr) (\<lambda>_.
     bindR (typeOfIRExpr env addr) (\<lambda>t.
     assertR (t = gw) (SanityFail ''Iex.Load.addr: not :: guest word type'')))"
| "tcExpr env gw (Iex_CCall cee retty args) =
     bindR (assertR (saneIRCallee cee) (SanityFail ''Iex.CCall.cee: bad IRCallee'')) (\<lambda>_.
     bindR (assertR (\<not> cee_regparms cee > int (length args))
              (SanityFail ''Iex.CCall.cee: #regparms > #args'')) (\<lambda>_.
     bindR (forR (\<lambda>arg. if is_IRExpr_VECRET_or_GSPTR arg
                         then Inl (SanityFail ''Iex.CCall.args: is VECRET/GSPTR'')
                         else tcExpr env gw arg) (take 32 args)) (\<lambda>_.
     bindR (assertR (length args \<le> 32) (SanityFail ''Iex.CCall: > 32 args'')) (\<lambda>_.
     bindR (assertR (retty \<noteq> Ity_I1) (SanityFail ''Iex.CCall.retty: cannot return :: Ity_I1'')) (\<lambda>_.
     forR (\<lambda>arg. bindR (typeOfIRExpr env arg) (\<lambda>t.
             assertR (t \<noteq> Ity_I1) (SanityFail ''Iex.CCall.arg: arg :: Ity_I1''))) args)))))"
| "tcExpr env gw (Iex_Const con) =
     assertR (saneIRConst con) (SanityFail ''Iex.Const.con: invalid const'')"
| "tcExpr env gw (Iex_ITE c t f) =
     bindR (tcExpr env gw c) (\<lambda>_. bindR (tcExpr env gw t) (\<lambda>_. bindR (tcExpr env gw f) (\<lambda>_.
     bindR (typeOfIRExpr env c) (\<lambda>tc.
     bindR (assertR (tc = Ity_I1) (SanityFail ''Iex.ITE.cond: cond :: Ity_I1'')) (\<lambda>_.
     bindR (typeOfIRExpr env t) (\<lambda>tt. bindR (typeOfIRExpr env f) (\<lambda>tf.
     assertR (tt = tf) (SanityFail ''Iex.ITE: iftrue/iffalse mismatch''))))))))"
| "tcExpr env gw _ = Inl (VPanic ''tcExpr'')"
  by pat_completeness auto
termination
proof (relation "measure (\<lambda>(env, gw, e). size e)")
  fix args arg
  show "\<And>env gw cee retty. arg \<in> set (take 32 args) \<Longrightarrow>
    ((env, gw, arg), env, gw, Iex_CCall cee retty args) \<in> measure (\<lambda>(env, gw, e). size e)"
    by (auto dest!: in_set_takeD size_list_estimation' [where y = "size arg" and f = size])
qed auto

definition bad_cas :: "unit res" where
  "bad_cas = Inl (SanityFail ''IRStmt.CAS: ill-formed'')"

definition bad_dirty :: "'a res" where
  "bad_dirty = Inl (SanityFail ''IRStmt.Dirty: ill-formed'')"

definition tcCAS :: "IRTypeEnv \<Rightarrow> IRType \<Rightarrow> IRCAS \<Rightarrow> unit res" where
  "tcCAS env gw cas =
     (if (cas_oldHi cas = IRTemp_INVALID \<and> cas_expdHi cas = None \<and> cas_dataHi cas = None)
         \<or> (cas_oldHi cas \<noteq> IRTemp_INVALID \<and> cas_expdHi cas \<noteq> None \<and> cas_dataHi cas \<noteq> None)
      then
        bindR (tcExpr env gw (cas_addr cas)) (\<lambda>_.
        bindR (typeOfIRExpr env (cas_addr cas)) (\<lambda>ta.
        if ta \<noteq> gw then bad_cas else
        bindR (typeOfIRExpr env (cas_expdLo cas)) (\<lambda>tyExpd.
        bindR (typeOfIRExpr env (cas_dataLo cas)) (\<lambda>tyData.
        if tyExpd \<noteq> tyData then bad_cas else
        bindR (typeOfIRTemp env (cas_oldLo cas)) (\<lambda>tyOldLo.
        if tyExpd \<noteq> tyOldLo then bad_cas else
        if tyExpd = Ity_I8 \<or> tyExpd = Ity_I16 \<or> tyExpd = Ity_I32
           \<or> (gw = Ity_I64 \<and> tyExpd = Ity_I64)
        then
          (if cas_oldHi cas \<noteq> IRTemp_INVALID then
             bindR (optR NullDeref (cas_expdHi cas)) (\<lambda>eh.
             bindR (typeOfIRExpr env eh) (\<lambda>tyExpd.
             bindR (optR NullDeref (cas_dataHi cas)) (\<lambda>dh.
             bindR (typeOfIRExpr env dh) (\<lambda>tyData.
             if tyExpd \<noteq> tyData then bad_cas else
             bindR (typeOfIRTemp env (cas_oldHi cas)) (\<lambda>tyOldHi.
             if tyExpd \<noteq> tyOldHi then bad_cas else
             if tyOldHi \<noteq> tyOldLo then bad_cas else Inr ())))))
           else Inr ())
        else bad_cas)))))
      else bad_cas)"

definition VEX_N_FXSTATE :: int where
  "VEX_N_FXSTATE = 7"

definition tcFxState :: "IRFxState \<Rightarrow> unit res" where
  "tcFxState fx =
     (if fx_fx fx = Ifx_None then bad_dirty
      else if fx_size fx \<le> 0 then bad_dirty
      else if fx_nRepeats fx = 0 then
        (if fx_repeatLen fx \<noteq> 0 then bad_dirty else Inr ())
      else if fx_repeatLen fx \<le> fx_size fx then bad_dirty
      else if fx_repeatLen fx mod fx_size fx \<noteq> 0 then bad_dirty
      else Inr ())"

text \<open>The argument loop of a dirty call; it returns the number of GSPTR arguments.\<close>

fun tcDirtyArgs :: "IRTypeEnv \<Rightarrow> IRType \<Rightarrow> nat \<Rightarrow> nat \<Rightarrow> nat \<Rightarrow> IRExpr list \<Rightarrow> nat res" where
  "tcDirtyArgs env retTy i nVECRETs nGSPTRs [] = Inr nGSPTRs"
| "tcDirtyArgs env retTy i nVECRETs nGSPTRs (arg # args) =
     bindR (assertR (\<not> i \<ge> 32) (SanityFail ''IRStmt.Dirty: > 32 args'')) (\<lambda>_.
     bindR (case arg of
              Iex_VECRET \<Rightarrow> Inr (Suc nVECRETs, nGSPTRs)
            | Iex_GSPTR \<Rightarrow> Inr (nVECRETs, Suc nGSPTRs)
            | _ \<Rightarrow> bindR (typeOfIRExpr env arg) (\<lambda>t.
                   bindR (assertR (t \<noteq> Ity_I1) (SanityFail ''IRStmt.Dirty.arg[i] :: Ity_I1'')) (\<lambda>_.
                   Inr (nVECRETs, nGSPTRs)))) (\<lambda>(nV, nG).
     bindR (assertR (\<not> nG > 1) (SanityFail ''IRStmt.Dirty.args: > 1 GSPTR arg'')) (\<lambda>_.
     bindR (if nV = 1 then
              assertR (\<not> (retTy \<noteq> Ity_V128 \<and> retTy \<noteq> Ity_V256))
                (SanityFail ''IRStmt.Dirty.args: VECRET present, but fn does not return V128 or V256'')
            else if nV = 0 then
              assertR (\<not> (retTy = Ity_V128 \<or> retTy = Ity_V256))
                (SanityFail ''IRStmt.Dirty.args: VECRET not present, but fn returns V128 or V256'')
            else Inl (SanityFail ''IRStmt.Dirty.args: > 1 VECRET present'')) (\<lambda>_.
     tcDirtyArgs env retTy (Suc i) nV nG args))))"

definition tcDirty :: "IRTypeEnv \<Rightarrow> IRType \<Rightarrow> IRDirty \<Rightarrow> unit res" where
  "tcDirty env gw d =
     (case d_cee d of None \<Rightarrow> bad_dirty | Some cee \<Rightarrow>
      if \<not> saneIRCallee cee then bad_dirty else
      bindR (optR NullDeref (d_args d)) (\<lambda>args.
      if cee_regparms cee > int (length args) then bad_dirty else
      if d_mFx d = Ifx_None \<and> (d_mAddr d \<noteq> None \<or> d_mSize d \<noteq> 0) then bad_dirty else
      if d_mFx d \<noteq> Ifx_None \<and> (d_mAddr d = None \<or> d_mSize d = 0) then bad_dirty else
      if d_nFxState d < 0 \<or> d_nFxState d > VEX_N_FXSTATE then bad_dirty else
      bindR (forR tcFxState (take (nat (d_nFxState d)) (d_fxState d))) (\<lambda>_.
      case d_guard d of None \<Rightarrow> bad_dirty | Some g \<Rightarrow>
      bindR (tcExpr env gw g) (\<lambda>_.
      bindR (typeOfIRExpr env g) (\<lambda>tg.
      bindR (assertR (tg = Ity_I1) (SanityFail ''IRStmt.Dirty.guard not :: Ity_I1'')) (\<lambda>_.
      bindR (if d_tmp d \<noteq> IRTemp_INVALID
             then bindR (typeOfIRTemp env (d_tmp d)) (\<lambda>t.
                  bindR (assertR (t \<noteq> Ity_I1) (SanityFail ''IRStmt.Dirty.dst :: Ity_I1'')) (\<lambda>_. Inr t))
             else Inr Ity_INVALID) (\<lambda>retTy.
      bindR (tcDirtyArgs env retTy 0 0 0 args) (\<lambda>nGSPTRs.
      bindR (assertR (\<not> nGSPTRs > 1) (SanityFail ''IRStmt.Dirty.args: > 1 GSPTR present'')) (\<lambda>_.
      assertR (\<not> (d_nFxState d = 0 \<and> nGSPTRs \<noteq> 0))
        (SanityFail ''IRStmt.Dirty.args: GSPTR requested, but no fxState declared''))))))))))"

fun tcStmt :: "IRTypeEnv \<Rightarrow> IRType \<Rightarrow> IRStmt \<Rightarrow> unit res" where
  "tcStmt env gw (Ist_IMark addr len delta) =
     bindR (assertR (\<not> len > 24) (SanityFail ''IRStmt.IMark.len: implausible'')) (\<lambda>_.
     assertR (\<not> delta > 1) (SanityFail ''IRStmt.IMark.delta: implausible''))"
| "tcStmt env gw (Ist_AbiHint base _ nia) =
     bindR (typeOfIRExpr env base) (\<lambda>t.
     bindR (assertR (t = gw) (SanityFail ''IRStmt.AbiHint.base: not :: guest word type'')) (\<lambda>_.
     bindR (typeOfIRExpr env nia) (\<lambda>t.
     assertR (t = gw) (SanityFail ''IRStmt.AbiHint.nia: not :: guest word type''))))"
| "tcStmt env gw (Ist_Put _ dat) =
     bindR (tcExpr env gw dat) (\<lambda>_.
     bindR (typeOfIRExpr env dat) (\<lambda>t.
     assertR (t \<noteq> Ity_I1) (SanityFail ''IRStmt.Put.data: cannot Put :: Ity_I1'')))"
| "tcStmt env gw (Ist_PutI p) =
     bindR (tcExpr env gw (puti_data p)) (\<lambda>_.
     bindR (tcExpr env gw (puti_ix p)) (\<lambda>_.
     bindR (typeOfIRExpr env (puti_data p)) (\<lambda>t.
     bindR (assertR (t \<noteq> Ity_I1) (SanityFail ''IRStmt.PutI.data: cannot PutI :: Ity_I1'')) (\<lambda>_.
     bindR (assertR (t = ra_elemTy (puti_descr p))
              (SanityFail ''IRStmt.PutI.data: data ty != elem ty'')) (\<lambda>_.
     bindR (typeOfIRExpr env (puti_ix p)) (\<lambda>ti.
     bindR (assertR (ti = Ity_I32) (SanityFail ''IRStmt.PutI.ix: not :: Ity_I32'')) (\<lambda>_.
     assertR (saneIRRegArray (puti_descr p)) (SanityFail ''IRStmt.PutI.descr: invalid descr''))))))))"
| "tcStmt env gw (Ist_WrTmp tmp dat) =
     bindR (tcExpr env gw dat) (\<lambda>_.
     bindR (typeOfIRTemp env tmp) (\<lambda>tt.
     bindR (typeOfIRExpr env dat) (\<lambda>td.
     assertR (tt = td) (SanityFail ''IRStmt.Put.Tmp: tmp and expr do not match''))))"
| "tcStmt env gw (Ist_Store _ addr dat) =
     bindR (tcExpr env gw addr) (\<lambda>_. bindR (tcExpr env gw dat) (\<lambda>_.
     bindR (typeOfIRExpr env addr) (\<lambda>ta.
     bindR (assertR (ta = gw) (SanityFail ''IRStmt.Store.addr: not :: guest word type'')) (\<lambda>_.
     bindR (typeOfIRExpr env dat) (\<lambda>td.
     assertR (td \<noteq> Ity_I1) (SanityFail ''IRStmt.Store.data: cannot Store :: Ity_I1''))))))"
| "tcStmt env gw (Ist_StoreG sg) =
     bindR (tcExpr env gw (sg_addr sg)) (\<lambda>_. bindR (tcExpr env gw (sg_data sg)) (\<lambda>_.
     bindR (tcExpr env gw (sg_guard sg)) (\<lambda>_.
     bindR (typeOfIRExpr env (sg_addr sg)) (\<lambda>ta.
     bindR (assertR (ta = gw) (SanityFail ''IRStmtG...addr: not :: guest word type'')) (\<lambda>_.
     bindR (typeOfIRExpr env (sg_data sg)) (\<lambda>td.
     bindR (assertR (td \<noteq> Ity_I1) (SanityFail ''IRStmtG...data: cannot Store :: Ity_I1'')) (\<lambda>_.
     bindR (typeOfIRExpr env (sg_guard sg)) (\<lambda>tg.
     assertR (tg = Ity_I1) (SanityFail ''IRStmtG...guard: not :: Ity_I1'')))))))))"
| "tcStmt env gw (Ist_LoadG lg) =
     bindR (tcExpr env gw (lg_addr lg)) (\<lambda>_. bindR (tcExpr env gw (lg_alt lg)) (\<lambda>_.
     bindR (tcExpr env gw (lg_guard lg)) (\<lambda>_.
     bindR (typeOfIRExpr env (lg_guard lg)) (\<lambda>tg.
     bindR (assertR (tg = Ity_I1) (SanityFail ''IRStmt.LoadG.guard: not :: Ity_I1'')) (\<lambda>_.
     bindR (typeOfIRExpr env (lg_addr lg)) (\<lambda>ta.
     bindR (assertR (ta = gw) (SanityFail ''IRStmt.LoadG.addr: not :: guest word type'')) (\<lambda>_.
     bindR (typeOfIRExpr env (lg_alt lg)) (\<lambda>tal.
     bindR (typeOfIRTemp env (lg_dst lg)) (\<lambda>td.
     bindR (assertR (tal = td) (SanityFail ''IRStmt.LoadG: dst/alt type mismatch'')) (\<lambda>_.
     bindR (typeOfIRLoadGOp (lg_cvt lg)) (\<lambda>(cvtRes, cvtArg).
     assertR (cvtRes = td) (SanityFail ''IRStmt.LoadG: dst/loaded type mismatch''))))))))))))"
| "tcStmt env gw (Ist_CAS cas) = tcCAS env gw cas"
| "tcStmt env gw (Ist_LLSC _ result addr storedata) =
     bindR (typeOfIRExpr env addr) (\<lambda>ta.
     bindR (assertR (ta = gw) (SanityFail ''IRStmt.LLSC.addr: not :: guest word type'')) (\<lambda>_.
     bindR (typeOfIRTemp env result) (\<lambda>tyRes.
     case storedata of
       None \<Rightarrow>
         assertR (\<not> (tyRes \<noteq> Ity_I64 \<and> tyRes \<noteq> Ity_I32 \<and> tyRes \<noteq> Ity_I16 \<and> tyRes \<noteq> Ity_I8))
           (SanityFail ''Ist.LLSC(LL).result :: bogus'')
     | Some sd \<Rightarrow>
         bindR (assertR (tyRes = Ity_I1) (SanityFail ''Ist.LLSC(SC).result: not :: Ity_I1'')) (\<lambda>_.
         bindR (typeOfIRExpr env sd) (\<lambda>tyData.
         assertR (\<not> (tyData \<noteq> Ity_I64 \<and> tyData \<noteq> Ity_I32 \<and> tyData \<noteq> Ity_I16 \<and> tyData \<noteq> Ity_I8))
           (SanityFail ''Ist.LLSC(SC).result :: storedata bogus''))))))"
| "tcStmt env gw (Ist_Dirty d) = tcDirty env gw d"
| "tcStmt env gw Ist_NoOp = Inr ()"
| "tcStmt env gw (Ist_MBE event) = Inr ()"
| "tcStmt env gw (Ist_Exit guard _ dst offsIP) =
     bindR (tcExpr env gw guard) (\<lambda>_.
     bindR (typeOfIRExpr env guard) (\<lambda>tg.
     bindR (assertR (tg = Ity_I1) (SanityFail ''IRStmt.Exit.guard: not :: Ity_I1'')) (\<lambda>_.
     bindR (assertR (saneIRConst dst) (SanityFail ''IRStmt.Exit.dst: bad dst'')) (\<lambda>_.
     bindR (assertR (typeOfIRConst dst = gw)
              (SanityFail ''IRStmt.Exit.dst: not :: guest word type'')) (\<lambda>_.
     assertR (\<not> offsIP < 16) (SanityFail ''IRStmt.Exit.offsIP: too low''))))))"

section \<open>The whole check\<close>

definition checkTemps :: "IRTypeEnv \<Rightarrow> unit res" where
  "checkTemps env =
     forR (\<lambda>ty. assertR (isPlausibleIRType ty) (SanityFail ''Temp declared with implausible type''))
       (types env)"

definition checkFlat :: "IRStmt option list \<Rightarrow> unit res" where
  "checkFlat sts =
     forR (\<lambda>st. bindR (optR (SanityFail ''IRStmt: is NULL'') st) (\<lambda>s.
                 bindR (isFlatIRStmt s) (\<lambda>ok. assertR ok (SanityFail ''IRStmt: is not flat'')))) sts"

definition countStmt :: "IRTypeEnv \<Rightarrow> nat list \<Rightarrow> IRStmt option \<Rightarrow> nat list res" where
  "countStmt env dc st =
     bindR (optR NullDeref st) (\<lambda>s.
     bindR (useBeforeDef_Stmt env dc s) (\<lambda>_. assignedOnce_Stmt s dc (types_used env)))"

definition sanityCheckIRSB :: "IRSB \<Rightarrow> bool \<Rightarrow> IRType \<Rightarrow> unit res" where
  "sanityCheckIRSB bb require_flat guest_word_size =
     bindR (assertR (guest_word_size = Ity_I32 \<or> guest_word_size = Ity_I64)
              (VAssert ''guest_word_size'')) (\<lambda>_.
     bindR (assertR (\<not> (stmts_size bb < 8 \<or> stmts_used bb > stmts_size bb))
              (VPanic ''sanityCheckIRSB: stmts array limits weird'')) (\<lambda>_.
     bindR (checkTemps (tyenv bb)) (\<lambda>_.
     bindR (if require_flat
            then bindR (checkFlat (stmts bb)) (\<lambda>_.
                 bindR (optR NullDeref (sb_next bb)) (\<lambda>nx.
                 assertR (isIRAtom nx) (SanityFail ''bb->next is not an atom'')))
            else Inr ()) (\<lambda>_.
     bindR (foldR (countStmt (tyenv bb)) (replicate (types_used (tyenv bb)) 0) (stmts bb)) (\<lambda>_.
     bindR (forR (\<lambda>st. bindR (optR NullDeref st) (tcStmt (tyenv bb) guest_word_size)) (stmts bb)) (\<lambda>_.
     bindR (optR NullDeref (sb_next bb)) (\<lambda>nx.
     bindR (typeOfIRExpr (tyenv bb) nx) (\<lambda>t.
     bindR (assertR (t = guest_word_size) (SanityFail ''bb->next field has wrong type'')) (\<lambda>_.
     assertR (\<not> sb_offsIP bb < 16) (SanityFail ''bb->offsIP: too low''))))))))))"

section \<open>Checks survive new temporaries\<close>

lemma atom_flat: "isIRAtom a \<Longrightarrow> isFlatRHS a = Inr True"
  by (cases a) auto

lemma atom_not_special: "isIRAtom a \<Longrightarrow> \<not> is_IRExpr_VECRET_or_GSPTR a"
  by (cases a) auto

lemma useBeforeDef_Expr_ext [okle_intros]:
  "env_ext env env' \<Longrightarrow> length dc = types_used env \<Longrightarrow>
     okle (useBeforeDef_Expr env dc e) (useBeforeDef_Expr env' (dc @ xs) e)"
proof (induction env dc e rule: useBeforeDef_Expr.induct)
  case (3 env dc tmp)
  then show ?case
    using env_ext_used [of env env']
    by (auto simp: okle_def useBeforeDef_Temp_def res_iff nth_append)
next
  case (10 env dc cee ty args)
  then show ?case
    by (auto intro!: okle_intros)
qed (auto intro!: okle_intros)

lemma useBeforeDef_opt_ext [okle_intros]:
  "env_ext env env' \<Longrightarrow> length dc = types_used env \<Longrightarrow>
     okle (useBeforeDef_opt env dc e) (useBeforeDef_opt env' (dc @ xs) e)"
  by (auto simp: useBeforeDef_opt_def intro!: okle_intros)

lemma useBeforeDef_Stmt_ext:
  assumes "env_ext env env'" "length dc = types_used env"
  shows "okle (useBeforeDef_Stmt env dc st) (useBeforeDef_Stmt env' (dc @ xs) st)"
  by (cases st; hypsubst; simp only: useBeforeDef_Stmt.simps;
      (rule okle_intros assms)+)

lemma tcExpr_ext [okle_intros]:
  assumes ext: "env_ext env env'"
  shows "okle (tcExpr env gw e) (tcExpr env' gw e)"
proof (induction e)
  case (Iex_CCall cee retty args)
  then show ?case
    unfolding tcExpr.simps by (auto intro!: okle_intros ext dest: in_set_takeD)
qed (simp only: tcExpr.simps; (rule okle_intros ext | assumption)+)+

lemma tcCAS_ext [okle_intros]: "env_ext env env' \<Longrightarrow> okle (tcCAS env gw cas) (tcCAS env' gw cas)"
  unfolding tcCAS_def by (intro okle_intros)

lemma tcDirtyArgs_ext [okle_intros]:
  assumes ext: "env_ext env env'"
  shows "okle (tcDirtyArgs env r i v g args) (tcDirtyArgs env' r i v g args)"
proof (induction args arbitrary: i v g)
  case (Cons arg args)
  show ?case
    unfolding tcDirtyArgs.simps
    by (cases arg; simp only: IRExpr.case; (rule okle_intros ext Cons.IH)+)
qed (simp add: okle_refl)

lemma tcDirty_ext [okle_intros]: "env_ext env env' \<Longrightarrow> okle (tcDirty env gw d) (tcDirty env' gw d)"
  unfolding tcDirty_def by (intro okle_intros)

lemma tcStmt_ext:
  assumes "env_ext env env'"
  shows "okle (tcStmt env gw st) (tcStmt env' gw st)"
  by (cases st; hypsubst; simp only: tcStmt.simps; (rule okle_intros assms)+)

lemma assignedOnce_Temp_ext:
  assumes "assignedOnce_Temp t dc n a b = Inr dc1" "length dc = n" "n \<le> n'"
  shows "assignedOnce_Temp t (dc @ xs) n' a b = Inr (dc1 @ xs) \<and> length dc1 = length dc"
  using assms by (auto simp: assignedOnce_Temp_def Let_def res_iff list_update_append1 nth_append)

lemma assignedOnce_Stmt_ext:
  assumes "assignedOnce_Stmt st dc n = Inr dc1" "length dc = n" "n \<le> n'"
  shows "assignedOnce_Stmt st (dc @ xs) n' = Inr (dc1 @ xs) \<and> length dc1 = length dc"
proof (cases st)
  case (Ist_CAS cas)
  then obtain dc' where
    "(if cas_oldHi cas \<noteq> IRTemp_INVALID
      then assignedOnce_Temp (cas_oldHi cas) dc n
             ''IRStmt.CAS: destination tmpHi is out of range''
             ''IRStmt.CAS: destination tmpHi is assigned more than once''
      else Inr dc) = Inr dc'"
    and lo: "assignedOnce_Temp (cas_oldLo cas) dc' n
               ''IRStmt.CAS: destination tmpLo is out of range''
               ''IRStmt.CAS: destination tmpLo is assigned more than once'' = Inr dc1"
    using assms(1) by (auto simp: res_iff)
  then show ?thesis
    using Ist_CAS assms(2,3) assignedOnce_Temp_ext [OF _ assms(2,3)] assignedOnce_Temp_ext [OF lo]
    by (auto split: if_splits)
qed (use assms in \<open>auto simp: assignedOnce_Temp_ext split: if_splits\<close>)

lemma countStmt_ext:
  assumes "countStmt env dc st = Inr dc1" "env_ext env env'" "length dc = types_used env"
  shows "countStmt env' (dc @ xs) st = Inr (dc1 @ xs)" and "length dc1 = length dc"
proof -
  obtain s where s: "st = Some s" "useBeforeDef_Stmt env dc s = Inr ()"
      "assignedOnce_Stmt s dc (types_used env) = Inr dc1"
    using assms(1) by (auto simp: countStmt_def res_iff)
  note a = assignedOnce_Stmt_ext [OF s(3) assms(3) env_ext_used [OF assms(2)], of xs]
  show "countStmt env' (dc @ xs) st = Inr (dc1 @ xs)"
    using a s okleD [OF useBeforeDef_Stmt_ext [OF assms(2,3), of s xs] s(2)]
    by (simp add: countStmt_def)
  show "length dc1 = length dc" using a by simp
qed

section \<open>Two restrictions of the checker\<close>

text \<open>The number of vector-return pointers is compared with the result type after every argument, the
  first one included.\<close>

lemma tcDirtyArgs_first:
  assumes "tcDirtyArgs env ty 0 0 0 (arg # args) = Inr n" "ty = Ity_V128 \<or> ty = Ity_V256"
  shows "arg = Iex_VECRET"
  using assms by (cases arg) (auto simp: res_iff)

text \<open>A copy has exactly as many statement slots as it has statements.\<close>

lemma deepCopyIRSB_small:
  assumes "deepCopyIRSB bb = Inr bb2" "stmts_used bb < 8"
  shows "\<not> isOk (sanityCheckIRSB bb2 flat gw)"
proof -
  have "stmts_size bb2 < 8" using assms by (auto simp: deepCopyIRSB_def Let_def res_iff elim!: bindR_InrE)
  then show ?thesis by (auto simp: sanityCheckIRSB_def isOk_iff res_iff)
qed

end
