(* ===== verification/Opt_Fold.thy ===== *)
theory Opt_Fold
  imports Vex_Sanity
begin

text \<open>
  Constant folding, \<open>fold_Expr\<close> of \<open>VEX/priv/ir_opt.c\<close>, with the functions it calls.

  \<open>env\<close> is the array of bindings of temporaries: entry \<open>t\<close> is the expression assigned to \<open>t\<close>, or
  NULL; an index outside it is \<open>BufOverflow\<close>. Each \<open>switch\<close> over operations that reads constants is
  a table from operation names to functions; a result \<open>None\<close> there is a \<open>break\<close> or \<open>goto unhandled\<close>
  that leaves the expression as it is. Reading a member of the union \<open>Ico\<close> that the tag does not
  name is \<open>UninitRead\<close>. Negating the least signed number wraps around, as compiled.

  \<open>sameIRExprs\<close> follows bindings and counts the nodes it visits in a static variable, here an
  argument that is passed along; its termination rests on the limit of that count. The loop of
  \<open>chase\<close> ends when bindings are not cyclic; a chain that is longer than the array has entries is a
  cycle, and the model then says \<open>NoReturn\<close>. The messages for \<open>iropt_verbosity > 0\<close> are left out.
\<close>

unbundle bit_operations_syntax

section \<open>Comparing atoms\<close>

text \<open>Equality of floating-point numbers given by their bits: NaN differs from everything, the two
  zeroes are equal.\<close>

definition eq_F32 :: "32 word \<Rightarrow> 32 word \<Rightarrow> bool" where
  "eq_F32 a b \<longleftrightarrow> (let m = 0x7FFFFFFF in
     a AND m \<le> 0x7F800000 \<and> b AND m \<le> 0x7F800000 \<and> (a = b \<or> a AND m = 0 \<and> b AND m = 0))"

definition eq_F64 :: "64 word \<Rightarrow> 64 word \<Rightarrow> bool" where
  "eq_F64 a b \<longleftrightarrow> (let m = 0x7FFFFFFFFFFFFFFF in
     a AND m \<le> 0x7FF0000000000000 \<and> b AND m \<le> 0x7FF0000000000000 \<and> (a = b \<or> a AND m = 0 \<and> b AND m = 0))"

definition eqIRConst :: "IRConst \<Rightarrow> IRConst \<Rightarrow> bool" where
  "eqIRConst c1 c2 =
     (case c1 of
        Ico_U1 a \<Rightarrow> (case c2 of Ico_U1 b \<Rightarrow> 1 AND a = 1 AND b | _ \<Rightarrow> False)
      | Ico_U8 a \<Rightarrow> (case c2 of Ico_U8 b \<Rightarrow> a = b | _ \<Rightarrow> False)
      | Ico_U16 a \<Rightarrow> (case c2 of Ico_U16 b \<Rightarrow> a = b | _ \<Rightarrow> False)
      | Ico_U32 a \<Rightarrow> (case c2 of Ico_U32 b \<Rightarrow> a = b | _ \<Rightarrow> False)
      | Ico_U64 a \<Rightarrow> (case c2 of Ico_U64 b \<Rightarrow> a = b | _ \<Rightarrow> False)
      | Ico_F32 a \<Rightarrow> (case c2 of Ico_F32 b \<Rightarrow> eq_F32 a b | _ \<Rightarrow> False)
      | Ico_F32i a \<Rightarrow> (case c2 of Ico_F32i b \<Rightarrow> a = b | _ \<Rightarrow> False)
      | Ico_F64 a \<Rightarrow> (case c2 of Ico_F64 b \<Rightarrow> eq_F64 a b | _ \<Rightarrow> False)
      | Ico_F64i a \<Rightarrow> (case c2 of Ico_F64i b \<Rightarrow> a = b | _ \<Rightarrow> False)
      | Ico_V128 a \<Rightarrow> (case c2 of Ico_V128 b \<Rightarrow> a = b | _ \<Rightarrow> False)
      | Ico_V256 a \<Rightarrow> (case c2 of Ico_V256 b \<Rightarrow> a = b | _ \<Rightarrow> False))"

definition eqIRAtom :: "IRExpr \<Rightarrow> IRExpr \<Rightarrow> bool res" where
  "eqIRAtom a1 a2 =
     bindR (assertR (isIRAtom a1) (VAssert ''isIRAtom(a1)'')) (\<lambda>_.
     bindR (assertR (isIRAtom a2) (VAssert ''isIRAtom(a2)'')) (\<lambda>_.
     Inr (case (a1, a2) of
            (Iex_RdTmp t1, Iex_RdTmp t2) \<Rightarrow> t1 = t2
          | (Iex_Const c1, Iex_Const c2) \<Rightarrow> eqIRConst c1 c2
          | _ \<Rightarrow> False)))"

section \<open>The same expression\<close>

type_synonym bindings = "IRExpr option list"

definition env_get :: "bindings \<Rightarrow> IRTemp \<Rightarrow> IRExpr option res" where
  "env_get env t = bindR (assertR (t < length env) BufOverflow) (\<lambda>_. Inr (env ! t))"

definition NODE_LIMIT :: nat where
  "NODE_LIMIT = 30"

fun expr_tag :: "IRExpr \<Rightarrow> nat" where
  "expr_tag (Iex_Binder _) = 0"
| "expr_tag (Iex_Get _ _) = 1"
| "expr_tag (Iex_GetI _ _ _) = 2"
| "expr_tag (Iex_RdTmp _) = 3"
| "expr_tag (Iex_Qop _ _ _ _ _) = 4"
| "expr_tag (Iex_Triop _ _ _ _) = 5"
| "expr_tag (Iex_Binop _ _ _) = 6"
| "expr_tag (Iex_Unop _ _) = 7"
| "expr_tag (Iex_Load _ _ _) = 8"
| "expr_tag (Iex_Const _) = 9"
| "expr_tag (Iex_ITE _ _ _) = 10"
| "expr_tag (Iex_CCall _ _ _) = 11"
| "expr_tag Iex_VECRET = 12"
| "expr_tag Iex_GSPTR = 13"

fun const_tag :: "IRConst \<Rightarrow> nat" where
  "const_tag (Ico_U1 _) = 0"
| "const_tag (Ico_U8 _) = 1"
| "const_tag (Ico_U16 _) = 2"
| "const_tag (Ico_U32 _) = 3"
| "const_tag (Ico_U64 _) = 4"
| "const_tag (Ico_F32 _) = 5"
| "const_tag (Ico_F32i _) = 6"
| "const_tag (Ico_F64 _) = 7"
| "const_tag (Ico_F64i _) = 8"
| "const_tag (Ico_V128 _) = 9"
| "const_tag (Ico_V256 _) = 10"

definition same_const :: "IRConst \<Rightarrow> IRConst \<Rightarrow> bool" where
  "same_const c1 c2 =
     (case c1 of
        Ico_U1 a \<Rightarrow> (case c2 of Ico_U1 b \<Rightarrow> a = b | _ \<Rightarrow> False)
      | Ico_U8 a \<Rightarrow> (case c2 of Ico_U8 b \<Rightarrow> a = b | _ \<Rightarrow> False)
      | Ico_U16 a \<Rightarrow> (case c2 of Ico_U16 b \<Rightarrow> a = b | _ \<Rightarrow> False)
      | Ico_U32 a \<Rightarrow> (case c2 of Ico_U32 b \<Rightarrow> a = b | _ \<Rightarrow> False)
      | Ico_U64 a \<Rightarrow> (case c2 of Ico_U64 b \<Rightarrow> a = b | _ \<Rightarrow> False)
      | _ \<Rightarrow> False)"

text \<open>\<open>e && e'\<close> for two computations that return with a node count.\<close>

definition andR :: "(bool \<times> nat) res \<Rightarrow> (nat \<Rightarrow> (bool \<times> nat) res) \<Rightarrow> (bool \<times> nat) res" where
  "andR m f = bindR m (\<lambda>(b, n). if b then f n else Inr (False, n))"

lemma andR_cong [fundef_cong]:
  "m = m' \<Longrightarrow> (\<And>n. m' = Inr (True, n) \<Longrightarrow> f n = f' n) \<Longrightarrow> andR m f = andR m' f'"
  by (cases m') (auto simp: andR_def)

function sameIRExprs_aux :: "bindings \<Rightarrow> nat \<Rightarrow> IRExpr \<Rightarrow> IRExpr \<Rightarrow> (bool \<times> nat) res" where
  "sameIRExprs_aux env n e1 e2 =
     (if expr_tag e1 \<noteq> expr_tag e2 then Inr (False, n)
      else if n > NODE_LIMIT then Inr (False, Suc n)
      else
       (case (e1, e2) of
          (Iex_RdTmp t1, Iex_RdTmp t2) \<Rightarrow>
            if t1 = t2 then Inr (True, Suc n)
            else bindR (env_get env t1) (\<lambda>b1. case b1 of None \<Rightarrow> Inr (False, Suc n) | Some d1 \<Rightarrow>
                 bindR (env_get env t2) (\<lambda>b2. case b2 of None \<Rightarrow> Inr (False, Suc n) | Some d2 \<Rightarrow>
                 sameIRExprs_aux env (Suc n) d1 d2))
        | (Iex_Binop op1 a1 b1, Iex_Binop op2 a2 b2) \<Rightarrow>
            if op1 \<noteq> op2 then Inr (False, Suc n)
            else andR (sameIRExprs_aux env (Suc n) a1 a2) (\<lambda>m. sameIRExprs_aux env m b1 b2)
        | (Iex_Unop op1 a1, Iex_Unop op2 a2) \<Rightarrow>
            if op1 \<noteq> op2 then Inr (False, Suc n) else sameIRExprs_aux env (Suc n) a1 a2
        | (Iex_Const c1, Iex_Const c2) \<Rightarrow>
            bindR (assertR (const_tag c1 = const_tag c2) (VAssert ''c1->tag == c2->tag''))
              (\<lambda>_. Inr (same_const c1 c2, Suc n))
        | (Iex_Triop op1 a1 b1 c1, Iex_Triop op2 a2 b2 c2) \<Rightarrow>
            if op1 \<noteq> op2 then Inr (False, Suc n)
            else andR (sameIRExprs_aux env (Suc n) a1 a2) (\<lambda>m.
                 andR (sameIRExprs_aux env m b1 b2) (\<lambda>m. sameIRExprs_aux env m c1 c2))
        | (Iex_ITE c1 a1 b1, Iex_ITE c2 a2 b2) \<Rightarrow>
            andR (sameIRExprs_aux env (Suc n) c1 c2) (\<lambda>m.
            andR (sameIRExprs_aux env m a1 a2) (\<lambda>m. sameIRExprs_aux env m b1 b2))
        | _ \<Rightarrow> Inr (False, Suc n)))"
  by pat_completeness auto

lemma andR_iff: "andR m f = Inr (b, n) \<longleftrightarrow> m = Inr (False, n) \<and> \<not> b \<or> (\<exists>k. m = Inr (True, k) \<and> f k = Inr (b, n))"
  by (auto simp: andR_def res_iff)

text \<open>The count does not decrease, so every recursive call is made with a greater one.\<close>

lemma sameIRExprs_count:
  assumes "sameIRExprs_aux_dom (env, n, e1, e2)" "sameIRExprs_aux env n e1 e2 = Inr (b, n')"
  shows "n \<le> n'"
  using assms
proof (induction env n e1 e2 arbitrary: b n' rule: sameIRExprs_aux.pinduct)
  case (1 env n e1 e2)
  note def = sameIRExprs_aux.psimps [OF "1.hyps"] and ih = "1.IH"
  show ?case
  proof (cases "expr_tag e1 = expr_tag e2 \<and> \<not> n > NODE_LIMIT")
    case False
    with "1.prems" show ?thesis by (auto simp: def split: if_splits)
  next
    case True
    then have tag: "expr_tag e1 = expr_tag e2" and n: "\<not> NODE_LIMIT < n" by simp_all
    show ?thesis
    proof (cases e1)
      case (Iex_RdTmp t1)
      with tag obtain t2 where e2: "e2 = Iex_RdTmp t2" by (cases e2) auto
      have "n' = Suc n \<or> (\<exists>d1 d2. t1 \<noteq> t2 \<and> env_get env t1 = Inr (Some d1) \<and> env_get env t2 = Inr (Some d2)
          \<and> sameIRExprs_aux env (Suc n) d1 d2 = Inr (b, n'))"
        using "1.prems" [unfolded def] Iex_RdTmp e2 n by (auto simp: res_iff split: if_splits option.splits)
      with tag ih(1) [OF _ n refl Iex_RdTmp e2, OF _ _ _ refl _ refl] show ?thesis by fastforce
    next
      case (Iex_Triop op1 a1 b1 c1)
      with tag obtain op2 a2 b2 c2 where e2: "e2 = Iex_Triop op2 a2 b2 c2" by (cases e2) auto
      have "n' = Suc n \<or> op1 = op2 \<and> andR (sameIRExprs_aux env (Suc n) a1 a2) (\<lambda>m.
          andR (sameIRExprs_aux env m b1 b2) (\<lambda>m. sameIRExprs_aux env m c1 c2)) = Inr (b, n')"
        using "1.prems" [unfolded def] Iex_Triop e2 n by (auto split: if_splits)
      then show ?thesis
        using ih(2-4) [OF _ n refl Iex_Triop e2, simplified tag, simplified]
        by (elim disjE conjE) (simp, fastforce simp: andR_iff)
    next
      case (Iex_Binop op1 a1 b1)
      with tag obtain op2 a2 b2 where e2: "e2 = Iex_Binop op2 a2 b2" by (cases e2) auto
      have "n' = Suc n \<or> op1 = op2 \<and> andR (sameIRExprs_aux env (Suc n) a1 a2) (\<lambda>m. sameIRExprs_aux env m b1 b2) = Inr (b, n')"
        using "1.prems" [unfolded def] Iex_Binop e2 n by (auto split: if_splits)
      then show ?thesis
        using ih(5,6) [OF _ n refl Iex_Binop e2, simplified tag, simplified]
        by (elim disjE conjE) (simp, fastforce simp: andR_iff)
    next
      case (Iex_Unop op1 a1)
      with tag obtain op2 a2 where e2: "e2 = Iex_Unop op2 a2" by (cases e2) auto
      have "n' = Suc n \<or> op1 = op2 \<and> sameIRExprs_aux env (Suc n) a1 a2 = Inr (b, n')"
        using "1.prems" [unfolded def] Iex_Unop e2 n by (auto split: if_splits)
      then show ?thesis
        using ih(7) [OF _ n refl Iex_Unop e2, simplified tag, simplified] by (elim disjE conjE) (simp, fastforce)
    next
      case (Iex_ITE c1 a1 b1)
      with tag obtain c2 a2 b2 where e2: "e2 = Iex_ITE c2 a2 b2" by (cases e2) auto
      note ihs = ih(8-10) [OF _ n refl Iex_ITE e2, simplified tag, simplified]
      have "andR (sameIRExprs_aux env (Suc n) c1 c2) (\<lambda>m.
          andR (sameIRExprs_aux env m a1 a2) (\<lambda>m. sameIRExprs_aux env m b1 b2)) = Inr (b, n')"
        using "1.prems" [unfolded def] Iex_ITE e2 n by simp
      then show ?thesis using ihs by (fastforce simp: andR_iff)
    next
      case (Iex_Const c1)
      with tag obtain c2 where e2: "e2 = Iex_Const c2" by (cases e2) auto
      from "1.prems" [unfolded def] Iex_Const e2 n show ?thesis by (auto simp: res_iff)
    qed (use "1.prems" [unfolded def] n in \<open>auto split: if_splits\<close>)
  qed
qed

lemma sameIRExprs_count2:
  "sameIRExprs_aux_dom (env, m, a, b) \<Longrightarrow> sameIRExprs_aux env m a b = Inr (x, k) \<Longrightarrow>
   sameIRExprs_aux_dom (env, k, c, d) \<Longrightarrow> sameIRExprs_aux env k c d = Inr (y, l) \<Longrightarrow> m \<le> l"
  using sameIRExprs_count by (meson le_trans)

termination sameIRExprs_aux
proof (relation "measure (\<lambda>(env, n, e1, e2). Suc NODE_LIMIT - n)")
qed (auto dest: sameIRExprs_count sameIRExprs_count2)

definition sameIRExprs :: "bindings \<Rightarrow> IRExpr \<Rightarrow> IRExpr \<Rightarrow> bool res" where
  "sameIRExprs env e1 e2 = bindR (sameIRExprs_aux env 0 e1 e2) (\<lambda>(same, _). Inr same)"

declare sameIRExprs_aux.simps [simp del]

section \<open>Tests on constants\<close>

definition isZeroU32 :: "IRExpr \<Rightarrow> bool" where
  "isZeroU32 e \<longleftrightarrow> e = Iex_Const (Ico_U32 0)"

definition isZeroV128 :: "IRExpr \<Rightarrow> bool" where
  "isZeroV128 e \<longleftrightarrow> e = Iex_Const (Ico_V128 0)"

definition isOnesV128 :: "IRExpr \<Rightarrow> bool" where
  "isOnesV128 e \<longleftrightarrow> e = Iex_Const (Ico_V128 0xFFFF)"

definition isZeroV256 :: "IRExpr \<Rightarrow> bool" where
  "isZeroV256 e \<longleftrightarrow> e = Iex_Const (Ico_V256 0)"

definition isZeroU :: "IRExpr \<Rightarrow> bool res" where
  "isZeroU e =
     (case e of
        Iex_Const c \<Rightarrow>
          (case c of
             Ico_U1 w \<Rightarrow> Inr (w = 0)
           | Ico_U8 w \<Rightarrow> Inr (w = 0)
           | Ico_U16 w \<Rightarrow> Inr (w = 0)
           | Ico_U32 w \<Rightarrow> Inr (w = 0)
           | Ico_U64 w \<Rightarrow> Inr (w = 0)
           | Ico_V256 w \<Rightarrow> Inr (w = 0)
           | _ \<Rightarrow> Inl (VPanic ''isZeroU''))
      | _ \<Rightarrow> Inr False)"

definition isOnesU :: "IRExpr \<Rightarrow> bool res" where
  "isOnesU e =
     (case e of
        Iex_Const c \<Rightarrow>
          (case c of
             Ico_U8 w \<Rightarrow> Inr (w = 0xFF)
           | Ico_U16 w \<Rightarrow> Inr (w = 0xFFFF)
           | Ico_U32 w \<Rightarrow> Inr (w = 0xFFFFFFFF)
           | Ico_U64 w \<Rightarrow> Inr (w = 0xFFFFFFFFFFFFFFFF)
           | _ \<Rightarrow> Inl (VPanic ''isOnesU''))
      | _ \<Rightarrow> Inr False)"

definition notBool :: "byte \<Rightarrow> byte res" where
  "notBool b = (if b = 1 then Inr 0 else if b = 0 then Inr 1 else Inl (VPanic ''notBool''))"

definition mkZeroOfPrimopResultType :: "string \<Rightarrow> IRExpr res" where
  "mkZeroOfPrimopResultType op =
     (if op = ''CmpNE32'' then Inr (Iex_Const (Ico_U1 0))
      else if op = ''Xor8'' then Inr (Iex_Const (Ico_U8 0))
      else if op = ''Xor16'' then Inr (Iex_Const (Ico_U16 0))
      else if op \<in> {''Sub32'', ''Xor32''} then Inr (Iex_Const (Ico_U32 0))
      else if op \<in> {''And64'', ''Sub64'', ''Xor64''} then Inr (Iex_Const (Ico_U64 0))
      else if op \<in> {''XorV128'', ''AndV128''} then Inr (Iex_Const (Ico_V128 0))
      else if op \<in> {''XorV256'', ''AndV256''} then Inr (Iex_Const (Ico_V256 0))
      else Inl (VPanic ''mkZeroOfPrimopResultType: bad primop''))"

definition mkOnesOfPrimopResultType :: "string \<Rightarrow> IRExpr res" where
  "mkOnesOfPrimopResultType op =
     (if op \<in> {''CmpEQ32'', ''CmpEQ64''} then Inr (Iex_Const (Ico_U1 1))
      else if op = ''Or8'' then Inr (Iex_Const (Ico_U8 0xFF))
      else if op = ''Or16'' then Inr (Iex_Const (Ico_U16 0xFFFF))
      else if op = ''Or32'' then Inr (Iex_Const (Ico_U32 0xFFFFFFFF))
      else if op \<in> {''CmpEQ8x8'', ''CmpEQ16x4'', ''CmpEQ32x2'', ''Or64''}
           then Inr (Iex_Const (Ico_U64 0xFFFFFFFFFFFFFFFF))
      else if op \<in> {''CmpEQ8x16'', ''CmpEQ16x8'', ''CmpEQ32x4'', ''CmpEQ64x2''}
           then Inr (Iex_Const (Ico_V128 0xFFFF))
      else if op \<in> {''CmpEQ8x32'', ''CmpEQ16x16'', ''CmpEQ32x8'', ''CmpEQ64x4''}
           then Inr (Iex_Const (Ico_V256 0xFFFFFFFF))
      else Inl (VPanic ''mkOnesOfPrimopResultType: bad primop''))"

definition fold_Clz64 :: "64 word \<Rightarrow> 32 word res" where
  "fold_Clz64 v =
     bindR (assertR (v \<noteq> 0) (VAssert ''value != 0ULL'')) (\<lambda>_.
     case find (\<lambda>i. v AND push_bit (63 - i) 1 \<noteq> 0) [0..<64] of
       Some i \<Rightarrow> Inr (of_nat i)
     | None \<Rightarrow> Inl (VAssert ''0''))"

definition fold_Clz32 :: "32 word \<Rightarrow> 32 word res" where
  "fold_Clz32 v =
     bindR (assertR (v \<noteq> 0) (VAssert ''value != 0'')) (\<lambda>_.
     case find (\<lambda>i. v AND push_bit (31 - i) 1 \<noteq> 0) [0..<32] of
       Some i \<Rightarrow> Inr (of_nat i)
     | None \<Rightarrow> Inl (VAssert ''0''))"

section \<open>Following bindings\<close>

fun chase_upto :: "nat \<Rightarrow> bindings \<Rightarrow> IRExpr \<Rightarrow> IRExpr option res" where
  "chase_upto k env (Iex_RdTmp t) =
     (case k of
        0 \<Rightarrow> Inl NoReturn
      | Suc k \<Rightarrow> bindR (env_get env t) (\<lambda>b. case b of None \<Rightarrow> Inr None | Some e \<Rightarrow> chase_upto k env e))"
| "chase_upto k env e = Inr (Some e)"

definition chase :: "bindings \<Rightarrow> IRExpr \<Rightarrow> IRExpr option res" where
  "chase env e = chase_upto (Suc (length env)) env e"

section \<open>Operations on constants\<close>

text \<open>Reading the members of \<open>Ico\<close>.\<close>

definition con_U1 :: "IRConst \<Rightarrow> byte res" where
  "con_U1 c = (case c of Ico_U1 w \<Rightarrow> Inr w | _ \<Rightarrow> Inl UninitRead)"

definition con_U8 :: "IRConst \<Rightarrow> byte res" where
  "con_U8 c = (case c of Ico_U8 w \<Rightarrow> Inr w | _ \<Rightarrow> Inl UninitRead)"

definition con_U16 :: "IRConst \<Rightarrow> 16 word res" where
  "con_U16 c = (case c of Ico_U16 w \<Rightarrow> Inr w | _ \<Rightarrow> Inl UninitRead)"

definition con_U32 :: "IRConst \<Rightarrow> 32 word res" where
  "con_U32 c = (case c of Ico_U32 w \<Rightarrow> Inr w | _ \<Rightarrow> Inl UninitRead)"

definition con_U64 :: "IRConst \<Rightarrow> 64 word res" where
  "con_U64 c = (case c of Ico_U64 w \<Rightarrow> Inr w | _ \<Rightarrow> Inl UninitRead)"

definition con_V128 :: "IRConst \<Rightarrow> 16 word res" where
  "con_V128 c = (case c of Ico_V128 w \<Rightarrow> Inr w | _ \<Rightarrow> Inl UninitRead)"

definition con_V256 :: "IRConst \<Rightarrow> 32 word res" where
  "con_V256 c = (case c of Ico_V256 w \<Rightarrow> Inr w | _ \<Rightarrow> Inl UninitRead)"

lemmas con_defs = con_U1_def con_U8_def con_U16_def con_U32_def con_U64_def con_V128_def con_V256_def

type_synonym unop_fold = "string \<times> (IRConst \<Rightarrow> IRConst option res)"

definition ok1 :: "('a \<Rightarrow> IRConst) \<Rightarrow> 'a \<Rightarrow> IRConst option res" where
  "ok1 f x = Inr (Some (f x))"

definition toBool :: "bool \<Rightarrow> byte" where
  "toBool b = (if b then 1 else 0)"

definition fold_unops_1 :: "unop_fold list" where
  "fold_unops_1 = [
     (''1Uto8'', \<lambda>c. bindR (con_U1 c) (ok1 (\<lambda>u. Ico_U8 (if u \<noteq> 0 then 1 else 0)))),
     (''1Uto32'', \<lambda>c. bindR (con_U1 c) (ok1 (\<lambda>u. Ico_U32 (if u \<noteq> 0 then 1 else 0)))),
     (''1Uto64'', \<lambda>c. bindR (con_U1 c) (ok1 (\<lambda>u. Ico_U64 (if u \<noteq> 0 then 1 else 0)))),
     (''1Sto8'', \<lambda>c. bindR (con_U1 c) (ok1 (\<lambda>u. Ico_U8 (if u \<noteq> 0 then 0xFF else 0)))),
     (''1Sto16'', \<lambda>c. bindR (con_U1 c) (ok1 (\<lambda>u. Ico_U16 (if u \<noteq> 0 then 0xFFFF else 0)))),
     (''1Sto32'', \<lambda>c. bindR (con_U1 c) (ok1 (\<lambda>u. Ico_U32 (if u \<noteq> 0 then 0xFFFFFFFF else 0)))),
     (''1Sto64'', \<lambda>c. bindR (con_U1 c) (ok1 (\<lambda>u. Ico_U64 (if u \<noteq> 0 then 0xFFFFFFFFFFFFFFFF else 0)))),
     (''8Sto32'', \<lambda>c. bindR (con_U8 c) (ok1 (\<lambda>u. Ico_U32 (signed_drop_bit 24 (push_bit 24 (ucast u)))))),
     (''16Sto32'', \<lambda>c. bindR (con_U16 c) (ok1 (\<lambda>u. Ico_U32 (signed_drop_bit 16 (push_bit 16 (ucast u)))))),
     (''8Uto64'', \<lambda>c. bindR (con_U8 c) (ok1 (\<lambda>u. Ico_U64 (0xFF AND ucast u)))),
     (''16Uto64'', \<lambda>c. bindR (con_U16 c) (ok1 (\<lambda>u. Ico_U64 (0xFFFF AND ucast u)))),
     (''8Uto32'', \<lambda>c. bindR (con_U8 c) (ok1 (\<lambda>u. Ico_U32 (0xFF AND ucast u)))),
     (''8Sto16'', \<lambda>c. bindR (con_U8 c) (ok1 (\<lambda>u. Ico_U16 (signed_drop_bit 8 (push_bit 8 (ucast u)))))),
     (''8Uto16'', \<lambda>c. bindR (con_U8 c) (ok1 (\<lambda>u. Ico_U16 (0xFF AND ucast u)))),
     (''16Uto32'', \<lambda>c. bindR (con_U16 c) (ok1 (\<lambda>u. Ico_U32 (0xFFFF AND ucast u)))),
     (''32to16'', \<lambda>c. bindR (con_U32 c) (ok1 (\<lambda>u. Ico_U16 (ucast (0xFFFF AND u))))),
     (''32to8'', \<lambda>c. bindR (con_U32 c) (ok1 (\<lambda>u. Ico_U8 (ucast (0xFF AND u))))),
     (''32to1'', \<lambda>c. bindR (con_U32 c) (ok1 (\<lambda>u. Ico_U1 (toBool (1 = 1 AND u))))),
     (''64to1'', \<lambda>c. bindR (con_U64 c) (ok1 (\<lambda>u. Ico_U1 (toBool (1 = 1 AND u)))))]"

definition fold_unops_2 :: "unop_fold list" where
  "fold_unops_2 = [
     (''NotV128'', \<lambda>c. bindR (con_V128 c) (ok1 (\<lambda>u. Ico_V128 (NOT u)))),
     (''Not64'', \<lambda>c. bindR (con_U64 c) (ok1 (\<lambda>u. Ico_U64 (NOT u)))),
     (''Not32'', \<lambda>c. bindR (con_U32 c) (ok1 (\<lambda>u. Ico_U32 (NOT u)))),
     (''Not16'', \<lambda>c. bindR (con_U16 c) (ok1 (\<lambda>u. Ico_U16 (NOT u)))),
     (''Not8'', \<lambda>c. bindR (con_U8 c) (ok1 (\<lambda>u. Ico_U8 (NOT u)))),
     (''Not1'', \<lambda>c. bindR (con_U1 c) (\<lambda>u. bindR (notBool u) (ok1 Ico_U1))),
     (''64to8'', \<lambda>c. bindR (con_U64 c) (ok1 (\<lambda>u. Ico_U8 (ucast (u AND 0xFF))))),
     (''64to16'', \<lambda>c. bindR (con_U64 c) (ok1 (\<lambda>u. Ico_U16 (ucast (u AND 0xFFFF))))),
     (''64to32'', \<lambda>c. bindR (con_U64 c) (ok1 (\<lambda>u. Ico_U32 (ucast (u AND 0xFFFFFFFF))))),
     (''64HIto32'', \<lambda>c. bindR (con_U64 c) (ok1 (\<lambda>u. Ico_U32 (ucast (drop_bit 32 u))))),
     (''32Uto64'', \<lambda>c. bindR (con_U32 c) (ok1 (\<lambda>u. Ico_U64 (0xFFFFFFFF AND ucast u)))),
     (''16Sto64'', \<lambda>c. bindR (con_U16 c) (ok1 (\<lambda>u. Ico_U64 (signed_drop_bit 48 (push_bit 48 (ucast u)))))),
     (''32Sto64'', \<lambda>c. bindR (con_U32 c) (ok1 (\<lambda>u. Ico_U64 (signed_drop_bit 32 (push_bit 32 (ucast u)))))),
     (''16to8'', \<lambda>c. bindR (con_U16 c) (ok1 (\<lambda>u. Ico_U8 (ucast (u AND 0xFF))))),
     (''16HIto8'', \<lambda>c. bindR (con_U16 c) (ok1 (\<lambda>u. Ico_U8 (ucast (drop_bit 8 u AND 0xFF))))),
     (''CmpNEZ8'', \<lambda>c. bindR (con_U8 c) (ok1 (\<lambda>u. Ico_U1 (toBool (0 \<noteq> 0xFF AND u))))),
     (''CmpNEZ32'', \<lambda>c. bindR (con_U32 c) (ok1 (\<lambda>u. Ico_U1 (toBool (0 \<noteq> 0xFFFFFFFF AND u))))),
     (''CmpNEZ64'', \<lambda>c. bindR (con_U64 c) (ok1 (\<lambda>u. Ico_U1 (toBool (0 \<noteq> u)))))]"

definition fold_unops_3 :: "unop_fold list" where
  "fold_unops_3 = [
     (''CmpwNEZ32'', \<lambda>c. bindR (con_U32 c) (ok1 (\<lambda>u. Ico_U32 (if u = 0 then 0 else 0xFFFFFFFF)))),
     (''CmpwNEZ64'', \<lambda>c. bindR (con_U64 c) (ok1 (\<lambda>u. Ico_U64 (if u = 0 then 0 else 0xFFFFFFFFFFFFFFFF)))),
     (''Left32'', \<lambda>c. bindR (con_U32 c) (ok1 (\<lambda>u. let s32 = u AND 0xFFFFFFFF in Ico_U32 (s32 OR - s32)))),
     (''Left64'', \<lambda>c. bindR (con_U64 c) (ok1 (\<lambda>u. Ico_U64 (u OR - u)))),
     (''Clz32'', \<lambda>c. bindR (con_U32 c) (\<lambda>u. if u \<noteq> 0 then bindR (fold_Clz32 u) (ok1 Ico_U32) else Inr None)),
     (''Clz64'', \<lambda>c. bindR (con_U64 c) (\<lambda>u. if u \<noteq> 0 then bindR (fold_Clz64 u) (ok1 (\<lambda>n. Ico_U64 (ucast n))) else Inr None)),
     (''32UtoV128'', \<lambda>c. bindR (con_U32 c) (\<lambda>u. if 0 = u then Inr (Some (Ico_V128 0)) else Inr None)),
     (''V128to64'', \<lambda>c. bindR (con_V128 c) (\<lambda>v. if 0 = drop_bit 0 v AND 0xFF then Inr (Some (Ico_U64 0)) else Inr None)),
     (''V128HIto64'', \<lambda>c. bindR (con_V128 c) (\<lambda>v. if 0 = drop_bit 8 v AND 0xFF then Inr (Some (Ico_U64 0)) else Inr None)),
     (''64UtoV128'', \<lambda>c. bindR (con_U64 c) (\<lambda>u. if 0 = u then Inr (Some (Ico_V128 0)) else Inr None)),
     (''V256to64_0'', \<lambda>c. bindR (con_V256 c) (\<lambda>v. if v = 0 then Inr (Some (Ico_U64 0)) else Inr None)),
     (''V256to64_1'', \<lambda>c. bindR (con_V256 c) (\<lambda>v. if v = 0 then Inr (Some (Ico_U64 0)) else Inr None)),
     (''V256to64_2'', \<lambda>c. bindR (con_V256 c) (\<lambda>v. if v = 0 then Inr (Some (Ico_U64 0)) else Inr None)),
     (''V256to64_3'', \<lambda>c. bindR (con_V256 c) (\<lambda>v. if v = 0 then Inr (Some (Ico_U64 0)) else Inr None)),
     (''ZeroHI64ofV128'', \<lambda>c. bindR (con_V128 c) (\<lambda>v. if v = 0 then Inr (Some (Ico_V128 0)) else Inr None))]"

definition fold_unops :: "unop_fold list" where
  "fold_unops = fold_unops_1 @ fold_unops_2 @ fold_unops_3"

type_synonym binop_fold = "string \<times> (IRConst \<Rightarrow> IRConst \<Rightarrow> IRConst option res)"

definition read2 :: "(IRConst \<Rightarrow> 'a res) \<Rightarrow> ('a \<Rightarrow> 'a \<Rightarrow> IRConst) \<Rightarrow> IRConst \<Rightarrow> IRConst \<Rightarrow> IRConst option res" where
  "read2 get f c1 c2 = bindR (get c1) (\<lambda>a. bindR (get c2) (\<lambda>b. Inr (Some (f a b))))"

definition shift32_const :: "(nat \<Rightarrow> 32 word \<Rightarrow> 32 word) \<Rightarrow> IRConst \<Rightarrow> IRConst \<Rightarrow> IRConst option res" where
  "shift32_const f c1 c2 =
     bindR (assertR (const_tag c2 = const_tag (Ico_U8 0)) (VAssert ''tag == Ico_U8'')) (\<lambda>_.
     bindR (con_U32 c1) (\<lambda>u. bindR (con_U8 c2) (\<lambda>n.
     if unat n \<le> 31 then Inr (Some (Ico_U32 (f (unat n) u))) else Inr None)))"

definition shift64_const :: "(nat \<Rightarrow> 64 word \<Rightarrow> 64 word) \<Rightarrow> IRConst \<Rightarrow> IRConst \<Rightarrow> IRConst option res" where
  "shift64_const f c1 c2 =
     bindR (assertR (const_tag c2 = const_tag (Ico_U8 0)) (VAssert ''tag == Ico_U8'')) (\<lambda>_.
     bindR (con_U64 c1) (\<lambda>u. bindR (con_U8 c2) (\<lambda>n.
     if unat n \<le> 63 then Inr (Some (Ico_U64 (f (unat n) u))) else Inr None)))"

definition fold_binops_1 :: "binop_fold list" where
  "fold_binops_1 = [
     (''Or8'', read2 con_U8 (\<lambda>a b. Ico_U8 (a OR b))),
     (''Or16'', read2 con_U16 (\<lambda>a b. Ico_U16 (a OR b))),
     (''Or32'', read2 con_U32 (\<lambda>a b. Ico_U32 (a OR b))),
     (''Or64'', read2 con_U64 (\<lambda>a b. Ico_U64 (a OR b))),
     (''OrV128'', read2 con_V128 (\<lambda>a b. Ico_V128 (a OR b))),
     (''Xor8'', read2 con_U8 (\<lambda>a b. Ico_U8 (a XOR b))),
     (''Xor16'', read2 con_U16 (\<lambda>a b. Ico_U16 (a XOR b))),
     (''Xor32'', read2 con_U32 (\<lambda>a b. Ico_U32 (a XOR b))),
     (''Xor64'', read2 con_U64 (\<lambda>a b. Ico_U64 (a XOR b))),
     (''XorV128'', read2 con_V128 (\<lambda>a b. Ico_V128 (a XOR b))),
     (''And8'', read2 con_U8 (\<lambda>a b. Ico_U8 (a AND b))),
     (''And16'', read2 con_U16 (\<lambda>a b. Ico_U16 (a AND b))),
     (''And32'', read2 con_U32 (\<lambda>a b. Ico_U32 (a AND b))),
     (''And64'', read2 con_U64 (\<lambda>a b. Ico_U64 (a AND b))),
     (''AndV128'', read2 con_V128 (\<lambda>a b. Ico_V128 (a AND b)))]"

definition fold_binops_2 :: "binop_fold list" where
  "fold_binops_2 = [
     (''Add8'', read2 con_U8 (\<lambda>a b. Ico_U8 (a + b))),
     (''Add32'', read2 con_U32 (\<lambda>a b. Ico_U32 (a + b))),
     (''Add64'', read2 con_U64 (\<lambda>a b. Ico_U64 (a + b))),
     (''Sub8'', read2 con_U8 (\<lambda>a b. Ico_U8 (a - b))),
     (''Sub32'', read2 con_U32 (\<lambda>a b. Ico_U32 (a - b))),
     (''Sub64'', read2 con_U64 (\<lambda>a b. Ico_U64 (a - b))),
     (''Max32U'', read2 con_U32 (\<lambda>a b. Ico_U32 (if a > b then a else b))),
     (''Mul32'', read2 con_U32 (\<lambda>a b. Ico_U32 (a * b))),
     (''Mul64'', read2 con_U64 (\<lambda>a b. Ico_U64 (a * b))),
     (''MullS32'', read2 con_U32 (\<lambda>a b. Ico_U64 (scast a * scast b)))]"

definition fold_binops_3 :: "binop_fold list" where
  "fold_binops_3 = [
     (''Shl32'', shift32_const push_bit),
     (''Shl64'', shift64_const push_bit),
     (''Sar32'', shift32_const signed_drop_bit),
     (''Sar64'', shift64_const signed_drop_bit),
     (''Shr32'', shift32_const drop_bit),
     (''Shr64'', shift64_const drop_bit)]"

definition fold_binops_4 :: "binop_fold list" where
  "fold_binops_4 = [
     (''CmpEQ32'', read2 con_U32 (\<lambda>a b. Ico_U1 (toBool (a = b)))),
     (''CmpEQ64'', read2 con_U64 (\<lambda>a b. Ico_U1 (toBool (a = b)))),
     (''CmpNE8'', read2 con_U8 (\<lambda>a b. Ico_U1 (toBool (0xFF AND a \<noteq> 0xFF AND b)))),
     (''CasCmpNE8'', read2 con_U8 (\<lambda>a b. Ico_U1 (toBool (0xFF AND a \<noteq> 0xFF AND b)))),
     (''ExpCmpNE8'', read2 con_U8 (\<lambda>a b. Ico_U1 (toBool (0xFF AND a \<noteq> 0xFF AND b)))),
     (''CmpNE32'', read2 con_U32 (\<lambda>a b. Ico_U1 (toBool (a \<noteq> b)))),
     (''CasCmpNE32'', read2 con_U32 (\<lambda>a b. Ico_U1 (toBool (a \<noteq> b)))),
     (''ExpCmpNE32'', read2 con_U32 (\<lambda>a b. Ico_U1 (toBool (a \<noteq> b)))),
     (''CmpNE64'', read2 con_U64 (\<lambda>a b. Ico_U1 (toBool (a \<noteq> b)))),
     (''CasCmpNE64'', read2 con_U64 (\<lambda>a b. Ico_U1 (toBool (a \<noteq> b)))),
     (''ExpCmpNE64'', read2 con_U64 (\<lambda>a b. Ico_U1 (toBool (a \<noteq> b)))),
     (''CmpLE32U'', read2 con_U32 (\<lambda>a b. Ico_U1 (toBool (a \<le> b)))),
     (''CmpLE64U'', read2 con_U64 (\<lambda>a b. Ico_U1 (toBool (a \<le> b)))),
     (''CmpLE32S'', read2 con_U32 (\<lambda>a b. Ico_U1 (toBool (sint a \<le> sint b)))),
     (''CmpLE64S'', read2 con_U64 (\<lambda>a b. Ico_U1 (toBool (sint a \<le> sint b)))),
     (''CmpLT32S'', read2 con_U32 (\<lambda>a b. Ico_U1 (toBool (sint a < sint b)))),
     (''CmpLT64S'', read2 con_U64 (\<lambda>a b. Ico_U1 (toBool (sint a < sint b)))),
     (''CmpLT32U'', read2 con_U32 (\<lambda>a b. Ico_U1 (toBool (a < b)))),
     (''CmpLT64U'', read2 con_U64 (\<lambda>a b. Ico_U1 (toBool (a < b)))),
     (''CmpORD32S'', read2 con_U32 (\<lambda>a b. Ico_U32 (if sint a < sint b then 8 else if sint a > sint b then 4 else 2)))]"

definition fold_binops_5 :: "binop_fold list" where
  "fold_binops_5 = [
     (''32HLto64'', read2 con_U32 (\<lambda>a b. Ico_U64 (push_bit 32 (ucast a) OR ucast b))),
     (''64HLto128'', \<lambda>c1 c2. Inr None),
     (''64HLtoV128'', \<lambda>c1 c2. bindR (con_U64 c1) (\<lambda>hi. bindR (con_U64 c2) (\<lambda>lo.
        if 0 = hi \<and> 0 = lo then Inr (Some (Ico_V128 0)) else Inr None))),
     (''V128HLtoV256'', \<lambda>c1 c2. if isZeroV128 (Iex_Const c1) \<and> isZeroV128 (Iex_Const c2) then Inr (Some (Ico_V256 0)) else Inr None),
     (''InterleaveLO8x16'', \<lambda>c1 c2. bindR (con_V128 c1) (\<lambda>a. bindR (con_V128 c2) (\<lambda>b.
        if 0 = a \<and> 0 = b then Inr (Some (Ico_V128 0)) else Inr None)))]"

definition fold_binops :: "binop_fold list" where
  "fold_binops = fold_binops_1 @ fold_binops_2 @ fold_binops_3 @ fold_binops_4 @ fold_binops_5"

section \<open>Identities\<close>

text \<open>Each function is the group of cases of one \<open>switch\<close> with the same treatment; \<open>e\<close> is the
  expression that stays when nothing applies. \<open>whenR\<close> makes a test and goes on with the next one if it fails.\<close>

definition whenR :: "bool res \<Rightarrow> IRExpr res \<Rightarrow> IRExpr res \<Rightarrow> IRExpr res" where
  "whenR test e2 other = bindR test (\<lambda>b. if b then e2 else other)"

text \<open>\<open>PopCount64(And64(Add64(x, -1), Not64(x)))\<close> counts the trailing zeroes of \<open>x\<close>.\<close>

definition match_ctz :: "bindings \<Rightarrow> IRExpr \<Rightarrow> IRExpr option res" where
  "match_ctz env arg =
     bindR (chase env arg) (\<lambda>a1. case a1 of
       Some (Iex_Binop op1 l r) \<Rightarrow>
         if op1 \<noteq> Iop ''And64'' then Inr None else
         bindR (chase env l) (\<lambda>a11. case a11 of
           Some (Iex_Binop op11 a111 m) \<Rightarrow>
             if op11 \<noteq> Iop ''Add64'' then Inr None else
             bindR (chase env r) (\<lambda>a12. case a12 of
               Some (Iex_Unop op12 a121) \<Rightarrow>
                 if op12 \<noteq> Iop ''Not64'' then Inr None else
                 bindR (chase env m) (\<lambda>a112. case a112 of
                   None \<Rightarrow> Inr None
                 | Some a112 \<Rightarrow>
                     bindR (eqIRAtom a111 a121) (\<lambda>eq. if \<not> eq then Inr None else
                     bindR (isOnesU a112) (\<lambda>ones. if \<not> ones then Inr None else Inr (Some a111))))
             | _ \<Rightarrow> Inr None)
         | _ \<Rightarrow> Inr None)
     | _ \<Rightarrow> Inr None)"

definition fold_PopCount64 :: "bindings \<Rightarrow> IRExpr \<Rightarrow> IRExpr \<Rightarrow> IRExpr res" where
  "fold_PopCount64 env e arg =
     bindR (match_ctz env arg) (\<lambda>m. case m of None \<Rightarrow> Inr e | Some x \<Rightarrow> Inr (Iex_Unop (Iop ''CtzNat64'') x))"

definition fold_Shift :: "IRExpr \<Rightarrow> IRExpr \<Rightarrow> IRExpr \<Rightarrow> IRExpr res" where
  "fold_Shift e arg1 arg2 = whenR (isZeroU arg2) (Inr arg1) (whenR (isZeroU arg1) (Inr arg1) (Inr e))"

definition fold_ShiftR32 :: "IRExpr \<Rightarrow> IRExpr \<Rightarrow> IRExpr \<Rightarrow> IRExpr res" where
  "fold_ShiftR32 e arg1 arg2 = whenR (isZeroU arg2) (Inr arg1) (Inr e)"

definition fold_Or :: "bindings \<Rightarrow> string \<Rightarrow> IRExpr \<Rightarrow> IRExpr \<Rightarrow> IRExpr \<Rightarrow> IRExpr res" where
  "fold_Or env op e arg1 arg2 =
     whenR (isZeroU arg2) (Inr arg1)
     (whenR (isZeroU arg1) (Inr arg2)
     (whenR (bindR (isOnesU arg1) (\<lambda>b. if b then Inr True else isOnesU arg2)) (mkOnesOfPrimopResultType op)
     (whenR (sameIRExprs env arg1 arg2) (Inr arg1) (Inr e))))"

definition fold_Add8 :: "bindings \<Rightarrow> IRExpr \<Rightarrow> IRExpr \<Rightarrow> IRExpr \<Rightarrow> IRExpr res" where
  "fold_Add8 env e arg1 arg2 =
     whenR (sameIRExprs env arg1 arg2) (Inr (Iex_Binop (Iop ''Shl8'') arg1 (Iex_Const (Ico_U8 1)))) (Inr e)"

definition fold_Add :: "bindings \<Rightarrow> string \<Rightarrow> IRExpr \<Rightarrow> IRExpr \<Rightarrow> IRExpr \<Rightarrow> IRExpr res" where
  "fold_Add env op e arg1 arg2 =
     whenR (isZeroU arg2) (Inr arg1)
     (whenR (isZeroU arg1) (Inr arg2)
     (whenR (sameIRExprs env arg1 arg2)
        (Inr (Iex_Binop (if op = ''Add32'' then Iop ''Shl32'' else Iop ''Shl64'') arg1 (Iex_Const (Ico_U8 1))))
     (Inr e)))"

definition fold_Sub :: "bindings \<Rightarrow> string \<Rightarrow> IRExpr \<Rightarrow> IRExpr \<Rightarrow> IRExpr \<Rightarrow> IRExpr res" where
  "fold_Sub env op e arg1 arg2 =
     whenR (isZeroU arg2) (Inr arg1)
     (whenR (sameIRExprs env arg1 arg2) (mkZeroOfPrimopResultType op) (Inr e))"

definition fold_Sub8x16 :: "IRExpr \<Rightarrow> IRExpr \<Rightarrow> IRExpr \<Rightarrow> IRExpr res" where
  "fold_Sub8x16 e arg1 arg2 = (if isZeroV128 arg2 then Inr arg1 else Inr e)"

definition fold_And :: "bindings \<Rightarrow> IRExpr \<Rightarrow> IRExpr \<Rightarrow> IRExpr \<Rightarrow> IRExpr res" where
  "fold_And env e arg1 arg2 =
     whenR (isOnesU arg2) (Inr arg1)
     (whenR (isOnesU arg1) (Inr arg2)
     (whenR (isZeroU arg2) (Inr arg2)
     (whenR (isZeroU arg1) (Inr arg1)
     (whenR (sameIRExprs env arg1 arg2) (Inr arg1) (Inr e)))))"

definition fold_AndV :: "bindings \<Rightarrow> string \<Rightarrow> IRExpr \<Rightarrow> IRExpr \<Rightarrow> IRExpr \<Rightarrow> IRExpr res" where
  "fold_AndV env op e arg1 arg2 =
     whenR (sameIRExprs env arg1 arg2) (Inr arg1)
     (if op = ''AndV256'' \<and> (isZeroV256 arg1 \<or> isZeroV256 arg2) then mkZeroOfPrimopResultType op
      else if op = ''AndV128'' \<and> (isZeroV128 arg1 \<or> isZeroV128 arg2) then mkZeroOfPrimopResultType op
      else if op = ''AndV128'' \<and> isOnesV128 arg2 then Inr arg1
      else Inr e)"

definition fold_OrV :: "bindings \<Rightarrow> string \<Rightarrow> IRExpr \<Rightarrow> IRExpr \<Rightarrow> IRExpr \<Rightarrow> IRExpr res" where
  "fold_OrV env op e arg1 arg2 =
     whenR (sameIRExprs env arg1 arg2) (Inr arg1)
     (if op = ''OrV128'' \<and> isZeroV128 arg2 then Inr arg1
      else if op = ''OrV128'' \<and> isZeroV128 arg1 then Inr arg2
      else if op = ''OrV256'' \<and> isZeroV256 arg2 then Inr arg1
      else Inr e)"

definition fold_Xor :: "bindings \<Rightarrow> string \<Rightarrow> IRExpr \<Rightarrow> IRExpr \<Rightarrow> IRExpr \<Rightarrow> IRExpr res" where
  "fold_Xor env op e arg1 arg2 =
     whenR (sameIRExprs env arg1 arg2) (mkZeroOfPrimopResultType op)
     (if op = ''XorV128'' then (if isZeroV128 arg2 then Inr arg1 else Inr e)
      else whenR (isZeroU arg1) (Inr arg2) (whenR (isZeroU arg2) (Inr arg1) (Inr e)))"

definition fold_CmpNE32 :: "bindings \<Rightarrow> string \<Rightarrow> IRExpr \<Rightarrow> IRExpr \<Rightarrow> IRExpr \<Rightarrow> IRExpr res" where
  "fold_CmpNE32 env op e arg1 arg2 =
     whenR (sameIRExprs env arg1 arg2) (mkZeroOfPrimopResultType op)
     (if isZeroU32 arg2
      then bindR (chase env arg1) (\<lambda>a1. case a1 of
             Some (Iex_Unop op1 x) \<Rightarrow> if op1 = Iop ''1Uto32'' then Inr x else Inr e
           | _ \<Rightarrow> Inr e)
      else Inr e)"

definition fold_CmpEQ :: "bindings \<Rightarrow> string \<Rightarrow> IRExpr \<Rightarrow> IRExpr \<Rightarrow> IRExpr \<Rightarrow> IRExpr res" where
  "fold_CmpEQ env op e arg1 arg2 = whenR (sameIRExprs env arg1 arg2) (mkOnesOfPrimopResultType op) (Inr e)"

definition fold_identity :: "bindings \<Rightarrow> string \<Rightarrow> IRExpr \<Rightarrow> IRExpr \<Rightarrow> IRExpr \<Rightarrow> IRExpr res" where
  "fold_identity env op e arg1 arg2 =
     (if op \<in> {''Shl32'', ''Shl64'', ''Shr64'', ''Sar64''} then fold_Shift e arg1 arg2
      else if op \<in> {''Sar32'', ''Shr32''} then fold_ShiftR32 e arg1 arg2
      else if op \<in> {''Or8'', ''Or16'', ''Or32'', ''Or64'', ''Max32U''} then fold_Or env op e arg1 arg2
      else if op = ''Add8'' then fold_Add8 env e arg1 arg2
      else if op \<in> {''Add32'', ''Add64''} then fold_Add env op e arg1 arg2
      else if op \<in> {''Sub32'', ''Sub64''} then fold_Sub env op e arg1 arg2
      else if op = ''Sub8x16'' then fold_Sub8x16 e arg1 arg2
      else if op \<in> {''And8'', ''And16'', ''And32'', ''And64''} then fold_And env e arg1 arg2
      else if op \<in> {''AndV128'', ''AndV256''} then fold_AndV env op e arg1 arg2
      else if op \<in> {''OrV128'', ''OrV256''} then fold_OrV env op e arg1 arg2
      else if op \<in> {''Xor8'', ''Xor16'', ''Xor32'', ''Xor64'', ''XorV128'', ''XorV256''} then fold_Xor env op e arg1 arg2
      else if op = ''CmpNE32'' then fold_CmpNE32 env op e arg1 arg2
      else if op \<in> {''CmpEQ32'', ''CmpEQ64'', ''CmpEQ8x8'', ''CmpEQ16x4'', ''CmpEQ32x2'', ''CmpEQ8x16'', ''CmpEQ16x8'',
             ''CmpEQ32x4'', ''CmpEQ64x2'', ''CmpEQ8x32'', ''CmpEQ16x16'', ''CmpEQ32x8'', ''CmpEQ64x4''}
           then fold_CmpEQ env op e arg1 arg2
      else Inr e)"

section \<open>Folding an expression\<close>

definition or_same :: "IRExpr \<Rightarrow> IRConst option res \<Rightarrow> IRExpr res" where
  "or_same e m = bindR m (\<lambda>c. case c of None \<Rightarrow> Inr e | Some c \<Rightarrow> Inr (Iex_Const c))"

definition fold_ITE :: "bindings \<Rightarrow> IRExpr \<Rightarrow> IRExpr \<Rightarrow> IRExpr \<Rightarrow> IRExpr \<Rightarrow> IRExpr res" where
  "fold_ITE env e cond iftrue iffalse =
     (case cond of
        Iex_Const c \<Rightarrow>
          bindR (assertR (const_tag c = const_tag (Ico_U1 0)) (VAssert ''tag == Ico_U1'')) (\<lambda>_.
          bindR (con_U1 c) (\<lambda>u. Inr (if u \<noteq> 0 then iftrue else iffalse)))
      | _ \<Rightarrow> whenR (sameIRExprs env iftrue iffalse) (Inr iffalse) (Inr e))"

definition fold_Expr_WRK :: "bindings \<Rightarrow> IRExpr \<Rightarrow> IRExpr res" where
  "fold_Expr_WRK env e =
     (case e of
        Iex_Unop (Iop op) arg \<Rightarrow>
          (case arg of
             Iex_Const c \<Rightarrow> (case map_of fold_unops op of None \<Rightarrow> Inr e | Some f \<Rightarrow> or_same e (f c))
           | _ \<Rightarrow> if op = ''PopCount64'' then fold_PopCount64 env e arg else Inr e)
      | Iex_Binop (Iop op) arg1 arg2 \<Rightarrow>
          (case (arg1, arg2) of
             (Iex_Const c1, Iex_Const c2) \<Rightarrow>
               (case map_of fold_binops op of None \<Rightarrow> Inr e | Some f \<Rightarrow> or_same e (f c1 c2))
           | _ \<Rightarrow> fold_identity env op e arg1 arg2)
      | Iex_ITE cond iftrue iffalse \<Rightarrow> fold_ITE env e cond iftrue iffalse
      | _ \<Rightarrow> Inr e)"

definition fold_Expr :: "bindings option \<Rightarrow> IRExpr \<Rightarrow> IRExpr res" where
  "fold_Expr env e = (case env of None \<Rightarrow> Inr e | Some env \<Rightarrow> fold_Expr_WRK env e)"

text \<open>\<open>Max32U\<close> of a temporary and the greatest number matches the rule for \<open>Or\<close>, which asks for a constant
  that \<open>mkOnesOfPrimopResultType\<close> does not know.\<close>

lemma fold_Max32U_panics:
  "fold_Expr_WRK env (Iex_Binop (Iop ''Max32U'') (Iex_RdTmp t) (Iex_Const (Ico_U32 0xFFFFFFFF)))
   = Inl (VPanic ''mkOnesOfPrimopResultType: bad primop'')"
  by (simp add: fold_Expr_WRK_def fold_identity_def fold_Or_def whenR_def isZeroU_def isOnesU_def mkOnesOfPrimopResultType_def)

end
