(* ===== verification/Vex_Sem.thy ===== *)
theory Vex_Sem
  imports Vex_Types
begin

text \<open>
  What a superblock means, for the correctness of the optimiser's passes.

  The comments of \<open>VEX/pub/libvex_ir.h\<close> describe the meaning of IR: expressions are pure, a
  statement evaluates its expressions and then acts, a guarded dirty call whose guard is false does
  not act and leaves a filler value in its result temporary, an exit leaves the block when its guard
  is true. The record \<open>ir_sem\<close> holds everything else as parameters: the values of constants,
  operations and calls, what reading the guest state and memory gives in a world, and the action of
  each kind of statement on the world. The passes are proved correct for every value of the record.

  \<open>stmt_args\<close> lists the expressions of a statement, \<open>stmt_shape\<close> is the statement without them,
  \<open>stmt_defs\<close> are the temporaries it assigns.
\<close>

section \<open>Parameters\<close>

type_synonym 'v temps = "IRTemp \<Rightarrow> 'v"

record ('v, 'w) ir_sem =
  sem_const :: "IRConst \<Rightarrow> 'v"
  sem_op :: "IROp \<Rightarrow> 'v list \<Rightarrow> 'v"
  sem_get :: "'w \<Rightarrow> int \<Rightarrow> IRType \<Rightarrow> 'v"
  sem_geti :: "'w \<Rightarrow> IRRegArray \<Rightarrow> 'v \<Rightarrow> int \<Rightarrow> 'v"
  sem_load :: "'w \<Rightarrow> IREndness \<Rightarrow> IRType \<Rightarrow> 'v \<Rightarrow> 'v"
  sem_ccall :: "IRCallee \<Rightarrow> IRType \<Rightarrow> 'v list \<Rightarrow> 'v"
  sem_special :: "IRExpr \<Rightarrow> 'v"
  sem_true :: "'v \<Rightarrow> bool"
  sem_filler :: "IRTemp \<Rightarrow> 'v"
  sem_act :: "IRStmt \<Rightarrow> 'v list \<Rightarrow> 'w \<Rightarrow> 'w \<times> 'v temps"

section \<open>Expressions\<close>

fun eval :: "('v, 'w) ir_sem \<Rightarrow> 'v temps \<Rightarrow> 'w \<Rightarrow> IRExpr \<Rightarrow> 'v" where
  "eval S r w (Iex_Get off ty) = sem_get S w off ty"
| "eval S r w (Iex_GetI descr ix bias) = sem_geti S w descr (eval S r w ix) bias"
| "eval S r w (Iex_RdTmp t) = r t"
| "eval S r w (Iex_Qop op a b c d) = sem_op S op [eval S r w a, eval S r w b, eval S r w c, eval S r w d]"
| "eval S r w (Iex_Triop op a b c) = sem_op S op [eval S r w a, eval S r w b, eval S r w c]"
| "eval S r w (Iex_Binop op a b) = sem_op S op [eval S r w a, eval S r w b]"
| "eval S r w (Iex_Unop op a) = sem_op S op [eval S r w a]"
| "eval S r w (Iex_Load en ty addr) = sem_load S w en ty (eval S r w addr)"
| "eval S r w (Iex_Const c) = sem_const S c"
| "eval S r w (Iex_ITE c a b) = (if sem_true S (eval S r w c) then eval S r w a else eval S r w b)"
| "eval S r w (Iex_CCall cee ty args) = sem_ccall S cee ty (map (eval S r w) args)"
| "eval S r w e = sem_special S e"

fun temps_of :: "IRExpr \<Rightarrow> IRTemp set" where
  "temps_of (Iex_GetI descr ix bias) = temps_of ix"
| "temps_of (Iex_RdTmp t) = {t}"
| "temps_of (Iex_Qop op a b c d) = temps_of a \<union> temps_of b \<union> temps_of c \<union> temps_of d"
| "temps_of (Iex_Triop op a b c) = temps_of a \<union> temps_of b \<union> temps_of c"
| "temps_of (Iex_Binop op a b) = temps_of a \<union> temps_of b"
| "temps_of (Iex_Unop op a) = temps_of a"
| "temps_of (Iex_Load en ty addr) = temps_of addr"
| "temps_of (Iex_ITE c a b) = temps_of c \<union> temps_of a \<union> temps_of b"
| "temps_of (Iex_CCall cee ty args) = (\<Union>a\<in>set args. temps_of a)"
| "temps_of _ = {}"

definition agree :: "IRTemp set \<Rightarrow> 'v temps \<Rightarrow> 'v temps \<Rightarrow> bool" where
  "agree X r r' \<longleftrightarrow> (\<forall>t\<in>X. r t = r' t)"

lemma agree_refl [simp]: "agree X r r"
  by (simp add: agree_def)

lemma agree_subset: "agree X r r' \<Longrightarrow> Y \<subseteq> X \<Longrightarrow> agree Y r r'"
  by (auto simp: agree_def)

lemma agree_trans: "agree X r r' \<Longrightarrow> agree X r' r'' \<Longrightarrow> agree X r r''"
  by (simp add: agree_def)

lemma eval_agree: "agree (temps_of e) r r' \<Longrightarrow> eval S r w e = eval S r' w e"
proof (induction S r w e rule: eval.induct)
  case (11 S r w cee ty args)
  then have "map (eval S r w) args = map (eval S r' w) args" by (auto simp: agree_def)
  then show ?case by (simp only: eval.simps)
qed (auto simp: agree_def)

section \<open>Statements\<close>

definition opt_list :: "'a option \<Rightarrow> 'a list" where
  "opt_list x = (case x of None \<Rightarrow> [] | Some y \<Rightarrow> [y])"

lemma opt_list_simps [simp]: "opt_list None = []" "opt_list (Some y) = [y]"
  by (simp_all add: opt_list_def)

fun stmt_args :: "IRStmt \<Rightarrow> IRExpr list" where
  "stmt_args (Ist_AbiHint base len nia) = [base, nia]"
| "stmt_args (Ist_Put off dat) = [dat]"
| "stmt_args (Ist_PutI p) = [puti_ix p, puti_data p]"
| "stmt_args (Ist_WrTmp t e) = [e]"
| "stmt_args (Ist_Store en addr dat) = [addr, dat]"
| "stmt_args (Ist_StoreG sg) = [sg_addr sg, sg_data sg, sg_guard sg]"
| "stmt_args (Ist_LoadG lg) = [lg_addr lg, lg_alt lg, lg_guard lg]"
| "stmt_args (Ist_CAS c) = [cas_addr c] @ opt_list (cas_expdHi c) @ [cas_expdLo c]
     @ opt_list (cas_dataHi c) @ [cas_dataLo c]"
| "stmt_args (Ist_LLSC en result addr sd) = addr # opt_list sd"
| "stmt_args (Ist_Dirty d) = (if d_mFx d \<noteq> Ifx_None then opt_list (d_mAddr d) else [])
     @ opt_list (d_guard d) @ concat (opt_list (d_args d))"
| "stmt_args (Ist_Exit g jk dst off) = [g]"
| "stmt_args _ = []"

definition stmt_temps :: "IRStmt \<Rightarrow> IRTemp set" where
  "stmt_temps st = (\<Union>e\<in>set (stmt_args st). temps_of e)"

definition hole :: IRExpr where
  "hole = Iex_RdTmp 0"

fun stmt_shape :: "IRStmt \<Rightarrow> IRStmt" where
  "stmt_shape (Ist_AbiHint base len nia) = Ist_AbiHint hole len hole"
| "stmt_shape (Ist_Put off dat) = Ist_Put off hole"
| "stmt_shape (Ist_PutI p) = Ist_PutI (p\<lparr>puti_ix := hole, puti_data := hole\<rparr>)"
| "stmt_shape (Ist_WrTmp t e) = Ist_WrTmp t hole"
| "stmt_shape (Ist_Store en addr dat) = Ist_Store en hole hole"
| "stmt_shape (Ist_StoreG sg) = Ist_StoreG (sg\<lparr>sg_addr := hole, sg_data := hole, sg_guard := hole\<rparr>)"
| "stmt_shape (Ist_LoadG lg) = Ist_LoadG (lg\<lparr>lg_addr := hole, lg_alt := hole, lg_guard := hole\<rparr>)"
| "stmt_shape (Ist_CAS c) = Ist_CAS (c\<lparr>cas_addr := hole, cas_expdHi := map_option (\<lambda>_. hole) (cas_expdHi c),
     cas_expdLo := hole, cas_dataHi := map_option (\<lambda>_. hole) (cas_dataHi c), cas_dataLo := hole\<rparr>)"
| "stmt_shape (Ist_LLSC en result addr sd) = Ist_LLSC en result hole (map_option (\<lambda>_. hole) sd)"
| "stmt_shape (Ist_Dirty d) = Ist_Dirty (d\<lparr>d_mAddr := map_option (\<lambda>_. hole) (d_mAddr d),
     d_guard := map_option (\<lambda>_. hole) (d_guard d),
     d_args := map_option (map (\<lambda>a. if is_IRExpr_VECRET_or_GSPTR a then a else hole)) (d_args d)\<rparr>)"
| "stmt_shape (Ist_Exit g jk dst off) = Ist_Exit hole jk dst off"
| "stmt_shape st = st"

fun stmt_defs :: "IRStmt \<Rightarrow> IRTemp list" where
  "stmt_defs (Ist_WrTmp t e) = [t]"
| "stmt_defs (Ist_LoadG lg) = [lg_dst lg]"
| "stmt_defs (Ist_CAS c) = (if cas_oldHi c \<noteq> IRTemp_INVALID then [cas_oldHi c] else []) @ [cas_oldLo c]"
| "stmt_defs (Ist_LLSC en result addr sd) = [result]"
| "stmt_defs (Ist_Dirty d) = (if d_tmp d \<noteq> IRTemp_INVALID then [d_tmp d] else [])"
| "stmt_defs _ = []"

definition assign :: "IRTemp list \<Rightarrow> 'v temps \<Rightarrow> 'v temps \<Rightarrow> 'v temps" where
  "assign ts out r = (\<lambda>t. if t \<in> set ts then out t else r t)"

text \<open>The end of a run: where it goes, how, and the world it leaves.\<close>

type_synonym ('v, 'w) outcome = "'v option \<times> IRJumpKind \<times> int \<times> 'w"

type_synonym ('v, 'w) running = "('v, 'w) outcome + 'v temps \<times> 'w"

definition act :: "('v, 'w) ir_sem \<Rightarrow> IRStmt \<Rightarrow> 'v temps \<times> 'w \<Rightarrow> 'v temps \<times> 'w" where
  "act S st = (\<lambda>(r, w).
     let (w', out) = sem_act S (stmt_shape st) (map (eval S r w) (stmt_args st)) w
     in (assign (stmt_defs st) out r, w'))"

definition guard_holds :: "('v, 'w) ir_sem \<Rightarrow> 'v temps \<times> 'w \<Rightarrow> IRDirty \<Rightarrow> bool" where
  "guard_holds S = (\<lambda>(r, w) d. case d_guard d of None \<Rightarrow> True | Some g \<Rightarrow> sem_true S (eval S r w g))"

definition exec_stmt :: "('v, 'w) ir_sem \<Rightarrow> 'v temps \<times> 'w \<Rightarrow> IRStmt option \<Rightarrow> ('v, 'w) running" where
  "exec_stmt S s x =
     (case x of
        None \<Rightarrow> Inr s
      | Some st \<Rightarrow>
          (case st of
             Ist_NoOp \<Rightarrow> Inr s
           | Ist_WrTmp t e \<Rightarrow> Inr ((fst s)(t := eval S (fst s) (snd s) e), snd s)
           | Ist_Exit g jk dst off \<Rightarrow>
               if sem_true S (eval S (fst s) (snd s) g) then Inl (Some (sem_const S dst), jk, off, snd s) else Inr s
           | Ist_Dirty d \<Rightarrow>
               Inr (if guard_holds S s d then act S st s
                    else (assign (stmt_defs st) (sem_filler S) (fst s), snd s))
           | _ \<Rightarrow> Inr (act S st s)))"

definition exec :: "('v, 'w) ir_sem \<Rightarrow> 'v temps \<times> 'w \<Rightarrow> IRStmt option list \<Rightarrow> ('v, 'w) running" where
  "exec S = foldR (exec_stmt S)"

definition block_outcome :: "('v, 'w) ir_sem \<Rightarrow> 'v temps \<times> 'w \<Rightarrow> IRSB \<Rightarrow> ('v, 'w) outcome" where
  "block_outcome S s bb =
     (case exec S s (stmts bb) of
        Inl out \<Rightarrow> out
      | Inr (r, w) \<Rightarrow> (map_option (eval S r w) (sb_next bb), sb_jumpkind bb, sb_offsIP bb, w))"

lemma exec_simps [simp]:
  "exec S s [] = Inr s"
  "exec S s (st # sts) = bindR (exec_stmt S s st) (\<lambda>s'. exec S s' sts)"
  by (simp_all add: exec_def)

lemma exec_append: "exec S s (xs @ ys) = bindR (exec S s xs) (\<lambda>s'. exec S s' ys)"
  by (simp add: exec_def foldR_append)

lemma exec_NoOp [simp]: "exec_stmt S s (Some Ist_NoOp) = Inr s" "exec_stmt S s None = Inr s"
  by (simp_all add: exec_stmt_def)

lemma exec_NoOps: "exec S s (replicate n (Some Ist_NoOp)) = Inr s"
  by (induction n) simp_all

section \<open>Runs depend on the temporaries they read\<close>

text \<open>Two runs that are at the same point: the same outcome, or the same world and temporaries that
  agree on a set.\<close>

definition same_run :: "IRTemp set \<Rightarrow> ('v, 'w) running \<Rightarrow> ('v, 'w) running \<Rightarrow> bool" where
  "same_run X = rel_sum (=) (rel_prod (agree X) (=))"

lemma same_run_simps [simp]:
  "same_run X (Inl a) (Inl b) = (a = b)"
  "same_run X (Inr (r, w)) (Inr (r', w')) = (agree X r r' \<and> w = w')"
  "same_run X (Inl a) (Inr p) = False" "same_run X (Inr p) (Inl a) = False"
  by (simp_all add: same_run_def)

lemma same_run_refl [simp]: "same_run X m m"
  by (cases m) auto

lemma same_run_subset: "same_run X m m' \<Longrightarrow> Y \<subseteq> X \<Longrightarrow> same_run Y m m'"
  by (cases m; cases m') (auto elim: agree_subset)

lemma same_run_bind:
  assumes "same_run X m m'" "\<And>r r' w. agree X r r' \<Longrightarrow> same_run Y (f (r, w)) (f' (r', w))"
  shows "same_run Y (bindR m f) (bindR m' f')"
  using assms by (cases m; cases m') auto

lemma eval_arg_agree:
  assumes "agree X r r'" "stmt_temps st \<subseteq> X" "e \<in> set (stmt_args st)"
  shows "eval S r w e = eval S r' w e"
  by (intro eval_agree agree_subset [OF assms(1)]) (use assms(2,3) in \<open>auto simp: stmt_temps_def\<close>)

lemma stmt_temps_args: "agree X r r' \<Longrightarrow> stmt_temps st \<subseteq> X \<Longrightarrow>
    map (eval S r w) (stmt_args st) = map (eval S r' w) (stmt_args st)"
  by (rule map_cong) (auto intro: eval_arg_agree)

lemma act_agree:
  assumes "agree X r r'" "stmt_temps st \<subseteq> X"
  shows "same_run X (Inr (act S st (r, w))) (Inr (act S st (r', w)))"
  using assms(1) unfolding act_def
  by (auto simp: stmt_temps_args [OF assms] assign_def agree_def split: prod.splits)

lemma exec_stmt_agree:
  assumes "agree X r r'" "stmt_temps st \<subseteq> X"
  shows "same_run X (exec_stmt S (r, w) (Some st)) (exec_stmt S (r', w) (Some st))"
proof (cases st)
  case (Ist_WrTmp t e)
  then show ?thesis
    using eval_arg_agree [OF assms, of e S w] assms(1) by (simp add: exec_stmt_def agree_def)
next
  case (Ist_Exit g jk dst off)
  then show ?thesis
    using eval_arg_agree [OF assms, of g S w] assms(1) by (simp add: exec_stmt_def)
next
  case (Ist_Dirty d)
  have "guard_holds S (r, w) d = guard_holds S (r', w) d"
    using eval_arg_agree [OF assms, where S = S and w = w] Ist_Dirty by (auto simp: guard_holds_def split: option.splits)
  then show ?thesis
    using act_agree [OF assms, of S w] assms(1) Ist_Dirty
    by (auto simp: exec_stmt_def assign_def agree_def)
qed (use act_agree [OF assms, of S w] assms(1) in \<open>auto simp: exec_stmt_def\<close>)

end
