(* ===== verification/Vex_Values.thy ===== *)
theory Vex_Values
  imports Vex_Sem
begin

text \<open>
  Values of the IR and the meaning of the integer and vector operations that the optimiser of VEX
  computes with, as \<open>VEX/pub/libvex_ir.h\<close> describes them.

  \<open>ir_val\<close> has a constructor for every integer and vector type; values of the other types are
  numbers tagged with their type. The tables \<open>unop_vals\<close> and \<open>binop_vals\<close> give the meaning of
  operations on values of the right types. Where the header leaves the result undefined (shifts by
  the width or more, leading zeroes of zero) they give none, except that zero shifted left, or right
  as a 64-bit number, is zero whatever the amount: the optimiser relies on it. The vector constants
  \<open>Ico_V128\<close> and \<open>Ico_V256\<close> have a bit for each byte.

  \<open>sem_documented\<close> says of an \<open>ir_sem\<close> that constants, these operations, guarded loads and
  guarded stores are as documented; \<open>sem_typed\<close> that what it leaves open gives values of the right
  types.
\<close>

unbundle bit_operations_syntax

section \<open>Values\<close>

datatype ir_val =
    V1 bool
  | V8 byte
  | V16 "16 word"
  | V32 "32 word"
  | V64 "64 word"
  | V128 "128 word"
  | V256 "256 word"
  | Vother IRType nat

fun has_type :: "IRType \<Rightarrow> ir_val \<Rightarrow> bool" where
  "has_type ty (V1 b) = (ty = Ity_I1)"
| "has_type ty (V8 w) = (ty = Ity_I8)"
| "has_type ty (V16 w) = (ty = Ity_I16)"
| "has_type ty (V32 w) = (ty = Ity_I32)"
| "has_type ty (V64 w) = (ty = Ity_I64)"
| "has_type ty (V128 w) = (ty = Ity_V128)"
| "has_type ty (V256 w) = (ty = Ity_V256)"
| "has_type ty (Vother ty' n) = (ty = ty' \<and> ty \<notin> {Ity_I1, Ity_I8, Ity_I16, Ity_I32, Ity_I64, Ity_V128, Ity_V256})"

lemma has_type_cases:
  "has_type Ity_I1 v \<longleftrightarrow> (\<exists>b. v = V1 b)" "has_type Ity_I8 v \<longleftrightarrow> (\<exists>w. v = V8 w)"
  "has_type Ity_I16 v \<longleftrightarrow> (\<exists>w. v = V16 w)" "has_type Ity_I32 v \<longleftrightarrow> (\<exists>w. v = V32 w)"
  "has_type Ity_I64 v \<longleftrightarrow> (\<exists>w. v = V64 w)" "has_type Ity_V128 v \<longleftrightarrow> (\<exists>w. v = V128 w)"
  "has_type Ity_V256 v \<longleftrightarrow> (\<exists>w. v = V256 w)"
  by (cases v; simp)+

section \<open>Words by their bits\<close>

definition word_of_bits :: "(nat \<Rightarrow> bool) \<Rightarrow> 'a::len word" where
  "word_of_bits f = horner_sum of_bool 2 (map f [0..<LENGTH('a)])"

lemma bit_word_of_bits [simp]: "bit (word_of_bits f :: 'a::len word) n \<longleftrightarrow> n < LENGTH('a) \<and> f n"
  by (auto simp: word_of_bits_def bit_horner_sum_bit_iff)

text \<open>A vector constant stands for a word in which each bit fills a byte.\<close>

definition spread :: "'a::len word \<Rightarrow> 'b::len word" where
  "spread s = word_of_bits (\<lambda>n. bit s (n div 8))"

text \<open>Comparison and subtraction by lanes of \<open>k\<close> bits, interleaving of the low bytes.\<close>

definition lane :: "nat \<Rightarrow> nat \<Rightarrow> 'a::len word \<Rightarrow> 'a word" where
  "lane k n w = take_bit k (drop_bit (k * (n div k)) w)"

definition cmp_lanes :: "nat \<Rightarrow> 'a::len word \<Rightarrow> 'a word \<Rightarrow> 'a word" where
  "cmp_lanes k a b = word_of_bits (\<lambda>n. lane k n a = lane k n b)"

definition sub_lanes :: "nat \<Rightarrow> 'a::len word \<Rightarrow> 'a word \<Rightarrow> 'a word" where
  "sub_lanes k a b = word_of_bits (\<lambda>n. bit (lane k n a - lane k n b) (n mod k))"

definition interleave_lo8 :: "'a::len word \<Rightarrow> 'a word \<Rightarrow> 'a word" where
  "interleave_lo8 a b = word_of_bits (\<lambda>n. bit (if odd (n div 8) then a else b) (8 * (n div 16) + n mod 8))"

section \<open>Counting bits\<close>

definition clz :: "'a::len word \<Rightarrow> nat" where
  "clz w = length (takeWhile (\<lambda>i. \<not> bit w i) (rev [0..<LENGTH('a)]))"

definition ctz :: "'a::len word \<Rightarrow> nat" where
  "ctz w = length (takeWhile (\<lambda>i. \<not> bit w i) [0..<LENGTH('a)])"

definition popcount :: "'a::len word \<Rightarrow> nat" where
  "popcount w = length (filter (bit w) [0..<LENGTH('a)])"

lemma ctz_bits:
  fixes x :: "'a::len word"
  shows "ctz x \<le> LENGTH('a)" "n < ctz x \<Longrightarrow> \<not> bit x n" "ctz x < LENGTH('a) \<Longrightarrow> bit x (ctz x)"
proof -
  let ?t = "takeWhile (\<lambda>i. \<not> bit x i) [0..<LENGTH('a)]"
  have le: "length ?t \<le> LENGTH('a)" using length_takeWhile_le [of _ "[0..<LENGTH('a)]"] by simp
  then show "ctz x \<le> LENGTH('a)" by (simp add: ctz_def)
  show "\<not> bit x n" if "n < ctz x"
    using nth_mem [of n ?t] set_takeWhileD [of "?t ! n"] takeWhile_nth [of n "\<lambda>i. \<not> bit x i" "[0..<LENGTH('a)]"] that le
    by (auto simp: ctz_def)
  show "bit x (ctz x)" if "ctz x < LENGTH('a)"
    using nth_length_takeWhile [of "\<lambda>i. \<not> bit x i" "[0..<LENGTH('a)]"] that by (simp add: ctz_def)
qed

lemma odd_pred_bits:
  fixes y :: "'a::len word"
  assumes "odd y"
  shows "bit (y - 1) n \<longleftrightarrow> 1 \<le> n \<and> bit y n"
proof -
  have eq: "y - 1 = push_bit 1 (drop_bit 1 y)"
    using bits_ident [of 1 y] assms by (simp add: take_bit_Suc_0 mod_2_eq_odd algebra_simps flip: add_diff_eq)
  show ?thesis unfolding eq bit_push_bit_iff by (auto simp: bit_drop_bit_eq dest: bit_imp_le_length)
qed

lemma ctz_mask:
  fixes x :: "'a::len word"
  shows "bit ((x - 1) AND NOT x) n \<longleftrightarrow> n < ctz x"
proof (cases "ctz x < LENGTH('a)")
  case False
  then have k: "ctz x = LENGTH('a)" using ctz_bits(1) [of x] by simp
  then have "x = 0" using ctz_bits(2) [of _ x] by (intro bit_word_eqI) auto
  with k show ?thesis by (simp add: bit_and_iff bit_not_iff)
next
  case True
  define k where "k = ctz x"
  define y where "y = drop_bit k x"
  have "ctz x \<le> m" if "bit x m" for m using ctz_bits(2) that by (meson leI)
  then have x: "x = push_bit k y"
    by (intro bit_word_eqI) (auto simp: y_def k_def bit_push_bit_iff bit_drop_bit_eq)
  have y: "odd y" using ctz_bits(3) [OF True] by (simp add: y_def k_def bit_drop_bit_eq flip: bit_0)
  have "x - 1 = push_bit k (y - 1) + mask k"
    unfolding x by (simp add: push_bit_eq_mult mask_eq_exp_minus_1 algebra_simps)
  also have "\<dots> = push_bit k (y - 1) OR mask k"
    by (rule disjunctive_add) (auto simp: bit_push_bit_iff bit_mask_iff)
  finally have "bit (x - 1) n \<longleftrightarrow> n < LENGTH('a) \<and> (k \<le> n \<and> 1 \<le> n - k \<and> bit y (n - k) \<or> n < k)"
    by (auto simp: bit_or_iff bit_push_bit_iff bit_mask_iff odd_pred_bits [OF y] dest: bit_imp_le_length)
  moreover have "bit x n \<longleftrightarrow> n < LENGTH('a) \<and> k \<le> n \<and> bit y (n - k)"
    unfolding x by (auto simp: bit_push_bit_iff)
  ultimately show ?thesis
    using True by (auto simp: bit_and_iff bit_not_iff k_def [symmetric])
qed

lemma popcount_ctz: "popcount ((x - 1) AND NOT x) = ctz x"
proof -
  have "filter (bit ((x - 1) AND NOT x)) [0..<LENGTH('a)] = filter (\<lambda>n. n < ctz x) [0..<LENGTH('a)]" for x :: "'a word"
    by (rule filter_cong) (simp_all add: ctz_mask)
  moreover have "filter (\<lambda>n. n < k) [0..<m] = [0..<k]" if "k \<le> m" for k m
  proof -
    have "[0..<m] = [0..<k] @ [k..<m]" using that by (metis le_add_diff_inverse upt_add_eq_append zero_le)
    then show ?thesis by simp
  qed
  ultimately show ?thesis using ctz_bits(1) [of x] by (simp add: popcount_def)
qed

section \<open>Constants\<close>

fun const_val :: "IRConst \<Rightarrow> ir_val" where
  "const_val (Ico_U1 b) = V1 (b \<noteq> 0)"
| "const_val (Ico_U8 w) = V8 w"
| "const_val (Ico_U16 w) = V16 w"
| "const_val (Ico_U32 w) = V32 w"
| "const_val (Ico_U64 w) = V64 w"
| "const_val (Ico_F32 w) = Vother Ity_F32 (unat w)"
| "const_val (Ico_F32i w) = Vother Ity_F32 (unat w)"
| "const_val (Ico_F64 w) = Vother Ity_F64 (unat w)"
| "const_val (Ico_F64i w) = Vother Ity_F64 (unat w)"
| "const_val (Ico_V128 s) = V128 (spread s)"
| "const_val (Ico_V256 s) = V256 (spread s)"

lemma const_val_type: "has_type ty (const_val c) \<longleftrightarrow> ty = typeOfIRConst c"
  by (cases c) auto

section \<open>Operations\<close>

definition on1 :: "(bool \<Rightarrow> ir_val) \<Rightarrow> ir_val \<Rightarrow> ir_val option" where
  "on1 f v = (case v of V1 b \<Rightarrow> Some (f b) | _ \<Rightarrow> None)"

definition on8 :: "(byte \<Rightarrow> ir_val) \<Rightarrow> ir_val \<Rightarrow> ir_val option" where
  "on8 f v = (case v of V8 w \<Rightarrow> Some (f w) | _ \<Rightarrow> None)"

definition on16 :: "(16 word \<Rightarrow> ir_val) \<Rightarrow> ir_val \<Rightarrow> ir_val option" where
  "on16 f v = (case v of V16 w \<Rightarrow> Some (f w) | _ \<Rightarrow> None)"

definition on32 :: "(32 word \<Rightarrow> ir_val) \<Rightarrow> ir_val \<Rightarrow> ir_val option" where
  "on32 f v = (case v of V32 w \<Rightarrow> Some (f w) | _ \<Rightarrow> None)"

definition on64 :: "(64 word \<Rightarrow> ir_val) \<Rightarrow> ir_val \<Rightarrow> ir_val option" where
  "on64 f v = (case v of V64 w \<Rightarrow> Some (f w) | _ \<Rightarrow> None)"

definition on128 :: "(128 word \<Rightarrow> ir_val) \<Rightarrow> ir_val \<Rightarrow> ir_val option" where
  "on128 f v = (case v of V128 w \<Rightarrow> Some (f w) | _ \<Rightarrow> None)"

definition on256 :: "(256 word \<Rightarrow> ir_val) \<Rightarrow> ir_val \<Rightarrow> ir_val option" where
  "on256 f v = (case v of V256 w \<Rightarrow> Some (f w) | _ \<Rightarrow> None)"

lemmas on_defs = on1_def on8_def on16_def on32_def on64_def on128_def on256_def

definition unop_vals :: "(string \<times> (ir_val \<Rightarrow> ir_val option)) list" where
  "unop_vals = [
     (''Not1'', on1 (\<lambda>b. V1 (\<not> b))),
     (''Not8'', on8 (\<lambda>w. V8 (NOT w))), (''Not16'', on16 (\<lambda>w. V16 (NOT w))),
     (''Not32'', on32 (\<lambda>w. V32 (NOT w))), (''Not64'', on64 (\<lambda>w. V64 (NOT w))),
     (''NotV128'', on128 (\<lambda>w. V128 (NOT w))),
     (''1Uto8'', on1 (\<lambda>b. V8 (of_bool b))), (''1Uto32'', on1 (\<lambda>b. V32 (of_bool b))),
     (''1Uto64'', on1 (\<lambda>b. V64 (of_bool b))),
     (''1Sto8'', on1 (\<lambda>b. V8 (- of_bool b))), (''1Sto16'', on1 (\<lambda>b. V16 (- of_bool b))),
     (''1Sto32'', on1 (\<lambda>b. V32 (- of_bool b))), (''1Sto64'', on1 (\<lambda>b. V64 (- of_bool b))),
     (''8Uto16'', on8 (\<lambda>w. V16 (ucast w))), (''8Uto32'', on8 (\<lambda>w. V32 (ucast w))),
     (''8Uto64'', on8 (\<lambda>w. V64 (ucast w))), (''16Uto32'', on16 (\<lambda>w. V32 (ucast w))),
     (''16Uto64'', on16 (\<lambda>w. V64 (ucast w))), (''32Uto64'', on32 (\<lambda>w. V64 (ucast w))),
     (''8Sto16'', on8 (\<lambda>w. V16 (scast w))), (''8Sto32'', on8 (\<lambda>w. V32 (scast w))),
     (''16Sto32'', on16 (\<lambda>w. V32 (scast w))), (''16Sto64'', on16 (\<lambda>w. V64 (scast w))),
     (''32Sto64'', on32 (\<lambda>w. V64 (scast w))),
     (''16to8'', on16 (\<lambda>w. V8 (ucast w))), (''32to8'', on32 (\<lambda>w. V8 (ucast w))),
     (''64to8'', on64 (\<lambda>w. V8 (ucast w))), (''32to16'', on32 (\<lambda>w. V16 (ucast w))),
     (''64to16'', on64 (\<lambda>w. V16 (ucast w))), (''64to32'', on64 (\<lambda>w. V32 (ucast w))),
     (''16HIto8'', on16 (\<lambda>w. V8 (ucast (drop_bit 8 w)))),
     (''64HIto32'', on64 (\<lambda>w. V32 (ucast (drop_bit 32 w)))),
     (''32to1'', on32 (\<lambda>w. V1 (bit w 0))), (''64to1'', on64 (\<lambda>w. V1 (bit w 0))),
     (''CmpNEZ8'', on8 (\<lambda>w. V1 (w \<noteq> 0))), (''CmpNEZ32'', on32 (\<lambda>w. V1 (w \<noteq> 0))),
     (''CmpNEZ64'', on64 (\<lambda>w. V1 (w \<noteq> 0))),
     (''CmpwNEZ32'', on32 (\<lambda>w. V32 (- of_bool (w \<noteq> 0)))), (''CmpwNEZ64'', on64 (\<lambda>w. V64 (- of_bool (w \<noteq> 0)))),
     (''Left32'', on32 (\<lambda>w. V32 (w OR - w))), (''Left64'', on64 (\<lambda>w. V64 (w OR - w))),
     (''Clz32'', \<lambda>v. if v = V32 0 then None else on32 (\<lambda>w. V32 (of_nat (clz w))) v),
     (''Clz64'', \<lambda>v. if v = V64 0 then None else on64 (\<lambda>w. V64 (of_nat (clz w))) v),
     (''CtzNat64'', on64 (\<lambda>w. V64 (of_nat (ctz w)))), (''PopCount64'', on64 (\<lambda>w. V64 (of_nat (popcount w)))),
     (''32UtoV128'', on32 (\<lambda>w. V128 (ucast w))), (''64UtoV128'', on64 (\<lambda>w. V128 (ucast w))),
     (''V128to64'', on128 (\<lambda>w. V64 (ucast w))), (''V128HIto64'', on128 (\<lambda>w. V64 (ucast (drop_bit 64 w)))),
     (''ZeroHI64ofV128'', on128 (\<lambda>w. V128 (take_bit 64 w))),
     (''V256to64_0'', on256 (\<lambda>w. V64 (ucast w))), (''V256to64_1'', on256 (\<lambda>w. V64 (ucast (drop_bit 64 w)))),
     (''V256to64_2'', on256 (\<lambda>w. V64 (ucast (drop_bit 128 w)))),
     (''V256to64_3'', on256 (\<lambda>w. V64 (ucast (drop_bit 192 w))))]"

definition both8 :: "(byte \<Rightarrow> byte \<Rightarrow> ir_val) \<Rightarrow> ir_val \<Rightarrow> ir_val \<Rightarrow> ir_val option" where
  "both8 f u v = (case (u, v) of (V8 a, V8 b) \<Rightarrow> Some (f a b) | _ \<Rightarrow> None)"

definition both16 :: "(16 word \<Rightarrow> 16 word \<Rightarrow> ir_val) \<Rightarrow> ir_val \<Rightarrow> ir_val \<Rightarrow> ir_val option" where
  "both16 f u v = (case (u, v) of (V16 a, V16 b) \<Rightarrow> Some (f a b) | _ \<Rightarrow> None)"

definition both32 :: "(32 word \<Rightarrow> 32 word \<Rightarrow> ir_val) \<Rightarrow> ir_val \<Rightarrow> ir_val \<Rightarrow> ir_val option" where
  "both32 f u v = (case (u, v) of (V32 a, V32 b) \<Rightarrow> Some (f a b) | _ \<Rightarrow> None)"

definition both64 :: "(64 word \<Rightarrow> 64 word \<Rightarrow> ir_val) \<Rightarrow> ir_val \<Rightarrow> ir_val \<Rightarrow> ir_val option" where
  "both64 f u v = (case (u, v) of (V64 a, V64 b) \<Rightarrow> Some (f a b) | _ \<Rightarrow> None)"

definition both128 :: "(128 word \<Rightarrow> 128 word \<Rightarrow> ir_val) \<Rightarrow> ir_val \<Rightarrow> ir_val \<Rightarrow> ir_val option" where
  "both128 f u v = (case (u, v) of (V128 a, V128 b) \<Rightarrow> Some (f a b) | _ \<Rightarrow> None)"

definition both256 :: "(256 word \<Rightarrow> 256 word \<Rightarrow> ir_val) \<Rightarrow> ir_val \<Rightarrow> ir_val \<Rightarrow> ir_val option" where
  "both256 f u v = (case (u, v) of (V256 a, V256 b) \<Rightarrow> Some (f a b) | _ \<Rightarrow> None)"

text \<open>Shifts; \<open>z\<close> says whether zero may be shifted by any amount.\<close>

definition shift8 :: "(nat \<Rightarrow> byte \<Rightarrow> byte) \<Rightarrow> ir_val \<Rightarrow> ir_val \<Rightarrow> ir_val option" where
  "shift8 f u v = (case (u, v) of (V8 a, V8 n) \<Rightarrow> if unat n < 8 then Some (V8 (f (unat n) a)) else None | _ \<Rightarrow> None)"

definition shift32 :: "bool \<Rightarrow> (nat \<Rightarrow> 32 word \<Rightarrow> 32 word) \<Rightarrow> ir_val \<Rightarrow> ir_val \<Rightarrow> ir_val option" where
  "shift32 z f u v =
     (case (u, v) of
        (V32 a, V8 n) \<Rightarrow> if unat n < 32 then Some (V32 (f (unat n) a)) else if z \<and> a = 0 then Some (V32 0) else None
      | _ \<Rightarrow> None)"

definition shift64 :: "(nat \<Rightarrow> 64 word \<Rightarrow> 64 word) \<Rightarrow> ir_val \<Rightarrow> ir_val \<Rightarrow> ir_val option" where
  "shift64 f u v =
     (case (u, v) of
        (V64 a, V8 n) \<Rightarrow> if unat n < 64 then Some (V64 (f (unat n) a)) else if a = 0 then Some (V64 0) else None
      | _ \<Rightarrow> None)"

lemmas both_defs = both8_def both16_def both32_def both64_def both128_def both256_def
  shift8_def shift32_def shift64_def

definition binop_vals :: "(string \<times> (ir_val \<Rightarrow> ir_val \<Rightarrow> ir_val option)) list" where
  "binop_vals = [
     (''Add8'', both8 (\<lambda>a b. V8 (a + b))), (''Add32'', both32 (\<lambda>a b. V32 (a + b))),
     (''Add64'', both64 (\<lambda>a b. V64 (a + b))),
     (''Sub8'', both8 (\<lambda>a b. V8 (a - b))), (''Sub32'', both32 (\<lambda>a b. V32 (a - b))),
     (''Sub64'', both64 (\<lambda>a b. V64 (a - b))), (''Sub8x16'', both128 (\<lambda>a b. V128 (sub_lanes 8 a b))),
     (''Mul32'', both32 (\<lambda>a b. V32 (a * b))), (''Mul64'', both64 (\<lambda>a b. V64 (a * b))),
     (''MullS32'', both32 (\<lambda>a b. V64 (of_int (sint a * sint b)))),
     (''Max32U'', both32 (\<lambda>a b. V32 (max a b))),
     (''Or8'', both8 (\<lambda>a b. V8 (a OR b))), (''Or16'', both16 (\<lambda>a b. V16 (a OR b))),
     (''Or32'', both32 (\<lambda>a b. V32 (a OR b))), (''Or64'', both64 (\<lambda>a b. V64 (a OR b))),
     (''OrV128'', both128 (\<lambda>a b. V128 (a OR b))), (''OrV256'', both256 (\<lambda>a b. V256 (a OR b))),
     (''And8'', both8 (\<lambda>a b. V8 (a AND b))), (''And16'', both16 (\<lambda>a b. V16 (a AND b))),
     (''And32'', both32 (\<lambda>a b. V32 (a AND b))), (''And64'', both64 (\<lambda>a b. V64 (a AND b))),
     (''AndV128'', both128 (\<lambda>a b. V128 (a AND b))), (''AndV256'', both256 (\<lambda>a b. V256 (a AND b))),
     (''Xor8'', both8 (\<lambda>a b. V8 (a XOR b))), (''Xor16'', both16 (\<lambda>a b. V16 (a XOR b))),
     (''Xor32'', both32 (\<lambda>a b. V32 (a XOR b))), (''Xor64'', both64 (\<lambda>a b. V64 (a XOR b))),
     (''XorV128'', both128 (\<lambda>a b. V128 (a XOR b))), (''XorV256'', both256 (\<lambda>a b. V256 (a XOR b))),
     (''Shl8'', shift8 push_bit), (''Shl32'', shift32 True push_bit), (''Shl64'', shift64 push_bit),
     (''Shr32'', shift32 False drop_bit), (''Shr64'', shift64 drop_bit),
     (''Sar32'', shift32 False signed_drop_bit), (''Sar64'', shift64 signed_drop_bit),
     (''CmpEQ32'', both32 (\<lambda>a b. V1 (a = b))), (''CmpEQ64'', both64 (\<lambda>a b. V1 (a = b))),
     (''CmpNE8'', both8 (\<lambda>a b. V1 (a \<noteq> b))), (''CasCmpNE8'', both8 (\<lambda>a b. V1 (a \<noteq> b))),
     (''ExpCmpNE8'', both8 (\<lambda>a b. V1 (a \<noteq> b))),
     (''CmpNE32'', both32 (\<lambda>a b. V1 (a \<noteq> b))), (''CasCmpNE32'', both32 (\<lambda>a b. V1 (a \<noteq> b))),
     (''ExpCmpNE32'', both32 (\<lambda>a b. V1 (a \<noteq> b))),
     (''CmpNE64'', both64 (\<lambda>a b. V1 (a \<noteq> b))), (''CasCmpNE64'', both64 (\<lambda>a b. V1 (a \<noteq> b))),
     (''ExpCmpNE64'', both64 (\<lambda>a b. V1 (a \<noteq> b))),
     (''CmpLE32U'', both32 (\<lambda>a b. V1 (a \<le> b))), (''CmpLE64U'', both64 (\<lambda>a b. V1 (a \<le> b))),
     (''CmpLT32U'', both32 (\<lambda>a b. V1 (a < b))), (''CmpLT64U'', both64 (\<lambda>a b. V1 (a < b))),
     (''CmpLE32S'', both32 (\<lambda>a b. V1 (sint a \<le> sint b))), (''CmpLE64S'', both64 (\<lambda>a b. V1 (sint a \<le> sint b))),
     (''CmpLT32S'', both32 (\<lambda>a b. V1 (sint a < sint b))), (''CmpLT64S'', both64 (\<lambda>a b. V1 (sint a < sint b))),
     (''CmpORD32S'', both32 (\<lambda>a b. V32 (if sint a < sint b then 8 else if sint a > sint b then 4 else 2))),
     (''32HLto64'', both32 (\<lambda>a b. V64 (push_bit 32 (ucast a) OR ucast b))),
     (''64HLtoV128'', both64 (\<lambda>a b. V128 (push_bit 64 (ucast a) OR ucast b))),
     (''V128HLtoV256'', both128 (\<lambda>a b. V256 (push_bit 128 (ucast a) OR ucast b))),
     (''InterleaveLO8x16'', both128 (\<lambda>a b. V128 (interleave_lo8 a b))),
     (''CmpEQ8x8'', both64 (\<lambda>a b. V64 (cmp_lanes 8 a b))), (''CmpEQ16x4'', both64 (\<lambda>a b. V64 (cmp_lanes 16 a b))),
     (''CmpEQ32x2'', both64 (\<lambda>a b. V64 (cmp_lanes 32 a b))),
     (''CmpEQ8x16'', both128 (\<lambda>a b. V128 (cmp_lanes 8 a b))), (''CmpEQ16x8'', both128 (\<lambda>a b. V128 (cmp_lanes 16 a b))),
     (''CmpEQ32x4'', both128 (\<lambda>a b. V128 (cmp_lanes 32 a b))), (''CmpEQ64x2'', both128 (\<lambda>a b. V128 (cmp_lanes 64 a b))),
     (''CmpEQ8x32'', both256 (\<lambda>a b. V256 (cmp_lanes 8 a b))), (''CmpEQ16x16'', both256 (\<lambda>a b. V256 (cmp_lanes 16 a b))),
     (''CmpEQ32x8'', both256 (\<lambda>a b. V256 (cmp_lanes 32 a b))), (''CmpEQ64x4'', both256 (\<lambda>a b. V256 (cmp_lanes 64 a b)))]"

definition op_val :: "IROp \<Rightarrow> ir_val list \<Rightarrow> ir_val option" where
  "op_val op vs =
     (case op of Iop nm \<Rightarrow>
        (case vs of
           [u] \<Rightarrow> (case map_of unop_vals nm of None \<Rightarrow> None | Some f \<Rightarrow> f u)
         | [u, v] \<Rightarrow> (case map_of binop_vals nm of None \<Rightarrow> None | Some f \<Rightarrow> f u v)
         | _ \<Rightarrow> None))"

lemma unop_keys: "distinct (map fst unop_vals)"
  by (simp add: unop_vals_def)

lemma binop_keys: "distinct (map fst binop_vals)"
  by (simp add: binop_vals_def)

lemma op_val_unop: "(nm, f) \<in> set unop_vals \<Longrightarrow> op_val (Iop nm) [v] = f v"
  using map_of_is_SomeI [OF unop_keys] by (simp add: op_val_def)

lemma op_val_binop: "(nm, f) \<in> set binop_vals \<Longrightarrow> op_val (Iop nm) [u, v] = f u v"
  using map_of_is_SomeI [OF binop_keys] by (simp add: op_val_def)

end
