(* ===== verification/Vex_Sigs.thy ===== *)
theory Vex_Sigs
  imports Vex_Primops
begin

text \<open>
  The signatures of the operations that the optimiser computes with, in a form in which they are
  found quickly: \<open>sig_of\<close> agrees with every row of the table of \<open>typeOfPrimop\<close>.
\<close>

definition sig_of :: "string \<Rightarrow> primop_sig option" where
  "sig_of nm =
     (case nm of [] \<Rightarrow> None | c # _ \<Rightarrow>
      if c = CHR ''1'' then
          (if nm \<in> {''1Sto16''} then Some (UNARY Ity_I1 Ity_I16)
           else if nm \<in> {''1Sto32'', ''1Uto32''} then Some (UNARY Ity_I1 Ity_I32)
           else if nm \<in> {''1Sto64'', ''1Uto64''} then Some (UNARY Ity_I1 Ity_I64)
           else if nm \<in> {''1Sto8'', ''1Uto8''} then Some (UNARY Ity_I1 Ity_I8)
           else if nm \<in> {''16Sto32'', ''16Uto32''} then Some (UNARY Ity_I16 Ity_I32)
           else if nm \<in> {''16Sto64'', ''16Uto64''} then Some (UNARY Ity_I16 Ity_I64)
           else if nm \<in> {''16HIto8'', ''16to8''} then Some (UNARY Ity_I16 Ity_I8) else None)
       else if c = CHR ''3'' then
          (if nm \<in> {''32HLto64''} then Some (BINARY Ity_I32 Ity_I32 Ity_I64)
           else if nm \<in> {''32to1''} then Some (UNARY Ity_I32 Ity_I1)
           else if nm \<in> {''32to16''} then Some (UNARY Ity_I32 Ity_I16)
           else if nm \<in> {''32Sto64'', ''32Uto64''} then Some (UNARY Ity_I32 Ity_I64)
           else if nm \<in> {''32to8''} then Some (UNARY Ity_I32 Ity_I8)
           else if nm \<in> {''32UtoV128''} then Some (UNARY Ity_I32 Ity_V128) else None)
       else if c = CHR ''6'' then
          (if nm \<in> {''64HLto128''} then Some (BINARY Ity_I64 Ity_I64 Ity_I128)
           else if nm \<in> {''64HLtoV128''} then Some (BINARY Ity_I64 Ity_I64 Ity_V128)
           else if nm \<in> {''64to1''} then Some (UNARY Ity_I64 Ity_I1)
           else if nm \<in> {''64to16''} then Some (UNARY Ity_I64 Ity_I16)
           else if nm \<in> {''64HIto32'', ''64to32''} then Some (UNARY Ity_I64 Ity_I32)
           else if nm \<in> {''64to8''} then Some (UNARY Ity_I64 Ity_I8)
           else if nm \<in> {''64UtoV128''} then Some (UNARY Ity_I64 Ity_V128) else None)
       else if c = CHR ''8'' then
          (if nm \<in> {''8Sto16'', ''8Uto16''} then Some (UNARY Ity_I8 Ity_I16)
           else if nm \<in> {''8Sto32'', ''8Uto32''} then Some (UNARY Ity_I8 Ity_I32)
           else if nm \<in> {''8Uto64''} then Some (UNARY Ity_I8 Ity_I64) else None)
       else if c = CHR ''A'' then
          (if nm \<in> {''And16''} then Some (BINARY Ity_I16 Ity_I16 Ity_I16)
           else if nm \<in> {''Add32'', ''And32''} then Some (BINARY Ity_I32 Ity_I32 Ity_I32)
           else if nm \<in> {''Add64'', ''And64''} then Some (BINARY Ity_I64 Ity_I64 Ity_I64)
           else if nm \<in> {''Add8'', ''And8''} then Some (BINARY Ity_I8 Ity_I8 Ity_I8)
           else if nm \<in> {''AndV128''} then Some (BINARY Ity_V128 Ity_V128 Ity_V128)
           else if nm \<in> {''AndV256''} then Some (BINARY Ity_V256 Ity_V256 Ity_V256) else None)
       else if c = CHR ''C'' then
          (if nm \<in> {''CmpORD32S''} then Some (BINARY Ity_I32 Ity_I32 Ity_I32)
           else if nm \<in> {''CmpEQ16x4'', ''CmpEQ32x2'', ''CmpEQ8x8''} then Some (BINARY Ity_I64 Ity_I64 Ity_I64)
           else if nm \<in> {''CmpEQ16x8'', ''CmpEQ32x4'', ''CmpEQ64x2'', ''CmpEQ8x16''} then Some (BINARY Ity_V128 Ity_V128 Ity_V128)
           else if nm \<in> {''CmpEQ16x16'', ''CmpEQ32x8'', ''CmpEQ64x4'', ''CmpEQ8x32''} then Some (BINARY Ity_V256 Ity_V256 Ity_V256)
           else if nm \<in> {''CasCmpNE32'', ''CmpEQ32'', ''CmpLE32S'', ''CmpLE32U'', ''CmpLT32S'', ''CmpLT32U'', ''CmpNE32''} then Some (COMPARISON Ity_I32)
           else if nm \<in> {''CasCmpNE64'', ''CmpEQ64'', ''CmpLE64S'', ''CmpLE64U'', ''CmpLT64S'', ''CmpLT64U'', ''CmpNE64''} then Some (COMPARISON Ity_I64)
           else if nm \<in> {''CasCmpNE8'', ''CmpNE8''} then Some (COMPARISON Ity_I8)
           else if nm \<in> {''Clz32'', ''CmpwNEZ32''} then Some (UNARY Ity_I32 Ity_I32)
           else if nm \<in> {''Clz64'', ''CmpwNEZ64'', ''CtzNat64''} then Some (UNARY Ity_I64 Ity_I64)
           else if nm \<in> {''CmpNEZ32''} then Some (UNARY_COMPARISON Ity_I32)
           else if nm \<in> {''CmpNEZ64''} then Some (UNARY_COMPARISON Ity_I64)
           else if nm \<in> {''CmpNEZ8''} then Some (UNARY_COMPARISON Ity_I8) else None)
       else if c = CHR ''E'' then
          (if nm \<in> {''ExpCmpNE32''} then Some (COMPARISON Ity_I32)
           else if nm \<in> {''ExpCmpNE64''} then Some (COMPARISON Ity_I64)
           else if nm \<in> {''ExpCmpNE8''} then Some (COMPARISON Ity_I8) else None)
       else if c = CHR ''I'' then
          (if nm \<in> {''InterleaveLO8x16''} then Some (BINARY Ity_V128 Ity_V128 Ity_V128) else None)
       else if c = CHR ''L'' then
          (if nm \<in> {''Left32''} then Some (UNARY Ity_I32 Ity_I32)
           else if nm \<in> {''Left64''} then Some (UNARY Ity_I64 Ity_I64) else None)
       else if c = CHR ''M'' then
          (if nm \<in> {''Max32U'', ''Mul32''} then Some (BINARY Ity_I32 Ity_I32 Ity_I32)
           else if nm \<in> {''MullS32''} then Some (BINARY Ity_I32 Ity_I32 Ity_I64)
           else if nm \<in> {''Mul64''} then Some (BINARY Ity_I64 Ity_I64 Ity_I64) else None)
       else if c = CHR ''N'' then
          (if nm \<in> {''Not1''} then Some (UNARY Ity_I1 Ity_I1)
           else if nm \<in> {''Not16''} then Some (UNARY Ity_I16 Ity_I16)
           else if nm \<in> {''Not32''} then Some (UNARY Ity_I32 Ity_I32)
           else if nm \<in> {''Not64''} then Some (UNARY Ity_I64 Ity_I64)
           else if nm \<in> {''Not8''} then Some (UNARY Ity_I8 Ity_I8)
           else if nm \<in> {''NotV128''} then Some (UNARY Ity_V128 Ity_V128) else None)
       else if c = CHR ''O'' then
          (if nm \<in> {''Or16''} then Some (BINARY Ity_I16 Ity_I16 Ity_I16)
           else if nm \<in> {''Or32''} then Some (BINARY Ity_I32 Ity_I32 Ity_I32)
           else if nm \<in> {''Or64''} then Some (BINARY Ity_I64 Ity_I64 Ity_I64)
           else if nm \<in> {''Or8''} then Some (BINARY Ity_I8 Ity_I8 Ity_I8)
           else if nm \<in> {''OrV128''} then Some (BINARY Ity_V128 Ity_V128 Ity_V128)
           else if nm \<in> {''OrV256''} then Some (BINARY Ity_V256 Ity_V256 Ity_V256) else None)
       else if c = CHR ''P'' then
          (if nm \<in> {''PopCount64''} then Some (UNARY Ity_I64 Ity_I64) else None)
       else if c = CHR ''S'' then
          (if nm \<in> {''Sub32''} then Some (BINARY Ity_I32 Ity_I32 Ity_I32)
           else if nm \<in> {''Sar32'', ''Shl32'', ''Shr32''} then Some (BINARY Ity_I32 Ity_I8 Ity_I32)
           else if nm \<in> {''Sub64''} then Some (BINARY Ity_I64 Ity_I64 Ity_I64)
           else if nm \<in> {''Sar64'', ''Shl64'', ''Shr64''} then Some (BINARY Ity_I64 Ity_I8 Ity_I64)
           else if nm \<in> {''Shl8'', ''Sub8''} then Some (BINARY Ity_I8 Ity_I8 Ity_I8)
           else if nm \<in> {''Sub8x16''} then Some (BINARY Ity_V128 Ity_V128 Ity_V128) else None)
       else if c = CHR ''V'' then
          (if nm \<in> {''V128HLtoV256''} then Some (BINARY Ity_V128 Ity_V128 Ity_V256)
           else if nm \<in> {''V128HIto64'', ''V128to64''} then Some (UNARY Ity_V128 Ity_I64)
           else if nm \<in> {''V256to64_0'', ''V256to64_1'', ''V256to64_2'', ''V256to64_3''} then Some (UNARY Ity_V256 Ity_I64) else None)
       else if c = CHR ''X'' then
          (if nm \<in> {''Xor16''} then Some (BINARY Ity_I16 Ity_I16 Ity_I16)
           else if nm \<in> {''Xor32''} then Some (BINARY Ity_I32 Ity_I32 Ity_I32)
           else if nm \<in> {''Xor64''} then Some (BINARY Ity_I64 Ity_I64 Ity_I64)
           else if nm \<in> {''Xor8''} then Some (BINARY Ity_I8 Ity_I8 Ity_I8)
           else if nm \<in> {''XorV128''} then Some (BINARY Ity_V128 Ity_V128 Ity_V128)
           else if nm \<in> {''XorV256''} then Some (BINARY Ity_V256 Ity_V256 Ity_V256) else None)
       else if c = CHR ''Z'' then
          (if nm \<in> {''ZeroHI64ofV128''} then Some (UNARY Ity_V128 Ity_V128) else None)
       else None)"

definition row_ok :: "primop_row \<Rightarrow> bool" where
  "row_ok row \<longleftrightarrow> list_all (\<lambda>nm. case sig_of nm of None \<Rightarrow> True | Some s \<Rightarrow> snd row = s) (fst row)"

lemma primops_1_ok: "list_all row_ok primops_1"
  by (simp add: primops_1_def row_ok_def sig_of_def)

lemma primops_2_ok: "list_all row_ok primops_2"
  by (simp add: primops_2_def row_ok_def sig_of_def)

lemma primops_3_ok: "list_all row_ok primops_3"
  by (simp add: primops_3_def row_ok_def sig_of_def)

lemma primops_4_ok: "list_all row_ok primops_4"
  by (simp add: primops_4_def row_ok_def sig_of_def)

lemma primops_5_ok: "list_all row_ok primops_5"
  by (simp add: primops_5_def row_ok_def sig_of_def)

lemma primops_6_ok: "list_all row_ok primops_6"
  by (simp add: primops_6_def row_ok_def sig_of_def)

lemma primops_7_ok: "list_all row_ok primops_7"
  by (simp add: primops_7_def row_ok_def sig_of_def)

lemma primops_8_ok: "list_all row_ok primops_8"
  by (simp add: primops_8_def row_ok_def sig_of_def)

lemma typeOfPrimop_sig:
  assumes "typeOfPrimop (Iop nm) = Inr s" "sig_of nm = Some s'"
  shows "s = s'"
proof -
  have "list_all row_ok primop_table"
    using primops_1_ok primops_2_ok primops_3_ok primops_4_ok primops_5_ok primops_6_ok primops_7_ok primops_8_ok
    by (simp add: primop_table_def)
  moreover obtain row where "row \<in> set primop_table" "nm \<in> set (fst row)" "s = snd row"
    using assms(1) by (auto simp: typeOfPrimop_def split: option.splits dest!: find_SomeD)
  ultimately show ?thesis using assms(2) by (fastforce simp: list_all_iff row_ok_def)
qed

lemma typeOfPrimop_found:
  assumes "row \<in> set primop_table" "nm \<in> set (fst row)" "sig_of nm = Some s"
  shows "typeOfPrimop (Iop nm) = Inr s"
proof -
  have "find (\<lambda>row. nm \<in> set (fst row)) primop_table \<noteq> None"
    using assms(1,2) find_None_iff [of "\<lambda>row. nm \<in> set (fst row)" primop_table] by metis
  then obtain s' where "typeOfPrimop (Iop nm) = Inr s'" by (auto simp: typeOfPrimop_def)
  with typeOfPrimop_sig [OF this assms(3)] show ?thesis by simp
qed

end
