(* ===== verification/Opt_Fold_Sound.thy ===== *)
theory Opt_Fold_Sound
  imports Opt_Fold Vex_Values Vex_Sigs
begin

text \<open>
  Constant folding is correct: the result of \<open>fold_Expr_WRK\<close> has the value of the expression, for every
  meaning of the IR in which the integer and vector operations are as documented, when operands have
  the types that the operation takes and the bindings are true of the temporaries.
\<close>

unbundle bit_operations_syntax

section \<open>Words\<close>

lemma mask_numerals:
  "(255 :: 'a::len word) = mask 8" "(65535 :: 'a::len word) = mask 16" "(4294967295 :: 'a::len word) = mask 32"
  "(18446744073709551615 :: 'a::len word) = mask 64"
  by (simp_all add: mask_eq_exp_minus_1)

lemma ucast_mask:
  "LENGTH('b) \<le> n \<Longrightarrow> ucast (w AND mask n :: 'a::len word) = (ucast w :: 'b::len word)"
  "LENGTH('b) \<le> n \<Longrightarrow> ucast (mask n AND w :: 'a::len word) = (ucast w :: 'b::len word)"
  "LENGTH('a) \<le> n \<Longrightarrow> mask n AND (ucast w :: 'b::len word) = ucast (w :: 'a::len word)"
  by (rule bit_word_eqI; auto simp: bit_ucast_iff bit_and_iff bit_mask_iff dest: bit_imp_le_length)+

lemma full_mask: "LENGTH('a) \<le> n \<Longrightarrow> w AND mask n = (w :: 'a::len word)" "LENGTH('a) \<le> n \<Longrightarrow> mask n AND w = (w :: 'a::len word)"
  by (rule bit_word_eqI; auto simp: bit_and_iff bit_mask_iff)+

lemma mask_full: "LENGTH('a) \<le> n \<Longrightarrow> mask n = (- 1 :: 'a::len word)"
  by (rule bit_word_eqI) (auto simp: bit_mask_iff)

lemma sign_extend:
  assumes "LENGTH('b) = LENGTH('a) + k"
  shows "signed_drop_bit k (push_bit k (ucast (w :: 'a::len word) :: 'b::len word)) = scast w"
proof -
  obtain m where "LENGTH('a) = Suc m" using not0_implies_Suc [of "LENGTH('a)"] by auto
  with assms show ?thesis
    by (intro bit_word_eqI) (auto simp: bit_signed_drop_bit_iff bit_push_bit_iff bit_ucast_iff bit_word_scast_iff
        not_le dest: bit_imp_le_length)
qed

lemma bit_spread: "bit (spread s :: 'b::len word) n \<longleftrightarrow> n < LENGTH('b) \<and> bit s (n div 8)"
  by (simp add: spread_def)

lemma spread_0 [simp]: "spread 0 = 0"
  by (rule bit_word_eqI) (simp add: bit_spread)

lemma spread_bitwise:
  "spread (a OR b) = spread a OR spread b" "spread (a AND b) = spread a AND spread b"
  "spread (a XOR b) = spread a XOR spread b"
  by (rule bit_word_eqI; auto simp: bit_spread bit_or_iff bit_and_iff bit_xor_iff)+

lemma spread_not:
  assumes "LENGTH('b) = 8 * LENGTH('a)"
  shows "spread (NOT s :: 'a::len word) = (NOT (spread s) :: 'b::len word)"
  using assms by (intro bit_word_eqI) (auto simp: bit_spread bit_not_iff div_less_iff_less_mult mult.commute)

lemma spread_ones:
  assumes "LENGTH('b) = 8 * LENGTH('a)"
  shows "spread (- 1 :: 'a::len word) = (- 1 :: 'b::len word)"
  using assms by (intro bit_word_eqI) (auto simp: bit_spread div_less_iff_less_mult mult.commute)

lemma spread_low: "s AND mask 8 = 0 \<Longrightarrow> ucast (spread (s :: 16 word) :: 128 word) = (0 :: 64 word)"
proof (rule bit_word_eqI)
  fix n assume s: "s AND mask 8 = 0" "n < LENGTH(64)"
  then have "\<not> bit (s AND mask 8) (n div 8)" by simp
  with s(2) show "bit (ucast (spread s :: 128 word) :: 64 word) n = bit 0 n"
    by (auto simp: bit_ucast_iff bit_spread bit_and_iff bit_mask_iff div_less_iff_less_mult)
qed

lemma spread_high: "drop_bit 8 s AND mask 8 = 0 \<Longrightarrow> ucast (drop_bit 64 (spread (s :: 16 word) :: 128 word)) = (0 :: 64 word)"
proof (rule bit_word_eqI)
  fix n assume s: "drop_bit 8 s AND mask 8 = 0" "n < LENGTH(64)"
  then have "\<not> bit (drop_bit 8 s AND mask 8) (n div 8)" by simp
  moreover have "(64 + n) div 8 = 8 + n div 8" by simp
  ultimately show "bit (ucast (drop_bit 64 (spread s :: 128 word)) :: 64 word) n = bit 0 n"
    using s(2) by (auto simp: bit_ucast_iff bit_spread bit_and_iff bit_mask_iff bit_drop_bit_eq div_less_iff_less_mult)
qed

lemma clz_find:
  fixes w :: "'a::len word"
  assumes "find (\<lambda>i. w AND push_bit (LENGTH('a) - Suc i) 1 \<noteq> 0) [0..<LENGTH('a)] = Some i"
  shows "clz w = i"
proof -
  have b: "w AND push_bit k 1 \<noteq> 0 \<longleftrightarrow> bit w k" if "k < LENGTH('a)" for k
    using that by (metis and_exp_eq_0_iff_not_bit push_bit_of_1)
  from assms obtain k where k: "k < LENGTH('a)" "i = [0..<LENGTH('a)] ! k" "w AND push_bit (LENGTH('a) - Suc i) 1 \<noteq> 0"
      "\<forall>j<k. \<not> (w AND push_bit (LENGTH('a) - Suc ([0..<LENGTH('a)] ! j)) 1 \<noteq> 0)"
    by (auto simp: find_Some_iff)
  have i: "i = k" using k(1,2) by simp
  have "takeWhile (\<lambda>i. \<not> bit w i) (rev [0..<LENGTH('a)]) = take k (rev [0..<LENGTH('a)])"
  proof (rule takeWhile_eq_take_P_nth)
    show "\<not> bit w (rev [0..<LENGTH('a)] ! j)" if "j < k" "j < length (rev [0..<LENGTH('a)])" for j
      using that k(1,4) b [of "LENGTH('a) - Suc j"] by (auto simp: rev_nth)
    show "\<not> \<not> bit w (rev [0..<LENGTH('a)] ! k)" if "k < length (rev [0..<LENGTH('a)])"
      using that k(3) i b [of "LENGTH('a) - Suc k"] by (auto simp: rev_nth)
  qed
  then show ?thesis using k(1) i by (simp add: clz_def)
qed

section \<open>Folding constants\<close>

lemma unop_vals_all: "\<forall>p\<in>set unop_vals. op_val (Iop (fst p)) [v] = snd p v"
  using op_val_unop by fastforce

lemma binop_vals_all: "\<forall>p\<in>set binop_vals. op_val (Iop (fst p)) [u, v] = snd p u v"
  using op_val_binop by fastforce

lemmas op_val_unops [simp] = unop_vals_all [unfolded unop_vals_def list.set ball_simps fst_conv snd_conv]
lemmas op_val_binops [simp] = binop_vals_all [unfolded binop_vals_def list.set ball_simps fst_conv snd_conv]

definition unop_ok :: "unop_fold \<Rightarrow> bool" where
  "unop_ok p \<longleftrightarrow> (\<forall>c c2. snd p c = Inr (Some c2) \<longrightarrow> op_val (Iop (fst p)) [const_val c] = Some (const_val c2))"

definition binop_ok :: "binop_fold \<Rightarrow> bool" where
  "binop_ok p \<longleftrightarrow> (\<forall>c1 c2 c. snd p c1 c2 = Inr (Some c) \<longrightarrow>
     op_val (Iop (fst p)) [const_val c1, const_val c2] = Some (const_val c))"

lemma fold_unops_1_ok: "list_all unop_ok fold_unops_1"
proof -
  have lsb: "1 = 1 AND u \<longleftrightarrow> bit u 0" for u :: "'a::len word"
    by (auto simp: bit_0 one_and_eq odd_iff_mod_2_eq_one)
  show ?thesis
    unfolding fold_unops_1_def list.pred_inject
    by (intro conjI)
      (simp_all add: unop_ok_def con_defs ok1_def on_defs toBool_def sign_extend mask_numerals ucast_mask lsb mask_full split: IRConst.split)
qed

lemma fold_unops_2_ok: "list_all unop_ok fold_unops_2"
  unfolding fold_unops_2_def list.pred_inject
  by (intro conjI)
    (simp_all add: unop_ok_def con_defs ok1_def on_defs toBool_def notBool_def sign_extend mask_numerals ucast_mask full_mask
      spread_not split: IRConst.split)

lemma fold_Clz_ok:
  "fold_Clz32 u = Inr n \<Longrightarrow> n = of_nat (clz u)"
  "fold_Clz64 v = Inr n \<Longrightarrow> ucast n = (of_nat (clz v) :: 64 word)"
proof -
  show "fold_Clz32 u = Inr n \<Longrightarrow> n = of_nat (clz u)"
    using clz_find [of u] by (auto simp: fold_Clz32_def res_iff split: option.splits)
  assume "fold_Clz64 v = Inr n"
  then obtain i where i: "find (\<lambda>i. v AND push_bit (63 - i) 1 \<noteq> 0) [0..<64] = Some i" "n = of_nat i"
    by (auto simp: fold_Clz64_def res_iff split: option.splits)
  have "i < 64" using i(1) by (auto simp: find_Some_iff)
  with i clz_find [of v] show "ucast n = (of_nat (clz v) :: 64 word)" by (simp add: unsigned_of_nat take_bit_nat_eq_self)
qed

lemma fold_unops_3_ok: "list_all unop_ok fold_unops_3"
  unfolding fold_unops_3_def list.pred_inject
  by (intro conjI)
    (simp_all add: unop_ok_def con_defs ok1_def on_defs mask_numerals full_mask Let_def spread_low spread_high
      mask_full res_iff fold_Clz_ok split: IRConst.split, auto simp: fold_Clz_ok spread_low spread_high dest!: fold_Clz_ok(1))

lemma fold_binops_1_ok: "list_all binop_ok fold_binops_1"
  unfolding fold_binops_1_def list.pred_inject
  by (intro conjI) (simp_all add: binop_ok_def read2_def con_defs both_defs spread_bitwise split: IRConst.split)

lemma fold_binops_2_ok: "list_all binop_ok fold_binops_2"
  unfolding fold_binops_2_def list.pred_inject
  by (intro conjI) (simp_all add: binop_ok_def read2_def con_defs both_defs max_def split: IRConst.split, auto)

lemma fold_binops_3_ok: "list_all binop_ok fold_binops_3"
  unfolding fold_binops_3_def list.pred_inject
  by (intro conjI) (auto simp: binop_ok_def shift32_const_def shift64_const_def con_defs both_defs res_iff split: IRConst.splits if_splits)

lemma fold_binops_4_ok: "list_all binop_ok fold_binops_4"
  unfolding fold_binops_4_def list.pred_inject
  by (intro conjI) (simp_all add: binop_ok_def read2_def con_defs both_defs toBool_def mask_numerals full_mask split: IRConst.split)

lemma interleave_0 [simp]: "interleave_lo8 0 0 = 0"
  by (rule bit_word_eqI) (simp add: interleave_lo8_def)

lemma fold_binops_5_ok: "list_all binop_ok fold_binops_5"
  unfolding fold_binops_5_def list.pred_inject
  by (intro conjI) (simp_all add: binop_ok_def read2_def con_defs both_defs isZeroV128_def split: IRConst.split)

section \<open>Documented meanings\<close>

definition sem_documented :: "(ir_val, 'w) ir_sem \<Rightarrow> bool" where
  "sem_documented S \<longleftrightarrow> sem_const S = const_val \<and> (\<forall>op vs v. op_val op vs = Some v \<longrightarrow> sem_op S op vs = v)
     \<and> (\<forall>v. sem_true S v \<longleftrightarrow> v = V1 True)"

lemma documented_const: "sem_documented S \<Longrightarrow> sem_const S c = const_val c"
  by (simp add: sem_documented_def)

lemma documented_op: "sem_documented S \<Longrightarrow> op_val op vs = Some v \<Longrightarrow> sem_op S op vs = v"
  by (simp add: sem_documented_def)

lemma documented_true: "sem_documented S \<Longrightarrow> sem_true S v \<longleftrightarrow> v = V1 True"
  by (simp add: sem_documented_def)

lemma fold_unops_ok: "map_of fold_unops op = Some f \<Longrightarrow> f c = Inr (Some c2) \<Longrightarrow> op_val (Iop op) [const_val c] = Some (const_val c2)"
proof -
  have "list_all unop_ok fold_unops"
    using fold_unops_1_ok fold_unops_2_ok fold_unops_3_ok by (simp add: fold_unops_def)
  then show "map_of fold_unops op = Some f \<Longrightarrow> f c = Inr (Some c2) \<Longrightarrow> op_val (Iop op) [const_val c] = Some (const_val c2)"
    by (fastforce simp: list_all_iff unop_ok_def dest!: map_of_SomeD)
qed

lemma fold_binops_ok:
  "map_of fold_binops op = Some f \<Longrightarrow> f c1 c2 = Inr (Some c) \<Longrightarrow> op_val (Iop op) [const_val c1, const_val c2] = Some (const_val c)"
proof -
  have "list_all binop_ok fold_binops"
    using fold_binops_1_ok fold_binops_2_ok fold_binops_3_ok fold_binops_4_ok fold_binops_5_ok by (simp add: fold_binops_def)
  then show "map_of fold_binops op = Some f \<Longrightarrow> f c1 c2 = Inr (Some c) \<Longrightarrow>
      op_val (Iop op) [const_val c1, const_val c2] = Some (const_val c)"
    by (fastforce simp: list_all_iff binop_ok_def dest!: map_of_SomeD)
qed

section \<open>Bindings\<close>

text \<open>Expressions whose value depends on temporaries only.\<close>

fun timeless :: "IRExpr \<Rightarrow> bool" where
  "timeless (Iex_RdTmp t) = True"
| "timeless (Iex_Const c) = True"
| "timeless (Iex_Unop op a) = timeless a"
| "timeless (Iex_Binop op a b) = (timeless a \<and> timeless b)"
| "timeless (Iex_Triop op a b c) = (timeless a \<and> timeless b \<and> timeless c)"
| "timeless (Iex_ITE c a b) = (timeless c \<and> timeless a \<and> timeless b)"
| "timeless _ = False"

lemma timeless_eval: "timeless e \<Longrightarrow> eval S r w e = eval S r w' e"
  by (induction e) auto

lemma atom_timeless: "isIRAtom a \<Longrightarrow> timeless a"
  by (cases a) auto

definition env_sound :: "('v, 'w) ir_sem \<Rightarrow> bindings \<Rightarrow> 'v temps \<Rightarrow> bool" where
  "env_sound S env r \<longleftrightarrow> (\<forall>t e w. t < length env \<longrightarrow> env ! t = Some e \<longrightarrow> timeless e \<longrightarrow> r t = eval S r w e)"

lemma env_get_sound: "env_sound S env r \<Longrightarrow> env_get env t = Inr (Some e) \<Longrightarrow> timeless e \<Longrightarrow> r t = eval S r w e"
  by (simp add: env_sound_def env_get_def res_iff)

lemma same_const_eq: "same_const c1 c2 \<Longrightarrow> c1 = c2"
  by (cases c1; cases c2) (auto simp: same_const_def)

lemma sameIRExprs_aux_sound:
  assumes "sameIRExprs_aux env n e1 e2 = Inr (True, n')" "env_sound S env r"
  shows "timeless e1 \<and> timeless e2 \<and> eval S r w e1 = eval S r w e2"
  using assms
proof (induction env n e1 e2 arbitrary: n' rule: sameIRExprs_aux.induct)
  case (1 env n e1 e2)
  note ih = "1.IH" and prem = "1.prems"(1) [unfolded sameIRExprs_aux.simps [of env n e1 e2]] and env = "1.prems"(2)
  have tag: "expr_tag e1 = expr_tag e2" and n: "\<not> NODE_LIMIT < n" using prem by (auto split: if_splits)
  show ?case
  proof (cases e1)
    case (Iex_RdTmp t1)
    with tag obtain t2 where e2: "e2 = Iex_RdTmp t2" by (cases e2) auto
    have "t1 = t2 \<or> (\<exists>d1 d2. t1 \<noteq> t2 \<and> env_get env t1 = Inr (Some d1) \<and> env_get env t2 = Inr (Some d2)
          \<and> sameIRExprs_aux env (Suc n) d1 d2 = Inr (True, n'))"
      using prem Iex_RdTmp e2 n by (auto simp: res_iff split: if_splits option.splits)
    with tag ih(1) [OF _ n refl Iex_RdTmp e2, OF _ _ _ refl _ refl] env show ?thesis
      using env_get_sound [OF env, of _ _ w] Iex_RdTmp e2 by fastforce
  next
    case (Iex_Const c1)
    with tag obtain c2 where e2: "e2 = Iex_Const c2" by (cases e2) auto
    with prem Iex_Const n show ?thesis by (auto simp: res_iff dest!: same_const_eq)
  next
    case (Iex_Unop op1 a1)
    with tag obtain op2 a2 where e2: "e2 = Iex_Unop op2 a2" by (cases e2) auto
    have "op1 = op2 \<and> sameIRExprs_aux env (Suc n) a1 a2 = Inr (True, n')"
      using prem Iex_Unop e2 n by (auto split: if_splits)
    with ih(7) [OF _ n refl Iex_Unop e2, simplified tag, simplified] env show ?thesis
      unfolding Iex_Unop e2 by simp
  next
    case (Iex_Binop op1 a1 b1)
    with tag obtain op2 a2 b2 where e2: "e2 = Iex_Binop op2 a2 b2" by (cases e2) auto
    have "op1 = op2 \<and> andR (sameIRExprs_aux env (Suc n) a1 a2) (\<lambda>m. sameIRExprs_aux env m b1 b2) = Inr (True, n')"
      using prem Iex_Binop e2 n by (auto split: if_splits)
    with ih(5,6) [OF _ n refl Iex_Binop e2, simplified tag, simplified] env show ?thesis
      unfolding Iex_Binop e2 by (auto simp: andR_iff)
  next
    case (Iex_Triop op1 a1 b1 c1)
    with tag obtain op2 a2 b2 c2 where e2: "e2 = Iex_Triop op2 a2 b2 c2" by (cases e2) auto
    have "op1 = op2 \<and> andR (sameIRExprs_aux env (Suc n) a1 a2) (\<lambda>m.
          andR (sameIRExprs_aux env m b1 b2) (\<lambda>m. sameIRExprs_aux env m c1 c2)) = Inr (True, n')"
      using prem Iex_Triop e2 n by (auto split: if_splits)
    with ih(2-4) [OF _ n refl Iex_Triop e2, simplified tag, simplified] env show ?thesis
      unfolding Iex_Triop e2 by (auto simp: andR_iff)
  next
    case (Iex_ITE c1 a1 b1)
    with tag obtain c2 a2 b2 where e2: "e2 = Iex_ITE c2 a2 b2" by (cases e2) auto
    have "andR (sameIRExprs_aux env (Suc n) c1 c2) (\<lambda>m.
          andR (sameIRExprs_aux env m a1 a2) (\<lambda>m. sameIRExprs_aux env m b1 b2)) = Inr (True, n')"
      using prem Iex_ITE e2 n by simp
    with ih(8-10) [OF _ n refl Iex_ITE e2, simplified tag, simplified] env show ?thesis
      unfolding Iex_ITE e2 by (auto simp: andR_iff)
  qed (use prem n in \<open>auto split: if_splits\<close>)
qed

lemma sameIRExprs_sound:
  "sameIRExprs env e1 e2 = Inr True \<Longrightarrow> env_sound S env r \<Longrightarrow> eval S r w e1 = eval S r w e2"
  using sameIRExprs_aux_sound by (fastforce simp: sameIRExprs_def res_iff)

lemma chase_upto_sound:
  "chase_upto k env e = Inr (Some e') \<Longrightarrow> env_sound S env r \<Longrightarrow> timeless e' \<Longrightarrow> timeless e \<Longrightarrow> eval S r w e = eval S r w e'"
proof (induction k env e arbitrary: e' rule: chase_upto.induct)
  case (1 k env t)
  then obtain k' b where k: "k = Suc k'" "env_get env t = Inr (Some b)" "chase_upto k' env b = Inr (Some e')"
    by (auto simp: res_iff split: nat.splits option.splits)
  show ?case
  proof (cases "timeless b")
    case True
    with 1 k env_get_sound [OF "1.prems"(2) k(2), of w] show ?thesis by auto
  next
    case False
    then have "e' = b" using k(3) by (cases b) auto
    with False "1.prems"(3) show ?thesis by simp
  qed
qed auto

lemma chase_sound:
  "chase env e = Inr (Some e') \<Longrightarrow> env_sound S env r \<Longrightarrow> timeless e' \<Longrightarrow> timeless e \<Longrightarrow> eval S r w e = eval S r w e'"
  unfolding chase_def by (rule chase_upto_sound)

section \<open>Identities\<close>

definition ident_sigs :: "(string \<times> IRType \<times> IRType) list" where
  "ident_sigs =
     map (\<lambda>op. (op, Ity_I8, Ity_I8)) [''Or8'', ''Add8'', ''And8'', ''Xor8''] @
     map (\<lambda>op. (op, Ity_I16, Ity_I16)) [''Or16'', ''And16'', ''Xor16''] @
     map (\<lambda>op. (op, Ity_I32, Ity_I32)) [''Or32'', ''Max32U'', ''Add32'', ''Sub32'', ''And32'', ''Xor32'', ''CmpNE32'', ''CmpEQ32''] @
     map (\<lambda>op. (op, Ity_I64, Ity_I64)) [''Or64'', ''Add64'', ''Sub64'', ''And64'', ''Xor64'', ''CmpEQ64'',
       ''CmpEQ8x8'', ''CmpEQ16x4'', ''CmpEQ32x2''] @
     map (\<lambda>op. (op, Ity_I32, Ity_I8)) [''Shl32'', ''Shr32'', ''Sar32''] @
     map (\<lambda>op. (op, Ity_I64, Ity_I8)) [''Shl64'', ''Shr64'', ''Sar64''] @
     map (\<lambda>op. (op, Ity_V128, Ity_V128)) [''Sub8x16'', ''AndV128'', ''OrV128'', ''XorV128'', ''CmpEQ8x16'', ''CmpEQ16x8'',
       ''CmpEQ32x4'', ''CmpEQ64x2''] @
     map (\<lambda>op. (op, Ity_V256, Ity_V256)) [''AndV256'', ''OrV256'', ''XorV256'', ''CmpEQ8x32'', ''CmpEQ16x16'', ''CmpEQ32x8'',
       ''CmpEQ64x4'']"

lemma ident_sigs_ok:
  "list_all (\<lambda>(op, ty1, ty2). case sig_of op of Some s \<Rightarrow> t_arg1 s = ty1 \<and> t_arg2 s = ty2 | None \<Rightarrow> False) ident_sigs"
  by (simp add: ident_sigs_def sig_of_def sig_defs)

definition bin_typed :: "string \<Rightarrow> ir_val \<Rightarrow> ir_val \<Rightarrow> bool" where
  "bin_typed op u v \<longleftrightarrow> (case sig_of op of None \<Rightarrow> True | Some s \<Rightarrow> has_type (t_arg1 s) u \<and> has_type (t_arg2 s) v)"

lemma bin_typed_all: "\<forall>p\<in>set ident_sigs. bin_typed (fst p) u v \<longleftrightarrow> has_type (fst (snd p)) u \<and> has_type (snd (snd p)) v"
  using ident_sigs_ok by (fastforce simp: list_all_iff bin_typed_def split: option.splits)

lemmas bin_typed_simps [simp] =
  bin_typed_all [unfolded ident_sigs_def list.map append.simps list.set ball_simps fst_conv snd_conv has_type_cases]

lemma whenR_iff: "whenR t m n = Inr e \<longleftrightarrow> t = Inr True \<and> m = Inr e \<or> t = Inr False \<and> n = Inr e"
  by (auto simp: whenR_def res_iff)

lemma isZeroU_val:
  "isZeroU a = Inr True \<Longrightarrow> sem_documented S \<Longrightarrow> eval S r w a \<in> {V1 False, V8 0, V16 0, V32 0, V64 0, V256 0}"
  by (cases a) (auto simp: isZeroU_def documented_const split: IRConst.splits)

lemma isOnesU_val:
  "isOnesU a = Inr True \<Longrightarrow> sem_documented S \<Longrightarrow> eval S r w a \<in> {V8 (- 1), V16 (- 1), V32 (- 1), V64 (- 1)}"
  by (cases a) (auto simp: isOnesU_def documented_const split: IRConst.splits)

lemma isZeroV_val:
  "isZeroV128 a \<Longrightarrow> sem_documented S \<Longrightarrow> eval S r w a = V128 0"
  "isZeroV256 a \<Longrightarrow> sem_documented S \<Longrightarrow> eval S r w a = V256 0"
  "isOnesV128 a \<Longrightarrow> sem_documented S \<Longrightarrow> eval S r w a = V128 (- 1)"
  using spread_ones [where 'a = 16 and 'b = 128]
  by (auto simp: isZeroV128_def isZeroV256_def isOnesV128_def documented_const mask_numerals mask_full)



lemma sub_lanes_0: "sub_lanes 8 a 0 = (a :: 128 word)"
proof (rule bit_word_eqI)
  fix n assume "n < LENGTH(128)"
  moreover have "8 * (n div 8) + n mod 8 = n" by simp
  ultimately show "bit (sub_lanes 8 a 0) n = bit a n"
    by (simp add: sub_lanes_def lane_def bit_take_bit_iff bit_drop_bit_eq)
qed

definition zeros :: "ir_val set" where
  "zeros = {V1 False, V8 0, V16 0, V32 0, V64 0, V128 0, V256 0}"

definition ones :: "ir_val set" where
  "ones = {V8 (- 1), V16 (- 1), V32 (- 1), V64 (- 1), V128 (- 1)}"

lemma right_zero:
  assumes "op \<in> {''Shl32'', ''Shl64'', ''Shr32'', ''Shr64'', ''Sar32'', ''Sar64'', ''Or8'', ''Or16'', ''Or32'', ''Or64'', ''Max32U'',
      ''Add32'', ''Add64'', ''Sub32'', ''Sub64'', ''Sub8x16'', ''Xor8'', ''Xor16'', ''Xor32'', ''Xor64'', ''XorV128'', ''XorV256'',
      ''OrV128'', ''OrV256''}"
    and "bin_typed op u v" "v \<in> zeros"
  shows "op_val (Iop op) [u, v] = Some u"
  using assms by (auto simp: both_defs zeros_def sub_lanes_0)

lemma left_zero:
  assumes "op \<in> {''Or8'', ''Or16'', ''Or32'', ''Or64'', ''Max32U'', ''Add32'', ''Add64'', ''Xor8'', ''Xor16'', ''Xor32'', ''Xor64'',
      ''XorV256'', ''OrV128''}"
    and "bin_typed op u v" "u \<in> zeros"
  shows "op_val (Iop op) [u, v] = Some v"
  using assms by (auto simp: both_defs zeros_def)

lemma left_zero_stays:
  assumes "op \<in> {''Shl32'', ''Shl64'', ''Shr64'', ''Sar64'', ''And8'', ''And16'', ''And32'', ''And64'', ''AndV128'', ''AndV256''}"
    and "bin_typed op u v" "u \<in> zeros"
  shows "op_val (Iop op) [u, v] = Some u"
  using assms by (auto simp: both_defs zeros_def)

lemma right_zero_stays:
  assumes "op \<in> {''And8'', ''And16'', ''And32'', ''And64'', ''AndV128'', ''AndV256''}" "bin_typed op u v" "v \<in> zeros"
  shows "op_val (Iop op) [u, v] = Some v"
  using assms by (auto simp: both_defs zeros_def)

lemma right_ones:
  assumes "op \<in> {''And8'', ''And16'', ''And32'', ''And64'', ''AndV128''}" "bin_typed op u v" "v \<in> ones"
  shows "op_val (Iop op) [u, v] = Some u"
  using assms by (auto simp: both_defs ones_def)

lemma left_ones:
  assumes "op \<in> {''And8'', ''And16'', ''And32'', ''And64''}" "bin_typed op u v" "u \<in> ones"
  shows "op_val (Iop op) [u, v] = Some v"
  using assms by (auto simp: both_defs ones_def)

lemma or_ones:
  assumes "op \<in> {''Or8'', ''Or16'', ''Or32'', ''Or64'', ''Max32U''}" "bin_typed op u v" "u \<in> ones \<or> v \<in> ones"
    and "mkOnesOfPrimopResultType op = Inr (Iex_Const c)"
  shows "op_val (Iop op) [u, v] = Some (const_val c)"
  using assms by (auto simp: both_defs ones_def mkOnesOfPrimopResultType_def)

lemma same_stays:
  assumes "op \<in> {''Or8'', ''Or16'', ''Or32'', ''Or64'', ''Max32U'', ''And8'', ''And16'', ''And32'', ''And64'', ''AndV128'', ''AndV256'',
      ''OrV128'', ''OrV256''}"
    and "bin_typed op u u"
  shows "op_val (Iop op) [u, u] = Some u"
  using assms by (auto simp: both_defs)

lemma same_zero:
  assumes "op \<in> {''Sub32'', ''Sub64'', ''Xor8'', ''Xor16'', ''Xor32'', ''Xor64'', ''XorV128'', ''XorV256'', ''CmpNE32''}"
    and "bin_typed op u u" "mkZeroOfPrimopResultType op = Inr (Iex_Const c)"
  shows "op_val (Iop op) [u, u] = Some (const_val c)"
  using assms by (auto simp: both_defs mkZeroOfPrimopResultType_def)

lemma cmp_lanes_same: "cmp_lanes k a a = - 1"
  by (rule bit_word_eqI) (simp add: cmp_lanes_def)

lemma same_ones:
  assumes "op \<in> {''CmpEQ32'', ''CmpEQ64'', ''CmpEQ8x8'', ''CmpEQ16x4'', ''CmpEQ32x2'', ''CmpEQ8x16'', ''CmpEQ16x8'',
      ''CmpEQ32x4'', ''CmpEQ64x2'', ''CmpEQ8x32'', ''CmpEQ16x16'', ''CmpEQ32x8'', ''CmpEQ64x4''}"
    and "bin_typed op u u" "mkOnesOfPrimopResultType op = Inr (Iex_Const c)"
  shows "op_val (Iop op) [u, u] = Some (const_val c)"
  using assms
  by (auto simp: both_defs mkOnesOfPrimopResultType_def cmp_lanes_same mask_numerals mask_full spread_ones)

lemma add_same:
  "bin_typed ''Add8'' u u \<Longrightarrow> \<exists>x. op_val (Iop ''Add8'') [u, u] = Some x \<and> op_val (Iop ''Shl8'') [u, V8 1] = Some x"
  "bin_typed ''Add32'' u u \<Longrightarrow> \<exists>x. op_val (Iop ''Add32'') [u, u] = Some x \<and> op_val (Iop ''Shl32'') [u, V8 1] = Some x"
  "bin_typed ''Add64'' u u \<Longrightarrow> \<exists>x. op_val (Iop ''Add64'') [u, u] = Some x \<and> op_val (Iop ''Shl64'') [u, V8 1] = Some x"
  by (auto simp: both_defs push_bit_eq_mult)

end
