(* ===== verification/Opt_Fold_Correct.thy ===== *)
theory Opt_Fold_Correct
  imports Opt_Fold_Sound
begin

text \<open>
  The rest of the correctness of \<open>fold_Expr_WRK\<close>: its identities, the pattern that counts trailing
  zeroes, \<open>ITE\<close>, and \<open>fold_sound\<close> for the whole function. \<open>env_true\<close> says that the bindings
  are flat, true of the temporaries, and have operands of the right types; \<open>arg_typed\<close> says the
  latter of the expression that is folded.
\<close>

unbundle bit_operations_syntax

section \<open>Folding identities\<close>

lemma isZeroU_zeros: "isZeroU a = Inr True \<Longrightarrow> sem_documented S \<Longrightarrow> eval S r w a \<in> zeros"
  using isZeroU_val [of a S r w] by (auto simp: zeros_def)

lemma isOnesU_ones: "isOnesU a = Inr True \<Longrightarrow> sem_documented S \<Longrightarrow> eval S r w a \<in> ones"
  using isOnesU_val [of a S r w] by (auto simp: ones_def)

lemma vector_consts:
  "isZeroV128 a \<Longrightarrow> sem_documented S \<Longrightarrow> eval S r w a \<in> zeros"
  "isZeroV256 a \<Longrightarrow> sem_documented S \<Longrightarrow> eval S r w a \<in> zeros"
  "isOnesV128 a \<Longrightarrow> sem_documented S \<Longrightarrow> eval S r w a \<in> ones"
  using isZeroV_val [of a S r w] by (auto simp: zeros_def ones_def)

definition const_res :: "IRExpr res \<Rightarrow> bool" where
  "const_res m \<longleftrightarrow> (\<forall>e. m = Inr e \<longrightarrow> (\<exists>c. e = Iex_Const c))"

lemma const_res_simps: "const_res (Inr (Iex_Const c))" "const_res (Inl x)" "const_res m \<Longrightarrow> const_res n \<Longrightarrow> const_res (if b then m else n)"
  by (simp_all add: const_res_def)

lemma mk_const_res: "const_res (mkZeroOfPrimopResultType op)" "const_res (mkOnesOfPrimopResultType op)"
  unfolding mkZeroOfPrimopResultType_def mkOnesOfPrimopResultType_def by (intro const_res_simps)+

lemma mk_const:
  assumes "mkZeroOfPrimopResultType op = Inr e \<or> mkOnesOfPrimopResultType op = Inr e"
  obtains c where "e = Iex_Const c"
  using assms mk_const_res unfolding const_res_def by blast

text \<open>An identity holds: the operation's value is that of the new expression, or nothing changes.\<close>

definition ident_ok :: "(ir_val, 'w) ir_sem \<Rightarrow> ir_val temps \<Rightarrow> 'w \<Rightarrow> string \<Rightarrow> IRExpr \<Rightarrow> IRExpr \<Rightarrow> IRExpr \<Rightarrow> bool" where
  "ident_ok S r w op a b e2 \<longleftrightarrow> op_val (Iop op) [eval S r w a, eval S r w b] = Some (eval S r w e2)"

lemma ident_same:
  assumes "sameIRExprs env a b = Inr True" "env_sound S env r" "op_val (Iop op) [eval S r w a, eval S r w a] = Some v"
  shows "op_val (Iop op) [eval S r w a, eval S r w b] = Some v"
  using assms sameIRExprs_sound [OF assms(1,2), of w] by simp

lemma typed_same:
  assumes "sameIRExprs env a b = Inr True" "env_sound S env r" "bin_typed op (eval S r w a) (eval S r w b)"
  shows "bin_typed op (eval S r w a) (eval S r w a)"
  using assms(3) sameIRExprs_sound [OF assms(1,2), of w] by metis

lemma ident_fstI:
  "e2 = a \<Longrightarrow> op_val (Iop op) [eval S r w a, eval S r w b] = Some (eval S r w a) \<Longrightarrow> e2 = e \<or> ident_ok S r w op a b e2"
  by (simp add: ident_ok_def)

lemma ident_sndI:
  "e2 = b \<Longrightarrow> op_val (Iop op) [eval S r w a, eval S r w b] = Some (eval S r w b) \<Longrightarrow> e2 = e \<or> ident_ok S r w op a b e2"
  by (simp add: ident_ok_def)

lemma ident_constI:
  "sem_documented S \<Longrightarrow> e2 = Iex_Const c \<Longrightarrow> op_val (Iop op) [eval S r w a, eval S r w b] = Some (const_val c) \<Longrightarrow>
   e2 = e \<or> ident_ok S r w op a b e2"
  by (simp add: ident_ok_def documented_const)

lemma orR_iff: "bindR m (\<lambda>b. if b then Inr True else n) = Inr True \<longleftrightarrow> m = Inr True \<or> m = Inr False \<and> n = Inr True"
  by (auto simp: res_iff split: if_splits)

lemma fold_Shift_ok:
  assumes "sem_documented S" "bin_typed op (eval S r w a) (eval S r w b)" "fold_Shift e a b = Inr e2"
    and "op \<in> {''Shl32'', ''Shl64'', ''Shr64'', ''Sar64''}"
  shows "e2 = e \<or> ident_ok S r w op a b e2"
proof -
  note ops = subsetD [OF _ assms(4)] and zeroU = isZeroU_zeros [OF _ assms(1)]
  consider "e2 = e" | "isZeroU b = Inr True" "e2 = a" | "isZeroU a = Inr True" "e2 = a"
    using assms(3) unfolding fold_Shift_def whenR_iff sum.inject by blast
  then show ?thesis
  proof cases
    case 2
    show ?thesis by (rule ident_fstI [OF 2(2) right_zero [OF ops assms(2) zeroU [OF 2(1)]]]) simp
  next
    case 3
    show ?thesis by (rule ident_fstI [OF 3(2) left_zero_stays [OF ops assms(2) zeroU [OF 3(1)]]]) simp
  qed simp
qed

lemma fold_ShiftR32_ok:
  assumes "sem_documented S" "bin_typed op (eval S r w a) (eval S r w b)" "fold_ShiftR32 e a b = Inr e2"
    and "op \<in> {''Sar32'', ''Shr32''}"
  shows "e2 = e \<or> ident_ok S r w op a b e2"
proof -
  note ops = subsetD [OF _ assms(4)] and zeroU = isZeroU_zeros [OF _ assms(1)]
  consider "e2 = e" | "isZeroU b = Inr True" "e2 = a"
    using assms(3) unfolding fold_ShiftR32_def whenR_iff sum.inject by blast
  then show ?thesis
  proof cases
    case 2
    show ?thesis by (rule ident_fstI [OF 2(2) right_zero [OF ops assms(2) zeroU [OF 2(1)]]]) simp
  qed simp
qed

lemma fold_Or_ok:
  assumes "sem_documented S" "bin_typed op (eval S r w a) (eval S r w b)" "env_sound S env r" "fold_Or env op e a b = Inr e2"
    and "op \<in> {''Or8'', ''Or16'', ''Or32'', ''Or64'', ''Max32U''}"
  shows "e2 = e \<or> ident_ok S r w op a b e2"
proof -
  note ops = subsetD [OF _ assms(5)] and zeroU = isZeroU_zeros [OF _ assms(1)] and onesU = isOnesU_ones [OF _ assms(1)]
  consider "e2 = e" | "isZeroU b = Inr True" "e2 = a" | "isZeroU a = Inr True" "e2 = b"
    | "isOnesU a = Inr True \<or> isOnesU b = Inr True" "mkOnesOfPrimopResultType op = Inr e2" | "sameIRExprs env a b = Inr True" "e2 = a"
    using assms(4) unfolding fold_Or_def whenR_iff orR_iff sum.inject by blast
  then show ?thesis
  proof cases
    case 2
    show ?thesis by (rule ident_fstI [OF 2(2) right_zero [OF ops assms(2) zeroU [OF 2(1)]]]) simp
  next
    case 3
    show ?thesis by (rule ident_sndI [OF 3(2) left_zero [OF ops assms(2) zeroU [OF 3(1)]]]) simp
  next
    case 4
    then obtain c where c: "e2 = Iex_Const c" using mk_const by blast
    have "eval S r w a \<in> ones \<or> eval S r w b \<in> ones" using 4(1) onesU by blast
    from ident_constI [OF assms(1) c or_ones [OF assms(5,2) this 4(2) [unfolded c]]] show ?thesis .
  next
    case 5
    note ty = typed_same [OF 5(1) assms(3,2)]
    show ?thesis by (rule ident_fstI [OF 5(2) ident_same [OF 5(1) assms(3) same_stays [OF ops ty]]]) simp
  qed simp
qed

lemma fold_Adds_ok:
  assumes "sem_documented S" "bin_typed op (eval S r w a) (eval S r w b)" "env_sound S env r" "sameIRExprs env a b = Inr True"
    and "(op, op2) \<in> {(''Add8'', ''Shl8''), (''Add32'', ''Shl32''), (''Add64'', ''Shl64'')}"
  shows "ident_ok S r w op a b (Iex_Binop (Iop op2) a (Iex_Const (Ico_U8 1)))"
proof -
  have "\<exists>x. op_val (Iop op) [eval S r w a, eval S r w a] = Some x \<and> op_val (Iop op2) [eval S r w a, V8 1] = Some x"
    using assms(5) typed_same [OF assms(4,3,2)] add_same [of "eval S r w a"] unfolding insert_iff empty_iff prod.inject by metis
  with sameIRExprs_sound [OF assms(4,3), of w] show ?thesis
    by (auto simp: ident_ok_def documented_const [OF assms(1)] documented_op [OF assms(1)])
qed

lemma fold_Add8_ok:
  assumes "sem_documented S" "bin_typed ''Add8'' (eval S r w a) (eval S r w b)" "env_sound S env r" "fold_Add8 env e a b = Inr e2"
  shows "e2 = e \<or> ident_ok S r w ''Add8'' a b e2"
  using assms(4) fold_Adds_ok [OF assms(1-3), of "''Shl8''"] unfolding fold_Add8_def whenR_iff sum.inject by auto

lemma fold_Add_ok:
  assumes "sem_documented S" "bin_typed op (eval S r w a) (eval S r w b)" "env_sound S env r" "fold_Add env op e a b = Inr e2"
    and "op \<in> {''Add32'', ''Add64''}"
  shows "e2 = e \<or> ident_ok S r w op a b e2"
proof -
  note ops = subsetD [OF _ assms(5)] and zeroU = isZeroU_zeros [OF _ assms(1)]
  consider "e2 = e" | "isZeroU b = Inr True" "e2 = a" | "isZeroU a = Inr True" "e2 = b"
    | "sameIRExprs env a b = Inr True" "e2 = Iex_Binop (if op = ''Add32'' then Iop ''Shl32'' else Iop ''Shl64'') a (Iex_Const (Ico_U8 1))"
    using assms(4) unfolding fold_Add_def whenR_iff sum.inject by blast
  then show ?thesis
  proof cases
    case 2
    show ?thesis by (rule ident_fstI [OF 2(2) right_zero [OF ops assms(2) zeroU [OF 2(1)]]]) simp
  next
    case 3
    show ?thesis by (rule ident_sndI [OF 3(2) left_zero [OF ops assms(2) zeroU [OF 3(1)]]]) simp
  next
    case 4
    note add = fold_Adds_ok [OF assms(1-3) 4(1)]
    show ?thesis using assms(5) add [of "''Shl32''"] add [of "''Shl64''"] unfolding 4(2) by auto
  qed simp
qed

lemma fold_Sub_ok:
  assumes "sem_documented S" "bin_typed op (eval S r w a) (eval S r w b)" "env_sound S env r" "fold_Sub env op e a b = Inr e2"
    and "op \<in> {''Sub32'', ''Sub64''}"
  shows "e2 = e \<or> ident_ok S r w op a b e2"
proof -
  note ops = subsetD [OF _ assms(5)] and zeroU = isZeroU_zeros [OF _ assms(1)]
  consider "e2 = e" | "isZeroU b = Inr True" "e2 = a"
    | "sameIRExprs env a b = Inr True" "mkZeroOfPrimopResultType op = Inr e2"
    using assms(4) unfolding fold_Sub_def whenR_iff sum.inject by blast
  then show ?thesis
  proof cases
    case 2
    show ?thesis by (rule ident_fstI [OF 2(2) right_zero [OF ops assms(2) zeroU [OF 2(1)]]]) simp
  next
    case 3
    then obtain c where c: "e2 = Iex_Const c" using mk_const by blast
    note ty = typed_same [OF 3(1) assms(3,2)]
    show ?thesis by (rule ident_constI [OF assms(1) c ident_same [OF 3(1) assms(3) same_zero [OF ops ty 3(2) [unfolded c]]]]) simp
  qed simp
qed

lemma fold_Sub8x16_ok:
  assumes "sem_documented S" "bin_typed op (eval S r w a) (eval S r w b)" "env_sound S env r" "fold_Sub8x16 e a b = Inr e2"
    and "op \<in> {''Sub8x16''}"
  shows "e2 = e \<or> ident_ok S r w op a b e2"
proof -
  note ops = subsetD [OF _ assms(5)] and zeroV = vector_consts(1) [OF _ assms(1)]
  consider "e2 = e" | "isZeroV128 b" "e2 = a"
    using assms(4) unfolding fold_Sub8x16_def sum.inject by (auto split: if_splits)
  then show ?thesis
  proof cases
    case 2
    show ?thesis by (rule ident_fstI [OF 2(2) right_zero [OF ops assms(2) zeroV [OF 2(1)]]]) simp
  qed simp
qed

lemma fold_And_ok:
  assumes "sem_documented S" "bin_typed op (eval S r w a) (eval S r w b)" "env_sound S env r" "fold_And env e a b = Inr e2"
    and "op \<in> {''And8'', ''And16'', ''And32'', ''And64''}"
  shows "e2 = e \<or> ident_ok S r w op a b e2"
proof -
  note ops = subsetD [OF _ assms(5)] and zeroU = isZeroU_zeros [OF _ assms(1)] and onesU = isOnesU_ones [OF _ assms(1)]
  consider "e2 = e" | "isOnesU b = Inr True" "e2 = a" | "isOnesU a = Inr True" "e2 = b"
    | "isZeroU b = Inr True" "e2 = b" | "isZeroU a = Inr True" "e2 = a" | "sameIRExprs env a b = Inr True" "e2 = a"
    using assms(4) unfolding fold_And_def whenR_iff sum.inject by blast
  then show ?thesis
  proof cases
    case 2
    show ?thesis by (rule ident_fstI [OF 2(2) right_ones [OF ops assms(2) onesU [OF 2(1)]]]) simp
  next
    case 3
    show ?thesis by (rule ident_sndI [OF 3(2) left_ones [OF ops assms(2) onesU [OF 3(1)]]]) simp
  next
    case 4
    show ?thesis by (rule ident_sndI [OF 4(2) right_zero_stays [OF ops assms(2) zeroU [OF 4(1)]]]) simp
  next
    case 5
    show ?thesis by (rule ident_fstI [OF 5(2) left_zero_stays [OF ops assms(2) zeroU [OF 5(1)]]]) simp
  next
    case 6
    note ty = typed_same [OF 6(1) assms(3,2)]
    show ?thesis by (rule ident_fstI [OF 6(2) ident_same [OF 6(1) assms(3) same_stays [OF ops ty]]]) simp
  qed simp
qed

lemma and_zero:
  assumes "op \<in> {''AndV128'', ''AndV256''}" "bin_typed op u v" "u \<in> zeros \<or> v \<in> zeros"
    and "mkZeroOfPrimopResultType op = Inr (Iex_Const c)"
  shows "op_val (Iop op) [u, v] = Some (const_val c)"
  using assms by (auto simp: both_defs zeros_def mkZeroOfPrimopResultType_def)

lemma fold_AndV_ok:
  assumes "sem_documented S" "bin_typed op (eval S r w a) (eval S r w b)" "env_sound S env r" "fold_AndV env op e a b = Inr e2"
    and "op \<in> {''AndV128'', ''AndV256''}"
  shows "e2 = e \<or> ident_ok S r w op a b e2"
proof -
  note ops = subsetD [OF _ assms(5)] and zeroV = vector_consts(1,2) [OF _ assms(1)] and onesV = vector_consts(3) [OF _ assms(1)]
  consider "e2 = e" | "sameIRExprs env a b = Inr True" "e2 = a"
    | "eval S r w a \<in> zeros \<or> eval S r w b \<in> zeros" "mkZeroOfPrimopResultType op = Inr e2" | "isOnesV128 b" "e2 = a" "op = ''AndV128''"
    using assms(4) zeroV unfolding fold_AndV_def whenR_iff sum.inject by (auto split: if_splits)
  then show ?thesis
  proof cases
    case 2
    note ty = typed_same [OF 2(1) assms(3,2)]
    show ?thesis by (rule ident_fstI [OF 2(2) ident_same [OF 2(1) assms(3) same_stays [OF ops ty]]]) simp
  next
    case 3
    then obtain c where c: "e2 = Iex_Const c" using mk_const by blast
    show ?thesis by (rule ident_constI [OF assms(1) c and_zero [OF assms(5,2) 3(1) 3(2) [unfolded c]]])
  next
    case 4
    have op: "op \<in> {''And8'', ''And16'', ''And32'', ''And64'', ''AndV128''}" using 4(3) by simp
    show ?thesis by (rule ident_fstI [OF 4(2) right_ones [OF op assms(2) onesV [OF 4(1)]]])
  qed simp
qed

lemma fold_OrV_ok:
  assumes "sem_documented S" "bin_typed op (eval S r w a) (eval S r w b)" "env_sound S env r" "fold_OrV env op e a b = Inr e2"
    and "op \<in> {''OrV128'', ''OrV256''}"
  shows "e2 = e \<or> ident_ok S r w op a b e2"
proof -
  note ops = subsetD [OF _ assms(5)] and zeroV = vector_consts(1,2) [OF _ assms(1)]
  consider "e2 = e" | "sameIRExprs env a b = Inr True" "e2 = a"
    | "eval S r w b \<in> zeros" "e2 = a" | "eval S r w a \<in> zeros" "e2 = b" "op = ''OrV128''"
    using assms(4) zeroV unfolding fold_OrV_def whenR_iff sum.inject by (auto split: if_splits)
  then show ?thesis
  proof cases
    case 2
    note ty = typed_same [OF 2(1) assms(3,2)]
    show ?thesis by (rule ident_fstI [OF 2(2) ident_same [OF 2(1) assms(3) same_stays [OF ops ty]]]) simp
  next
    case 3
    show ?thesis by (rule ident_fstI [OF 3(2) right_zero [OF ops assms(2) 3(1)]]) simp
  next
    case 4
    show ?thesis by (rule ident_sndI [OF 4(2) left_zero [OF _ assms(2) 4(1)]]) (simp add: 4(3))
  qed simp
qed

lemma fold_Xor_ok:
  assumes "sem_documented S" "bin_typed op (eval S r w a) (eval S r w b)" "env_sound S env r" "fold_Xor env op e a b = Inr e2"
    and "op \<in> {''Xor8'', ''Xor16'', ''Xor32'', ''Xor64'', ''XorV128'', ''XorV256''}"
  shows "e2 = e \<or> ident_ok S r w op a b e2"
proof -
  note ops = subsetD [OF _ assms(5)] and zeroU = isZeroU_zeros [OF _ assms(1)] and zeroV = vector_consts(1) [OF _ assms(1)]
  consider "e2 = e" | "sameIRExprs env a b = Inr True" "mkZeroOfPrimopResultType op = Inr e2"
    | "eval S r w b \<in> zeros" "e2 = a" | "isZeroU a = Inr True" "e2 = b" "op \<noteq> ''XorV128''"
    using assms(4) zeroU zeroV unfolding fold_Xor_def whenR_iff sum.inject by (auto simp: whenR_iff split: if_splits)
  then show ?thesis
  proof cases
    case 2
    then obtain c where c: "e2 = Iex_Const c" using mk_const by blast
    note ty = typed_same [OF 2(1) assms(3,2)]
    show ?thesis by (rule ident_constI [OF assms(1) c ident_same [OF 2(1) assms(3) same_zero [OF ops ty 2(2) [unfolded c]]]]) simp
  next
    case 3
    show ?thesis by (rule ident_fstI [OF 3(2) right_zero [OF ops assms(2) 3(1)]]) simp
  next
    case 4
    have op: "op \<in> {''Or8'', ''Or16'', ''Or32'', ''Or64'', ''Max32U'', ''Add32'', ''Add64'', ''Xor8'', ''Xor16'', ''Xor32'', ''Xor64'',
        ''XorV256'', ''OrV128''}"
      using assms(5) 4(3) by auto
    show ?thesis by (rule ident_sndI [OF 4(2) left_zero [OF op assms(2) zeroU [OF 4(1)]]])
  qed simp
qed

lemma fold_CmpEQ_ok:
  assumes "sem_documented S" "bin_typed op (eval S r w a) (eval S r w b)" "env_sound S env r" "fold_CmpEQ env op e a b = Inr e2"
    and "op \<in> {''CmpEQ32'', ''CmpEQ64'', ''CmpEQ8x8'', ''CmpEQ16x4'', ''CmpEQ32x2'', ''CmpEQ8x16'', ''CmpEQ16x8'',
      ''CmpEQ32x4'', ''CmpEQ64x2'', ''CmpEQ8x32'', ''CmpEQ16x16'', ''CmpEQ32x8'', ''CmpEQ64x4''}"
  shows "e2 = e \<or> ident_ok S r w op a b e2"
proof -
  note ops = subsetD [OF _ assms(5)]
  consider "e2 = e"
    | "sameIRExprs env a b = Inr True" "mkOnesOfPrimopResultType op = Inr e2"
    using assms(4) unfolding fold_CmpEQ_def whenR_iff sum.inject by blast
  then show ?thesis
  proof cases
    case 2
    then obtain c where c: "e2 = Iex_Const c" using mk_const by blast
    note ty = typed_same [OF 2(1) assms(3,2)]
    show ?thesis by (rule ident_constI [OF assms(1) c ident_same [OF 2(1) assms(3) same_ones [OF ops ty 2(2) [unfolded c]]]]) simp
  qed simp
qed

section \<open>Bindings that are true\<close>

definition un_typed :: "string \<Rightarrow> ir_val \<Rightarrow> bool" where
  "un_typed op v \<longleftrightarrow> (case sig_of op of None \<Rightarrow> True | Some s \<Rightarrow> has_type (t_arg1 s) v)"

lemma un_typed_simps [simp]:
  "un_typed ''1Uto32'' v \<longleftrightarrow> (\<exists>b. v = V1 b)" "un_typed ''Not64'' v \<longleftrightarrow> (\<exists>x. v = V64 x)"
  "un_typed ''PopCount64'' v \<longleftrightarrow> (\<exists>x. v = V64 x)"
  by (simp_all add: un_typed_def sig_of_def sig_defs has_type_cases)

text \<open>The operands of an expression have the types that its operation takes.\<close>

definition arg_typed :: "(ir_val, 'w) ir_sem \<Rightarrow> ir_val temps \<Rightarrow> 'w \<Rightarrow> IRExpr \<Rightarrow> bool" where
  "arg_typed S r w e =
     (case e of
        Iex_Unop (Iop op) a \<Rightarrow> un_typed op (eval S r w a)
      | Iex_Binop (Iop op) a b \<Rightarrow> bin_typed op (eval S r w a) (eval S r w b)
      | _ \<Rightarrow> True)"

lemma arg_typed_simps [simp]:
  "arg_typed S r w (Iex_Unop (Iop op) a) = un_typed op (eval S r w a)"
  "arg_typed S r w (Iex_Binop (Iop op) a b) = bin_typed op (eval S r w a) (eval S r w b)"
  by (simp_all add: arg_typed_def)

definition env_true :: "(ir_val, 'w) ir_sem \<Rightarrow> bindings \<Rightarrow> ir_val temps \<Rightarrow> bool" where
  "env_true S env r \<longleftrightarrow> (\<forall>t<length env. \<forall>e. env ! t = Some e \<longrightarrow>
     isFlatRHS e = Inr True \<and> (timeless e \<longrightarrow> (\<forall>w. r t = eval S r w e \<and> arg_typed S r w e)))"

lemma env_true_sound: "env_true S env r \<Longrightarrow> env_sound S env r"
  by (auto simp: env_true_def env_sound_def)

lemma chase_upto_entry:
  "chase_upto k env e = Inr (Some e') \<Longrightarrow> e' = e \<or> (\<exists>t<length env. env ! t = Some e')"
proof (induction k env e arbitrary: e' rule: chase_upto.induct)
  case (1 k env t)
  then obtain k' b where k: "k = Suc k'" "t < length env" "env ! t = Some b" "chase_upto k' env b = Inr (Some e')"
    by (auto simp: res_iff env_get_def split: nat.splits option.splits)
  with "1.IH" [of k' "Some b" b e'] show ?case by (auto simp: env_get_def)
qed auto

lemma chase_true:
  assumes "chase env a = Inr (Some e')" "isIRAtom a" "env_true S env r" "\<not> isIRAtom e'"
  shows "isFlatRHS e' = Inr True" "timeless e' \<Longrightarrow> eval S r w a = eval S r w e' \<and> arg_typed S r w e'"
proof -
  from assms(1,2,4) obtain t where t: "t < length env" "env ! t = Some e'"
    using chase_upto_entry unfolding chase_def by metis
  with assms(3) show "isFlatRHS e' = Inr True" by (auto simp: env_true_def)
  assume "timeless e'"
  then show "eval S r w a = eval S r w e' \<and> arg_typed S r w e'"
    using t assms(3) chase_sound [OF assms(1) env_true_sound [OF assms(3)] _ atom_timeless [OF assms(2)]]
    by (auto simp: env_true_def)
qed

lemma chase_unop:
  assumes "chase env a = Inr (Some (Iex_Unop (Iop op) x))" "isIRAtom a" "env_true S env r"
  shows "isIRAtom x \<and> eval S r w a = sem_op S (Iop op) [eval S r w x] \<and> un_typed op (eval S r w x)"
  using chase_true(1) [OF assms] chase_true(2) [OF assms, of w] by (auto dest: atom_timeless)

lemma chase_binop:
  assumes "chase env a = Inr (Some (Iex_Binop (Iop op) x y))" "isIRAtom a" "env_true S env r"
  shows "isIRAtom x \<and> isIRAtom y \<and> eval S r w a = sem_op S (Iop op) [eval S r w x, eval S r w y]
    \<and> bin_typed op (eval S r w x) (eval S r w y)"
  using chase_true(1) [OF assms] chase_true(2) [OF assms, of w] by (auto dest: atom_timeless)

lemma case_unop:
  "(case x of Some (Iex_Unop op y) \<Rightarrow> f op y | _ \<Rightarrow> d) = v \<Longrightarrow> v = d \<or> (\<exists>op y. x = Some (Iex_Unop op y) \<and> f op y = v)"
  by (cases x; cases "the x") auto

lemma case_binop:
  "(case x of Some (Iex_Binop op y z) \<Rightarrow> f op y z | _ \<Rightarrow> d) = v \<Longrightarrow>
   v = d \<or> (\<exists>op y z. x = Some (Iex_Binop op y z) \<and> f op y z = v)"
  by (cases x; cases "the x") auto

lemma fold_CmpNE32_cases:
  assumes "fold_CmpNE32 env op e a b = Inr e2"
  obtains "e2 = e" | "sameIRExprs env a b = Inr True" "mkZeroOfPrimopResultType op = Inr e2"
    | "isZeroU32 b" "chase env a = Inr (Some (Iex_Unop (Iop ''1Uto32'') e2))"
  using assms unfolding fold_CmpNE32_def whenR_iff sum.inject
  by (auto simp: res_iff split: if_splits dest!: case_unop)

lemma fold_CmpNE32_ok:
  assumes "sem_documented S" "bin_typed op (eval S r w a) (eval S r w b)" "env_true S env r" "fold_CmpNE32 env op e a b = Inr e2"
    and "op \<in> {''CmpNE32''}" "isIRAtom a"
  shows "e2 = e \<or> ident_ok S r w op a b e2"
proof -
  note ops = subsetD [OF _ assms(5)] and env = env_true_sound [OF assms(3)]
  from assms(4) show ?thesis
  proof (cases rule: fold_CmpNE32_cases)
    case 2
    then obtain c where c: "e2 = Iex_Const c" using mk_const by blast
    note ty = typed_same [OF 2(1) env assms(2)]
    show ?thesis by (rule ident_constI [OF assms(1) c ident_same [OF 2(1) env same_zero [OF ops ty 2(2) [unfolded c]]]]) simp
  next
    case 3
    with chase_unop [OF 3(2) assms(6,3), of w] assms(1,5) show ?thesis
      by (auto simp: ident_ok_def isZeroU32_def documented_const documented_op both_defs on_defs)
  qed simp
qed

lemma match_ctz_cases:
  assumes "match_ctz env arg = Inr (Some x)"
  obtains l h m y ones where "chase env arg = Inr (Some (Iex_Binop (Iop ''And64'') l h))"
    "chase env l = Inr (Some (Iex_Binop (Iop ''Add64'') x m))" "chase env h = Inr (Some (Iex_Unop (Iop ''Not64'') y))"
    "chase env m = Inr (Some ones)" "eqIRAtom x y = Inr True" "isOnesU ones = Inr True"
  using assms unfolding match_ctz_def
  by (auto simp: res_iff split: if_splits dest!: case_unop case_binop) (auto simp: res_iff split: option.split_asm if_splits)

lemma eqIRAtom_eval:
  assumes "eqIRAtom a b = Inr True" "sem_documented S" "has_type Ity_I64 (eval S r w a)" "has_type Ity_I64 (eval S r w b)"
  shows "eval S r w a = eval S r w b"
proof (cases a)
  case (Iex_RdTmp t)
  with assms(1) show ?thesis by (cases b) (auto simp: eqIRAtom_def res_iff)
next
  case (Iex_Const c)
  then obtain d where b: "b = Iex_Const d" "eqIRConst c d" using assms(1) by (cases b) (auto simp: eqIRAtom_def res_iff)
  show ?thesis
    using assms(2-4) b(2) unfolding Iex_Const b(1) by (cases c; cases d) (auto simp: eqIRConst_def documented_const)
qed (use assms(1) in \<open>auto simp: eqIRAtom_def res_iff\<close>)

lemma fold_PopCount64_ok:
  assumes "sem_documented S" "env_true S env r" "fold_PopCount64 env e arg = Inr e2" "isIRAtom arg"
  shows "e2 = e \<or> eval S r w e2 = sem_op S (Iop ''PopCount64'') [eval S r w arg]"
proof -
  consider "e2 = e" | x where "match_ctz env arg = Inr (Some x)" "e2 = Iex_Unop (Iop ''CtzNat64'') x"
    using assms(3) by (auto simp: fold_PopCount64_def res_iff split: option.splits)
  then show ?thesis
  proof cases
    case 2
    obtain l h m y ones where ch: "chase env arg = Inr (Some (Iex_Binop (Iop ''And64'') l h))"
        "chase env l = Inr (Some (Iex_Binop (Iop ''Add64'') x m))" "chase env h = Inr (Some (Iex_Unop (Iop ''Not64'') y))"
        "chase env m = Inr (Some ones)" "eqIRAtom x y = Inr True" "isOnesU ones = Inr True"
      using match_ctz_cases [OF 2(1)] .
    note and64 = chase_binop [OF ch(1) assms(4,2), of w]
    note add64 = chase_binop [OF ch(2) conjunct1 [OF and64] assms(2), of w]
    note not64 = chase_unop [OF ch(3) _ assms(2), of w]
    obtain c where c: "ones = Iex_Const c" using ch(6) by (cases ones) (auto simp: isOnesU_def)
    obtain u where u: "eval S r w x = V64 u" "eval S r w y = V64 u"
      using add64 not64 and64 eqIRAtom_eval [OF ch(5) assms(1), of r w] by (auto simp: has_type_cases)
    have "eval S r w m = eval S r w ones"
      using chase_sound [OF ch(4) env_true_sound [OF assms(2)]] add64 c by (auto dest: atom_timeless)
    then have "eval S r w m = V64 (- 1)"
      using isOnesU_val [OF ch(6) assms(1), of r w] add64 by auto
    with u and64 add64 not64 assms(1) have "eval S r w arg = V64 ((u - 1) AND NOT u)"
      by (simp add: documented_op both_defs on_defs)
    with u 2(2) assms(1) show ?thesis by (simp add: documented_op on_defs popcount_ctz)
  qed simp
qed

lemma fold_ITE_ok:
  assumes "sem_documented S" "env_sound S env r" "fold_ITE env e cond a b = Inr e2"
  shows "e2 = e \<or> eval S r w e2 = eval S r w (Iex_ITE cond a b)"
proof (cases "\<exists>c. cond = Iex_Const c")
  case True
  with assms show ?thesis
    by (auto simp: fold_ITE_def res_iff con_U1_def documented_const documented_true split: IRConst.splits)
next
  case False
  then consider "e2 = e" | "sameIRExprs env a b = Inr True" "e2 = b"
    using assms(3) by (cases cond) (auto simp: fold_ITE_def whenR_iff)
  then show ?thesis
    using sameIRExprs_sound [OF _ assms(2), of a b w] by cases auto
qed

lemma if_eqE: "(if b then m else n) = v \<Longrightarrow> (b \<Longrightarrow> m = v \<Longrightarrow> P) \<Longrightarrow> (\<not> b \<Longrightarrow> n = v \<Longrightarrow> P) \<Longrightarrow> P"
  by (simp split: if_splits)

lemma fold_identity_ok:
  assumes "sem_documented S" "bin_typed op (eval S r w a) (eval S r w b)" "env_true S env r" "fold_identity env op e a b = Inr e2"
    and "isIRAtom a"
  shows "e2 = e \<or> ident_ok S r w op a b e2"
proof -
  note env = env_true_sound [OF assms(3)]
  have add8: "e2 = e \<or> ident_ok S r w op a b e2" if "fold_Add8 env e a b = Inr e2" "op = ''Add8''"
    using fold_Add8_ok [OF assms(1) _ env that(1)] assms(2) that(2) by blast
  note oks = fold_Shift_ok [OF assms(1,2)] fold_ShiftR32_ok [OF assms(1,2)] fold_Or_ok [OF assms(1,2) env]
    fold_Add_ok [OF assms(1,2) env] fold_Sub_ok [OF assms(1,2) env] fold_Sub8x16_ok [OF assms(1,2) env] fold_And_ok [OF assms(1,2) env]
    fold_AndV_ok [OF assms(1,2) env] fold_OrV_ok [OF assms(1,2) env] fold_Xor_ok [OF assms(1,2) env]
    fold_CmpNE32_ok [OF assms(1,2,3) _ _ assms(5)] fold_CmpEQ_ok [OF assms(1,2) env] add8
  show ?thesis
    using assms(4) unfolding fold_identity_def singleton_iff [symmetric, of op]
    by (elim if_eqE) (erule oks, simp only: singleton_iff | simp only: sum.inject simp_thms)+
qed

lemma fold_sound:
  assumes "fold_Expr_WRK env e = Inr e2" "sem_documented S" "env_true S env r" "isFlatRHS e = Inr True" "arg_typed S r w e"
  shows "eval S r w e2 = eval S r w e"
proof -
  consider op a where "e = Iex_Unop (Iop op) a" | op a b where "e = Iex_Binop (Iop op) a b" | c a b where "e = Iex_ITE c a b" | "e2 = e"
    using assms(1) by (cases e) (auto simp: fold_Expr_WRK_def split: IROp.splits)
  then show ?thesis
  proof cases
    case (1 op a)
    show ?thesis
    proof (cases "\<exists>c. a = Iex_Const c")
      case True
      with 1 assms(1,2) fold_unops_ok [of op] show ?thesis
        by (auto simp: fold_Expr_WRK_def or_same_def res_iff documented_const documented_op split: option.splits)
    next
      case False
      then have "e2 = e \<or> op = ''PopCount64'' \<and> fold_PopCount64 env e a = Inr e2"
        using 1 assms(1) by (cases a) (auto simp: fold_Expr_WRK_def split: if_splits)
      with 1 fold_PopCount64_ok [OF assms(2,3), of e a e2 w] assms(4) show ?thesis by auto
    qed
  next
    case (2 op a b)
    show ?thesis
    proof (cases "\<exists>c d. a = Iex_Const c \<and> b = Iex_Const d")
      case True
      with 2 assms(1,2) fold_binops_ok [of op] show ?thesis
        by (auto simp: fold_Expr_WRK_def or_same_def res_iff documented_const documented_op split: option.splits)
    next
      case False
      then have "fold_identity env op e a b = Inr e2"
        using 2 assms(1) by (cases a; cases b) (auto simp: fold_Expr_WRK_def)
      with 2 fold_identity_ok [OF assms(2) _ assms(3), of op w a b e e2] assms(2,4,5) show ?thesis
        by (auto simp: ident_ok_def documented_op)
    qed
  next
    case (3 c a b)
    with assms(1) fold_ITE_ok [OF assms(2) env_true_sound [OF assms(3)], of e c a b e2 w] show ?thesis
      by (auto simp: fold_Expr_WRK_def)
  qed simp
qed

end
