(* ===== verification/Opt_Cprop.thy ===== *)
theory Opt_Cprop
  imports Opt_Fold
begin

text \<open>
  Constant and copy propagation, \<open>cprop_BB\<close> of \<open>VEX/priv/ir_opt.c\<close>. VEX runs it, between two
  removals of dead code, on every block a tool has instrumented (\<open>LibVEX_FrontEnd\<close> in
  \<open>main_main.c\<close>).

  The array \<open>env\<close> of bindings is the list of \<open>Opt_Fold\<close>; the array \<open>fixups\<close> with its counter is a
  list. \<open>None\<close> for the bindings of \<open>fold_Expr\<close> is the NULL that \<open>doFolding = False\<close> passes. The
  loop over the statements is \<open>cprop_step\<close> in \<open>foldR\<close>; the second loop is \<open>cprop_fixup\<close>. The
  message for \<open>iropt_verbosity > 0\<close> is left out.
\<close>

section \<open>Substitution\<close>

definition atomR :: "IRExpr \<Rightarrow> unit res" where
  "atomR e = assertR (isIRAtom e) (VAssert ''isIRAtom'')"

text \<open>The bindings that are substituted.\<close>

definition propagated :: "IRExpr \<Rightarrow> bool" where
  "propagated rhs =
     (case rhs of
        Iex_RdTmp _ \<Rightarrow> True
      | Iex_Const c \<Rightarrow> const_tag c \<noteq> const_tag (Ico_F64i 0)
      | _ \<Rightarrow> False)"

fun subst_Expr :: "bindings \<Rightarrow> IRExpr \<Rightarrow> IRExpr res" where
  "subst_Expr env (Iex_RdTmp t) =
     bindR (env_get env t) (\<lambda>b.
     case b of
       None \<Rightarrow> Inr (Iex_RdTmp t)
     | Some rhs \<Rightarrow> if propagated rhs then Inr rhs else Inr (Iex_RdTmp t))"
| "subst_Expr env (Iex_Const c) = Inr (Iex_Const c)"
| "subst_Expr env (Iex_Get off ty) = Inr (Iex_Get off ty)"
| "subst_Expr env (Iex_GetI descr ix bias) =
     bindR (atomR ix) (\<lambda>_. bindR (subst_Expr env ix) (\<lambda>ix. Inr (Iex_GetI descr ix bias)))"
| "subst_Expr env (Iex_Qop op a b c d) =
     bindR (forR atomR [a, b, c, d]) (\<lambda>_.
     bindR (subst_Expr env a) (\<lambda>a. bindR (subst_Expr env b) (\<lambda>b.
     bindR (subst_Expr env c) (\<lambda>c. bindR (subst_Expr env d) (\<lambda>d. Inr (Iex_Qop op a b c d))))))"
| "subst_Expr env (Iex_Triop op a b c) =
     bindR (forR atomR [a, b, c]) (\<lambda>_.
     bindR (subst_Expr env a) (\<lambda>a. bindR (subst_Expr env b) (\<lambda>b.
     bindR (subst_Expr env c) (\<lambda>c. Inr (Iex_Triop op a b c)))))"
| "subst_Expr env (Iex_Binop op a b) =
     bindR (forR atomR [a, b]) (\<lambda>_.
     bindR (subst_Expr env a) (\<lambda>a. bindR (subst_Expr env b) (\<lambda>b. Inr (Iex_Binop op a b))))"
| "subst_Expr env (Iex_Unop op a) =
     bindR (atomR a) (\<lambda>_. bindR (subst_Expr env a) (\<lambda>a. Inr (Iex_Unop op a)))"
| "subst_Expr env (Iex_Load en ty addr) =
     bindR (atomR addr) (\<lambda>_. bindR (subst_Expr env addr) (\<lambda>addr. Inr (Iex_Load en ty addr)))"
| "subst_Expr env (Iex_CCall cee retty args) =
     bindR (mapR (\<lambda>arg. bindR (atomR arg) (\<lambda>_. subst_Expr env arg)) args) (\<lambda>args. Inr (Iex_CCall cee retty args))"
| "subst_Expr env (Iex_ITE c a b) =
     bindR (forR atomR [c, a, b]) (\<lambda>_.
     bindR (subst_Expr env c) (\<lambda>c. bindR (subst_Expr env a) (\<lambda>a.
     bindR (subst_Expr env b) (\<lambda>b. Inr (Iex_ITE c a b)))))"
| "subst_Expr env _ = Inl (VPanic ''subst_Expr'')"

section \<open>Statements\<close>

definition subst_fold :: "bool \<Rightarrow> bindings \<Rightarrow> IRExpr \<Rightarrow> IRExpr res" where
  "subst_fold doFolding env e =
     bindR (subst_Expr env e) (\<lambda>e. fold_Expr (if doFolding then Some env else None) e)"

definition subst_fold_opt :: "bool \<Rightarrow> bindings \<Rightarrow> IRExpr option \<Rightarrow> IRExpr option res" where
  "subst_fold_opt doFolding env e =
     (case e of None \<Rightarrow> Inr None | Some e \<Rightarrow> bindR (subst_fold doFolding env e) (\<lambda>e. Inr (Some e)))"

definition atomR_opt :: "IRExpr option \<Rightarrow> unit res" where
  "atomR_opt e = (case e of None \<Rightarrow> Inr () | Some e \<Rightarrow> atomR e)"

text \<open>A guard that has become a constant, and which; the assertions on it.\<close>

definition const_guard :: "IRExpr \<Rightarrow> bool option res" where
  "const_guard g =
     (case g of
        Iex_Const c \<Rightarrow>
          bindR (assertR (const_tag c = const_tag (Ico_U1 0)) (VAssert ''con->tag == Ico_U1'')) (\<lambda>_.
          bindR (con_U1 c) (\<lambda>u.
          if u = 0 then Inr (Some False)
          else bindR (assertR (u = 1) (VAssert ''Ico.U1 == True'')) (\<lambda>_. Inr (Some True))))
      | _ \<Rightarrow> Inr None)"

definition subst_StoreG :: "bool \<Rightarrow> bindings \<Rightarrow> IRStoreG \<Rightarrow> IRStmt res" where
  "subst_StoreG doFolding env sg =
     (let fs = subst_fold doFolding env in
      bindR (forR atomR [sg_addr sg, sg_data sg, sg_guard sg]) (\<lambda>_.
      bindR (fs (sg_addr sg)) (\<lambda>faddr. bindR (fs (sg_data sg)) (\<lambda>fdata. bindR (fs (sg_guard sg)) (\<lambda>fguard.
      bindR (const_guard fguard) (\<lambda>k.
      case k of
        None \<Rightarrow> Inr (Ist_StoreG (mkIRStoreG (sg_end sg) faddr fdata fguard))
      | Some False \<Rightarrow> Inr Ist_NoOp
      | Some True \<Rightarrow> Inr (Ist_Store (sg_end sg) faddr fdata)))))))"

definition subst_LoadG :: "bool \<Rightarrow> bindings \<Rightarrow> IRLoadG \<Rightarrow> IRStmt res" where
  "subst_LoadG doFolding env lg =
     (let fs = subst_fold doFolding env in
      bindR (forR atomR [lg_addr lg, lg_alt lg, lg_guard lg]) (\<lambda>_.
      bindR (fs (lg_addr lg)) (\<lambda>faddr. bindR (fs (lg_alt lg)) (\<lambda>falt. bindR (fs (lg_guard lg)) (\<lambda>fguard.
      bindR (const_guard fguard) (\<lambda>k.
      if k = Some False then Inr (Ist_WrTmp (lg_dst lg) falt)
      else Inr (Ist_LoadG (mkIRLoadG (lg_end lg) (lg_cvt lg) (lg_dst lg) faddr falt fguard))))))))"

definition subst_CAS :: "bool \<Rightarrow> bindings \<Rightarrow> IRCAS \<Rightarrow> IRStmt res" where
  "subst_CAS doFolding env cas =
     (let fs = subst_fold doFolding env; fso = subst_fold_opt doFolding env in
      bindR (atomR (cas_addr cas)) (\<lambda>_. bindR (atomR_opt (cas_expdHi cas)) (\<lambda>_.
      bindR (atomR (cas_expdLo cas)) (\<lambda>_. bindR (atomR_opt (cas_dataHi cas)) (\<lambda>_.
      bindR (atomR (cas_dataLo cas)) (\<lambda>_.
      bindR (fs (cas_addr cas)) (\<lambda>addr. bindR (fso (cas_expdHi cas)) (\<lambda>expdHi.
      bindR (fs (cas_expdLo cas)) (\<lambda>expdLo. bindR (fso (cas_dataHi cas)) (\<lambda>dataHi.
      bindR (fs (cas_dataLo cas)) (\<lambda>dataLo.
      Inr (Ist_CAS (mkIRCAS (cas_oldHi cas) (cas_oldLo cas) (cas_end cas) addr expdHi expdLo dataHi dataLo)))))))))))))"

definition subst_Dirty :: "bool \<Rightarrow> bindings \<Rightarrow> IRDirty \<Rightarrow> IRStmt res" where
  "subst_Dirty doFolding env d =
     (let fs = subst_fold doFolding env in
      bindR (optR NullDeref (d_args d)) (\<lambda>args.
      bindR (if d_mFx d \<noteq> Ifx_None
             then bindR (optR NullDeref (d_mAddr d)) (\<lambda>mAddr. bindR (atomR mAddr) (\<lambda>_.
                  bindR (fs mAddr) (\<lambda>mAddr. Inr (Some mAddr))))
             else Inr (d_mAddr d)) (\<lambda>mAddr.
      bindR (optR NullDeref (d_guard d)) (\<lambda>guard. bindR (atomR guard) (\<lambda>_.
      bindR (fs guard) (\<lambda>guard.
      bindR (mapR (\<lambda>arg. if is_IRExpr_VECRET_or_GSPTR arg then Inr arg
                          else bindR (atomR arg) (\<lambda>_. fs arg)) args) (\<lambda>args.
      Inr (Ist_Dirty (d\<lparr>d_args := Some args, d_mAddr := mAddr, d_guard := Some guard\<rparr>)))))))))"

fun subst_and_maybe_fold_Stmt :: "bool \<Rightarrow> bindings \<Rightarrow> IRStmt \<Rightarrow> IRStmt res" where
  "subst_and_maybe_fold_Stmt doFolding env (Ist_AbiHint base len nia) =
     bindR (forR atomR [base, nia]) (\<lambda>_.
     bindR (subst_fold doFolding env base) (\<lambda>base. bindR (subst_fold doFolding env nia) (\<lambda>nia.
     Inr (Ist_AbiHint base len nia))))"
| "subst_and_maybe_fold_Stmt doFolding env (Ist_Put off dat) =
     bindR (atomR dat) (\<lambda>_. bindR (subst_fold doFolding env dat) (\<lambda>dat. Inr (Ist_Put off dat)))"
| "subst_and_maybe_fold_Stmt doFolding env (Ist_PutI p) =
     bindR (forR atomR [puti_ix p, puti_data p]) (\<lambda>_.
     bindR (subst_fold doFolding env (puti_ix p)) (\<lambda>ix. bindR (subst_fold doFolding env (puti_data p)) (\<lambda>dat.
     Inr (Ist_PutI (mkIRPutI (puti_descr p) ix (puti_bias p) dat)))))"
| "subst_and_maybe_fold_Stmt doFolding env (Ist_WrTmp t dat) =
     bindR (subst_fold doFolding env dat) (\<lambda>dat. Inr (Ist_WrTmp t dat))"
| "subst_and_maybe_fold_Stmt doFolding env (Ist_Store en addr dat) =
     bindR (forR atomR [addr, dat]) (\<lambda>_.
     bindR (subst_fold doFolding env addr) (\<lambda>addr. bindR (subst_fold doFolding env dat) (\<lambda>dat.
     Inr (Ist_Store en addr dat))))"
| "subst_and_maybe_fold_Stmt doFolding env (Ist_StoreG sg) = subst_StoreG doFolding env sg"
| "subst_and_maybe_fold_Stmt doFolding env (Ist_LoadG lg) = subst_LoadG doFolding env lg"
| "subst_and_maybe_fold_Stmt doFolding env (Ist_CAS cas) = subst_CAS doFolding env cas"
| "subst_and_maybe_fold_Stmt doFolding env (Ist_LLSC en result addr storedata) =
     bindR (atomR addr) (\<lambda>_. bindR (atomR_opt storedata) (\<lambda>_.
     bindR (subst_fold doFolding env addr) (\<lambda>addr. bindR (subst_fold_opt doFolding env storedata) (\<lambda>storedata.
     Inr (Ist_LLSC en result addr storedata)))))"
| "subst_and_maybe_fold_Stmt doFolding env (Ist_Dirty d) = subst_Dirty doFolding env d"
| "subst_and_maybe_fold_Stmt doFolding env (Ist_IMark addr len delta) = Inr (Ist_IMark addr len delta)"
| "subst_and_maybe_fold_Stmt doFolding env Ist_NoOp = Inr Ist_NoOp"
| "subst_and_maybe_fold_Stmt doFolding env (Ist_MBE event) = Inr (Ist_MBE event)"
| "subst_and_maybe_fold_Stmt doFolding env (Ist_Exit guard jk dst offsIP) =
     bindR (atomR guard) (\<lambda>_. bindR (subst_fold doFolding env guard) (\<lambda>fcond.
     bindR (const_guard fcond) (\<lambda>k.
     if k = Some False then Inr Ist_NoOp else Inr (Ist_Exit fcond jk dst offsIP))))"

section \<open>The pass\<close>

definition N_FIXUPS :: nat where
  "N_FIXUPS = 16"

type_synonym cprop_state = "IRSB \<times> bindings \<times> nat list"

text \<open>Entering an assignment into the bindings; the block changes unless the assignment is one that is
  substituted.\<close>

definition cprop_WrTmp :: "cprop_state \<Rightarrow> IRTemp \<Rightarrow> IRExpr \<Rightarrow> cprop_state res" where
  "cprop_WrTmp = (\<lambda>(out, env, fixups) t dat.
     bindR (env_get env t) (\<lambda>b.
     bindR (assertR (b = None) (VAssert ''env[(Int)(st2->Ist.WrTmp.tmp)] == NULL'')) (\<lambda>_.
     let env = env[t := Some dat] in
     if propagated dat then Inr (out, env, fixups)
     else bindR (addStmtToIRSB out (Some (Ist_WrTmp t dat))) (\<lambda>out. Inr (out, env, fixups)))))"

text \<open>A guarded load whose guard is true is preceded by a placeholder.\<close>

definition cprop_LoadG :: "cprop_state \<Rightarrow> IRLoadG \<Rightarrow> cprop_state res" where
  "cprop_LoadG = (\<lambda>(out, env, fixups) lg.
     bindR (case lg_guard lg of
              Iex_Const c \<Rightarrow>
                bindR (assertR (const_tag c = const_tag (Ico_U1 0)) (VAssert ''con->tag == Ico_U1'')) (\<lambda>_.
                bindR (con_U1 c) (\<lambda>u.
                bindR (assertR (u = 1) (VAssert ''Ico.U1 == True'')) (\<lambda>_.
                bindR (assertR (length fixups \<le> N_FIXUPS) (VAssert ''n_fixups >= 0 && n_fixups <= N_FIXUPS'')) (\<lambda>_.
                if length fixups < N_FIXUPS
                then bindR (addStmtToIRSB out (Some Ist_NoOp)) (\<lambda>out'. Inr (out', fixups @ [stmts_used out]))
                else Inr (out, fixups)))))
            | _ \<Rightarrow> Inr (out, fixups)) (\<lambda>(out, fixups).
     bindR (addStmtToIRSB out (Some (Ist_LoadG lg))) (\<lambda>out. Inr (out, env, fixups))))"

definition cprop_step :: "bool \<Rightarrow> bool \<Rightarrow> cprop_state \<Rightarrow> IRStmt option \<Rightarrow> cprop_state res" where
  "cprop_step mustRetainNoOps doFolding s x =
     bindR (optR NullDeref x) (\<lambda>st.
     if st = Ist_NoOp \<and> \<not> mustRetainNoOps then Inr s else
     bindR (subst_and_maybe_fold_Stmt doFolding (fst (snd s)) st) (\<lambda>st2.
     case st2 of
       Ist_WrTmp t dat \<Rightarrow> cprop_WrTmp s t dat
     | Ist_LoadG lg \<Rightarrow> cprop_LoadG s lg
     | _ \<Rightarrow>
         if st2 = Ist_NoOp \<and> \<not> mustRetainNoOps then Inr s
         else bindR (addStmtToIRSB (fst s) (Some st2)) (\<lambda>out. Inr (out, snd s))))"

definition cvt_op :: "IRLoadGOp \<Rightarrow> IROp option res" where
  "cvt_op cvt =
     (case cvt of
        ILGop_IdentV128 \<Rightarrow> Inr None
      | ILGop_Ident64 \<Rightarrow> Inr None
      | ILGop_Ident32 \<Rightarrow> Inr None
      | ILGop_8Uto32 \<Rightarrow> Inr (Some (Iop ''8Uto32''))
      | ILGop_8Sto32 \<Rightarrow> Inr (Some (Iop ''8Sto32''))
      | ILGop_16Uto32 \<Rightarrow> Inr (Some (Iop ''16Uto32''))
      | ILGop_16Sto32 \<Rightarrow> Inr (Some (Iop ''16Sto32''))
      | _ \<Rightarrow> Inl (VPanic ''cprop_BB: unhandled ILGOp''))"

definition converted :: "IROp option \<Rightarrow> IRExpr \<Rightarrow> IRExpr" where
  "converted cvtOp e = (case cvtOp of None \<Rightarrow> e | Some op \<Rightarrow> Iex_Unop op e)"

definition fixup_LoadG :: "IRSB \<Rightarrow> nat \<Rightarrow> IRLoadG \<Rightarrow> IRSB res" where
  "fixup_LoadG out ix lg =
     bindR (typeOfIRLoadGOp (lg_cvt lg)) (\<lambda>(cvtRes, cvtArg).
     bindR (cvt_op (lg_cvt lg)) (\<lambda>cvtOp.
     bindR (newIRTemp (tyenv out) cvtArg) (\<lambda>(tyenv', tLoaded).
     Inr (out\<lparr>tyenv := tyenv', stmts := (stmts out)
           [ix := Some (Ist_WrTmp tLoaded (Iex_Load (lg_end lg) cvtArg (lg_addr lg))),
            Suc ix := Some (Ist_WrTmp (lg_dst lg) (converted cvtOp (Iex_RdTmp tLoaded)))]\<rparr>))))"

definition cprop_fixup :: "IRSB \<Rightarrow> nat \<Rightarrow> IRSB res" where
  "cprop_fixup out ix =
     bindR (assertR (ix + 1 < stmts_used out) (VAssert ''ix >= 0 && ix+1 < out->stmts_used'')) (\<lambda>_.
     bindR (optR NullDeref (stmts out ! ix)) (\<lambda>nop. bindR (optR NullDeref (stmts out ! (ix + 1))) (\<lambda>lgu.
     bindR (assertR (nop = Ist_NoOp) (VAssert ''nop->tag == Ist_NoOp'')) (\<lambda>_.
     case lgu of
       Ist_LoadG lg \<Rightarrow>
         (case lg_guard lg of
            Iex_Const c \<Rightarrow>
              bindR (assertR (const_tag c = const_tag (Ico_U1 0)) (VAssert ''con->tag == Ico_U1'')) (\<lambda>_.
              bindR (con_U1 c) (\<lambda>u.
              bindR (assertR (u = 1) (VAssert ''Ico.U1 == True'')) (\<lambda>_. fixup_LoadG out ix lg)))
          | _ \<Rightarrow> Inl UninitRead)
     | _ \<Rightarrow> Inl (VAssert ''lgu->tag == Ist_LoadG'')))))"

definition cprop_BB_WRK :: "IRSB \<Rightarrow> bool \<Rightarrow> bool \<Rightarrow> IRSB res" where
  "cprop_BB_WRK inb mustRetainNoOps doFolding =
     bindR (foldR (cprop_step mustRetainNoOps doFolding)
              (emptyIRSB\<lparr>tyenv := deepCopyIRTypeEnv (tyenv inb)\<rparr>, replicate (types_used (tyenv inb)) None, [])
              (stmts inb)) (\<lambda>(out, env, fixups).
     bindR (optR NullDeref (sb_next inb)) (\<lambda>nx.
     bindR (subst_Expr env nx) (\<lambda>nx.
     bindR (assertR (length fixups \<le> N_FIXUPS) (VAssert ''n_fixups >= 0 && n_fixups <= N_FIXUPS'')) (\<lambda>_.
     foldR cprop_fixup
       (out\<lparr>sb_next := Some nx, sb_jumpkind := sb_jumpkind inb, sb_offsIP := sb_offsIP inb\<rparr>) fixups))))"

definition cprop_BB :: "IRSB \<Rightarrow> IRSB res" where
  "cprop_BB inb = cprop_BB_WRK inb False True"

end
