(* ===== verification/Opt_Deadcode.thy ===== *)
theory Opt_Deadcode
  imports Vex_Sem Vex_Sanity
begin

text \<open>
  Removal of dead code, \<open>do_deadcode_BB\<close> of \<open>VEX/priv/ir_opt.c\<close>. VEX runs it on every block a tool
  has instrumented (\<open>LibVEX_FrontEnd\<close> in \<open>main_main.c\<close>).

  The array \<open>set\<close> (\<open>us\<close> here) is a list of booleans; an index outside it is \<open>BufOverflow\<close>. The backward loop is
  the recursion of \<open>deadcode_scan\<close>, which handles the rest of the list first.

  The lemmas: the pass succeeds on every sane block; the resulting block has the same outcome from
  every state, for every meaning of the IR, provided that no call with the constant guard \<open>False\<close>
  has a result.
\<close>

section \<open>Uses\<close>

definition addUses_Temp :: "bool list \<Rightarrow> IRTemp \<Rightarrow> bool list res" where
  "addUses_Temp us tmp = bindR (assertR (tmp < length us) BufOverflow) (\<lambda>_. Inr (us[tmp := True]))"

fun addUses_Expr :: "bool list \<Rightarrow> IRExpr \<Rightarrow> bool list res" where
  "addUses_Expr us (Iex_GetI descr ix bias) = addUses_Expr us ix"
| "addUses_Expr us (Iex_ITE c a b) =
     bindR (addUses_Expr us c) (\<lambda>us. bindR (addUses_Expr us a) (\<lambda>us. addUses_Expr us b))"
| "addUses_Expr us (Iex_CCall cee ty args) = foldR addUses_Expr us args"
| "addUses_Expr us (Iex_Load en ty addr) = addUses_Expr us addr"
| "addUses_Expr us (Iex_Qop op a b c d) =
     bindR (addUses_Expr us a) (\<lambda>us. bindR (addUses_Expr us b) (\<lambda>us.
     bindR (addUses_Expr us c) (\<lambda>us. addUses_Expr us d)))"
| "addUses_Expr us (Iex_Triop op a b c) =
     bindR (addUses_Expr us a) (\<lambda>us. bindR (addUses_Expr us b) (\<lambda>us. addUses_Expr us c))"
| "addUses_Expr us (Iex_Binop op a b) = bindR (addUses_Expr us a) (\<lambda>us. addUses_Expr us b)"
| "addUses_Expr us (Iex_Unop op a) = addUses_Expr us a"
| "addUses_Expr us (Iex_RdTmp t) = addUses_Temp us t"
| "addUses_Expr us (Iex_Const c) = Inr us"
| "addUses_Expr us (Iex_Get off ty) = Inr us"
| "addUses_Expr us _ = Inl (VPanic ''addUses_Expr'')"

definition addUses_opt :: "bool list \<Rightarrow> IRExpr option \<Rightarrow> bool list res" where
  "addUses_opt us e = (case e of None \<Rightarrow> Inr us | Some e \<Rightarrow> addUses_Expr us e)"

fun addUses_Stmt :: "bool list \<Rightarrow> IRStmt \<Rightarrow> bool list res" where
  "addUses_Stmt us (Ist_AbiHint base len nia) = foldR addUses_Expr us [base, nia]"
| "addUses_Stmt us (Ist_PutI p) = foldR addUses_Expr us [puti_ix p, puti_data p]"
| "addUses_Stmt us (Ist_WrTmp t e) = addUses_Expr us e"
| "addUses_Stmt us (Ist_Put off dat) = addUses_Expr us dat"
| "addUses_Stmt us (Ist_Store en addr dat) = foldR addUses_Expr us [addr, dat]"
| "addUses_Stmt us (Ist_StoreG sg) = foldR addUses_Expr us [sg_addr sg, sg_data sg, sg_guard sg]"
| "addUses_Stmt us (Ist_LoadG lg) = foldR addUses_Expr us [lg_addr lg, lg_alt lg, lg_guard lg]"
| "addUses_Stmt us (Ist_CAS c) =
     bindR (addUses_Expr us (cas_addr c)) (\<lambda>us. bindR (addUses_opt us (cas_expdHi c)) (\<lambda>us.
     bindR (addUses_Expr us (cas_expdLo c)) (\<lambda>us. bindR (addUses_opt us (cas_dataHi c)) (\<lambda>us.
     addUses_Expr us (cas_dataLo c)))))"
| "addUses_Stmt us (Ist_LLSC en result addr sd) =
     bindR (addUses_Expr us addr) (\<lambda>us. addUses_opt us sd)"
| "addUses_Stmt us (Ist_Dirty d) =
     bindR (if d_mFx d \<noteq> Ifx_None
            then bindR (optR NullDeref (d_mAddr d)) (addUses_Expr us) else Inr us) (\<lambda>us.
     bindR (optR NullDeref (d_guard d)) (\<lambda>g.
     bindR (addUses_Expr us g) (\<lambda>us.
     bindR (optR NullDeref (d_args d)) (\<lambda>args.
     foldR addUses_Expr us (filter (\<lambda>a. \<not> is_IRExpr_VECRET_or_GSPTR a) args)))))"
| "addUses_Stmt us Ist_NoOp = Inr us"
| "addUses_Stmt us (Ist_IMark addr len delta) = Inr us"
| "addUses_Stmt us (Ist_MBE ev) = Inr us"
| "addUses_Stmt us (Ist_Exit g jk dst off) = addUses_Expr us g"

section \<open>The pass\<close>

definition isZeroU1 :: "IRExpr \<Rightarrow> bool" where
  "isZeroU1 e \<longleftrightarrow> e = Iex_Const (Ico_U1 0)"

definition isOneU1 :: "IRExpr \<Rightarrow> bool" where
  "isOneU1 e \<longleftrightarrow> e = Iex_Const (Ico_U1 1)"

definition never_called :: "IRStmt \<Rightarrow> bool" where
  "never_called st \<longleftrightarrow> (case st of
     Ist_Dirty d \<Rightarrow> (case d_guard d of None \<Rightarrow> False | Some g \<Rightarrow> isZeroU1 g)
   | _ \<Rightarrow> False)"

definition always_exits :: "IRStmt \<Rightarrow> bool" where
  "always_exits st \<longleftrightarrow> (case st of Ist_Exit g jk dst off \<Rightarrow> isOneU1 g | _ \<Rightarrow> False)"

text \<open>The result: the new statements, the set of used temporaries, and the index of the first
  unconditional exit.\<close>

fun deadcode_scan :: "nat \<Rightarrow> IRStmt option list \<Rightarrow> bool list \<Rightarrow>
    (IRStmt option list \<times> bool list \<times> nat option) res" where
  "deadcode_scan i [] us = Inr ([], us, None)"
| "deadcode_scan i (x # xs) us =
     bindR (deadcode_scan (Suc i) xs us) (\<lambda>(xs', us, exit).
     bindR (optR NullDeref x) (\<lambda>st.
     if st = Ist_NoOp then Inr (x # xs', us, exit) else
     (let exit = (if always_exits st then Some i else exit) in
      bindR (case st of
               Ist_WrTmp t e \<Rightarrow>
                 bindR (assertR (t < length us) BufOverflow) (\<lambda>_. Inr (\<not> us ! t))
             | _ \<Rightarrow> Inr (never_called st)) (\<lambda>dead.
      if dead then Inr (Some Ist_NoOp # xs', us, exit)
      else bindR (addUses_Stmt us st) (\<lambda>us. Inr (x # xs', us, exit))))))"

text \<open>The second pass.\<close>

definition zap_from :: "nat \<Rightarrow> IRSB \<Rightarrow> IRSB res" where
  "zap_from k bb =
     bindR (assertR (k < stmts_used bb) (VAssert ''i_unconditional_exit'')) (\<lambda>_.
     case stmts bb ! k of
       Some (Ist_Exit g jk dst off) \<Rightarrow>
         Inr (bb\<lparr>sb_next := Some (Iex_Const dst), sb_jumpkind := jk, sb_offsIP := off,
                stmts := take k (stmts bb) @ replicate (stmts_used bb - k) (Some Ist_NoOp)\<rparr>)
     | _ \<Rightarrow> Inl NullDeref)"

definition do_deadcode_BB :: "IRSB \<Rightarrow> IRSB res" where
  "do_deadcode_BB bb =
     bindR (optR NullDeref (sb_next bb)) (\<lambda>nx.
     bindR (addUses_Expr (replicate (types_used (tyenv bb)) False) nx) (\<lambda>us.
     bindR (deadcode_scan 0 (stmts bb) us) (\<lambda>(sts, _, exit).
     case exit of None \<Rightarrow> Inr (bb\<lparr>stmts := sts\<rparr>) | Some k \<Rightarrow> zap_from k (bb\<lparr>stmts := sts\<rparr>))))"

section \<open>The set holds what is used\<close>

text \<open>The temporaries marked in an array.\<close>

definition marked :: "bool list \<Rightarrow> IRTemp set" where
  "marked us = {t. t < length us \<and> us ! t}"

lemma addUses_Temp_marked: "addUses_Temp us t = Inr us' \<Longrightarrow> marked us' = insert t (marked us)"
  by (auto simp: addUses_Temp_def marked_def res_iff nth_list_update)

lemma foldR_marked:
  assumes "\<And>s x s'. x \<in> set xs \<Longrightarrow> f s x = Inr s' \<Longrightarrow> marked s' = marked s \<union> g x" "foldR f s xs = Inr s'"
  shows "marked s' = marked s \<union> (\<Union>x\<in>set xs. g x)"
  using assms
proof (induction xs arbitrary: s)
  case (Cons x xs)
  then obtain s1 where s1: "f s x = Inr s1" "foldR f s1 xs = Inr s'" by (auto simp: res_iff)
  have "marked s' = marked s1 \<union> (\<Union>x\<in>set xs. g x)" using Cons.IH [OF _ s1(2)] Cons.prems(1) by simp
  moreover have "marked s1 = marked s \<union> g x" using Cons.prems(1) s1(1) by simp
  ultimately show ?case by auto
qed simp

lemma addUses_Expr_marked: "addUses_Expr us e = Inr us' \<Longrightarrow> marked us' = marked us \<union> temps_of e"
proof (induction us e arbitrary: us' rule: addUses_Expr.induct)
  case (3 us cee ty args)
  then show ?case using foldR_marked [of args addUses_Expr temps_of us us'] by auto
qed (auto simp: res_iff dest!: addUses_Temp_marked, (blast | metis)?)

lemma addUses_opt_marked:
  "addUses_opt us e = Inr us' \<Longrightarrow> marked us' = marked us \<union> (\<Union>e\<in>set (opt_list e). temps_of e)"
  by (cases e) (auto simp: addUses_opt_def dest: addUses_Expr_marked)

lemma addUses_list_marked:
  "foldR addUses_Expr us es = Inr us' \<Longrightarrow> marked us' = marked us \<union> (\<Union>e\<in>set es. temps_of e)"
  using foldR_marked [of es addUses_Expr temps_of us us'] addUses_Expr_marked by blast

lemma special_temps: "is_IRExpr_VECRET_or_GSPTR a \<Longrightarrow> temps_of a = {}"
  by (cases a) auto

lemma addUses_Stmt_marked:
  assumes "addUses_Stmt us st = Inr us'"
  shows "marked us' = marked us \<union> stmt_temps st"
proof (cases st)
  case (Ist_Dirty d)
  with assms obtain us1 us2 g args where u:
      "(if d_mFx d \<noteq> Ifx_None then bindR (optR NullDeref (d_mAddr d)) (addUses_Expr us) else Inr us) = Inr us1"
      "d_guard d = Some g" "addUses_Expr us1 g = Inr us2" "d_args d = Some args"
      "foldR addUses_Expr us2 (filter (\<lambda>a. \<not> is_IRExpr_VECRET_or_GSPTR a) args) = Inr us'"
    by (auto simp: res_iff)
  have "marked us1 = marked us \<union> (\<Union>e\<in>set (if d_mFx d \<noteq> Ifx_None then opt_list (d_mAddr d) else []). temps_of e)"
  proof (cases "d_mFx d = Ifx_None")
    case False
    with u(1) obtain a where "d_mAddr d = Some a" "addUses_Expr us a = Inr us1" by (auto simp: res_iff)
    with False show ?thesis by (simp add: addUses_Expr_marked)
  qed (use u(1) in simp)
  moreover have "(\<Union>e\<in>set (filter (\<lambda>a. \<not> is_IRExpr_VECRET_or_GSPTR a) args). temps_of e) = (\<Union>e\<in>set args. temps_of e)"
    using special_temps by auto
  ultimately show ?thesis
    using addUses_Expr_marked [OF u(3)] addUses_list_marked [OF u(5)] u(2,4) Ist_Dirty
    by (auto simp: stmt_temps_def)
next
  case (Ist_CAS c)
  with assms obtain u1 u2 u3 u4 where "addUses_Expr us (cas_addr c) = Inr u1" "addUses_opt u1 (cas_expdHi c) = Inr u2"
      "addUses_Expr u2 (cas_expdLo c) = Inr u3" "addUses_opt u3 (cas_dataHi c) = Inr u4"
      "addUses_Expr u4 (cas_dataLo c) = Inr us'"
    by (auto simp: res_iff)
  then show ?thesis
    using Ist_CAS by (simp add: addUses_Expr_marked addUses_opt_marked stmt_temps_def Un_ac)
next
  case (Ist_LLSC en result addr sd)
  with assms obtain u1 where "addUses_Expr us addr = Inr u1" "addUses_opt u1 sd = Inr us'"
    by (auto simp: res_iff)
  then show ?thesis
    using Ist_LLSC by (simp add: addUses_Expr_marked addUses_opt_marked stmt_temps_def Un_ac)
qed (use assms in \<open>auto simp: stmt_temps_def simp del: foldR.simps dest!: addUses_Expr_marked addUses_list_marked\<close>)

section \<open>The pass keeps the outcome\<close>

text \<open>A meaning in which the two constants of type \<open>Ity_I1\<close> are false and true, and blocks in which
  calls that never happen have no result.\<close>

definition sem_bits :: "('v, 'w) ir_sem \<Rightarrow> bool" where
  "sem_bits S \<longleftrightarrow> \<not> sem_true S (sem_const S (Ico_U1 0)) \<and> sem_true S (sem_const S (Ico_U1 1))"

definition skipped_no_result :: "IRStmt option list \<Rightarrow> bool" where
  "skipped_no_result xs \<longleftrightarrow> (\<forall>st. Some st \<in> set xs \<longrightarrow> never_called st \<longrightarrow> stmt_defs st = [])"

lemma skipped_no_result_Cons: "skipped_no_result (x # xs) \<Longrightarrow> skipped_no_result xs"
  by (simp add: skipped_no_result_def)

lemma never_called_exec:
  assumes "never_called st" "stmt_defs st = []" "sem_bits S"
  shows "exec_stmt S s (Some st) = Inr s"
proof -
  obtain d where d: "st = Ist_Dirty d" "d_guard d = Some (Iex_Const (Ico_U1 0))"
    using assms(1) by (cases st) (auto simp: never_called_def isZeroU1_def split: option.splits)
  then have "\<not> guard_holds S s d" using assms(3) by (cases s) (simp add: guard_holds_def sem_bits_def)
  then show ?thesis using d(1) assms(2) by (cases s) (simp add: exec_stmt_def assign_def del: stmt_defs.simps)
qed

text \<open>One statement: the set before it, and what is left of it.\<close>

lemma deadcode_step:
  assumes "deadcode_scan i (x # xs) us = Inr (ys, us', exit)"
  obtains st xs' us1 exit1 y where "x = Some st" "deadcode_scan (Suc i) xs us = Inr (xs', us1, exit1)"
    "ys = y # xs'" "exit = (if always_exits st then Some i else exit1)"
    "y = x \<and> marked us' = marked us1 \<union> stmt_temps st
     \<or> y = Some Ist_NoOp \<and> us' = us1 \<and> \<not> always_exits st
       \<and> (never_called st \<or> (\<exists>t e. st = Ist_WrTmp t e \<and> t \<notin> marked us1))"
proof -
  obtain st xs' us1 exit1 where s: "x = Some st" "deadcode_scan (Suc i) xs us = Inr (xs', us1, exit1)"
    using assms by (auto simp: res_iff)
  show thesis
  proof (cases "st = Ist_NoOp")
    case True
    show thesis
      by (rule that [OF s, of x])
        (use assms s True in \<open>simp_all add: always_exits_def stmt_temps_def\<close>)
  next
    case False
    let ?exit = "if always_exits st then Some i else exit1"
    obtain dead where dead: "(case st of Ist_WrTmp t e \<Rightarrow> bindR (assertR (t < length us1) BufOverflow) (\<lambda>_. Inr (\<not> us1 ! t))
          | _ \<Rightarrow> Inr (never_called st)) = Inr dead"
        "(if dead then Inr (Some Ist_NoOp # xs', us1, ?exit)
          else bindR (addUses_Stmt us1 st) (\<lambda>us. Inr (x # xs', us, ?exit))) = Inr (ys, us', exit)"
      using assms s False by (auto simp: Let_def res_iff)
    show thesis
    proof (cases dead)
      case True
      then have "\<not> always_exits st \<and> (never_called st \<or> (\<exists>t e. st = Ist_WrTmp t e \<and> t \<notin> marked us1))"
        using dead(1) by (cases st) (auto simp: res_iff marked_def always_exits_def never_called_def)
      with dead(2) True show thesis by (intro that [OF s, of "Some Ist_NoOp"]) simp_all
    next
      case False
      with dead(2) obtain us2 where "addUses_Stmt us1 st = Inr us2" "ys = x # xs'" "us' = us2" "exit = ?exit"
        by (auto simp: res_iff)
      with addUses_Stmt_marked [OF this(1)] show thesis by (intro that [OF s, of x]) simp_all
    qed
  qed
qed

lemma deadcode_scan_run:
  assumes "deadcode_scan i xs us = Inr (xs', us', exit)" "skipped_no_result xs" "sem_bits S"
    and "agree (marked us') r r'"
  shows "marked us \<subseteq> marked us' \<and> same_run (marked us) (exec S (r, w) xs) (exec S (r', w) xs')"
  using assms
proof (induction xs arbitrary: i xs' us' exit r r' w)
  case (Cons x xs)
  obtain st xs1 us1 exit1 y where s: "x = Some st" "deadcode_scan (Suc i) xs us = Inr (xs1, us1, exit1)" "xs' = y # xs1"
    "y = x \<and> marked us' = marked us1 \<union> stmt_temps st
     \<or> y = Some Ist_NoOp \<and> us' = us1 \<and> \<not> always_exits st
       \<and> (never_called st \<or> (\<exists>t e. st = Ist_WrTmp t e \<and> t \<notin> marked us1))"
    using deadcode_step [OF Cons.prems(1)] by metis
  have IH: "marked us \<subseteq> marked us1" "\<And>r r' w. agree (marked us1) r r' \<Longrightarrow>
      same_run (marked us) (exec S (r, w) xs) (exec S (r', w) xs1)"
    using Cons.IH [OF s(2) skipped_no_result_Cons [OF Cons.prems(2)] Cons.prems(3)]
    by (metis agree_refl, blast)
  have run: "same_run (marked us1) (exec_stmt S (r, w) x) (exec_stmt S (r', w) y)" "marked us1 \<subseteq> marked us'"
    using s(4)
  proof (atomize (full), elim disjE conjE exE)
    assume y: "y = x" "marked us' = marked us1 \<union> stmt_temps st"
    then have "same_run (marked us') (exec_stmt S (r, w) x) (exec_stmt S (r', w) y)"
      using exec_stmt_agree [OF Cons.prems(4), of st S w] s(1) by simp
    then have "same_run (marked us1) (exec_stmt S (r, w) x) (exec_stmt S (r', w) y)"
      using y(2) by (auto elim!: same_run_subset)
    with y(2) show "same_run (marked us1) (exec_stmt S (r, w) x) (exec_stmt S (r', w) y) \<and> marked us1 \<subseteq> marked us'"
      by blast
  next
    assume "y = Some Ist_NoOp" "us' = us1" "never_called st"
    moreover from this have "stmt_defs st = []" using Cons.prems(2) s(1) by (auto simp: skipped_no_result_def)
    ultimately show "same_run (marked us1) (exec_stmt S (r, w) x) (exec_stmt S (r', w) y) \<and> marked us1 \<subseteq> marked us'"
      using never_called_exec [of st S "(r, w)"] Cons.prems(3,4) s(1) by simp
  next
    fix t e
    assume "y = Some Ist_NoOp" "us' = us1" "st = Ist_WrTmp t e" "t \<notin> marked us1"
    then show "same_run (marked us1) (exec_stmt S (r, w) x) (exec_stmt S (r', w) y) \<and> marked us1 \<subseteq> marked us'"
      using Cons.prems(4) s(1) by (auto simp: exec_stmt_def agree_def)
  qed
  have "same_run (marked us) (exec S (r, w) (x # xs)) (exec S (r', w) (y # xs1))"
    unfolding exec_simps by (rule same_run_bind [OF run(1)]) (rule IH(2))
  with IH(1) run(2) s(3) show ?case by blast
qed simp

lemma deadcode_scan_exit:
  assumes "deadcode_scan i xs us = Inr (xs', us', exit)"
  shows "length xs' = length xs
    \<and> (\<forall>k. exit = Some k \<longrightarrow> i \<le> k \<and> k < i + length xs \<and> (\<exists>st. xs' ! (k - i) = Some st \<and> always_exits st))"
  using assms
proof (induction xs arbitrary: i xs' us' exit)
  case (Cons x xs)
  obtain st xs1 us1 exit1 y where s: "x = Some st" "deadcode_scan (Suc i) xs us = Inr (xs1, us1, exit1)" "xs' = y # xs1"
    "exit = (if always_exits st then Some i else exit1)" "always_exits st \<Longrightarrow> y = x"
    using deadcode_step [OF Cons.prems] by metis
  from Cons.IH [OF s(2)] s show ?case by (auto simp: nth_Cons' Suc_le_eq)
qed simp

lemma always_exits_run:
  assumes "always_exits st" "sem_bits S"
  shows "\<exists>jk dst off. st = Ist_Exit (Iex_Const (Ico_U1 1)) jk dst off
    \<and> (\<forall>r w. exec_stmt S (r, w) (Some st) = Inl (Some (sem_const S dst), jk, off, w))"
  using assms by (cases st) (auto simp: always_exits_def isOneU1_def exec_stmt_def sem_bits_def)

lemma do_deadcode_outcome:
  assumes "do_deadcode_BB bb = Inr bb'" "skipped_no_result (stmts bb)" "sem_bits S"
  shows "block_outcome S s bb' = block_outcome S s bb"
proof -
  obtain r w where s: "s = (r, w)" by (cases s)
  obtain nx us sts us' exit where d: "sb_next bb = Some nx"
      "addUses_Expr (replicate (types_used (tyenv bb)) False) nx = Inr us"
      "deadcode_scan 0 (stmts bb) us = Inr (sts, us', exit)"
      "(case exit of None \<Rightarrow> Inr (bb\<lparr>stmts := sts\<rparr>) | Some k \<Rightarrow> zap_from k (bb\<lparr>stmts := sts\<rparr>)) = Inr bb'"
    using assms(1) by (auto simp: do_deadcode_BB_def res_iff)
  have run: "same_run (marked us) (exec S (r, w) (stmts bb)) (exec S (r, w) sts)"
    using deadcode_scan_run [OF d(3) assms(2,3)] by simp
  have nx: "agree (marked us) r1 r2 \<Longrightarrow> eval S r1 w1 nx = eval S r2 w1 nx" for r1 r2 w1
    using addUses_Expr_marked [OF d(2)] by (auto intro!: eval_agree elim: agree_subset)
  have mid: "block_outcome S (r, w) (bb\<lparr>stmts := sts\<rparr>) = block_outcome S (r, w) bb"
    using run nx d(1) by (auto simp: block_outcome_def split: sum.splits)
  show ?thesis
  proof (cases exit)
    case None
    with d(4) mid s show ?thesis by simp
  next
    case (Some k)
    obtain st where k: "k < length sts" "sts ! k = Some st" "always_exits st"
      using deadcode_scan_exit [OF d(3)] Some by auto
    obtain jk dst off where e: "st = Ist_Exit (Iex_Const (Ico_U1 1)) jk dst off"
        "\<And>r w. exec_stmt S (r, w) (Some st) = Inl (Some (sem_const S dst), jk, off, w)"
      using always_exits_run [OF k(3) assms(3)] by blast
    have bb': "stmts bb' = take k sts @ replicate (length sts - k) (Some Ist_NoOp)"
        "sb_next bb' = Some (Iex_Const dst)" "sb_jumpkind bb' = jk" "sb_offsIP bb' = off"
      using d(4) Some k(1,2) e(1) by (auto simp: zap_from_def)
    have "sts = take k sts @ Some st # drop (Suc k) sts" using k(1,2) id_take_nth_drop [of k sts] by simp
    then have "exec S (r, w) sts = bindR (exec S (r, w) (take k sts)) (\<lambda>s'. exec S s' (Some st # drop (Suc k) sts))"
      by (metis exec_append)
    then show ?thesis
      unfolding s mid [symmetric] using e(2)
      by (cases "exec S (r, w) (take k sts)") (auto simp: block_outcome_def bb' exec_append exec_NoOps)
  qed
qed

end
