(* ===== verification/Tool_Instrument.thy ===== *)
theory Tool_Instrument
  imports Vex_Sanity
begin

text \<open>
  What the instrumentation functions of the two tools share (\<open>ct_instrument\<close> of
  \<open>cstracer/ct_main.c\<close> and \<open>cl_instrument\<close> of \<open>ctlite/cl_main.c\<close>): the copy of the IR
  preamble, the loop over the remaining statements, and the calls both insert in the same words.

  The locale \<open>stmt_instrumenter\<close> is the interface between a tool and VEX: a tool provides the
  treatment of one statement and promises that it keeps the statement, adds only calls of its own
  helpers and definitions of fresh temporaries, and leaves the block sane. Proved once from that: the
  loop over a whole block keeps the guest program and the sanity of the block, and it does not stop
  when every statement meets the tool's requirement.
\<close>

section \<open>The loops\<close>

text \<open>The instruction being translated: the address and length of its IMark.\<close>

type_synonym imark = "Addr \<times> 32 word"

fun copy_preamble :: "IRSB \<Rightarrow> IRStmt option list \<Rightarrow> (IRSB \<times> IRStmt option list) res" where
  "copy_preamble sbOut [] = Inr (sbOut, [])"
| "copy_preamble sbOut (st # sts) =
     bindR (optR NullDeref st) (\<lambda>s.
     case s of
       Ist_IMark _ _ _ \<Rightarrow> Inr (sbOut, st # sts)
     | _ \<Rightarrow> bindR (addStmtToIRSB sbOut st) (\<lambda>sb. copy_preamble sb sts))"

definition skipped :: "IRStmt option \<Rightarrow> bool" where
  "skipped st \<longleftrightarrow> st = None \<or> st = Some Ist_NoOp"

fun stmt_loop :: "(IRSB \<Rightarrow> imark \<Rightarrow> IRStmt \<Rightarrow> (IRSB \<times> imark) res) \<Rightarrow> IRSB \<Rightarrow> imark \<Rightarrow>
    IRStmt option list \<Rightarrow> (IRSB \<times> imark) res" where
  "stmt_loop step sbOut i [] = Inr (sbOut, i)"
| "stmt_loop step sbOut i (st # sts) =
     (case st of
        None \<Rightarrow> stmt_loop step sbOut i sts
      | Some s \<Rightarrow>
          if s = Ist_NoOp then stmt_loop step sbOut i sts
          else bindR (step sbOut i s) (\<lambda>(sb, i'). stmt_loop step sb i' sts))"

section \<open>Calls of tool helpers\<close>

definition instrument_branch_conditional :: "IRSB \<Rightarrow> bool \<Rightarrow> IRExpr \<Rightarrow> IRSB res" where
  "instrument_branch_conditional sb ci guard =
     bindR (integerIRTypeOfSize 8) (\<lambda>hWordTy.
     bindR (newIRTemp (tyenv sb) Ity_I1) (\<lambda>(env1, guard1).
     bindR (newIRTemp env1 hWordTy) (\<lambda>(env2, guardW).
     let sb = sb\<lparr>tyenv := env2\<rparr>;
         widen = (if hWordTy = Ity_I32 then Iop ''1Uto32'' else Iop ''1Sto64'') in
     bindR (addStmtToIRSB sb (Some (Ist_WrTmp guard1 guard))) (\<lambda>sb.
     bindR (addStmtToIRSB sb (Some (Ist_WrTmp guardW (Iex_Unop widen (Iex_RdTmp guard1))))) (\<lambda>sb.
     let guard2 = Iex_RdTmp guardW in
     bindR (assertR (isIRAtom guard2) (ToolAssert ''isIRAtom(guard2)'')) (\<lambda>_.
     bindR (unsafeIRDirty_0_N 2 ''trace_branch_conditional'' (Fn ''trace_branch_conditional'')
              [mkIRExpr_HWord (if ci then 1 else 0), guard2]) (\<lambda>di.
     addStmtToIRSB sb (Some (Ist_Dirty di)))))))))"

text \<open>Building a call without result and appending it.\<close>

definition add_call :: "int \<Rightarrow> string \<Rightarrow> string \<Rightarrow> IRExpr list \<Rightarrow> IRSB \<Rightarrow> IRSB res" where
  "add_call regparms name fn args sb =
     bindR (unsafeIRDirty_0_N regparms name (Fn fn) args) (\<lambda>di.
     addStmtToIRSB sb (Some (Ist_Dirty di)))"

text \<open>Reading the 64-bit member of the union of an \<open>IRConst\<close>; the members that overlay all of it
  give their bits.\<close>

fun Ico_as_U64 :: "IRConst \<Rightarrow> Addr res" where
  "Ico_as_U64 (Ico_U64 w) = Inr w"
| "Ico_as_U64 (Ico_F64 w) = Inr w"
| "Ico_as_U64 (Ico_F64i w) = Inr w"
| "Ico_as_U64 _ = Inl UninitRead"

definition guest_branch :: "IRJumpKind \<Rightarrow> bool" where
  "guest_branch jk \<longleftrightarrow> jk = Ijk_Boring \<or> jk = Ijk_Call \<or> jk = Ijk_Ret"

text \<open>The case \<open>Ist_Exit\<close> of both instrumentation functions, before the statement itself is
  added; \<open>i\<close> holds \<open>iaddr\<close> and \<open>ilen\<close>.\<close>

definition instrument_exit :: "IRSB \<Rightarrow> imark \<Rightarrow> IRExpr \<Rightarrow> IRJumpKind \<Rightarrow> IRConst \<Rightarrow> IRSB res" where
  "instrument_exit sb i guard jk dst =
     bindR (assertR (fst i \<noteq> 0) (ToolAssert ''iaddr != 0'')) (\<lambda>_.
     bindR (Ico_as_U64 dst) (\<lambda>dst.
     let condition_inverted = (dst = fst i + ucast (snd i)) in
     if guest_branch jk then instrument_branch_conditional sb condition_inverted guard else Inr sb))"

section \<open>Statements a tool may add\<close>

definition tool_call :: "string set \<Rightarrow> IRDirty \<Rightarrow> bool" where
  "tool_call fns d \<longleftrightarrow>
     (\<exists>cee f. d_cee d = Some cee \<and> cee_addr cee = Fn f \<and> f \<in> fns)
     \<and> d_tmp d = IRTemp_INVALID \<and> d_nFxState d = 0 \<and> (d_mFx d = Ifx_None \<or> d_mFx d = Ifx_Read)"

definition tool_type :: "IRType \<Rightarrow> bool" where
  "tool_type ty \<longleftrightarrow> ty = Ity_I1 \<or> ty = Ity_I64"

lemma tool_type_plausible: "tool_type ty \<Longrightarrow> isPlausibleIRType ty"
  by (auto simp: tool_type_def)

fun pure_atom_expr :: "IRExpr \<Rightarrow> bool" where
  "pure_atom_expr (Iex_RdTmp _) = True"
| "pure_atom_expr (Iex_Const _) = True"
| "pure_atom_expr (Iex_Unop _ (Iex_RdTmp _)) = True"
| "pure_atom_expr _ = False"

fun tool_stmt :: "string set \<Rightarrow> nat \<Rightarrow> IRStmt \<Rightarrow> bool" where
  "tool_stmt fns n (Ist_Dirty d) = tool_call fns d"
| "tool_stmt fns n (Ist_WrTmp t e) = (n \<le> t \<and> pure_atom_expr e)"
| "tool_stmt fns n _ = False"

text \<open>\<open>woven fns n xs ys\<close>: \<open>ys\<close> is \<open>xs\<close> without its NULL and NoOp entries, with statements of
  the tool inserted.\<close>

inductive woven :: "string set \<Rightarrow> nat \<Rightarrow> IRStmt option list \<Rightarrow> IRStmt option list \<Rightarrow> bool"
  for fns n where
  woven_nil: "woven fns n [] []"
| woven_skip: "skipped x \<Longrightarrow> woven fns n xs ys \<Longrightarrow> woven fns n (x # xs) ys"
| woven_keep: "woven fns n xs ys \<Longrightarrow> woven fns n (x # xs) (x # ys)"
| woven_add: "tool_stmt fns n t \<Longrightarrow> woven fns n xs ys \<Longrightarrow> woven fns n xs (Some t # ys)"

definition is_tool_stmt :: "string set \<Rightarrow> nat \<Rightarrow> IRStmt option \<Rightarrow> bool" where
  "is_tool_stmt fns n st = (case st of None \<Rightarrow> False | Some s \<Rightarrow> tool_stmt fns n s)"

text \<open>Removing from a block what the tool added.\<close>

definition erase :: "string set \<Rightarrow> nat \<Rightarrow> IRStmt option list \<Rightarrow> IRStmt option list" where
  "erase fns n sts = filter (\<lambda>st. \<not> is_tool_stmt fns n st \<and> \<not> skipped st) sts"

lemma woven_refl: "woven fns n xs xs"
  by (induction xs) (auto intro: woven.intros)

lemma woven_append:
  "woven fns n xs ys \<Longrightarrow> woven fns n xs' ys' \<Longrightarrow> woven fns n (xs @ xs') (ys @ ys')"
  by (induction rule: woven.induct) (auto intro: woven.intros)

lemma woven_tools: "(\<And>t. t \<in> set ts \<Longrightarrow> is_tool_stmt fns n t) \<Longrightarrow> woven fns n [] ts"
proof (induction ts)
  case (Cons t ts)
  then have "is_tool_stmt fns n t" "woven fns n [] ts" by auto
  then show ?case by (cases t) (auto simp: is_tool_stmt_def intro: woven_add)
qed (rule woven_nil)

lemma woven_around:
  assumes "\<And>t. t \<in> set pre \<Longrightarrow> is_tool_stmt fns n t" "\<And>t. t \<in> set post \<Longrightarrow> is_tool_stmt fns n t"
  shows "woven fns n [x] (pre @ [x] @ post)"
proof -
  have "woven fns n ([] @ [x] @ []) (pre @ [x] @ post)"
    using assms by (intro woven_append woven_tools woven_refl)
  then show ?thesis by simp
qed

lemma erase_woven:
  "woven fns n xs ys \<Longrightarrow> (\<And>x. x \<in> set xs \<Longrightarrow> \<not> is_tool_stmt fns n x) \<Longrightarrow>
     erase fns n ys = filter (\<lambda>st. \<not> skipped st) xs"
  by (induction rule: woven.induct) (auto simp: erase_def is_tool_stmt_def)

section \<open>Sanity of a statement and of a chunk of statements\<close>

definition stmt_ok :: "IRTypeEnv \<Rightarrow> IRType \<Rightarrow> IRStmt option \<Rightarrow> bool" where
  "stmt_ok env gw st \<longleftrightarrow>
     (\<exists>s. st = Some s \<and> isFlatIRStmt s = Inr True \<and> tcStmt env gw s = Inr ())"

definition chunk_ok :: "IRTypeEnv \<Rightarrow> IRType \<Rightarrow> nat list \<Rightarrow> IRStmt option list \<Rightarrow> nat list \<Rightarrow> bool" where
  "chunk_ok env gw dc sts dc' \<longleftrightarrow>
     (\<forall>st\<in>set sts. stmt_ok env gw st) \<and> foldR (countStmt env) dc sts = Inr dc'"

lemma chunk_ok_Nil [simp]: "chunk_ok env gw dc [] dc' \<longleftrightarrow> dc' = dc"
  by (auto simp: chunk_ok_def)

lemma chunk_ok_Cons [simp]:
  "chunk_ok env gw dc (st # sts) dc' \<longleftrightarrow>
     stmt_ok env gw st \<and> (\<exists>dc1. countStmt env dc st = Inr dc1 \<and> chunk_ok env gw dc1 sts dc')"
  by (auto simp: chunk_ok_def res_iff)

lemma chunk_ok_append:
  "chunk_ok env gw dc (xs @ ys) dc' \<longleftrightarrow>
     (\<exists>dc1. chunk_ok env gw dc xs dc1 \<and> chunk_ok env gw dc1 ys dc')"
  by (auto simp: chunk_ok_def foldR_append res_iff)

lemma stmt_ok_ext: "stmt_ok env gw st \<Longrightarrow> env_ext env env' \<Longrightarrow> stmt_ok env' gw st"
  by (auto simp: stmt_ok_def intro: okleD [OF tcStmt_ext])

lemma chunk_ok_ext:
  "chunk_ok env gw dc sts dc' \<Longrightarrow> env_ext env env' \<Longrightarrow> length dc = types_used env \<Longrightarrow>
     chunk_ok env' gw (dc @ xs) sts (dc' @ xs)"
proof (induction sts arbitrary: dc)
  case (Cons st sts)
  then obtain dc1 where "countStmt env dc st = Inr dc1" "chunk_ok env gw dc1 sts dc'"
    "stmt_ok env gw st" by auto
  with Cons show ?case
    using countStmt_ext [OF \<open>countStmt env dc st = Inr dc1\<close> Cons.prems(2,3)]
    by (auto intro: stmt_ok_ext)
qed simp

lemma assignedOnce_Stmt_length:
  "assignedOnce_Stmt st dc n = Inr dc1 \<Longrightarrow> length dc1 = length dc"
  by (cases st) (auto simp: assignedOnce_Temp_def Let_def res_iff split: if_splits)

lemma chunk_ok_length: "chunk_ok env gw dc sts dc' \<Longrightarrow> length dc' = length dc"
  by (induction sts arbitrary: dc)
     (auto simp: countStmt_def res_iff dest!: assignedOnce_Stmt_length)

text \<open>A flat sanity check succeeds exactly when the block is one good chunk and its frame is right.\<close>

lemma stmt_ok_iff:
  "stmt_ok env gw st \<longleftrightarrow>
     bindR (optR (SanityFail ''IRStmt: is NULL'') st) (\<lambda>s.
       bindR (isFlatIRStmt s) (\<lambda>ok. assertR ok (SanityFail ''IRStmt: is not flat''))) = Inr ()
     \<and> bindR (optR NullDeref st) (tcStmt env gw) = Inr ()"
  by (cases st) (auto simp: stmt_ok_def res_iff)

lemma stmts_ok_iff:
  "(\<forall>st\<in>set sts. stmt_ok env gw st) \<longleftrightarrow>
     checkFlat sts = Inr () \<and> forR (\<lambda>st. bindR (optR NullDeref st) (tcStmt env gw)) sts = Inr ()"
  by (simp only: stmt_ok_iff checkFlat_def forR_eq_Inr ball_conj_distrib)

lemma sanityCheckIRSB_iff:
  "sanityCheckIRSB bb True gw = Inr () \<longleftrightarrow>
     (gw = Ity_I32 \<or> gw = Ity_I64) \<and> 8 \<le> stmts_size bb \<and> stmts_used bb \<le> stmts_size bb
     \<and> (\<forall>ty\<in>set (types (tyenv bb)). isPlausibleIRType ty)
     \<and> (\<exists>dc. chunk_ok (tyenv bb) gw (replicate (types_used (tyenv bb)) 0) (stmts bb) dc)
     \<and> (\<exists>nx. sb_next bb = Some nx \<and> isIRAtom nx \<and> typeOfIRExpr (tyenv bb) nx = Inr gw)
     \<and> 16 \<le> sb_offsIP bb"
  unfolding sanityCheckIRSB_def checkTemps_def chunk_ok_def stmts_ok_iff
  by (simp only: res_iff if_True) (auto simp: not_less)

section \<open>Good arguments and good calls\<close>

definition arg_ok :: "IRTypeEnv \<Rightarrow> nat list \<Rightarrow> IRExpr \<Rightarrow> bool" where
  "arg_ok F dc e \<longleftrightarrow> isIRAtom e \<and> useBeforeDef_Expr F dc e = Inr ()
     \<and> (\<exists>t. typeOfIRExpr F e = Inr t \<and> t \<noteq> Ity_I1)"

definition guard_ok :: "IRTypeEnv \<Rightarrow> IRType \<Rightarrow> IRExpr \<Rightarrow> bool" where
  "guard_ok F gw g \<longleftrightarrow> isIRAtom g \<and> tcExpr F gw g = Inr () \<and> typeOfIRExpr F g = Inr Ity_I1"

definition call_ok :: "IRTypeEnv \<Rightarrow> IRType \<Rightarrow> nat list \<Rightarrow> IRDirty \<Rightarrow> bool" where
  "call_ok F gw dc d \<longleftrightarrow>
     (\<exists>cee args g. d_cee d = Some cee \<and> saneIRCallee cee \<and> d_args d = Some args
        \<and> cee_regparms cee \<le> int (length args) \<and> length args \<le> 32
        \<and> (\<forall>a\<in>set args. arg_ok F dc a) \<and> d_guard d = Some g \<and> guard_ok F gw g)
     \<and> d_tmp d = IRTemp_INVALID \<and> d_nFxState d = 0
     \<and> (d_mFx d = Ifx_None \<and> d_mAddr d = None \<and> d_mSize d = 0
        \<or> d_mFx d = Ifx_Read \<and> d_mSize d \<noteq> 0
          \<and> (\<exists>a. d_mAddr d = Some a \<and> isIRAtom a \<and> useBeforeDef_Expr F dc a = Inr ()))"

lemma tcDirtyArgs_atoms:
  "(\<And>a. a \<in> set args \<Longrightarrow> isIRAtom a \<and> (\<exists>t. typeOfIRExpr env a = Inr t \<and> t \<noteq> Ity_I1)) \<Longrightarrow>
     i + length args \<le> 32 \<Longrightarrow> tcDirtyArgs env Ity_INVALID i 0 0 args = Inr 0"
proof (induction args arbitrary: i)
  case (Cons a args)
  from Cons.prems(1) obtain t where a: "isIRAtom a" "typeOfIRExpr env a = Inr t" "t \<noteq> Ity_I1"
    by auto
  have "tcDirtyArgs env Ity_INVALID (Suc i) 0 0 args = Inr 0"
    using Cons by simp
  with a Cons.prems(2) show ?case by (cases a) auto
qed simp

lemma call_ok_count:
  assumes "call_ok F gw dc d"
  shows "countStmt F dc (Some (Ist_Dirty d)) = Inr dc"
proof -
  obtain args where "d_args d = Some args" "\<forall>a\<in>set args. arg_ok F dc a"
    using assms by (auto simp: call_ok_def)
  then have "forR (\<lambda>arg. if is_IRExpr_VECRET_or_GSPTR arg then Inr ()
                         else useBeforeDef_Expr F dc arg) args = Inr ()"
    by (auto simp: res_iff arg_ok_def)
  with \<open>d_args d = Some args\<close> assms show ?thesis
    by (auto simp: countStmt_def call_ok_def)
qed

lemma call_ok_stmt:
  assumes "call_ok F gw dc d"
  shows "stmt_ok F gw (Some (Ist_Dirty d))"
proof -
  obtain cee args g where d: "d_cee d = Some cee" "saneIRCallee cee" "d_args d = Some args"
      "cee_regparms cee \<le> int (length args)" "length args \<le> 32"
      "\<forall>a\<in>set args. arg_ok F dc a" "d_guard d = Some g" "guard_ok F gw g"
    using assms unfolding call_ok_def by blast
  have atoms: "list_all isIRAtom_or_VECRET_or_GSPTR args"
    using d(6) by (auto simp: list_all_iff arg_ok_def isIRAtom_or_VECRET_or_GSPTR_def)
  have "tcDirtyArgs F Ity_INVALID 0 0 0 args = Inr 0"
    using d by (intro tcDirtyArgs_atoms) (auto simp: arg_ok_def)
  with d assms have "tcDirty F gw d = Inr ()"
    by (auto simp: tcDirty_def call_ok_def guard_ok_def VEX_N_FXSTATE_def)
  moreover have "isFlatIRStmt (Ist_Dirty d) = Inr True"
    using d assms atoms by (auto simp: call_ok_def guard_ok_def)
  ultimately show ?thesis by (simp add: stmt_ok_def)
qed

lemma chunk_ok_call:
  "call_ok F gw dc d \<Longrightarrow> chunk_ok F gw dc sts dc' \<Longrightarrow> chunk_ok F gw dc (Some (Ist_Dirty d) # sts) dc'"
  by (simp add: call_ok_count call_ok_stmt)

text \<open>Every entry of \<open>def_counts\<close> only grows.\<close>

definition counts_le :: "nat list \<Rightarrow> nat list \<Rightarrow> bool" where
  "counts_le dc dc1 \<longleftrightarrow> length dc = length dc1 \<and> (\<forall>i<length dc. dc ! i \<le> dc1 ! i)"

lemma counts_le_refl [simp]: "counts_le dc dc"
  by (simp add: counts_le_def)

lemma counts_le_trans: "counts_le a b \<Longrightarrow> counts_le b c \<Longrightarrow> counts_le a c"
  by (auto simp: counts_le_def) (meson order_trans)

lemma assignedOnce_Temp_mono: "assignedOnce_Temp t dc n a b = Inr dc1 \<Longrightarrow> counts_le dc dc1"
  by (cases "t < length dc")
     (auto simp: assignedOnce_Temp_def Let_def res_iff counts_le_def nth_list_update)

lemma assignedOnce_Stmt_mono: "assignedOnce_Stmt st dc n = Inr dc1 \<Longrightarrow> counts_le dc dc1"
  by (cases st)
     (auto simp: res_iff split: if_splits intro: assignedOnce_Temp_mono
       counts_le_trans [OF assignedOnce_Temp_mono assignedOnce_Temp_mono])

lemma useBeforeDef_atom_mono:
  assumes "isIRAtom e" "useBeforeDef_Expr E dc e = Inr ()" "counts_le dc dc1" "env_ext E F"
    and "length dc = types_used E"
  shows "useBeforeDef_Expr F (dc1 @ xs) e = Inr ()"
proof (cases e)
  case (Iex_RdTmp t)
  then have "t < types_used E" "\<not> dc ! t < 1"
    using assms(2) by (auto simp: useBeforeDef_Temp_def res_iff)
  then show ?thesis
    using Iex_RdTmp assms(3-5) env_ext_used [of E F]
    by (auto simp: useBeforeDef_Temp_def nth_append counts_le_def)
qed (use assms in auto)

lemma arg_ok_mono:
  "arg_ok E dc e \<Longrightarrow> counts_le dc dc1 \<Longrightarrow> env_ext E F \<Longrightarrow> length dc = types_used E \<Longrightarrow>
     arg_ok F (dc1 @ xs) e"
  by (auto simp: arg_ok_def intro: useBeforeDef_atom_mono typeOfIRExpr_ext)

lemma arg_ok_HWord [simp]: "arg_ok F dc (mkIRExpr_HWord w)"
  by (simp add: arg_ok_def mkIRExpr_HWord_def)

lemma guard_ok_ext: "guard_ok E gw g \<Longrightarrow> env_ext E F \<Longrightarrow> guard_ok F gw g"
  by (auto simp: guard_ok_def intro: typeOfIRExpr_ext okleD [OF tcExpr_ext])

lemma guard_ok_True [simp]: "guard_ok F gw (Iex_Const (Ico_U1 1))"
  by (simp add: guard_ok_def)

text \<open>A sane statement stays sane between the calls a tool puts before and after it.\<close>

lemma weave_calls:
  assumes "chunk_ok E gw dc [Some st] dc1" "length dc = types_used E" "env_ext E F"
    and "chunk_ok F gw (dc @ r) pre (dc @ r)" "chunk_ok F gw (dc1 @ r) post (dc1 @ r)"
  shows "chunk_ok F gw (dc @ r) (pre @ [Some st] @ post) (dc1 @ r)"
  using assms chunk_ok_ext [OF assms(1,3,2), of r] by (auto simp only: chunk_ok_append)

lemma chunk_ok_single:
  "chunk_ok E gw dc [Some st] dc1 \<longleftrightarrow> stmt_ok E gw (Some st)
     \<and> useBeforeDef_Stmt E dc st = Inr () \<and> assignedOnce_Stmt st dc (types_used E) = Inr dc1"
  by (auto simp: countStmt_def res_iff)

section \<open>Plain calls\<close>

definition plain_call :: "int \<Rightarrow> string \<Rightarrow> string \<Rightarrow> IRExpr list \<Rightarrow> IRDirty" where
  "plain_call regparms name fn args = emptyIRDirty\<lparr>
     d_cee := Some \<lparr>cee_regparms = regparms, cee_name = Some name, cee_addr = Fn fn, cee_mcx_mask = 0\<rparr>,
     d_guard := Some (Iex_Const (Ico_U1 1)), d_args := Some args\<rparr>"

lemma unsafeIRDirty_0_N_ok:
  "0 \<le> n \<Longrightarrow> n \<le> 3 \<Longrightarrow> unsafeIRDirty_0_N n name (Fn fn) args = Inr (plain_call n name fn args)"
  by (simp add: unsafeIRDirty_0_N_def mkIRCallee_def plain_call_def)

lemma add_call_ok:
  "wf_sb sb \<Longrightarrow> 0 \<le> n \<Longrightarrow> n \<le> 3 \<Longrightarrow>
     add_call n name fn args sb = Inr (push_stmt sb (Some (Ist_Dirty (plain_call n name fn args))))"
  by (simp add: add_call_def unsafeIRDirty_0_N_ok addStmtToIRSB_ok)

lemma plain_call_tool [simp]: "tool_call fns (plain_call n name fn args) \<longleftrightarrow> fn \<in> fns"
  by (simp add: tool_call_def plain_call_def emptyIRDirty_def)

lemma plain_call_ok:
  "0 \<le> n \<Longrightarrow> n \<le> 3 \<Longrightarrow> n \<le> int (length args) \<Longrightarrow> length args \<le> 32 \<Longrightarrow> \<forall>a\<in>set args. arg_ok F dc a \<Longrightarrow>
     call_ok F gw dc (plain_call n name fn args)"
  by (simp add: call_ok_def plain_call_def emptyIRDirty_def saneIRCallee_def)

section \<open>Growing blocks\<close>

text \<open>\<open>grows sb sb' tys sts\<close>: \<open>sb'\<close> is \<open>sb\<close> with the temporaries \<open>tys\<close> and the
  statements \<open>sts\<close> appended.\<close>

definition grows :: "IRSB \<Rightarrow> IRSB \<Rightarrow> IRType list \<Rightarrow> IRStmt option list \<Rightarrow> bool" where
  "grows sb sb' tys sts \<longleftrightarrow>
     wf_sb sb' \<and> types (tyenv sb') = types (tyenv sb) @ tys \<and> stmts sb' = stmts sb @ sts
     \<and> sb_next sb' = sb_next sb \<and> sb_jumpkind sb' = sb_jumpkind sb \<and> sb_offsIP sb' = sb_offsIP sb"

lemma grows_refl [simp]: "wf_sb sb \<Longrightarrow> grows sb sb [] []"
  by (simp add: grows_def)

lemma grows_trans: "grows a b ts xs \<Longrightarrow> grows b c ts' ys \<Longrightarrow> grows a c (ts @ ts') (xs @ ys)"
  by (simp add: grows_def)

lemma grows_push [simp]: "grows a b ts xs \<Longrightarrow> grows a (push_stmt b st) ts (xs @ [st])"
  by (simp add: grows_def)

lemma grows_wf: "grows a b ts xs \<Longrightarrow> wf_sb b"
  by (simp add: grows_def)

lemma grows_unique: "grows a b ts xs \<Longrightarrow> grows a b ts' xs' \<Longrightarrow> ts' = ts \<and> xs' = xs"
  by (simp add: grows_def)

lemma tool_stmt_mono: "is_tool_stmt fns n st \<Longrightarrow> m \<le> n \<Longrightarrow> is_tool_stmt fns m st"
  by (cases st; cases "the st") (auto simp: is_tool_stmt_def)

lemma woven_mono: "woven fns n xs ys \<Longrightarrow> m \<le> n \<Longrightarrow> woven fns m xs ys"
proof (induction rule: woven.induct)
  case (woven_add t xs ys)
  then show ?case
    using tool_stmt_mono [of fns n "Some t" m] by (auto simp: is_tool_stmt_def intro: woven.woven_add)
qed (auto intro: woven.intros)

fun advance :: "imark \<Rightarrow> IRStmt \<Rightarrow> imark" where
  "advance i (Ist_IMark addr len _) = (addr, len)"
| "advance i _ = i"

fun advances :: "imark \<Rightarrow> IRStmt option list \<Rightarrow> imark" where
  "advances i [] = i"
| "advances i (None # sts) = advances i sts"
| "advances i (Some st # sts) = advances (advance i st) sts"

text \<open>The tool's requirement holds for every statement of a list, each at its instruction.\<close>

fun all_req :: "(imark \<Rightarrow> IRStmt \<Rightarrow> bool) \<Rightarrow> imark \<Rightarrow> IRStmt option list \<Rightarrow> bool" where
  "all_req req i [] = True"
| "all_req req i (None # sts) = all_req req i sts"
| "all_req req i (Some st # sts) = ((st = Ist_NoOp \<or> req i st) \<and> all_req req (advance i st) sts)"

text \<open>What both instrumentation functions do between the check of the word sizes and the handling of
  the block's end.\<close>

definition translate_stmts :: "(IRTypeEnv \<Rightarrow> IRSB \<Rightarrow> imark \<Rightarrow> IRStmt \<Rightarrow> (IRSB \<times> imark) res) \<Rightarrow>
    IRSB \<Rightarrow> IRSB res" where
  "translate_stmts step sbIn =
     bindR (deepCopyIRSBExceptStmts sbIn) (\<lambda>sbOut.
     bindR (copy_preamble sbOut (stmts sbIn)) (\<lambda>(sbOut, rest).
     bindR (stmt_loop (step (tyenv sbIn)) sbOut (0, 0) rest) (\<lambda>(sbOut, _). Inr sbOut)))"

lemma copy_preamble_grows:
  "wf_sb sb \<Longrightarrow> copy_preamble sb sts = Inr (sb', rest) \<Longrightarrow> \<exists>pre. sts = pre @ rest \<and> grows sb sb' [] pre"
proof (induction sts arbitrary: sb)
  case (Cons st sts)
  then obtain s where st: "st = Some s" by (auto simp: res_iff)
  show ?case
  proof (cases "\<exists>a l d. s = Ist_IMark a l d")
    case True
    with Cons.prems st show ?thesis by auto
  next
    case False
    then have "copy_preamble (push_stmt sb st) sts = Inr (sb', rest)"
      using Cons.prems st by (cases s) (auto simp: addStmtToIRSB_ok)
    then obtain pre where "sts = pre @ rest" "grows (push_stmt sb st) sb' [] pre"
      using Cons.IH [of "push_stmt sb st"] Cons.prems(1) by auto
    then show ?thesis
      by (intro exI [of _ "st # pre"]) (simp add: grows_def)
  qed
qed simp

lemma copy_preamble_ok:
  "wf_sb sb \<Longrightarrow> None \<notin> set sts \<Longrightarrow> \<exists>r. copy_preamble sb sts = Inr r"
proof (induction sts arbitrary: sb)
  case (Cons st sts)
  then obtain s where "st = Some s" by (cases st) auto
  with Cons.prems Cons.IH [of "push_stmt sb st"] show ?case
    by (cases s) (auto simp: addStmtToIRSB_ok)
qed simp

definition flat_stmts :: "IRStmt option list \<Rightarrow> bool" where
  "flat_stmts sts \<longleftrightarrow> (\<forall>s. Some s \<in> set sts \<longrightarrow> isFlatIRStmt s = Inr True)"

lemma flat_stmts_Cons: "flat_stmts (st # sts) \<Longrightarrow> flat_stmts sts"
  by (simp add: flat_stmts_def)

lemma chunk_ok_flat: "chunk_ok env gw dc sts dc' \<Longrightarrow> flat_stmts sts"
  by (auto simp: chunk_ok_def flat_stmts_def stmt_ok_def)

section \<open>Conditional branches\<close>

definition branch_chunk :: "nat \<Rightarrow> bool \<Rightarrow> IRExpr \<Rightarrow> IRStmt option list" where
  "branch_chunk n ci guard =
     [Some (Ist_WrTmp n guard), Some (Ist_WrTmp (Suc n) (Iex_Unop (Iop ''1Sto64'') (Iex_RdTmp n))),
      Some (Ist_Dirty (plain_call 2 ''trace_branch_conditional'' ''trace_branch_conditional''
        [mkIRExpr_HWord (if ci then 1 else 0), Iex_RdTmp (Suc n)]))]"

lemma branch_conditional_grows:
  assumes "wf_sb sb"
  shows "\<exists>sb'. instrument_branch_conditional sb ci guard = Inr sb'
     \<and> grows sb sb' [Ity_I1, Ity_I64] (branch_chunk (types_used (tyenv sb)) ci guard)"
  using assms
  by (simp add: instrument_branch_conditional_def newIRTemp_ok addStmtToIRSB_ok
      unsafeIRDirty_0_N_ok grows_def branch_chunk_def integerIRTypeOfSize_def)

lemma branch_chunk_tools:
  "isIRAtom guard \<Longrightarrow> t \<in> set (branch_chunk n ci guard) \<Longrightarrow>
     ''trace_branch_conditional'' \<in> fns \<Longrightarrow> is_tool_stmt fns n t"
  by (cases guard) (auto simp: branch_chunk_def is_tool_stmt_def)

lemma fresh_def:
  assumes "length ks = t" "t < types_used F"
  shows "assignedOnce_Temp t (ks @ 0 # zs) (types_used F) a b = Inr (ks @ 1 # zs)"
  using assms by (simp add: assignedOnce_Temp_def nth_append list_update_append)

lemma branch_chunk_ok:
  assumes F: "types F = ts @ [Ity_I1, Ity_I64] @ ys" and n: "length ts = n" "length ks = n"
    and g: "guard_ok F gw guard" "useBeforeDef_Expr F (ks @ zs) guard = Inr ()"
    and zs: "zs = [0, 0] @ replicate (length ys) 0"
  shows "chunk_ok F gw (ks @ zs) (branch_chunk n ci guard) (ks @ [1, 1] @ replicate (length ys) 0)"
proof -
  let ?z = "replicate (length ys) 0"
  have used: "n < types_used F" "Suc n < types_used F" using F n by auto
  have ty: "typeOfIRTemp F n = Inr Ity_I1" "typeOfIRTemp F (Suc n) = Inr Ity_I64"
    using F n by (auto simp: typeOfIRTemp_def nth_append)
  have c1: "countStmt F (ks @ 0 # 0 # ?z) (Some (Ist_WrTmp n guard)) = Inr (ks @ 1 # 0 # ?z)"
    using g(2) zs fresh_def [OF n(2) used(1), of "0 # ?z"] by (simp add: countStmt_def)
  have "useBeforeDef_Temp F (ks @ 1 # 0 # ?z) n = Inr ()"
    using used n(2) by (simp add: useBeforeDef_Temp_def nth_append)
  then have c2: "countStmt F (ks @ 1 # 0 # ?z)
      (Some (Ist_WrTmp (Suc n) (Iex_Unop (Iop ''1Sto64'') (Iex_RdTmp n)))) = Inr (ks @ 1 # 1 # ?z)"
    using fresh_def [of "ks @ [1]" "Suc n" F ?z] n(2) used(2) by (simp add: countStmt_def)
  have arg: "arg_ok F (ks @ 1 # 1 # ?z) (Iex_RdTmp (Suc n))"
    using used n(2) ty by (simp add: arg_ok_def useBeforeDef_Temp_def nth_append)
  have s1: "stmt_ok F gw (Some (Ist_WrTmp n guard))"
    using g(1) ty by (cases guard) (auto simp: stmt_ok_def guard_ok_def)
  have s2: "stmt_ok F gw (Some (Ist_WrTmp (Suc n) (Iex_Unop (Iop ''1Sto64'') (Iex_RdTmp n))))"
    using ty by (simp add: stmt_ok_def UNARY_def no_sig_def)
  let ?args = "[mkIRExpr_HWord (if ci then 1 else 0), Iex_RdTmp (Suc n)]"
  have "call_ok F gw (ks @ 1 # 1 # ?z)
      (plain_call 2 ''trace_branch_conditional'' ''trace_branch_conditional'' ?args)"
    using arg by (intro plain_call_ok) auto
  note call = call_ok_count [OF this] call_ok_stmt [OF this]
  show ?thesis
    unfolding branch_chunk_def zs using c1 c2 s1 s2 call by simp
qed

section \<open>Good steps\<close>

text \<open>\<open>adds_calls\<close>: calls are appended whose arguments are constants.\<close>

definition adds_calls :: "string set \<Rightarrow> IRSB \<Rightarrow> IRSB \<Rightarrow> IRStmt option list \<Rightarrow> bool" where
  "adds_calls fns sb sb' out \<longleftrightarrow> grows sb sb' [] out
     \<and> (\<forall>t\<in>set out. \<exists>d. t = Some (Ist_Dirty d) \<and> tool_call fns d)
     \<and> (\<forall>F gw dc. chunk_ok F gw dc out dc)"

lemma adds_calls_refl: "wf_sb sb \<Longrightarrow> adds_calls fns sb sb []"
  by (simp add: adds_calls_def)

lemma adds_calls_push:
  assumes "adds_calls fns sb sb1 out" "fn \<in> fns" "0 \<le> n" "n \<le> 3" "n \<le> int (length args)"
    and "length args \<le> 32" "\<And>F dc. \<forall>a\<in>set args. arg_ok F dc a"
  shows "add_call n name fn args sb1 = Inr (push_stmt sb1 (Some (Ist_Dirty (plain_call n name fn args))))"
    and "adds_calls fns sb (push_stmt sb1 (Some (Ist_Dirty (plain_call n name fn args))))
           (out @ [Some (Ist_Dirty (plain_call n name fn args))])"
proof -
  have "wf_sb sb1" using assms(1) by (auto simp: adds_calls_def grows_wf)
  then show "add_call n name fn args sb1 = Inr (push_stmt sb1 (Some (Ist_Dirty (plain_call n name fn args))))"
    using assms by (intro add_call_ok)
  have "chunk_ok F gw dc (out @ [Some (Ist_Dirty (plain_call n name fn args))]) dc" for F gw dc
  proof -
    have "chunk_ok F gw dc [] dc" by simp
    from chunk_ok_call [OF plain_call_ok [OF assms(3-7)] this]
    show ?thesis using assms(1) unfolding chunk_ok_append adds_calls_def by blast
  qed
  then show "adds_calls fns sb (push_stmt sb1 (Some (Ist_Dirty (plain_call n name fn args))))
           (out @ [Some (Ist_Dirty (plain_call n name fn args))])"
    using assms(1,2) by (auto simp: adds_calls_def)
qed

definition sane_chunk :: "IRTypeEnv \<Rightarrow> IRStmt \<Rightarrow> IRSB \<Rightarrow> IRType list \<Rightarrow> IRStmt option list \<Rightarrow> bool" where
  "sane_chunk E st sb tys chunk \<longleftrightarrow> (\<forall>gw xs dc mid dc1 F ys.
     types (tyenv sb) = types E @ xs \<longrightarrow> length dc = types_used E \<longrightarrow> length mid = length xs \<longrightarrow>
     chunk_ok E gw dc [Some st] dc1 \<longrightarrow> types F = types (tyenv sb) @ tys @ ys \<longrightarrow>
     chunk_ok F gw (dc @ mid @ replicate (length tys + length ys) 0) chunk
       (dc1 @ mid @ replicate (length tys) 1 @ replicate (length ys) 0))"

text \<open>A step that keeps the statement and adds statements of the tool around it, which leave the block
  sane if \<open>ok\<close> holds.\<close>

definition good_step :: "string set \<Rightarrow> IRTypeEnv \<Rightarrow> IRStmt \<Rightarrow> IRSB \<Rightarrow> IRSB \<Rightarrow> bool \<Rightarrow> bool" where
  "good_step fns E st sb sb' ok \<longleftrightarrow> (\<exists>tys pre post. grows sb sb' tys (pre @ [Some st] @ post)
     \<and> (\<forall>ty\<in>set tys. tool_type ty)
     \<and> (\<forall>t\<in>set pre \<union> set post. is_tool_stmt fns (types_used (tyenv sb)) t)
     \<and> (ok \<longrightarrow> sane_chunk E st sb tys (pre @ [Some st] @ post)))"

lemma call_is_tool: "\<exists>d. t = Some (Ist_Dirty d) \<and> tool_call fns d \<Longrightarrow> is_tool_stmt fns n t"
  by (auto simp: is_tool_stmt_def)

lemma good_step_calls:
  assumes pre: "adds_calls fns sb sb1 pre"
    and grows: "grows sb sb' [] (pre @ [Some st] @ post)"
    and post: "\<forall>t\<in>set post. \<exists>d. t = Some (Ist_Dirty d) \<and> tool_call fns d"
    and sane: "\<And>F gw dc dc1 r. ok \<Longrightarrow> chunk_ok E gw dc [Some st] dc1 \<Longrightarrow> length dc = types_used E \<Longrightarrow>
        env_ext E F \<Longrightarrow> chunk_ok F gw (dc1 @ r) post (dc1 @ r)"
  shows "good_step fns E st sb sb' ok"
proof -
  have "sane_chunk E st sb [] (pre @ [Some st] @ post)" if ok
    unfolding sane_chunk_def
  proof (intro allI impI)
    fix gw :: IRType and xs ys :: "IRType list" and dc mid dc1 :: "nat list" and F :: IRTypeEnv
    assume h: "types (tyenv sb) = types E @ xs" "length dc = types_used E" "length mid = length xs"
      "chunk_ok E gw dc [Some st] dc1" "types F = types (tyenv sb) @ [] @ ys"
    let ?r = "mid @ replicate (length ys) 0"
    have ext: "env_ext E F" using h by (simp add: env_ext_def)
    have "chunk_ok F gw (dc @ ?r) pre (dc @ ?r)" using pre unfolding adds_calls_def by blast
    from weave_calls [OF h(4,2) ext this sane [OF that h(4,2) ext]]
    have "chunk_ok F gw (dc @ ?r) (pre @ [Some st] @ post) (dc1 @ ?r)" .
    then show "chunk_ok F gw (dc @ mid @ replicate (length [] + length ys) 0) (pre @ [Some st] @ post)
        (dc1 @ mid @ replicate (length []) 1 @ replicate (length ys) 0)" by simp
  qed
  moreover have "\<forall>t\<in>set pre \<union> set post. is_tool_stmt fns (types_used (tyenv sb)) t"
  proof
    fix t assume "t \<in> set pre \<union> set post"
    then have "\<exists>d. t = Some (Ist_Dirty d) \<and> tool_call fns d"
      using pre post by (auto simp only: adds_calls_def)
    then show "is_tool_stmt fns (types_used (tyenv sb)) t" by (rule call_is_tool)
  qed
  ultimately show ?thesis
    unfolding good_step_def using grows by (intro exI [of _ "[]"] exI [of _ pre] exI [of _ post]) simp
qed

lemma good_step_branch:
  assumes "wf_sb sb" "grows sb sb1 [Ity_I1, Ity_I64] (branch_chunk (types_used (tyenv sb)) ci guard)"
    and st: "st = Ist_Exit guard jk dst offs" "isIRAtom guard" "''trace_branch_conditional'' \<in> fns"
  shows "good_step fns E st sb (push_stmt sb1 (Some st)) ok"
proof -
  let ?n = "types_used (tyenv sb)"
  have "sane_chunk E st sb [Ity_I1, Ity_I64] (branch_chunk ?n ci guard @ [Some st] @ [])"
    unfolding sane_chunk_def
  proof (intro allI impI)
    fix gw :: IRType and xs ys :: "IRType list" and dc mid dc1 :: "nat list" and F :: IRTypeEnv
    assume h: "types (tyenv sb) = types E @ xs" "length dc = types_used E" "length mid = length xs"
      "chunk_ok E gw dc [Some st] dc1" "types F = types (tyenv sb) @ [Ity_I1, Ity_I64] @ ys"
    let ?z = "[0, 0] @ replicate (length ys) (0::nat)" and ?o = "[1, 1] @ replicate (length ys) (0::nat)"
    have ext: "env_ext E F" using h(1,5) by (simp add: env_ext_def)
    have "guard_ok E gw guard" "useBeforeDef_Expr E dc guard = Inr ()"
      using h(4) st(1) unfolding chunk_ok_single by (auto simp: stmt_ok_def guard_ok_def res_iff)
    then have g: "guard_ok F gw guard" "useBeforeDef_Expr F ((dc @ mid) @ ?z) guard = Inr ()"
      using guard_ok_ext [OF _ ext] okleD [OF useBeforeDef_Expr_ext [OF ext h(2)]] by auto
    have "chunk_ok F gw ((dc @ mid) @ ?z) (branch_chunk ?n ci guard) ((dc @ mid) @ ?o)"
      by (rule branch_chunk_ok [OF h(5) _ _ g]) (use h in auto)
    moreover have "chunk_ok F gw (dc @ mid @ ?o) [Some st] (dc1 @ mid @ ?o)"
      by (rule chunk_ok_ext [OF h(4) ext h(2)])
    ultimately have "chunk_ok F gw ((dc @ mid) @ ?z) (branch_chunk ?n ci guard @ [Some st] @ []) (dc1 @ mid @ ?o)"
      unfolding chunk_ok_append append_Nil2 append_assoc by blast
    then show "chunk_ok F gw (dc @ mid @ replicate (length [Ity_I1, Ity_I64] + length ys) 0)
        (branch_chunk ?n ci guard @ [Some st] @ [])
        (dc1 @ mid @ replicate (length [Ity_I1, Ity_I64]) 1 @ replicate (length ys) 0)" by simp
  qed
  moreover have "\<forall>t\<in>set (branch_chunk ?n ci guard) \<union> set []. is_tool_stmt fns ?n t"
    using branch_chunk_tools [OF st(2) _ st(3)] by auto
  moreover have "grows sb (push_stmt sb1 (Some st)) [Ity_I1, Ity_I64] (branch_chunk ?n ci guard @ [Some st] @ [])"
    using assms(2) by simp
  ultimately show ?thesis
    unfolding good_step_def by (intro exI [of _ "[Ity_I1, Ity_I64]"] exI conjI) (auto simp: tool_type_def)
qed

lemma good_step_sane:
  assumes "good_step fns E st sb sb' True" "grows sb sb' tys chunk"
    and "types (tyenv sb) = types E @ xs" "length dc = types_used E" "length mid = length xs"
    and "chunk_ok E gw dc [Some st] dc1" "types F = types (tyenv sb') @ ys"
  shows "chunk_ok F gw (dc @ mid @ replicate (length tys + length ys) 0) chunk
       (dc1 @ mid @ replicate (length tys) 1 @ replicate (length ys) 0)"
proof -
  obtain tys' pre post where "grows sb sb' tys' (pre @ [Some st] @ post)"
      "sane_chunk E st sb tys' (pre @ [Some st] @ post)"
    using assms(1) unfolding good_step_def by blast
  with grows_unique [OF assms(2)] have "sane_chunk E st sb tys chunk" by blast
  moreover have "types F = types (tyenv sb) @ tys @ ys"
    using assms(2,7) by (simp add: grows_def)
  ultimately show ?thesis
    using assms(3-6) unfolding sane_chunk_def by blast
qed

lemma wf_adds: "adds_calls fns sb sb' out \<Longrightarrow> wf_sb sb'"
  unfolding adds_calls_def by (blast intro: grows_wf)

lemma adds_push: "adds_calls fns sb sb1 pre \<Longrightarrow> grows sb (push_stmt sb1 (Some st)) [] (pre @ [Some st] @ [])"
  by (simp add: adds_calls_def)

lemma exit_good:
  assumes "wf_sb sb" "isFlatIRStmt st = Inr True" "st = Ist_Exit guard jk dst offs"
    and "instrument_exit sb i guard jk dst = Inr sb1" "''trace_branch_conditional'' \<in> fns"
  shows "wf_sb sb1" "good_step fns E st sb (push_stmt sb1 (Some st)) ok"
proof -
  have "wf_sb sb1 \<and> good_step fns E st sb (push_stmt sb1 (Some st)) ok"
  proof (cases "guest_branch jk")
    case True
    obtain ci where ci: "instrument_branch_conditional sb ci guard = Inr sb1"
      using assms(4) True by (auto simp: instrument_exit_def Let_def elim!: bindR_InrE)
    have g: "grows sb sb1 [Ity_I1, Ity_I64] (branch_chunk (types_used (tyenv sb)) ci guard)"
      using branch_conditional_grows [OF assms(1), of ci guard] ci by auto
    have "isIRAtom guard" using assms(2,3) by simp
    from good_step_branch [OF assms(1) g assms(3) this assms(5)] grows_wf [OF g] show ?thesis by simp
  next
    case False
    then have "sb1 = sb" using assms(4) by (auto simp: instrument_exit_def Let_def elim!: bindR_InrE)
    then show ?thesis
      using good_step_calls [OF adds_calls_refl [OF assms(1)] adds_push [OF adds_calls_refl [OF assms(1)]]]
        assms(1) by simp
  qed
  then show "wf_sb sb1" "good_step fns E st sb (push_stmt sb1 (Some st)) ok" by auto
qed

lemma exit_total:
  assumes "wf_sb sb" "fst i \<noteq> 0" "isOk (Ico_as_U64 dst)"
  shows "\<exists>sb1. instrument_exit sb i guard jk dst = Inr sb1 \<and> wf_sb sb1"
proof -
  obtain d where "Ico_as_U64 dst = Inr d" using assms(3) by (auto simp: isOk_iff)
  then show ?thesis
    using assms(1,2) branch_conditional_grows [OF assms(1)] grows_wf
    by (fastforce simp: instrument_exit_def Let_def)
qed

lemma sanity_adds:
  assumes "sanityCheckIRSB sb True gw = Inr ()" "adds_calls fns sb sb' out"
  shows "sanityCheckIRSB sb' True gw = Inr ()"
proof -
  have g: "grows sb sb' [] out" and out: "\<And>F gw dc. chunk_ok F gw dc out dc"
    using assms(2) by (auto simp only: adds_calls_def)
  have ext: "env_ext (tyenv sb) (tyenv sb')" and ts: "types (tyenv sb') = types (tyenv sb)"
    using g by (auto simp: grows_def env_ext_def)
  obtain dc where "chunk_ok (tyenv sb) gw (replicate (types_used (tyenv sb)) 0) (stmts sb) dc"
    using assms(1) by (auto simp: sanityCheckIRSB_iff)
  from chunk_ok_ext [OF this ext, of "[]"]
  have "chunk_ok (tyenv sb') gw (replicate (types_used (tyenv sb)) 0) (stmts sb) dc" by simp
  with out have "\<exists>dc. chunk_ok (tyenv sb') gw (replicate (types_used (tyenv sb')) 0) (stmts sb @ out) dc"
    unfolding chunk_ok_append ts by blast
  moreover have "typeOfIRExpr (tyenv sb) nx = Inr gw \<Longrightarrow> typeOfIRExpr (tyenv sb') nx = Inr gw" for nx
    by (rule typeOfIRExpr_ext [OF ext])
  ultimately show ?thesis
    using assms(1) g ts unfolding sanityCheckIRSB_iff by (auto simp: grows_def wf_sb_def)
qed

lemma woven_adds:
  assumes "woven fns n xs (stmts sb)" "adds_calls fns sb sb' out"
  shows "woven fns n xs (stmts sb')"
proof -
  have "woven fns n [] out"
    using assms(2) call_is_tool by (intro woven_tools) (auto simp only: adds_calls_def)
  from woven_append [OF assms(1) this] assms(2) show ?thesis
    by (auto simp: adds_calls_def grows_def)
qed

lemma sane_block_facts:
  assumes "sanityCheckIRSB sb True gw = Inr ()"
  shows "\<exists>nx. sb_next sb = Some nx \<and> isIRAtom nx \<and> deepCopyIRExpr nx = Inr nx"
    and "None \<notin> set (stmts sb)" "flat_stmts (stmts sb)"
proof -
  obtain nx where nx: "sb_next sb = Some nx" "isIRAtom nx" "typeOfIRExpr (tyenv sb) nx = Inr gw"
      "gw = Ity_I32 \<or> gw = Ity_I64"
    using assms by (auto simp: sanityCheckIRSB_iff)
  then show "\<exists>nx. sb_next sb = Some nx \<and> isIRAtom nx \<and> deepCopyIRExpr nx = Inr nx"
    using deepCopy_atom [OF nx(2,3)] by auto
  obtain dc where dc: "chunk_ok (tyenv sb) gw (replicate (types_used (tyenv sb)) 0) (stmts sb) dc"
    using assms by (auto simp: sanityCheckIRSB_iff)
  then show "None \<notin> set (stmts sb)" by (auto simp: chunk_ok_def stmt_ok_def)
  show "flat_stmts (stmts sb)" using dc by (rule chunk_ok_flat)
qed

section \<open>The interface of a tool\<close>

locale stmt_instrumenter =
  fixes step :: "IRTypeEnv \<Rightarrow> IRSB \<Rightarrow> imark \<Rightarrow> IRStmt \<Rightarrow> (IRSB \<times> imark) res"
    and fns :: "string set"
    and req :: "IRTypeEnv \<Rightarrow> imark \<Rightarrow> IRStmt \<Rightarrow> bool"
  assumes step_grows: "wf_sb sb \<Longrightarrow> isFlatIRStmt st = Inr True \<Longrightarrow> step E sb i st = Inr (sb', i') \<Longrightarrow>
      \<exists>tys pre post. grows sb sb' tys (pre @ [Some st] @ post) \<and> (\<forall>ty\<in>set tys. tool_type ty)
        \<and> (\<forall>t\<in>set pre \<union> set post. is_tool_stmt fns (types_used (tyenv sb)) t)"
    and step_imark: "wf_sb sb \<Longrightarrow> step E sb i st = Inr (sb', i') \<Longrightarrow> i' = advance i st"
    and step_sane: "wf_sb sb \<Longrightarrow> req E i st \<Longrightarrow> gw = Ity_I32 \<or> gw = Ity_I64 \<Longrightarrow>
      step E sb i st = Inr (sb', i') \<Longrightarrow> grows sb sb' tys chunk \<Longrightarrow>
      types (tyenv sb) = types E @ xs \<Longrightarrow> length dc = types_used E \<Longrightarrow> length mid = length xs \<Longrightarrow>
      chunk_ok E gw dc [Some st] dc1 \<Longrightarrow> types F = types (tyenv sb') @ ys \<Longrightarrow>
      chunk_ok F gw (dc @ mid @ replicate (length tys + length ys) 0) chunk
        (dc1 @ mid @ replicate (length tys) 1 @ replicate (length ys) 0)"
    and step_total: "wf_sb sb \<Longrightarrow> req E i st \<Longrightarrow> \<exists>sb' i'. step E sb i st = Inr (sb', i') \<and> wf_sb sb'"
begin

lemma loop_grows:
  "wf_sb sb \<Longrightarrow> flat_stmts sts \<Longrightarrow> stmt_loop (step E) sb i sts = Inr (sb', i') \<Longrightarrow>
     \<exists>tys out. grows sb sb' tys out \<and> woven fns (types_used (tyenv sb)) sts out
       \<and> (\<forall>ty\<in>set tys. tool_type ty)"
proof (induction sts arbitrary: sb i)
  case Nil
  then show ?case
    by (intro exI [of _ "[]"]) (auto intro: woven_nil)
next
  case (Cons st sts)
  show ?case
  proof (cases "skipped st")
    case True
    then have "stmt_loop (step E) sb i sts = Inr (sb', i')"
      using Cons.prems by (auto simp: skipped_def)
    with Cons.IH Cons.prems(1) flat_stmts_Cons [OF Cons.prems(2)] True show ?thesis
      by (meson woven_skip)
  next
    case False
    then obtain s sb1 i1 where s: "st = Some s" "step E sb i s = Inr (sb1, i1)"
        "stmt_loop (step E) sb1 i1 sts = Inr (sb', i')"
      using Cons.prems by (auto simp: skipped_def res_iff split: option.splits)
    obtain tys pre post where g: "grows sb sb1 tys (pre @ [Some s] @ post)"
        "\<forall>ty\<in>set tys. tool_type ty"
        and tool: "\<forall>t\<in>set pre \<union> set post. is_tool_stmt fns (types_used (tyenv sb)) t"
      using step_grows [OF Cons.prems(1) _ s(2)] Cons.prems(2) s(1) by (auto simp: flat_stmts_def)
    obtain tys' out where r: "grows sb1 sb' tys' out" "woven fns (types_used (tyenv sb1)) sts out"
        "\<forall>ty\<in>set tys'. tool_type ty"
      using Cons.IH [OF grows_wf [OF g(1)] flat_stmts_Cons [OF Cons.prems(2)] s(3)] by blast
    have "types_used (tyenv sb) \<le> types_used (tyenv sb1)"
      using g(1) by (simp add: grows_def)
    then have "woven fns (types_used (tyenv sb)) ([Some s] @ sts) ((pre @ [Some s] @ post) @ out)"
      using tool by (intro woven_append woven_around woven_mono [OF r(2)]) auto
    then show ?thesis
      using grows_trans [OF g(1) r(1)] g(2) r(3) s(1)
      by (intro exI [of _ "tys @ tys'"] exI [of _ "(pre @ [Some s] @ post) @ out"]) auto
  qed
qed

lemma loop_sane:
  "wf_sb sb \<Longrightarrow> all_req (req E) i sts \<Longrightarrow> gw = Ity_I32 \<or> gw = Ity_I64 \<Longrightarrow> stmt_loop (step E) sb i sts = Inr (sb', i') \<Longrightarrow> grows sb sb' tys out \<Longrightarrow>
     types (tyenv sb) = types E @ xs \<Longrightarrow> length dc = types_used E \<Longrightarrow> length mid = length xs \<Longrightarrow>
     chunk_ok E gw dc sts dc1 \<Longrightarrow>
     \<exists>dc2. chunk_ok (tyenv sb') gw (dc @ mid @ replicate (length tys) 0) out dc2"
proof (induction sts arbitrary: sb i dc mid xs tys out)
  case Nil
  then have "out = []" by (auto simp: grows_def)
  then show ?case by auto
next
  case (Cons st sts)
  show ?case
  proof (cases "st = Some Ist_NoOp")
    case True
    then have "stmt_loop (step E) sb i sts = Inr (sb', i')" "chunk_ok E gw dc sts dc1"
        "all_req (req E) i sts"
      using Cons.prems(2,4,9) by (auto simp: countStmt_def)
    with Cons.IH Cons.prems(1,3,5-8) show ?thesis by blast
  next
    case False
    then obtain s sb1 i1 where s: "st = Some s" "step E sb i s = Inr (sb1, i1)"
        "stmt_loop (step E) sb1 i1 sts = Inr (sb', i')" "req E i s" "all_req (req E) (advance i s) sts"
      using Cons.prems(2,4,9) by (auto simp: res_iff stmt_ok_def split: option.splits)
    obtain tys1 ch where g: "grows sb sb1 tys1 ch"
      using step_grows [OF Cons.prems(1) _ s(2)] Cons.prems(9) s(1) by (auto simp: stmt_ok_def)
    obtain tys2 out2 where r: "grows sb1 sb' tys2 out2"
      using loop_grows [OF grows_wf [OF g] flat_stmts_Cons [OF chunk_ok_flat [OF Cons.prems(9)]] s(3)]
      by blast
    have eq: "tys = tys1 @ tys2" "out = ch @ out2"
      using grows_unique [OF grows_trans [OF g r] Cons.prems(5)] by auto
    obtain dcm where d: "chunk_ok E gw dc [Some s] dcm" "chunk_ok E gw dcm sts dc1"
      using Cons.prems(9) s(1) by auto
    then have len: "length dcm = types_used E"
      using countStmt_ext(2) [of E dc "Some s" dcm E] Cons.prems(7) by auto
    have "types (tyenv sb') = types (tyenv sb1) @ tys2"
      using r by (simp add: grows_def)
    note first = step_sane [OF Cons.prems(1) s(4) Cons.prems(3) s(2) g Cons.prems(6,7,8) d(1) this]
    have sb1: "types (tyenv sb1) = types E @ (xs @ tys1)"
      using g Cons.prems(6) by (simp add: grows_def)
    have req1: "all_req (req E) i1 sts"
      using s(5) step_imark [OF Cons.prems(1) s(2)] by simp
    obtain dc2 where "chunk_ok (tyenv sb') gw (dcm @ (mid @ replicate (length tys1) 1)
        @ replicate (length tys2) 0) out2 dc2"
      using Cons.IH [OF grows_wf [OF g] req1 Cons.prems(3) s(3) r sb1 len _ d(2),
          of "mid @ replicate (length tys1) 1"]
        Cons.prems(8) by auto
    with first show ?thesis
      unfolding eq by (auto simp: chunk_ok_append)
  qed
qed

lemma loop_total:
  "wf_sb sb \<Longrightarrow> all_req (req E) i sts \<Longrightarrow> \<exists>r. stmt_loop (step E) sb i sts = Inr r"
proof (induction "req E" i sts arbitrary: sb rule: all_req.induct)
  case (3 i st sts)
  show ?case
  proof (cases "st = Ist_NoOp")
    case False
    then obtain sb1 i1 where s: "step E sb i st = Inr (sb1, i1)" "wf_sb sb1"
      using step_total [OF 3(2), of E i st] 3(3) by auto
    moreover have "i1 = advance i st"
      using step_imark [OF 3(2) s(1)] .
    ultimately show ?thesis
      using 3(1) [of sb1] 3(3) False by simp
  qed (use 3 in auto)
qed auto

end

text \<open>The part of a block from its first IMark on.\<close>

fun from_first_imark :: "IRStmt option list \<Rightarrow> IRStmt option list" where
  "from_first_imark (Some (Ist_IMark a l d) # sts) = Some (Ist_IMark a l d) # sts"
| "from_first_imark (st # sts) = from_first_imark sts"
| "from_first_imark [] = []"

lemma copy_preamble_rest: "copy_preamble sb sts = Inr (sb', rest) \<Longrightarrow> rest = from_first_imark sts"
  by (induction sts arbitrary: sb rule: from_first_imark.induct) (auto simp: res_iff)

text \<open>The block properties, once for every tool.\<close>

context stmt_instrumenter
begin

lemma translate_woven:
  assumes "translate_stmts step sbIn = Inr sbOut" "wf_env (tyenv sbIn)" "flat_stmts (stmts sbIn)"
  shows "\<exists>tys. types (tyenv sbOut) = types (tyenv sbIn) @ tys \<and> (\<forall>ty\<in>set tys. tool_type ty)
    \<and> woven fns (types_used (tyenv sbIn)) (stmts sbIn) (stmts sbOut)
    \<and> sb_next sbOut = sb_next sbIn \<and> sb_jumpkind sbOut = sb_jumpkind sbIn
    \<and> sb_offsIP sbOut = sb_offsIP sbIn \<and> wf_sb sbOut"
proof -
  note flat = assms(3)
  obtain sb0 sb1 rest i where s: "deepCopyIRSBExceptStmts sbIn = Inr sb0"
      "copy_preamble sb0 (stmts sbIn) = Inr (sb1, rest)"
      "stmt_loop (step (tyenv sbIn)) sb1 (0, 0) rest = Inr (sbOut, i)"
    using assms(1) by (auto simp: translate_stmts_def res_iff)
  obtain nx nx' where "sb_next sbIn = Some nx" "deepCopyIRExpr nx = Inr nx'"
    using s(1) by (auto simp: deepCopyIRSBExceptStmts_def res_iff)
  from deepCopyIRSBExceptStmts_ok [OF this assms(2)] s(1)
  have sb0: "wf_sb sb0" "stmts sb0 = []" "types (tyenv sb0) = types (tyenv sbIn)"
      "sb_next sb0 = sb_next sbIn" "sb_jumpkind sb0 = sb_jumpkind sbIn"
      "sb_offsIP sb0 = sb_offsIP sbIn" by auto
  obtain pre where p: "stmts sbIn = pre @ rest" "grows sb0 sb1 [] pre"
    using copy_preamble_grows [OF sb0(1) s(2)] by blast
  obtain tys out where g: "grows sb1 sbOut tys out" "woven fns (types_used (tyenv sb1)) rest out"
      "\<forall>ty\<in>set tys. tool_type ty"
    using loop_grows [OF grows_wf [OF p(2)] _ s(3)] flat p(1) by (auto simp: flat_stmts_def)
  have "woven fns (types_used (tyenv sbIn)) (pre @ rest) (pre @ out)"
    using g(2) p(2) sb0(3) by (intro woven_append woven_refl) (simp add: grows_def)
  with g(1,3) p sb0 show ?thesis by (auto simp: grows_def)
qed

lemma translate_sane:
  assumes "translate_stmts step sbIn = Inr sbOut" "wf_env (tyenv sbIn)"
    and sane: "sanityCheckIRSB sbIn True gw = Inr ()"
    and req: "all_req (req (tyenv sbIn)) (0, 0) (from_first_imark (stmts sbIn))"
  shows "sanityCheckIRSB sbOut True gw = Inr ()"
proof -
  have flat: "flat_stmts (stmts sbIn)"
    using sane chunk_ok_flat by (auto simp: sanityCheckIRSB_iff)
  obtain tysW where W: "types (tyenv sbOut) = types (tyenv sbIn) @ tysW"
      "\<forall>ty\<in>set tysW. tool_type ty" "sb_next sbOut = sb_next sbIn"
      "sb_offsIP sbOut = sb_offsIP sbIn" "wf_sb sbOut"
    using translate_woven [OF assms(1,2) flat] by blast
  obtain sb0 sb1 rest i where s: "deepCopyIRSBExceptStmts sbIn = Inr sb0"
      "copy_preamble sb0 (stmts sbIn) = Inr (sb1, rest)"
      "stmt_loop (step (tyenv sbIn)) sb1 (0, 0) rest = Inr (sbOut, i)"
    using assms(1) by (auto simp: translate_stmts_def res_iff)
  obtain nx nx' where nx: "sb_next sbIn = Some nx" "deepCopyIRExpr nx = Inr nx'"
    using s(1) by (auto simp: deepCopyIRSBExceptStmts_def res_iff)
  from deepCopyIRSBExceptStmts_ok [OF this assms(2)] s(1)
  have sb0: "wf_sb sb0" "stmts sb0 = []" "types (tyenv sb0) = types (tyenv sbIn)" by auto
  obtain pre where p: "stmts sbIn = pre @ rest" "grows sb0 sb1 [] pre"
    using copy_preamble_grows [OF sb0(1) s(2)] by blast
  obtain tys out where g: "grows sb1 sbOut tys out"
    using loop_grows [OF grows_wf [OF p(2)] _ s(3)] flat p(1) by (auto simp: flat_stmts_def)
  have sb1: "types (tyenv sb1) = types (tyenv sbIn) @ []" and tys: "tysW = tys"
    using p(2) g sb0(3) W(1) by (auto simp: grows_def)
  have ext: "env_ext (tyenv sbIn) (tyenv sbOut)"
    using W(1) by (auto simp: env_ext_def)
  let ?z = "replicate (types_used (tyenv sbIn)) 0"
  obtain dc dcm where dc: "chunk_ok (tyenv sbIn) gw ?z pre dcm" "chunk_ok (tyenv sbIn) gw dcm rest dc"
    using sane p(1) by (auto simp: sanityCheckIRSB_iff chunk_ok_append)
  have first: "chunk_ok (tyenv sbOut) gw (?z @ replicate (length tys) 0) pre (dcm @ replicate (length tys) 0)"
    using dc(1) ext by (rule chunk_ok_ext) simp
  have "length dcm = types_used (tyenv sbIn)"
    using chunk_ok_length [OF dc(1)] by simp
  then obtain dc2 where "chunk_ok (tyenv sbOut) gw (dcm @ [] @ replicate (length tys) 0) out dc2"
    using loop_sane [OF grows_wf [OF p(2)] _ _ s(3) g sb1 _ _ dc(2), of "[]"] req sane
      copy_preamble_rest [OF s(2)] by (auto simp: sanityCheckIRSB_iff)
  then have "\<exists>dc. chunk_ok (tyenv sbOut) gw (replicate (types_used (tyenv sbOut)) 0) (stmts sbOut) dc"
    using first p(2) g sb0(2) W(1) tys by (auto simp: grows_def replicate_add chunk_ok_append)
  moreover have "typeOfIRExpr (tyenv sbIn) nx = Inr gw \<Longrightarrow> typeOfIRExpr (tyenv sbOut) nx = Inr gw"
    by (rule typeOfIRExpr_ext [OF ext])
  ultimately show ?thesis
    using sane W nx(1) by (auto simp: sanityCheckIRSB_iff wf_sb_def tool_type_plausible)
qed

lemma translate_total:
  assumes "wf_env (tyenv sbIn)" "sb_next sbIn = Some nx" "deepCopyIRExpr nx = Inr nx'"
    and "None \<notin> set (stmts sbIn)"
    and "all_req (req (tyenv sbIn)) (0, 0) (from_first_imark (stmts sbIn))"
  shows "\<exists>sbOut. translate_stmts step sbIn = Inr sbOut"
proof -
  obtain sb0 where s0: "deepCopyIRSBExceptStmts sbIn = Inr sb0" "wf_sb sb0"
    using deepCopyIRSBExceptStmts_ok [OF assms(2,3,1)] by blast
  obtain sb1 rest where s1: "copy_preamble sb0 (stmts sbIn) = Inr (sb1, rest)"
    using copy_preamble_ok [OF s0(2) assms(4)] by auto
  have "wf_sb sb1" "rest = from_first_imark (stmts sbIn)"
    using copy_preamble_grows [OF s0(2) s1] grows_wf copy_preamble_rest [OF s1] by blast+
  then obtain r where "stmt_loop (step (tyenv sbIn)) sb1 (0, 0) rest = Inr r"
    using loop_total assms(5) by blast
  with s0(1) s1 show ?thesis by (cases r) (simp add: translate_stmts_def)
qed

end

end
