(* ===== verification/Tool_Access.thy ===== *)
theory Tool_Access
  imports Tool_Instrument
begin

text \<open>
  The memory accesses of a statement, as \<open>ct_instrument\<close> (\<open>cstracer/ct_main.c\<close>) and
  \<open>cl_instrument\<close> (\<open>ctlite/cl_main.c\<close>) find them; the two functions treat these statements in
  the same words. \<open>accesses\<close> lists them with their sizes, \<open>instrument_accesses\<close> inserts one call
  for each.

  The locale \<open>access_calls\<close> is the interface to the two functions that insert the calls
  (\<open>instrument_load\<close> and \<open>instrument_store\<close>, which differ between the tools): each appends one
  well-formed call of a helper of the tool. From it: the calls inserted for the accesses of a statement
  leave the block sane, and they can be inserted when sizes and addresses are in range.
\<close>

datatype access = Access_load IRExpr int "IRExpr option" | Access_store IRExpr int "IRExpr option"

fun acc_addr :: "access \<Rightarrow> IRExpr" where
  "acc_addr (Access_load a _ _) = a"
| "acc_addr (Access_store a _ _) = a"

fun acc_size :: "access \<Rightarrow> int" where
  "acc_size (Access_load _ n _) = n"
| "acc_size (Access_store _ n _) = n"

fun acc_guard :: "access \<Rightarrow> IRExpr option" where
  "acc_guard (Access_load _ _ g) = g"
| "acc_guard (Access_store _ _ g) = g"

text \<open>The type a statement stores, which must not be \<open>Ity_INVALID\<close>, and its size.\<close>

definition stored_size :: "IRTypeEnv \<Rightarrow> IRExpr \<Rightarrow> int res" where
  "stored_size E dat =
     bindR (typeOfIRExpr E dat) (\<lambda>type.
     bindR (assertR (type \<noteq> Ity_INVALID) (ToolAssert ''type != Ity_INVALID'')) (\<lambda>_. sizeofIRType type))"

fun accesses :: "IRTypeEnv \<Rightarrow> IRStmt \<Rightarrow> access list res" where
  "accesses E (Ist_WrTmp _ dat) =
     (case dat of
        Iex_Load _ ty addr \<Rightarrow> bindR (sizeofIRType ty) (\<lambda>n. Inr [Access_load addr n None])
      | _ \<Rightarrow> Inr [])"
| "accesses E (Ist_Store _ addr dat) =
     bindR (stored_size E dat) (\<lambda>n. Inr [Access_store addr n None])"
| "accesses E (Ist_StoreG sg) =
     bindR (stored_size E (sg_data sg)) (\<lambda>n. Inr [Access_store (sg_addr sg) n (Some (sg_guard sg))])"
| "accesses E (Ist_LoadG lg) =
     bindR (typeOfIRLoadGOp (lg_cvt lg)) (\<lambda>(typeWide, type).
     bindR (assertR (type \<noteq> Ity_INVALID) (ToolAssert ''type != Ity_INVALID'')) (\<lambda>_.
     bindR (sizeofIRType type) (\<lambda>n. Inr [Access_load (lg_addr lg) n (Some (lg_guard lg))])))"
| "accesses E (Ist_Dirty d) =
     (if d_mFx d \<noteq> Ifx_None then
        (case d_mAddr d of
           None \<Rightarrow> Inl (ToolAssert ''d->mAddr != NULL'')
         | Some a \<Rightarrow>
             bindR (assertR (d_mSize d \<noteq> 0) (ToolAssert ''d->mSize != 0'')) (\<lambda>_.
             Inr ((if d_mFx d = Ifx_Read \<or> d_mFx d = Ifx_Modify
                   then [Access_load a (d_mSize d) None] else [])
                  @ (if d_mFx d = Ifx_Write \<or> d_mFx d = Ifx_Modify
                     then [Access_store a (d_mSize d) None] else []))))
      else
        bindR (assertR (d_mAddr d = None) (ToolAssert ''d->mAddr == NULL'')) (\<lambda>_.
        bindR (assertR (d_mSize d = 0) (ToolAssert ''d->mSize == 0'')) (\<lambda>_. Inr [])))"
| "accesses E (Ist_CAS cas) =
     bindR (typeOfIRExpr E (cas_dataLo cas)) (\<lambda>dataTy.
     bindR (sizeofIRType dataTy) (\<lambda>n.
     let dataSize = (if cas_dataHi cas \<noteq> None then n * 2 else n)
     in Inr [Access_load (cas_addr cas) dataSize None, Access_store (cas_addr cas) dataSize None]))"
| "accesses E (Ist_LLSC _ result addr storedata) =
     (case storedata of
        None \<Rightarrow>
          bindR (typeOfIRTemp E result) (\<lambda>dataTy.
          bindR (sizeofIRType dataTy) (\<lambda>n. Inr [Access_load addr n None]))
      | Some sd \<Rightarrow>
          bindR (typeOfIRExpr E sd) (\<lambda>dataTy.
          bindR (sizeofIRType dataTy) (\<lambda>n. Inr [Access_store addr n None])))"
| "accesses E _ = Inr []"

type_synonym inserter = "IRSB \<Rightarrow> IRExpr \<Rightarrow> int \<Rightarrow> IRExpr option \<Rightarrow> IRSB res"

fun instrument_access :: "inserter \<Rightarrow> inserter \<Rightarrow> IRSB \<Rightarrow> access \<Rightarrow> IRSB res" where
  "instrument_access ld st sb (Access_load a n g) = ld sb a n g"
| "instrument_access ld st sb (Access_store a n g) = st sb a n g"

definition instrument_accesses :: "inserter \<Rightarrow> inserter \<Rightarrow> IRTypeEnv \<Rightarrow> IRSB \<Rightarrow> IRStmt \<Rightarrow> IRSB res" where
  "instrument_accesses ld st E sb s =
     bindR (accesses E s) (\<lambda>as. foldR (instrument_access ld st) sb as)"

section \<open>Addresses of a sane statement\<close>

lemma acc_sane:
  assumes "stmt_ok E gw (Some st)" "useBeforeDef_Stmt E dc st = Inr ()" "accesses E st = Inr as"
    and "a \<in> set as"
  shows "isIRAtom (acc_addr a) \<and> useBeforeDef_Expr E dc (acc_addr a) = Inr ()
     \<and> (\<forall>g. acc_guard a = Some g \<longrightarrow> guard_ok E gw g)"
proof (cases st)
  case (Ist_WrTmp t e)
  then show ?thesis using assms by (cases e) (auto simp: stmt_ok_def res_iff)
next
  case (Ist_Dirty d)
  then show ?thesis using assms
    by (auto simp: stmt_ok_def res_iff split: if_splits option.splits)
next
  case (Ist_LLSC e r a sd)
  then show ?thesis using assms
    by (cases sd) (auto simp: stmt_ok_def res_iff)
qed (use assms in \<open>auto simp: stmt_ok_def res_iff guard_ok_def Let_def\<close>)

text \<open>What the tools need of an access beyond sanity: a size their assertion accepts and an address
  that is not a truth value and, when constant, 64 bits wide.\<close>

fun good_addr :: "IRTypeEnv \<Rightarrow> IRExpr \<Rightarrow> bool" where
  "good_addr E (Iex_RdTmp t) = (case typeOfIRTemp E t of Inl _ \<Rightarrow> False | Inr ty \<Rightarrow> ty \<noteq> Ity_I1)"
| "good_addr E (Iex_Const c) = isOk (Ico_as_U64 c)"
| "good_addr E _ = False"

definition MAX_DSIZE :: int where "MAX_DSIZE = 512"

definition acc_ok :: "IRTypeEnv \<Rightarrow> access \<Rightarrow> bool" where
  "acc_ok E a \<longleftrightarrow> good_addr E (acc_addr a) \<and> 1 \<le> acc_size a \<and> acc_size a \<le> MAX_DSIZE"

definition accs_ok :: "IRTypeEnv \<Rightarrow> IRStmt \<Rightarrow> bool" where
  "accs_ok E st = (case accesses E st of Inl _ \<Rightarrow> False | Inr as \<Rightarrow> list_all (acc_ok E) as)"

lemma accs_okD: "accs_ok E st \<Longrightarrow> \<exists>as. accesses E st = Inr as \<and> (\<forall>a\<in>set as. acc_ok E a)"
  by (auto simp: accs_ok_def list_all_iff split: sum.splits)

lemma good_addr_typed: "good_addr E a \<Longrightarrow> isIRAtom a \<and> (\<exists>t. typeOfIRExpr E a = Inr t \<and> t \<noteq> Ity_I1)"
proof (cases a)
  case (Iex_Const c)
  then show "good_addr E a \<Longrightarrow> ?thesis" by (cases c) auto
qed (auto split: sum.splits)

lemma good_addr_atom: "good_addr E a \<Longrightarrow> isIRAtom a"
  by (cases a) auto

section \<open>The interface to the inserting functions\<close>

definition inserts_call :: "string set \<Rightarrow> inserter \<Rightarrow> bool" where
  "inserts_call fns ins \<longleftrightarrow> (\<forall>sb a n g sb'. wf_sb sb \<longrightarrow> ins sb a n g = Inr sb' \<longrightarrow>
     (\<exists>d. sb' = push_stmt sb (Some (Ist_Dirty d)) \<and> tool_call fns d
        \<and> (\<forall>F gw dc. arg_ok F dc a \<longrightarrow> (\<forall>e. g = Some e \<longrightarrow> guard_ok F gw e) \<longrightarrow> call_ok F gw dc d)))"

lemma inserts_callD:
  assumes "inserts_call fns ins" "wf_sb sb" "ins sb a n g = Inr sb'"
  obtains d where "sb' = push_stmt sb (Some (Ist_Dirty d))" "tool_call fns d"
    "\<And>F gw dc. arg_ok F dc a \<Longrightarrow> (\<And>e. g = Some e \<Longrightarrow> guard_ok F gw e) \<Longrightarrow> call_ok F gw dc d"
  using assms unfolding inserts_call_def by blast

locale access_calls =
  fixes ld :: inserter and sto :: inserter and fns :: "string set"
  assumes ld_call: "inserts_call fns ld"
    and sto_call: "inserts_call fns sto"
    and ld_total: "wf_sb sb \<Longrightarrow> good_addr E a \<Longrightarrow> 1 \<le> n \<Longrightarrow> n \<le> MAX_DSIZE \<Longrightarrow> \<exists>sb'. ld sb a n g = Inr sb'"
    and sto_total: "wf_sb sb \<Longrightarrow> good_addr E a \<Longrightarrow> 1 \<le> n \<Longrightarrow> n \<le> MAX_DSIZE \<Longrightarrow> \<exists>sb'. sto sb a n g = Inr sb'"
begin

lemma access_call:
  assumes "wf_sb sb" "instrument_access ld sto sb a = Inr sb'"
  obtains d where "sb' = push_stmt sb (Some (Ist_Dirty d))" "tool_call fns d"
    "\<And>F gw dc. arg_ok F dc (acc_addr a) \<Longrightarrow> (\<And>e. acc_guard a = Some e \<Longrightarrow> guard_ok F gw e) \<Longrightarrow>
       call_ok F gw dc d"
proof (cases a)
  case (Access_load x n g)
  then have "ld sb x n g = Inr sb'" using assms(2) by simp
  from inserts_callD [OF ld_call assms(1) this] that Access_load show ?thesis by auto
next
  case (Access_store x n g)
  then have "sto sb x n g = Inr sb'" using assms(2) by simp
  from inserts_callD [OF sto_call assms(1) this] that Access_store show ?thesis by auto
qed

lemma accesses_calls:
  assumes "wf_sb sb" "foldR (instrument_access ld sto) sb as = Inr sb'"
  shows "\<exists>out. grows sb sb' [] out \<and> (\<forall>t\<in>set out. \<exists>d. t = Some (Ist_Dirty d) \<and> tool_call fns d)
     \<and> (\<forall>F gw dc. (\<forall>a\<in>set as. arg_ok F dc (acc_addr a)
            \<and> (\<forall>e. acc_guard a = Some e \<longrightarrow> guard_ok F gw e)) \<longrightarrow> chunk_ok F gw dc out dc)"
  using assms
proof (induction as arbitrary: sb)
  case (Cons a as)
  then obtain sb1 where "instrument_access ld sto sb a = Inr sb1"
      and rest: "foldR (instrument_access ld sto) sb1 as = Inr sb'"
    by (auto simp: res_iff)
  from access_call [OF Cons.prems(1) this(1)] obtain d where
    d: "sb1 = push_stmt sb (Some (Ist_Dirty d))" "tool_call fns d"
    "\<And>F gw dc. arg_ok F dc (acc_addr a) \<Longrightarrow> (\<And>e. acc_guard a = Some e \<Longrightarrow> guard_ok F gw e) \<Longrightarrow>
       call_ok F gw dc d" by metis
  have "wf_sb sb1" using d(1) Cons.prems(1) by simp
  from Cons.IH [OF this rest] obtain out where out: "grows sb1 sb' [] out"
     "\<forall>t\<in>set out. \<exists>d. t = Some (Ist_Dirty d) \<and> tool_call fns d"
     "\<forall>F gw dc. (\<forall>a\<in>set as. arg_ok F dc (acc_addr a)
            \<and> (\<forall>e. acc_guard a = Some e \<longrightarrow> guard_ok F gw e)) \<longrightarrow> chunk_ok F gw dc out dc" by blast
  have "grows sb sb' [] (Some (Ist_Dirty d) # out)"
    using out(1) d(1) by (simp add: grows_def)
  moreover have "chunk_ok F gw dc (Some (Ist_Dirty d) # out) dc"
    if "\<forall>x\<in>set (a # as). arg_ok F dc (acc_addr x)
            \<and> (\<forall>e. acc_guard x = Some e \<longrightarrow> guard_ok F gw e)" for F gw dc
    using that d(3) out(3) by (intro chunk_ok_call) auto
  ultimately show ?case
    using out(2) d(2) by (intro exI [of _ "Some (Ist_Dirty d) # out"]) auto
qed (auto intro!: exI [of _ "[]"])

lemma accesses_wf:
  assumes "wf_sb sb" "instrument_accesses ld sto E sb st = Inr sb'"
  shows "wf_sb sb'"
proof -
  obtain as where "foldR (instrument_access ld sto) sb as = Inr sb'"
    using assms(2) by (auto simp: instrument_accesses_def res_iff)
  from accesses_calls [OF assms(1) this] show ?thesis by (elim exE conjE) (rule grows_wf)
qed

lemma accesses_total:
  "wf_sb sb \<Longrightarrow> \<forall>a\<in>set as. acc_ok E a \<Longrightarrow> \<exists>sb'. foldR (instrument_access ld sto) sb as = Inr sb'"
proof (induction as arbitrary: sb)
  case (Cons a as)
  then have "\<exists>sb1. instrument_access ld sto sb a = Inr sb1"
    using ld_total sto_total by (cases a) (auto simp: acc_ok_def)
  then obtain sb1 where sb1: "instrument_access ld sto sb a = Inr sb1" by blast
  from access_call [OF Cons.prems(1) this] have "wf_sb sb1"
    using Cons.prems(1) by (metis wf_push_stmt)
  with sb1 Cons show ?case by simp
qed simp

lemma accesses_step:
  assumes "wf_sb sb" "instrument_accesses ld sto E (push_stmt sb (Some st)) st = Inr sb'"
  shows "\<exists>post. grows sb sb' [] ([] @ [Some st] @ post)
     \<and> (\<forall>t\<in>set post. \<exists>d. t = Some (Ist_Dirty d) \<and> tool_call fns d)
     \<and> (\<forall>F gw dc dc1 r. accs_ok E st \<longrightarrow> chunk_ok E gw dc [Some st] dc1 \<longrightarrow>
          length dc = types_used E \<longrightarrow> env_ext E F \<longrightarrow> chunk_ok F gw (dc1 @ r) post (dc1 @ r))"
proof -
  obtain as where as: "accesses E st = Inr as"
      "foldR (instrument_access ld sto) (push_stmt sb (Some st)) as = Inr sb'"
    using assms(2) by (auto simp: instrument_accesses_def res_iff)
  have "wf_sb (push_stmt sb (Some st))" using assms(1) by simp
  from accesses_calls [OF this as(2)] obtain post where
    post: "grows (push_stmt sb (Some st)) sb' [] post"
      "\<forall>t\<in>set post. \<exists>d. t = Some (Ist_Dirty d) \<and> tool_call fns d"
    and ok: "\<And>F gw dc. (\<forall>a\<in>set as. arg_ok F dc (acc_addr a)
            \<and> (\<forall>e. acc_guard a = Some e \<longrightarrow> guard_ok F gw e)) \<Longrightarrow> chunk_ok F gw dc post dc" by blast
  have "chunk_ok F gw (dc1 @ r) post (dc1 @ r)"
    if h: "accs_ok E st" "chunk_ok E gw dc [Some st] dc1" "length dc = types_used E" "env_ext E F"
    for F gw dc dc1 r
  proof (rule ok, intro ballI conjI allI impI)
    fix a assume a: "a \<in> set as"
    have st: "stmt_ok E gw (Some st)" "useBeforeDef_Stmt E dc st = Inr ()" "counts_le dc dc1"
      using h(2) assignedOnce_Stmt_mono unfolding chunk_ok_single by auto
    have "acc_ok E a" using accs_okD [OF h(1)] as(1) a by auto
    then have "arg_ok E dc (acc_addr a)"
      using acc_sane [OF st(1,2) as(1) a] good_addr_typed
      by (auto simp: acc_ok_def arg_ok_def)
    then show "arg_ok F (dc1 @ r) (acc_addr a)"
      using st(3) h(3,4) by (intro arg_ok_mono)
    show "guard_ok F gw e" if "acc_guard a = Some e" for e
      using acc_sane [OF st(1,2) as(1) a] that guard_ok_ext [OF _ h(4)] by blast
  qed
  moreover have "grows sb sb' [] ([] @ [Some st] @ post)"
    using post(1) by (simp add: grows_def)
  ultimately show ?thesis using post(2) by blast
qed

lemma instrument_accesses_total:
  assumes "wf_sb sb" "accs_ok E st"
  shows "\<exists>sb'. instrument_accesses ld sto E sb st = Inr sb' \<and> wf_sb sb'"
proof -
  obtain as where as: "accesses E st = Inr as" "\<forall>a\<in>set as. acc_ok E a"
    using accs_okD [OF assms(2)] by blast
  then obtain sb' where sb': "foldR (instrument_access ld sto) sb as = Inr sb'"
    using accesses_total [OF assms(1)] by blast
  moreover have "wf_sb sb'" using accesses_calls [OF assms(1) sb'] grows_wf by blast
  ultimately show ?thesis using as by (simp add: instrument_accesses_def)
qed

lemma accesses_good:
  assumes "wf_sb sb" "instrument_accesses ld sto E (push_stmt sb (Some st)) st = Inr sb1"
    and out: "adds_calls fns sb1 sb' out" and ok: "ok \<Longrightarrow> accs_ok E st"
  shows "good_step fns E st sb sb' ok"
proof -
  from accesses_step [OF assms(1,2)]
  obtain post where post: "grows sb sb1 [] ([] @ [Some st] @ post)"
     "\<forall>t\<in>set post. \<exists>d. t = Some (Ist_Dirty d) \<and> tool_call fns d"
     "\<And>F gw dc dc1 r. accs_ok E st \<Longrightarrow> chunk_ok E gw dc [Some st] dc1 \<Longrightarrow>
          length dc = types_used E \<Longrightarrow> env_ext E F \<Longrightarrow> chunk_ok F gw (dc1 @ r) post (dc1 @ r)"
    by (elim exE conjE) (rule that; blast)
  show ?thesis
  proof (rule good_step_calls [OF adds_calls_refl [OF assms(1)], where post = "post @ out"])
    show "grows sb sb' [] ([] @ [Some st] @ post @ out)"
      using grows_trans [OF post(1), of sb' "[]" out] out by (simp add: adds_calls_def)
    show "\<forall>t\<in>set (post @ out). \<exists>d. t = Some (Ist_Dirty d) \<and> tool_call fns d"
      using post(2) out by (auto simp only: adds_calls_def set_append)
    show "chunk_ok F gw (dc1 @ r) (post @ out) (dc1 @ r)"
      if "ok" "chunk_ok E gw dc [Some st] dc1" "length dc = types_used E" "env_ext E F" for F gw dc dc1 r
      using post(3) [OF ok [OF that(1)] that(2-4)] out unfolding chunk_ok_append adds_calls_def by blast
  qed
qed

end

end
