(* ===== verification/Guest_Layout.thy ===== *)
theory Guest_Layout
  imports Base_Prelude
begin

text \<open>
  The guest register files and the tracer's register codes.

  \<^item> \<open>VexGuestAMD64State\<close> and \<open>VexGuestARM64State\<close> are the structs of VEX
    (\<open>VEX/pub/libvex_guest_amd64.h\<close>, \<open>VEX/pub/libvex_guest_arm64.h\<close>) as lists of members, and
    \<open>layout\<close> computes their offsets by the rules of C (each member at the next multiple of its
    alignment; \<open>U128\<close> and \<open>U256\<close> are arrays of \<open>UInt\<close>).
  \<^item> \<open>PIN_REG\<close> and \<open>ARM64_REG\<close> are the enums of \<open>cstracer/x86-64regs.h\<close> and
    \<open>cstracer/arm64regs.h\<close>, and \<open>enum_values\<close> numbers their enumerators by the rules of C.
  \<^item> \<open>offset_to_x86_64_register\<close> and \<open>offset_to_arm64_register\<close> are the functions of
    \<open>cstracer/ct_main.c\<close> that turn a guest-state offset into such a code.

  The lemmas compare the two functions with the registers that the structs really hold at each
  offset: \<open>amd64_register\<close> and \<open>arm64_register\<close> are the intended codes of the members.
\<close>

section \<open>Platforms\<close>

text \<open>The two targets the tools are built for, and the lengths of their instructions
  (\<open>include/pub_tool_machine.h\<close>).\<close>

datatype platform = Amd64 | Arm64

fun VG_MIN_INSTR_SZB :: "platform \<Rightarrow> 32 word" where
  "VG_MIN_INSTR_SZB Amd64 = 1"
| "VG_MIN_INSTR_SZB Arm64 = 4"

fun VG_MAX_INSTR_SZB :: "platform \<Rightarrow> 32 word" where
  "VG_MAX_INSTR_SZB Amd64 = 16"
| "VG_MAX_INSTR_SZB Arm64 = 4"

fun VG_CLREQ_SZB :: "platform \<Rightarrow> 32 word" where
  "VG_CLREQ_SZB Amd64 = 19"
| "VG_CLREQ_SZB Arm64 = 20"

definition instr_size_ok :: "platform \<Rightarrow> 32 word \<Rightarrow> bool" where
  "instr_size_ok p isize \<longleftrightarrow>
     (VG_MIN_INSTR_SZB p \<le> isize \<and> isize \<le> VG_MAX_INSTR_SZB p) \<or> VG_CLREQ_SZB p = isize"

section \<open>Register codes\<close>

text \<open>The enumerators that \<open>ct_main.c\<close> names, with the numbers C gives them: those of the enum
  \<open>PIN_REG\<close> of \<open>x86-64regs.h\<close> (\<open>REG_RDI\<close> is \<open>REG_RBASE\<close>, that is 3; \<open>REG_R9\<close> to
  \<open>REG_R15\<close> and \<open>REG_YMM1\<close> to \<open>REG_YMM15\<close> follow \<open>REG_R8\<close> and \<open>REG_YMM0\<close>), then those
  of the enum \<open>ARM64_REG\<close> of \<open>arm64regs.h\<close>.\<close>


definition REG_RDI :: int where "REG_RDI = 3"

definition REG_RSI :: int where "REG_RSI = 4"

definition REG_RBP :: int where "REG_RBP = 5"

definition REG_RSP :: int where "REG_RSP = 6"

definition REG_RBX :: int where "REG_RBX = 7"

definition REG_RDX :: int where "REG_RDX = 8"

definition REG_RCX :: int where "REG_RCX = 9"

definition REG_RAX :: int where "REG_RAX = 10"

definition REG_R8 :: int where "REG_R8 = 11"

definition REG_SEG_FS :: int where "REG_SEG_FS = 23"

definition REG_RFLAGS :: int where "REG_RFLAGS = 25"

definition REG_RIP :: int where "REG_RIP = 26"

definition REG_YMM0 :: int where "REG_YMM0 = 123"

definition REG_MXCSR :: int where "REG_MXCSR = 195"

definition REG_X0 :: int where "REG_X0 = 1"

definition REG_X30 :: int where "REG_X30 = 31"

definition REG_XSP :: int where "REG_XSP = 32"

definition REG_PC :: int where "REG_PC = 33"

definition REG_FLAGS :: int where "REG_FLAGS = 34"

definition REG_Q0 :: int where "REG_Q0 = 35"

definition REG_QFLAGS :: int where "REG_QFLAGS = 67"

definition REG_UTHRD :: int where "REG_UTHRD = 68"

lemmas reg_codes =
  REG_RDI_def REG_RSI_def REG_RBP_def REG_RSP_def REG_RBX_def REG_RDX_def
  REG_RCX_def REG_RAX_def REG_R8_def REG_SEG_FS_def REG_RFLAGS_def REG_RIP_def
  REG_YMM0_def REG_MXCSR_def REG_X0_def REG_X30_def REG_XSP_def REG_PC_def
  REG_FLAGS_def REG_Q0_def REG_QFLAGS_def REG_UTHRD_def

section \<open>Struct layout\<close>

datatype cty = CULong | CUInt | CUChar | CArr cty nat

fun sizeof_cty :: "cty \<Rightarrow> nat" where
  "sizeof_cty CULong = 8"
| "sizeof_cty CUInt = 4"
| "sizeof_cty CUChar = 1"
| "sizeof_cty (CArr t n) = n * sizeof_cty t"

fun alignof_cty :: "cty \<Rightarrow> nat" where
  "alignof_cty CULong = 8"
| "alignof_cty CUInt = 4"
| "alignof_cty CUChar = 1"
| "alignof_cty (CArr t n) = alignof_cty t"

definition align_up :: "nat \<Rightarrow> nat \<Rightarrow> nat" where
  "align_up n a = (n + (a - 1)) div a * a"

fun layout :: "nat \<Rightarrow> (string \<times> cty) list \<Rightarrow> (string \<times> nat \<times> nat) list" where
  "layout off [] = []"
| "layout off ((n, t) # fs) =
     (n, align_up off (alignof_cty t), sizeof_cty t)
       # layout (align_up off (alignof_cty t) + sizeof_cty t) fs"

definition VexGuestAMD64State :: "(string \<times> cty) list" where
  "VexGuestAMD64State = [
     (''host_EvC_FAILADDR'', CULong), (''host_EvC_COUNTER'', CUInt), (''pad0'', CUInt),
     (''guest_RAX'', CULong), (''guest_RCX'', CULong), (''guest_RDX'', CULong),
     (''guest_RBX'', CULong), (''guest_RSP'', CULong), (''guest_RBP'', CULong),
     (''guest_RSI'', CULong), (''guest_RDI'', CULong), (''guest_R8'', CULong),
     (''guest_R9'', CULong), (''guest_R10'', CULong), (''guest_R11'', CULong),
     (''guest_R12'', CULong), (''guest_R13'', CULong), (''guest_R14'', CULong),
     (''guest_R15'', CULong), (''guest_CC_OP'', CULong), (''guest_CC_DEP1'', CULong),
     (''guest_CC_DEP2'', CULong), (''guest_CC_NDEP'', CULong), (''guest_DFLAG'', CULong),
     (''guest_RIP'', CULong), (''guest_ACFLAG'', CULong), (''guest_IDFLAG'', CULong),
     (''guest_FS_CONST'', CULong), (''guest_SSEROUND'', CULong), (''guest_YMM0'', CArr CUInt 8),
     (''guest_YMM1'', CArr CUInt 8), (''guest_YMM2'', CArr CUInt 8),
     (''guest_YMM3'', CArr CUInt 8), (''guest_YMM4'', CArr CUInt 8),
     (''guest_YMM5'', CArr CUInt 8), (''guest_YMM6'', CArr CUInt 8),
     (''guest_YMM7'', CArr CUInt 8), (''guest_YMM8'', CArr CUInt 8),
     (''guest_YMM9'', CArr CUInt 8), (''guest_YMM10'', CArr CUInt 8),
     (''guest_YMM11'', CArr CUInt 8), (''guest_YMM12'', CArr CUInt 8),
     (''guest_YMM13'', CArr CUInt 8), (''guest_YMM14'', CArr CUInt 8),
     (''guest_YMM15'', CArr CUInt 8), (''guest_YMM16'', CArr CUInt 8), (''guest_FTOP'', CUInt),
     (''pad1'', CUInt), (''guest_FPREG'', CArr CULong 8), (''guest_FPTAG'', CArr CUChar 8),
     (''guest_FPROUND'', CULong), (''guest_FC3210'', CULong), (''guest_EMNOTE'', CUInt),
     (''pad2'', CUInt), (''guest_CMSTART'', CULong), (''guest_CMLEN'', CULong),
     (''guest_NRADDR'', CULong), (''guest_SC_CLASS'', CULong), (''guest_GS_CONST'', CULong),
     (''guest_IP_AT_SYSCALL'', CULong), (''pad3'', CULong)]"

definition VexGuestARM64State :: "(string \<times> cty) list" where
  "VexGuestARM64State = [
     (''host_EvC_FAILADDR'', CULong), (''host_EvC_COUNTER'', CUInt), (''pad0'', CUInt),
     (''guest_X0'', CULong), (''guest_X1'', CULong), (''guest_X2'', CULong),
     (''guest_X3'', CULong), (''guest_X4'', CULong), (''guest_X5'', CULong),
     (''guest_X6'', CULong), (''guest_X7'', CULong), (''guest_X8'', CULong),
     (''guest_X9'', CULong), (''guest_X10'', CULong), (''guest_X11'', CULong),
     (''guest_X12'', CULong), (''guest_X13'', CULong), (''guest_X14'', CULong),
     (''guest_X15'', CULong), (''guest_X16'', CULong), (''guest_X17'', CULong),
     (''guest_X18'', CULong), (''guest_X19'', CULong), (''guest_X20'', CULong),
     (''guest_X21'', CULong), (''guest_X22'', CULong), (''guest_X23'', CULong),
     (''guest_X24'', CULong), (''guest_X25'', CULong), (''guest_X26'', CULong),
     (''guest_X27'', CULong), (''guest_X28'', CULong), (''guest_X29'', CULong),
     (''guest_X30'', CULong), (''guest_XSP'', CULong), (''guest_PC'', CULong),
     (''guest_CC_OP'', CULong), (''guest_CC_DEP1'', CULong), (''guest_CC_DEP2'', CULong),
     (''guest_CC_NDEP'', CULong), (''guest_TPIDR_EL0'', CULong), (''guest_Q0'', CArr CUInt 4),
     (''guest_Q1'', CArr CUInt 4), (''guest_Q2'', CArr CUInt 4), (''guest_Q3'', CArr CUInt 4),
     (''guest_Q4'', CArr CUInt 4), (''guest_Q5'', CArr CUInt 4), (''guest_Q6'', CArr CUInt 4),
     (''guest_Q7'', CArr CUInt 4), (''guest_Q8'', CArr CUInt 4), (''guest_Q9'', CArr CUInt 4),
     (''guest_Q10'', CArr CUInt 4), (''guest_Q11'', CArr CUInt 4), (''guest_Q12'', CArr CUInt 4),
     (''guest_Q13'', CArr CUInt 4), (''guest_Q14'', CArr CUInt 4), (''guest_Q15'', CArr CUInt 4),
     (''guest_Q16'', CArr CUInt 4), (''guest_Q17'', CArr CUInt 4), (''guest_Q18'', CArr CUInt 4),
     (''guest_Q19'', CArr CUInt 4), (''guest_Q20'', CArr CUInt 4), (''guest_Q21'', CArr CUInt 4),
     (''guest_Q22'', CArr CUInt 4), (''guest_Q23'', CArr CUInt 4), (''guest_Q24'', CArr CUInt 4),
     (''guest_Q25'', CArr CUInt 4), (''guest_Q26'', CArr CUInt 4), (''guest_Q27'', CArr CUInt 4),
     (''guest_Q28'', CArr CUInt 4), (''guest_Q29'', CArr CUInt 4), (''guest_Q30'', CArr CUInt 4),
     (''guest_Q31'', CArr CUInt 4), (''guest_QCFLAG'', CArr CUInt 4), (''guest_EMNOTE'', CUInt),
     (''guest_CMSTART'', CULong), (''guest_CMLEN'', CULong), (''guest_NRADDR'', CULong),
     (''guest_IP_AT_SYSCALL'', CULong), (''guest_FPCR'', CUInt), (''guest_LLSC_SIZE'', CULong),
     (''guest_LLSC_ADDR'', CULong), (''guest_LLSC_DATA'', CULong), (''pad_end_1'', CULong)]"

definition amd64_layout :: "(string \<times> nat \<times> nat) list" where
  "amd64_layout = layout 0 VexGuestAMD64State"

definition arm64_layout :: "(string \<times> nat \<times> nat) list" where
  "arm64_layout = layout 0 VexGuestARM64State"

text \<open>Offset and size of the member with a given position in its struct.\<close>

definition member_off :: "(string \<times> nat \<times> nat) list \<Rightarrow> nat \<Rightarrow> nat" where
  "member_off ls i = fst (snd (ls ! i))"

definition member_size :: "(string \<times> nat \<times> nat) list \<Rightarrow> nat \<Rightarrow> nat" where
  "member_size ls i = snd (snd (ls ! i))"

section \<open>From offsets to register codes\<close>

definition offset_to_x86_64_register :: "int \<Rightarrow> int \<Rightarrow> int res" where
  "offset_to_x86_64_register offset sz =
     bindR (assertR (offset \<ge> 0) (ToolAssert ''offset >= 0'')) (\<lambda>_.
     if offset < 16 then Inr 0
     else if offset < 144 then
       (let k = (offset - 16) div 8 in
        if k = 0 then Inr REG_RAX else if k = 1 then Inr REG_RCX
        else if k = 2 then Inr REG_RDX else if k = 3 then Inr REG_RBX
        else if k = 4 then Inr REG_RSP else if k = 5 then Inr REG_RBP
        else if k = 6 then Inr REG_RSI else if k = 7 then Inr REG_RDI
        else if k = 8 then Inr REG_R8 else if k = 9 then Inr (REG_R8 + 1)
        else if k = 10 then Inr (REG_R8 + 2) else if k = 11 then Inr (REG_R8 + 3)
        else if k = 12 then Inr (REG_R8 + 4) else if k = 13 then Inr (REG_R8 + 5)
        else if k = 14 then Inr (REG_R8 + 6) else if k = 15 then Inr (REG_R8 + 7)
        else Inr 0)
     else if offset < 184 then Inr REG_RFLAGS
     else if offset < 192 then Inr REG_RIP
     else if offset < 200 then Inr REG_RFLAGS
     else if offset < 208 then Inr REG_SEG_FS
     else if offset < 216 then Inr REG_MXCSR
     else if offset < 728 then
       (let k = (offset - 216) div 32 in
        if 0 \<le> k \<and> k \<le> 15 then Inr (REG_YMM0 + k) else Inl (ToolAssert ''0''))
     else Inr 0)"

definition offset_to_arm64_register :: "int \<Rightarrow> int res" where
  "offset_to_arm64_register offset =
     bindR (assertR (offset \<ge> 0) (ToolAssert ''offset >= 0'')) (\<lambda>_.
     if offset < 16 then Inr 0
     else if offset < 256 then Inr (REG_X0 + (offset - 16) div 8)
     else if offset < 264 then Inr REG_X30
     else if offset < 272 then Inr REG_XSP
     else if offset < 280 then Inr REG_PC
     else if offset < 312 then Inr REG_FLAGS
     else if offset < 320 then Inr REG_UTHRD
     else if offset < 832 then Inr ((offset - 312) div 16 + REG_Q0)
     else if offset < 848 then Inr REG_QFLAGS
     else if offset < 896 then Inr 0
     else Inl (ToolAssert ''0''))"

text \<open>The registers that the members stand for, in the order of the structs: of amd64 up to
  \<open>guest_SSEROUND\<close>, of arm64 up to \<open>guest_TPIDR_EL0\<close>; the vector registers follow. Zero is the
  code for what is not traced.\<close>

definition amd64_codes :: "int list" where
  "amd64_codes = [0, 0, 0, REG_RAX, REG_RCX, REG_RDX, REG_RBX, REG_RSP, REG_RBP, REG_RSI, REG_RDI,
     REG_R8, REG_R8 + 1, REG_R8 + 2, REG_R8 + 3, REG_R8 + 4, REG_R8 + 5, REG_R8 + 6, REG_R8 + 7,
     REG_RFLAGS, REG_RFLAGS, REG_RFLAGS, REG_RFLAGS, REG_RFLAGS, REG_RIP, REG_RFLAGS,
     REG_RFLAGS, REG_SEG_FS, REG_MXCSR]"

definition arm64_codes :: "int list" where
  "arm64_codes = [0, 0, 0] @ map (\<lambda>i. REG_X0 + int i) [0..<31] @ [REG_XSP, REG_PC, REG_FLAGS,
     REG_FLAGS, REG_FLAGS, REG_FLAGS, REG_UTHRD]"

section \<open>Facts about layouts\<close>

lemma align_up_ge:
  assumes "0 < a"
  shows "n \<le> align_up n a"
  using div_mult_mod_eq [of "n + (a - 1)" a] mod_less_divisor [OF assms, of "n + (a - 1)"]
  unfolding align_up_def by linarith

lemma alignof_cty_pos: "0 < alignof_cty t"
  by (induction t) auto

text \<open>The members lie one after the other: no two overlap.\<close>

lemma layout_from:
  "(n, o', s) \<in> set (layout off fs) \<Longrightarrow> off \<le> o'"
proof (induction off fs rule: layout.induct)
  case (2 off n t fs)
  then show ?case
    using align_up_ge [OF alignof_cty_pos [of t], of off] by auto
qed simp

lemma layout_disjoint:
  "sorted_wrt (\<lambda>x y. fst (snd x) + snd (snd x) \<le> fst (snd y)) (layout off fs)"
proof (induction off fs rule: layout.induct)
  case (2 off n t fs)
  then show ?case
    using layout_from [of _ _ _ "align_up off (alignof_cty t) + sizeof_cty t" fs] by auto
qed simp

lemmas layout_eval = amd64_layout_def arm64_layout_def VexGuestAMD64State_def
  VexGuestARM64State_def align_up_def

lemma member_off_map: "i < length ls \<Longrightarrow> member_off ls i = map (fst \<circ> snd) ls ! i"
  by (simp add: member_off_def)

lemma member_size_map: "i < length ls \<Longrightarrow> member_size ls i = map (snd \<circ> snd) ls ! i"
  by (simp add: member_size_def)

section \<open>The amd64 registers\<close>

lemma amd64_offs: "map (fst \<circ> snd) amd64_layout = [0, 8, 12, 16, 24, 32, 40, 48, 56, 64, 72, 80, 88,
   96, 104, 112, 120, 128, 136, 144, 152, 160, 168, 176, 184, 192, 200, 208, 216, 224, 256, 288, 320,
   352, 384, 416, 448, 480, 512, 544, 576, 608, 640, 672, 704, 736, 768, 772, 776, 840, 848, 856, 864,
   868, 872, 880, 888, 896, 904, 912, 920]"
  by (simp add: layout_eval)

lemma amd64_sizes: "map (snd \<circ> snd) amd64_layout = [8, 4, 4, 8, 8, 8, 8, 8, 8, 8, 8, 8, 8,
   8, 8, 8, 8, 8, 8, 8, 8, 8, 8, 8, 8, 8, 8, 8, 8, 32, 32, 32, 32, 32, 32, 32, 32, 32, 32, 32, 32, 32,
   32, 32, 32, 32, 4, 4, 64, 8, 8, 8, 4, 4, 8, 8, 8, 8, 8, 8, 8]"
  by (simp add: layout_eval)

lemma amd64_count: "length amd64_layout = 61"
  using arg_cong [OF amd64_offs, of length] by simp

lemma cases_16: "q < (16::nat) \<Longrightarrow> q = 0 \<or> q = 1 \<or> q = 2 \<or> q = 3 \<or> q = 4 \<or> q = 5 \<or> q = 6 \<or> q = 7
   \<or> q = 8 \<or> q = 9 \<or> q = 10 \<or> q = 11 \<or> q = 12 \<or> q = 13 \<or> q = 14 \<or> q = 15"
  by arith

lemma x86_gpr:
  assumes "16 \<le> off" "off < 144"
  shows "offset_to_x86_64_register (int off) sz = Inr (amd64_codes ! (3 + (off - 16) div 8))"
proof -
  define q where "q = (off - 16) div 8"
  have "(int off - 16) div 8 = int q"
    using assms by (simp add: q_def of_nat_diff zdiv_int)
  moreover have "q < 16" using assms by (simp add: q_def)
  note cases_16 [OF this]
  ultimately show ?thesis
    unfolding q_def [symmetric] using assms
    by (elim disjE) (simp_all add: offset_to_x86_64_register_def amd64_codes_def)
qed

lemma x86_ymm:
  assumes "216 \<le> off" "off < 728"
  shows "offset_to_x86_64_register (int off) sz = Inr (REG_YMM0 + int ((off - 216) div 32))"
proof -
  have "(int off - 216) div 32 = int ((off - 216) div 32)"
    using assms by (simp add: of_nat_diff zdiv_int)
  moreover have "(off - 216) div 32 \<le> 15" using assms by simp
  ultimately show ?thesis
    using assms by (simp add: offset_to_x86_64_register_def Let_def)
qed

lemmas amd64_member = member_off_map member_size_map amd64_offs amd64_sizes amd64_count

lemma amd64_gpr_member:
  "q < 16 \<Longrightarrow> member_off amd64_layout (3 + q) = 16 + 8 * q \<and> member_size amd64_layout (3 + q) = 8"
  by (drule cases_16, elim disjE) (simp_all add: amd64_member)

lemma amd64_flag_member:
  "r < 7 \<Longrightarrow> member_off amd64_layout (19 + r) = 144 + 8 * r \<and> member_size amd64_layout (19 + r) = 8"
proof -
  assume "r < 7"
  then have "r = 0 \<or> r = 1 \<or> r = 2 \<or> r = 3 \<or> r = 4 \<or> r = 5 \<or> r = 6" by arith
  then show ?thesis by (elim disjE) (simp_all add: amd64_member)
qed

lemma amd64_ymm_member:
  "q < 16 \<Longrightarrow> member_off amd64_layout (29 + q) = 224 + 32 * q \<and> member_size amd64_layout (29 + q) = 32"
  by (drule cases_16, elim disjE) (simp_all add: amd64_member)

text \<open>The vector registers start eight bytes after the offset that the function subtracts.\<close>

lemma amd64_ymm_at:
  assumes "q < 16" "k < 32"
  shows "offset_to_x86_64_register (int (member_off amd64_layout (29 + q) + k)) sz =
    (if q = 15 \<and> 24 \<le> k then Inr 0 else Inr (REG_YMM0 + int q + (if k < 24 then 0 else 1)))"
proof (cases "q = 15 \<and> 24 \<le> k")
  case True
  then show ?thesis
    using amd64_ymm_member [of q] by (simp add: offset_to_x86_64_register_def)
next
  case False
  have "(224 + 32 * q + k - 216) div 32 = q + (if k < 24 then 0 else 1)"
    using assms(2) by (auto simp: div_nat_eqI)
  moreover have "224 + 32 * q + k < 728" using False assms by auto
  ultimately show ?thesis
    using False x86_ymm [of "224 + 32 * q + k" sz] amd64_ymm_member [OF assms(1)] by auto
qed

lemma amd64_register_at:
  assumes "i < 26" "k < member_size amd64_layout i"
  shows "offset_to_x86_64_register (int (member_off amd64_layout i + k)) sz = Inr (amd64_codes ! i)"
proof -
  consider "i = 0 \<or> i = 1 \<or> i = 2" | q where "i = 3 + q" "q < 16" | r where "i = 19 + r" "r < 7"
  proof -
    have "i = 0 \<or> i = 1 \<or> i = 2 \<or> (i = 3 + (i - 3) \<and> i - 3 < 16) \<or> (i = 19 + (i - 19) \<and> i - 19 < 7)"
      using assms(1) by arith
    with that show thesis by blast
  qed
  then show ?thesis
  proof cases
    case 1
    with assms(2) show ?thesis
      by (auto simp: amd64_member offset_to_x86_64_register_def amd64_codes_def)
  next
    case 2
    have "(8 * q + k) div 8 = q" using assms(2) 2 amd64_gpr_member by auto
    then show ?thesis
      using 2 assms(2) amd64_gpr_member [OF 2(2)] x86_gpr [of "16 + 8 * q + k" sz] by simp
  next
    case 3
    then have "r = 0 \<or> r = 1 \<or> r = 2 \<or> r = 3 \<or> r = 4 \<or> r = 5 \<or> r = 6" by arith
    then show ?thesis
      using 3 assms(2) amd64_flag_member [OF 3(2)]
      by (elim disjE) (simp_all add: offset_to_x86_64_register_def amd64_codes_def)
  qed
qed

lemma x86_register_range:
  assumes "offset \<ge> 0"
  shows "\<exists>p. offset_to_x86_64_register offset sz = Inr p \<and> 0 \<le> p \<and> p < 256"
proof -
  obtain off where off: "offset = int off" using assms by (metis nonneg_int_cases)
  consider "off < 16" | "16 \<le> off" "off < 144" | "144 \<le> off" "off < 216" | "216 \<le> off" "off < 728"
    | "728 \<le> off" by linarith
  then show ?thesis
  proof cases
    case 2
    have "(off - 16) div 8 < 16" using 2 by auto
    from cases_16 [OF this] show ?thesis
      unfolding off x86_gpr [OF 2] by (elim disjE) (simp_all add: amd64_codes_def reg_codes)
  next
    case 4
    have "(off - 216) div 32 < 16" using 4 by auto
    then show ?thesis unfolding off x86_ymm [OF 4] by (simp add: reg_codes)
  qed (auto simp: off offset_to_x86_64_register_def reg_codes)
qed

section \<open>The arm64 registers\<close>

lemma arm64_offs: "map (fst \<circ> snd) arm64_layout = [0, 8, 12] @ map (\<lambda>i. 16 + 8 * i) [0..<38]
   @ map (\<lambda>i. 320 + 16 * i) [0..<33] @ [848, 856, 864, 872, 880, 888, 896, 904, 912, 920]"
  by (simp add: layout_eval upt_rec)

lemma arm64_sizes: "map (snd \<circ> snd) arm64_layout = [8, 4, 4] @ map (\<lambda>i. 8) [0..<38]
   @ map (\<lambda>i. 16) [0..<33] @ [4, 8, 8, 8, 8, 4, 8, 8, 8, 8]"
  by (simp add: layout_eval upt_rec)

lemma arm64_count: "length arm64_layout = 84"
  using arg_cong [OF arm64_offs, of length] by simp

lemmas arm64_member = member_off_map member_size_map arm64_offs arm64_sizes arm64_count

lemma arm64_word_member:
  "q < 38 \<Longrightarrow> member_off arm64_layout (3 + q) = 16 + 8 * q \<and> member_size arm64_layout (3 + q) = 8"
  by (simp add: arm64_member nth_append)

lemma arm64_q_member:
  "q < 33 \<Longrightarrow> member_off arm64_layout (41 + q) = 320 + 16 * q \<and> member_size arm64_layout (41 + q) = 16"
  by (simp add: arm64_member nth_append)

lemma arm64_x:
  assumes "16 \<le> off" "off < 264"
  shows "offset_to_arm64_register (int off) = Inr (REG_X0 + int ((off - 16) div 8))"
proof (cases "off < 256")
  case True
  have "(int off - 16) div 8 = int ((off - 16) div 8)"
    using assms by (simp add: of_nat_diff zdiv_int)
  with True assms show ?thesis by (simp add: offset_to_arm64_register_def)
next
  case False
  then have "(off - 16) div 8 = 30" using assms by auto
  with False assms show ?thesis by (simp add: offset_to_arm64_register_def reg_codes)
qed

lemma arm64_q:
  assumes "320 \<le> off" "off < 832"
  shows "offset_to_arm64_register (int off) = Inr (REG_Q0 + int ((off - 312) div 16))"
proof -
  have "(int off - 312) div 16 = int ((off - 312) div 16)"
    using assms by (simp add: of_nat_diff zdiv_int)
  with assms show ?thesis by (simp add: offset_to_arm64_register_def)
qed

lemma arm64_register_range:
  assumes "0 \<le> offset" "offset < 896"
  shows "\<exists>p. offset_to_arm64_register offset = Inr p \<and> 0 \<le> p \<and> p < 256"
proof -
  obtain off where off: "offset = int off" using assms by (metis nonneg_int_cases)
  consider "off < 16" | "16 \<le> off" "off < 264" | "264 \<le> off" "off < 320" | "320 \<le> off" "off < 832"
    | "832 \<le> off" by linarith
  then show ?thesis
  proof cases
    case 2
    have "(off - 16) div 8 < 31" using 2 by auto
    then show ?thesis unfolding off arm64_x [OF 2] by (simp add: reg_codes)
  next
    case 4
    have "(off - 312) div 16 < 33" using 4 by auto
    then show ?thesis unfolding off arm64_q [OF 4] by (simp add: reg_codes)
  qed (use assms in \<open>auto simp: off offset_to_arm64_register_def reg_codes\<close>)
qed

end
