(* ===== verification/Ct_Record.thy ===== *)
theory Ct_Record
  imports Vex_IR Guest_Layout
begin

text \<open>
  The instruction record of cstracer (\<open>cstracer/ct_main.c\<close>): the struct
  \<open>trace_instr_format_t\<close>, the global state of the tool, and the helpers that run at each event of
  the traced program and fill the record in (\<open>trace_instr\<close>, \<open>trace_load\<close>, \<open>trace_store\<close>,
  \<open>trace_reg_read\<close>, \<open>trace_reg_write\<close>, \<open>trace_branch_conditional\<close>, \<open>trace_branch_direct\<close>,
  \<open>trace_branch_indirect\<close>, \<open>zero_inst\<close>).

  The arrays of the record are tables of slots in which zero means free. The locale \<open>slot_table\<close>
  is the contract of such a table, and its theorem says what a sequence of events leaves in it: the
  first distinct nonzero values, in the order of their first event. It is interpreted for the source
  registers and the two memory tables. The destination registers do not meet it, because
  \<open>trace_reg_write\<close> looks for a free slot beyond the end of its array; a lemma says what it does
  instead.

  \<open>wf_inst\<close> is the invariant of the record; every helper keeps it.
\<close>

section \<open>State\<close>

definition NUM_INSTR_DESTINATIONS :: nat where "NUM_INSTR_DESTINATIONS = 2"

definition NUM_INSTR_SOURCES :: nat where "NUM_INSTR_SOURCES = 4"

definition CACHE_POW :: nat where "CACHE_POW = 6"

definition CACHE_LINE_SIZE :: nat where "CACHE_LINE_SIZE = 64"

lemmas ct_consts [simp] =
  NUM_INSTR_DESTINATIONS_def NUM_INSTR_SOURCES_def CACHE_POW_def CACHE_LINE_SIZE_def

record trace_instr_format_t =
  ip :: "64 word"
  is_branch :: byte
  branch_taken :: byte
  destination_registers :: "byte list"
  source_registers :: "byte list"
  destination_memory :: "64 word list"
  source_memory :: "64 word list"
  d_valid :: "byte list"
  d_value :: "byte list list"
  s_valid :: "byte list"
  s_value :: "byte list list"

text \<open>What \<open>memset(&inst, 0, sizeof(inst))\<close> leaves, which is also the initial value of the
  static variable.\<close>

definition zeroed_inst :: trace_instr_format_t where
  "zeroed_inst = \<lparr>ip = 0, is_branch = 0, branch_taken = 0,
     destination_registers = replicate NUM_INSTR_DESTINATIONS 0,
     source_registers = replicate NUM_INSTR_SOURCES 0,
     destination_memory = replicate NUM_INSTR_DESTINATIONS 0,
     source_memory = replicate NUM_INSTR_SOURCES 0,
     d_valid = replicate NUM_INSTR_DESTINATIONS 0,
     d_value = replicate NUM_INSTR_DESTINATIONS (replicate CACHE_LINE_SIZE 0),
     s_valid = replicate NUM_INSTR_SOURCES 0,
     s_value = replicate NUM_INSTR_SOURCES (replicate CACHE_LINE_SIZE 0)\<rparr>"

text \<open>The messages of \<open>inc_inst\<close> and \<open>ct_fini\<close>, with the number each prints.\<close>

datatype ct_msg =
    MsgHeartbeat "64 word"
  | MsgSkipped "64 word"
  | MsgStarting
  | MsgCompleted "64 word"
  | MsgHalting
  | MsgProgramCompleted "64 word"

text \<open>The static variables: the options, the tracing state, the record, and the trace file (whether
  it is open, and the buffers written to it so far). \<open>ct_exited\<close> is set by \<open>VG_(exit)\<close>, which
  does not return.\<close>

record ct_state =
  t_fname :: string
  skip :: "64 word"
  trace_instrs :: "64 word"
  heartbeat :: "64 word"
  exit_after_tracing :: bool
  tracing :: bool
  tracing_done :: bool
  instructions :: "64 word"
  inst :: trace_instr_format_t
  fd_open :: bool
  trace_out :: "byte list list"
  ct_log :: "ct_msg list"
  ct_exited :: bool

definition ct_initial :: ct_state where
  "ct_initial = \<lparr>t_fname = ''tracefile'', skip = 0, trace_instrs = 1000, heartbeat = 100000000,
     exit_after_tracing = False, tracing = False, tracing_done = False, instructions = 0,
     inst = zeroed_inst, fd_open = False, trace_out = [], ct_log = [], ct_exited = False\<rparr>"

section \<open>Slot tables\<close>

text \<open>The two loops of the \<open>trace_\<close> helpers: the first one looks for the value, the second one
  for the first free slot.\<close>

fun index_of :: "'a \<Rightarrow> 'a list \<Rightarrow> nat option" where
  "index_of v [] = None"
| "index_of v (x # xs) = (if x = v then Some 0 else map_option Suc (index_of v xs))"

definition free_slot :: "'a::zero \<Rightarrow> 'a list \<Rightarrow> nat option" where
  "free_slot v xs = (if index_of v xs \<noteq> None then None else index_of 0 xs)"

section \<open>The helpers\<close>

definition trace_instr :: "64 word \<Rightarrow> 64 word \<Rightarrow> ct_state \<Rightarrow> ct_state" where
  "trace_instr iaddr sz s =
     (if \<not> tracing s then s else s\<lparr>inst := (inst s)\<lparr>ip := iaddr\<rparr>\<rparr>)"

text \<open>The bytes of the cache line around an address, in a memory given as a function.\<close>

definition cache_line :: "(64 word \<Rightarrow> byte) \<Rightarrow> 64 word \<Rightarrow> byte list" where
  "cache_line mem addr =
     (let a = push_bit CACHE_POW (drop_bit CACHE_POW addr)
      in map (\<lambda>j. mem (a + of_nat j)) [0..<CACHE_LINE_SIZE])"

definition trace_load :: "(64 word \<Rightarrow> byte) \<Rightarrow> 64 word \<Rightarrow> 64 word \<Rightarrow> ct_state \<Rightarrow> ct_state" where
  "trace_load mem addr sz s =
     (if \<not> tracing s then s else
      case free_slot addr (source_memory (inst s)) of
        None \<Rightarrow> s
      | Some i \<Rightarrow> s\<lparr>inst := (inst s)\<lparr>
            source_memory := (source_memory (inst s))[i := addr],
            s_valid := (s_valid (inst s))[i := 1],
            s_value := (s_value (inst s))[i := cache_line mem addr]\<rparr>\<rparr>)"

definition trace_store :: "(64 word \<Rightarrow> byte) \<Rightarrow> 64 word \<Rightarrow> 64 word \<Rightarrow> ct_state \<Rightarrow> ct_state" where
  "trace_store mem addr sz s =
     (if \<not> tracing s then s else
      case free_slot addr (destination_memory (inst s)) of
        None \<Rightarrow> s
      | Some i \<Rightarrow> s\<lparr>inst := (inst s)\<lparr>
            destination_memory := (destination_memory (inst s))[i := addr],
            d_valid := (d_valid (inst s))[i := 1],
            d_value := (d_value (inst s))[i := cache_line mem addr]\<rparr>\<rparr>)"

text \<open>An argument of type \<open>Int\<close> reaches the helper as a machine word; the cast to
  \<open>unsigned char\<close> keeps its low byte.\<close>

definition trace_reg_read :: "64 word \<Rightarrow> ct_state \<Rightarrow> ct_state" where
  "trace_reg_read r s =
     (if \<not> tracing s then s else
      case free_slot (ucast r) (source_registers (inst s)) of
        None \<Rightarrow> s
      | Some i \<Rightarrow> s\<lparr>inst := (inst s)\<lparr>
            source_registers := (source_registers (inst s))[i := ucast r]\<rparr>\<rparr>)"

text \<open>The second loop of \<open>trace_reg_write\<close> runs up to \<open>NUM_INSTR_SOURCES\<close>, over an array of
  \<open>NUM_INSTR_DESTINATIONS\<close> bytes. In the struct the four bytes of \<open>source_registers\<close> follow the
  two bytes of \<open>destination_registers\<close> without padding, so that \<open>destination_registers[2]\<close> and
  \<open>destination_registers[3]\<close> are the first two source registers.\<close>

definition set_dest_reg :: "nat \<Rightarrow> byte \<Rightarrow> trace_instr_format_t \<Rightarrow> trace_instr_format_t" where
  "set_dest_reg i v r =
     (if i < NUM_INSTR_DESTINATIONS
      then r\<lparr>destination_registers := (destination_registers r)[i := v]\<rparr>
      else r\<lparr>source_registers := (source_registers r)[i - NUM_INSTR_DESTINATIONS := v]\<rparr>)"

definition trace_reg_write :: "64 word \<Rightarrow> ct_state \<Rightarrow> ct_state" where
  "trace_reg_write r s =
     (if \<not> tracing s then s else
      if index_of (ucast r) (destination_registers (inst s)) \<noteq> None then s else
      case index_of 0 (take NUM_INSTR_SOURCES
             (destination_registers (inst s) @ source_registers (inst s))) of
        None \<Rightarrow> s
      | Some i \<Rightarrow> s\<lparr>inst := set_dest_reg i (ucast r) (inst s)\<rparr>)"

definition REG_IP :: "platform \<Rightarrow> byte" where
  "REG_IP p = (case p of Amd64 \<Rightarrow> of_int REG_RIP | Arm64 \<Rightarrow> of_int REG_PC)"

definition REG_CC :: "platform \<Rightarrow> byte" where
  "REG_CC p = (case p of Amd64 \<Rightarrow> of_int REG_RFLAGS | Arm64 \<Rightarrow> of_int REG_FLAGS)"

definition trace_branch_conditional :: "platform \<Rightarrow> byte \<Rightarrow> byte \<Rightarrow> ct_state \<Rightarrow> ct_state" where
  "trace_branch_conditional p ci guard s =
     (if \<not> tracing s then s else
      let r = inst s in
      s\<lparr>inst := r\<lparr>is_branch := 1,
          destination_registers := (destination_registers r)[0 := REG_IP p],
          source_registers := (source_registers r)[0 := REG_IP p, 1 := REG_CC p],
          branch_taken := (if guard \<noteq> 0 then (if ci = 0 then 1 else 0) else ci)\<rparr>\<rparr>)"

text \<open>The value of a jump kind, by the enum of \<open>VEX/pub/libvex_ir.h\<close>.\<close>

fun jk_code :: "IRJumpKind \<Rightarrow> 32 word" where
  "jk_code Ijk_INVALID = 0x1A00" | "jk_code Ijk_Boring = 0x1A01" | "jk_code Ijk_Call = 0x1A02"
| "jk_code Ijk_Ret = 0x1A03" | "jk_code Ijk_ClientReq = 0x1A04" | "jk_code Ijk_Yield = 0x1A05"
| "jk_code Ijk_EmWarn = 0x1A06" | "jk_code Ijk_EmFail = 0x1A07" | "jk_code Ijk_NoDecode = 0x1A08"
| "jk_code Ijk_MapFail = 0x1A09" | "jk_code Ijk_InvalICache = 0x1A0A"
| "jk_code Ijk_FlushDCache = 0x1A0B" | "jk_code Ijk_NoRedir = 0x1A0C"
| "jk_code Ijk_SigILL = 0x1A0D" | "jk_code Ijk_SigTRAP = 0x1A0E" | "jk_code Ijk_SigSEGV = 0x1A0F"
| "jk_code Ijk_SigBUS = 0x1A10" | "jk_code Ijk_SigFPE = 0x1A11" | "jk_code Ijk_SigFPE_IntDiv = 0x1A12"
| "jk_code Ijk_SigFPE_IntOvf = 0x1A13" | "jk_code Ijk_Sys_syscall = 0x1A14"
| "jk_code Ijk_Sys_int32 = 0x1A15" | "jk_code Ijk_Sys_int128 = 0x1A16"
| "jk_code Ijk_Sys_int129 = 0x1A17" | "jk_code Ijk_Sys_int130 = 0x1A18"
| "jk_code Ijk_Sys_int145 = 0x1A19" | "jk_code Ijk_Sys_int210 = 0x1A1A"
| "jk_code Ijk_Sys_sysenter = 0x1A1B"

text \<open>Storing into the register arrays at given positions.\<close>

definition put_regs :: "(nat \<times> int) list \<Rightarrow> (nat \<times> int) list \<Rightarrow> trace_instr_format_t \<Rightarrow>
    trace_instr_format_t" where
  "put_regs ds ss r = r\<lparr>
     destination_registers := fold (\<lambda>(i, v) xs. xs[i := of_int v]) ds (destination_registers r),
     source_registers := fold (\<lambda>(i, v) xs. xs[i := of_int v]) ss (source_registers r)\<rparr>"

definition trace_branch_direct :: "platform \<Rightarrow> 32 word \<Rightarrow> ct_state \<Rightarrow> ct_state res" where
  "trace_branch_direct p jk s =
     (if \<not> tracing s then Inr s else
      let r = (inst s)\<lparr>is_branch := 1, branch_taken := 1\<rparr> in
      if jk = jk_code Ijk_Call then
        Inr (s\<lparr>inst := (case p of
            Arm64 \<Rightarrow> put_regs [(0, REG_PC)] [(0, REG_PC)] r
          | Amd64 \<Rightarrow> put_regs [(0, REG_RIP), (1, REG_RSP)] [(0, REG_RIP), (1, REG_RSP)] r)\<rparr>)
      else if jk = jk_code Ijk_Ret then
        Inr (s\<lparr>inst := (case p of
            Arm64 \<Rightarrow> put_regs [(0, REG_PC), (1, REG_XSP)] [(0, REG_X30)] r
          | Amd64 \<Rightarrow> put_regs [(0, REG_RIP), (1, REG_RSP)] [(0, REG_RSP)] r)\<rparr>)
      else if jk = jk_code Ijk_Boring then
        Inr (s\<lparr>inst := (case p of
            Arm64 \<Rightarrow> put_regs [(0, REG_PC)] [] r
          | Amd64 \<Rightarrow> put_regs [(0, REG_RIP)] [] r)\<rparr>)
      else Inl (ToolAssert ''0''))"

definition trace_branch_indirect :: "platform \<Rightarrow> 32 word \<Rightarrow> ct_state \<Rightarrow> ct_state res" where
  "trace_branch_indirect p jk s =
     (if \<not> tracing s then Inr s else
      let r = (inst s)\<lparr>is_branch := 1, branch_taken := 1\<rparr> in
      if jk = jk_code Ijk_Call then
        Inr (s\<lparr>inst := (case p of
            Arm64 \<Rightarrow> put_regs [(0, REG_PC), (1, REG_X30)] [(0, REG_PC), (2, REG_X30)] r
          | Amd64 \<Rightarrow> put_regs [(0, REG_RIP), (1, REG_RSP)]
                       [(0, REG_RIP), (1, REG_RSP), (2, REG_RAX)] r)\<rparr>)
      else if jk = jk_code Ijk_Ret then
        Inr (s\<lparr>inst := (case p of
            Arm64 \<Rightarrow> put_regs [(0, REG_PC)] [(0, REG_X30)] r
          | Amd64 \<Rightarrow> put_regs [(0, REG_RIP), (1, REG_RSP)] [(0, REG_RSP), (2, REG_RAX)] r)\<rparr>)
      else if jk = jk_code Ijk_Boring then
        Inr (s\<lparr>inst := (case p of
            Arm64 \<Rightarrow> put_regs [(0, REG_PC)] [(0, REG_X30)] r
          | Amd64 \<Rightarrow> put_regs [(0, REG_RIP)] [(2, REG_RAX)] r)\<rparr>)
      else Inl (ToolAssert ''0''))"

definition zero_inst :: "ct_state \<Rightarrow> ct_state" where
  "zero_inst s = (if \<not> tracing s then s else s\<lparr>inst := zeroed_inst\<rparr>)"

section \<open>What a slot table holds\<close>

lemma index_of_None [simp]: "index_of v xs = None \<longleftrightarrow> v \<notin> set xs"
  by (induction xs) auto

lemma index_of_SomeD: "index_of v xs = Some i \<Longrightarrow> i < length xs \<and> xs ! i = v \<and> v \<notin> set (take i xs)"
  by (induction xs arbitrary: i) (auto split: if_splits)

lemma index_of_append:
  "index_of v (xs @ ys) =
     (if v \<in> set xs then index_of v xs else map_option (\<lambda>k. length xs + k) (index_of v ys))"
proof (induction xs)
  case Nil
  show ?case by (cases "index_of v ys") (simp_all del: index_of_None)
qed (auto simp: option.map_comp comp_def)

lemma index_of_replicate: "index_of v (replicate n v) = (if n = 0 then None else Some 0)"
  by (cases n) auto

lemma free_slot_SomeD:
  "free_slot v xs = Some i \<Longrightarrow> i < length xs \<and> xs ! i = 0 \<and> v \<notin> set xs \<and> v \<noteq> 0"
  by (auto simp: free_slot_def split: if_splits dest!: index_of_SomeD) (metis nth_mem)

definition slot_insert :: "'a::zero \<Rightarrow> 'a list \<Rightarrow> 'a list" where
  "slot_insert v xs = (case free_slot v xs of None \<Rightarrow> xs | Some i \<Rightarrow> xs[i := v])"

text \<open>The distinct nonzero values of a sequence, in the order of their first occurrence, and a table
  that holds some values in its first slots.\<close>

fun first_seen :: "'a::zero list \<Rightarrow> 'a list \<Rightarrow> 'a list" where
  "first_seen acc [] = acc"
| "first_seen acc (v # vs) = first_seen (if v = 0 \<or> v \<in> set acc then acc else acc @ [v]) vs"

definition table :: "nat \<Rightarrow> 'a::zero list \<Rightarrow> 'a list" where
  "table n vs = take n vs @ replicate (n - length vs) 0"

lemma length_table [simp]: "length (table n vs) = n"
  by (simp add: table_def)

lemma first_seen_extends: "\<exists>zs. first_seen acc vs = acc @ zs"
proof (induction vs arbitrary: acc)
  case (Cons v vs)
  show ?case
    using Cons.IH [of acc] Cons.IH [of "acc @ [v]"] by auto
qed simp

lemma slot_insert_table:
  assumes "0 \<notin> set vs" "length vs \<le> n"
  shows "slot_insert v (table n vs) =
           (if v = 0 \<or> v \<in> set vs \<or> n \<le> length vs then table n vs else table n (vs @ [v]))"
proof (cases "v = 0 \<or> v \<in> set vs")
  case True
  have "free_slot v (table n vs) = None"
    using True assms by (auto simp: free_slot_def table_def set_replicate_conv_if)
  with True show ?thesis by (auto simp: slot_insert_def)
next
  case False
  show ?thesis
  proof (cases "n \<le> length vs")
    case True
    with False assms show ?thesis
      by (simp add: slot_insert_def free_slot_def table_def index_of_None [THEN iffD2])
  next
    case less: False
    have "index_of 0 (table n vs) = Some (length vs)"
      using assms less by (simp add: table_def index_of_append index_of_replicate)
    moreover have "v \<notin> set (table n vs)"
      using False assms by (auto simp: table_def)
    ultimately have "slot_insert v (table n vs) = (table n vs)[length vs := v]"
      by (simp add: slot_insert_def free_slot_def)
    also have "\<dots> = table n (vs @ [v])"
      using less by (cases "n - length vs") (auto simp: table_def list_update_append)
    finally show ?thesis using False less by simp
  qed
qed

lemma first_seen_nonzero: "0 \<notin> set acc \<Longrightarrow> 0 \<notin> set (first_seen acc vs)"
  by (induction acc vs rule: first_seen.induct) auto

text \<open>Inserting one value after the other fills the table with the first values seen.\<close>

lemma slot_inserts:
  assumes "0 \<notin> set acc"
  shows "fold slot_insert vs (table n (take n acc)) = table n (take n (first_seen acc vs))"
  using assms
proof (induction vs arbitrary: acc)
  case (Cons v vs)
  have nz: "0 \<notin> set (take n acc)" using Cons.prems by (auto dest: in_set_takeD)
  have step: "slot_insert v (table n (take n acc)) = table n (take n acc')"
    if "acc' = (if v = 0 \<or> v \<in> set acc then acc else acc @ [v])" for acc'
  proof (cases "length acc < n")
    case True
    then show ?thesis using slot_insert_table [OF nz, of n v] that by auto
  next
    case False
    then have "take n acc' = take n acc" using that by auto
    with False show ?thesis using slot_insert_table [OF nz, of n v] by simp
  qed
  show ?case
    using Cons.IH Cons.prems by (simp add: step)
qed simp

locale slot_table =
  fixes get :: "'s \<Rightarrow> 'v::zero list" and add :: "'v \<Rightarrow> 's \<Rightarrow> 's" and ok :: "'s \<Rightarrow> bool" and n :: nat
  assumes add_get: "ok s \<Longrightarrow> get (add v s) = slot_insert v (get s)"
    and add_ok: "ok s \<Longrightarrow> ok (add v s)"
begin

lemma adds_get: "ok s \<Longrightarrow> get (fold add vs s) = fold slot_insert vs (get s)"
  by (induction vs arbitrary: s) (auto simp: add_get add_ok)

lemma adds_from_empty:
  "ok s \<Longrightarrow> get s = replicate n 0 \<Longrightarrow> get (fold add vs s) = table n (first_seen [] vs)"
  using slot_inserts [of "[]" vs n]
  by (auto simp: adds_get table_def)

end

interpretation loads: slot_table "\<lambda>s. source_memory (inst s)" "\<lambda>a. trace_load mem a sz" tracing
    NUM_INSTR_SOURCES for mem sz
  by unfold_locales (auto simp: trace_load_def slot_insert_def split: option.splits)

interpretation stores: slot_table "\<lambda>s. destination_memory (inst s)" "\<lambda>a. trace_store mem a sz"
    tracing NUM_INSTR_DESTINATIONS for mem sz
  by unfold_locales (auto simp: trace_store_def slot_insert_def split: option.splits)

lemma byte_through_word [simp]: "ucast (ucast (b :: byte) :: 64 word) = b"
  by (rule bit_word_eqI) (simp add: bit_simps)

interpretation reg_reads: slot_table "\<lambda>s. source_registers (inst s)"
    "\<lambda>r. trace_reg_read (ucast (r :: byte))" tracing NUM_INSTR_SOURCES
  by unfold_locales (auto simp: trace_reg_read_def slot_insert_def split: option.splits)

section \<open>The invariant of the record\<close>

definition wf_mem :: "nat \<Rightarrow> 64 word list \<Rightarrow> byte list \<Rightarrow> byte list list \<Rightarrow> bool" where
  "wf_mem n as vs ds \<longleftrightarrow> length as = n \<and> length vs = n \<and> length ds = n
     \<and> (\<forall>i<n. (vs ! i \<noteq> 0) = (as ! i \<noteq> 0)) \<and> (\<forall>d\<in>set ds. length d = CACHE_LINE_SIZE)"

definition wf_inst :: "trace_instr_format_t \<Rightarrow> bool" where
  "wf_inst r \<longleftrightarrow>
     length (destination_registers r) = NUM_INSTR_DESTINATIONS
     \<and> length (source_registers r) = NUM_INSTR_SOURCES
     \<and> wf_mem NUM_INSTR_DESTINATIONS (destination_memory r) (d_valid r) (d_value r)
     \<and> wf_mem NUM_INSTR_SOURCES (source_memory r) (s_valid r) (s_value r)
     \<and> (branch_taken r \<noteq> 0 \<longrightarrow> is_branch r \<noteq> 0)"

lemma wf_mem_zero: "wf_mem n (replicate n 0) (replicate n 0) (replicate n (replicate CACHE_LINE_SIZE 0))"
  by (simp add: wf_mem_def)

lemma wf_zeroed_inst: "wf_inst zeroed_inst"
  unfolding wf_inst_def zeroed_inst_def by (simp del: ct_consts add: wf_mem_zero)

lemma length_cache_line: "length (cache_line mem a) = CACHE_LINE_SIZE"
  by (simp add: cache_line_def Let_def)

lemma wf_mem_fill:
  assumes "wf_mem n as vs ds" "free_slot a as = Some i"
  shows "wf_mem n (as[i := a]) (vs[i := 1]) (ds[i := cache_line mem a])"
  using assms free_slot_SomeD [OF assms(2)]
  by (auto simp: wf_mem_def nth_list_update length_cache_line dest!: set_update_subset_insert [THEN subsetD])

lemma trace_instr_wf: "wf_inst (inst s) \<Longrightarrow> wf_inst (inst (trace_instr a sz s))"
  by (simp add: trace_instr_def wf_inst_def)

lemma trace_load_wf: "wf_inst (inst s) \<Longrightarrow> wf_inst (inst (trace_load mem a sz s))"
  by (auto simp: trace_load_def wf_inst_def intro: wf_mem_fill split: option.splits simp del: ct_consts)

lemma trace_store_wf: "wf_inst (inst s) \<Longrightarrow> wf_inst (inst (trace_store mem a sz s))"
  by (auto simp: trace_store_def wf_inst_def intro: wf_mem_fill split: option.splits simp del: ct_consts)

lemma trace_reg_read_wf: "wf_inst (inst s) \<Longrightarrow> wf_inst (inst (trace_reg_read r s))"
  by (auto simp: trace_reg_read_def wf_inst_def split: option.splits simp del: ct_consts)

lemma trace_reg_write_wf: "wf_inst (inst s) \<Longrightarrow> wf_inst (inst (trace_reg_write r s))"
  by (auto simp: trace_reg_write_def set_dest_reg_def wf_inst_def split: option.splits simp del: ct_consts)

lemma trace_branch_conditional_wf:
  "wf_inst (inst s) \<Longrightarrow> wf_inst (inst (trace_branch_conditional p ci g s))"
  by (auto simp: trace_branch_conditional_def wf_inst_def Let_def simp del: ct_consts)

lemma length_put [simp]: "length (fold (\<lambda>(i, v) xs. xs[i := f v]) ps xs) = length xs"
  by (induction ps arbitrary: xs) auto

lemma put_regs_wf:
  "wf_inst r \<Longrightarrow> wf_inst (put_regs ds ss (r\<lparr>is_branch := 1, branch_taken := 1\<rparr>))"
  by (simp add: put_regs_def wf_inst_def del: ct_consts)

lemma trace_branch_direct_wf:
  "wf_inst (inst s) \<Longrightarrow> trace_branch_direct p jk s = Inr s' \<Longrightarrow> wf_inst (inst s')"
  by (auto simp: trace_branch_direct_def Let_def put_regs_wf split: if_splits platform.splits)

lemma trace_branch_indirect_wf:
  "wf_inst (inst s) \<Longrightarrow> trace_branch_indirect p jk s = Inr s' \<Longrightarrow> wf_inst (inst s')"
  by (auto simp: trace_branch_indirect_def Let_def put_regs_wf split: if_splits platform.splits)

lemma zero_inst_wf: "wf_inst (inst s) \<Longrightarrow> wf_inst (inst (zero_inst s))"
  by (simp add: zero_inst_def wf_zeroed_inst)

lemmas record_wf = trace_instr_wf trace_load_wf trace_store_wf trace_reg_read_wf trace_reg_write_wf
  trace_branch_conditional_wf trace_branch_direct_wf trace_branch_indirect_wf zero_inst_wf

section \<open>The write-register table\<close>

text \<open>While a slot of \<open>destination_registers\<close> is free, \<open>trace_reg_write\<close> inserts into that table;
  once both are taken, a further register lands in the first free slot among the first two source
  registers.\<close>

lemma trace_reg_write_free:
  assumes "tracing s" "wf_inst (inst s)" "0 \<in> set (destination_registers (inst s))"
  shows "trace_reg_write r s =
    s\<lparr>inst := (inst s)\<lparr>destination_registers :=
        slot_insert (ucast r) (destination_registers (inst s))\<rparr>\<rparr>"
proof -
  let ?d = "destination_registers (inst s)"
  obtain i where i: "index_of 0 ?d = Some i" "i < 2"
    using assms index_of_SomeD [of 0 ?d] by (cases "index_of 0 ?d") (auto simp: wf_inst_def)
  then have "index_of 0 (take 4 (?d @ source_registers (inst s))) = Some i"
    using assms by (simp add: index_of_append wf_inst_def)
  with i assms(1) show ?thesis
    by (simp add: trace_reg_write_def slot_insert_def free_slot_def set_dest_reg_def)
qed

lemma trace_reg_write_overflow:
  assumes "tracing s" "wf_inst (inst s)" "0 \<notin> set (destination_registers (inst s))"
    and "ucast r \<notin> set (destination_registers (inst s))"
  shows "trace_reg_write r s =
    (case index_of 0 (take 2 (source_registers (inst s))) of
       None \<Rightarrow> s
     | Some i \<Rightarrow> s\<lparr>inst := (inst s)\<lparr>source_registers := (source_registers (inst s))[i := ucast r]\<rparr>\<rparr>)"
proof -
  have "index_of 0 (take 4 (destination_registers (inst s) @ source_registers (inst s))) =
      map_option ((+) 2) (index_of 0 (take 2 (source_registers (inst s))))"
    using assms by (simp add: index_of_append wf_inst_def)
  moreover have "index_of (ucast r) (destination_registers (inst s)) = None"
    using assms(4) by simp
  ultimately show ?thesis
    using assms(1)
    by (cases "index_of 0 (take 2 (source_registers (inst s)))")
       (simp_all add: trace_reg_write_def set_dest_reg_def del: index_of_None take_append)
qed

end
