(* ===== verification/Ct_Instrument.thy ===== *)
theory Ct_Instrument
  imports Tool_Access Ct_Record
begin

text \<open>
  The instrumentation of cstracer (\<open>cstracer/ct_main.c\<close>): the functions that insert the calls of
  the helpers (\<open>instrument_instruction\<close>, \<open>instrument_load\<close>, \<open>instrument_store\<close>,
  \<open>instrument_reg_read\<close>, \<open>instrument_reg_write\<close>, \<open>instrument_branch_direct\<close>,
  \<open>instrument_branch_indirect\<close>; \<open>instrument_branch_conditional\<close> is in \<open>Tool_Instrument\<close>) and
  \<open>ct_instrument\<close>, whose treatment of one statement is \<open>ct_step\<close>.

  The tool meets the interfaces \<open>access_calls\<close> and \<open>stmt_instrumenter\<close>; \<open>ct_req\<close> is what it
  requires of a statement so that none of its assertions fails.
\<close>

unbundle bit_operations_syntax

section \<open>Inserting calls\<close>

definition ct_instrument_instruction :: "platform \<Rightarrow> IRSB \<Rightarrow> IRExpr \<Rightarrow> 32 word \<Rightarrow> IRSB res" where
  "ct_instrument_instruction p sb iaddr isize =
     bindR (assertR (instr_size_ok p isize) (ToolAssert ''isize'')) (\<lambda>_.
     bindR (add_call 0 ''inc_inst'' ''inc_inst'' [] sb) (\<lambda>sb.
     bindR (add_call 0 ''write_inst'' ''write_inst_to_file'' [] sb) (\<lambda>sb.
     bindR (add_call 0 ''zero_inst'' ''zero_inst'' [] sb) (\<lambda>sb.
     add_call 2 ''trace_instr'' ''trace_instr'' [iaddr, mkIRExpr_HWord (ucast isize)] sb))))"

definition cache_block_addr :: "IRExpr \<Rightarrow> IRExpr res" where
  "cache_block_addr a =
     bindR (assertR (isIRAtom a) (ToolAssert ''isIRAtom(a)'')) (\<lambda>_.
     case a of
       Iex_RdTmp tmp \<Rightarrow> Inr (mkIRExpr_HWord (push_bit CACHE_POW (drop_bit CACHE_POW (of_nat tmp))))
     | Iex_Const con \<Rightarrow>
         bindR (Ico_as_U64 con) (\<lambda>ad.
         Inr (mkIRExpr_HWord (push_bit CACHE_POW (drop_bit CACHE_POW ad))))
     | _ \<Rightarrow> Inl (ToolAssert ''0''))"

definition ct_mem_call :: "string \<Rightarrow> IRExpr \<Rightarrow> IRSB \<Rightarrow> IRExpr \<Rightarrow> int \<Rightarrow> IRSB res" where
  "ct_mem_call fn guard sb daddr dsize =
     bindR (cache_block_addr daddr) (\<lambda>mAddr.
     bindR (mkIRCallee 2 (Some fn) (Fn fn)) (\<lambda>cee.
     addStmtToIRSB sb (Some (Ist_Dirty (emptyIRDirty\<lparr>
       d_mFx := Ifx_Read, d_mAddr := Some mAddr, d_mSize := int CACHE_LINE_SIZE,
       d_args := Some [daddr, mkIRExpr_HWord (of_int dsize)], d_cee := Some cee,
       d_guard := Some guard\<rparr>)))))"

definition ct_instrument_load :: "IRSB \<Rightarrow> IRExpr \<Rightarrow> int \<Rightarrow> IRExpr option \<Rightarrow> IRSB res" where
  "ct_instrument_load sb daddr dsize guard =
     bindR (assertR (isIRAtom daddr) (ToolAssert ''isIRAtom(daddr)'')) (\<lambda>_.
     bindR (assertR (dsize \<ge> 1 \<and> dsize \<le> MAX_DSIZE) (ToolAssert ''dsize'')) (\<lambda>_.
     bindR (IRConst_U1 1) (\<lambda>c. ct_mem_call ''trace_load'' (Iex_Const c) sb daddr dsize)))"

definition ct_instrument_store :: "IRSB \<Rightarrow> IRExpr \<Rightarrow> int \<Rightarrow> IRExpr option \<Rightarrow> IRSB res" where
  "ct_instrument_store sb daddr dsize guard =
     bindR (assertR (isIRAtom daddr) (ToolAssert ''isIRAtom(daddr)'')) (\<lambda>_.
     bindR (assertR (dsize \<ge> 1 \<and> dsize \<le> MAX_DSIZE) (ToolAssert ''dsize'')) (\<lambda>_.
     bindR (IRConst_U1 1) (\<lambda>c.
     ct_mem_call ''trace_store'' (case guard of None \<Rightarrow> Iex_Const c | Some g \<Rightarrow> g) sb daddr dsize)))"

definition offset_to_register :: "platform \<Rightarrow> int \<Rightarrow> int \<Rightarrow> int res" where
  "offset_to_register p offset sz =
     (case p of Amd64 \<Rightarrow> offset_to_x86_64_register offset sz | Arm64 \<Rightarrow> offset_to_arm64_register offset)"

definition reg_ip :: "platform \<Rightarrow> int" where
  "reg_ip p = (case p of Amd64 \<Rightarrow> REG_RIP | Arm64 \<Rightarrow> REG_PC)"

definition instrument_reg_read :: "platform \<Rightarrow> IRSB \<Rightarrow> int \<Rightarrow> int \<Rightarrow> IRSB res" where
  "instrument_reg_read p sb offset sz =
     bindR (offset_to_register p offset sz) (\<lambda>r.
     if r = 0 \<or> r = reg_ip p then Inr sb
     else add_call 1 ''trace_reg_read'' ''trace_reg_read'' [mkIRExpr_HWord (of_int r)] sb)"

definition instrument_reg_write :: "platform \<Rightarrow> IRSB \<Rightarrow> int \<Rightarrow> int \<Rightarrow> IRSB res" where
  "instrument_reg_write p sb offset sz =
     bindR (offset_to_register p offset sz) (\<lambda>r.
     if r = 0 \<or> r = reg_ip p then Inr sb
     else add_call 1 ''trace_reg_write'' ''trace_reg_write'' [mkIRExpr_HWord (of_int r)] sb)"

definition instrument_branch_direct :: "IRSB \<Rightarrow> IRJumpKind \<Rightarrow> IRSB res" where
  "instrument_branch_direct sb jk =
     add_call 1 ''trace_branch_direct'' ''trace_branch_direct'' [mkIRExpr_HWord (ucast (jk_code jk))] sb"

definition instrument_branch_indirect :: "IRSB \<Rightarrow> IRJumpKind \<Rightarrow> IRSB res" where
  "instrument_branch_indirect sb jk =
     add_call 1 ''trace_branch_indirect'' ''trace_branch_indirect''
       [mkIRExpr_HWord (ucast (jk_code jk))] sb"

section \<open>One statement, one block\<close>

text \<open>The cases of the switch. The type environment \<open>E\<close> is that of the input block, \<open>i\<close> holds
  \<open>iaddr\<close> and \<open>ilen\<close>. Statements that access memory share the last case; the loop itself leaves
  out NoOp statements.\<close>

fun ct_step :: "platform \<Rightarrow> IRTypeEnv \<Rightarrow> IRSB \<Rightarrow> imark \<Rightarrow> IRStmt \<Rightarrow> (IRSB \<times> imark) res" where
  "ct_step p E sb i (Ist_IMark addr len delta) =
     bindR (ct_instrument_instruction p sb (mkIRExpr_HWord addr) len) (\<lambda>sb.
     bindR (addStmtToIRSB sb (Some (Ist_IMark addr len delta))) (\<lambda>sb. Inr (sb, (addr, len))))"
| "ct_step p E sb i (Ist_Put offset dat) =
     bindR (typeOfIRExpr E dat) (\<lambda>type.
     bindR (sizeofIRType type) (\<lambda>sz.
     bindR (instrument_reg_write p sb offset sz) (\<lambda>sb.
     bindR (addStmtToIRSB sb (Some (Ist_Put offset dat))) (\<lambda>sb. Inr (sb, i)))))"
| "ct_step p E sb i (Ist_WrTmp tmp dat) =
     bindR (addStmtToIRSB sb (Some (Ist_WrTmp tmp dat))) (\<lambda>sb.
     bindR (instrument_accesses ct_instrument_load ct_instrument_store E sb (Ist_WrTmp tmp dat)) (\<lambda>sb.
     bindR (case dat of
              Iex_Get offset ty \<Rightarrow> bindR (sizeofIRType ty) (\<lambda>sz. instrument_reg_read p sb offset sz)
            | _ \<Rightarrow> Inr sb) (\<lambda>sb. Inr (sb, i))))"
| "ct_step p E sb i (Ist_Exit guard jk dst offsIP) =
     bindR (instrument_exit sb i guard jk dst) (\<lambda>sb.
     bindR (addStmtToIRSB sb (Some (Ist_Exit guard jk dst offsIP))) (\<lambda>sb. Inr (sb, i)))"
| "ct_step p E sb i st =
     bindR (addStmtToIRSB sb (Some st)) (\<lambda>sb.
     bindR (instrument_accesses ct_instrument_load ct_instrument_store E sb st) (\<lambda>sb. Inr (sb, i)))"

definition ct_tail :: "IRSB \<Rightarrow> IRSB \<Rightarrow> IRSB res" where
  "ct_tail sbIn sbOut =
     (if guest_branch (sb_jumpkind sbIn) then
        bindR (optR NullDeref (sb_next sbIn)) (\<lambda>nx.
        case nx of
          Iex_Const _ \<Rightarrow> instrument_branch_direct sbOut (sb_jumpkind sbIn)
        | Iex_RdTmp _ \<Rightarrow> instrument_branch_indirect sbOut (sb_jumpkind sbIn)
        | _ \<Rightarrow> Inl (ToolAssert ''0''))
      else Inr sbOut)"

definition ct_instrument :: "platform \<Rightarrow> IRSB \<Rightarrow> IRType \<Rightarrow> IRType \<Rightarrow> IRSB res" where
  "ct_instrument p sbIn gWordTy hWordTy =
     (if gWordTy \<noteq> hWordTy then Inl (ToolPanic ''host/guest word size mismatch'')
      else bindR (translate_stmts (ct_step p) sbIn) (ct_tail sbIn))"

section \<open>The tool meets its interfaces\<close>

definition ct_helpers :: "string set" where
  "ct_helpers = {''inc_inst'', ''write_inst_to_file'', ''zero_inst'', ''trace_instr'', ''trace_load'',
     ''trace_store'', ''trace_reg_read'', ''trace_reg_write'', ''trace_branch_conditional'',
     ''trace_branch_direct'', ''trace_branch_indirect''}"

lemma cache_block_addr_const: "cache_block_addr a = Inr m \<Longrightarrow> isIRAtom a \<and> (\<exists>w. m = mkIRExpr_HWord w)"
  by (cases a) (auto simp: cache_block_addr_def res_iff)

lemma ct_mem_call_inserts:
  assumes "wf_sb sb" "ct_mem_call fn g sb a n = Inr sb'" "fn \<in> ct_helpers"
  shows "\<exists>d. sb' = push_stmt sb (Some (Ist_Dirty d)) \<and> tool_call ct_helpers d
     \<and> (\<forall>F gw dc. arg_ok F dc a \<longrightarrow> guard_ok F gw g \<longrightarrow> call_ok F gw dc d)"
proof -
  obtain m where "cache_block_addr a = Inr m" using assms(2) by (auto simp: ct_mem_call_def res_iff)
  moreover from cache_block_addr_const [OF this] obtain w where "m = mkIRExpr_HWord w" by blast
  moreover have const: "isIRAtom (mkIRExpr_HWord w)" "useBeforeDef_Expr F dc (mkIRExpr_HWord w) = Inr ()" for F dc
    by (simp_all add: mkIRExpr_HWord_def)
  moreover define d where "d = emptyIRDirty\<lparr>
       d_mFx := Ifx_Read, d_mAddr := Some (mkIRExpr_HWord w), d_mSize := int CACHE_LINE_SIZE,
       d_args := Some [a, mkIRExpr_HWord (of_int n)],
       d_cee := Some \<lparr>cee_regparms = 2, cee_name = Some fn, cee_addr = Fn fn, cee_mcx_mask = 0\<rparr>,
       d_guard := Some g\<rparr>"
  ultimately have "sb' = push_stmt sb (Some (Ist_Dirty d))"
    using assms by (simp add: ct_mem_call_def mkIRCallee_def addStmtToIRSB_ok)
  moreover have "tool_call ct_helpers d"
    using assms(3) by (simp add: d_def tool_call_def emptyIRDirty_def)
  moreover have "call_ok F gw dc d" if "arg_ok F dc a" "guard_ok F gw g" for F gw dc
    using that const by (simp add: d_def call_ok_def emptyIRDirty_def saneIRCallee_def)
  ultimately show ?thesis by blast
qed

lemma ct_load_inserts: "inserts_call ct_helpers ct_instrument_load"
  unfolding inserts_call_def
proof (intro allI impI)
  fix sb a n g sb'
  assume h: "wf_sb sb" "ct_instrument_load sb a n g = Inr sb'"
  then have "ct_mem_call ''trace_load'' (Iex_Const (Ico_U1 1)) sb a n = Inr sb'"
    by (auto simp: ct_instrument_load_def res_iff)
  from ct_mem_call_inserts [OF h(1) this]
  show "\<exists>d. sb' = push_stmt sb (Some (Ist_Dirty d)) \<and> tool_call ct_helpers d
     \<and> (\<forall>F gw dc. arg_ok F dc a \<longrightarrow> (\<forall>e. g = Some e \<longrightarrow> guard_ok F gw e) \<longrightarrow> call_ok F gw dc d)"
    by (auto simp: ct_helpers_def)
qed

lemma ct_store_inserts: "inserts_call ct_helpers ct_instrument_store"
  unfolding inserts_call_def
proof (intro allI impI)
  fix sb a n g sb'
  assume h: "wf_sb sb" "ct_instrument_store sb a n g = Inr sb'"
  then have "ct_mem_call ''trace_store'' (case g of None \<Rightarrow> Iex_Const (Ico_U1 1) | Some e \<Rightarrow> e) sb a n = Inr sb'"
    by (auto simp: ct_instrument_store_def res_iff)
  from ct_mem_call_inserts [OF h(1) this]
  show "\<exists>d. sb' = push_stmt sb (Some (Ist_Dirty d)) \<and> tool_call ct_helpers d
     \<and> (\<forall>F gw dc. arg_ok F dc a \<longrightarrow> (\<forall>e. g = Some e \<longrightarrow> guard_ok F gw e) \<longrightarrow> call_ok F gw dc d)"
    by (cases g) (auto simp: ct_helpers_def)
qed

lemma cache_block_addr_total: "good_addr E a \<Longrightarrow> \<exists>m. cache_block_addr a = Inr m"
  by (cases a) (auto simp: cache_block_addr_def isOk_iff)

interpretation ct_accs: access_calls ct_instrument_load ct_instrument_store ct_helpers
proof
  show "inserts_call ct_helpers ct_instrument_load" by (rule ct_load_inserts)
  show "inserts_call ct_helpers ct_instrument_store" by (rule ct_store_inserts)
  fix sb E a n g
  assume h: "wf_sb sb" "good_addr E a" "1 \<le> n" "n \<le> MAX_DSIZE"
  obtain m where m: "cache_block_addr a = Inr m" using cache_block_addr_total [OF h(2)] by blast
  show "\<exists>sb'. ct_instrument_load sb a n g = Inr sb'" "\<exists>sb'. ct_instrument_store sb a n g = Inr sb'"
    using h m good_addr_atom [OF h(2)]
    by (auto simp: ct_instrument_load_def ct_instrument_store_def ct_mem_call_def mkIRCallee_def
        addStmtToIRSB_ok)
qed

text \<open>Requirements: instruction lengths the assertion of \<open>instrument_instruction\<close> accepts, register
  offsets and types that have a code and a size, accesses of the sizes and addresses the tool handles,
  and no branch before the first instruction.\<close>

definition reg_req :: "platform \<Rightarrow> int \<Rightarrow> IRType \<Rightarrow> bool" where
  "reg_req p offset ty \<longleftrightarrow> isOk (sizeofIRType ty) \<and> isOk (offset_to_register p offset 0)"

fun ct_req :: "platform \<Rightarrow> IRTypeEnv \<Rightarrow> imark \<Rightarrow> IRStmt \<Rightarrow> bool" where
  "ct_req p E i (Ist_IMark addr len delta) = instr_size_ok p len"
| "ct_req p E i (Ist_Put offset dat) =
     (case typeOfIRExpr E dat of Inl _ \<Rightarrow> False | Inr ty \<Rightarrow> reg_req p offset ty)"
| "ct_req p E i (Ist_WrTmp tmp dat) =
     (accs_ok E (Ist_WrTmp tmp dat)
      \<and> (case dat of Iex_Get offset ty \<Rightarrow> reg_req p offset ty | _ \<Rightarrow> True))"
| "ct_req p E i (Ist_Exit guard jk dst offsIP) = (fst i \<noteq> 0 \<and> isOk (Ico_as_U64 dst))"
| "ct_req p E i st = accs_ok E st"

lemma one_call:
  assumes "wf_sb sb" "fn \<in> ct_helpers" "add_call 1 name fn [mkIRExpr_HWord w] sb = Inr sb'"
  shows "\<exists>out. adds_calls ct_helpers sb sb' out"
  using adds_calls_push [OF adds_calls_refl [OF assms(1)] assms(2), where n = 1 and args = "[mkIRExpr_HWord w]"]
    assms(3) by auto

lemma reg_calls:
  assumes "wf_sb sb" "instrument_reg_read p sb offset sz = Inr sb' \<or> instrument_reg_write p sb offset sz = Inr sb'"
  shows "\<exists>out. adds_calls ct_helpers sb sb' out"
proof -
  have "''trace_reg_read'' \<in> ct_helpers" "''trace_reg_write'' \<in> ct_helpers"
    by (simp_all add: ct_helpers_def)
  moreover have "\<exists>out. adds_calls ct_helpers sb sb out" using adds_calls_refl [OF assms(1)] by blast
  ultimately show ?thesis using assms(2) one_call [OF assms(1)]
    by (auto simp: instrument_reg_read_def instrument_reg_write_def res_iff split: if_splits)
qed

lemma offset_size_irrelevant: "offset_to_register p offset sz = offset_to_register p offset sz'"
  by (simp add: offset_to_register_def offset_to_x86_64_register_def split: platform.splits)

lemma reg_total:
  assumes "wf_sb sb" "isOk (offset_to_register p offset 0)"
  shows "\<exists>sb'. instrument_reg_read p sb offset sz = Inr sb' \<and> wf_sb sb'"
    and "\<exists>sb'. instrument_reg_write p sb offset sz = Inr sb' \<and> wf_sb sb'"
  using assms offset_size_irrelevant [of p offset sz 0]
  by (auto simp: instrument_reg_read_def instrument_reg_write_def isOk_iff add_call_ok)

text \<open>The four calls at an instruction.\<close>

definition imark_calls :: "IRExpr \<Rightarrow> 32 word \<Rightarrow> IRStmt option list" where
  "imark_calls iaddr isize = map (\<lambda>(n, name, fn, args). Some (Ist_Dirty (plain_call n name fn args)))
     [(0, ''inc_inst'', ''inc_inst'', []), (0, ''write_inst'', ''write_inst_to_file'', []),
      (0, ''zero_inst'', ''zero_inst'', []),
      (2, ''trace_instr'', ''trace_instr'', [iaddr, mkIRExpr_HWord (ucast isize)])]"

lemma instrument_instruction_calls:
  assumes "wf_sb sb" "instr_size_ok p isize"
  shows "\<exists>sb'. ct_instrument_instruction p sb (mkIRExpr_HWord w) isize = Inr sb'
    \<and> adds_calls ct_helpers sb sb' (imark_calls (mkIRExpr_HWord w) isize)"
proof -
  have h: "''inc_inst'' \<in> ct_helpers" "''write_inst_to_file'' \<in> ct_helpers" "''zero_inst'' \<in> ct_helpers"
      "''trace_instr'' \<in> ct_helpers" by (simp_all add: ct_helpers_def)
  note a = adds_calls_push [where n = 0 and args = "[]", simplified]
  note c1 = a [OF adds_calls_refl [OF assms(1)] h(1), of "''inc_inst''"]
  note c2 = a [OF c1(2) h(2), of "''write_inst''"]
  note c3 = a [OF c2(2) h(3), of "''zero_inst''"]
  note c4 = adds_calls_push [OF c3(2) h(4), where name = "''trace_instr''" and n = 2 and
      args = "[mkIRExpr_HWord w, mkIRExpr_HWord (ucast isize)]", simplified]
  show ?thesis
    using assms(2) c1(1) c2(1) c3(1) c4
    by (simp add: ct_instrument_instruction_def imark_calls_def)
qed

lemma ct_step_access_good:
  assumes "wf_sb sb" "ct_step p E sb i st = Inr (sb', i')"
    and st: "\<And>a l d. st \<noteq> Ist_IMark a l d" "\<And>o' e. st \<noteq> Ist_Put o' e" "\<And>g j d o'. st \<noteq> Ist_Exit g j d o'"
    and ok: "ok \<Longrightarrow> accs_ok E st"
  shows "i' = i \<and> good_step ct_helpers E st sb sb' ok"
proof -
  obtain sb1 where acc: "instrument_accesses ct_instrument_load ct_instrument_store E (push_stmt sb (Some st)) st = Inr sb1"
    and r: "i' = i" "\<exists>out. adds_calls ct_helpers sb1 sb' out"
  proof (cases "\<exists>t e. st = Ist_WrTmp t e")
    case True
    then obtain t e where st_eq: "st = Ist_WrTmp t e" by blast
    have "addStmtToIRSB sb (Some st) = Inr (push_stmt sb (Some st))"
      using assms(1) by (rule addStmtToIRSB_ok)
    with assms(2) have "bindR (instrument_accesses ct_instrument_load ct_instrument_store E
          (push_stmt sb (Some st)) st) (\<lambda>sb.
        bindR (case e of Iex_Get offset ty \<Rightarrow> bindR (sizeofIRType ty) (\<lambda>sz. instrument_reg_read p sb offset sz)
            | _ \<Rightarrow> Inr sb) (\<lambda>sb. Inr (sb, i))) = Inr (sb', i')"
      by (simp only: st_eq ct_step.simps bindR_Inr)
    then obtain sb1 where e: "instrument_accesses ct_instrument_load ct_instrument_store E
          (push_stmt sb (Some st)) st = Inr sb1"
        "(case e of Iex_Get offset ty \<Rightarrow> bindR (sizeofIRType ty) (\<lambda>sz. instrument_reg_read p sb1 offset sz)
            | _ \<Rightarrow> Inr sb1) = Inr sb'" "i' = i"
      by (elim bindR_InrE) simp
    have wf1: "wf_sb sb1" using ct_accs.accesses_wf [OF wf_push_stmt [OF assms(1)] e(1)] .
    have "\<exists>out. adds_calls ct_helpers sb1 sb1 out" using adds_calls_refl [OF wf1] by blast
    then have "\<exists>out. adds_calls ct_helpers sb1 sb' out"
      using e(2) reg_calls [OF wf1 disjI1] by (cases e) (auto simp: res_iff)
    with that e show thesis by blast
  next
    case False
    then have s: "instrument_accesses ct_instrument_load ct_instrument_store E (push_stmt sb (Some st)) st = Inr sb'"
        "i' = i"
      using assms(1,2) st by (cases st; auto simp: res_iff addStmtToIRSB_ok)+
    have "wf_sb sb'" using ct_accs.accesses_wf [OF wf_push_stmt [OF assms(1)] s(1)] .
    with that s adds_calls_refl show thesis by blast
  qed
  obtain out where out: "adds_calls ct_helpers sb1 sb' out" using r(2) by blast
  have "good_step ct_helpers E st sb sb' ok"
    using ct_accs.accesses_good [OF assms(1) acc out ok] .
  with r(1) show ?thesis by simp
qed

lemma ct_step_good:
  assumes "wf_sb sb" "isFlatIRStmt st = Inr True" "ct_step p E sb i st = Inr (sb', i')"
  shows "i' = advance i st" "good_step ct_helpers E st sb sb' (ct_req p E i st)"
proof -
  have "i' = advance i st \<and> good_step ct_helpers E st sb sb' (ct_req p E i st)"
  proof (cases st)
    case (Ist_IMark a l d)
    then have "instr_size_ok p l"
      using assms(3) by (auto simp: ct_instrument_instruction_def res_iff)
    from instrument_instruction_calls [OF assms(1) this] obtain sb1 where
      sb1: "ct_instrument_instruction p sb (mkIRExpr_HWord a) l = Inr sb1"
        "adds_calls ct_helpers sb sb1 (imark_calls (mkIRExpr_HWord a) l)" by blast
    have r: "sb' = push_stmt sb1 (Some st)" "i' = (a, l)"
      using assms(3) sb1(1) wf_adds [OF sb1(2)] Ist_IMark by (auto simp: addStmtToIRSB_ok)
    show ?thesis
      using good_step_calls [OF sb1(2) adds_push [OF sb1(2)]] r Ist_IMark by simp
  next
    case (Ist_Put offset dat)
    then obtain sz sb1 where sb1: "instrument_reg_write p sb offset sz = Inr sb1"
        "bindR (addStmtToIRSB sb1 (Some st)) (\<lambda>sb. Inr (sb, i)) = Inr (sb', i')"
      using assms(3) by (auto elim!: bindR_InrE)
    from reg_calls [OF assms(1) disjI2 [OF sb1(1)]] obtain out where
      out: "adds_calls ct_helpers sb sb1 out" by blast
    have "sb' = push_stmt sb1 (Some st)" "i' = i"
      using sb1(2) wf_adds [OF out] by (auto simp: addStmtToIRSB_ok)
    then show ?thesis
      using good_step_calls [OF out adds_push [OF out]] Ist_Put by simp
  next
    case (Ist_Exit guard jk dst offs)
    then obtain sb1 where sb1: "instrument_exit sb i guard jk dst = Inr sb1"
        "bindR (addStmtToIRSB sb1 (Some st)) (\<lambda>sb. Inr (sb, i)) = Inr (sb', i')"
      using assms(3) by (auto elim!: bindR_InrE)
    have fn: "''trace_branch_conditional'' \<in> ct_helpers" by (simp add: ct_helpers_def)
    note exit = exit_good [OF assms(1,2) Ist_Exit sb1(1) fn]
    have "sb' = push_stmt sb1 (Some st)" "i' = i"
      using sb1(2) exit(1) by (auto simp: addStmtToIRSB_ok)
    with exit(2) Ist_Exit show ?thesis by simp
  qed (use ct_step_access_good [OF assms(1,3)] in auto)
  then show "i' = advance i st" "good_step ct_helpers E st sb sb' (ct_req p E i st)" by auto
qed

lemma ct_step_imark: "ct_step p E sb i st = Inr (sb', i') \<Longrightarrow> i' = advance i st"
  by (cases st) (auto elim!: bindR_InrE)

lemma ct_step_total:
  assumes "wf_sb sb" "ct_req p E i st"
  shows "\<exists>sb' i'. ct_step p E sb i st = Inr (sb', i') \<and> wf_sb sb'"
proof -
  have acc: "accs_ok E st \<Longrightarrow> \<exists>sb1. instrument_accesses ct_instrument_load ct_instrument_store E
      (push_stmt sb (Some st)) st = Inr sb1 \<and> wf_sb sb1"
    using ct_accs.instrument_accesses_total [OF wf_push_stmt [OF assms(1)]] .
  show ?thesis
  proof (cases st)
    case (Ist_IMark a l d)
    then obtain sb1 where sb1: "ct_instrument_instruction p sb (mkIRExpr_HWord a) l = Inr sb1"
        "adds_calls ct_helpers sb sb1 (imark_calls (mkIRExpr_HWord a) l)"
      using assms(2) instrument_instruction_calls [OF assms(1), of p l a] by auto
    with Ist_IMark wf_adds [OF sb1(2)] show ?thesis by (simp add: addStmtToIRSB_ok)
  next
    case (Ist_Put offset dat)
    then obtain ty sz where ty: "typeOfIRExpr E dat = Inr ty" "sizeofIRType ty = Inr sz"
        "isOk (offset_to_register p offset 0)"
      using assms(2) by (auto simp: reg_req_def isOk_iff split: sum.splits)
    obtain sb1 where "instrument_reg_write p sb offset sz = Inr sb1" "wf_sb sb1"
      using reg_total(2) [OF assms(1) ty(3)] by blast
    with ty Ist_Put show ?thesis by (simp add: addStmtToIRSB_ok)
  next
    case (Ist_WrTmp t e)
    then obtain sb1 where
      sb1: "instrument_accesses ct_instrument_load ct_instrument_store E (push_stmt sb (Some st)) st = Inr sb1"
        "wf_sb sb1" using assms(2) acc by auto
    have "\<exists>sb2. (case e of
                Iex_Get offset ty \<Rightarrow> bindR (sizeofIRType ty) (\<lambda>sz. instrument_reg_read p sb1 offset sz)
              | _ \<Rightarrow> Inr sb1) = Inr sb2 \<and> wf_sb sb2"
    proof (cases e)
      case (Iex_Get offset ty)
      then obtain sz where "sizeofIRType ty = Inr sz" "isOk (offset_to_register p offset 0)"
        using assms(2) Ist_WrTmp by (auto simp: reg_req_def isOk_iff)
      then show ?thesis using reg_total(1) [OF sb1(2), of p offset sz] Iex_Get by simp
    qed (use sb1(2) in auto)
    then show ?thesis
      using sb1(1) assms(1) Ist_WrTmp by (auto simp: addStmtToIRSB_ok)
  next
    case (Ist_Exit guard jk dst offs)
    then have "\<exists>sb1. instrument_exit sb i guard jk dst = Inr sb1 \<and> wf_sb sb1"
      using assms(2) by (intro exit_total [OF assms(1)]) auto
    with Ist_Exit show ?thesis by (auto simp: addStmtToIRSB_ok)
  qed (use assms acc in \<open>auto simp: addStmtToIRSB_ok\<close>)
qed

interpretation ct: stmt_instrumenter "ct_step p" ct_helpers "ct_req p" for p
proof
  fix sb E i st sb' i'
  assume h: "wf_sb sb" "isFlatIRStmt st = Inr True" "ct_step p E sb i st = Inr (sb', i')"
  show "\<exists>tys pre post. grows sb sb' tys (pre @ [Some st] @ post) \<and> (\<forall>ty\<in>set tys. tool_type ty)
        \<and> (\<forall>t\<in>set pre \<union> set post. is_tool_stmt ct_helpers (types_used (tyenv sb)) t)"
    using ct_step_good(2) [OF h] unfolding good_step_def by (elim exE conjE) (intro exI conjI)
next
  show "i' = advance i st" if "ct_step p E sb i st = Inr (sb', i')" for sb E i st sb' i'
    using that by (rule ct_step_imark)
next
  fix sb E i st gw sb' i' tys chunk xs ys and dc mid dc1 :: "nat list" and F :: IRTypeEnv
  assume h: "wf_sb sb" "ct_req p E i st" "ct_step p E sb i st = Inr (sb', i')" "grows sb sb' tys chunk"
    "types (tyenv sb) = types E @ xs" "length dc = types_used E" "length mid = length xs"
    "chunk_ok E gw dc [Some st] dc1" "types F = types (tyenv sb') @ ys"
  have "isFlatIRStmt st = Inr True" using h(8) by (auto simp: chunk_ok_single stmt_ok_def)
  from ct_step_good(2) [OF h(1) this h(3)] h(2) have "good_step ct_helpers E st sb sb' True" by simp
  then show "chunk_ok F gw (dc @ mid @ replicate (length tys + length ys) 0) chunk
        (dc1 @ mid @ replicate (length tys) 1 @ replicate (length ys) 0)"
    using h(4-9) by (rule good_step_sane)
qed (rule ct_step_total)

section \<open>Whole blocks\<close>

lemma ct_tail_calls:
  assumes "wf_sb sb" "ct_tail sbIn sb = Inr sb'"
  shows "\<exists>out. adds_calls ct_helpers sb sb' out"
proof -
  have "''trace_branch_direct'' \<in> ct_helpers" "''trace_branch_indirect'' \<in> ct_helpers"
    by (simp_all add: ct_helpers_def)
  moreover have "\<exists>out. adds_calls ct_helpers sb sb out" using adds_calls_refl [OF assms(1)] by blast
  ultimately show ?thesis
    using assms(2) one_call [OF assms(1)]
    by (auto simp: ct_tail_def instrument_branch_direct_def instrument_branch_indirect_def
        split: if_splits IRExpr.splits elim!: bindR_InrE)
qed

lemma ct_instrument_translate:
  assumes "ct_instrument p sbIn gw hw = Inr sbOut"
  obtains sb where "translate_stmts (ct_step p) sbIn = Inr sb" "ct_tail sbIn sb = Inr sbOut"
  using assms by (auto simp: ct_instrument_def split: if_splits elim!: bindR_InrE)

lemma ct_block_woven:
  assumes "ct_instrument p sbIn gw hw = Inr sbOut" "wf_env (tyenv sbIn)" "flat_stmts (stmts sbIn)"
  shows "woven ct_helpers (types_used (tyenv sbIn)) (stmts sbIn) (stmts sbOut)
    \<and> (\<exists>tys. types (tyenv sbOut) = types (tyenv sbIn) @ tys \<and> (\<forall>ty\<in>set tys. tool_type ty))
    \<and> sb_next sbOut = sb_next sbIn \<and> sb_jumpkind sbOut = sb_jumpkind sbIn
    \<and> sb_offsIP sbOut = sb_offsIP sbIn \<and> wf_sb sbOut"
proof -
  obtain sb where sb: "translate_stmts (ct_step p) sbIn = Inr sb" "ct_tail sbIn sb = Inr sbOut"
    using ct_instrument_translate [OF assms(1)] .
  obtain tys where w: "types (tyenv sb) = types (tyenv sbIn) @ tys" "\<forall>ty\<in>set tys. tool_type ty"
      "woven ct_helpers (types_used (tyenv sbIn)) (stmts sbIn) (stmts sb)" "sb_next sb = sb_next sbIn"
      "sb_jumpkind sb = sb_jumpkind sbIn" "sb_offsIP sb = sb_offsIP sbIn" "wf_sb sb"
    using ct.translate_woven [OF sb(1) assms(2,3)] by (elim exE conjE)
  obtain out where out: "adds_calls ct_helpers sb sbOut out" using ct_tail_calls [OF w(7) sb(2)] by blast
  then have "grows sb sbOut [] out" by (simp only: adds_calls_def)
  with w woven_adds [OF w(3) out] show ?thesis by (auto simp: grows_def)
qed

lemma ct_block_total:
  assumes "wf_env (tyenv sbIn)" "sanityCheckIRSB sbIn True gw = Inr ()"
    and "all_req (ct_req p (tyenv sbIn)) (0, 0) (from_first_imark (stmts sbIn))"
  shows "\<exists>sbOut. ct_instrument p sbIn gw gw = Inr sbOut \<and> sanityCheckIRSB sbOut True gw = Inr ()"
proof -
  obtain nx where nx: "sb_next sbIn = Some nx" "isIRAtom nx" "deepCopyIRExpr nx = Inr nx"
    using sane_block_facts(1) [OF assms(2)] by blast
  obtain sb where sb: "translate_stmts (ct_step p) sbIn = Inr sb"
    using ct.translate_total [OF assms(1) nx(1,3) sane_block_facts(2) [OF assms(2)] assms(3)] by blast
  have sane: "sanityCheckIRSB sb True gw = Inr ()"
    using ct.translate_sane [OF sb assms(1,2,3)] .
  have wf: "wf_sb sb"
    using ct.translate_woven [OF sb assms(1) sane_block_facts(3) [OF assms(2)]] by (elim exE conjE)
  have "\<exists>sbOut. ct_tail sbIn sb = Inr sbOut"
    using nx(1,2) wf
    by (cases nx) (auto simp: ct_tail_def instrument_branch_direct_def instrument_branch_indirect_def add_call_ok)
  then obtain sbOut where out: "ct_tail sbIn sb = Inr sbOut" by blast
  obtain calls where "adds_calls ct_helpers sb sbOut calls" using ct_tail_calls [OF wf out] by blast
  from sanity_adds [OF sane this] out sb show ?thesis by (simp add: ct_instrument_def)
qed

end
