(* ===== verification/Cl_Instrument.thy ===== *)
theory Cl_Instrument
  imports Tool_Access Guest_Layout
begin

text \<open>
  The instrumentation of ctlite (\<open>ctlite/cl_main.c\<close>): \<open>instrument_instruction\<close>,
  \<open>instrument_load\<close> and \<open>instrument_store\<close> with the prefix \<open>cl_\<close>, and \<open>cl_instrument\<close>, whose
  treatment of one statement is \<open>cl_step\<close>. ctlite inserts one call at an instruction, one for each
  memory access and one for each conditional branch; it does not look at registers.

  The tool meets the interfaces \<open>access_calls\<close> and \<open>stmt_instrumenter\<close>; \<open>cl_req\<close> is what it
  requires of a statement.
\<close>

definition cl_instrument_instruction :: "platform \<Rightarrow> IRSB \<Rightarrow> IRExpr \<Rightarrow> 32 word \<Rightarrow> IRSB res" where
  "cl_instrument_instruction p sb iaddr isize =
     bindR (assertR (instr_size_ok p isize) (ToolAssert ''isize'')) (\<lambda>_.
     add_call 2 ''trace_instr'' ''trace_instr'' [iaddr, mkIRExpr_HWord (ucast isize)] sb)"

definition cl_mem_call :: "string \<Rightarrow> IRExpr \<Rightarrow> IRSB \<Rightarrow> IRExpr \<Rightarrow> int \<Rightarrow> IRSB res" where
  "cl_mem_call fn guard sb daddr dsize =
     bindR (mkIRCallee 2 (Some fn) (Fn fn)) (\<lambda>cee.
     addStmtToIRSB sb (Some (Ist_Dirty (emptyIRDirty\<lparr>
       d_args := Some [daddr, mkIRExpr_HWord (of_int dsize)], d_cee := Some cee,
       d_guard := Some guard\<rparr>))))"

definition cl_instrument_load :: "IRSB \<Rightarrow> IRExpr \<Rightarrow> int \<Rightarrow> IRExpr option \<Rightarrow> IRSB res" where
  "cl_instrument_load sb daddr dsize guard =
     bindR (assertR (isIRAtom daddr) (ToolAssert ''isIRAtom(daddr)'')) (\<lambda>_.
     bindR (assertR (dsize \<ge> 1 \<and> dsize \<le> MAX_DSIZE) (ToolAssert ''dsize'')) (\<lambda>_.
     bindR (IRConst_U1 1) (\<lambda>c. cl_mem_call ''trace_load'' (Iex_Const c) sb daddr dsize)))"

definition cl_instrument_store :: "IRSB \<Rightarrow> IRExpr \<Rightarrow> int \<Rightarrow> IRExpr option \<Rightarrow> IRSB res" where
  "cl_instrument_store sb daddr dsize guard =
     bindR (assertR (isIRAtom daddr) (ToolAssert ''isIRAtom(daddr)'')) (\<lambda>_.
     bindR (assertR (dsize \<ge> 1 \<and> dsize \<le> MAX_DSIZE) (ToolAssert ''dsize'')) (\<lambda>_.
     bindR (IRConst_U1 1) (\<lambda>c.
     cl_mem_call ''trace_store'' (case guard of None \<Rightarrow> Iex_Const c | Some g \<Rightarrow> g) sb daddr dsize)))"

fun cl_step :: "platform \<Rightarrow> IRTypeEnv \<Rightarrow> IRSB \<Rightarrow> imark \<Rightarrow> IRStmt \<Rightarrow> (IRSB \<times> imark) res" where
  "cl_step p E sb i (Ist_IMark addr len delta) =
     bindR (cl_instrument_instruction p sb (mkIRExpr_HWord addr) len) (\<lambda>sb.
     bindR (addStmtToIRSB sb (Some (Ist_IMark addr len delta))) (\<lambda>sb. Inr (sb, (addr, len))))"
| "cl_step p E sb i (Ist_Exit guard jk dst offsIP) =
     bindR (instrument_exit sb i guard jk dst) (\<lambda>sb.
     bindR (addStmtToIRSB sb (Some (Ist_Exit guard jk dst offsIP))) (\<lambda>sb. Inr (sb, i)))"
| "cl_step p E sb i st =
     bindR (addStmtToIRSB sb (Some st)) (\<lambda>sb.
     bindR (instrument_accesses cl_instrument_load cl_instrument_store E sb st) (\<lambda>sb. Inr (sb, i)))"

definition cl_instrument :: "platform \<Rightarrow> IRSB \<Rightarrow> IRType \<Rightarrow> IRType \<Rightarrow> IRSB res" where
  "cl_instrument p sbIn gWordTy hWordTy =
     (if gWordTy \<noteq> hWordTy then Inl (ToolPanic ''host/guest word size mismatch'')
      else translate_stmts (cl_step p) sbIn)"

section \<open>The tool meets its interfaces\<close>

definition cl_helpers :: "string set" where
  "cl_helpers = {''trace_instr'', ''trace_load'', ''trace_store'', ''trace_branch_conditional''}"

lemma cl_mem_call_inserts:
  assumes "wf_sb sb" "fn \<in> cl_helpers"
  shows "\<exists>d. cl_mem_call fn g sb a n = Inr (push_stmt sb (Some (Ist_Dirty d))) \<and> tool_call cl_helpers d
     \<and> (\<forall>F gw dc. arg_ok F dc a \<longrightarrow> guard_ok F gw g \<longrightarrow> call_ok F gw dc d)"
proof -
  define d where "d = emptyIRDirty\<lparr>d_args := Some [a, mkIRExpr_HWord (of_int n)],
       d_cee := Some \<lparr>cee_regparms = 2, cee_name = Some fn, cee_addr = Fn fn, cee_mcx_mask = 0\<rparr>,
       d_guard := Some g\<rparr>"
  have "cl_mem_call fn g sb a n = Inr (push_stmt sb (Some (Ist_Dirty d)))"
    using assms(1) by (simp add: cl_mem_call_def mkIRCallee_def addStmtToIRSB_ok d_def)
  moreover have "tool_call cl_helpers d"
    using assms(2) by (simp add: d_def tool_call_def emptyIRDirty_def)
  moreover have "call_ok F gw dc d" if "arg_ok F dc a" "guard_ok F gw g" for F gw dc
    using that by (simp add: d_def call_ok_def emptyIRDirty_def saneIRCallee_def)
  ultimately show ?thesis by blast
qed

lemma cl_load_inserts: "inserts_call cl_helpers cl_instrument_load"
  unfolding inserts_call_def
proof (intro allI impI)
  fix sb a n g sb'
  assume h: "wf_sb sb" "cl_instrument_load sb a n g = Inr sb'"
  then have "cl_mem_call ''trace_load'' (Iex_Const (Ico_U1 1)) sb a n = Inr sb'"
    by (auto simp: cl_instrument_load_def res_iff)
  with cl_mem_call_inserts [OF h(1), of "''trace_load''" "Iex_Const (Ico_U1 1)" a n]
  show "\<exists>d. sb' = push_stmt sb (Some (Ist_Dirty d)) \<and> tool_call cl_helpers d
     \<and> (\<forall>F gw dc. arg_ok F dc a \<longrightarrow> (\<forall>e. g = Some e \<longrightarrow> guard_ok F gw e) \<longrightarrow> call_ok F gw dc d)"
    by (auto simp: cl_helpers_def)
qed

lemma cl_store_inserts: "inserts_call cl_helpers cl_instrument_store"
  unfolding inserts_call_def
proof (intro allI impI)
  fix sb a n g sb'
  assume h: "wf_sb sb" "cl_instrument_store sb a n g = Inr sb'"
  let ?g = "case g of None \<Rightarrow> Iex_Const (Ico_U1 1) | Some e \<Rightarrow> e"
  have "cl_mem_call ''trace_store'' ?g sb a n = Inr sb'"
    using h by (auto simp: cl_instrument_store_def res_iff)
  with cl_mem_call_inserts [OF h(1), of "''trace_store''" ?g a n]
  show "\<exists>d. sb' = push_stmt sb (Some (Ist_Dirty d)) \<and> tool_call cl_helpers d
     \<and> (\<forall>F gw dc. arg_ok F dc a \<longrightarrow> (\<forall>e. g = Some e \<longrightarrow> guard_ok F gw e) \<longrightarrow> call_ok F gw dc d)"
    by (cases g) (auto simp: cl_helpers_def)
qed

interpretation cl_accs: access_calls cl_instrument_load cl_instrument_store cl_helpers
proof
  show "inserts_call cl_helpers cl_instrument_load" by (rule cl_load_inserts)
  show "inserts_call cl_helpers cl_instrument_store" by (rule cl_store_inserts)
  fix sb E a n g
  assume h: "wf_sb sb" "good_addr E a" "1 \<le> n" "n \<le> MAX_DSIZE"
  show "\<exists>sb'. cl_instrument_load sb a n g = Inr sb'" "\<exists>sb'. cl_instrument_store sb a n g = Inr sb'"
    using h good_addr_atom [OF h(2)]
    by (auto simp: cl_instrument_load_def cl_instrument_store_def cl_mem_call_def mkIRCallee_def
        addStmtToIRSB_ok)
qed

fun cl_req :: "platform \<Rightarrow> IRTypeEnv \<Rightarrow> imark \<Rightarrow> IRStmt \<Rightarrow> bool" where
  "cl_req p E i (Ist_IMark addr len delta) = instr_size_ok p len"
| "cl_req p E i (Ist_Exit guard jk dst offsIP) = (fst i \<noteq> 0 \<and> isOk (Ico_as_U64 dst))"
| "cl_req p E i st = accs_ok E st"

lemma cl_instruction_call:
  assumes "wf_sb sb" "instr_size_ok p isize"
  shows "\<exists>sb' out. cl_instrument_instruction p sb (mkIRExpr_HWord w) isize = Inr sb'
    \<and> adds_calls cl_helpers sb sb' out"
proof -
  have "''trace_instr'' \<in> cl_helpers" by (simp add: cl_helpers_def)
  from adds_calls_push [OF adds_calls_refl [OF assms(1)] this, where name = "''trace_instr''" and n = 2
      and args = "[mkIRExpr_HWord w, mkIRExpr_HWord (ucast isize)]"] assms(2)
  show ?thesis by (auto simp: cl_instrument_instruction_def)
qed

lemma cl_step_imark: "cl_step p E sb i st = Inr (sb', i') \<Longrightarrow> i' = advance i st"
  by (cases st) (auto elim!: bindR_InrE)

lemma cl_step_good:
  assumes "wf_sb sb" "isFlatIRStmt st = Inr True" "cl_step p E sb i st = Inr (sb', i')"
  shows "good_step cl_helpers E st sb sb' (cl_req p E i st)"
proof -
  have acc: "good_step cl_helpers E st sb sb' (accs_ok E st)"
    if "instrument_accesses cl_instrument_load cl_instrument_store E (push_stmt sb (Some st)) st = Inr sb'"
    using cl_accs.accesses_good [OF assms(1) that adds_calls_refl]
      cl_accs.accesses_wf [OF wf_push_stmt [OF assms(1)] that] by blast
  show ?thesis
  proof (cases st)
    case (Ist_IMark a l d)
    then have "instr_size_ok p l"
      using assms(3) by (auto simp: cl_instrument_instruction_def res_iff)
    from cl_instruction_call [OF assms(1) this] obtain sb1 out where
      sb1: "cl_instrument_instruction p sb (mkIRExpr_HWord a) l = Inr sb1"
        "adds_calls cl_helpers sb sb1 out" by blast
    have "sb' = push_stmt sb1 (Some st)"
      using assms(3) sb1(1) wf_adds [OF sb1(2)] Ist_IMark by (auto simp: addStmtToIRSB_ok)
    then show ?thesis
      using good_step_calls [OF sb1(2) adds_push [OF sb1(2)]] by simp
  next
    case (Ist_Exit guard jk dst offs)
    then obtain sb1 where sb1: "instrument_exit sb i guard jk dst = Inr sb1"
        "bindR (addStmtToIRSB sb1 (Some st)) (\<lambda>sb. Inr (sb, i)) = Inr (sb', i')"
      using assms(3) by (auto elim!: bindR_InrE)
    have fn: "''trace_branch_conditional'' \<in> cl_helpers" by (simp add: cl_helpers_def)
    note exit = exit_good [OF assms(1,2) Ist_Exit sb1(1) fn]
    have "sb' = push_stmt sb1 (Some st)"
      using sb1(2) exit(1) by (auto simp: addStmtToIRSB_ok)
    with exit(2) show ?thesis by simp
  qed (use acc assms(1,3) in \<open>auto simp: addStmtToIRSB_ok elim!: bindR_InrE\<close>)
qed

lemma cl_step_total:
  assumes "wf_sb sb" "cl_req p E i st"
  shows "\<exists>sb' i'. cl_step p E sb i st = Inr (sb', i') \<and> wf_sb sb'"
proof -
  have acc: "accs_ok E st \<Longrightarrow> \<exists>sb1. instrument_accesses cl_instrument_load cl_instrument_store E
      (push_stmt sb (Some st)) st = Inr sb1 \<and> wf_sb sb1"
    using cl_accs.instrument_accesses_total [OF wf_push_stmt [OF assms(1)]] .
  show ?thesis
  proof (cases st)
    case (Ist_IMark a l d)
    then obtain sb1 out where sb1: "cl_instrument_instruction p sb (mkIRExpr_HWord a) l = Inr sb1"
        "adds_calls cl_helpers sb sb1 out"
      using assms(2) cl_instruction_call [OF assms(1), of p l a] by auto
    with Ist_IMark wf_adds [OF sb1(2)] show ?thesis by (simp add: addStmtToIRSB_ok)
  next
    case (Ist_Exit guard jk dst offs)
    then have "\<exists>sb1. instrument_exit sb i guard jk dst = Inr sb1 \<and> wf_sb sb1"
      using assms(2) by (intro exit_total [OF assms(1)]) auto
    with Ist_Exit show ?thesis by (auto simp: addStmtToIRSB_ok)
  qed (use assms acc in \<open>auto simp: addStmtToIRSB_ok\<close>)
qed

interpretation cl: stmt_instrumenter "cl_step p" cl_helpers "cl_req p" for p
proof
  fix sb E i st sb' i'
  assume h: "wf_sb sb" "isFlatIRStmt st = Inr True" "cl_step p E sb i st = Inr (sb', i')"
  show "\<exists>tys pre post. grows sb sb' tys (pre @ [Some st] @ post) \<and> (\<forall>ty\<in>set tys. tool_type ty)
        \<and> (\<forall>t\<in>set pre \<union> set post. is_tool_stmt cl_helpers (types_used (tyenv sb)) t)"
    using cl_step_good [OF h] unfolding good_step_def by (elim exE conjE) (intro exI conjI)
next
  show "i' = advance i st" if "cl_step p E sb i st = Inr (sb', i')" for sb E i st sb' i'
    using that by (rule cl_step_imark)
next
  fix sb E i st gw sb' i' tys chunk xs ys and dc mid dc1 :: "nat list" and F :: IRTypeEnv
  assume h: "wf_sb sb" "cl_req p E i st" "cl_step p E sb i st = Inr (sb', i')" "grows sb sb' tys chunk"
    "types (tyenv sb) = types E @ xs" "length dc = types_used E" "length mid = length xs"
    "chunk_ok E gw dc [Some st] dc1" "types F = types (tyenv sb') @ ys"
  have "isFlatIRStmt st = Inr True" using h(8) by (auto simp: chunk_ok_single stmt_ok_def)
  from cl_step_good [OF h(1) this h(3)] h(2) have "good_step cl_helpers E st sb sb' True" by simp
  then show "chunk_ok F gw (dc @ mid @ replicate (length tys + length ys) 0) chunk
        (dc1 @ mid @ replicate (length tys) 1 @ replicate (length ys) 0)"
    using h(4-9) by (rule good_step_sane)
qed (rule cl_step_total)

section \<open>Whole blocks\<close>

lemma cl_block_woven:
  assumes "cl_instrument p sbIn gw hw = Inr sbOut" "wf_env (tyenv sbIn)" "flat_stmts (stmts sbIn)"
  shows "woven cl_helpers (types_used (tyenv sbIn)) (stmts sbIn) (stmts sbOut)
    \<and> (\<exists>tys. types (tyenv sbOut) = types (tyenv sbIn) @ tys \<and> (\<forall>ty\<in>set tys. tool_type ty))
    \<and> sb_next sbOut = sb_next sbIn \<and> sb_jumpkind sbOut = sb_jumpkind sbIn
    \<and> sb_offsIP sbOut = sb_offsIP sbIn \<and> wf_sb sbOut"
proof -
  have "translate_stmts (cl_step p) sbIn = Inr sbOut"
    using assms(1) by (auto simp: cl_instrument_def split: if_splits)
  from cl.translate_woven [OF this assms(2,3)] show ?thesis by blast
qed

lemma cl_block_total:
  assumes "wf_env (tyenv sbIn)" "sanityCheckIRSB sbIn True gw = Inr ()"
    and "all_req (cl_req p (tyenv sbIn)) (0, 0) (from_first_imark (stmts sbIn))"
  shows "\<exists>sbOut. cl_instrument p sbIn gw gw = Inr sbOut \<and> sanityCheckIRSB sbOut True gw = Inr ()"
proof -
  obtain nx where nx: "sb_next sbIn = Some nx" "isIRAtom nx" "deepCopyIRExpr nx = Inr nx"
    using sane_block_facts(1) [OF assms(2)] by blast
  obtain sb where sb: "translate_stmts (cl_step p) sbIn = Inr sb"
    using cl.translate_total [OF assms(1) nx(1,3) sane_block_facts(2) [OF assms(2)] assms(3)] by blast
  from cl.translate_sane [OF sb assms(1,2,3)] sb show ?thesis by (simp add: cl_instrument_def)
qed

end
