(* ===== verification/Tool_Calls.thy ===== *)
theory Tool_Calls
  imports Ct_Instrument Cl_Instrument
begin

text \<open>
  Which helper calls an instrumented block makes, and in which order.

  The event of a call is the helper's name with its first argument (the address of an instruction or
  access, the code of a register, the inversion flag or jump kind of a branch). The locale
  \<open>event_step\<close> has as its law that one step of the statement loop appends the statement together
  with calls whose events are a given function of the statement; its theorem gives the events of a
  whole block, instruction by instruction. It is interpreted for both tools, so that the calls of a
  block are known exactly: neither tool misses an event or adds one.
\<close>

section \<open>Events of a block\<close>

type_synonym event = "string \<times> IRExpr list"

definition call_event :: "string set \<Rightarrow> IRStmt option \<Rightarrow> event list" where
  "call_event fns st =
     (case st of
        Some (Ist_Dirty d) \<Rightarrow>
          (case d_cee d of
             Some cee \<Rightarrow>
               (case cee_addr cee of
                  Fn f \<Rightarrow> if f \<in> fns then [(f, case d_args d of None \<Rightarrow> [] | Some as \<Rightarrow> take 1 as)] else []
                | NullFn \<Rightarrow> [])
           | None \<Rightarrow> [])
      | _ \<Rightarrow> [])"

definition events :: "string set \<Rightarrow> IRStmt option list \<Rightarrow> event list" where
  "events fns sts = concat (map (call_event fns) sts)"

text \<open>The statements of a block by instruction: each \<open>IMark\<close> with the statements up to the next one.
  Entries that the loop skips are left out.\<close>

fun instructions_of :: "imark \<Rightarrow> IRStmt list \<Rightarrow> IRStmt option list \<Rightarrow> (imark \<times> IRStmt list) list" where
  "instructions_of i ss [] = [(i, ss)]"
| "instructions_of i ss (st # sts) =
     (case st of
        None \<Rightarrow> instructions_of i ss sts
      | Some (Ist_IMark addr len delta) \<Rightarrow> (i, ss) # instructions_of (addr, len) [] sts
      | Some s \<Rightarrow> instructions_of i (if s = Ist_NoOp then ss else ss @ [s]) sts)"

text \<open>Before the first instruction there is nothing but the preamble.\<close>

fun block_instructions :: "IRStmt option list \<Rightarrow> (imark \<times> IRStmt list) list" where
  "block_instructions [] = []"
| "block_instructions (st # sts) =
     (case st of
        Some (Ist_IMark addr len delta) \<Rightarrow> instructions_of (addr, len) [] sts
      | _ \<Rightarrow> block_instructions sts)"

lemma events_append [simp]: "events fns (xs @ ys) = events fns xs @ events fns ys"
  by (simp add: events_def)

lemma events_Nil [simp]: "events fns [] = []"
  by (simp add: events_def)

lemma events_Cons: "events fns (st # sts) = call_event fns st @ events fns sts"
  by (simp add: events_def)

lemma events_single: "events fns [st] = call_event fns st"
  by (simp add: events_def)

lemma addStmtToIRSB_stmts: "addStmtToIRSB sb st = Inr sb' \<Longrightarrow> stmts sb' = stmts sb @ [st]"
  by (auto simp: addStmtToIRSB_def Let_def res_iff)

lemma call_event_other [simp]:
  "(\<And>d. st \<noteq> Ist_Dirty d) \<Longrightarrow> call_event fns (Some st) = []"
  by (cases st) (auto simp: call_event_def)

lemma add_call_events:
  assumes "add_call n name fn args sb = Inr sb'" "fn \<in> fns"
  shows "events fns (stmts sb') = events fns (stmts sb) @ [(fn, take 1 args)]"
proof -
  obtain di where di: "unsafeIRDirty_0_N n name (Fn fn) args = Inr di"
      "addStmtToIRSB sb (Some (Ist_Dirty di)) = Inr sb'"
    using assms(1) by (auto simp: add_call_def res_iff)
  have "call_event fns (Some (Ist_Dirty di)) = [(fn, take 1 args)]"
    using di(1) assms(2)
    by (auto simp: unsafeIRDirty_0_N_def mkIRCallee_def res_iff call_event_def)
  with addStmtToIRSB_stmts [OF di(2)] show ?thesis by (simp add: events_single)
qed

section \<open>The interface of a step\<close>

text \<open>The events of an instruction: those of its \<open>IMark\<close>, then those of its statements.\<close>

definition instr_events :: "(imark \<Rightarrow> event list) \<Rightarrow> (imark \<Rightarrow> IRStmt \<Rightarrow> event list) \<Rightarrow>
    imark \<times> IRStmt list \<Rightarrow> event list" where
  "instr_events mark evs = (\<lambda>(i, ss). mark i @ concat (map (evs i) ss))"

lemma copy_preamble_stmts:
  "copy_preamble sb sts = Inr (sb', rest) \<Longrightarrow> \<exists>pre. sts = pre @ rest \<and> stmts sb' = stmts sb @ pre"
proof (induction sts arbitrary: sb)
  case (Cons st sts)
  show ?case
  proof (cases "\<exists>addr len delta. st = Some (Ist_IMark addr len delta)")
    case True
    then show ?thesis using Cons.prems by auto
  next
    case False
    with Cons.prems obtain sb1 where s1: "addStmtToIRSB sb st = Inr sb1" "copy_preamble sb1 sts = Inr (sb', rest)"
      by (cases st; cases "the st") (auto simp: res_iff)
    from Cons.IH [OF s1(2)] addStmtToIRSB_stmts [OF s1(1)] show ?thesis by auto
  qed
qed simp

lemma block_instructions_rest:
  assumes "copy_preamble sb sts = Inr (sb', rest)"
  shows "rest = [] \<and> block_instructions sts = []
    \<or> (\<exists>addr len delta sts'. rest = Some (Ist_IMark addr len delta) # sts'
         \<and> block_instructions sts = instructions_of (addr, len) [] sts')"
  using assms
proof (induction sts arbitrary: sb)
  case (Cons st sts)
  show ?case
  proof (cases "\<exists>addr len delta. st = Some (Ist_IMark addr len delta)")
    case True
    then show ?thesis using Cons.prems by auto
  next
    case False
    with Cons.prems obtain sb1 where "copy_preamble sb1 sts = Inr (sb', rest)"
      by (cases st; cases "the st") (auto simp: res_iff)
    moreover have "block_instructions (st # sts) = block_instructions sts"
      using False by (cases st; cases "the st") auto
    ultimately show ?thesis using Cons.IH by simp
  qed
qed simp

locale event_step =
  fixes step :: "IRTypeEnv \<Rightarrow> IRSB \<Rightarrow> imark \<Rightarrow> IRStmt \<Rightarrow> (IRSB \<times> imark) res"
    and fns :: "string set"
    and mark :: "imark \<Rightarrow> event list"
    and evs :: "IRTypeEnv \<Rightarrow> imark \<Rightarrow> IRStmt \<Rightarrow> event list"
  assumes mark_step: "step E sb i (Ist_IMark addr len delta) = Inr (sb', i') \<Longrightarrow>
      events fns (stmts sb') = events fns (stmts sb) @ mark (addr, len) \<and> i' = (addr, len)"
    and other_step: "step E sb i st = Inr (sb', i') \<Longrightarrow> (\<And>addr len delta. st \<noteq> Ist_IMark addr len delta) \<Longrightarrow>
      call_event fns (Some st) = [] \<Longrightarrow>
      events fns (stmts sb') = events fns (stmts sb) @ evs E i st \<and> i' = i"
begin

lemma loop_events:
  assumes "stmt_loop (step E) sb i sts = Inr (sb', i')" "events fns sts = []"
    and "events fns (stmts sb) = pre @ mark i @ concat (map (evs E i) ss)"
  shows "events fns (stmts sb') = pre @ concat (map (instr_events mark (evs E)) (instructions_of i ss sts))"
  using assms
proof (induction sts arbitrary: sb i ss pre)
  case Nil
  then show ?case by (simp add: instr_events_def)
next
  case (Cons x sts)
  have tail: "events fns sts = []" "call_event fns x = []" using Cons.prems(2) by (simp_all add: events_def)
  show ?case
  proof (cases "skipped x")
    case True
    then have "stmt_loop (step E) sb i sts = Inr (sb', i')" "instructions_of i ss (x # sts) = instructions_of i ss sts"
      using Cons.prems(1) by (auto simp: skipped_def)
    with Cons.IH [OF this(1) tail(1) Cons.prems(3)] show ?thesis by simp
  next
    case False
    then obtain st sb1 i1 where s1: "x = Some st" "st \<noteq> Ist_NoOp" "step E sb i st = Inr (sb1, i1)"
        "stmt_loop (step E) sb1 i1 sts = Inr (sb', i')"
      using Cons.prems(1) by (auto simp: skipped_def res_iff split: option.splits)
    show ?thesis
    proof (cases "\<exists>addr len delta. st = Ist_IMark addr len delta")
      case True
      then obtain addr len delta where st: "st = Ist_IMark addr len delta" by blast
      from mark_step [OF s1(3) [unfolded st]] Cons.prems(3)
      have ev: "i1 = (addr, len)" "events fns (stmts sb1) =
          (pre @ instr_events mark (evs E) (i, ss)) @ mark (addr, len) @ concat (map (evs E (addr, len)) [])"
        by (simp_all add: instr_events_def)
      from Cons.IH [OF s1(4) [unfolded ev(1)] tail(1) ev(2)] show ?thesis by (simp add: s1(1) st)
    next
      case other: False
      then have n: "\<And>addr len delta. st \<noteq> Ist_IMark addr len delta" by blast
      from other_step [OF s1(3) n tail(2) [unfolded s1(1)]] Cons.prems(3)
      have ev: "i1 = i" "events fns (stmts sb1) = pre @ mark i @ concat (map (evs E i) (ss @ [st]))"
        by simp_all
      have "instructions_of i ss (x # sts) = instructions_of i (ss @ [st]) sts"
        using n s1(1,2) by (cases st) auto
      with Cons.IH [OF s1(4) [unfolded ev(1)] tail(1) ev(2)] show ?thesis by simp
    qed
  qed
qed

lemma translate_events:
  assumes "translate_stmts step sbIn = Inr sbOut" "events fns (stmts sbIn) = []"
  shows "events fns (stmts sbOut) =
    concat (map (instr_events mark (evs (tyenv sbIn))) (block_instructions (stmts sbIn)))"
proof -
  obtain sb0 sb1 rest i' where s: "deepCopyIRSBExceptStmts sbIn = Inr sb0"
      "copy_preamble sb0 (stmts sbIn) = Inr (sb1, rest)"
      "stmt_loop (step (tyenv sbIn)) sb1 (0, 0) rest = Inr (sbOut, i')"
    using assms(1) by (auto simp: translate_stmts_def res_iff)
  have "stmts sb0 = []" using s(1) by (auto simp: deepCopyIRSBExceptStmts_def emptyIRSB_def res_iff)
  then obtain pre where pre: "stmts sbIn = pre @ rest" "stmts sb1 = pre"
    using copy_preamble_stmts [OF s(2)] by auto
  have ev: "events fns pre = []" "events fns rest = []" using assms(2) by (simp_all add: pre(1))
  from block_instructions_rest [OF s(2)] show ?thesis
  proof (elim disjE exE conjE)
    assume "rest = []" "block_instructions (stmts sbIn) = []"
    then show ?thesis using s(3) pre ev by simp
  next
    fix addr len delta sts'
    assume rest: "rest = Some (Ist_IMark addr len delta) # sts'"
      and bi: "block_instructions (stmts sbIn) = instructions_of (addr, len) [] sts'"
    obtain sb2 i2 where s2: "step (tyenv sbIn) sb1 (0, 0) (Ist_IMark addr len delta) = Inr (sb2, i2)"
        "stmt_loop (step (tyenv sbIn)) sb2 i2 sts' = Inr (sbOut, i')"
      using s(3) by (auto simp: rest res_iff)
    from mark_step [OF s2(1)] pre(2) ev(1)
    have "events fns (stmts sb2) = [] @ mark (addr, len) @ concat (map (evs (tyenv sbIn) (addr, len)) [])"
      "i2 = (addr, len)" by simp_all
    moreover have "events fns sts' = []" using ev(2) by (simp add: rest events_def)
    ultimately show ?thesis using loop_events [of "tyenv sbIn" sb2 "(addr, len)" sts' sbOut i' "[]" "[]"] s2(2) bi
      by simp
  qed
qed

end

section \<open>The events of the two tools\<close>

fun acc_event :: "access \<Rightarrow> event" where
  "acc_event (Access_load a n g) = (''trace_load'', [a])"
| "acc_event (Access_store a n g) = (''trace_store'', [a])"

definition access_events :: "IRTypeEnv \<Rightarrow> IRStmt \<Rightarrow> event list" where
  "access_events E st = (case accesses E st of Inl _ \<Rightarrow> [] | Inr as \<Rightarrow> map acc_event as)"

definition reg_event :: "platform \<Rightarrow> string \<Rightarrow> int \<Rightarrow> event list" where
  "reg_event p fn offset =
     (case offset_to_register p offset 0 of
        Inl _ \<Rightarrow> []
      | Inr r \<Rightarrow> if r = 0 \<or> r = reg_ip p then [] else [(fn, [mkIRExpr_HWord (of_int r)])])"

definition exit_event :: "imark \<Rightarrow> IRJumpKind \<Rightarrow> IRConst \<Rightarrow> event list" where
  "exit_event i jk dst =
     (if guest_branch jk
      then [(''trace_branch_conditional'',
             [mkIRExpr_HWord (if Ico_as_U64 dst = Inr (fst i + ucast (snd i)) then 1 else 0)])]
      else [])"

fun ct_evs :: "platform \<Rightarrow> IRTypeEnv \<Rightarrow> imark \<Rightarrow> IRStmt \<Rightarrow> event list" where
  "ct_evs p E i (Ist_Put offset dat) = reg_event p ''trace_reg_write'' offset"
| "ct_evs p E i (Ist_WrTmp tmp (Iex_Get offset ty)) = reg_event p ''trace_reg_read'' offset"
| "ct_evs p E i (Ist_Exit guard jk dst offsIP) = exit_event i jk dst"
| "ct_evs p E i st = access_events E st"

definition ct_mark :: "imark \<Rightarrow> event list" where
  "ct_mark i = [(''inc_inst'', []), (''write_inst_to_file'', []), (''zero_inst'', []),
     (''trace_instr'', [mkIRExpr_HWord (fst i)])]"

definition ct_end :: "IRSB \<Rightarrow> event list" where
  "ct_end sb =
     (if \<not> guest_branch (sb_jumpkind sb) then []
      else case sb_next sb of
             Some (Iex_Const _) \<Rightarrow> [(''trace_branch_direct'', [mkIRExpr_HWord (ucast (jk_code (sb_jumpkind sb)))])]
           | _ \<Rightarrow> [(''trace_branch_indirect'', [mkIRExpr_HWord (ucast (jk_code (sb_jumpkind sb)))])])"

fun cl_evs :: "IRTypeEnv \<Rightarrow> imark \<Rightarrow> IRStmt \<Rightarrow> event list" where
  "cl_evs E i (Ist_Exit guard jk dst offsIP) = exit_event i jk dst"
| "cl_evs E i st = access_events E st"

definition cl_mark :: "imark \<Rightarrow> event list" where
  "cl_mark i = [(''trace_instr'', [mkIRExpr_HWord (fst i)])]"

section \<open>The steps of the two tools\<close>

lemma exit_events:
  assumes "instrument_exit sb i guard jk dst = Inr sb'" "''trace_branch_conditional'' \<in> fns"
  shows "events fns (stmts sb') = events fns (stmts sb) @ exit_event i jk dst"
proof (cases "guest_branch jk")
  case True
  with assms(1) obtain d where d: "Ico_as_U64 dst = Inr d"
      "instrument_branch_conditional sb (d = fst i + ucast (snd i)) guard = Inr sb'"
    by (auto simp: instrument_exit_def Let_def res_iff)
  then have "events fns (stmts sb') = events fns (stmts sb) @
      [(''trace_branch_conditional'', [mkIRExpr_HWord (if d = fst i + ucast (snd i) then 1 else 0)])]"
    using assms(2)
    by (auto simp: instrument_branch_conditional_def Let_def res_iff events_Cons add_call_def [symmetric]
        dest!: addStmtToIRSB_stmts add_call_events [where fns = fns, OF _ assms(2)])
  with True d(1) show ?thesis by (simp add: exit_event_def)
next
  case False
  with assms(1) show ?thesis by (auto simp: instrument_exit_def Let_def res_iff exit_event_def)
qed

text \<open>Both tools insert at a memory access one call with the address as its first argument.\<close>

definition access_inserter :: "string set \<Rightarrow> string \<Rightarrow> inserter \<Rightarrow> bool" where
  "access_inserter fns fn ins \<longleftrightarrow> (\<forall>sb a n g sb'. ins sb a n g = Inr sb' \<longrightarrow>
     events fns (stmts sb') = events fns (stmts sb) @ [(fn, [a])])"

lemma accesses_events:
  assumes "access_inserter fns ''trace_load'' ld" "access_inserter fns ''trace_store'' st"
    and "instrument_accesses ld st E sb s = Inr sb'"
  shows "events fns (stmts sb') = events fns (stmts sb) @ access_events E s"
proof -
  obtain as where as: "accesses E s = Inr as" "foldR (instrument_access ld st) sb as = Inr sb'"
    using assms(3) by (auto simp: instrument_accesses_def res_iff)
  have "foldR (instrument_access ld st) sb as = Inr sb' \<Longrightarrow>
      events fns (stmts sb') = events fns (stmts sb) @ map acc_event as"
  proof (induction as arbitrary: sb)
    case (Cons a as)
    then obtain sb1 where s1: "instrument_access ld st sb a = Inr sb1" "foldR (instrument_access ld st) sb1 as = Inr sb'"
      by (auto simp: res_iff)
    then have "events fns (stmts sb1) = events fns (stmts sb) @ [acc_event a]"
      using assms(1,2) by (cases a) (auto simp: access_inserter_def)
    with Cons.IH [OF s1(2)] show ?case by simp
  qed simp
  with as show ?thesis by (simp add: access_events_def)
qed

lemma ct_inserters: "access_inserter ct_helpers ''trace_load'' ct_instrument_load"
    "access_inserter ct_helpers ''trace_store'' ct_instrument_store"
  by (auto simp: access_inserter_def ct_instrument_load_def ct_instrument_store_def ct_mem_call_def res_iff
      mkIRCallee_def events_single call_event_def ct_helpers_def dest!: addStmtToIRSB_stmts)

lemma cl_inserters: "access_inserter cl_helpers ''trace_load'' cl_instrument_load"
    "access_inserter cl_helpers ''trace_store'' cl_instrument_store"
  by (auto simp: access_inserter_def cl_instrument_load_def cl_instrument_store_def cl_mem_call_def res_iff
      mkIRCallee_def events_single call_event_def cl_helpers_def dest!: addStmtToIRSB_stmts)

lemma reg_events:
  assumes "ct_helpers = fns"
  shows "instrument_reg_read p sb offset sz = Inr sb' \<Longrightarrow>
      events fns (stmts sb') = events fns (stmts sb) @ reg_event p ''trace_reg_read'' offset"
    and "instrument_reg_write p sb offset sz = Inr sb' \<Longrightarrow>
      events fns (stmts sb') = events fns (stmts sb) @ reg_event p ''trace_reg_write'' offset"
  using assms offset_size_irrelevant [of p offset sz 0]
  by (auto simp: instrument_reg_read_def instrument_reg_write_def reg_event_def res_iff ct_helpers_def
      dest!: add_call_events [where fns = fns] split: if_splits)

lemma ct_mark_step:
  assumes "ct_step p E sb i (Ist_IMark addr len delta) = Inr (sb', i')"
  shows "events ct_helpers (stmts sb') = events ct_helpers (stmts sb) @ ct_mark (addr, len) \<and> i' = (addr, len)"
  using assms
  by (auto simp: ct_instrument_instruction_def res_iff events_single ct_mark_def ct_helpers_def
      dest!: addStmtToIRSB_stmts add_call_events [where fns = ct_helpers])

lemma ct_other_step:
  assumes "ct_step p E sb i st = Inr (sb', i')" "\<And>addr len delta. st \<noteq> Ist_IMark addr len delta"
    and "call_event ct_helpers (Some st) = []"
  shows "events ct_helpers (stmts sb') = events ct_helpers (stmts sb) @ ct_evs p E i st \<and> i' = i"
proof -
  have tbc: "''trace_branch_conditional'' \<in> ct_helpers" by (simp add: ct_helpers_def)
  note accs = accesses_events [OF ct_inserters]
  show ?thesis
  proof (cases st)
    case (Ist_Exit guard jk dst offsIP)
    with assms(1) obtain sb1 where "instrument_exit sb i guard jk dst = Inr sb1" "i' = i"
        "addStmtToIRSB sb1 (Some st) = Inr sb'"
      by (auto simp: res_iff)
    with exit_events [OF _ tbc] addStmtToIRSB_stmts assms(3) Ist_Exit show ?thesis by (simp add: events_single)
  next
    case (Ist_Put offset dat)
    with assms(1) obtain sb1 sz where "instrument_reg_write p sb offset sz = Inr sb1" "i' = i"
        "addStmtToIRSB sb1 (Some st) = Inr sb'"
      by (auto simp: res_iff)
    with reg_events(2) [OF refl] addStmtToIRSB_stmts assms(3) Ist_Put show ?thesis by (simp add: events_single)
  next
    case (Ist_WrTmp tmp dat)
    with assms(1) obtain sb1 sb2 where s: "addStmtToIRSB sb (Some st) = Inr sb1"
        "instrument_accesses ct_instrument_load ct_instrument_store E sb1 st = Inr sb2" "i' = i"
        "(case dat of Iex_Get offset ty \<Rightarrow> bindR (sizeofIRType ty) (\<lambda>sz. instrument_reg_read p sb2 offset sz)
            | _ \<Rightarrow> Inr sb2) = Inr sb'"
      by (auto simp: res_iff)
    have "events ct_helpers (stmts sb2) = events ct_helpers (stmts sb) @ access_events E st"
      using accs [OF s(2)] addStmtToIRSB_stmts [OF s(1)] assms(3) by (simp add: events_single)
    then show ?thesis
      using s(3,4) Ist_WrTmp by (cases dat) (auto simp: res_iff access_events_def dest!: reg_events(1) [OF refl])
  next
    case (Ist_IMark addr len delta)
    with assms(2) show ?thesis by blast
  qed (use assms(1,3) in \<open>auto simp: res_iff events_single dest!: addStmtToIRSB_stmts accs\<close>)
qed

interpretation ct_ev: event_step "ct_step p" ct_helpers ct_mark "ct_evs p" for p
  by unfold_locales (use ct_mark_step ct_other_step in blast)+

lemma cl_mark_step:
  assumes "cl_step p E sb i (Ist_IMark addr len delta) = Inr (sb', i')"
  shows "events cl_helpers (stmts sb') = events cl_helpers (stmts sb) @ cl_mark (addr, len) \<and> i' = (addr, len)"
  using assms
  by (auto simp: cl_instrument_instruction_def res_iff events_single cl_mark_def cl_helpers_def
      dest!: addStmtToIRSB_stmts add_call_events [where fns = cl_helpers])

lemma cl_other_step:
  assumes "cl_step p E sb i st = Inr (sb', i')" "\<And>addr len delta. st \<noteq> Ist_IMark addr len delta"
    and "call_event cl_helpers (Some st) = []"
  shows "events cl_helpers (stmts sb') = events cl_helpers (stmts sb) @ cl_evs E i st \<and> i' = i"
proof -
  have tbc: "''trace_branch_conditional'' \<in> cl_helpers" by (simp add: cl_helpers_def)
  note accs = accesses_events [OF cl_inserters]
  show ?thesis
  proof (cases st)
    case (Ist_Exit guard jk dst offsIP)
    with assms(1) obtain sb1 where "instrument_exit sb i guard jk dst = Inr sb1" "i' = i"
        "addStmtToIRSB sb1 (Some st) = Inr sb'"
      by (auto simp: res_iff)
    with exit_events [OF _ tbc] addStmtToIRSB_stmts assms(3) Ist_Exit show ?thesis by (simp add: events_single)
  next
    case (Ist_IMark addr len delta)
    with assms(2) show ?thesis by blast
  qed (use assms(1,3) in \<open>auto simp: res_iff events_single dest!: addStmtToIRSB_stmts accs\<close>)
qed

interpretation cl_ev: event_step "cl_step p" cl_helpers cl_mark cl_evs for p
  by unfold_locales (use cl_mark_step cl_other_step in blast)+

section \<open>Whole blocks\<close>

lemma ct_block_events:
  assumes "ct_instrument p sbIn gw hw = Inr sbOut" "events ct_helpers (stmts sbIn) = []"
  shows "events ct_helpers (stmts sbOut) =
    concat (map (instr_events ct_mark (ct_evs p (tyenv sbIn))) (block_instructions (stmts sbIn))) @ ct_end sbIn"
proof -
  obtain sb where sb: "translate_stmts (ct_step p) sbIn = Inr sb" "ct_tail sbIn sb = Inr sbOut"
    using ct_instrument_translate [OF assms(1)] .
  have fns: "''trace_branch_direct'' \<in> ct_helpers" "''trace_branch_indirect'' \<in> ct_helpers"
    by (simp_all add: ct_helpers_def)
  have "events ct_helpers (stmts sbOut) = events ct_helpers (stmts sb) @ ct_end sbIn"
  proof (cases "guest_branch (sb_jumpkind sbIn)")
    case True
    with sb(2) obtain nx where "sb_next sbIn = Some nx" by (auto simp: ct_tail_def res_iff)
    with True sb(2) add_call_events [OF _ fns(1)] add_call_events [OF _ fns(2)] show ?thesis
      by (cases nx) (auto simp: ct_tail_def ct_end_def instrument_branch_direct_def instrument_branch_indirect_def)
  qed (use sb(2) in \<open>simp add: ct_tail_def ct_end_def\<close>)
  with ct_ev.translate_events [OF sb(1) assms(2)] show ?thesis by simp
qed

lemma cl_block_events:
  assumes "cl_instrument p sbIn gw hw = Inr sbOut" "events cl_helpers (stmts sbIn) = []"
  shows "events cl_helpers (stmts sbOut) =
    concat (map (instr_events cl_mark (cl_evs (tyenv sbIn))) (block_instructions (stmts sbIn)))"
proof -
  have "translate_stmts (cl_step p) sbIn = Inr sbOut"
    using assms(1) by (auto simp: cl_instrument_def split: if_splits)
  from cl_ev.translate_events [OF this assms(2)] show ?thesis .
qed

end
