(* ===== verification/Opt_Cleanup.thy ===== *)
theory Opt_Cleanup
  imports Opt_Deadcode Tool_Calls
begin

text \<open>
  The cleanup after instrumentation: \<open>do_deadcode_BB\<close> applied to sane blocks, and to the blocks that
  the tools produce. It always succeeds, keeps blocks sane, and keeps the calls of a tool's helpers
  that precede the first unconditional exit and are not guarded by the constant \<open>False\<close>.
\<close>

section \<open>The pass succeeds on sane blocks\<close>

lemma addUses_Temp_total: "t < length us \<Longrightarrow> \<exists>us'. addUses_Temp us t = Inr us' \<and> length us' = length us"
  by (simp add: addUses_Temp_def)

lemma foldR_total:
  assumes "\<And>s x. x \<in> set xs \<Longrightarrow> P s \<Longrightarrow> \<exists>s'. f s x = Inr s' \<and> P s'" "P s"
  shows "\<exists>s'. foldR f s xs = Inr s' \<and> P s'"
  using assms
proof (induction xs arbitrary: s)
  case (Cons x xs)
  then obtain s1 where "f s x = Inr s1" "P s1" by fastforce
  with Cons.IH [of s1] Cons.prems(1) show ?case by simp
qed simp

lemma addUses_Expr_total:
  "useBeforeDef_Expr env dc e = Inr () \<Longrightarrow> length us = types_used env \<Longrightarrow>
     \<exists>us'. addUses_Expr us e = Inr us' \<and> length us' = types_used env"
proof (induction us e rule: addUses_Expr.induct)
  case (3 us cee ty args)
  have "\<exists>s'. addUses_Expr s x = Inr s' \<and> length s' = types_used env"
    if "x \<in> set args" "length s = types_used env" for s x
    using 3 that by (auto simp: res_iff split: if_splits)
  then show ?case using foldR_total [of args "\<lambda>s. length s = types_used env" addUses_Expr us] 3(3) by simp
next
  case (9 us t)
  then show ?case using addUses_Temp_total [of t us] by (simp add: useBeforeDef_Temp_def res_iff)
qed (fastforce simp: res_iff)+

lemma addUses_list_total:
  assumes "\<And>e. e \<in> set es \<Longrightarrow> useBeforeDef_Expr env dc e = Inr ()" "length us = types_used env"
  shows "\<exists>us'. foldR addUses_Expr us es = Inr us' \<and> length us' = types_used env"
  by (rule foldR_total [where P = "\<lambda>s. length s = types_used env"])
     (use assms addUses_Expr_total in blast)+

lemma addUses_opt_total:
  assumes "useBeforeDef_opt env dc e = Inr ()" "length us = types_used env"
  shows "\<exists>us'. addUses_opt us e = Inr us' \<and> length us' = types_used env"
  using assms addUses_Expr_total by (cases e) (auto simp: addUses_opt_def useBeforeDef_opt_def)

text \<open>The temporaries of an atom that has a type are in range.\<close>

lemma addUses_atom_total:
  assumes "isIRAtom e" "typeOfIRExpr env e = Inr ty" "length us = types_used env"
  shows "\<exists>us'. addUses_Expr us e = Inr us' \<and> length us' = types_used env"
  using assms by (cases e) (auto simp: typeOfIRTemp_def addUses_Temp_def res_iff)

lemma addUses_Dirty_total:
  assumes "useBeforeDef_Stmt env dc (Ist_Dirty d) = Inr ()" "stmt_ok env gw (Some (Ist_Dirty d))"
    and "length us = types_used env"
  shows "\<exists>us'. addUses_Stmt us (Ist_Dirty d) = Inr us' \<and> length us' = types_used env"
proof -
  obtain g ty where g: "d_guard d = Some g" "isIRAtom g" "typeOfIRExpr env g = Inr ty"
    using assms(2) by (auto simp: stmt_ok_def tcDirty_def bad_dirty_def res_iff split: option.splits if_splits)
  obtain args where a: "d_args d = Some args"
      "\<forall>a\<in>set args. (if is_IRExpr_VECRET_or_GSPTR a then Inr () else useBeforeDef_Expr env dc a) = Inr ()"
    using assms(1) by (auto simp: res_iff)
  then have args: "d_args d = Some args"
      "\<And>a. a \<in> set (filter (\<lambda>a. \<not> is_IRExpr_VECRET_or_GSPTR a) args) \<Longrightarrow> useBeforeDef_Expr env dc a = Inr ()"
    by (auto dest!: bspec)
  obtain us1 where us1: "(if d_mFx d \<noteq> Ifx_None then bindR (optR NullDeref (d_mAddr d)) (addUses_Expr us) else Inr us) = Inr us1"
      "length us1 = types_used env"
  proof (cases "d_mFx d = Ifx_None")
    case False
    then obtain a where "d_mAddr d = Some a" "useBeforeDef_Expr env dc a = Inr ()"
      using assms(1) by (auto simp: res_iff)
    with False addUses_Expr_total [OF this(2) assms(3)] that show thesis by auto
  qed (use assms(3) that in simp)
  obtain us2 where us2: "addUses_Expr us1 g = Inr us2" "length us2 = types_used env"
    using addUses_atom_total [OF g(2,3) us1(2)] by blast
  obtain us3 where "foldR addUses_Expr us2 (filter (\<lambda>a. \<not> is_IRExpr_VECRET_or_GSPTR a) args) = Inr us3"
      "length us3 = types_used env"
    using addUses_list_total [OF args(2) us2(2)] by blast
  with us1(1) us2(1) g(1) args(1) show ?thesis by simp
qed

lemma addUses_Stmt_total:
  assumes "useBeforeDef_Stmt env dc st = Inr ()" "stmt_ok env gw (Some st)" "length us = types_used env"
  shows "\<exists>us'. addUses_Stmt us st = Inr us' \<and> length us' = types_used env"
proof (cases st)
  case (Ist_Dirty d)
  then show ?thesis using addUses_Dirty_total assms by blast
next
  case (Ist_CAS c)
  with assms(1) have u: "useBeforeDef_Expr env dc (cas_addr c) = Inr ()" "useBeforeDef_opt env dc (cas_expdHi c) = Inr ()"
      "useBeforeDef_Expr env dc (cas_expdLo c) = Inr ()" "useBeforeDef_opt env dc (cas_dataHi c) = Inr ()"
      "useBeforeDef_Expr env dc (cas_dataLo c) = Inr ()"
    by (simp_all add: res_iff)
  obtain u1 where u1: "addUses_Expr us (cas_addr c) = Inr u1" "length u1 = types_used env"
    using addUses_Expr_total [OF u(1) assms(3)] by blast
  obtain u2 where u2: "addUses_opt u1 (cas_expdHi c) = Inr u2" "length u2 = types_used env"
    using addUses_opt_total [OF u(2) u1(2)] by blast
  obtain u3 where u3: "addUses_Expr u2 (cas_expdLo c) = Inr u3" "length u3 = types_used env"
    using addUses_Expr_total [OF u(3) u2(2)] by blast
  obtain u4 where u4: "addUses_opt u3 (cas_dataHi c) = Inr u4" "length u4 = types_used env"
    using addUses_opt_total [OF u(4) u3(2)] by blast
  from addUses_Expr_total [OF u(5) u4(2)] u1 u2 u3 u4 Ist_CAS show ?thesis by simp
next
  case (Ist_LLSC en result addr sd)
  with assms(1) have u: "useBeforeDef_Expr env dc addr = Inr ()" "useBeforeDef_opt env dc sd = Inr ()"
    by (simp_all add: res_iff)
  obtain u1 where u1: "addUses_Expr us addr = Inr u1" "length u1 = types_used env"
    using addUses_Expr_total [OF u(1) assms(3)] by blast
  from addUses_opt_total [OF u(2) u1(2)] u1 Ist_LLSC show ?thesis by simp
qed (use assms(1,3) in \<open>auto simp: res_iff simp del: foldR.simps
      intro!: addUses_Expr_total [of env dc] addUses_list_total [of _ env dc]\<close>)

lemma assigned_in_range:
  "assignedOnce_Stmt (Ist_WrTmp t e) dc n = Inr dc' \<Longrightarrow> t < n"
  by (auto simp: assignedOnce_Temp_def res_iff)

lemma deadcode_scan_total:
  assumes "chunk_ok env gw dc xs dc'" "length us = types_used env"
  shows "\<exists>xs' us' exit. deadcode_scan i xs us = Inr (xs', us', exit) \<and> length us' = types_used env"
  using assms
proof (induction xs arbitrary: i dc)
  case (Cons x xs)
  then obtain st dc1 where st: "x = Some st" "stmt_ok env gw (Some st)" "useBeforeDef_Stmt env dc st = Inr ()"
      "assignedOnce_Stmt st dc (types_used env) = Inr dc1" "chunk_ok env gw dc1 xs dc'"
    by (auto simp: countStmt_def res_iff)
  obtain xs' us1 exit where s: "deadcode_scan (Suc i) xs us = Inr (xs', us1, exit)" "length us1 = types_used env"
    using Cons.IH [OF st(5) Cons.prems(2)] by blast
  obtain us2 where us2: "addUses_Stmt us1 st = Inr us2" "length us2 = types_used env"
    using addUses_Stmt_total [OF st(3,2) s(2)] by blast
  obtain dead where "(case st of Ist_WrTmp t e \<Rightarrow> bindR (assertR (t < length us1) BufOverflow) (\<lambda>_. Inr (\<not> us1 ! t))
        | _ \<Rightarrow> Inr (never_called st)) = Inr dead"
    using st(4) s(2) assigned_in_range by (cases st) auto
  with s us2 st(1) show ?case by (cases "st = Ist_NoOp"; cases dead) (simp_all add: Let_def)
qed simp

lemma do_deadcode_total:
  assumes "sanityCheckIRSB bb True gw = Inr ()"
  shows "\<exists>bb'. do_deadcode_BB bb = Inr bb'"
proof -
  obtain dc nx where h: "chunk_ok (tyenv bb) gw (replicate (types_used (tyenv bb)) 0) (stmts bb) dc"
      "sb_next bb = Some nx" "isIRAtom nx" "typeOfIRExpr (tyenv bb) nx = Inr gw"
    using assms by (auto simp: sanityCheckIRSB_iff)
  obtain us where us: "addUses_Expr (replicate (types_used (tyenv bb)) False) nx = Inr us"
      "length us = types_used (tyenv bb)"
    using addUses_atom_total [OF h(3,4), of "replicate (types_used (tyenv bb)) False"] by auto
  obtain sts us' exit where s: "deadcode_scan 0 (stmts bb) us = Inr (sts, us', exit)"
    using deadcode_scan_total [OF h(1) us(2)] by blast
  show ?thesis
  proof (cases exit)
    case None
    with h(2) us(1) s show ?thesis by (simp add: do_deadcode_BB_def)
  next
    case (Some k)
    then obtain st where "k < length sts" "sts ! k = Some st" "always_exits st"
      using deadcode_scan_exit [OF s] by auto
    then have "\<exists>bb'. zap_from k (bb\<lparr>stmts := sts\<rparr>) = Inr bb'"
      by (cases st) (auto simp: zap_from_def always_exits_def)
    with h(2) us(1) s Some show ?thesis by (simp add: do_deadcode_BB_def)
  qed
qed

section \<open>The pass keeps blocks sane\<close>

text \<open>Counts of definitions before and after: not more, and still one where a temporary is used.\<close>

definition counts_for :: "IRTemp set \<Rightarrow> nat list \<Rightarrow> nat list \<Rightarrow> bool" where
  "counts_for X dc dc2 \<longleftrightarrow> length dc2 = length dc
     \<and> (\<forall>t<length dc. dc2 ! t \<le> dc ! t \<and> (t \<in> X \<longrightarrow> 1 \<le> dc ! t \<longrightarrow> 1 \<le> dc2 ! t))"

lemma useBeforeDef_Expr_counts:
  assumes "useBeforeDef_Expr env dc e = Inr ()" "counts_for X dc dc2" "temps_of e \<subseteq> X" "length dc = types_used env"
  shows "useBeforeDef_Expr env dc2 e = Inr ()"
  using assms
proof (induction env dc e rule: useBeforeDef_Expr.induct)
  case (3 env dc tmp)
  then show ?case by (auto simp: useBeforeDef_Temp_def counts_for_def res_iff)
next
  case (10 env dc cee ty args)
  show ?case
    unfolding useBeforeDef_Expr.simps forR_eq_Inr
  proof
    fix a assume a: "a \<in> set args"
    with 10(2) have u: "\<not> is_IRExpr_VECRET_or_GSPTR a" "useBeforeDef_Expr env dc a = Inr ()"
      by (auto simp: res_iff split: if_splits dest: bspec)
    with 10(1) [OF a u] 10(3-5) a show "(if is_IRExpr_VECRET_or_GSPTR a
        then Inl (SanityFail ''IRExprP__* value in CCall arg list'') else useBeforeDef_Expr env dc2 a) = Inr ()"
      by auto
  qed
qed (auto simp: res_iff)

lemma useBeforeDef_opt_counts:
  assumes "useBeforeDef_opt env dc e = Inr ()" "counts_for X dc dc2"
    and "(\<Union>x\<in>set (opt_list e). temps_of x) \<subseteq> X" "length dc = types_used env"
  shows "useBeforeDef_opt env dc2 e = Inr ()"
  using assms useBeforeDef_Expr_counts by (cases e) (auto simp: useBeforeDef_opt_def)

lemma useBeforeDef_Stmt_counts:
  assumes "useBeforeDef_Stmt env dc st = Inr ()" "counts_for X dc dc2" "stmt_temps st \<subseteq> X" "length dc = types_used env"
  shows "useBeforeDef_Stmt env dc2 st = Inr ()"
proof (cases st)
  case (Ist_Dirty d)
  with assms(1) obtain args where a: "d_args d = Some args"
      "\<forall>a\<in>set args. (if is_IRExpr_VECRET_or_GSPTR a then Inr () else useBeforeDef_Expr env dc a) = Inr ()"
      "(if d_mFx d \<noteq> Ifx_None then bindR (optR NullDeref (d_mAddr d)) (useBeforeDef_Expr env dc) else Inr ()) = Inr ()"
    by (auto simp: res_iff)
  then have m: "d_mFx d \<noteq> Ifx_None \<Longrightarrow> \<exists>m. d_mAddr d = Some m \<and> useBeforeDef_Expr env dc m = Inr ()"
    by (auto simp: res_iff)
  have "(if is_IRExpr_VECRET_or_GSPTR a then Inr () else useBeforeDef_Expr env dc2 a) = Inr ()" if "a \<in> set args" for a
  proof -
    have "temps_of a \<subseteq> X" using a(1) that assms(3) Ist_Dirty by (auto simp: stmt_temps_def)
    with bspec [OF a(2) that] useBeforeDef_Expr_counts [OF _ assms(2) _ assms(4), of a] show ?thesis
      by (auto split: if_splits)
  qed
  moreover have "d_mFx d \<noteq> Ifx_None \<Longrightarrow> bindR (optR NullDeref (d_mAddr d)) (useBeforeDef_Expr env dc2) = Inr ()"
    using m assms(2-4) Ist_Dirty useBeforeDef_Expr_counts [of env dc _ X dc2]
    by (auto simp: stmt_temps_def)
  ultimately show ?thesis using a(1) Ist_Dirty by (auto simp: res_iff)
qed (use assms in \<open>auto simp: res_iff stmt_temps_def intro: useBeforeDef_Expr_counts useBeforeDef_opt_counts\<close>)

lemma assignedOnce_Temp_counts:
  assumes "assignedOnce_Temp t dc n a b = Inr dc1" "counts_for X dc dc2" "length dc = n"
  shows "\<exists>dc3. assignedOnce_Temp t dc2 n a b = Inr dc3 \<and> counts_for X dc1 dc3 \<and> length dc1 = n"
  using assms by (auto simp: assignedOnce_Temp_def counts_for_def Let_def res_iff nth_list_update le_Suc_eq)

lemma assignedOnce_Stmt_counts:
  assumes "assignedOnce_Stmt st dc n = Inr dc1" "counts_for X dc dc2" "length dc = n"
  shows "\<exists>dc3. assignedOnce_Stmt st dc2 n = Inr dc3 \<and> counts_for X dc1 dc3 \<and> length dc1 = n"
proof (cases st)
  case (Ist_CAS c)
  show ?thesis
  proof (cases "cas_oldHi c = IRTemp_INVALID")
    case True
    with assms Ist_CAS assignedOnce_Temp_counts show ?thesis by simp
  next
    case False
    with assms(1) Ist_CAS obtain dcm where m: "assignedOnce_Temp (cas_oldHi c) dc n
          ''IRStmt.CAS: destination tmpHi is out of range'' ''IRStmt.CAS: destination tmpHi is assigned more than once'' = Inr dcm"
        "assignedOnce_Temp (cas_oldLo c) dcm n
          ''IRStmt.CAS: destination tmpLo is out of range'' ''IRStmt.CAS: destination tmpLo is assigned more than once'' = Inr dc1"
      by (auto simp: res_iff)
    obtain d3 where "assignedOnce_Temp (cas_oldHi c) dc2 n
          ''IRStmt.CAS: destination tmpHi is out of range'' ''IRStmt.CAS: destination tmpHi is assigned more than once'' = Inr d3"
        "counts_for X dcm d3" "length dcm = n"
      using assignedOnce_Temp_counts [OF m(1) assms(2,3)] by blast
    with assignedOnce_Temp_counts [OF m(2) this(2,3)] Ist_CAS False show ?thesis by auto
  qed
qed (use assms assignedOnce_Temp_counts in auto)

lemma counts_for_subset: "counts_for X dc dc2 \<Longrightarrow> Y \<subseteq> X \<Longrightarrow> counts_for Y dc dc2"
  by (auto simp: counts_for_def)

lemma stmt_ok_NoOp [simp]: "stmt_ok env gw (Some Ist_NoOp)"
  by (simp add: stmt_ok_def)

lemma no_defs_counts: "stmt_defs st = [] \<Longrightarrow> assignedOnce_Stmt st dc n = Inr dc1 \<Longrightarrow> dc1 = dc"
  by (cases st) (auto split: if_splits)

lemma deadcode_scan_sane:
  assumes "deadcode_scan i xs us = Inr (xs', us', exit)" "skipped_no_result xs"
    and "chunk_ok env gw dc xs dc'" "counts_for (marked us') dc dc2" "length dc = types_used env"
  shows "\<exists>dc2'. chunk_ok env gw dc2 xs' dc2'"
  using assms
proof (induction xs arbitrary: i xs' us' exit dc dc2)
  case (Cons x xs)
  obtain st xs1 us1 exit1 y where s: "x = Some st" "deadcode_scan (Suc i) xs us = Inr (xs1, us1, exit1)" "xs' = y # xs1"
    "y = x \<and> marked us' = marked us1 \<union> stmt_temps st
     \<or> y = Some Ist_NoOp \<and> us' = us1 \<and> \<not> always_exits st
       \<and> (never_called st \<or> (\<exists>t e. st = Ist_WrTmp t e \<and> t \<notin> marked us1))"
    using deadcode_step [OF Cons.prems(1)] by metis
  obtain dc1 where c: "stmt_ok env gw (Some st)" "useBeforeDef_Stmt env dc st = Inr ()"
      "assignedOnce_Stmt st dc (types_used env) = Inr dc1" "chunk_ok env gw dc1 xs dc'"
    using Cons.prems(3) s(1) by (auto simp: countStmt_def res_iff)
  have len1: "length dc1 = types_used env"
    using assignedOnce_Stmt_counts [OF c(3) Cons.prems(4,5)] by blast
  have "\<exists>dc3. stmt_ok env gw y \<and> countStmt env dc2 y = Inr dc3 \<and> counts_for (marked us1) dc1 dc3"
    using s(4)
  proof (elim disjE conjE exE)
    assume y: "y = x" "marked us' = marked us1 \<union> stmt_temps st"
    obtain dc3 where "assignedOnce_Stmt st dc2 (types_used env) = Inr dc3" "counts_for (marked us') dc1 dc3"
      using assignedOnce_Stmt_counts [OF c(3) Cons.prems(4,5)] by blast
    moreover have "useBeforeDef_Stmt env dc2 st = Inr ()"
      using useBeforeDef_Stmt_counts [OF c(2) Cons.prems(4) _ Cons.prems(5)] y(2) by blast
    ultimately show ?thesis using y s(1) c(1) by (auto simp: countStmt_def res_iff elim: counts_for_subset)
  next
    assume y: "y = Some Ist_NoOp" "us' = us1" "never_called st"
    then have "stmt_defs st = []" using Cons.prems(2) s(1) by (auto simp: skipped_no_result_def)
    from no_defs_counts [OF this c(3)] y Cons.prems(4) show ?thesis by (simp add: countStmt_def)
  next
    fix t e
    assume y: "y = Some Ist_NoOp" "us' = us1" "st = Ist_WrTmp t e" "t \<notin> marked us1"
    then have "dc1 = dc[t := dc ! t + 1]" "t < length dc"
      using c(3) Cons.prems(5) by (auto simp: assignedOnce_Temp_def Let_def res_iff)
    with y Cons.prems(4) show ?thesis
      by (auto simp: countStmt_def counts_for_def nth_list_update le_Suc_eq)
  qed
  then obtain dc3 where dc3: "stmt_ok env gw y" "countStmt env dc2 y = Inr dc3" "counts_for (marked us1) dc1 dc3"
    by blast
  from Cons.IH [OF s(2) skipped_no_result_Cons [OF Cons.prems(2)] c(4) dc3(3) len1] dc3(1,2) s(3)
  show ?case by auto
qed auto

lemma chunk_ok_take:
  "chunk_ok env gw dc (xs @ ys) dc' \<Longrightarrow> \<exists>dc1. chunk_ok env gw dc xs dc1"
  by (auto simp: chunk_ok_append)

lemma chunk_ok_NoOps: "chunk_ok env gw dc (replicate n (Some Ist_NoOp)) dc"
  by (induction n) (simp_all add: countStmt_def)

lemma do_deadcode_sane:
  assumes "do_deadcode_BB bb = Inr bb'" "skipped_no_result (stmts bb)" "sanityCheckIRSB bb True gw = Inr ()"
  shows "sanityCheckIRSB bb' True gw = Inr () \<and> tyenv bb' = tyenv bb"
proof -
  obtain nx us sts us' exit where d: "sb_next bb = Some nx"
      "deadcode_scan 0 (stmts bb) us = Inr (sts, us', exit)"
      "(case exit of None \<Rightarrow> Inr (bb\<lparr>stmts := sts\<rparr>) | Some k \<Rightarrow> zap_from k (bb\<lparr>stmts := sts\<rparr>)) = Inr bb'"
    using assms(1) by (auto simp: do_deadcode_BB_def res_iff)
  obtain dc where h: "gw = Ity_I32 \<or> gw = Ity_I64" "8 \<le> stmts_size bb" "stmts_used bb \<le> stmts_size bb"
      "\<forall>ty\<in>set (types (tyenv bb)). isPlausibleIRType ty"
      "chunk_ok (tyenv bb) gw (replicate (types_used (tyenv bb)) 0) (stmts bb) dc"
      "isIRAtom nx" "typeOfIRExpr (tyenv bb) nx = Inr gw" "16 \<le> sb_offsIP bb"
    using assms(3) d(1) by (auto simp: sanityCheckIRSB_iff)
  have len: "length sts = stmts_used bb" using deadcode_scan_exit [OF d(2)] by blast
  obtain dc2 where dc2: "chunk_ok (tyenv bb) gw (replicate (types_used (tyenv bb)) 0) sts dc2"
    using deadcode_scan_sane [OF d(2) assms(2) h(5), of "replicate (types_used (tyenv bb)) 0"]
    by (auto simp: counts_for_def)
  show ?thesis
  proof (cases exit)
    case None
    with d(3) h dc2 len d(1) show ?thesis by (auto simp: sanityCheckIRSB_iff)
  next
    case (Some k)
    then obtain st where k: "k < length sts" "sts ! k = Some st" "always_exits st"
      using deadcode_scan_exit [OF d(2)] by auto
    then obtain jk dst off where st: "st = Ist_Exit (Iex_Const (Ico_U1 1)) jk dst off"
      by (cases st) (auto simp: always_exits_def isOneU1_def)
    have bb': "stmts bb' = take k sts @ replicate (length sts - k) (Some Ist_NoOp)"
        "sb_next bb' = Some (Iex_Const dst)" "sb_offsIP bb' = off" "tyenv bb' = tyenv bb"
        "stmts_size bb' = stmts_size bb"
      using d(3) Some k(1,2) st by (auto simp: zap_from_def)
    have "stmt_ok (tyenv bb) gw (Some st)"
      using dc2 k(1,2) by (metis chunk_ok_def nth_mem)
    then have "typeOfIRConst dst = gw" "16 \<le> off" using st by (auto simp: stmt_ok_def res_iff)
    moreover obtain dc3 where "chunk_ok (tyenv bb) gw (replicate (types_used (tyenv bb)) 0) (take k sts) dc3"
      using dc2 chunk_ok_take [of _ _ _ "take k sts" "drop k sts"] by fastforce
    then have "chunk_ok (tyenv bb) gw (replicate (types_used (tyenv bb)) 0) (stmts bb') dc3"
      unfolding bb' chunk_ok_append using chunk_ok_NoOps by blast
    ultimately show ?thesis using h len k(1) bb' by (auto simp: sanityCheckIRSB_iff)
  qed
qed

section \<open>Calls survive the pass\<close>

text \<open>Calls whose guard is not the constant \<open>False\<close>, in a block without an unconditional exit.\<close>

definition keeps_calls :: "string set \<Rightarrow> IRStmt option list \<Rightarrow> bool" where
  "keeps_calls fns sts \<longleftrightarrow> (\<forall>st. Some st \<in> set sts \<longrightarrow>
     \<not> always_exits st \<and> (call_event fns (Some st) \<noteq> [] \<longrightarrow> \<not> never_called st))"

lemma deadcode_scan_events:
  assumes "deadcode_scan i xs us = Inr (xs', us', exit)" "keeps_calls fns xs"
  shows "events fns xs' = events fns xs \<and> exit = None"
  using assms
proof (induction xs arbitrary: i xs' us' exit)
  case (Cons x xs)
  obtain st xs1 us1 exit1 y where s: "x = Some st" "deadcode_scan (Suc i) xs us = Inr (xs1, us1, exit1)" "xs' = y # xs1"
    "exit = (if always_exits st then Some i else exit1)"
    "y = x \<or> y = Some Ist_NoOp \<and> (never_called st \<or> (\<exists>t e. st = Ist_WrTmp t e))"
    using deadcode_step [OF Cons.prems(1)] by metis
  have k: "keeps_calls fns xs" "\<not> always_exits st" "never_called st \<Longrightarrow> call_event fns (Some st) = []"
    using Cons.prems(2) s(1) by (auto simp: keeps_calls_def)
  have "call_event fns y = call_event fns x"
    using s(1,5) k(3) by auto
  with Cons.IH [OF s(2) k(1)] s(3,4) k(2) show ?case by (simp add: events_Cons)
qed simp

lemma do_deadcode_events:
  assumes "do_deadcode_BB bb = Inr bb'" "keeps_calls fns (stmts bb)"
  shows "events fns (stmts bb') = events fns (stmts bb)"
proof -
  obtain us sts us' exit where d: "deadcode_scan 0 (stmts bb) us = Inr (sts, us', exit)"
      "(case exit of None \<Rightarrow> Inr (bb\<lparr>stmts := sts\<rparr>) | Some k \<Rightarrow> zap_from k (bb\<lparr>stmts := sts\<rparr>)) = Inr bb'"
    using assms(1) by (auto simp: do_deadcode_BB_def res_iff)
  from deadcode_scan_events [OF d(1) assms(2)] d(2) show ?thesis by auto
qed

lemma deadcode_sane:
  assumes "sanityCheckIRSB bb True gw = Inr ()" "skipped_no_result (stmts bb)"
  shows "\<exists>bb'. do_deadcode_BB bb = Inr bb' \<and> sanityCheckIRSB bb' True gw = Inr () \<and> tyenv bb' = tyenv bb"
  using do_deadcode_total [OF assms(1)] do_deadcode_sane [OF _ assms(2,1)] by blast

end
