(* ===== verification/Opt_Cprop_Env.thy ===== *)
theory Opt_Cprop_Env
  imports Opt_Fold_Correct Opt_Cprop Opt_Cleanup
begin

text \<open>
  The bindings of constant propagation: what folding can give (\<open>fold_form\<close>), which temporaries
  bindings and substituted expressions mention (\<open>env_wf\<close>), and that substitution and folding keep
  values (\<open>subst_fold_sound\<close>). \<open>eval_typed\<close> and \<open>tc_arg_typed\<close>: expressions that pass the type
  checker have values of their types, for meanings that are documented and typed.
\<close>

section \<open>What folding gives\<close>

text \<open>The expressions that folding an expression can give, besides itself: an atom of it, a constant, a
  shift in place of a sum of two equals, a part of a binding.\<close>

definition bound :: "bindings \<Rightarrow> IRExpr \<Rightarrow> bool" where
  "bound env e \<longleftrightarrow> (\<exists>t<length env. env ! t = Some e)"

inductive fold_form :: "bindings \<Rightarrow> IRExpr \<Rightarrow> IRExpr \<Rightarrow> bool" for env where
  form_same: "fold_form env e e"
| form_const: "fold_form env e (Iex_Const c)"
| form_fst: "fold_form env (Iex_Binop op a b) a"
| form_snd: "fold_form env (Iex_Binop op a b) b"
| form_double: "(op, op2) \<in> {(''Add8'', ''Shl8''), (''Add32'', ''Shl32''), (''Add64'', ''Shl64'')} \<Longrightarrow>
    fold_form env (Iex_Binop (Iop op) a b) (Iex_Binop (Iop op2) a (Iex_Const (Ico_U8 1)))"
| form_bit: "bound env (Iex_Unop (Iop ''1Uto32'') e2) \<Longrightarrow> fold_form env (Iex_Binop (Iop ''CmpNE32'') a b) e2"
| form_ctz: "bound env (Iex_Binop (Iop ''Add64'') x m) \<Longrightarrow>
    fold_form env (Iex_Unop (Iop ''PopCount64'') a) (Iex_Unop (Iop ''CtzNat64'') x)"
| form_true: "fold_form env (Iex_ITE g a b) a"
| form_false: "fold_form env (Iex_ITE g a b) b"

lemma chase_bound:
  "chase env a = Inr (Some e) \<Longrightarrow> isIRAtom a \<Longrightarrow> \<not> isIRAtom e \<Longrightarrow> bound env e"
  using chase_upto_entry unfolding chase_def bound_def by metis

lemma whenR_form:
  "whenR t m n = Inr e2 \<Longrightarrow> (m = Inr e2 \<Longrightarrow> P) \<Longrightarrow> (n = Inr e2 \<Longrightarrow> P) \<Longrightarrow> P"
  by (auto simp: whenR_iff)

lemma mk_form:
  "mkZeroOfPrimopResultType op = Inr e2 \<Longrightarrow> fold_form env e e2" "mkOnesOfPrimopResultType op = Inr e2 \<Longrightarrow> fold_form env e e2"
  by (metis mk_const form_const)+

lemma Inr_form: "Inr x = Inr e2 \<Longrightarrow> fold_form env e x \<Longrightarrow> fold_form env e e2"
  by simp

lemma fold_identity_form:
  assumes "fold_identity env op (Iex_Binop (Iop op) a b) a b = Inr e2" "isIRAtom a"
  shows "fold_form env (Iex_Binop (Iop op) a b) e2"
proof -
  let ?e = "Iex_Binop (Iop op) a b"
  note forms = form_same form_const form_fst form_snd
  have cmp: "fold_form env ?e e2" if cmp: "fold_CmpNE32 env op ?e a b = Inr e2" "op = ''CmpNE32''"
    using cmp(1)
    by (rule fold_CmpNE32_cases) (use cmp(2) assms(2) in \<open>auto intro: mk_form fold_form.intros dest: chase_bound\<close>)
  have add: "fold_form env ?e e2" if "fold_Add env op ?e a b = Inr e2" "op \<in> {''Add32'', ''Add64''}"
    using that unfolding fold_Add_def by (elim whenR_form) (auto intro: fold_form.intros)
  have add8: "fold_form env ?e e2" if "fold_Add8 env ?e a b = Inr e2" "op = ''Add8''"
    using that unfolding fold_Add8_def by (elim whenR_form) (auto intro: fold_form.intros)
  have rest: "fold_form env ?e e2"
    if "fold_Shift ?e a b = Inr e2 \<or> fold_ShiftR32 ?e a b = Inr e2 \<or> fold_Or env op ?e a b = Inr e2 \<or> fold_Sub env op ?e a b = Inr e2
      \<or> fold_Sub8x16 ?e a b = Inr e2 \<or> fold_And env ?e a b = Inr e2 \<or> fold_AndV env op ?e a b = Inr e2 \<or> fold_OrV env op ?e a b = Inr e2
      \<or> fold_Xor env op ?e a b = Inr e2 \<or> fold_CmpEQ env op ?e a b = Inr e2"
    using that unfolding fold_Shift_def fold_ShiftR32_def fold_Or_def fold_Sub_def fold_Sub8x16_def fold_And_def fold_AndV_def
      fold_OrV_def fold_Xor_def fold_CmpEQ_def
    by (elim disjE whenR_form if_eqE) (erule mk_form | (erule Inr_form, rule forms))+
  show ?thesis
    using assms(1) unfolding fold_identity_def
    by (elim if_eqE) (erule (1) cmp add add8 | (rule rest, blast) | (erule Inr_form, rule forms))+
qed

lemma fold_forms:
  assumes "fold_Expr_WRK env e = Inr e2" "isFlatRHS e = Inr True" "\<And>d. bound env d \<Longrightarrow> isFlatRHS d = Inr True"
  shows "fold_form env e e2"
proof -
  consider op a where "e = Iex_Unop (Iop op) a" | op a b where "e = Iex_Binop (Iop op) a b" | c a b where "e = Iex_ITE c a b" | "e2 = e"
    using assms(1) by (cases e) (auto simp: fold_Expr_WRK_def split: IROp.splits)
  then show ?thesis
  proof cases
    case (1 op a)
    have "e2 = e \<or> (\<exists>c. e2 = Iex_Const c) \<or> op = ''PopCount64'' \<and> fold_PopCount64 env e a = Inr e2"
      using 1 assms(1) by (cases a) (auto simp: fold_Expr_WRK_def or_same_def res_iff split: if_splits option.splits)
    moreover have "fold_form env e e2" if pop: "op = ''PopCount64''" "fold_PopCount64 env e a = Inr e2"
    proof (cases "e2 = e")
      case False
      then obtain x where x: "match_ctz env a = Inr (Some x)" "e2 = Iex_Unop (Iop ''CtzNat64'') x"
        using pop(2) by (auto simp: fold_PopCount64_def res_iff split: option.splits)
      obtain l h m where ch: "chase env a = Inr (Some (Iex_Binop (Iop ''And64'') l h))" "chase env l = Inr (Some (Iex_Binop (Iop ''Add64'') x m))"
        using match_ctz_cases [OF x(1)] by metis
      then have "isIRAtom l" using chase_bound [OF ch(1)] assms(2) assms(3) [of "Iex_Binop (Iop ''And64'') l h"] 1 by simp
      then show ?thesis using 1 pop(1) x(2) chase_bound [OF ch(2)] by (auto intro: fold_form.intros)
    qed (auto intro: fold_form.intros)
    ultimately show ?thesis by (auto intro: fold_form.intros)
  next
    case (2 op a b)
    have "(\<exists>c. e2 = Iex_Const c) \<or> e2 = e \<or> fold_identity env op e a b = Inr e2"
      using 2 assms(1) by (cases a; cases b) (auto simp: fold_Expr_WRK_def or_same_def res_iff split: option.splits)
    with 2 assms(2) fold_identity_form [of env op a b e2] show ?thesis by (auto intro: fold_form.intros)
  next
    case (3 c a b)
    then have "e2 = e \<or> e2 = a \<or> e2 = b"
      using assms(1) by (auto simp: fold_Expr_WRK_def fold_ITE_def whenR_iff res_iff split: IRExpr.splits)
    with 3 show ?thesis by (auto intro: fold_form.intros)
  qed (auto intro: fold_form.intros)
qed

section \<open>Temporaries and bindings\<close>

definition defined :: "nat list \<Rightarrow> IRTemp set" where
  "defined dc = {t. t < length dc \<and> 0 < dc ! t}"

definition prop_temps :: "bindings \<Rightarrow> IRTemp set" where
  "prop_temps env = {t. t < length env \<and> (\<exists>e. env ! t = Some e \<and> propagated e)}"

text \<open>Bindings of defined temporaries, to flat expressions over defined temporaries that are not
  substituted themselves.\<close>

definition env_wf :: "nat list \<Rightarrow> bindings \<Rightarrow> bool" where
  "env_wf dc env \<longleftrightarrow> length env = length dc \<and> (\<forall>t<length env. \<forall>e. env ! t = Some e \<longrightarrow>
     t \<in> defined dc \<and> temps_of e \<subseteq> defined dc - prop_temps env \<and> isFlatRHS e = Inr True)"

lemma env_wf_bound: "env_wf dc env \<Longrightarrow> bound env e \<Longrightarrow> temps_of e \<subseteq> defined dc - prop_temps env \<and> isFlatRHS e = Inr True"
  unfolding env_wf_def bound_def by blast

lemma propagated_atom: "propagated e \<Longrightarrow> isIRAtom e"
  by (cases e) (auto simp: propagated_def)

lemma subst_atom:
  assumes "subst_Expr env a = Inr b" "isIRAtom a" "env_wf dc env"
  shows "isIRAtom b" "temps_of b \<subseteq> temps_of a \<union> defined dc - prop_temps env"
    "env_true S env r \<Longrightarrow> eval S r w b = eval S r w a"
proof -
  consider c where "a = Iex_Const c" "b = a" | t where "a = Iex_RdTmp t" "b = a" "t \<notin> prop_temps env"
    | t where "a = Iex_RdTmp t" "t < length env" "env ! t = Some b" "propagated b"
    using assms(1,2) by (cases a) (auto simp: res_iff env_get_def prop_temps_def split: option.splits if_splits)
  note cases = this
  show "isIRAtom b" using assms(2) cases by cases (auto intro: propagated_atom)
  show "temps_of b \<subseteq> temps_of a \<union> defined dc - prop_temps env"
    using cases env_wf_bound [OF assms(3), of b] by cases (auto simp: bound_def)
  show "eval S r w b = eval S r w a" if "env_true S env r"
    using cases that by cases (auto simp: env_true_def propagated_atom atom_timeless)
qed

lemma subst_flat:
  assumes "subst_Expr env e = Inr e2" "env_wf dc env"
  shows "isFlatRHS e2 = Inr True \<and> temps_of e2 \<subseteq> temps_of e \<union> defined dc - prop_temps env
    \<and> (env_true S env r \<longrightarrow> eval S r w e2 = eval S r w e \<and> (arg_typed S r w e \<longrightarrow> arg_typed S r w e2))"
proof -
  have atom: "isIRAtom b \<and> temps_of b \<subseteq> temps_of a \<union> defined dc - prop_temps env
      \<and> (env_true S env r \<longrightarrow> eval S r w b = eval S r w a)" if "subst_Expr env a = Inr b" "isIRAtom a" for a b
    using subst_atom(1,2) [OF that assms(2)] subst_atom(3) [OF that assms(2), of S r w] by blast
  have vec: "list_all isIRAtom bs \<and> (\<Union>b\<in>set bs. temps_of b) \<subseteq> (\<Union>a\<in>set as. temps_of a) \<union> defined dc - prop_temps env
      \<and> (env_true S env r \<longrightarrow> map (eval S r w) bs = map (eval S r w) as)"
    if "mapR (\<lambda>a. bindR (atomR a) (\<lambda>_. subst_Expr env a)) as = Inr bs" for as bs
    using that by (induction as arbitrary: bs) (fastforce simp: res_iff atomR_def dest!: atom)+
  show ?thesis
  proof (cases e)
    case (Iex_CCall cee ty args)
    with assms(1) obtain bs where "mapR (\<lambda>a. bindR (atomR a) (\<lambda>_. subst_Expr env a)) args = Inr bs" "e2 = Iex_CCall cee ty bs"
      by (auto simp: res_iff)
    with vec [OF this(1)] Iex_CCall show ?thesis by (simp add: arg_typed_def del: map_eq_conv)
  next
    case (Iex_Binop op a b)
    with assms(1) obtain a2 b2 where "e2 = Iex_Binop op a2 b2" "subst_Expr env a = Inr a2" "subst_Expr env b = Inr b2" "isIRAtom a" "isIRAtom b"
      by (auto simp: res_iff atomR_def)
    with atom [of a a2] atom [of b b2] Iex_Binop show ?thesis by (auto simp: arg_typed_def split: IROp.splits)
  next
    case (Iex_Unop op a)
    with assms(1) obtain a2 where "e2 = Iex_Unop op a2" "subst_Expr env a = Inr a2" "isIRAtom a"
      by (auto simp: res_iff atomR_def)
    with atom [of a a2] Iex_Unop show ?thesis by (auto simp: arg_typed_def split: IROp.splits)
  next
    case (Iex_RdTmp t)
    with atom [of e e2] assms(1) show ?thesis by (cases e2) (auto simp: arg_typed_def)
  qed (use assms(1) in \<open>auto simp: res_iff atomR_def arg_typed_def dest!: atom\<close>)
qed

lemma atom_arg_typed: "isIRAtom a \<Longrightarrow> arg_typed S r w a"
  by (cases a) (auto simp: arg_typed_def)

lemma fold_flat:
  assumes "fold_Expr_WRK env e = Inr e2" "env_wf dc env" "isFlatRHS e = Inr True"
  shows "isFlatRHS e2 = Inr True \<and> temps_of e2 \<subseteq> temps_of e \<union> (defined dc - prop_temps env)"
proof -
  have "fold_form env e e2" using fold_forms [OF assms(1,3)] env_wf_bound [OF assms(2)] by blast
  then show ?thesis
  proof cases
    case (form_bit a b)
    with env_wf_bound [OF assms(2) form_bit(2)] show ?thesis by (auto simp: atom_flat)
  next
    case (form_ctz x m a)
    with env_wf_bound [OF assms(2) form_ctz(3)] show ?thesis by auto
  qed (use assms(3) in \<open>auto simp: atom_flat\<close>)
qed

lemma shift_typed:
  "bin_typed ''Shl8'' u v \<longleftrightarrow> (\<exists>x. u = V8 x) \<and> (\<exists>y. v = V8 y)" "un_typed ''CtzNat64'' u \<longleftrightarrow> (\<exists>x. u = V64 x)"
  by (simp_all add: bin_typed_def un_typed_def sig_of_def sig_defs has_type_cases)

lemma fold_arg_typed:
  assumes "fold_Expr_WRK env e = Inr e2" "env_wf dc env" "isFlatRHS e = Inr True" "env_true S env r" "arg_typed S r w e" "sem_documented S"
  shows "arg_typed S r w e2"
proof -
  have "fold_form env e e2" using fold_forms [OF assms(1,3)] env_wf_bound [OF assms(2)] by blast
  then show ?thesis
  proof cases
    case (form_double op op2 a b)
    then show ?thesis using assms(5,6) by (auto simp: documented_const shift_typed)
  next
    case (form_bit a b)
    with env_wf_bound [OF assms(2) form_bit(2)] show ?thesis by (simp add: atom_arg_typed)
  next
    case (form_ctz x m a)
    then obtain t where t: "t < length env" "env ! t = Some (Iex_Binop (Iop ''Add64'') x m)" by (auto simp: bound_def)
    moreover have "timeless (Iex_Binop (Iop ''Add64'') x m)"
      using env_wf_bound [OF assms(2) form_ctz(3)] by (auto simp: atom_timeless)
    ultimately have "arg_typed S r w (Iex_Binop (Iop ''Add64'') x m)" using assms(4) unfolding env_true_def by blast
    then show ?thesis unfolding form_ctz by (auto simp: shift_typed)
  qed (use assms(3,5) in \<open>auto simp: atom_arg_typed\<close>)
qed

lemma subst_fold_sound:
  assumes "subst_fold fld env e = Inr e2" "env_wf dc env" "sem_documented S"
  shows "isFlatRHS e2 = Inr True \<and> temps_of e2 \<subseteq> temps_of e \<union> defined dc - prop_temps env
    \<and> (env_true S env r \<longrightarrow> arg_typed S r w e \<longrightarrow> eval S r w e2 = eval S r w e \<and> arg_typed S r w e2)"
proof -
  obtain e1 where e1: "subst_Expr env e = Inr e1" "fold_Expr (if fld then Some env else None) e1 = Inr e2"
    using assms(1) by (auto simp: subst_fold_def res_iff)
  note s = subst_flat [OF e1(1) assms(2), of S r w]
  show ?thesis
  proof (cases fld)
    case True
    then have f: "fold_Expr_WRK env e1 = Inr e2" using e1(2) by (simp add: fold_Expr_def)
    note fl = fold_flat [OF f assms(2)]
    show ?thesis using s fl fold_sound [OF f assms(3)] fold_arg_typed [OF f assms(2) _ _ _ assms(3)] by fastforce
  next
    case False
    with e1(2) s show ?thesis by (auto simp: fold_Expr_def)
  qed
qed

lemma fold_atom: "isIRAtom a \<Longrightarrow> fold_Expr env a = Inr a"
  by (cases a; cases env) (auto simp: fold_Expr_def fold_Expr_WRK_def)

lemma subst_fold_atom:
  assumes "subst_fold fld env a = Inr b" "isIRAtom a" "env_wf dc env"
  shows "isIRAtom b \<and> temps_of b \<subseteq> temps_of a \<union> defined dc - prop_temps env
    \<and> (env_true S env r \<longrightarrow> eval S r w b = eval S r w a)"
proof -
  obtain b' where b: "subst_Expr env a = Inr b'" "fold_Expr (if fld then Some env else None) b' = Inr b"
    using assms(1) by (auto simp: subst_fold_def res_iff)
  note s = subst_atom(1,2) [OF b(1) assms(2,3)] subst_atom(3) [OF b(1) assms(2,3), of S r w]
  with b(2) fold_atom show ?thesis by auto
qed

section \<open>Types\<close>

definition typed_state :: "IRTypeEnv \<Rightarrow> IRTemp set \<Rightarrow> ir_val temps \<Rightarrow> bool" where
  "typed_state E D r \<longleftrightarrow> (\<forall>t\<in>D. t < types_used E \<longrightarrow> has_type (types E ! t) (r t))"

definition sig_args :: "primop_sig \<Rightarrow> IRType list" where
  "sig_args s = filter (\<lambda>ty. ty \<noteq> Ity_INVALID) [t_arg1 s, t_arg2 s, t_arg3 s, t_arg4 s]"

text \<open>What the guest state, memory and helpers give, and the results of operations, have the declared
  types.\<close>

definition sem_typed :: "(ir_val, 'w) ir_sem \<Rightarrow> bool" where
  "sem_typed S \<longleftrightarrow>
     (\<forall>w off ty. has_type ty (sem_get S w off ty))
   \<and> (\<forall>w descr v bias. has_type (ra_elemTy descr) (sem_geti S w descr v bias))
   \<and> (\<forall>w en ty v. has_type ty (sem_load S w en ty v))
   \<and> (\<forall>cee ty vs. has_type ty (sem_ccall S cee ty vs))
   \<and> (\<forall>op s vs. typeOfPrimop op = Inr s \<longrightarrow> list_all2 has_type (sig_args s) vs \<longrightarrow> has_type (t_dst s) (sem_op S op vs))"

lemma atom_typed:
  assumes "isIRAtom a" "typeOfIRExpr E a = Inr ty" "temps_of a \<subseteq> D" "typed_state E D r" "sem_documented S"
  shows "has_type ty (eval S r w a)"
  using assms by (cases a) (auto simp: documented_const const_val_type typed_state_def typeOfIRTemp_def res_iff)

lemma eval_typed:
  assumes "isFlatRHS e = Inr True" "tcExpr E gw e = Inr ()" "typeOfIRExpr E e = Inr ty" "temps_of e \<subseteq> D" "typed_state E D r"
    and "sem_documented S" "sem_typed S"
  shows "has_type ty (eval S r w e)"
proof -
  note atom = atom_typed [OF _ _ _ assms(5,6)]
  have op: "typeOfPrimop op = Inr s \<Longrightarrow> list_all2 has_type (sig_args s) vs \<Longrightarrow> has_type (t_dst s) (sem_op S op vs)" for op s vs
    using assms(7) by (simp add: sem_typed_def)
  show ?thesis
  proof (cases e)
    case (Iex_ITE c a b)
    with assms(1-4) atom [of a ty w] atom [of b ty w] show ?thesis by (auto simp: res_iff)
  next
    case (Iex_RdTmp t)
    with atom [of e ty w] assms(3,4) show ?thesis by simp
  next
    case (Iex_Const c)
    with atom [of e ty w] assms(3,4) show ?thesis by simp
  qed (use assms(1-4,7) in \<open>auto simp: res_iff sem_typed_def sig_args_def atom_typed [OF _ _ _ assms(5,6)] intro!: op atom\<close>)
qed

lemma tc_arg_typed:
  assumes "isFlatRHS e = Inr True" "tcExpr E gw e = Inr ()" "temps_of e \<subseteq> D" "typed_state E D r" "sem_documented S"
  shows "arg_typed S r w e"
proof -
  note atom = atom_typed [OF _ _ _ assms(4,5)]
  show ?thesis
  proof (cases e)
    case (Iex_Unop opx a)
    obtain op where op: "opx = Iop op" by (cases opx)
    from assms(1-3) Iex_Unop obtain s where "isIRAtom a" "typeOfPrimop opx = Inr s" "typeOfIRExpr E a = Inr (t_arg1 s)" "temps_of a \<subseteq> D"
      by (auto simp: res_iff)
    with Iex_Unop op atom [of a "t_arg1 s" w] typeOfPrimop_sig [of op s] show ?thesis
      by (auto simp: un_typed_def split: option.splits)
  next
    case (Iex_Binop opx a b)
    obtain op where op: "opx = Iop op" by (cases opx)
    from assms(1-3) Iex_Binop obtain s where "isIRAtom a" "isIRAtom b" "typeOfPrimop opx = Inr s" "typeOfIRExpr E a = Inr (t_arg1 s)"
        "typeOfIRExpr E b = Inr (t_arg2 s)" "temps_of a \<subseteq> D" "temps_of b \<subseteq> D"
      by (auto simp: res_iff)
    with Iex_Binop op atom [of a "t_arg1 s" w] atom [of b "t_arg2 s" w] typeOfPrimop_sig [of op s] show ?thesis
      by (auto simp: bin_typed_def split: option.splits)
  qed (auto simp: arg_typed_def)
qed

end
