(* ===== verification/Opt_Fold_Total.thy ===== *)
theory Opt_Fold_Total
  imports Opt_Cprop_Env
begin

text \<open>
  Folding succeeds and keeps types, on well-typed expressions and bindings: \<open>fold_total_wt\<close>.

  \<open>wt\<close> is what the sanity checker demands of an expression, and \<open>plain\<close> leaves out the two things
  on which folding can stop: the operation \<open>Max32U\<close> (an operand with all bits set makes
  \<open>mkOnesOfPrimopResultType\<close> panic), and the constants \<open>Ico_F32\<close> and \<open>Ico_F64\<close> (compared with
  \<open>Ico_F32i\<close> and \<open>Ico_F64i\<close> of the same types they fail an assertion of \<open>sameIRExprs_aux\<close>).
  Bindings that are copies lead to temporaries that are not, so \<open>chase\<close> makes at most two steps.
\<close>

unbundle bit_operations_syntax

section \<open>Well-typed expressions\<close>

text \<open>Without the constants and the operation on which folding can stop.\<close>

fun plain_const :: "IRConst \<Rightarrow> bool" where
  "plain_const (Ico_F32 _) = False"
| "plain_const (Ico_F64 _) = False"
| "plain_const _ = True"

fun plain :: "IRExpr \<Rightarrow> bool" where
  "plain (Iex_Const c) = plain_const c"
| "plain (Iex_GetI descr ix bias) = plain ix"
| "plain (Iex_Qop op a b c d) = (plain a \<and> plain b \<and> plain c \<and> plain d)"
| "plain (Iex_Triop op a b c) = (plain a \<and> plain b \<and> plain c)"
| "plain (Iex_Binop op a b) = (op \<noteq> Iop ''Max32U'' \<and> plain a \<and> plain b)"
| "plain (Iex_Unop op a) = plain a"
| "plain (Iex_Load en ty a) = plain a"
| "plain (Iex_ITE c a b) = (plain c \<and> plain a \<and> plain b)"
| "plain (Iex_CCall cee ty args) = list_all plain args"
| "plain _ = True"

definition wt :: "IRTypeEnv \<Rightarrow> IRType \<Rightarrow> IRExpr \<Rightarrow> IRType \<Rightarrow> bool" where
  "wt E gw e ty \<longleftrightarrow> isFlatRHS e = Inr True \<and> tcExpr E gw e = Inr () \<and> typeOfIRExpr E e = Inr ty \<and> plain e"

definition env_wt :: "IRTypeEnv \<Rightarrow> IRType \<Rightarrow> bindings \<Rightarrow> bool" where
  "env_wt E gw env \<longleftrightarrow> length env = types_used E \<and> (\<forall>t<length env. \<forall>e. env ! t = Some e \<longrightarrow> wt E gw e (types E ! t))"

lemma env_wt_get:
  assumes "env_wt E gw env" "wt E gw (Iex_RdTmp t) ty"
  shows "\<exists>b. env_get env t = Inr b \<and> (\<forall>e. b = Some e \<longrightarrow> wt E gw e ty)"
  using assms by (auto simp: env_wt_def wt_def env_get_def typeOfIRTemp_def res_iff)

lemma const_tag_type: "plain_const c \<Longrightarrow> plain_const d \<Longrightarrow> typeOfIRConst c = typeOfIRConst d \<Longrightarrow> const_tag c = const_tag d"
  by (cases c; cases d) auto

lemma wt_atoms:
  "wt E gw (Iex_Unop op a) ty \<Longrightarrow> \<exists>s. typeOfPrimop op = Inr s \<and> isIRAtom a \<and> wt E gw a (t_arg1 s) \<and> ty = t_dst s"
  "wt E gw (Iex_Binop op a b) ty \<Longrightarrow>
     \<exists>s. typeOfPrimop op = Inr s \<and> isIRAtom a \<and> isIRAtom b \<and> wt E gw a (t_arg1 s) \<and> wt E gw b (t_arg2 s) \<and> ty = t_dst s \<and> op \<noteq> Iop ''Max32U''"
  "wt E gw (Iex_Triop op a b c) ty \<Longrightarrow>
     \<exists>s. typeOfPrimop op = Inr s \<and> wt E gw a (t_arg1 s) \<and> wt E gw b (t_arg2 s) \<and> wt E gw c (t_arg3 s) \<and> ty = t_dst s"
  "wt E gw (Iex_ITE c a b) ty \<Longrightarrow> isIRAtom c \<and> isIRAtom a \<and> isIRAtom b \<and> wt E gw c Ity_I1 \<and> wt E gw a ty \<and> wt E gw b ty"
  by (auto simp: wt_def res_iff atom_flat)

lemma wt_same:
  "wt E gw (Iex_Unop op a) ty \<Longrightarrow> wt E gw (Iex_Unop op a') ty' \<Longrightarrow> \<exists>t. wt E gw a t \<and> wt E gw a' t"
  "wt E gw (Iex_Binop op a b) ty \<Longrightarrow> wt E gw (Iex_Binop op a' b') ty' \<Longrightarrow>
     \<exists>t u. wt E gw a t \<and> wt E gw a' t \<and> wt E gw b u \<and> wt E gw b' u"
  "wt E gw (Iex_Triop op a b c) ty \<Longrightarrow> wt E gw (Iex_Triop op a' b' c') ty' \<Longrightarrow>
     \<exists>t u v. wt E gw a t \<and> wt E gw a' t \<and> wt E gw b u \<and> wt E gw b' u \<and> wt E gw c v \<and> wt E gw c' v"
  by (fastforce dest: wt_atoms)+

lemma andR_total:
  "(\<exists>b n. m = Inr (b, n)) \<Longrightarrow> (\<And>n. m = Inr (True, n) \<Longrightarrow> \<exists>b k. f n = Inr (b, k)) \<Longrightarrow> \<exists>b n. andR m f = Inr (b, n)"
  by (auto simp: andR_def)

lemma sameIRExprs_aux_total:
  assumes "env_wt E gw env" "wt E gw e1 ty" "wt E gw e2 ty"
  shows "\<exists>b n'. sameIRExprs_aux env n e1 e2 = Inr (b, n')"
  using assms
proof (induction env n e1 e2 arbitrary: ty rule: sameIRExprs_aux.induct)
  case (1 env n e1 e2)
  note ih = "1.IH" and wt = "1.prems" and def = sameIRExprs_aux.simps [of env n e1 e2]
  show ?case
  proof (cases "expr_tag e1 = expr_tag e2 \<and> \<not> n > NODE_LIMIT")
    case False
    then show ?thesis by (auto simp: def)
  next
    case True
    then have tag: "expr_tag e1 = expr_tag e2" and n: "\<not> NODE_LIMIT < n" by simp_all
    show ?thesis
    proof (cases e1)
      case (Iex_RdTmp t1)
      with tag obtain t2 where e2: "e2 = Iex_RdTmp t2" by (cases e2) auto
      obtain b1 b2 where b: "env_get env t1 = Inr b1" "env_get env t2 = Inr b2" "\<And>d. b1 = Some d \<Longrightarrow> wt E gw d ty" "\<And>d. b2 = Some d \<Longrightarrow> wt E gw d ty"
        using env_wt_get [OF wt(1)] wt(2,3) Iex_RdTmp e2 by metis
      have "\<exists>b n'. sameIRExprs_aux env (Suc n) d1 d2 = Inr (b, n')" if "t1 \<noteq> t2" "b1 = Some d1" "b2 = Some d2" for d1 d2
        using ih(1) [OF _ n refl Iex_RdTmp e2 that(1) _ that(2) _ that(3) wt(1)] tag b that by simp
      with b(1,2) n show ?thesis unfolding def unfolding Iex_RdTmp e2 by (auto split: option.splits)
    next
      case (Iex_Const c1)
      with tag obtain c2 where e2: "e2 = Iex_Const c2" by (cases e2) auto
      have "const_tag c1 = const_tag c2" using wt(2,3) Iex_Const e2 by (auto simp: wt_def const_tag_type)
      with n show ?thesis unfolding def unfolding Iex_Const e2 by simp
    next
      case (Iex_Unop op1 a1)
      with tag obtain op2 a2 where e2: "e2 = Iex_Unop op2 a2" by (cases e2) auto
      have "\<exists>b n'. sameIRExprs_aux env (Suc n) a1 a2 = Inr (b, n')" if op: "op1 = op2"
      proof -
        obtain t where "wt E gw a1 t" "wt E gw a2 t" using wt_same(1) [OF wt(2) [unfolded Iex_Unop op] wt(3) [unfolded e2]] by blast
        with ih(7) [OF _ n refl Iex_Unop e2 _ wt(1)] tag op show ?thesis by blast
      qed
      with n show ?thesis unfolding def unfolding Iex_Unop e2 by auto
    next
      case (Iex_Binop op1 a1 b1)
      with tag obtain op2 a2 b2 where e2: "e2 = Iex_Binop op2 a2 b2" by (cases e2) auto
      have "\<exists>b n'. andR (sameIRExprs_aux env (Suc n) a1 a2) (\<lambda>m. sameIRExprs_aux env m b1 b2) = Inr (b, n')" if op: "op1 = op2"
      proof -
        obtain t u where "wt E gw a1 t" "wt E gw a2 t" "wt E gw b1 u" "wt E gw b2 u"
          using wt_same(2) [OF wt(2) [unfolded Iex_Binop op] wt(3) [unfolded e2]] by blast
        with ih(5,6) [OF _ n refl Iex_Binop e2] wt(1) tag op show ?thesis by (intro andR_total; blast)
      qed
      with n show ?thesis unfolding def unfolding Iex_Binop e2 by auto
    next
      case (Iex_Triop op1 a1 b1 c1)
      with tag obtain op2 a2 b2 c2 where e2: "e2 = Iex_Triop op2 a2 b2 c2" by (cases e2) auto
      have "\<exists>b n'. andR (sameIRExprs_aux env (Suc n) a1 a2) (\<lambda>m.
          andR (sameIRExprs_aux env m b1 b2) (\<lambda>m. sameIRExprs_aux env m c1 c2)) = Inr (b, n')" if op: "op1 = op2"
      proof -
        obtain t u v where "wt E gw a1 t" "wt E gw a2 t" "wt E gw b1 u" "wt E gw b2 u" "wt E gw c1 v" "wt E gw c2 v"
          using wt_same(3) [OF wt(2) [unfolded Iex_Triop op] wt(3) [unfolded e2]] by blast
        with ih(2-4) [OF _ n refl Iex_Triop e2] wt(1) tag op show ?thesis by (intro andR_total; blast)
      qed
      with n show ?thesis unfolding def unfolding Iex_Triop e2 by auto
    next
      case (Iex_ITE c1 a1 b1)
      with tag obtain c2 a2 b2 where e2: "e2 = Iex_ITE c2 a2 b2" by (cases e2) auto
      have "\<exists>b n'. andR (sameIRExprs_aux env (Suc n) c1 c2) (\<lambda>m.
          andR (sameIRExprs_aux env m a1 a2) (\<lambda>m. sameIRExprs_aux env m b1 b2)) = Inr (b, n')"
        using ih(8-10) [OF _ n refl Iex_ITE e2] wt(1) tag wt_atoms(4) [OF wt(2) [unfolded Iex_ITE]] wt_atoms(4) [OF wt(3) [unfolded e2]]
        by (intro andR_total; blast)
      with n show ?thesis unfolding def unfolding Iex_ITE e2 by auto
    qed (use n in \<open>auto simp: sameIRExprs_aux.simps [of env n _ e2]\<close>)
  qed
qed

lemma sameIRExprs_total:
  "env_wt E gw env \<Longrightarrow> wt E gw e1 ty \<Longrightarrow> wt E gw e2 ty \<Longrightarrow> \<exists>b. sameIRExprs env e1 e2 = Inr b"
  using sameIRExprs_aux_total [of E gw env e1 ty e2 0] by (auto simp: sameIRExprs_def)

section \<open>Operations on constants\<close>

text \<open>On constants of the argument types a table entry gives a constant of the result type, or none.\<close>

definition good_const :: "IRType \<Rightarrow> IRConst \<Rightarrow> bool" where
  "good_const ty c \<longleftrightarrow> typeOfIRConst c = ty \<and> saneIRConst c \<and> plain_const c"

definition good_result :: "IRType \<Rightarrow> IRConst option res \<Rightarrow> bool" where
  "good_result ty m \<longleftrightarrow> (\<exists>r. m = Inr r \<and> (\<forall>c. r = Some c \<longrightarrow> good_const ty c))"

definition unop_total :: "unop_fold \<Rightarrow> bool" where
  "unop_total p \<longleftrightarrow> (\<exists>s. sig_of (fst p) = Some s \<and> (\<forall>c. good_const (t_arg1 s) c \<longrightarrow> good_result (t_dst s) (snd p c)))"

definition binop_total :: "binop_fold \<Rightarrow> bool" where
  "binop_total p \<longleftrightarrow> (\<exists>s. sig_of (fst p) = Some s \<and>
     (\<forall>c d. good_const (t_arg1 s) c \<longrightarrow> good_const (t_arg2 s) d \<longrightarrow> good_result (t_dst s) (snd p c d)))"

lemma good_const_cases:
  "good_const Ity_I1 c \<longleftrightarrow> (\<exists>w. c = Ico_U1 w \<and> saneIRConst c)" "good_const Ity_I8 c \<longleftrightarrow> (\<exists>w. c = Ico_U8 w)"
  "good_const Ity_I16 c \<longleftrightarrow> (\<exists>w. c = Ico_U16 w)" "good_const Ity_I32 c \<longleftrightarrow> (\<exists>w. c = Ico_U32 w)"
  "good_const Ity_I64 c \<longleftrightarrow> (\<exists>w. c = Ico_U64 w)" "good_const Ity_V128 c \<longleftrightarrow> (\<exists>w. c = Ico_V128 w)"
  "good_const Ity_V256 c \<longleftrightarrow> (\<exists>w. c = Ico_V256 w)"
  by (cases c; auto simp: good_const_def)+

lemma good_result_simps [simp]:
  "good_result ty (Inr None)" "good_result ty (Inr (Some c)) \<longleftrightarrow> good_const ty c" "\<not> good_result ty (Inl e)"
  by (auto simp: good_result_def)

lemmas fold_total = sig_of_def sig_defs good_const_cases con_defs ok1_def toBool_def read2_def notBool_def

lemma fold_unops_1_total: "list_all unop_total fold_unops_1"
  unfolding fold_unops_1_def list.pred_inject
  by (intro conjI) (auto simp: unop_total_def fold_total)

lemma fold_unops_2_total: "list_all unop_total fold_unops_2"
  unfolding fold_unops_2_def list.pred_inject
  by (intro conjI) (auto simp: unop_total_def fold_total)

lemma find_bit:
  fixes w :: "'a::len word"
  assumes "w \<noteq> 0"
  shows "\<exists>i. find (\<lambda>i. w AND push_bit (LENGTH('a) - Suc i) 1 \<noteq> 0) [0..<LENGTH('a)] = Some i"
proof -
  obtain k where k: "bit w k" "k < LENGTH('a)" using assms by (metis bit_eqI bit_0_eq bit_imp_le_length bot_apply bot_bool_def)
  have "w AND push_bit (LENGTH('a) - Suc (LENGTH('a) - Suc k)) 1 \<noteq> 0"
    using k by (simp add: and_exp_eq_0_iff_not_bit push_bit_of_1)
  moreover have "LENGTH('a) - Suc k \<in> set [0..<LENGTH('a)]" using k(2) by simp
  ultimately have "find (\<lambda>i. w AND push_bit (LENGTH('a) - Suc i) 1 \<noteq> 0) [0..<LENGTH('a)] \<noteq> None"
    unfolding find_None_iff by blast
  then show ?thesis by blast
qed

lemma fold_Clz_total: "u \<noteq> 0 \<Longrightarrow> \<exists>n. fold_Clz32 u = Inr n" "v \<noteq> 0 \<Longrightarrow> \<exists>n. fold_Clz64 v = Inr n"
  using find_bit [of u] find_bit [of v] by (auto simp: fold_Clz32_def fold_Clz64_def)

lemma fold_unops_3_total: "list_all unop_total fold_unops_3"
proof -
  have "good_result Ity_I32 (bindR (fold_Clz32 u) (ok1 Ico_U32))" if "u \<noteq> 0" for u
    using fold_Clz_total(1) [OF that] by (auto simp: ok1_def good_const_cases)
  moreover have "good_result Ity_I64 (bindR (fold_Clz64 v) (ok1 (\<lambda>n. Ico_U64 (ucast n))))" if "v \<noteq> 0" for v
    using fold_Clz_total(2) [OF that] by (auto simp: ok1_def good_const_cases)
  ultimately show ?thesis
    unfolding fold_unops_3_def list.pred_inject
    by (intro conjI) (auto simp: unop_total_def sig_of_def sig_defs good_const_cases con_defs ok1_def [abs_def] Let_def)
qed

lemma fold_binops_total: "list_all binop_total fold_binops_1" "list_all binop_total fold_binops_2" "list_all binop_total fold_binops_5"
  unfolding fold_binops_1_def fold_binops_2_def fold_binops_5_def list.pred_inject
  by (intro conjI; auto simp: binop_total_def fold_total)+

lemma fold_binops_3_total: "list_all binop_total fold_binops_3"
  unfolding fold_binops_3_def list.pred_inject
  by (intro conjI) (auto simp: binop_total_def fold_total shift32_const_def shift64_const_def)

lemma fold_binops_4_total: "list_all binop_total fold_binops_4"
  unfolding fold_binops_4_def list.pred_inject
  by (intro conjI; auto simp: binop_total_def fold_total)

lemma fold_unops_total:
  assumes "map_of fold_unops op = Some f" "typeOfPrimop (Iop op) = Inr s" "good_const (t_arg1 s) c"
  shows "good_result (t_dst s) (f c)"
proof -
  have "list_all unop_total fold_unops" using fold_unops_1_total fold_unops_2_total fold_unops_3_total by (simp add: fold_unops_def)
  then obtain s' where "sig_of op = Some s'" "good_const (t_arg1 s') c \<Longrightarrow> good_result (t_dst s') (f c)"
    using map_of_SomeD [OF assms(1)] by (fastforce simp: list_all_iff unop_total_def)
  with typeOfPrimop_sig [OF assms(2)] assms(3) show ?thesis by auto
qed

lemma fold_binops_all_total:
  assumes "map_of fold_binops op = Some f" "typeOfPrimop (Iop op) = Inr s" "good_const (t_arg1 s) c" "good_const (t_arg2 s) d"
  shows "good_result (t_dst s) (f c d)"
proof -
  have "list_all binop_total fold_binops"
    using fold_binops_total fold_binops_3_total fold_binops_4_total by (simp add: fold_binops_def)
  then obtain s' where "sig_of op = Some s'" "good_const (t_arg1 s') c \<Longrightarrow> good_const (t_arg2 s') d \<Longrightarrow> good_result (t_dst s') (f c d)"
    using map_of_SomeD [OF assms(1)] by (fastforce simp: list_all_iff binop_total_def)
  with typeOfPrimop_sig [OF assms(2)] assms(3,4) show ?thesis by auto
qed

section \<open>Following bindings\<close>

definition copies_direct :: "bindings \<Rightarrow> bool" where
  "copies_direct env \<longleftrightarrow> (\<forall>t<length env. \<forall>u. env ! t = Some (Iex_RdTmp u) \<longrightarrow> u < length env \<and> (\<forall>v. env ! u \<noteq> Some (Iex_RdTmp v)))"

lemma env_wf_copies: "env_wf dc env \<Longrightarrow> copies_direct env"
  unfolding copies_direct_def
proof (intro allI impI)
  fix t u assume e: "env_wf dc env" "t < length env" "env ! t = Some (Iex_RdTmp u)"
  then have "u \<in> defined dc - prop_temps env" using env_wf_bound [of dc env "Iex_RdTmp u"] by (auto simp: bound_def)
  with e(1) show "u < length env \<and> (\<forall>v. env ! u \<noteq> Some (Iex_RdTmp v))"
    by (auto simp: env_wf_def defined_def prop_temps_def propagated_def)
qed

lemma chase_upto_other: "\<forall>t. e \<noteq> Iex_RdTmp t \<Longrightarrow> chase_upto k env e = Inr (Some e)"
  by (cases e) auto

text \<open>A chain of copies has at most two steps.\<close>

lemma chase_total:
  assumes "env_wt E gw env" "copies_direct env" "wt E gw a ty"
  shows "\<exists>r. chase env a = Inr r \<and> (\<forall>e. r = Some e \<longrightarrow> wt E gw e ty)"
proof (cases "\<exists>t. a = Iex_RdTmp t")
  case False
  with assms(3) show ?thesis by (simp add: chase_def chase_upto_other)
next
  case True
  then obtain t where a: "a = Iex_RdTmp t" by blast
  obtain b where b: "env_get env t = Inr b" "\<And>e. b = Some e \<Longrightarrow> wt E gw e ty" using env_wt_get [OF assms(1) assms(3) [unfolded a]] by blast
  have t: "t < length env" "b = env ! t" using b(1) by (auto simp: env_get_def res_iff)
  then obtain n where n: "length env = Suc n" by (cases "length env") auto
  show ?thesis
  proof (cases "\<exists>u. b = Some (Iex_RdTmp u)")
    case True
    then obtain u where u: "b = Some (Iex_RdTmp u)" by blast
    obtain c where c: "env_get env u = Inr c" "\<And>e. c = Some e \<Longrightarrow> wt E gw e ty" using env_wt_get [OF assms(1) b(2) [OF u]] by blast
    have cu: "c = env ! u" using c(1) by (auto simp: env_get_def res_iff)
    have "\<forall>v. c \<noteq> Some (Iex_RdTmp v)"
      using assms(2) [unfolded copies_direct_def, rule_format, OF t(1) u [unfolded t(2)]] unfolding cu by blast
    then have "chase env a = Inr c" using a b(1) u c(1) n by (cases c) (simp_all add: chase_def chase_upto_other)
    with c(2) show ?thesis by blast
  next
    case False
    then have "chase env a = Inr b" using a b(1) by (cases b) (simp_all add: chase_def chase_upto_other)
    with b(2) show ?thesis by blast
  qed
qed

section \<open>Identities\<close>

definition gives :: "IRTypeEnv \<Rightarrow> IRType \<Rightarrow> IRType \<Rightarrow> IRExpr res \<Rightarrow> bool" where
  "gives E gw ty m \<longleftrightarrow> (\<exists>e. m = Inr e \<and> wt E gw e ty)"

lemma gives_rules:
  "wt E gw e ty \<Longrightarrow> gives E gw ty (Inr e)"
  "\<exists>b. t = Inr b \<Longrightarrow> gives E gw ty m \<Longrightarrow> gives E gw ty n \<Longrightarrow> gives E gw ty (whenR t m n)"
  "(c \<Longrightarrow> gives E gw ty m) \<Longrightarrow> (\<not> c \<Longrightarrow> gives E gw ty n) \<Longrightarrow> gives E gw ty (if c then m else n)"
  by (auto simp: gives_def whenR_def)

lemma wt_const: "wt E gw (Iex_Const c) ty \<longleftrightarrow> good_const ty c"
  by (auto simp: wt_def good_const_def res_iff)

lemma isZeroU_total: "wt E gw a ty \<Longrightarrow> ty \<in> {Ity_I8, Ity_I16, Ity_I32, Ity_I64, Ity_V256} \<Longrightarrow> \<exists>b. isZeroU a = Inr b"
  by (cases a) (auto simp: isZeroU_def wt_const good_const_def split: IRConst.splits)

lemma isOnesU_total: "wt E gw a ty \<Longrightarrow> ty \<in> {Ity_I8, Ity_I16, Ity_I32, Ity_I64} \<Longrightarrow> \<exists>b. isOnesU a = Inr b"
  by (cases a) (auto simp: isOnesU_def wt_const good_const_def split: IRConst.splits)

lemma or_total: "\<exists>b. m = Inr b \<Longrightarrow> \<exists>b. n = Inr b \<Longrightarrow> \<exists>b. bindR m (\<lambda>b. if b then Inr True else n) = Inr b"
  by auto

text \<open>A fact about the signatures of several operations.\<close>

definition sig_all :: "(string \<Rightarrow> primop_sig \<Rightarrow> bool) \<Rightarrow> string list \<Rightarrow> bool" where
  "sig_all P ops \<longleftrightarrow> list_all (\<lambda>op. case sig_of op of None \<Rightarrow> False | Some s \<Rightarrow> P op s) ops"

lemma sig_allD: "sig_all P ops \<Longrightarrow> op \<in> set ops \<Longrightarrow> typeOfPrimop (Iop op) = Inr s \<Longrightarrow> P op s"
  using typeOfPrimop_sig [of op s] by (fastforce simp: sig_all_def list_all_iff split: option.splits)

lemma shift_sig:
  assumes "typeOfPrimop (Iop op) = Inr s"
    "op \<in> {''Shl32'', ''Shl64'', ''Shr64'', ''Sar64'', ''Sar32'', ''Shr32''}"
  shows "t_arg1 s = t_dst s \<and> t_arg2 s = Ity_I8 \<and> t_dst s \<in> {Ity_I32, Ity_I64}"
proof -
  have "sig_all (\<lambda>op s. t_arg1 s = t_dst s \<and> t_arg2 s = Ity_I8 \<and> t_dst s \<in> {Ity_I32, Ity_I64}) [''Shl32'', ''Shl64'', ''Shr64'', ''Sar64'', ''Sar32'', ''Shr32'']"
    by (simp add: sig_all_def sig_of_def sig_defs)
  from sig_allD [OF this _ assms(1)] assms(2) show ?thesis by simp
qed

lemma int_sig:
  assumes "typeOfPrimop (Iop op) = Inr s"
    "op \<in> {''Or8'', ''Or16'', ''Or32'', ''Or64'', ''Add8'', ''Add32'', ''Add64'', ''Sub32'', ''Sub64'', ''And8'', ''And16'', ''And32'', ''And64'',
      ''Xor8'', ''Xor16'', ''Xor32'', ''Xor64''}"
  shows "t_arg1 s = t_dst s \<and> t_arg2 s = t_dst s \<and> t_dst s \<in> {Ity_I8, Ity_I16, Ity_I32, Ity_I64}"
proof -
  have "sig_all (\<lambda>op s. t_arg1 s = t_dst s \<and> t_arg2 s = t_dst s \<and> t_dst s \<in> {Ity_I8, Ity_I16, Ity_I32, Ity_I64}) [''Or8'', ''Or16'', ''Or32'', ''Or64'', ''Add8'', ''Add32'', ''Add64'', ''Sub32'', ''Sub64'', ''And8'', ''And16'', ''And32'', ''And64'',
      ''Xor8'', ''Xor16'', ''Xor32'', ''Xor64'']"
    by (simp add: sig_all_def sig_of_def sig_defs)
  from sig_allD [OF this _ assms(1)] assms(2) show ?thesis by simp
qed

lemma vec_sig:
  assumes "typeOfPrimop (Iop op) = Inr s"
    "op \<in> {''Sub8x16'', ''AndV128'', ''OrV128'', ''XorV128'', ''AndV256'', ''OrV256'', ''XorV256''}"
  shows "t_arg1 s = t_dst s \<and> t_arg2 s = t_dst s \<and> (op = ''XorV256'' \<longrightarrow> t_dst s = Ity_V256)"
proof -
  have "sig_all (\<lambda>op s. t_arg1 s = t_dst s \<and> t_arg2 s = t_dst s \<and> (op = ''XorV256'' \<longrightarrow> t_dst s = Ity_V256)) [''Sub8x16'', ''AndV128'', ''OrV128'', ''XorV128'', ''AndV256'', ''OrV256'', ''XorV256'']"
    by (simp add: sig_all_def sig_of_def sig_defs)
  from sig_allD [OF this _ assms(1)] assms(2) show ?thesis by simp
qed

lemma cmp_sig:
  assumes "typeOfPrimop (Iop op) = Inr s"
    "op \<in> {''CmpNE32'', ''CmpEQ32'', ''CmpEQ64'', ''CmpEQ8x8'', ''CmpEQ16x4'', ''CmpEQ32x2'', ''CmpEQ8x16'', ''CmpEQ16x8'',
      ''CmpEQ32x4'', ''CmpEQ64x2'', ''CmpEQ8x32'', ''CmpEQ16x16'', ''CmpEQ32x8'', ''CmpEQ64x4''}"
  shows "t_arg1 s = t_arg2 s"
proof -
  have "sig_all (\<lambda>op s. t_arg1 s = t_arg2 s) [''CmpNE32'', ''CmpEQ32'', ''CmpEQ64'', ''CmpEQ8x8'', ''CmpEQ16x4'', ''CmpEQ32x2'', ''CmpEQ8x16'', ''CmpEQ16x8'',
      ''CmpEQ32x4'', ''CmpEQ64x2'', ''CmpEQ8x32'', ''CmpEQ16x16'', ''CmpEQ32x8'', ''CmpEQ64x4'']"
    by (simp add: sig_all_def sig_of_def sig_defs)
  from sig_allD [OF this _ assms(1)] assms(2) show ?thesis by simp
qed

lemma gives_const: "(case m of Inr (Iex_Const c) \<Rightarrow> good_const ty c | _ \<Rightarrow> False) \<Longrightarrow> gives E gw ty m"
  by (auto simp: gives_def wt_const split: sum.splits IRExpr.splits)

lemma mkZero_gives:
  assumes "typeOfPrimop (Iop op) = Inr s"
    "op \<in> {''CmpNE32'', ''Xor8'', ''Xor16'', ''Sub32'', ''Xor32'', ''And64'', ''Sub64'', ''Xor64'', ''XorV128'', ''AndV128'', ''XorV256'', ''AndV256''}"
  shows "gives E gw (t_dst s) (mkZeroOfPrimopResultType op)"
proof -
  have "sig_all (\<lambda>op s. case mkZeroOfPrimopResultType op of Inr (Iex_Const c) \<Rightarrow> good_const (t_dst s) c | _ \<Rightarrow> False) [''CmpNE32'', ''Xor8'', ''Xor16'', ''Sub32'', ''Xor32'', ''And64'', ''Sub64'', ''Xor64'', ''XorV128'', ''AndV128'', ''XorV256'', ''AndV256'']"
    by (simp add: sig_all_def sig_of_def sig_defs mkZeroOfPrimopResultType_def good_const_cases)
  from sig_allD [OF this _ assms(1)] assms(2) show ?thesis by (intro gives_const) simp
qed

lemma mkOnes_gives:
  assumes "typeOfPrimop (Iop op) = Inr s"
    "op \<in> {''CmpEQ32'', ''CmpEQ64'', ''Or8'', ''Or16'', ''Or32'', ''Or64'', ''CmpEQ8x8'', ''CmpEQ16x4'', ''CmpEQ32x2'', ''CmpEQ8x16'', ''CmpEQ16x8'',
      ''CmpEQ32x4'', ''CmpEQ64x2'', ''CmpEQ8x32'', ''CmpEQ16x16'', ''CmpEQ32x8'', ''CmpEQ64x4''}"
  shows "gives E gw (t_dst s) (mkOnesOfPrimopResultType op)"
proof -
  have "sig_all (\<lambda>op s. case mkOnesOfPrimopResultType op of Inr (Iex_Const c) \<Rightarrow> good_const (t_dst s) c | _ \<Rightarrow> False) [''CmpEQ32'', ''CmpEQ64'', ''Or8'', ''Or16'', ''Or32'', ''Or64'', ''CmpEQ8x8'', ''CmpEQ16x4'', ''CmpEQ32x2'', ''CmpEQ8x16'', ''CmpEQ16x8'',
      ''CmpEQ32x4'', ''CmpEQ64x2'', ''CmpEQ8x32'', ''CmpEQ16x16'', ''CmpEQ32x8'', ''CmpEQ64x4'']"
    by (simp add: sig_all_def sig_of_def sig_defs mkOnesOfPrimopResultType_def good_const_cases)
  from sig_allD [OF this _ assms(1)] assms(2) show ?thesis by (intro gives_const) simp
qed

lemma shl_types:
  "typeOfPrimop (Iop ''Shl8'') = Inr (BINARY Ity_I8 Ity_I8 Ity_I8)" "typeOfPrimop (Iop ''Shl32'') = Inr (BINARY Ity_I32 Ity_I8 Ity_I32)"
  "typeOfPrimop (Iop ''Shl64'') = Inr (BINARY Ity_I64 Ity_I8 Ity_I64)" "typeOfPrimop (Iop ''CtzNat64'') = Inr (UNARY Ity_I64 Ity_I64)"
  by code_simp+

lemma wt_shl:
  assumes "(op, ty) \<in> {(''Shl8'', Ity_I8), (''Shl32'', Ity_I32), (''Shl64'', Ity_I64)}" "isIRAtom a" "wt E gw a ty"
  shows "wt E gw (Iex_Binop (Iop op) a (Iex_Const (Ico_U8 1))) ty"
  using assms by (auto simp: wt_def res_iff shl_types sig_defs)

lemma add_sig:
  "typeOfPrimop (Iop ''Add8'') = Inr s \<Longrightarrow> t_dst s = Ity_I8" "typeOfPrimop (Iop ''Add32'') = Inr s \<Longrightarrow> t_dst s = Ity_I32"
  "typeOfPrimop (Iop ''Add64'') = Inr s \<Longrightarrow> t_dst s = Ity_I64" "typeOfPrimop (Iop ''1Uto32'') = Inr s \<Longrightarrow> t_arg1 s = Ity_I1"
  "typeOfPrimop (Iop ''CmpNE32'') = Inr s \<Longrightarrow> t_dst s = Ity_I1"
  by (drule typeOfPrimop_sig, simp add: sig_of_def, simp add: sig_defs)+

lemma fold_CmpNE32_total:
  assumes "env_wt E gw env" "copies_direct env" "wt E gw a (t_arg1 s)" "wt E gw b (t_arg2 s)" "wt E gw e (t_dst s)"
    "typeOfPrimop (Iop ''CmpNE32'') = Inr s"
  shows "gives E gw (t_dst s) (fold_CmpNE32 env ''CmpNE32'' e a b)"
  unfolding fold_CmpNE32_def
proof (rule gives_rules(2) [OF _ mkZero_gives [OF assms(6)] gives_rules(3) [OF _ gives_rules(1) [OF assms(5)]]])
  show "\<exists>x. sameIRExprs env a b = Inr x" using sameIRExprs_total [OF assms(1,3)] cmp_sig [OF assms(6)] assms(4) by simp
  obtain r where r: "chase env a = Inr r" "\<And>d. r = Some d \<Longrightarrow> wt E gw d (t_arg1 s)" using chase_total [OF assms(1-3)] by blast
  have "wt E gw x Ity_I1" if "r = Some (Iex_Unop (Iop ''1Uto32'') x)" for x
    using wt_atoms(1) [OF r(2) [OF that]] add_sig(4) by force
  then show "gives E gw (t_dst s) (bindR (chase env a) (\<lambda>a1. case a1 of
      Some (Iex_Unop op1 x) \<Rightarrow> if op1 = Iop ''1Uto32'' then Inr x else Inr e | _ \<Rightarrow> Inr e))"
    using r(1) assms(5) add_sig(5) [OF assms(6)] by (auto simp: gives_def split: option.split IRExpr.split)
qed simp

lemma fold_identity_total:
  assumes "env_wt E gw env" "copies_direct env" "typeOfPrimop (Iop op) = Inr s" "wt E gw a (t_arg1 s)" "wt E gw b (t_arg2 s)" "isIRAtom a"
    "wt E gw e (t_dst s)" "op \<noteq> ''Max32U''"
  shows "gives E gw (t_dst s) (fold_identity env op e a b)"
proof -
  note same = sameIRExprs_total [OF assms(1,4)] and e = gives_rules(1) [OF assms(7)]
  have shift: "gives E gw (t_dst s) (fold_Shift e a b)" "gives E gw (t_dst s) (fold_ShiftR32 e a b)"
    if "op \<in> {''Shl32'', ''Shl64'', ''Shr64'', ''Sar64'', ''Sar32'', ''Shr32''}"
  proof -
    have "wt E gw a (t_dst s)" "\<exists>x. isZeroU a = Inr x" "\<exists>x. isZeroU b = Inr x"
      using shift_sig [OF assms(3) that] assms(4,5) isZeroU_total [OF assms(4)] isZeroU_total [OF assms(5)] by auto
    then show "gives E gw (t_dst s) (fold_Shift e a b)" "gives E gw (t_dst s) (fold_ShiftR32 e a b)"
      unfolding fold_Shift_def fold_ShiftR32_def by (auto intro!: gives_rules(1,2) e)
  qed
  have int: "wt E gw a (t_dst s)" "wt E gw b (t_dst s)" "\<exists>x. isZeroU a = Inr x" "\<exists>x. isZeroU b = Inr x" "\<exists>x. isOnesU a = Inr x"
      "\<exists>x. isOnesU b = Inr x" "\<exists>x. sameIRExprs env a b = Inr x"
    if "op \<in> {''Or8'', ''Or16'', ''Or32'', ''Or64'', ''Add8'', ''Add32'', ''Add64'', ''Sub32'', ''Sub64'', ''And8'', ''And16'', ''And32'', ''And64'',
      ''Xor8'', ''Xor16'', ''Xor32'', ''Xor64''}"
  proof -
    have s: "t_arg1 s = t_dst s" "t_arg2 s = t_dst s" "t_dst s \<in> {Ity_I8, Ity_I16, Ity_I32, Ity_I64}" using int_sig [OF assms(3) that] by blast+
    note a = assms(4) [unfolded s(1)] and b = assms(5) [unfolded s(2)]
    show "wt E gw a (t_dst s)" "wt E gw b (t_dst s)" by (fact a b)+
    show "\<exists>x. isZeroU a = Inr x" "\<exists>x. isZeroU b = Inr x" using isZeroU_total [OF a] isZeroU_total [OF b] s(3) by blast+
    show "\<exists>x. isOnesU a = Inr x" "\<exists>x. isOnesU b = Inr x" using isOnesU_total [OF a] isOnesU_total [OF b] s(3) by blast+
    show "\<exists>x. sameIRExprs env a b = Inr x" by (rule sameIRExprs_total [OF assms(1) a b])
  qed
  have vec: "wt E gw a (t_dst s)" "wt E gw b (t_dst s)" "\<exists>x. sameIRExprs env a b = Inr x"
      "op = ''XorV256'' \<Longrightarrow> (\<exists>x. isZeroU a = Inr x) \<and> (\<exists>x. isZeroU b = Inr x)"
    if "op \<in> {''Sub8x16'', ''AndV128'', ''OrV128'', ''XorV128'', ''AndV256'', ''OrV256'', ''XorV256''}"
  proof -
    have s: "t_arg1 s = t_dst s" "t_arg2 s = t_dst s" "op = ''XorV256'' \<Longrightarrow> t_dst s = Ity_V256" using vec_sig [OF assms(3) that] by blast+
    note a = assms(4) [unfolded s(1)] and b = assms(5) [unfolded s(2)]
    show "wt E gw a (t_dst s)" "wt E gw b (t_dst s)" by (fact a b)+
    show "\<exists>x. sameIRExprs env a b = Inr x" by (rule sameIRExprs_total [OF assms(1) a b])
    show "op = ''XorV256'' \<Longrightarrow> (\<exists>x. isZeroU a = Inr x) \<and> (\<exists>x. isZeroU b = Inr x)"
      using isZeroU_total [OF a] isZeroU_total [OF b] s(3) by blast
  qed
  have Or: "gives E gw (t_dst s) (fold_Or env op e a b)" if "op \<in> {''Or8'', ''Or16'', ''Or32'', ''Or64'', ''Max32U''}"
  proof -
    have o: "op \<in> {''Or8'', ''Or16'', ''Or32'', ''Or64''}" using that assms(8) by blast
    note i = int [OF subsetD [OF _ o]] and m = mkOnes_gives [OF assms(3) subsetD [OF _ o], of E gw]
    show ?thesis unfolding fold_Or_def by (intro gives_rules or_total e i m) simp_all
  qed
  have Add8: "gives E gw (t_dst s) (fold_Add8 env e a b)" if "op = ''Add8''"
  proof -
    have o: "op \<in> {''Add8''}" using that by simp
    note i = int [OF subsetD [OF _ o]]
    have "wt E gw (Iex_Binop (Iop ''Shl8'') a (Iex_Const (Ico_U8 1))) (t_dst s)"
      using i(1) add_sig(1) assms(3) that by (intro wt_shl assms(6)) auto
    then show ?thesis unfolding fold_Add8_def by (intro gives_rules e i) simp_all
  qed
  have Add: "gives E gw (t_dst s) (fold_Add env op e a b)" if "op \<in> {''Add32'', ''Add64''}"
  proof -
    note i = int [OF subsetD [OF _ that]]
    have "wt E gw (Iex_Binop (if op = ''Add32'' then Iop ''Shl32'' else Iop ''Shl64'') a (Iex_Const (Ico_U8 1))) (t_dst s)"
      using i(1) add_sig(2,3) assms(3) that wt_shl [OF _ assms(6), of "''Shl32''" _ E gw] wt_shl [OF _ assms(6), of "''Shl64''" _ E gw] by auto
    then show ?thesis unfolding fold_Add_def by (intro gives_rules e i) simp_all
  qed
  have Sub: "gives E gw (t_dst s) (fold_Sub env op e a b)" if "op \<in> {''Sub32'', ''Sub64''}"
  proof -
    note i = int [OF subsetD [OF _ that]] and m = mkZero_gives [OF assms(3) subsetD [OF _ that], of E gw]
    show ?thesis unfolding fold_Sub_def by (intro gives_rules e i m) simp_all
  qed
  have And: "gives E gw (t_dst s) (fold_And env e a b)" if "op \<in> {''And8'', ''And16'', ''And32'', ''And64''}"
  proof -
    note i = int [OF subsetD [OF _ that]]
    show ?thesis unfolding fold_And_def by (intro gives_rules e i) simp_all
  qed
  have Sub8x16: "gives E gw (t_dst s) (fold_Sub8x16 e a b)" if "op = ''Sub8x16''"
    using vec(1) that unfolding fold_Sub8x16_def by (intro gives_rules e) simp
  have AndV: "gives E gw (t_dst s) (fold_AndV env op e a b)" if "op \<in> {''AndV128'', ''AndV256''}"
  proof -
    note v = vec [OF subsetD [OF _ that]] and m = mkZero_gives [OF assms(3) subsetD [OF _ that], of E gw]
    show ?thesis unfolding fold_AndV_def by (intro gives_rules e v m) simp_all
  qed
  have OrV: "gives E gw (t_dst s) (fold_OrV env op e a b)" if "op \<in> {''OrV128'', ''OrV256''}"
  proof -
    note v = vec [OF subsetD [OF _ that]]
    show ?thesis unfolding fold_OrV_def by (intro gives_rules e v) simp_all
  qed
  have Xor: "gives E gw (t_dst s) (fold_Xor env op e a b)" if xor: "op \<in> {''Xor8'', ''Xor16'', ''Xor32'', ''Xor64'', ''XorV128'', ''XorV256''}"
  proof -
    note m = mkZero_gives [OF assms(3) subsetD [OF _ xor], of E gw]
    consider (xi) "op \<in> {''Xor8'', ''Xor16'', ''Xor32'', ''Xor64''}" | (xv) "op \<in> {''XorV128'', ''XorV256''}" using xor by blast
    then show ?thesis
    proof cases
      case xi
      note i = int [OF subsetD [OF _ xi]]
      show ?thesis unfolding fold_Xor_def by (intro gives_rules e i m) simp_all
    next
      case xv
      note v = vec [OF subsetD [OF _ xv]]
      have "op \<noteq> ''XorV128'' \<Longrightarrow> (\<exists>x. isZeroU a = Inr x) \<and> (\<exists>x. isZeroU b = Inr x)" using xv v(4) by simp
      then show ?thesis unfolding fold_Xor_def by (intro gives_rules e v(1-3) m) simp_all
    qed
  qed
  have CmpEQ: "gives E gw (t_dst s) (fold_CmpEQ env op e a b)"
    if "op \<in> {''CmpEQ32'', ''CmpEQ64'', ''CmpEQ8x8'', ''CmpEQ16x4'', ''CmpEQ32x2'', ''CmpEQ8x16'', ''CmpEQ16x8'',
      ''CmpEQ32x4'', ''CmpEQ64x2'', ''CmpEQ8x32'', ''CmpEQ16x16'', ''CmpEQ32x8'', ''CmpEQ64x4''}"
  proof -
    have "t_arg1 s = t_arg2 s" by (rule cmp_sig [OF assms(3) subsetD [OF _ that]]) simp
    then have "\<exists>x. sameIRExprs env a b = Inr x" using same assms(5) by simp
    then show ?thesis unfolding fold_CmpEQ_def by (intro gives_rules e mkOnes_gives [OF assms(3) subsetD [OF _ that]]) simp_all
  qed
  have CmpNE: "gives E gw (t_dst s) (fold_CmpNE32 env op e a b)" if "op = ''CmpNE32''"
    using fold_CmpNE32_total [OF assms(1,2,4,5,7)] assms(3) that by simp
  show ?thesis
    unfolding fold_identity_def
    by (intro gives_rules(3) e shift Or Add8 Add Sub Sub8x16 And AndV OrV Xor CmpNE CmpEQ) auto
qed

section \<open>Folding an expression\<close>

lemma bind_total: "\<exists>r. m = Inr r \<and> P r \<Longrightarrow> (\<And>r. P r \<Longrightarrow> Q (f r)) \<Longrightarrow> Q (bindR m f)"
  by auto

lemma case_total:
  "(\<And>op y z. x = Some (Iex_Binop op y z) \<Longrightarrow> Q (f op y z)) \<Longrightarrow> Q d \<Longrightarrow> Q (case x of Some (Iex_Binop op y z) \<Rightarrow> f op y z | _ \<Rightarrow> d)"
  "(\<And>op y. x = Some (Iex_Unop op y) \<Longrightarrow> Q (g op y)) \<Longrightarrow> Q d \<Longrightarrow> Q (case x of Some (Iex_Unop op y) \<Rightarrow> g op y | _ \<Rightarrow> d)"
  by (auto split: option.split IRExpr.split)

lemma if_total: "Q n \<Longrightarrow> (\<not> c \<Longrightarrow> Q m) \<Longrightarrow> Q (if c then n else m)"
  by simp

lemma ctz_sigs:
  "typeOfPrimop (Iop ''And64'') = Inr s \<Longrightarrow> t_arg1 s = Ity_I64 \<and> t_arg2 s = Ity_I64"
  "typeOfPrimop (Iop ''Add64'') = Inr s \<Longrightarrow> t_arg1 s = Ity_I64 \<and> t_arg2 s = Ity_I64"
  "typeOfPrimop (Iop ''Not64'') = Inr s \<Longrightarrow> t_arg1 s = Ity_I64"
  "typeOfPrimop (Iop ''PopCount64'') = Inr s \<Longrightarrow> t_arg1 s = Ity_I64 \<and> t_dst s = Ity_I64"
  by (drule typeOfPrimop_sig, simp add: sig_of_def, simp add: sig_defs)+

lemma match_ctz_total:
  assumes "env_wt E gw env" "copies_direct env" "wt E gw arg Ity_I64"
  shows "\<exists>r. match_ctz env arg = Inr r \<and> (\<forall>x. r = Some x \<longrightarrow> isIRAtom x \<and> wt E gw x Ity_I64)"
proof -
  define Q :: "IRExpr option res \<Rightarrow> bool" where "Q m \<longleftrightarrow> (\<exists>r. m = Inr r \<and> (\<forall>x. r = Some x \<longrightarrow> isIRAtom x \<and> wt E gw x Ity_I64))" for m
  note chase = chase_total [OF assms(1,2)]
  have none: "Q (Inr None)" by (simp add: Q_def)
  have ones: "Q (bindR (isOnesU k) (\<lambda>ones. if \<not> ones then Inr None else Inr (Some x)))"
    if "wt E gw k Ity_I64" "isIRAtom x" "wt E gw x Ity_I64" for k x
    using isOnesU_total [OF that(1)] that(2,3) by (auto simp: Q_def)
  have m: "Q (bindR (chase env m) (\<lambda>a112. case a112 of None \<Rightarrow> Inr None | Some a112 \<Rightarrow>
      bindR (eqIRAtom x y) (\<lambda>eq. if \<not> eq then Inr None else bindR (isOnesU a112) (\<lambda>ones. if \<not> ones then Inr None else Inr (Some x)))))"
    if "wt E gw m Ity_I64" "isIRAtom x" "isIRAtom y" "wt E gw x Ity_I64" for m x y
    by (rule bind_total [where Q = Q, OF chase [OF that(1)]]) (use ones that none in \<open>auto simp: eqIRAtom_def split: option.split\<close>)
  have not64: "isIRAtom y" if "wt E gw (Iex_Unop (Iop ''Not64'') y) Ity_I64" for y using wt_atoms(1) [OF that] by blast
  have and64: "wt E gw l Ity_I64 \<and> wt E gw h Ity_I64" if "wt E gw (Iex_Binop (Iop ''And64'') l h) Ity_I64" for l h
    using wt_atoms(2) [OF that] ctz_sigs(1) by auto
  have add64: "wt E gw x Ity_I64 \<and> wt E gw k Ity_I64 \<and> isIRAtom x" if "wt E gw (Iex_Binop (Iop ''Add64'') x k) Ity_I64" for x k
    using wt_atoms(2) [OF that] ctz_sigs(2) by auto
  let ?m = "\<lambda>x m y. bindR (chase env m) (\<lambda>a112. case a112 of None \<Rightarrow> Inr None | Some a112 \<Rightarrow>
      bindR (eqIRAtom x y) (\<lambda>eq. if \<not> eq then Inr None else bindR (isOnesU a112) (\<lambda>ones. if \<not> ones then Inr None else Inr (Some x))))"
  let ?h = "\<lambda>x m h. bindR (chase env h) (\<lambda>a12. case a12 of Some (Iex_Unop op12 a121) \<Rightarrow> if op12 \<noteq> Iop ''Not64'' then Inr None else ?m x m a121
      | _ \<Rightarrow> Inr None)"
  let ?l = "\<lambda>l h. bindR (chase env l) (\<lambda>a11. case a11 of Some (Iex_Binop op11 a111 m) \<Rightarrow> if op11 \<noteq> Iop ''Add64'' then Inr None else ?h a111 m h
      | _ \<Rightarrow> Inr None)"
  have h: "Q (?h x k h)" if "wt E gw h Ity_I64" "wt E gw k Ity_I64" "isIRAtom x" "wt E gw x Ity_I64" for x k h
    by (rule bind_total [where Q = Q, OF chase [OF that(1)]], rule case_total(2) [where Q = Q], rule if_total [where Q = Q, OF none m [OF that(2,3) not64 that(4)]])
      (simp_all add: none)
  have l: "Q (?l l h)" if "wt E gw l Ity_I64" "wt E gw h Ity_I64" for l h
    by (rule bind_total [where Q = Q, OF chase [OF that(1)]], rule case_total(1) [where Q = Q], rule if_total [where Q = Q, OF none h [OF that(2)]])
      (rule none | metis add64)+
  have "Q (match_ctz env arg)"
    unfolding match_ctz_def
    by (rule bind_total [where Q = Q, OF chase [OF assms(3)]], rule case_total(1) [where Q = Q], rule if_total [where Q = Q, OF none l])
      (rule none | metis and64)+
  then show ?thesis by (simp add: Q_def)
qed

lemma fold_total_wt:
  assumes "env_wt E gw env" "copies_direct env" "wt E gw e ty"
  shows "gives E gw ty (fold_Expr_WRK env e)"
proof -
  note e = gives_rules(1) [OF assms(3)]
  have op: "\<exists>nm. op = Iop nm" for op by (cases op) blast
  consider op a where "e = Iex_Unop (Iop op) a" | op a b where "e = Iex_Binop (Iop op) a b" | c a b where "e = Iex_ITE c a b"
    | "fold_Expr_WRK env e = Inr e"
    using op by (cases e) (simp_all add: fold_Expr_WRK_def, metis+)
  then show ?thesis
  proof cases
    case (1 op a)
    obtain s where s: "typeOfPrimop (Iop op) = Inr s" "isIRAtom a" "wt E gw a (t_arg1 s)" "ty = t_dst s"
      using wt_atoms(1) assms(3) 1 by blast
    show ?thesis
    proof (cases a)
      case (Iex_Const c)
      have "good_const (t_arg1 s) c" using s(3) Iex_Const by (simp add: wt_const)
      then have "map_of fold_unops op = Some f \<Longrightarrow> good_result ty (f c)" for f using fold_unops_total [OF _ s(1)] s(4) by simp
      with 1 Iex_Const e show ?thesis
        by (auto simp: fold_Expr_WRK_def or_same_def gives_def wt_const good_result_def split: option.split)
    next
      case (Iex_RdTmp t)
      have "gives E gw ty (fold_PopCount64 env e a)" if "op = ''PopCount64''"
      proof -
        have ty: "wt E gw a Ity_I64" "ty = Ity_I64" using s(1,3,4) ctz_sigs(4) that by auto
        obtain r where "match_ctz env a = Inr r" "\<And>x. r = Some x \<Longrightarrow> isIRAtom x \<and> wt E gw x Ity_I64"
          using match_ctz_total [OF assms(1,2) ty(1)] by blast
        moreover have "isIRAtom x \<Longrightarrow> wt E gw x Ity_I64 \<Longrightarrow> wt E gw (Iex_Unop (Iop ''CtzNat64'') x) Ity_I64" for x
          by (simp add: wt_def res_iff shl_types sig_defs)
        ultimately show ?thesis using assms(3) ty(2) by (auto simp: fold_PopCount64_def gives_def split: option.split)
      qed
      with 1 Iex_RdTmp e show ?thesis by (simp add: fold_Expr_WRK_def)
    qed (use s(2) in auto)
  next
    case (2 op a b)
    obtain s where s: "typeOfPrimop (Iop op) = Inr s" "isIRAtom a" "isIRAtom b" "wt E gw a (t_arg1 s)" "wt E gw b (t_arg2 s)" "ty = t_dst s"
        "op \<noteq> ''Max32U''"
      using wt_atoms(2) assms(3) 2 by blast
    show ?thesis
    proof (cases "\<exists>c d. a = Iex_Const c \<and> b = Iex_Const d")
      case True
      then obtain c d where cd: "a = Iex_Const c" "b = Iex_Const d" by blast
      have "map_of fold_binops op = Some f \<Longrightarrow> good_result ty (f c d)" for f
        using fold_binops_all_total [OF _ s(1)] s(4-6) cd by (simp add: wt_const)
      with 2 cd e show ?thesis
        by (auto simp: fold_Expr_WRK_def or_same_def gives_def wt_const good_result_def split: option.split)
    next
      case False
      then have "fold_Expr_WRK env e = fold_identity env op e a b" using 2 by (cases a; cases b) (auto simp: fold_Expr_WRK_def)
      with fold_identity_total [OF assms(1,2) s(1,4,5,2) _ s(7), of e] assms(3) s(6) show ?thesis by simp
    qed
  next
    case (3 c a b)
    have w: "isIRAtom c" "wt E gw c Ity_I1" "wt E gw a ty" "wt E gw b ty" using wt_atoms(4) assms(3) 3 by blast+
    show ?thesis
    proof (cases c)
      case (Iex_Const k)
      then show ?thesis using w 3 by (cases k) (auto simp: fold_Expr_WRK_def fold_ITE_def con_U1_def gives_def wt_const good_const_def)
    next
      case (Iex_RdTmp t)
      then show ?thesis
        using gives_rules(2) [OF sameIRExprs_total [OF assms(1) w(3,4)] gives_rules(1) [OF w(4)] e] 3
        by (simp add: fold_Expr_WRK_def fold_ITE_def)
    qed (use w(1) in auto)
  qed (use e in simp)
qed

text \<open>Following bindings from any temporary takes at most two steps.\<close>

lemma chase_upto_copy:
  assumes "env_wf dc env" "t < length env"
  shows "\<exists>r. \<forall>k\<ge>2. chase_upto k env (Iex_RdTmp t) = Inr r"
proof (cases "env ! t")
  case None
  then have "chase_upto k env (Iex_RdTmp t) = Inr None" if "k \<ge> 2" for k
    using that assms(2) by (cases k) (auto simp: env_get_def)
  then show ?thesis by blast
next
  case (Some e)
  show ?thesis
  proof (cases "\<exists>u. e = Iex_RdTmp u")
    case False
    then have "chase_upto k env e = Inr (Some e)" for k by (intro chase_upto_other) blast
    then have "chase_upto k env (Iex_RdTmp t) = Inr (Some e)" if "k \<ge> 2" for k
      using that assms(2) Some by (cases k) (auto simp: env_get_def)
    then show ?thesis by blast
  next
    case True
    then obtain u where u: "e = Iex_RdTmp u" by blast
    with assms Some have d: "u \<in> defined dc" "u \<notin> prop_temps env" by (auto simp: env_wf_def)
    then have l: "u < length env" using assms(1) by (auto simp: defined_def env_wf_def)
    have "\<exists>r. \<forall>k. chase_upto (Suc k) env (Iex_RdTmp u) = Inr r"
    proof (cases "env ! u")
      case None
      with l show ?thesis by (simp add: env_get_def)
    next
      case (Some d)
      with d(2) l have "\<not> propagated d" by (auto simp: prop_temps_def)
      then have "chase_upto k env d = Inr (Some d)" for k by (intro chase_upto_other) (auto simp: propagated_def)
      with Some l show ?thesis by (simp add: env_get_def)
    qed
    then obtain r where r: "chase_upto (Suc k) env (Iex_RdTmp u) = Inr r" for k by blast
    have "chase_upto k env (Iex_RdTmp t) = Inr r" if "k \<ge> 2" for k
    proof -
      obtain k' where "k = Suc (Suc k')" using \<open>k \<ge> 2\<close> by (metis One_nat_def Suc_1 Suc_le_D le_Suc_eq nat_1_add_1 not_less_eq_eq old.nat.exhaust zero_order(2))
      with r [of k'] Some u assms(2) show ?thesis by (simp only: chase_upto.simps nat.case) (simp add: env_get_def)
    qed
    then show ?thesis by blast
  qed
qed
end
