(* ===== verification/Opt_Cprop_Stmt.thy ===== *)
theory Opt_Cprop_Stmt
  imports Opt_Cprop_Env
begin

text \<open>
  Substitution and folding in one statement: the new statement does what the old one does
  (\<open>subst_Stmt_run\<close>) and mentions no temporary that is substituted. \<open>sem_guarded\<close> states what the
  header says of guarded loads and stores, which folding turns into plain ones; \<open>log_sem\<close> is a
  meaning of the IR for which it holds.
\<close>

section \<open>Guarded accesses\<close>

definition cvt_val :: "('v, 'w) ir_sem \<Rightarrow> IROp option \<Rightarrow> 'v \<Rightarrow> 'v" where
  "cvt_val S cvtOp v = (case cvtOp of None \<Rightarrow> v | Some op \<Rightarrow> sem_op S op [v])"

text \<open>A guarded store is a store or nothing; a guarded load gives the converted contents of memory, or
  the alternative.\<close>

definition sem_guarded :: "('v, 'w) ir_sem \<Rightarrow> bool" where
  "sem_guarded S \<longleftrightarrow>
     (\<forall>sg a d g w. fst (sem_act S (Ist_StoreG sg) [a, d, g] w) =
        (if sem_true S g then fst (sem_act S (Ist_Store (sg_end sg) hole hole) [a, d] w) else w))
   \<and> (\<forall>lg res arg cvtOp a b g w. typeOfIRLoadGOp (lg_cvt lg) = Inr (res, arg) \<longrightarrow> cvt_op (lg_cvt lg) = Inr cvtOp \<longrightarrow>
        fst (sem_act S (Ist_LoadG lg) [a, b, g] w) = w
      \<and> snd (sem_act S (Ist_LoadG lg) [a, b, g] w) (lg_dst lg) =
          (if sem_true S g then cvt_val S cvtOp (sem_load S w (lg_end lg) arg a) else b))"

lemma guarded_store:
  "sem_guarded S \<Longrightarrow> fst (sem_act S (Ist_StoreG sg) [a, d, g] w) =
    (if sem_true S g then fst (sem_act S (Ist_Store (sg_end sg) hole hole) [a, d] w) else w)"
  by (simp add: sem_guarded_def)

lemma guarded_load:
  "sem_guarded S \<Longrightarrow> typeOfIRLoadGOp (lg_cvt lg) = Inr (res, arg) \<Longrightarrow> cvt_op (lg_cvt lg) = Inr cvtOp \<Longrightarrow>
   fst (sem_act S (Ist_LoadG lg) [a, b, g] w) = w"
  "sem_guarded S \<Longrightarrow> typeOfIRLoadGOp (lg_cvt lg) = Inr (res, arg) \<Longrightarrow> cvt_op (lg_cvt lg) = Inr cvtOp \<Longrightarrow>
   snd (sem_act S (Ist_LoadG lg) [a, b, g] w) (lg_dst lg) =
     (if sem_true S g then cvt_val S cvtOp (sem_load S w (lg_end lg) arg a) else b)"
  by (simp_all add: sem_guarded_def)

lemma act_pair:
  "act S st (r, w) = (assign (stmt_defs st) (snd (sem_act S (stmt_shape st) (map (eval S r w) (stmt_args st)) w)) r,
     fst (sem_act S (stmt_shape st) (map (eval S r w) (stmt_args st)) w))"
  by (simp add: act_def case_prod_beta)

lemma StoreG_act:
  "sem_guarded S \<Longrightarrow> act S (Ist_StoreG sg) (r, w) =
    (if sem_true S (eval S r w (sg_guard sg)) then act S (Ist_Store (sg_end sg) (sg_addr sg) (sg_data sg)) (r, w) else (r, w))"
  by (simp add: act_pair assign_def guarded_store)

lemma loadg_ops: "typeOfIRLoadGOp cvt = Inr p \<Longrightarrow> \<exists>cvtOp. cvt_op cvt = Inr cvtOp"
  by (cases cvt) (auto simp: cvt_op_def)

lemma LoadG_act:
  assumes "sem_guarded S" "typeOfIRLoadGOp (lg_cvt lg) = Inr (res, arg)" "cvt_op (lg_cvt lg) = Inr cvtOp"
  shows "act S (Ist_LoadG lg) (r, w) =
    (r(lg_dst lg := if sem_true S (eval S r w (lg_guard lg)) then cvt_val S cvtOp (sem_load S w (lg_end lg) arg (eval S r w (lg_addr lg)))
                    else eval S r w (lg_alt lg)), w)"
  using guarded_load [of S "lg\<lparr>lg_addr := hole, lg_alt := hole, lg_guard := hole\<rparr>" res arg cvtOp] assms
  by (simp add: act_pair assign_def fun_eq_iff)

section \<open>Statements\<close>

lemma act_same:
  assumes "stmt_shape st2 = stmt_shape st" "map (eval S r w) (stmt_args st2) = map (eval S r w) (stmt_args st)" "stmt_defs st2 = stmt_defs st"
  shows "act S st2 (r, w) = act S st (r, w)"
  using assms by (simp add: act_def)

lemma const_guard_iff:
  "const_guard g = Inr (Some True) \<Longrightarrow> g = Iex_Const (Ico_U1 1)"
  "const_guard g = Inr (Some False) \<Longrightarrow> g = Iex_Const (Ico_U1 0)"
  by (cases g; auto simp: const_guard_def res_iff con_U1_def split: if_splits IRConst.splits)+

lemma documented_bits:
  "sem_documented S \<Longrightarrow> sem_true S (eval S r w (Iex_Const (Ico_U1 1)))" "sem_documented S \<Longrightarrow> \<not> sem_true S (eval S r w (Iex_Const (Ico_U1 0)))"
  by (simp_all add: documented_const documented_true)

definition arg_shape :: "IRExpr \<Rightarrow> IRExpr" where
  "arg_shape a = (if is_IRExpr_VECRET_or_GSPTR a then a else hole)"

lemma atom_arg_shape: "isIRAtom a \<Longrightarrow> arg_shape a = hole"
  by (cases a) (auto simp: arg_shape_def)

lemma subst_args:
  assumes "mapR (\<lambda>arg. if is_IRExpr_VECRET_or_GSPTR arg then Inr arg else bindR (atomR arg) (\<lambda>_. subst_fold fld env arg)) as = Inr bs"
    and "env_wf dc env"
  shows "map arg_shape bs = map arg_shape as \<and> (\<Union>b\<in>set bs. temps_of b) \<subseteq> (\<Union>a\<in>set as. temps_of a) \<union> defined dc - prop_temps env
    \<and> (env_true S env r \<longrightarrow> map (eval S r w) bs = map (eval S r w) as)"
  using assms(1)
proof (induction as arbitrary: bs)
  case (Cons a as)
  then obtain b bs' where b: "bs = b # bs'" "(if is_IRExpr_VECRET_or_GSPTR a then Inr a else bindR (atomR a) (\<lambda>_. subst_fold fld env a)) = Inr b"
      "mapR (\<lambda>arg. if is_IRExpr_VECRET_or_GSPTR arg then Inr arg else bindR (atomR arg) (\<lambda>_. subst_fold fld env arg)) as = Inr bs'"
    by (auto simp: bindR_eq_Inr)
  have "arg_shape b = arg_shape a \<and> temps_of b \<subseteq> temps_of a \<union> defined dc - prop_temps env \<and> (env_true S env r \<longrightarrow> eval S r w b = eval S r w a)"
  proof (cases "is_IRExpr_VECRET_or_GSPTR a")
    case True
    with b(2) special_temps [OF True] show ?thesis by simp
  next
    case False
    with b(2) have "isIRAtom a" "subst_fold fld env a = Inr b" by (auto simp: res_iff atomR_def)
    with subst_fold_atom [OF this(2,1) assms(2), of S r w] show ?thesis by (auto simp: atom_arg_shape)
  qed
  with Cons.IH [OF b(3)] b(1) show ?case by auto
qed simp

lemma subst_Dirty_cases:
  assumes "subst_Dirty fld env d = Inr st2"
  obtains args g args2 m2 g2 where "d_args d = Some args" "d_guard d = Some g" "isIRAtom g" "subst_fold fld env g = Inr g2"
    "mapR (\<lambda>arg. if is_IRExpr_VECRET_or_GSPTR arg then Inr arg else bindR (atomR arg) (\<lambda>_. subst_fold fld env arg)) args = Inr args2"
    "st2 = Ist_Dirty (d\<lparr>d_args := Some args2, d_mAddr := m2, d_guard := Some g2\<rparr>)"
    "if d_mFx d = Ifx_None then m2 = d_mAddr d
     else \<exists>m n. d_mAddr d = Some m \<and> isIRAtom m \<and> subst_fold fld env m = Inr n \<and> m2 = Some n"
  using assms unfolding subst_Dirty_def Let_def bindR_eq_Inr optR_eq_Inr atomR_def assertR_eq_Inr
  by (auto simp: res_iff split: if_splits)

lemma subst_Dirty_run:
  assumes "subst_Dirty fld env d = Inr st2" "env_wf dc env"
  shows "stmt_temps st2 \<subseteq> stmt_temps (Ist_Dirty d) \<union> defined dc - prop_temps env \<and> stmt_defs st2 = stmt_defs (Ist_Dirty d)
    \<and> (env_true S env r \<longrightarrow> exec_stmt S (r, w) (Some st2) = exec_stmt S (r, w) (Some (Ist_Dirty d)))"
proof -
  obtain args g args2 m2 g2 where d: "d_args d = Some args" "d_guard d = Some g" "isIRAtom g" "subst_fold fld env g = Inr g2"
    "mapR (\<lambda>arg. if is_IRExpr_VECRET_or_GSPTR arg then Inr arg else bindR (atomR arg) (\<lambda>_. subst_fold fld env arg)) args = Inr args2"
    "st2 = Ist_Dirty (d\<lparr>d_args := Some args2, d_mAddr := m2, d_guard := Some g2\<rparr>)"
    and m: "if d_mFx d = Ifx_None then m2 = d_mAddr d
     else \<exists>m n. d_mAddr d = Some m \<and> isIRAtom m \<and> subst_fold fld env m = Inr n \<and> m2 = Some n"
    by (rule subst_Dirty_cases [OF assms(1)])
  note g = subst_fold_atom [OF d(4,3) assms(2), of S r w] and as = subst_args [OF d(5) assms(2), of S r w]
  let ?m = "\<lambda>d. if d_mFx d \<noteq> Ifx_None then opt_list (d_mAddr d) else []"
  have m2: "map_option (\<lambda>_. hole) m2 = map_option (\<lambda>_. hole) (d_mAddr d)
    \<and> (d_mFx d \<noteq> Ifx_None \<longrightarrow> (\<Union>e\<in>set (opt_list m2). temps_of e) \<subseteq> (\<Union>e\<in>set (opt_list (d_mAddr d)). temps_of e) \<union> defined dc - prop_temps env
       \<and> (env_true S env r \<longrightarrow> map (eval S r w) (opt_list m2) = map (eval S r w) (opt_list (d_mAddr d))))"
  proof (cases "d_mFx d = Ifx_None")
    case False
    with m obtain m n where "d_mAddr d = Some m" "isIRAtom m" "subst_fold fld env m = Inr n" "m2 = Some n" by auto
    with subst_fold_atom [OF this(3,2) assms(2), of S r w] show ?thesis by simp
  qed (use m in simp)
  have shape: "stmt_shape st2 = stmt_shape (Ist_Dirty d)"
    using d(1,2,6) as m2 by (cases d) (simp add: arg_shape_def [abs_def, symmetric])
  have temps: "stmt_temps st2 \<subseteq> stmt_temps (Ist_Dirty d) \<union> defined dc - prop_temps env"
    using d(1,2,6) as g m2 unfolding stmt_temps_def by (auto split: if_splits)
  have defs: "stmt_defs st2 = stmt_defs (Ist_Dirty d)" using d(6) by simp
  have "exec_stmt S (r, w) (Some st2) = exec_stmt S (r, w) (Some (Ist_Dirty d))" if env: "env_true S env r"
  proof -
    have "map (eval S r w) (stmt_args st2) = map (eval S r w) (stmt_args (Ist_Dirty d))"
      using d(1,2,6) as g m2 env by (simp del: map_eq_conv)
    from act_same [OF shape this defs] have "act S st2 (r, w) = act S (Ist_Dirty d) (r, w)" .
    moreover have "guard_holds S (r, w) (d\<lparr>d_args := Some args2, d_mAddr := m2, d_guard := Some g2\<rparr>) = guard_holds S (r, w) d"
      using d(2) g env by (simp add: guard_holds_def)
    ultimately show ?thesis using d(6) by (simp add: exec_stmt_def)
  qed
  with temps defs show ?thesis by blast
qed

lemma subst_opt:
  assumes "subst_fold_opt fld env e = Inr e2" "atomR_opt e = Inr ()" "env_wf dc env"
  shows "map_option (\<lambda>_. hole) e2 = map_option (\<lambda>_. hole) e
    \<and> (\<Union>x\<in>set (opt_list e2). temps_of x) \<subseteq> (\<Union>x\<in>set (opt_list e). temps_of x) \<union> defined dc - prop_temps env
    \<and> (env_true S env r \<longrightarrow> map (eval S r w) (opt_list e2) = map (eval S r w) (opt_list e))"
proof (cases e)
  case (Some a)
  with assms obtain b where "e2 = Some b" "subst_fold fld env a = Inr b" "isIRAtom a"
    by (auto simp: subst_fold_opt_def atomR_opt_def atomR_def res_iff)
  with subst_fold_atom [OF this(2,3) assms(3), of S r w] Some show ?thesis by simp
qed (use assms(1) in \<open>simp add: subst_fold_opt_def\<close>)

lemma subst_CAS_run:
  assumes "subst_CAS fld env c = Inr st2" "env_wf dc env"
  shows "stmt_temps st2 \<subseteq> stmt_temps (Ist_CAS c) \<union> defined dc - prop_temps env \<and> stmt_defs st2 = stmt_defs (Ist_CAS c)
    \<and> (env_true S env r \<longrightarrow> exec_stmt S (r, w) (Some st2) = exec_stmt S (r, w) (Some (Ist_CAS c)))"
proof -
  obtain addr hi lo dhi dlo where c: "isIRAtom (cas_addr c)" "atomR_opt (cas_expdHi c) = Inr ()" "isIRAtom (cas_expdLo c)"
      "atomR_opt (cas_dataHi c) = Inr ()" "isIRAtom (cas_dataLo c)" "subst_fold fld env (cas_addr c) = Inr addr"
      "subst_fold_opt fld env (cas_expdHi c) = Inr hi" "subst_fold fld env (cas_expdLo c) = Inr lo"
      "subst_fold_opt fld env (cas_dataHi c) = Inr dhi" "subst_fold fld env (cas_dataLo c) = Inr dlo"
      "st2 = Ist_CAS (mkIRCAS (cas_oldHi c) (cas_oldLo c) (cas_end c) addr hi lo dhi dlo)"
    using assms(1) by (auto simp: subst_CAS_def Let_def res_iff atomR_def)
  note ss = subst_fold_atom [OF c(6,1) assms(2), of S r w] subst_opt [OF c(7,2) assms(2), of S r w]
    subst_fold_atom [OF c(8,3) assms(2), of S r w] subst_opt [OF c(9,4) assms(2), of S r w]
    subst_fold_atom [OF c(10,5) assms(2), of S r w]
  have shape: "stmt_shape st2 = stmt_shape (Ist_CAS c)" using c(11) ss(2,4) by (cases c) (simp add: mkIRCAS_def)
  have defs: "stmt_defs st2 = stmt_defs (Ist_CAS c)" using c(11) by (simp add: mkIRCAS_def)
  have temps: "stmt_temps st2 \<subseteq> stmt_temps (Ist_CAS c) \<union> defined dc - prop_temps env"
    using ss unfolding c(11) stmt_temps_def mkIRCAS_def by simp blast
  have "env_true S env r \<Longrightarrow> map (eval S r w) (stmt_args st2) = map (eval S r w) (stmt_args (Ist_CAS c))"
    using c(11) ss by (simp add: mkIRCAS_def del: map_eq_conv)
  then have "env_true S env r \<Longrightarrow> exec_stmt S (r, w) (Some st2) = exec_stmt S (r, w) (Some (Ist_CAS c))"
    using act_same [OF shape _ defs] c(11) by (simp add: exec_stmt_def)
  with temps defs show ?thesis by blast
qed

lemma const_guard_true: "const_guard g = Inr (Some x) \<Longrightarrow> sem_documented S \<Longrightarrow> sem_true S (eval S r w g) = x"
  using const_guard_iff [of g] documented_bits [of S r w] by (cases x) auto

lemma subst_StoreG_run:
  assumes "subst_StoreG fld env sg = Inr st2" "env_wf dc env" "sem_documented S" "sem_guarded S"
  shows "stmt_temps st2 \<subseteq> stmt_temps (Ist_StoreG sg) \<union> defined dc - prop_temps env \<and> stmt_defs st2 = []
    \<and> (env_true S env r \<longrightarrow> exec_stmt S (r, w) (Some st2) = exec_stmt S (r, w) (Some (Ist_StoreG sg)))"
proof -
  obtain a d g k where c: "isIRAtom (sg_addr sg)" "isIRAtom (sg_data sg)" "isIRAtom (sg_guard sg)"
      "subst_fold fld env (sg_addr sg) = Inr a" "subst_fold fld env (sg_data sg) = Inr d" "subst_fold fld env (sg_guard sg) = Inr g"
      "const_guard g = Inr k" "(case k of None \<Rightarrow> Inr (Ist_StoreG (mkIRStoreG (sg_end sg) a d g)) | Some False \<Rightarrow> Inr Ist_NoOp
         | Some True \<Rightarrow> Inr (Ist_Store (sg_end sg) a d)) = (Inr st2 :: IRStmt res)"
    using assms(1) unfolding subst_StoreG_def Let_def bindR_eq_Inr forR_eq_Inr atomR_def assertR_eq_Inr by auto
  then have st2: "st2 = (case k of None \<Rightarrow> Ist_StoreG (mkIRStoreG (sg_end sg) a d g) | Some False \<Rightarrow> Ist_NoOp
         | Some True \<Rightarrow> Ist_Store (sg_end sg) a d)"
    by (simp split: option.splits bool.splits)
  note ss = subst_fold_atom [OF c(4,1) assms(2), of S r w] subst_fold_atom [OF c(5,2) assms(2), of S r w]
    subst_fold_atom [OF c(6,3) assms(2), of S r w]
  have temps: "stmt_temps st2 \<subseteq> stmt_temps (Ist_StoreG sg) \<union> defined dc - prop_temps env" "stmt_defs st2 = []"
    using ss unfolding st2 stmt_temps_def mkIRStoreG_def by (auto split: option.split bool.split)
  have "exec_stmt S (r, w) (Some st2) = exec_stmt S (r, w) (Some (Ist_StoreG sg))" if env: "env_true S env r"
  proof -
    have acts: "act S (Ist_Store (sg_end sg) a d) (r, w) = act S (Ist_Store (sg_end sg) (sg_addr sg) (sg_data sg)) (r, w)"
      using ss env by (intro act_same) auto
    have "sem_true S (eval S r w (sg_guard sg)) = x" if "k = Some x" for x
      using const_guard_true [of g x S r w] c(7) that ss(3) env assms(3) by simp
    then show ?thesis
      using acts st2 ss env by (auto simp: exec_stmt_def StoreG_act [OF assms(4)] mkIRStoreG_def split: option.split bool.split)
  qed
  with temps show ?thesis by blast
qed

lemma subst_LoadG_run:
  assumes "subst_LoadG fld env lg = Inr st2" "env_wf dc env" "sem_documented S" "sem_guarded S" "typeOfIRLoadGOp (lg_cvt lg) = Inr p"
  shows "stmt_temps st2 \<subseteq> stmt_temps (Ist_LoadG lg) \<union> defined dc - prop_temps env \<and> stmt_defs st2 = [lg_dst lg]
    \<and> (env_true S env r \<longrightarrow> exec_stmt S (r, w) (Some st2) = exec_stmt S (r, w) (Some (Ist_LoadG lg)))"
proof -
  obtain a b g k where c: "isIRAtom (lg_addr lg)" "isIRAtom (lg_alt lg)" "isIRAtom (lg_guard lg)"
      "subst_fold fld env (lg_addr lg) = Inr a" "subst_fold fld env (lg_alt lg) = Inr b" "subst_fold fld env (lg_guard lg) = Inr g"
      "const_guard g = Inr k" "st2 = (if k = Some False then Ist_WrTmp (lg_dst lg) b
         else Ist_LoadG (mkIRLoadG (lg_end lg) (lg_cvt lg) (lg_dst lg) a b g))"
    using assms(1) by (auto simp: subst_LoadG_def Let_def res_iff atomR_def split: if_splits)
  note ss = subst_fold_atom [OF c(4,1) assms(2), of S r w] subst_fold_atom [OF c(5,2) assms(2), of S r w]
    subst_fold_atom [OF c(6,3) assms(2), of S r w]
  have temps: "stmt_temps st2 \<subseteq> stmt_temps (Ist_LoadG lg) \<union> defined dc - prop_temps env" "stmt_defs st2 = [lg_dst lg]"
    using ss unfolding c(8) stmt_temps_def mkIRLoadG_def by auto
  obtain res arg cvtOp where cvt: "typeOfIRLoadGOp (lg_cvt lg) = Inr (res, arg)" "cvt_op (lg_cvt lg) = Inr cvtOp"
    using assms(5) loadg_ops [OF assms(5)] by (cases p) auto
  have "exec_stmt S (r, w) (Some st2) = exec_stmt S (r, w) (Some (Ist_LoadG lg))" if env: "env_true S env r"
  proof (cases "k = Some False")
    case True
    then have "\<not> sem_true S (eval S r w (lg_guard lg))"
      using const_guard_true [of g False S r w] c(7) ss env assms(3) by auto
    with True c(8) ss env show ?thesis by (simp add: exec_stmt_def LoadG_act [OF assms(4) cvt])
  next
    case False
    then show ?thesis
      using c(8) ss env LoadG_act [OF assms(4), of "mkIRLoadG (lg_end lg) (lg_cvt lg) (lg_dst lg) a b g" res arg cvtOp] cvt
      by (simp add: exec_stmt_def LoadG_act [OF assms(4) cvt] mkIRLoadG_def)
  qed
  with temps show ?thesis by blast
qed

lemma subst_Exit_run:
  assumes "subst_and_maybe_fold_Stmt fld env (Ist_Exit g jk dst off) = Inr st2" "env_wf dc env" "sem_documented S"
  shows "stmt_temps st2 \<subseteq> stmt_temps (Ist_Exit g jk dst off) \<union> defined dc - prop_temps env \<and> stmt_defs st2 = []
    \<and> (env_true S env r \<longrightarrow> exec_stmt S (r, w) (Some st2) = exec_stmt S (r, w) (Some (Ist_Exit g jk dst off)))"
proof -
  obtain g2 k where c: "isIRAtom g" "subst_fold fld env g = Inr g2" "const_guard g2 = Inr k"
      "st2 = (if k = Some False then Ist_NoOp else Ist_Exit g2 jk dst off)"
    using assms(1) by (auto simp: res_iff atomR_def split: if_splits)
  note ss = subst_fold_atom [OF c(2,1) assms(2), of S r w]
  have "k = Some False \<Longrightarrow> env_true S env r \<Longrightarrow> \<not> sem_true S (eval S r w g)"
    using const_guard_true [of g2 False S r w] c(3) ss assms(3) by auto
  with c(4) ss show ?thesis by (auto simp: exec_stmt_def stmt_temps_def)
qed

lemma subst_Stmt_run:
  assumes "subst_and_maybe_fold_Stmt fld env st = Inr st2" "env_wf dc env" "sem_documented S" "sem_guarded S" "tcStmt E gw st = Inr ()"
  shows "stmt_temps st2 \<subseteq> stmt_temps st \<union> defined dc - prop_temps env \<and> stmt_defs st2 = stmt_defs st
    \<and> (env_true S env r \<longrightarrow> (\<forall>t e. st = Ist_WrTmp t e \<longrightarrow> arg_typed S r w e) \<longrightarrow> exec_stmt S (r, w) (Some st2) = exec_stmt S (r, w) (Some st))"
proof -
  have atom: "isIRAtom a \<Longrightarrow> subst_fold fld env a = Inr b \<Longrightarrow> isIRAtom b \<and> temps_of b \<subseteq> temps_of a \<union> defined dc - prop_temps env
      \<and> (env_true S env r \<longrightarrow> eval S r w b = eval S r w a)" for a b
    by (rule subst_fold_atom [OF _ _ assms(2)])
  show ?thesis
  proof (cases st)
    case (Ist_WrTmp t e)
    then obtain e2 where e2: "subst_fold fld env e = Inr e2" "st2 = Ist_WrTmp t e2" using assms(1) by (auto simp: res_iff)
    with subst_fold_sound [OF e2(1) assms(2,3), of r w] Ist_WrTmp show ?thesis
      by (auto simp: exec_stmt_def stmt_temps_def)
  next
    case (Ist_LLSC en t addr sd)
    then obtain a2 sd2 where c: "isIRAtom addr" "atomR_opt sd = Inr ()" "subst_fold fld env addr = Inr a2" "subst_fold_opt fld env sd = Inr sd2"
        "st2 = Ist_LLSC en t a2 sd2"
      using assms(1) by (auto simp: res_iff atomR_def)
    note ss = atom [OF c(1,3)] subst_opt [OF c(4,2) assms(2), of S r w]
    from ss have "env_true S env r \<Longrightarrow> act S st2 (r, w) = act S st (r, w)"
      unfolding c(5) Ist_LLSC by (intro act_same) (simp_all del: map_eq_conv)
    with ss c(5) Ist_LLSC show ?thesis by (auto simp: exec_stmt_def stmt_temps_def)
  next
    case (Ist_LoadG lg)
    with assms(5) obtain p where "typeOfIRLoadGOp (lg_cvt lg) = Inr p" by (auto simp: res_iff)
    with subst_LoadG_run [OF _ assms(2-4) this, of fld st2 r w] assms(1) Ist_LoadG show ?thesis by simp
  next
    case (Ist_StoreG sg)
    with subst_StoreG_run [OF _ assms(2-4), of fld sg st2 r w] assms(1) show ?thesis by simp
  next
    case (Ist_Exit g jk dst off)
    with subst_Exit_run [OF _ assms(2,3), of fld g jk dst off st2 r w] assms(1) show ?thesis by simp
  next
    case (Ist_CAS c)
    with subst_CAS_run [OF _ assms(2), of fld c st2 S r w] assms(1) show ?thesis by simp
  next
    case (Ist_Dirty d)
    with subst_Dirty_run [OF _ assms(2), of fld d st2 S r w] assms(1) show ?thesis by simp
  next
    case (Ist_AbiHint base len nia)
    then obtain b2 n2 where c: "isIRAtom base" "isIRAtom nia" "subst_fold fld env base = Inr b2" "subst_fold fld env nia = Inr n2"
        "st2 = Ist_AbiHint b2 len n2"
      using assms(1) by (auto simp: res_iff atomR_def)
    with atom [OF c(1,3)] atom [OF c(2,4)] Ist_AbiHint show ?thesis
      by (auto simp: exec_stmt_def stmt_temps_def intro!: act_same)
  next
    case (Ist_PutI p)
    then obtain i2 d2 where c: "isIRAtom (puti_ix p)" "isIRAtom (puti_data p)" "subst_fold fld env (puti_ix p) = Inr i2"
        "subst_fold fld env (puti_data p) = Inr d2" "st2 = Ist_PutI (mkIRPutI (puti_descr p) i2 (puti_bias p) d2)"
      using assms(1) by (auto simp: res_iff atomR_def)
    with atom [OF c(1,3)] atom [OF c(2,4)] Ist_PutI show ?thesis
      by (cases p) (auto simp: exec_stmt_def stmt_temps_def mkIRPutI_def intro!: act_same)
  next
    case (Ist_Put off dat)
    then obtain d2 where c: "isIRAtom dat" "subst_fold fld env dat = Inr d2" "st2 = Ist_Put off d2"
      using assms(1) by (auto simp: res_iff atomR_def)
    with atom [OF c(1,2)] Ist_Put show ?thesis
      by (auto simp: exec_stmt_def stmt_temps_def intro!: act_same)
  next
    case (Ist_Store en addr dat)
    then obtain a2 d2 where c: "isIRAtom addr" "isIRAtom dat" "subst_fold fld env addr = Inr a2" "subst_fold fld env dat = Inr d2"
        "st2 = Ist_Store en a2 d2"
      using assms(1) by (auto simp: res_iff atomR_def)
    with atom [OF c(1,3)] atom [OF c(2,4)] Ist_Store show ?thesis
      by (auto simp: exec_stmt_def stmt_temps_def intro!: act_same)
  qed (use assms(1) in \<open>auto simp: stmt_temps_def\<close>)
qed

section \<open>A meaning as documented\<close>

text \<open>The world is the log of the statements that acted, with their arguments; registers and memory
  hold zeroes.\<close>

fun zero_val :: "IRType \<Rightarrow> ir_val" where
  "zero_val Ity_I1 = V1 False"
| "zero_val Ity_I8 = V8 0"
| "zero_val Ity_I16 = V16 0"
| "zero_val Ity_I32 = V32 0"
| "zero_val Ity_I64 = V64 0"
| "zero_val Ity_V128 = V128 0"
| "zero_val Ity_V256 = V256 0"
| "zero_val ty = Vother ty 0"

type_synonym act_log = "(IRStmt \<times> ir_val list) list"

definition log_op :: "IROp \<Rightarrow> ir_val list \<Rightarrow> ir_val" where
  "log_op op vs =
     (case op_val op vs of
        Some v \<Rightarrow> v
      | None \<Rightarrow> (case typeOfPrimop op of Inr s \<Rightarrow> zero_val (t_dst s) | Inl _ \<Rightarrow> V1 False))"

definition log_LoadG :: "IRLoadG \<Rightarrow> ir_val list \<Rightarrow> ir_val" where
  "log_LoadG lg vs =
     (case (vs, typeOfIRLoadGOp (lg_cvt lg), cvt_op (lg_cvt lg)) of
        ([a, b, g], Inr (_, arg), Inr cvtOp) \<Rightarrow>
          if g = V1 True then (case cvtOp of None \<Rightarrow> zero_val arg | Some op \<Rightarrow> log_op op [zero_val arg]) else b
      | _ \<Rightarrow> V1 False)"

definition log_act :: "IRStmt \<Rightarrow> ir_val list \<Rightarrow> act_log \<Rightarrow> act_log \<times> ir_val temps" where
  "log_act st vs w =
     (case st of
        Ist_StoreG sg \<Rightarrow>
          (case vs of
             [a, d, g] \<Rightarrow> (if g = V1 True then w @ [(Ist_Store (sg_end sg) hole hole, [a, d])] else w, \<lambda>_. V1 False)
           | _ \<Rightarrow> (w, \<lambda>_. V1 False))
      | Ist_LoadG lg \<Rightarrow> (w, \<lambda>_. log_LoadG lg vs)
      | _ \<Rightarrow> (w @ [(st, vs)], \<lambda>_. V1 False))"

definition log_sem :: "(ir_val, act_log) ir_sem" where
  "log_sem = \<lparr>sem_const = const_val, sem_op = log_op, sem_get = (\<lambda>w off ty. zero_val ty),
     sem_geti = (\<lambda>w descr v bias. zero_val (ra_elemTy descr)), sem_load = (\<lambda>w en ty v. zero_val ty),
     sem_ccall = (\<lambda>cee ty vs. zero_val ty), sem_special = (\<lambda>e. V1 False), sem_true = (\<lambda>v. v = V1 True),
     sem_filler = (\<lambda>t. V1 False), sem_act = log_act\<rparr>"

lemma log_sem_documented: "sem_documented log_sem"
  by (auto simp: sem_documented_def log_sem_def log_op_def)

lemma log_sem_guarded: "sem_guarded log_sem"
  by (auto simp: sem_guarded_def log_sem_def log_act_def log_LoadG_def cvt_val_def split: option.splits)

lemma subst_Stmt_static:
  assumes "subst_and_maybe_fold_Stmt fld env st = Inr st2" "env_wf dc env" "tcStmt E gw st = Inr ()"
  shows "stmt_temps st2 \<subseteq> stmt_temps st \<union> defined dc - prop_temps env" "stmt_defs st2 = stmt_defs st"
  using subst_Stmt_run [OF assms(1,2) log_sem_documented log_sem_guarded assms(3), of undefined undefined] by blast+

end
