(* ===== verification/Opt_Cprop_Run.thy ===== *)
theory Opt_Cprop_Run
  imports Opt_Cprop_Stmt
begin

text \<open>
  Constant propagation keeps the outcome of a block: \<open>cprop_WRK_outcome\<close>.

  The proof is a simulation. In step with the loop, \<open>sim_state\<close> relates the temporaries of the
  original run, where every binding is true and every defined temporary has a value of its type, with those of the new run,
  which agree outside the temporaries that are substituted away. The placeholders for
  unconditional guarded loads are treated afterwards, one fixup at a time.
\<close>

section \<open>Definitions before uses\<close>

lemma useBeforeDef_defined: "useBeforeDef_Expr E dc e = Inr () \<Longrightarrow> length dc = types_used E \<Longrightarrow> temps_of e \<subseteq> defined dc"
proof (induction E dc e rule: useBeforeDef_Expr.induct)
  case (10 E dc cee ty args)
  have "temps_of a \<subseteq> defined dc" if "a \<in> set args" for a
    using 10(1) [OF that] 10(2,3) that by (auto simp: res_iff split: if_splits dest: bspec)
  then show ?case by auto
qed (auto simp: res_iff useBeforeDef_Temp_def defined_def)

lemma useBeforeDef_opt_defined:
  "useBeforeDef_opt E dc e = Inr () \<Longrightarrow> length dc = types_used E \<Longrightarrow> (\<Union>x\<in>set (opt_list e). temps_of x) \<subseteq> defined dc"
  using useBeforeDef_defined by (cases e) (auto simp: useBeforeDef_opt_def)

lemma useBeforeDef_stmt_defined:
  assumes "useBeforeDef_Stmt E dc st = Inr ()" "length dc = types_used E" "\<And>d. st \<noteq> Ist_Dirty d"
  shows "stmt_temps st \<subseteq> defined dc"
proof -
  note d = useBeforeDef_defined [OF _ assms(2)] useBeforeDef_opt_defined [OF _ assms(2)]
  show ?thesis
  proof (cases st)
    case (Ist_Dirty d)
    with assms(3) show ?thesis by blast
  qed (use assms(1) in \<open>simp_all add: stmt_temps_def res_iff d\<close>)
qed

lemma assignedOnce_defined:
  assumes "assignedOnce_Temp t dc n a b = Inr dc1" "length dc = n"
  shows "t < n" "t \<notin> defined dc" "defined dc1 = insert t (defined dc)" "length dc1 = n"
  using assms by (auto simp: assignedOnce_Temp_def Let_def res_iff defined_def nth_list_update)

lemma assignedOnce_stmt_defined:
  assumes "assignedOnce_Stmt st dc n = Inr dc1" "length dc = n"
  shows "set (stmt_defs st) \<subseteq> {..<n} \<and> set (stmt_defs st) \<inter> defined dc = {} \<and> defined dc1 = set (stmt_defs st) \<union> defined dc \<and> length dc1 = n"
proof (cases st)
  case (Ist_CAS c)
  show ?thesis
  proof (cases "cas_oldHi c = IRTemp_INVALID")
    case True
    with assms Ist_CAS assignedOnce_defined [OF _ assms(2)] show ?thesis by auto
  next
    case False
    with assms(1) Ist_CAS obtain dcm where m: "assignedOnce_Temp (cas_oldHi c) dc n
          ''IRStmt.CAS: destination tmpHi is out of range'' ''IRStmt.CAS: destination tmpHi is assigned more than once'' = Inr dcm"
        "assignedOnce_Temp (cas_oldLo c) dcm n
          ''IRStmt.CAS: destination tmpLo is out of range'' ''IRStmt.CAS: destination tmpLo is assigned more than once'' = Inr dc1"
      by (auto simp: res_iff)
    from assignedOnce_defined [OF m(1) assms(2)] assignedOnce_defined [OF m(2)] False Ist_CAS show ?thesis by auto
  qed
qed (use assms assignedOnce_defined [OF _ assms(2)] in \<open>auto split: if_splits\<close>)

section \<open>The simulation\<close>

definition sim_state :: "(ir_val, 'w) ir_sem \<Rightarrow> IRTypeEnv \<Rightarrow> nat list \<Rightarrow> bindings \<Rightarrow> ir_val temps \<Rightarrow> ir_val temps \<Rightarrow> bool" where
  "sim_state S E dc env r r' \<longleftrightarrow> env_true S env r \<and> typed_state E (defined dc) r \<and> agree (- prop_temps env) r r'"

definition sim :: "(ir_val, 'w) ir_sem \<Rightarrow> IRTypeEnv \<Rightarrow> nat list \<Rightarrow> bindings \<Rightarrow> (ir_val, 'w) running \<Rightarrow> (ir_val, 'w) running \<Rightarrow> bool" where
  "sim S E dc env = rel_sum (=) (rel_prod (sim_state S E dc env) (=))"

text \<open>The results of statements that are not assignments have the types of their temporaries.\<close>

definition acts_typed :: "IRTypeEnv \<Rightarrow> (ir_val, 'w) ir_sem \<Rightarrow> IRStmt option list \<Rightarrow> bool" where
  "acts_typed E S xs \<longleftrightarrow> (\<forall>st t. Some st \<in> set xs \<longrightarrow> (\<forall>u e. st \<noteq> Ist_WrTmp u e) \<longrightarrow> t \<in> set (stmt_defs st) \<longrightarrow>
     (\<forall>d. st = Ist_Dirty d \<longrightarrow> has_type (types E ! t) (sem_filler S t)) \<and> (\<forall>vs w. has_type (types E ! t) (snd (sem_act S (stmt_shape st) vs w) t)))"

lemma act_fst: "fst (act S st s) t = (if t \<in> set (stmt_defs st) then snd (sem_act S (stmt_shape st) (map (eval S (fst s) (snd s)) (stmt_args st)) (snd s)) t else fst s t)"
  by (cases s) (simp add: act_pair assign_def)

lemma exec_stmt_defs:
  assumes "exec_stmt S (r, w) (Some st) = Inr (r1, w1)" "t \<notin> set (stmt_defs st)"
  shows "r1 t = r t"
  using assms act_fst [of S st "(r, w)" t]
  by (cases st) (auto simp: exec_stmt_def assign_def split: if_splits)

lemma exec_stmt_typed:
  assumes "exec_stmt S (r, w) (Some st) = Inr (r1, w1)" "acts_typed E S [Some st]" "isFlatIRStmt st = Inr True" "tcStmt E gw st = Inr ()"
    and "useBeforeDef_Stmt E dc st = Inr ()" "length dc = types_used E" "typed_state E (defined dc) r" "sem_documented S" "sem_typed S"
    and "t \<in> set (stmt_defs st)" "t < types_used E"
  shows "has_type (types E ! t) (r1 t)"
proof (cases "\<exists>u e. st = Ist_WrTmp u e")
  case True
  then obtain e where e: "st = Ist_WrTmp t e" using assms(10) by auto
  moreover have "temps_of e \<subseteq> defined dc" using useBeforeDef_defined [OF _ assms(6)] assms(5) e by simp
  ultimately have "has_type (types E ! t) (eval S r w e)"
    using assms(3,4) by (intro eval_typed [OF _ _ _ _ assms(7-9)]) (auto simp: res_iff typeOfIRTemp_def)
  with e assms(1) show ?thesis by (auto simp: exec_stmt_def)
next
  case False
  then have ty: "\<And>d. st = Ist_Dirty d \<Longrightarrow> has_type (types E ! t) (sem_filler S t)"
      "has_type (types E ! t) (snd (sem_act S (stmt_shape st) vs w) t)" for vs w
    using assms(2,10) by (auto simp: acts_typed_def)
  with assms(1,10) False act_fst [of S st "(r, w)" t] show ?thesis
    by (cases st) (auto simp: exec_stmt_def assign_def split: if_splits)
qed

lemma eval_new:
  assumes "temps_of e \<subseteq> D" "\<And>t. t \<in> D \<Longrightarrow> r1 t = r t"
  shows "eval S r1 w e = eval S r w e"
  using assms by (intro eval_agree) (auto simp: agree_def)

lemma arg_typed_new:
  assumes "temps_of e \<subseteq> D" "\<And>t. t \<in> D \<Longrightarrow> r1 t = r t"
  shows "arg_typed S r1 w e = arg_typed S r w e"
proof -
  have "eval S r1 w a = eval S r w a" if "temps_of a \<subseteq> temps_of e" for a
    using that assms by (intro eval_new [of a D]) auto
  then show ?thesis by (cases e) (auto simp: arg_typed_def split: IROp.splits)
qed

text \<open>New temporaries leave the bindings true.\<close>

lemma env_true_new:
  assumes "env_true S env r" "env_wf dc env" "\<And>t. t \<in> defined dc \<Longrightarrow> r1 t = r t"
  shows "env_true S env r1"
  unfolding env_true_def
proof (intro allI impI)
  fix t e assume t: "t < length env" "env ! t = Some e"
  then have d: "t \<in> defined dc" "temps_of e \<subseteq> defined dc" "isFlatRHS e = Inr True"
    using assms(2) unfolding env_wf_def by blast+
  have "timeless e \<Longrightarrow> r1 t = eval S r1 w e \<and> arg_typed S r1 w e" for w
    using t assms(1) eval_new [of e "defined dc" r1 r S w, OF d(2) assms(3)] arg_typed_new [of e "defined dc" r1 r S w, OF d(2) assms(3)]
      assms(3) [OF d(1)]
    by (simp add: env_true_def)
  with d(3) show "isFlatRHS e = Inr True \<and> (timeless e \<longrightarrow> (\<forall>w. r1 t = eval S r1 w e \<and> arg_typed S r1 w e))" by blast
qed

text \<open>A new binding.\<close>

lemma prop_temps_bind:
  assumes "t < length env" "env ! t = None"
  shows "prop_temps (env[t := Some e]) = (if propagated e then insert t (prop_temps env) else prop_temps env)"
  using assms by (auto simp: prop_temps_def nth_list_update)

lemma env_wf_bind:
  assumes "env_wf dc env" "env ! t = None" "t < length dc" "t \<notin> defined dc" "defined dc1 = insert t (defined dc)" "length dc1 = length dc"
    and "temps_of e \<subseteq> defined dc - prop_temps env" "isFlatRHS e = Inr True"
  shows "env_wf dc1 (env[t := Some e])"
  unfolding env_wf_def
proof (intro conjI allI impI)
  have len: "length env = length dc" using assms(1) by (simp add: env_wf_def)
  then show "length (env[t := Some e]) = length dc1" using assms(6) by simp
  have P: "prop_temps (env[t := Some e]) \<subseteq> insert t (prop_temps env)"
    using prop_temps_bind [OF _ assms(2), of e] assms(3) len by auto
  fix u d assume u: "u < length (env[t := Some e])" "(env[t := Some e]) ! u = Some d"
  have "u \<in> insert t (defined dc) \<and> temps_of d \<subseteq> defined dc - prop_temps env \<and> isFlatRHS d = Inr True"
  proof (cases "u = t")
    case True
    with u assms(7,8) show ?thesis by simp
  next
    case False
    with u have "u < length env" "env ! u = Some d" by simp_all
    with assms(1) show ?thesis unfolding env_wf_def by blast
  qed
  with P assms(4,5) show "u \<in> defined dc1" "temps_of d \<subseteq> defined dc1 - prop_temps (env[t := Some e])" "isFlatRHS d = Inr True"
    by auto
qed

lemma env_wf_defs:
  assumes "env_wf dc env" "defined dc \<subseteq> defined dc1" "length dc1 = length dc"
  shows "env_wf dc1 env"
  using assms unfolding env_wf_def by (metis Diff_mono order.refl order.trans subsetD)

lemma env_true_bind:
  assumes "env_true S env r1" "env ! t = None" "isFlatRHS e = Inr True" "\<And>w. timeless e \<Longrightarrow> r1 t = eval S r1 w e \<and> arg_typed S r1 w e"
  shows "env_true S (env[t := Some e]) r1"
  unfolding env_true_def
proof (intro allI impI)
  fix u d assume "u < length (env[t := Some e])" "(env[t := Some e]) ! u = Some d"
  then have "u = t \<and> d = e \<or> u < length env \<and> env ! u = Some d" by (cases "u = t") auto
  with assms show "isFlatRHS d = Inr True \<and> (timeless d \<longrightarrow> (\<forall>w. r1 u = eval S r1 w d \<and> arg_typed S r1 w d))"
    unfolding env_true_def by blast
qed

section \<open>One step\<close>

text \<open>A sane statement of the original block, for a meaning that is as documented.\<close>

definition sane_step :: "IRTypeEnv \<Rightarrow> IRType \<Rightarrow> nat list \<Rightarrow> IRStmt \<Rightarrow> nat list \<Rightarrow> bool" where
  "sane_step E gw dc st dc1 \<longleftrightarrow> stmt_ok E gw (Some st) \<and> useBeforeDef_Stmt E dc st = Inr () \<and> assignedOnce_Stmt st dc (types_used E) = Inr dc1
     \<and> length dc = types_used E"

definition sem_ok :: "(ir_val, 'w) ir_sem \<Rightarrow> bool" where
  "sem_ok S \<longleftrightarrow> sem_documented S \<and> sem_typed S \<and> sem_guarded S"

lemma sane_step_facts:
  assumes "sane_step E gw dc st dc1"
  shows "isFlatIRStmt st = Inr True" "tcStmt E gw st = Inr ()" "length dc1 = length dc" "defined dc1 = set (stmt_defs st) \<union> defined dc"
    "set (stmt_defs st) \<inter> defined dc = {}" "set (stmt_defs st) \<subseteq> {..<types_used E}" "(\<exists>d. st = Ist_Dirty d) \<or> stmt_temps st \<subseteq> defined dc"
    "stmt_temps st \<subseteq> {..<types_used E}"
proof -
  note a = assms [unfolded sane_step_def stmt_ok_def]
  show "isFlatIRStmt st = Inr True" "tcStmt E gw st = Inr ()" using a by auto
  show "length dc1 = length dc" "defined dc1 = set (stmt_defs st) \<union> defined dc"
    "set (stmt_defs st) \<inter> defined dc = {}" "set (stmt_defs st) \<subseteq> {..<types_used E}"
    using a assignedOnce_stmt_defined [of st dc "types_used E" dc1] by auto
  show "(\<exists>d. st = Ist_Dirty d) \<or> stmt_temps st \<subseteq> defined dc"
    using a useBeforeDef_stmt_defined [of E dc st] by auto
  obtain us where "addUses_Stmt (replicate (types_used E) False) st = Inr us" "length us = types_used E"
    using assms addUses_Stmt_total [of E dc st gw "replicate (types_used E) False"] by (auto simp: sane_step_def)
  then show "stmt_temps st \<subseteq> {..<types_used E}" using addUses_Stmt_marked by (fastforce simp: marked_def)
qed

lemma step_typed:
  assumes "sane_step E gw dc st dc1" "sem_ok S" "acts_typed E S [Some st]" "typed_state E (defined dc) r"
    and "exec_stmt S (r, w) (Some st) = Inr (r1, w1)"
  shows "typed_state E (defined dc1) r1" "\<And>t. t \<in> defined dc \<Longrightarrow> r1 t = r t"
proof -
  note f = sane_step_facts [OF assms(1)] and a = assms(1) [unfolded sane_step_def]
  show same: "r1 t = r t" if "t \<in> defined dc" for t
    using exec_stmt_defs [OF assms(5)] f(5) that by blast
  have "has_type (types E ! t) (r1 t)" if "t \<in> set (stmt_defs st)" for t
    using exec_stmt_typed [OF assms(5,3) f(1,2) _ _ assms(4)] that f(6) a assms(2) by (auto simp: sem_ok_def)
  with same assms(4) f(4) show "typed_state E (defined dc1) r1" by (auto simp: typed_state_def)
qed

lemma sim_add:
  assumes "sane_step E gw dc st dc1" "sem_ok S" "acts_typed E S [Some st]" "env_wf dc env" "sim_state S E dc env r r'"
    and "exec_stmt S (r, w) (Some st2) = exec_stmt S (r, w) (Some st)" "stmt_temps st2 \<inter> prop_temps env = {}"
  shows "sim S E dc1 env (exec_stmt S (r, w) (Some st)) (exec_stmt S (r', w) (Some st2))"
proof -
  note a = assms(5) [unfolded sim_state_def]
  have run: "same_run (- prop_temps env) (exec_stmt S (r, w) (Some st)) (exec_stmt S (r', w) (Some st2))"
    using exec_stmt_agree [of "- prop_temps env" r r' st2 S w] a assms(6,7) by auto
  show ?thesis
  proof (cases "exec_stmt S (r, w) (Some st)")
    case (Inl x)
    with run show ?thesis by (cases "exec_stmt S (r', w) (Some st2)") (auto simp: sim_def)
  next
    case (Inr p)
    obtain r1 w1 where p: "p = (r1, w1)" by (cases p)
    note ty = step_typed [OF assms(1-3) _ Inr [unfolded p]]
    from run Inr p obtain r2 where r2: "exec_stmt S (r', w) (Some st2) = Inr (r2, w1)" "agree (- prop_temps env) r1 r2"
      by (cases "exec_stmt S (r', w) (Some st2)") auto
    have "env_true S env r1" using env_true_new [OF _ assms(4), of S r r1] ty a by blast
    with r2 Inr p ty a show ?thesis by (auto simp: sim_def sim_state_def)
  qed
qed

lemma subst_WrTmp:
  assumes "subst_and_maybe_fold_Stmt fld env st = Inr (Ist_WrTmp t dat)" "env_wf dc env" "sem_documented S"
  shows "(\<forall>d. st \<noteq> Ist_Dirty d) \<and> isFlatRHS dat = Inr True
    \<and> (env_true S env r \<longrightarrow> (\<forall>u e. st = Ist_WrTmp u e \<longrightarrow> arg_typed S r w e) \<longrightarrow> arg_typed S r w dat)"
proof (cases st)
  case (Ist_WrTmp u e)
  with assms(1) have "subst_fold fld env e = Inr dat" by (auto simp: res_iff)
  with subst_fold_sound [OF this assms(2,3), of r w] Ist_WrTmp show ?thesis by auto
next
  case (Ist_LoadG lg)
  with assms(1) have "subst_fold fld env (lg_alt lg) = Inr dat" "isIRAtom (lg_alt lg)"
    by (auto simp: subst_LoadG_def Let_def res_iff atomR_def split: if_splits)
  with subst_fold_atom [OF this assms(2), of S r w] Ist_LoadG show ?thesis by (auto simp: atom_flat atom_arg_typed)
next
  case (Ist_StoreG sg)
  with assms(1) show ?thesis by (auto simp: subst_StoreG_def Let_def res_iff split: option.splits bool.splits)
next
  case (Ist_CAS c)
  with assms(1) show ?thesis by (auto simp: subst_CAS_def Let_def res_iff)
next
  case (Ist_Dirty d)
  with assms(1) show ?thesis by (auto elim!: subst_Dirty_cases)
qed (use assms(1) in \<open>auto simp: res_iff split: if_splits\<close>)

lemma addStmt_stmts:
  "addStmtToIRSB bb x = Inr bb2 \<Longrightarrow> stmts bb2 = stmts bb @ [x] \<and> tyenv bb2 = tyenv bb"
  by (auto simp: addStmtToIRSB_def Let_def res_iff)

lemma sim_bind:
  assumes "sane_step E gw dc st dc1" "sem_ok S" "acts_typed E S [Some st]" "env_wf dc env" "sim_state S E dc env r r'"
    and "subst_and_maybe_fold_Stmt fld env st = Inr (Ist_WrTmp t dat)" "t < length env" "env ! t = None"
    and "exec_stmt S (r, w) (Some (Ist_WrTmp t dat)) = exec_stmt S (r, w) (Some st)" "stmt_defs st = [t]"
    and "temps_of dat \<subseteq> defined dc - prop_temps env"
  shows "sim S E dc1 (env[t := Some dat]) (exec_stmt S (r, w) (Some st))
    (exec S (r', w) (if propagated dat then [] else [Some (Ist_WrTmp t dat)]))"
proof -
  note a = assms(5) [unfolded sim_state_def] and f = sane_step_facts [OF assms(1)]
  let ?v = "eval S r w dat" and ?env = "env[t := Some dat]"
  have st: "exec_stmt S (r, w) (Some st) = Inr (r(t := ?v), w)" using assms(9) by (simp add: exec_stmt_def)
  note ty = step_typed [OF assms(1-3) _ st]
  have doc: "sem_documented S" using assms(2) by (simp add: sem_ok_def)
  have arg: "arg_typed S r w' dat" "isFlatRHS dat = Inr True" for w'
  proof -
    have "arg_typed S r w' e" if "st = Ist_WrTmp u e" for u e
    proof (rule tc_arg_typed [OF _ _ _ _ doc])
      show "temps_of e \<subseteq> defined dc" using f(7) that by (auto simp: stmt_temps_def)
      show "isFlatRHS e = Inr True" "tcExpr E gw e = Inr ()" using f(1,2) that by (auto simp: res_iff)
    qed (use a in simp)
    with subst_WrTmp [OF assms(6,4) doc, of r w'] a show "arg_typed S r w' dat" "isFlatRHS dat = Inr True" by blast+
  qed
  have new: "u \<in> defined dc \<Longrightarrow> (r(t := ?v)) u = r u" for u using ty(2) a by blast
  have dat: "temps_of dat \<subseteq> defined dc" using assms(11) by blast
  have "env_true S ?env (r(t := ?v))"
  proof (rule env_true_bind)
    show "env_true S env (r(t := ?v))" using env_true_new [of S env r dc "r(t := ?v)", OF _ assms(4) new] a by blast
    show "(r(t := ?v)) t = eval S (r(t := ?v)) w' dat \<and> arg_typed S (r(t := ?v)) w' dat" if "timeless dat" for w'
      using eval_new [of dat "defined dc" "r(t := ?v)" r S w', OF dat new] arg(1) timeless_eval [OF that, of S r w w']
        arg_typed_new [of dat "defined dc" "r(t := ?v)" r S w', OF dat new] by simp
  qed (use assms(8) arg in auto)
  moreover have "agree (- prop_temps env) r r' \<Longrightarrow> eval S r' w dat = ?v"
    using assms(11) by (intro eval_agree) (auto simp: agree_def)
  ultimately show ?thesis
    using st ty a prop_temps_bind [OF assms(7,8), of dat]
    by (auto simp: sim_def sim_state_def exec_stmt_def agree_def)
qed

definition stmt_in :: "nat \<Rightarrow> IRStmt option \<Rightarrow> bool" where
  "stmt_in n y \<longleftrightarrow> (\<exists>st. y = Some st \<and> stmt_temps st \<union> set (stmt_defs st) \<subseteq> {..<n})"

lemma NoOp_temps [simp]: "stmt_temps Ist_NoOp = {}"
  by (simp add: stmt_temps_def)

lemma stmt_in_Some [simp]: "stmt_in n (Some st) \<longleftrightarrow> stmt_temps st \<union> set (stmt_defs st) \<subseteq> {..<n}"
  by (simp add: stmt_in_def)

lemma stmt_in_mono: "stmt_in n y \<Longrightarrow> n \<le> m \<Longrightarrow> stmt_in m y"
  by (cases y) (auto simp: stmt_in_def subset_iff intro: less_le_trans)

definition step_result :: "(ir_val, 'w) ir_sem \<Rightarrow> IRTypeEnv \<Rightarrow> nat list \<Rightarrow> bindings \<Rightarrow> IRStmt \<Rightarrow> nat list \<Rightarrow> bindings \<Rightarrow> IRStmt option list \<Rightarrow> bool" where
  "step_result S E dc env st dc1 env1 ys \<longleftrightarrow> env_wf dc1 env1 \<and> (\<forall>y\<in>set ys. stmt_in (types_used E) y)
     \<and> (\<forall>r r' w. sim_state S E dc env r r' \<longrightarrow> sim S E dc1 env1 (exec_stmt S (r, w) (Some st)) (exec S (r', w) ys))"

lemma defined_range: "length dc = n \<Longrightarrow> defined dc \<subseteq> {..<n}"
  by (auto simp: defined_def)

lemma cprop_WrTmp_cases:
  assumes "cprop_WrTmp (out, env, fx) t dat = Inr (out2, env2, fx2)"
  shows "t < length env \<and> env ! t = None \<and> env2 = env[t := Some dat] \<and> fx2 = fx \<and> tyenv out2 = tyenv out
    \<and> stmts out2 = stmts out @ (if propagated dat then [] else [Some (Ist_WrTmp t dat)])"
  using assms by (auto simp: cprop_WrTmp_def env_get_def res_iff Let_def split: if_splits dest!: addStmt_stmts)

lemma cprop_LoadG_cases:
  assumes "cprop_LoadG (out, env, fx) lg = Inr (out2, env2, fx2)"
  shows "env2 = env \<and> tyenv out2 = tyenv out \<and> (\<exists>ys. stmts out2 = stmts out @ ys @ [Some (Ist_LoadG lg)] \<and> set ys \<subseteq> {Some Ist_NoOp})"
  using assms
  by (cases "lg_guard lg") (auto simp: cprop_LoadG_def res_iff split: if_splits dest!: addStmt_stmts)

lemma exec_NoOps_append: "set ys \<subseteq> {Some Ist_NoOp} \<Longrightarrow> exec S s (ys @ zs) = exec S s zs"
  by (induction ys) auto

lemma cprop_step_cases:
  assumes "cprop_step keep fld (out, env, fx) (Some st) = Inr (out2, env2, fx2)"
  obtains (skip) "st = Ist_NoOp" "out2 = out" "env2 = env"
  | (bind) t dat where "subst_and_maybe_fold_Stmt fld env st = Inr (Ist_WrTmp t dat)" "t < length env" "env ! t = None"
      "env2 = env[t := Some dat]" "tyenv out2 = tyenv out" "stmts out2 = stmts out @ (if propagated dat then [] else [Some (Ist_WrTmp t dat)])"
  | (add) st2 ys where "subst_and_maybe_fold_Stmt fld env st = Inr st2" "env2 = env" "tyenv out2 = tyenv out" "stmts out2 = stmts out @ ys"
      "ys = [] \<and> st2 = Ist_NoOp \<or> (\<exists>zs. ys = zs @ [Some st2] \<and> set zs \<subseteq> {Some Ist_NoOp})"
proof (cases "st = Ist_NoOp \<and> \<not> keep")
  case True
  with assms show thesis by (intro skip) (auto simp: cprop_step_def)
next
  case False
  then obtain st2 where st2: "subst_and_maybe_fold_Stmt fld env st = Inr st2"
    using assms by (cases "subst_and_maybe_fold_Stmt fld env st") (auto simp: cprop_step_def split: if_splits)
  have step: "(case st2 of Ist_WrTmp t dat \<Rightarrow> cprop_WrTmp (out, env, fx) t dat | Ist_LoadG lg \<Rightarrow> cprop_LoadG (out, env, fx) lg
       | _ \<Rightarrow> if st2 = Ist_NoOp \<and> \<not> keep then Inr (out, env, fx)
             else bindR (addStmtToIRSB out (Some st2)) (\<lambda>out'. Inr (out', env, fx))) = Inr (out2, env2, fx2)"
    using assms False st2 by (cases st2) (auto simp: cprop_step_def split: if_splits)
  have other: thesis if "(if st2 = Ist_NoOp \<and> \<not> keep then Inr (out, env, fx)
      else bindR (addStmtToIRSB out (Some st2)) (\<lambda>out'. Inr (out', env, fx))) = Inr (out2, env2, fx2)"
  proof (cases "st2 = Ist_NoOp \<and> \<not> keep")
    case True
    with that st2 show thesis by (intro add [of st2 "[]"]) auto
  next
    case False
    with that st2 show thesis by (intro add [of st2 "[Some st2]"]) (auto simp: res_iff dest!: addStmt_stmts)
  qed
  show thesis
  proof (cases st2)
    case (Ist_WrTmp t dat)
    with step cprop_WrTmp_cases [of out env fx t dat out2 env2 fx2] st2 show thesis by (intro bind) auto
  next
    case (Ist_LoadG lg)
    with step cprop_LoadG_cases [of out env fx lg out2 env2 fx2] obtain ys where
      "stmts out2 = stmts out @ ys @ [Some (Ist_LoadG lg)]" "set ys \<subseteq> {Some Ist_NoOp}" "env2 = env" "tyenv out2 = tyenv out"
      by auto
    with st2 Ist_LoadG show thesis by (intro add [of st2 "ys @ [Some st2]"]) auto
  qed (use step other in simp_all)
qed

lemma bind_static:
  assumes "subst_and_maybe_fold_Stmt fld env st = Inr (Ist_WrTmp t dat)" "sane_step E gw dc st dc1" "env_wf dc env" "env ! t = None"
  shows "temps_of dat \<subseteq> defined dc - prop_temps env" "stmt_defs st = [t]" "t < length dc" "t \<notin> defined dc" "defined dc1 = insert t (defined dc)"
    "env_wf dc1 (env[t := Some dat])"
proof -
  note f = sane_step_facts [OF assms(2)] and su = subst_Stmt_static [OF assms(1,3) sane_step_facts(2) [OF assms(2)]]
  have len: "length dc = types_used E" using assms(2) by (simp add: sane_step_def)
  have st: "\<And>d. st \<noteq> Ist_Dirty d" "isFlatRHS dat = Inr True"
    using subst_WrTmp [OF assms(1,3) log_sem_documented, of undefined undefined] by blast+
  have "temps_of dat \<subseteq> stmt_temps st \<union> defined dc - prop_temps env" using su(1) by (simp add: stmt_temps_def)
  then show dat: "temps_of dat \<subseteq> defined dc - prop_temps env" using st(1) f(7) by blast
  show defs: "stmt_defs st = [t]" using su(2) by simp
  show t: "t < length dc" "t \<notin> defined dc" "defined dc1 = insert t (defined dc)" using f(4-6) defs len by auto
  show "env_wf dc1 (env[t := Some dat])" by (rule env_wf_bind [OF assms(3,4) t f(3) dat st(2)])
qed

lemma cprop_step_run:
  assumes "cprop_step keep fld (out, env, fx) (Some st) = Inr (out2, env2, fx2)" "sane_step E gw dc st dc1" "sem_ok S"
    and "acts_typed E S [Some st]" "env_wf dc env"
  shows "\<exists>ys. stmts out2 = stmts out @ ys \<and> tyenv out2 = tyenv out \<and> step_result S E dc env st dc1 env2 ys"
proof -
  note f = sane_step_facts [OF assms(2)]
  have S: "sem_documented S" "sem_guarded S" "sem_typed S" using assms(3) by (simp_all add: sem_ok_def)
  have len: "length dc = types_used E" using assms(2) by (simp add: sane_step_def)
  have argt: "arg_typed S r w e" if "st = Ist_WrTmp t e" "sim_state S E dc env r r'" for r r' w t e
  proof (rule tc_arg_typed [OF _ _ _ _ S(1)])
    show "temps_of e \<subseteq> defined dc" using f(7) that by (auto simp: stmt_temps_def)
    show "isFlatRHS e = Inr True" "tcExpr E gw e = Inr ()" using f(1,2) that by (auto simp: res_iff)
  qed (use that in \<open>simp add: sim_state_def\<close>)
  have sub: "stmt_temps st2 \<subseteq> stmt_temps st \<union> defined dc - prop_temps env" "stmt_defs st2 = stmt_defs st"
    "sim_state S E dc env r r' \<Longrightarrow> exec_stmt S (r, w) (Some st2) = exec_stmt S (r, w) (Some st)"
    if "subst_and_maybe_fold_Stmt fld env st = Inr st2" for st2 r r' w
    using subst_Stmt_run [OF that assms(5) S(1,2) f(2), of r w] argt by (auto simp: sim_state_def)
  from assms(1) show ?thesis
  proof (cases rule: cprop_step_cases)
    case skip
    with assms(2,5) show ?thesis by (auto simp: step_result_def sane_step_def sim_def)
  next
    case (bind t dat)
    note su = sub [OF bind(1)] and b = bind_static [OF bind(1) assms(2,5) bind(3)]
    have "env_wf dc1 env2" unfolding bind(4) by (rule b(6))
    moreover have "\<forall>y\<in>set (if propagated dat then [] else [Some (Ist_WrTmp t dat)]). stmt_in (types_used E) y"
      using b(1,3) defined_range [OF len] len by (auto simp: stmt_temps_def)
    moreover have "sim S E dc1 env2 (exec_stmt S (r, w) (Some st)) (exec S (r', w) (if propagated dat then [] else [Some (Ist_WrTmp t dat)]))"
      if "sim_state S E dc env r r'" for r r' w
      unfolding bind(4) by (rule sim_bind [OF assms(2-5) that bind(1-3) su(3) [OF that] b(2,1)])
    ultimately show ?thesis using bind(5,6) by (auto simp: step_result_def)
  next
    case (add st2 ys)
    note su = sub [OF add(1)]
    have "env_wf dc1 env2" using env_wf_defs [OF assms(5) _ f(3)] f(4) add(2) by simp
    moreover have "\<forall>y\<in>set ys. stmt_in (types_used E) y"
    proof -
      have "stmt_temps st2 \<union> set (stmt_defs st2) \<subseteq> {..<types_used E}"
        using su(1,2) f(6,8) defined_range [OF len] by auto
      moreover have "stmt_in (types_used E) y" if "y \<in> set zs" "set zs \<subseteq> {Some Ist_NoOp}" for y zs
      proof -
        have "y = Some Ist_NoOp" using that by blast
        then show ?thesis by simp
      qed
      ultimately show ?thesis using add(5) by auto
    qed
    moreover have "sim S E dc1 env2 (exec_stmt S (r, w) (Some st)) (exec S (r', w) ys)" if "sim_state S E dc env r r'" for r r' w
    proof -
      have "exec S (r', w) ys = exec_stmt S (r', w) (Some st2)"
        using add(5) exec_NoOps_append [of _ S "(r', w)" "[Some st2]"] by (auto simp: bindR_def split: sum.splits)
      with sim_add [OF assms(2-5) that su(3) [OF that], of w] su(1) add(2) show ?thesis by auto
    qed
    ultimately show ?thesis using add(3,4) by (auto simp: step_result_def)
  qed
qed

section \<open>The loop\<close>

lemma sim_bindR:
  assumes "sim S E dc env m m'" "\<And>r r' w. sim_state S E dc env r r' \<Longrightarrow> sim S E dc2 env2 (f (r, w)) (g (r', w))"
  shows "sim S E dc2 env2 (bindR m f) (bindR m' g)"
  using assms by (cases m; cases m') (auto simp: sim_def rel_prod_conv split: prod.splits)

definition loop_result ::
    "(ir_val, 'w) ir_sem \<Rightarrow> IRTypeEnv \<Rightarrow> nat list \<Rightarrow> bindings \<Rightarrow> IRStmt option list \<Rightarrow> nat list \<Rightarrow> bindings \<Rightarrow> IRStmt option list \<Rightarrow> bool" where
  "loop_result S E dc env xs dc1 env1 ys \<longleftrightarrow> env_wf dc1 env1 \<and> (\<forall>y\<in>set ys. stmt_in (types_used E) y)
     \<and> (\<forall>r r' w. sim_state S E dc env r r' \<longrightarrow> sim S E dc1 env1 (exec S (r, w) xs) (exec S (r', w) ys))"

lemma cprop_loop_run:
  assumes "foldR (cprop_step keep fld) (out, env, fx) xs = Inr (out2, env2, fx2)" "chunk_ok E gw dc xs dc2" "length dc = types_used E"
    and "sem_ok S" "acts_typed E S xs" "env_wf dc env"
  shows "\<exists>ys. stmts out2 = stmts out @ ys \<and> tyenv out2 = tyenv out \<and> loop_result S E dc env xs dc2 env2 ys"
  using assms
proof (induction xs arbitrary: out env fx dc)
  case Nil
  then show ?case by (auto simp: loop_result_def sim_def)
next
  case (Cons x xs)
  obtain out1 env1 fx1 where s: "cprop_step keep fld (out, env, fx) x = Inr (out1, env1, fx1)"
      "foldR (cprop_step keep fld) (out1, env1, fx1) xs = Inr (out2, env2, fx2)"
    using Cons.prems(1) by (auto simp: res_iff)
  obtain st dc1 where st: "x = Some st" "sane_step E gw dc st dc1" "chunk_ok E gw dc1 xs dc2"
    using Cons.prems(2,3) by (auto simp: countStmt_def res_iff sane_step_def stmt_ok_def)
  have acts: "acts_typed E S [Some st]" "acts_typed E S xs" using Cons.prems(5) st(1) by (auto simp: acts_typed_def)
  obtain ys where ys: "stmts out1 = stmts out @ ys" "tyenv out1 = tyenv out" "step_result S E dc env st dc1 env1 ys"
    using cprop_step_run [OF s(1) [unfolded st(1)] st(2) Cons.prems(4) acts(1) Cons.prems(6)] by blast
  have "length dc1 = types_used E" using sane_step_facts(3) [OF st(2)] Cons.prems(3) by simp
  from Cons.IH [OF s(2) st(3) this Cons.prems(4) acts(2)] ys(3) obtain zs where
    zs: "stmts out2 = stmts out1 @ zs" "tyenv out2 = tyenv out1" "loop_result S E dc1 env1 xs dc2 env2 zs"
    by (auto simp: step_result_def)
  have "sim S E dc2 env2 (exec S (r, w) (x # xs)) (exec S (r', w) (ys @ zs))" if "sim_state S E dc env r r'" for r r' w
    unfolding exec_simps exec_append
  proof (rule sim_bindR)
    show "sim S E dc1 env1 (exec_stmt S (r, w) x) (exec S (r', w) ys)" using ys(3) that st(1) by (simp add: step_result_def)
    show "sim_state S E dc1 env1 r1 r1' \<Longrightarrow> sim S E dc2 env2 (exec S (r1, w1) xs) (exec S (r1', w1) zs)" for r1 r1' w1
      using zs(3) by (simp add: loop_result_def)
  qed
  with ys zs show ?case by (auto simp: loop_result_def step_result_def intro!: exI [of _ "ys @ zs"])
qed

section \<open>Unconditional guarded loads\<close>

text \<open>One fixup: two assignments in place of a placeholder and a load, with a new temporary.\<close>

lemma same_run_cont: "(\<And>r w. same_run X (f (r, w)) (g (r, w))) \<Longrightarrow> same_run X (bindR m f) (bindR m g)"
  by (cases m) auto

lemma exec_agree_range:
  assumes "\<forall>y\<in>set ys. stmt_in n y" "agree {..<n} r r'"
  shows "same_run {..<n} (exec S (r, w) ys) (exec S (r', w) ys)"
  using assms
proof (induction ys arbitrary: r r' w)
  case (Cons y ys)
  then obtain st where st: "y = Some st" "stmt_temps st \<subseteq> {..<n}" by (auto simp: stmt_in_def)
  show ?case
    unfolding exec_simps
    by (rule same_run_bind [OF exec_stmt_agree [OF Cons.prems(2) st(2), of S w, folded st(1)]]) (use Cons in auto)
qed simp

definition sb_in_range :: "IRSB \<Rightarrow> bool" where
  "sb_in_range bb \<longleftrightarrow> (\<forall>y\<in>set (stmts bb). stmt_in (types_used (tyenv bb)) y)
     \<and> (\<forall>nx. sb_next bb = Some nx \<longrightarrow> temps_of nx \<subseteq> {..<types_used (tyenv bb)})"

lemma case_LoadG: "(case st of Ist_LoadG lg \<Rightarrow> f lg | _ \<Rightarrow> Inl e) = Inr v \<Longrightarrow> \<exists>lg. st = Ist_LoadG lg \<and> f lg = Inr v"
  by (cases st) auto

lemma case_Const: "(case a of Iex_Const c \<Rightarrow> f c | _ \<Rightarrow> Inl e) = Inr v \<Longrightarrow> \<exists>c. a = Iex_Const c \<and> f c = Inr v"
  by (cases a) auto

lemma cprop_fixup_cases:
  assumes "cprop_fixup out ix = Inr out2"
  obtains lg cvtRes cvtArg cvtOp pre post E2 where "stmts out = pre @ [Some Ist_NoOp, Some (Ist_LoadG lg)] @ post" "lg_guard lg = Iex_Const (Ico_U1 1)"
    "typeOfIRLoadGOp (lg_cvt lg) = Inr (cvtRes, cvtArg)" "cvt_op (lg_cvt lg) = Inr cvtOp" "types E2 = types (tyenv out) @ [cvtArg]"
    "out2 = out\<lparr>tyenv := E2, stmts := pre @ [Some (Ist_WrTmp (types_used (tyenv out)) (Iex_Load (lg_end lg) cvtArg (lg_addr lg))),
        Some (Ist_WrTmp (lg_dst lg) (converted cvtOp (Iex_RdTmp (types_used (tyenv out)))))] @ post\<rparr>"
proof -
  obtain lg c where ix: "Suc ix < stmts_used out" "stmts out ! ix = Some Ist_NoOp" "stmts out ! Suc ix = Some (Ist_LoadG lg)"
      "lg_guard lg = Iex_Const c" "con_U1 c = Inr 1" "fixup_LoadG out ix lg = Inr out2"
    using assms by (auto simp: cprop_fixup_def res_iff dest!: case_LoadG case_Const)
  have c: "c = Ico_U1 1" using ix(5) by (cases c) (auto simp: con_U1_def)
  define pre post where "pre = take ix (stmts out)" and "post = drop (Suc (Suc ix)) (stmts out)"
  have sts: "stmts out = pre @ [Some Ist_NoOp, Some (Ist_LoadG lg)] @ post"
  proof -
    have "drop ix (stmts out) = Some Ist_NoOp # Some (Ist_LoadG lg) # post"
      unfolding post_def using ix(1-3) by (metis Cons_nth_drop_Suc Suc_lessD)
    then show ?thesis unfolding pre_def by (metis append_Cons append_Nil append_take_drop_id)
  qed
  have len: "length pre = ix" using ix(1) by (simp add: pre_def)
  obtain cvtRes cvtArg cvtOp E2 where f: "typeOfIRLoadGOp (lg_cvt lg) = Inr (cvtRes, cvtArg)" "cvt_op (lg_cvt lg) = Inr cvtOp"
      "newIRTemp (tyenv out) cvtArg = Inr (E2, types_used (tyenv out))"
      "out2 = out\<lparr>tyenv := E2, stmts := (stmts out)
           [ix := Some (Ist_WrTmp (types_used (tyenv out)) (Iex_Load (lg_end lg) cvtArg (lg_addr lg))),
            Suc ix := Some (Ist_WrTmp (lg_dst lg) (converted cvtOp (Iex_RdTmp (types_used (tyenv out)))))]\<rparr>"
    using ix(6) by (auto simp: fixup_LoadG_def newIRTemp_def Let_def res_iff)
  have "types E2 = types (tyenv out) @ [cvtArg]" using f(3) by (auto simp: newIRTemp_def Let_def res_iff split: if_splits)
  moreover have "out2 = out\<lparr>tyenv := E2, stmts := pre @ [Some (Ist_WrTmp (types_used (tyenv out)) (Iex_Load (lg_end lg) cvtArg (lg_addr lg))),
        Some (Ist_WrTmp (lg_dst lg) (converted cvtOp (Iex_RdTmp (types_used (tyenv out)))))] @ post\<rparr>"
    unfolding f(4) sts using len by (simp add: list_update_append)
  ultimately show thesis using that [OF sts _ f(1,2)] ix(4) c by blast
qed

lemma cprop_fixup_run:
  assumes "cprop_fixup out ix = Inr out2" "sb_in_range out" "sem_ok S"
  shows "block_outcome S s out2 = block_outcome S s out \<and> sb_in_range out2"
proof -
  let ?n = "types_used (tyenv out)"
  obtain lg cvtRes cvtArg cvtOp pre post E2 where f: "stmts out = pre @ [Some Ist_NoOp, Some (Ist_LoadG lg)] @ post" "lg_guard lg = Iex_Const (Ico_U1 1)"
    "typeOfIRLoadGOp (lg_cvt lg) = Inr (cvtRes, cvtArg)" "cvt_op (lg_cvt lg) = Inr cvtOp" "types E2 = types (tyenv out) @ [cvtArg]"
    "out2 = out\<lparr>tyenv := E2, stmts := pre @ [Some (Ist_WrTmp ?n (Iex_Load (lg_end lg) cvtArg (lg_addr lg))),
        Some (Ist_WrTmp (lg_dst lg) (converted cvtOp (Iex_RdTmp ?n)))] @ post\<rparr>"
    by (rule cprop_fixup_cases [OF assms(1)])
  let ?new = "[Some (Ist_WrTmp ?n (Iex_Load (lg_end lg) cvtArg (lg_addr lg))), Some (Ist_WrTmp (lg_dst lg) (converted cvtOp (Iex_RdTmp ?n)))]"
  have S: "sem_documented S" "sem_guarded S" using assms(3) by (simp_all add: sem_ok_def)
  have rng: "\<forall>y\<in>set pre \<union> set post. stmt_in ?n y" "lg_dst lg < ?n" "temps_of (lg_addr lg) \<subseteq> {..<?n}"
    using assms(2) unfolding sb_in_range_def f(1) by (auto simp: stmt_temps_def)
  have mid: "same_run {..<?n} (exec S (r, w) [Some Ist_NoOp, Some (Ist_LoadG lg)]) (exec S (r, w) ?new)" for r w
  proof -
    have "exec_stmt S (r, w) (Some (Ist_LoadG lg)) = Inr (r(lg_dst lg := cvt_val S cvtOp (sem_load S w (lg_end lg) cvtArg (eval S r w (lg_addr lg)))), w)"
      using documented_bits(1) [OF S(1), of r w] f(2) by (simp add: exec_stmt_def LoadG_act [OF S(2) f(3,4)])
    moreover have "eval S r' w (converted cvtOp (Iex_RdTmp ?n)) = cvt_val S cvtOp (r' ?n)" for r'
      by (cases cvtOp) (simp_all add: converted_def cvt_val_def)
    ultimately show ?thesis using rng(2) by (auto simp: exec_stmt_def agree_def)
  qed
  have run: "same_run {..<?n} (exec S s (stmts out)) (exec S s (stmts out2))"
  proof -
    have "same_run {..<?n} (exec S (r, w) ([Some Ist_NoOp, Some (Ist_LoadG lg)] @ post)) (exec S (r, w) (?new @ post))" for r w
      unfolding exec_append by (rule same_run_bind [OF mid]) (use rng(1) in \<open>auto intro: exec_agree_range\<close>)
    moreover have "stmts out2 = pre @ ?new @ post" using f(6) by simp
    ultimately show ?thesis
      unfolding f(1) exec_append [of S _ pre] by (simp only: exec_append [of S _ pre]) (rule same_run_cont)
  qed
  have nx: "sb_next out2 = sb_next out" "sb_jumpkind out2 = sb_jumpkind out" "sb_offsIP out2 = sb_offsIP out" using f(6) by simp_all
  have "agree {..<?n} r r' \<Longrightarrow> sb_next out = Some nx \<Longrightarrow> eval S r w nx = eval S r' w nx" for r r' w nx
    using assms(2) by (auto simp: sb_in_range_def intro!: eval_agree elim: agree_subset)
  then have "block_outcome S s out2 = block_outcome S s out"
    using run nx by (cases "sb_next out") (auto simp: block_outcome_def split: sum.splits)
  moreover have "sb_in_range out2"
  proof -
    have "stmt_in (Suc ?n) y" if "y \<in> set pre \<union> set post" for y
      using rng(1) that stmt_in_mono [of ?n y "Suc ?n"] by auto
    moreover have "temps_of (converted cvtOp (Iex_RdTmp ?n)) \<subseteq> {..<Suc ?n}" by (cases cvtOp) (simp_all add: converted_def)
    moreover have "temps_of nx \<subseteq> {..<Suc ?n}" if "sb_next out = Some nx" for nx
      using that assms(2) unfolding sb_in_range_def by fastforce
    ultimately show ?thesis using rng(2,3) f(5) unfolding f(6) sb_in_range_def by (auto simp: stmt_temps_def)
  qed
  ultimately show ?thesis by blast
qed

lemma cprop_fixups_run:
  assumes "foldR cprop_fixup out fx = Inr out2" "sb_in_range out" "sem_ok S"
  shows "block_outcome S s out2 = block_outcome S s out"
  using assms
proof (induction fx arbitrary: out)
  case (Cons ix fx)
  then obtain out1 where "cprop_fixup out ix = Inr out1" "foldR cprop_fixup out1 fx = Inr out2" by (auto simp: res_iff)
  with Cons.IH cprop_fixup_run [OF this(1) Cons.prems(2,3), of s] Cons.prems(3) show ?case by simp
qed simp

section \<open>The pass\<close>

lemma cprop_WRK_outcome:
  assumes "cprop_BB_WRK bb keep fld = Inr bb2" "sanityCheckIRSB bb True gw = Inr ()" "sem_ok S" "acts_typed (tyenv bb) S (stmts bb)"
  shows "block_outcome S s bb2 = block_outcome S s bb"
proof -
  let ?E = "tyenv bb" and ?out = "emptyIRSB\<lparr>tyenv := deepCopyIRTypeEnv (tyenv bb)\<rparr>" and ?env = "replicate (types_used (tyenv bb)) None"
  let ?dc = "replicate (types_used (tyenv bb)) (0::nat)"
  obtain out env fx nx nx2 where c: "foldR (cprop_step keep fld) (?out, ?env, []) (stmts bb) = Inr (out, env, fx)" "sb_next bb = Some nx"
      "subst_Expr env nx = Inr nx2"
      "foldR cprop_fixup (out\<lparr>sb_next := Some nx2, sb_jumpkind := sb_jumpkind bb, sb_offsIP := sb_offsIP bb\<rparr>) fx = Inr bb2"
    using assms(1) by (auto simp: cprop_BB_WRK_def res_iff)
  obtain dc2 where dc: "chunk_ok ?E gw ?dc (stmts bb) dc2" "isIRAtom nx" "typeOfIRExpr ?E nx = Inr gw"
    using assms(2) c(2) by (auto simp: sanityCheckIRSB_iff)
  have env: "env_wf ?dc ?env" "sim_state S ?E ?dc ?env r r" for r
    by (auto simp: env_wf_def sim_state_def env_true_def typed_state_def defined_def)
  obtain ys where ys: "stmts out = ys" "types (tyenv out) = types ?E" "loop_result S ?E ?dc ?env (stmts bb) dc2 env ys"
    using cprop_loop_run [OF c(1) dc(1) _ assms(3,4) env(1)] by (auto simp: emptyIRSB_def deepCopyIRTypeEnv_def)
  obtain r w where s: "s = (r, w)" by (cases s)
  have run: "sim S ?E dc2 env (exec S s (stmts bb)) (exec S s (stmts out))" and wf: "env_wf dc2 env"
    using ys(1,3) env(2) s by (auto simp: loop_result_def)
  note nx = subst_atom [OF c(3) dc(2) wf]
  have eval_nx: "sim_state S ?E dc2 env r1 r2 \<Longrightarrow> eval S r2 w1 nx2 = eval S r1 w1 nx" for r1 r2 w1
  proof -
    assume sim: "sim_state S ?E dc2 env r1 r2"
    have "eval S r2 w1 nx2 = eval S r1 w1 nx2"
      using sim nx(2) by (intro eval_agree) (auto simp: sim_state_def agree_def)
    with nx(3) [of S r1 w1] sim show ?thesis by (simp add: sim_state_def)
  qed
  let ?out2 = "out\<lparr>sb_next := Some nx2, sb_jumpkind := sb_jumpkind bb, sb_offsIP := sb_offsIP bb\<rparr>"
  have "block_outcome S s ?out2 = block_outcome S s bb"
    using run eval_nx c(2) by (auto simp: block_outcome_def sim_def split: sum.splits)
  moreover have "sb_in_range ?out2"
  proof -
    have "temps_of nx \<subseteq> {..<types_used ?E}" using dc(2,3) by (cases nx) (auto simp: typeOfIRTemp_def res_iff)
    moreover have "defined dc2 \<subseteq> {..<types_used ?E}" using defined_range [OF refl, of dc2] chunk_ok_length [OF dc(1)] by simp
    ultimately show ?thesis using nx(2) ys by (auto simp: sb_in_range_def loop_result_def)
  qed
  ultimately show ?thesis using cprop_fixups_run [OF c(4) _ assms(3), of s] by simp
qed

end
