(* ===== verification/Opt_Cprop_Sane.thy ===== *)
theory Opt_Cprop_Sane
  imports Opt_Fold_Total Opt_Cprop_Run
begin

text \<open>
  Constant propagation always succeeds on sane blocks, and keeps them sane: \<open>cprop_WRK_total\<close>.

  Substitution keeps the types of expressions (\<open>subst_wt\<close>, \<open>subst_fold_wt\<close>) and gives statements that
  pass the type checker (\<open>subst_Stmt_total\<close>). The loop keeps \<open>cprop_inv\<close>: the statements so far define
  exactly the temporaries that are defined in the original and not substituted away, and each
  recorded fixup points to a placeholder followed by an unconditional guarded load. The blocks are
  those without the constants and the operation on which folding stops (\<open>plain_sb\<close>).
\<close>

section \<open>Substitution keeps types\<close>

lemma subst_atom_wt:
  assumes "isIRAtom a" "wt E gw a ty" "env_wt E gw env"
  shows "\<exists>b. subst_Expr env a = Inr b \<and> isIRAtom b \<and> wt E gw b ty"
proof (cases a)
  case (Iex_RdTmp t)
  obtain b where b: "env_get env t = Inr b" "\<And>e. b = Some e \<Longrightarrow> wt E gw e ty"
    using env_wt_get [OF assms(3) assms(2) [unfolded Iex_RdTmp]] by blast
  with Iex_RdTmp assms(2) show ?thesis by (cases b) (auto intro: propagated_atom)
qed (use assms in auto)

text \<open>Replacing atoms by atoms of the same types.\<close>

lemma subst_args_wt:
  assumes "\<forall>a\<in>set as. isIRAtom a \<and> (\<exists>u. u \<noteq> Ity_I1 \<and> wt E gw a u)" "env_wt E gw env"
  shows "\<exists>bs. mapR (\<lambda>a. bindR (atomR a) (\<lambda>_. subst_Expr env a)) as = Inr bs \<and> length bs = length as
    \<and> (\<forall>b\<in>set bs. isIRAtom b \<and> (\<exists>u. u \<noteq> Ity_I1 \<and> wt E gw b u))"
  using assms(1)
proof (induction as)
  case (Cons a as)
  then obtain u where u: "isIRAtom a" "u \<noteq> Ity_I1" "wt E gw a u" by auto
  obtain b where "subst_Expr env a = Inr b" "isIRAtom b" "wt E gw b u" using subst_atom_wt [OF u(1,3) assms(2)] by blast
  with Cons u show ?case by (auto simp: atomR_def)
qed simp

lemma wt_CCall:
  "wt E gw (Iex_CCall cee ret args) ty \<longleftrightarrow> saneIRCallee cee \<and> cee_regparms cee \<le> int (length args) \<and> length args \<le> 32 \<and> ret \<noteq> Ity_I1 \<and> ty = ret
     \<and> (\<forall>a\<in>set args. isIRAtom a \<and> (\<exists>u. u \<noteq> Ity_I1 \<and> wt E gw a u))"
proof (cases "length args \<le> 32 \<and> list_all isIRAtom args")
  case True
  then have "\<forall>a\<in>set args. isFlatRHS a = Inr True \<and> \<not> is_IRExpr_VECRET_or_GSPTR a" by (auto simp: list_all_iff atom_flat atom_not_special)
  with True show ?thesis by (auto simp: wt_def res_iff list_all_iff not_less)
qed (auto simp: wt_def res_iff list_all_iff)

lemma subst_wt:
  assumes "wt E gw e ty" "env_wt E gw env"
  shows "\<exists>e2. subst_Expr env e = Inr e2 \<and> wt E gw e2 ty"
proof (cases e)
  case (Iex_CCall cee ret args)
  with assms(1) subst_args_wt [OF _ assms(2), of args] show ?thesis by (auto simp: wt_CCall)
next
  case (Iex_RdTmp t)
  with subst_atom_wt [OF _ assms] show ?thesis by auto
next
  case (Iex_Const c)
  with assms(1) show ?thesis by auto
next
  case (Iex_Get off t)
  with assms(1) show ?thesis by auto
next
  case (Iex_Unop op a)
  then obtain s where s: "typeOfPrimop op = Inr s" "isIRAtom a" "wt E gw a (t_arg1 s)" "ty = t_dst s" using wt_atoms(1) assms(1) by blast
  obtain b where "subst_Expr env a = Inr b" "isIRAtom b" "wt E gw b (t_arg1 s)" using subst_atom_wt [OF s(2,3) assms(2)] by blast
  with s assms(1) Iex_Unop show ?thesis by (auto simp: wt_def atomR_def res_iff)
next
  case (Iex_Binop op a a')
  then obtain s where s: "typeOfPrimop op = Inr s" "isIRAtom a" "isIRAtom a'" "wt E gw a (t_arg1 s)" "wt E gw a' (t_arg2 s)" using wt_atoms(2) assms(1) by blast
  obtain b b' where "subst_Expr env a = Inr b" "isIRAtom b" "wt E gw b (t_arg1 s)" "subst_Expr env a' = Inr b'" "isIRAtom b'" "wt E gw b' (t_arg2 s)"
    using subst_atom_wt [OF s(2,4) assms(2)] subst_atom_wt [OF s(3,5) assms(2)] by blast
  with s assms(1) Iex_Binop show ?thesis by (auto simp: wt_def atomR_def res_iff)
next
  case (Iex_ITE c a a')
  then have w: "isIRAtom c" "isIRAtom a" "isIRAtom a'" "wt E gw c Ity_I1" "wt E gw a ty" "wt E gw a' ty" using wt_atoms(4) assms(1) by blast+
  obtain d b b' where "subst_Expr env c = Inr d" "isIRAtom d" "wt E gw d Ity_I1" "subst_Expr env a = Inr b" "isIRAtom b" "wt E gw b ty"
      "subst_Expr env a' = Inr b'" "isIRAtom b'" "wt E gw b' ty"
    using subst_atom_wt [OF w(1,4) assms(2)] subst_atom_wt [OF w(2,5) assms(2)] subst_atom_wt [OF w(3,6) assms(2)] by blast
  with w Iex_ITE show ?thesis by (auto simp: wt_def atomR_def res_iff)
next
  case (Iex_Triop op a1 a2 a3)
  with assms(1) obtain s where s: "typeOfPrimop op = Inr s" "isIRAtom a1" "isIRAtom a2" "isIRAtom a3" "wt E gw a1 (t_arg1 s)"
      "wt E gw a2 (t_arg2 s)" "wt E gw a3 (t_arg3 s)"
    by (auto simp: wt_def res_iff atom_flat)
  obtain b1 b2 b3 where "subst_Expr env a1 = Inr b1" "isIRAtom b1" "wt E gw b1 (t_arg1 s)" "subst_Expr env a2 = Inr b2" "isIRAtom b2"
      "wt E gw b2 (t_arg2 s)" "subst_Expr env a3 = Inr b3" "isIRAtom b3" "wt E gw b3 (t_arg3 s)"
    using subst_atom_wt [OF s(2,5) assms(2)] subst_atom_wt [OF s(3,6) assms(2)] subst_atom_wt [OF s(4,7) assms(2)] by blast
  with s assms(1) Iex_Triop show ?thesis by (auto simp: wt_def atomR_def res_iff)
next
  case (Iex_Qop op a1 a2 a3 a4)
  with assms(1) obtain s where s: "typeOfPrimop op = Inr s" "isIRAtom a1" "isIRAtom a2" "isIRAtom a3" "isIRAtom a4" "wt E gw a1 (t_arg1 s)"
      "wt E gw a2 (t_arg2 s)" "wt E gw a3 (t_arg3 s)" "wt E gw a4 (t_arg4 s)"
    by (auto simp: wt_def res_iff atom_flat)
  obtain b1 b2 b3 b4 where "subst_Expr env a1 = Inr b1" "isIRAtom b1" "wt E gw b1 (t_arg1 s)" "subst_Expr env a2 = Inr b2" "isIRAtom b2"
      "wt E gw b2 (t_arg2 s)" "subst_Expr env a3 = Inr b3" "isIRAtom b3" "wt E gw b3 (t_arg3 s)" "subst_Expr env a4 = Inr b4" "isIRAtom b4"
      "wt E gw b4 (t_arg4 s)"
    using subst_atom_wt [OF s(2,6) assms(2)] subst_atom_wt [OF s(3,7) assms(2)] subst_atom_wt [OF s(4,8) assms(2)]
      subst_atom_wt [OF s(5,9) assms(2)] by blast
  with s assms(1) Iex_Qop show ?thesis by (auto simp: wt_def atomR_def res_iff)
next
  case (Iex_Load en t a)
  with assms(1) have w: "isIRAtom a" "wt E gw a gw" by (auto simp: wt_def res_iff atom_flat)
  obtain b where "subst_Expr env a = Inr b" "isIRAtom b" "wt E gw b gw" using subst_atom_wt [OF w assms(2)] by blast
  with w assms(1) Iex_Load show ?thesis by (auto simp: wt_def atomR_def res_iff)
next
  case (Iex_GetI descr a bias)
  with assms(1) have w: "isIRAtom a" "wt E gw a Ity_I32" by (auto simp: wt_def res_iff atom_flat)
  obtain b where "subst_Expr env a = Inr b" "isIRAtom b" "wt E gw b Ity_I32" using subst_atom_wt [OF w assms(2)] by blast
  with w assms(1) Iex_GetI show ?thesis by (auto simp: wt_def atomR_def res_iff)
qed (use assms(1) in \<open>auto simp: wt_def\<close>)

lemma subst_fold_wt:
  assumes "wt E gw e ty" "env_wt E gw env" "copies_direct env"
  shows "\<exists>e2. subst_fold fld env e = Inr e2 \<and> wt E gw e2 ty"
proof -
  obtain e1 where "subst_Expr env e = Inr e1" "wt E gw e1 ty" using subst_wt [OF assms(1,2)] by blast
  with fold_total_wt [OF assms(2,3) this(2)] show ?thesis by (auto simp: subst_fold_def fold_Expr_def gives_def)
qed

lemma subst_fold_atom_wt:
  assumes "isIRAtom a" "wt E gw a ty" "env_wt E gw env"
  shows "\<exists>b. subst_fold fld env a = Inr b \<and> isIRAtom b \<and> wt E gw b ty"
  using subst_atom_wt [OF assms] fold_atom by (auto simp: subst_fold_def)

lemma subst_fold_atom_total:
  assumes "isIRAtom a" "temps_of a \<subseteq> {..<length env}"
  shows "\<exists>b. subst_fold fld env a = Inr b \<and> isIRAtom b"
proof -
  have "\<exists>b. subst_Expr env a = Inr b \<and> isIRAtom b"
    using assms by (cases a) (auto simp: env_get_def propagated_atom split: option.split)
  with fold_atom show ?thesis by (auto simp: subst_fold_def)
qed

text \<open>The arguments of statements are atoms; their constants may be any.\<close>

definition awt :: "IRTypeEnv \<Rightarrow> IRType \<Rightarrow> IRExpr \<Rightarrow> IRType \<Rightarrow> bool" where
  "awt E gw a ty \<longleftrightarrow> tcExpr E gw a = Inr () \<and> typeOfIRExpr E a = Inr ty"

lemma subst_fold_atom_awt:
  assumes "isIRAtom a" "awt E gw a ty" "env_wt E gw env"
  shows "\<exists>b. subst_fold fld env a = Inr b \<and> isIRAtom b \<and> awt E gw b ty"
proof (cases a)
  case (Iex_RdTmp t)
  with assms(2) have "wt E gw a ty" by (simp add: awt_def wt_def)
  with subst_fold_atom_wt [OF assms(1) _ assms(3)] show ?thesis by (auto simp: wt_def awt_def)
qed (use assms fold_atom [of "Iex_Const _"] in \<open>auto simp: subst_fold_def\<close>)

lemma atom_awt:
  assumes "isIRAtom a" "typeOfIRExpr E a = Inr ty" "ty \<noteq> Ity_I1"
  shows "awt E gw a ty"
proof (cases a)
  case (Iex_Const c)
  with assms show ?thesis by (cases c) (auto simp: awt_def)
qed (use assms in \<open>auto simp: awt_def\<close>)

section \<open>Statements\<close>

fun plain_stmt :: "IRStmt \<Rightarrow> bool" where
  "plain_stmt (Ist_WrTmp t e) = plain e"
| "plain_stmt (Ist_LoadG lg) = plain (lg_alt lg)"
| "plain_stmt st = True"

lemma const_guard_total: "awt E gw g Ity_I1 \<Longrightarrow> \<exists>k. const_guard g = Inr k"
proof (cases g)
  case (Iex_Const c)
  assume "awt E gw g Ity_I1"
  with Iex_Const show ?thesis by (cases c) (auto simp: awt_def const_guard_def con_U1_def res_iff)
qed (auto simp: const_guard_def)

text \<open>What a statement becomes.\<close>

definition good_stmt :: "IRTypeEnv \<Rightarrow> IRType \<Rightarrow> IRStmt \<Rightarrow> bool" where
  "good_stmt E gw st \<longleftrightarrow> stmt_ok E gw (Some st) \<and> (\<forall>t dat. st = Ist_WrTmp t dat \<longrightarrow> wt E gw dat (types E ! t))
     \<and> (\<forall>lg c. st = Ist_LoadG lg \<longrightarrow> lg_guard lg = Iex_Const c \<longrightarrow> c = Ico_U1 1)"

lemma subst_StoreG_total:
  assumes "stmt_ok E gw (Some (Ist_StoreG sg))" "env_wt E gw env"
  shows "\<exists>st2. subst_StoreG fld env sg = Inr st2 \<and> good_stmt E gw st2"
proof -
  obtain td where w: "isIRAtom (sg_addr sg)" "isIRAtom (sg_data sg)" "isIRAtom (sg_guard sg)" "awt E gw (sg_addr sg) gw"
      "awt E gw (sg_data sg) td" "td \<noteq> Ity_I1" "awt E gw (sg_guard sg) Ity_I1"
    using assms(1) by (auto simp: stmt_ok_def awt_def res_iff atom_flat)
  obtain a d g where b: "subst_fold fld env (sg_addr sg) = Inr a" "isIRAtom a" "awt E gw a gw" "subst_fold fld env (sg_data sg) = Inr d" "isIRAtom d"
      "awt E gw d td" "subst_fold fld env (sg_guard sg) = Inr g" "isIRAtom g" "awt E gw g Ity_I1"
    using subst_fold_atom_awt [OF w(1,4) assms(2)] subst_fold_atom_awt [OF w(2,5) assms(2)] subst_fold_atom_awt [OF w(3,7) assms(2)] by blast
  obtain k where k: "const_guard g = Inr k" using const_guard_total [OF b(9)] by blast
  have "good_stmt E gw (Ist_Store (sg_end sg) a d)" "good_stmt E gw (Ist_StoreG (mkIRStoreG (sg_end sg) a d g))" "good_stmt E gw Ist_NoOp"
    using b w(6) by (auto simp: good_stmt_def stmt_ok_def awt_def res_iff mkIRStoreG_def)
  with b k w(1-3) show ?thesis by (cases k) (auto simp: subst_StoreG_def Let_def atomR_def split: bool.split)
qed

lemma subst_LoadG_total:
  assumes "stmt_ok E gw (Some (Ist_LoadG lg))" "plain_stmt (Ist_LoadG lg)" "env_wt E gw env"
  shows "\<exists>st2. subst_LoadG fld env lg = Inr st2 \<and> good_stmt E gw st2"
proof -
  obtain td arg where w: "isIRAtom (lg_addr lg)" "isIRAtom (lg_alt lg)" "isIRAtom (lg_guard lg)" "awt E gw (lg_addr lg) gw"
      "wt E gw (lg_alt lg) td" "typeOfIRTemp E (lg_dst lg) = Inr td" "typeOfIRLoadGOp (lg_cvt lg) = Inr (td, arg)" "awt E gw (lg_guard lg) Ity_I1"
    using assms(1,2) by (auto simp: stmt_ok_def awt_def wt_def res_iff atom_flat)
  obtain a d g where b: "subst_fold fld env (lg_addr lg) = Inr a" "isIRAtom a" "awt E gw a gw" "subst_fold fld env (lg_alt lg) = Inr d" "isIRAtom d"
      "wt E gw d td" "subst_fold fld env (lg_guard lg) = Inr g" "isIRAtom g" "awt E gw g Ity_I1"
    using subst_fold_atom_awt [OF w(1,4) assms(3)] subst_fold_atom_wt [OF w(2,5) assms(3)] subst_fold_atom_awt [OF w(3,8) assms(3)] by blast
  obtain k where k: "const_guard g = Inr k" using const_guard_total [OF b(9)] by blast
  have "good_stmt E gw (Ist_WrTmp (lg_dst lg) d)"
    using b w(6) by (auto simp: good_stmt_def stmt_ok_def awt_def wt_def res_iff typeOfIRTemp_def)
  moreover have "good_stmt E gw (Ist_LoadG (mkIRLoadG (lg_end lg) (lg_cvt lg) (lg_dst lg) a d g))" if "k \<noteq> Some False"
  proof -
    have "c = Ico_U1 1" if "g = Iex_Const c" for c
      using that k \<open>k \<noteq> Some False\<close> by (auto simp: const_guard_def res_iff con_U1_def split: if_splits IRConst.splits)
    then show ?thesis using b w(6,7) by (auto simp: good_stmt_def stmt_ok_def awt_def wt_def res_iff mkIRLoadG_def)
  qed
  ultimately show ?thesis using b k w(1-3) by (auto simp: subst_LoadG_def Let_def atomR_def)
qed

lemma subst_opt_wt:
  assumes "atom_or_null e" "env_wt E gw env" "\<And>a. e = Some a \<Longrightarrow> awt E gw a ty"
  shows "\<exists>e2. subst_fold_opt fld env e = Inr e2 \<and> atomR_opt e = Inr () \<and> atom_or_null e2 \<and> (e2 = None \<longleftrightarrow> e = None) \<and> (\<forall>b. e2 = Some b \<longrightarrow> awt E gw b ty)"
proof (cases e)
  case (Some a)
  with subst_fold_atom_awt [OF _ assms(3) assms(2), of a fld] assms(1) show ?thesis
    by (auto simp: subst_fold_opt_def atomR_opt_def atomR_def)
qed (auto simp: subst_fold_opt_def atomR_opt_def)

lemma tcCAS_iff:
  "tcCAS E gw c = Inr () \<longleftrightarrow>
     (cas_oldHi c = IRTemp_INVALID \<and> cas_expdHi c = None \<and> cas_dataHi c = None
      \<or> cas_oldHi c \<noteq> IRTemp_INVALID \<and> cas_expdHi c \<noteq> None \<and> cas_dataHi c \<noteq> None)
   \<and> tcExpr E gw (cas_addr c) = Inr () \<and> typeOfIRExpr E (cas_addr c) = Inr gw
   \<and> (\<exists>ty. (ty = Ity_I8 \<or> ty = Ity_I16 \<or> ty = Ity_I32 \<or> gw = Ity_I64 \<and> ty = Ity_I64)
        \<and> typeOfIRExpr E (cas_expdLo c) = Inr ty \<and> typeOfIRExpr E (cas_dataLo c) = Inr ty \<and> typeOfIRTemp E (cas_oldLo c) = Inr ty
        \<and> (cas_oldHi c \<noteq> IRTemp_INVALID \<longrightarrow> typeOfIRTemp E (cas_oldHi c) = Inr ty
           \<and> (\<forall>e. cas_expdHi c = Some e \<longrightarrow> typeOfIRExpr E e = Inr ty) \<and> (\<forall>e. cas_dataHi c = Some e \<longrightarrow> typeOfIRExpr E e = Inr ty)))"
  by (cases "cas_expdHi c"; cases "cas_dataHi c") (auto simp: tcCAS_def bad_cas_def res_iff split: if_splits)

lemma subst_CAS_total:
  assumes "stmt_ok E gw (Some (Ist_CAS c))" "env_wt E gw env"
  shows "\<exists>st2. subst_CAS fld env c = Inr st2 \<and> good_stmt E gw st2"
proof -
  have tc: "tcCAS E gw c = Inr ()" and fl: "isIRAtom (cas_addr c)" "atom_or_null (cas_expdHi c)" "isIRAtom (cas_expdLo c)"
      "atom_or_null (cas_dataHi c)" "isIRAtom (cas_dataLo c)"
    using assms(1) by (auto simp: stmt_ok_def)
  note t = tc [unfolded tcCAS_iff]
  from t obtain ty where kind: "ty = Ity_I8 \<or> ty = Ity_I16 \<or> ty = Ity_I32 \<or> gw = Ity_I64 \<and> ty = Ity_I64"
      and lo: "typeOfIRExpr E (cas_expdLo c) = Inr ty" "typeOfIRExpr E (cas_dataLo c) = Inr ty" "typeOfIRTemp E (cas_oldLo c) = Inr ty"
      and up: "cas_oldHi c \<noteq> IRTemp_INVALID \<longrightarrow> typeOfIRTemp E (cas_oldHi c) = Inr ty
           \<and> (\<forall>e. cas_expdHi c = Some e \<longrightarrow> typeOfIRExpr E e = Inr ty) \<and> (\<forall>e. cas_dataHi c = Some e \<longrightarrow> typeOfIRExpr E e = Inr ty)"
    by blast
  have hi_iff: "cas_oldHi c = IRTemp_INVALID \<and> cas_expdHi c = None \<and> cas_dataHi c = None
      \<or> cas_oldHi c \<noteq> IRTemp_INVALID \<and> cas_expdHi c \<noteq> None \<and> cas_dataHi c \<noteq> None"
    and addr: "tcExpr E gw (cas_addr c) = Inr ()" "typeOfIRExpr E (cas_addr c) = Inr gw"
    using t by blast+
  have ne: "ty \<noteq> Ity_I1" using kind by auto
  have his: "cas_expdHi c = Some e \<Longrightarrow> typeOfIRExpr E e = Inr ty" "cas_dataHi c = Some e \<Longrightarrow> typeOfIRExpr E e = Inr ty" for e
    using up hi_iff by auto
  have w: "awt E gw (cas_addr c) gw" "awt E gw (cas_expdLo c) ty" "awt E gw (cas_dataLo c) ty"
    using addr fl lo ne by (simp_all add: awt_def [of _ _ "cas_addr c"] atom_awt)
  have wo: "cas_expdHi c = Some e \<Longrightarrow> awt E gw e ty" "cas_dataHi c = Some e \<Longrightarrow> awt E gw e ty" for e
    using fl(2,4) his ne by (auto intro!: atom_awt)
  obtain a lo dlo where b: "subst_fold fld env (cas_addr c) = Inr a" "isIRAtom a" "awt E gw a gw" "subst_fold fld env (cas_expdLo c) = Inr lo"
      "isIRAtom lo" "awt E gw lo ty" "subst_fold fld env (cas_dataLo c) = Inr dlo" "isIRAtom dlo" "awt E gw dlo ty"
    using subst_fold_atom_awt [OF fl(1) w(1) assms(2)] subst_fold_atom_awt [OF fl(3) w(2) assms(2)] subst_fold_atom_awt [OF fl(5) w(3) assms(2)] by blast
  obtain hi where hi: "subst_fold_opt fld env (cas_expdHi c) = Inr hi" "atomR_opt (cas_expdHi c) = Inr ()" "atom_or_null hi"
      "hi = None \<longleftrightarrow> cas_expdHi c = None" "\<And>b. hi = Some b \<Longrightarrow> awt E gw b ty"
    using subst_opt_wt [OF fl(2) assms(2) wo(1)] by blast
  obtain dhi where dhi: "subst_fold_opt fld env (cas_dataHi c) = Inr dhi" "atomR_opt (cas_dataHi c) = Inr ()" "atom_or_null dhi"
      "dhi = None \<longleftrightarrow> cas_dataHi c = None" "\<And>b. dhi = Some b \<Longrightarrow> awt E gw b ty"
    using subst_opt_wt [OF fl(4) assms(2) wo(2)] by blast
  let ?c = "mkIRCAS (cas_oldHi c) (cas_oldLo c) (cas_end c) a hi lo dhi dlo"
  have "tcCAS E gw ?c = Inr ()"
    unfolding tcCAS_iff mkIRCAS_def
  proof (simp, intro conjI exI)
    show "cas_oldHi c = IRTemp_INVALID \<and> hi = None \<and> dhi = None \<or> cas_oldHi c \<noteq> IRTemp_INVALID \<and> (\<exists>y. hi = Some y) \<and> (\<exists>y. dhi = Some y)"
      using hi_iff hi(4) dhi(4) by auto
  qed (use kind lo up b hi(5) dhi(5) in \<open>auto simp: awt_def\<close>)
  then have "good_stmt E gw (Ist_CAS ?c)"
    using b hi(3) dhi(3) by (auto simp: good_stmt_def stmt_ok_def mkIRCAS_def)
  with b hi(1,2) dhi(1,2) fl show ?thesis by (auto simp: subst_CAS_def Let_def atomR_def)
qed

text \<open>The arguments of a call.\<close>

definition same_arg :: "IRTypeEnv \<Rightarrow> IRExpr \<Rightarrow> IRExpr \<Rightarrow> bool" where
  "same_arg E a b \<longleftrightarrow> b = a \<and> is_IRExpr_VECRET_or_GSPTR a \<or> isIRAtom a \<and> isIRAtom b \<and> typeOfIRExpr E b = typeOfIRExpr E a"

lemma tcDirtyArgs_same: "list_all2 (same_arg E) as bs \<Longrightarrow> tcDirtyArgs E ret i v g bs = tcDirtyArgs E ret i v g as"
proof (induction as bs arbitrary: i v g rule: list_all2_induct)
  case (Cons a as b bs)
  then show ?case by (cases a; cases b) (auto simp: same_arg_def intro!: bindR_cong)
qed simp

lemma tcDirtyArgs_typed:
  assumes "tcDirtyArgs E ret i v g as = Inr n" "a \<in> set as" "isIRAtom a"
  shows "\<exists>ty. typeOfIRExpr E a = Inr ty \<and> ty \<noteq> Ity_I1"
  using assms
proof (induction as arbitrary: i v g)
  case (Cons x xs)
  then show ?case by (cases "a = x"; cases a) (auto simp: res_iff)
qed simp

lemma subst_dirty_args:
  assumes "\<forall>a\<in>set as. isIRAtom_or_VECRET_or_GSPTR a \<and> (isIRAtom a \<longrightarrow> (\<exists>u. typeOfIRExpr E a = Inr u \<and> u \<noteq> Ity_I1))" "env_wt E gw env"
  shows "\<exists>bs. mapR (\<lambda>arg. if is_IRExpr_VECRET_or_GSPTR arg then Inr arg else bindR (atomR arg) (\<lambda>_. subst_fold fld env arg)) as = Inr bs
    \<and> list_all2 (same_arg E) as bs"
  using assms(1)
proof (induction as)
  case (Cons a as)
  have "\<exists>b. (if is_IRExpr_VECRET_or_GSPTR a then Inr a else bindR (atomR a) (\<lambda>_. subst_fold fld env a)) = Inr b \<and> same_arg E a b"
  proof (cases "isIRAtom a")
    case True
    then obtain u where "typeOfIRExpr E a = Inr u" "u \<noteq> Ity_I1" using Cons.prems by auto
    with subst_fold_atom_awt [OF True atom_awt [OF True this] assms(2)] True show ?thesis
      by (auto simp: atomR_def atom_not_special same_arg_def awt_def)
  next
    case False
    then have "is_IRExpr_VECRET_or_GSPTR a" using Cons.prems by (auto simp: isIRAtom_or_VECRET_or_GSPTR_def)
    then show ?thesis by (simp add: same_arg_def)
  qed
  with Cons show ?case by auto
qed simp

lemma tcDirty_iff:
  "tcDirty E gw d = Inr () \<longleftrightarrow>
     (\<exists>cee args g ret n. d_cee d = Some cee \<and> saneIRCallee cee \<and> d_args d = Some args \<and> cee_regparms cee \<le> int (length args)
       \<and> (d_mFx d = Ifx_None \<longrightarrow> d_mAddr d = None \<and> d_mSize d = 0) \<and> (d_mFx d \<noteq> Ifx_None \<longrightarrow> d_mAddr d \<noteq> None \<and> d_mSize d \<noteq> 0)
       \<and> 0 \<le> d_nFxState d \<and> d_nFxState d \<le> VEX_N_FXSTATE \<and> forR tcFxState (take (nat (d_nFxState d)) (d_fxState d)) = Inr ()
       \<and> d_guard d = Some g \<and> tcExpr E gw g = Inr () \<and> typeOfIRExpr E g = Inr Ity_I1
       \<and> (if d_tmp d \<noteq> IRTemp_INVALID then typeOfIRTemp E (d_tmp d) = Inr ret \<and> ret \<noteq> Ity_I1 else ret = Ity_INVALID)
       \<and> tcDirtyArgs E ret 0 0 0 args = Inr n \<and> \<not> n > 1 \<and> \<not> (d_nFxState d = 0 \<and> n \<noteq> 0))"
proof (cases "d_cee d"; cases "d_args d"; cases "d_guard d")
  fix cee args g assume e: "d_cee d = Some cee" "d_args d = Some args" "d_guard d = Some g"
  show ?thesis
    unfolding tcDirty_def e by (cases "d_tmp d = IRTemp_INVALID") (auto simp: bad_dirty_def res_iff not_less)
qed (auto simp: tcDirty_def bad_dirty_def res_iff)

lemma subst_Dirty_total:
  assumes "stmt_ok E gw (Some (Ist_Dirty d))" "env_wt E gw env" "stmt_temps (Ist_Dirty d) \<subseteq> {..<types_used E}"
  shows "\<exists>st2. subst_Dirty fld env d = Inr st2 \<and> good_stmt E gw st2"
proof -
  have tc: "tcDirty E gw d = Inr ()" and fl: "isFlatIRStmt (Ist_Dirty d) = Inr True" using assms(1) by (auto simp: stmt_ok_def)
  from tc [unfolded tcDirty_iff] obtain cee args g ret n where t: "d_cee d = Some cee" "saneIRCallee cee" "d_args d = Some args"
      "cee_regparms cee \<le> int (length args)" "d_mFx d = Ifx_None \<longrightarrow> d_mAddr d = None \<and> d_mSize d = 0"
      "d_mFx d \<noteq> Ifx_None \<longrightarrow> d_mAddr d \<noteq> None \<and> d_mSize d \<noteq> 0"
      "0 \<le> d_nFxState d" "d_nFxState d \<le> VEX_N_FXSTATE" "forR tcFxState (take (nat (d_nFxState d)) (d_fxState d)) = Inr ()"
      "d_guard d = Some g" "tcExpr E gw g = Inr ()" "typeOfIRExpr E g = Inr Ity_I1"
      "if d_tmp d \<noteq> IRTemp_INVALID then typeOfIRTemp E (d_tmp d) = Inr ret \<and> ret \<noteq> Ity_I1 else ret = Ity_INVALID"
      "tcDirtyArgs E ret 0 0 0 args = Inr n" "\<not> n > 1" "\<not> (d_nFxState d = 0 \<and> n \<noteq> 0)"
    by blast
  have at: "isIRAtom g" "\<And>a. d_mFx d \<noteq> Ifx_None \<Longrightarrow> d_mAddr d = Some a \<Longrightarrow> isIRAtom a" "\<forall>a\<in>set args. isIRAtom_or_VECRET_or_GSPTR a"
    using fl t(3,10) by (auto simp: res_iff list_all_iff split: if_splits)
  obtain g2 where g2: "subst_fold fld env g = Inr g2" "isIRAtom g2" "awt E gw g2 Ity_I1"
    using subst_fold_atom_awt [OF at(1) _ assms(2), of Ity_I1 fld] t(11,12) by (auto simp: awt_def)
  obtain as where as: "mapR (\<lambda>arg. if is_IRExpr_VECRET_or_GSPTR arg then Inr arg else bindR (atomR arg) (\<lambda>_. subst_fold fld env arg)) args = Inr as"
      "list_all2 (same_arg E) args as"
    using subst_dirty_args [of args E gw env fld] tcDirtyArgs_typed [OF t(14)] at(3) assms(2) by blast
  obtain m where m: "(if d_mFx d \<noteq> Ifx_None then bindR (optR NullDeref (d_mAddr d)) (\<lambda>mAddr. bindR (atomR mAddr) (\<lambda>_.
        bindR (subst_fold fld env mAddr) (\<lambda>mAddr. Inr (Some mAddr)))) else Inr (d_mAddr d)) = Inr m"
      "d_mFx d = Ifx_None \<longrightarrow> m = None" "d_mFx d \<noteq> Ifx_None \<longrightarrow> (\<exists>a. m = Some a \<and> isIRAtom a)"
  proof (cases "d_mFx d = Ifx_None")
    case False
    then obtain a where a: "d_mAddr d = Some a" "isIRAtom a" "temps_of a \<subseteq> {..<length env}"
      using t(6) at(2) assms(2,3) by (auto simp: stmt_temps_def env_wt_def)
    from subst_fold_atom_total [OF a(2,3), of fld] obtain b where "subst_fold fld env a = Inr b" "isIRAtom b" by blast
    with a False that [of "Some b"] show thesis by (auto simp: atomR_def)
  qed (use t(5) that in auto)
  let ?d = "d\<lparr>d_args := Some as, d_mAddr := m, d_guard := Some g2\<rparr>"
  have "tcDirty E gw ?d = Inr ()"
    unfolding tcDirty_iff
  proof (intro exI conjI)
    show "tcDirtyArgs E ret 0 0 0 as = Inr n" using tcDirtyArgs_same [OF as(2)] t(14) by simp
    show "cee_regparms cee \<le> int (length as)" using t(4) list_all2_lengthD [OF as(2)] by simp
    show "tcExpr E gw g2 = Inr ()" "typeOfIRExpr E g2 = Inr Ity_I1" using g2(3) by (simp_all add: awt_def)
    show "d_mFx ?d \<noteq> Ifx_None \<longrightarrow> d_mAddr ?d \<noteq> None \<and> d_mSize ?d \<noteq> 0" using m(3) t(6) by auto
  qed (use t m(2) in simp_all)
  moreover have "isFlatIRStmt (Ist_Dirty ?d) = Inr True"
  proof -
    have "list_all isIRAtom_or_VECRET_or_GSPTR as"
      using as(2) at(3)
      by (auto simp: list_all2_conv_all_nth list_all_length same_arg_def isIRAtom_or_VECRET_or_GSPTR_def)
    then show ?thesis using g2(2) m(2,3) by (cases "d_mFx d = Ifx_None") auto
  qed
  ultimately have "good_stmt E gw (Ist_Dirty ?d)" by (simp add: good_stmt_def stmt_ok_def)
  with g2(1) as(1) m(1) t(3,10) at(1) show ?thesis by (auto simp: subst_Dirty_def Let_def atomR_def)
qed

lemma subst_Exit_total:
  assumes "stmt_ok E gw (Some (Ist_Exit g jk dst off))" "env_wt E gw env"
  shows "\<exists>st2. subst_and_maybe_fold_Stmt fld env (Ist_Exit g jk dst off) = Inr st2 \<and> good_stmt E gw st2"
proof -
  have w: "isIRAtom g" "awt E gw g Ity_I1"
    using assms(1) by (auto simp: stmt_ok_def awt_def res_iff atom_flat)
  obtain g2 where g2: "subst_fold fld env g = Inr g2" "isIRAtom g2" "awt E gw g2 Ity_I1"
    using subst_fold_atom_awt [OF w assms(2)] by blast
  obtain k where "const_guard g2 = Inr k" using const_guard_total [OF g2(3)] by blast
  with g2 w(1) assms(1) show ?thesis by (auto simp: atomR_def good_stmt_def stmt_ok_def awt_def res_iff)
qed

lemma subst_LLSC_total:
  assumes "stmt_ok E gw (Some (Ist_LLSC en res addr sd))" "env_wt E gw env" "gw \<noteq> Ity_I1"
  shows "\<exists>st2. subst_and_maybe_fold_Stmt fld env (Ist_LLSC en res addr sd) = Inr st2 \<and> good_stmt E gw st2"
proof -
  have a: "isIRAtom addr" "atom_or_null sd" "typeOfIRExpr E addr = Inr gw"
    using assms(1) by (auto simp: stmt_ok_def res_iff)
  obtain ty where ty: "ty \<noteq> Ity_I1" "\<And>e. sd = Some e \<Longrightarrow> typeOfIRExpr E e = Inr ty"
    using assms(1) by (cases sd) (auto simp: stmt_ok_def res_iff)
  obtain b where b: "subst_fold fld env addr = Inr b" "isIRAtom b" "awt E gw b gw"
    using subst_fold_atom_awt [OF a(1) atom_awt [OF a(1,3) assms(3)] assms(2)] by blast
  have "awt E gw e ty" if "sd = Some e" for e using a(2) ty that by (auto intro: atom_awt)
  then obtain sd2 where s: "subst_fold_opt fld env sd = Inr sd2" "atomR_opt sd = Inr ()" "atom_or_null sd2" "sd2 = None \<longleftrightarrow> sd = None"
      "\<And>b. sd2 = Some b \<Longrightarrow> awt E gw b ty"
    using subst_opt_wt [OF a(2) assms(2), of ty fld] by blast
  have "good_stmt E gw (Ist_LLSC en res b sd2)"
    using assms(1) b(2,3) s(3-5) ty(2) by (cases sd; cases sd2) (auto simp: good_stmt_def stmt_ok_def awt_def res_iff)
  with b(1) s(1,2) a(1) show ?thesis by (auto simp: atomR_def)
qed

lemma subst_Stmt_total:
  assumes "stmt_ok E gw (Some st)" "plain_stmt st" "env_wt E gw env" "copies_direct env" "stmt_temps st \<subseteq> {..<types_used E}" "gw \<noteq> Ity_I1"
  shows "\<exists>st2. subst_and_maybe_fold_Stmt fld env st = Inr st2 \<and> good_stmt E gw st2"
proof (cases st)
  case (Ist_AbiHint base len nia)
  with assms(1,2,6) have w: "isIRAtom base" "isIRAtom nia" "awt E gw base gw" "awt E gw nia gw"
    by (auto simp: stmt_ok_def res_iff intro!: atom_awt)
  with subst_fold_atom_awt [OF w(1,3) assms(3), of fld] subst_fold_atom_awt [OF w(2,4) assms(3), of fld] Ist_AbiHint show ?thesis
    by (auto simp: atomR_def good_stmt_def stmt_ok_def awt_def)
next
  case (Ist_Put off e)
  with assms(1,2) obtain ty where w: "isIRAtom e" "awt E gw e ty" "ty \<noteq> Ity_I1"
    by (auto simp: stmt_ok_def awt_def res_iff atom_flat)
  with subst_fold_atom_awt [OF w(1,2) assms(3), of fld] Ist_Put show ?thesis
    by (auto simp: atomR_def good_stmt_def stmt_ok_def awt_def)
next
  case (Ist_PutI p)
  with assms(1,2) have w: "isIRAtom (puti_ix p)" "isIRAtom (puti_data p)" "awt E gw (puti_ix p) Ity_I32" "awt E gw (puti_data p) (ra_elemTy (puti_descr p))"
      "ra_elemTy (puti_descr p) \<noteq> Ity_I1" "saneIRRegArray (puti_descr p)"
    by (auto simp: stmt_ok_def awt_def res_iff atom_flat)
  with subst_fold_atom_awt [OF w(1,3) assms(3), of fld] subst_fold_atom_awt [OF w(2,4) assms(3), of fld] Ist_PutI show ?thesis
    by (auto simp: atomR_def good_stmt_def stmt_ok_def awt_def mkIRPutI_def)
next
  case (Ist_WrTmp t e)
  with assms(1,2) have w: "wt E gw e (types E ! t)" "t < types_used E"
    by (auto simp: stmt_ok_def wt_def res_iff typeOfIRTemp_def)
  with subst_fold_wt [OF w(1) assms(3,4), of fld] Ist_WrTmp show ?thesis
    by (auto simp: good_stmt_def stmt_ok_def wt_def typeOfIRTemp_def)
next
  case (Ist_Store en addr e)
  with assms(1,2) obtain ty where w: "isIRAtom addr" "isIRAtom e" "awt E gw addr gw" "awt E gw e ty" "ty \<noteq> Ity_I1"
    by (auto simp: stmt_ok_def awt_def res_iff atom_flat)
  with subst_fold_atom_awt [OF w(1,3) assms(3), of fld] subst_fold_atom_awt [OF w(2,4) assms(3), of fld] Ist_Store show ?thesis
    by (auto simp: atomR_def good_stmt_def stmt_ok_def awt_def)
next
  case (Ist_StoreG sg)
  with subst_StoreG_total assms show ?thesis by simp
next
  case (Ist_LoadG lg)
  with subst_LoadG_total assms show ?thesis by simp
next
  case (Ist_CAS c)
  with subst_CAS_total assms show ?thesis by simp
next
  case (Ist_Dirty d)
  with subst_Dirty_total assms show ?thesis by simp
next
  case (Ist_LLSC en res addr sd)
  with subst_LLSC_total assms show ?thesis by blast
next
  case (Ist_Exit g jk dst off)
  with subst_Exit_total assms show ?thesis by blast
qed (use assms(1) in \<open>auto simp: good_stmt_def stmt_ok_def\<close>)

section \<open>Uses and definitions\<close>

lemma useBeforeDef_atom:
  assumes "isIRAtom a" "temps_of a \<subseteq> defined dc" "length dc = types_used E"
  shows "useBeforeDef_Expr E dc a = Inr ()"
  using assms by (cases a) (auto simp: useBeforeDef_Temp_def defined_def)

lemma useBeforeDef_flat:
  assumes "isFlatRHS e = Inr True" "tcExpr E gw e = Inr ()" "temps_of e \<subseteq> defined dc" "length dc = types_used E"
  shows "useBeforeDef_Expr E dc e = Inr ()"
proof (cases e)
  case (Iex_CCall cee ret args)
  with assms have "\<forall>a\<in>set args. \<not> is_IRExpr_VECRET_or_GSPTR a \<and> useBeforeDef_Expr E dc a = Inr ()"
    by (auto simp: list_all_iff atom_not_special intro!: useBeforeDef_atom)
  with Iex_CCall show ?thesis by (simp add: res_iff)
qed (use assms(1,3,4) in \<open>auto simp: useBeforeDef_atom useBeforeDef_Temp_def defined_def\<close>, use assms(2) in auto)

text \<open>The temporaries that the checker looks at; not the guard of a call.\<close>

fun checked_args :: "IRStmt \<Rightarrow> IRExpr list" where
  "checked_args (Ist_Dirty d) = (if d_mFx d \<noteq> Ifx_None then opt_list (d_mAddr d) else []) @ concat (opt_list (d_args d))"
| "checked_args st = stmt_args st"

definition checked_temps :: "IRStmt \<Rightarrow> IRTemp set" where
  "checked_temps st = (\<Union>e\<in>set (checked_args st). temps_of e)"

lemma checked_temps_eq: "(\<And>d. st \<noteq> Ist_Dirty d) \<Longrightarrow> checked_temps st = stmt_temps st"
  by (cases st) (auto simp: checked_temps_def stmt_temps_def)

lemma checked_temps_sub: "checked_temps st \<subseteq> stmt_temps st"
  by (cases st) (auto simp: checked_temps_def stmt_temps_def)

lemma useBeforeDef_opt_atom:
  "atom_or_null e \<Longrightarrow> (\<Union>x\<in>set (opt_list e). temps_of x) \<subseteq> defined dc \<Longrightarrow> length dc = types_used E \<Longrightarrow> useBeforeDef_opt E dc e = Inr ()"
  by (cases e) (auto simp: useBeforeDef_opt_def useBeforeDef_atom)

lemma useBeforeDef_checked:
  assumes "useBeforeDef_Stmt E dc st = Inr ()" "length dc = types_used E"
  shows "checked_temps st \<subseteq> defined dc"
proof (cases st)
  case (Ist_Dirty d)
  with assms(1) obtain args where a: "d_args d = Some args" "\<forall>a\<in>set args. is_IRExpr_VECRET_or_GSPTR a \<or> useBeforeDef_Expr E dc a = Inr ()"
      "d_mFx d \<noteq> Ifx_None \<longrightarrow> (\<exists>m. d_mAddr d = Some m \<and> useBeforeDef_Expr E dc m = Inr ())"
    by (auto simp: res_iff split: if_splits)
  have "temps_of a \<subseteq> defined dc" if "a \<in> set args" for a
    using a(2) that useBeforeDef_defined [OF _ assms(2)] special_temps by blast
  moreover have "temps_of m \<subseteq> defined dc" if "d_mFx d \<noteq> Ifx_None" "d_mAddr d = Some m" for m
    using a(3) that useBeforeDef_defined [OF _ assms(2), of m] by auto
  ultimately show ?thesis using Ist_Dirty a(1) by (cases "d_mAddr d") (auto simp: checked_temps_def)
qed (use assms useBeforeDef_stmt_defined in \<open>auto simp: checked_temps_eq\<close>)

lemma useBeforeDef_total:
  assumes "stmt_ok E gw (Some st)" "checked_temps st \<subseteq> defined dc" "length dc = types_used E"
  shows "useBeforeDef_Stmt E dc st = Inr ()"
proof (cases st)
  case (Ist_Dirty d)
  have tc: "tcDirty E gw d = Inr ()" and fl: "isFlatIRStmt (Ist_Dirty d) = Inr True" using assms(1) Ist_Dirty by (auto simp: stmt_ok_def)
  then obtain args where a: "d_args d = Some args" "\<forall>a\<in>set args. isIRAtom_or_VECRET_or_GSPTR a" "d_mFx d \<noteq> Ifx_None \<longrightarrow> d_mAddr d \<noteq> None"
      "atom_or_null (d_mAddr d)"
    unfolding tcDirty_iff by (auto simp: res_iff list_all_iff split: if_splits)
  have "is_IRExpr_VECRET_or_GSPTR a \<or> useBeforeDef_Expr E dc a = Inr ()" if "a \<in> set args" for a
  proof -
    have "temps_of a \<subseteq> defined dc" using that a(1) assms(2) Ist_Dirty by (auto simp: checked_temps_def)
    with that a(2) assms(3) show ?thesis using useBeforeDef_atom [of a dc E] by (auto simp: isIRAtom_or_VECRET_or_GSPTR_def split: if_splits)
  qed
  moreover have "\<exists>m. d_mAddr d = Some m \<and> useBeforeDef_Expr E dc m = Inr ()" if "d_mFx d \<noteq> Ifx_None"
    using that a(3,4) assms(2,3) Ist_Dirty by (auto simp: checked_temps_def intro!: useBeforeDef_atom)
  ultimately show ?thesis using Ist_Dirty a(1) by (auto simp: res_iff)
qed (use assms in \<open>auto simp: checked_temps_def stmt_ok_def useBeforeDef_atom useBeforeDef_opt_atom res_iff intro!: useBeforeDef_flat\<close>)

lemma assignedOnce_total:
  assumes "t < n" "length dc = n" "t \<notin> defined dc"
  shows "\<exists>dc1. assignedOnce_Temp t dc n a b = Inr dc1"
  using assms by (auto simp: assignedOnce_Temp_def defined_def)

lemma assignedOnce_Stmt_total:
  assumes "set (stmt_defs st) \<subseteq> {..<n}" "length dc = n" "set (stmt_defs st) \<inter> defined dc = {}" "distinct (stmt_defs st)"
  shows "\<exists>dc1. assignedOnce_Stmt st dc n = Inr dc1"
proof (cases st)
  case (Ist_CAS c)
  show ?thesis
  proof (cases "cas_oldHi c = IRTemp_INVALID")
    case True
    with Ist_CAS assms assignedOnce_total [of "cas_oldLo c" n dc] show ?thesis by simp
  next
    case False
    have hi: "cas_oldHi c < n" "cas_oldHi c \<notin> defined dc" and lo: "cas_oldLo c < n" "cas_oldLo c \<notin> insert (cas_oldHi c) (defined dc)"
      using assms False Ist_CAS by auto
    obtain dcm where m: "assignedOnce_Temp (cas_oldHi c) dc n ''IRStmt.CAS: destination tmpHi is out of range''
          ''IRStmt.CAS: destination tmpHi is assigned more than once'' = Inr dcm"
      using assignedOnce_total [OF hi(1) assms(2) hi(2)] by blast
    with assignedOnce_defined [OF m assms(2)] assignedOnce_total [OF lo(1), of dcm] lo False Ist_CAS show ?thesis by simp
  qed
qed (use assms assignedOnce_total in auto)

lemma assignedOnce_distinct: "assignedOnce_Stmt st dc n = Inr dc1 \<Longrightarrow> length dc = n \<Longrightarrow> distinct (stmt_defs st)"
proof (cases st)
  case (Ist_CAS c)
  assume a: "assignedOnce_Stmt st dc n = Inr dc1" "length dc = n"
  show ?thesis
  proof (cases "cas_oldHi c = IRTemp_INVALID")
    case False
    with a Ist_CAS obtain dcm where m: "assignedOnce_Temp (cas_oldHi c) dc n ''IRStmt.CAS: destination tmpHi is out of range''
          ''IRStmt.CAS: destination tmpHi is assigned more than once'' = Inr dcm"
        "assignedOnce_Temp (cas_oldLo c) dcm n ''IRStmt.CAS: destination tmpLo is out of range''
          ''IRStmt.CAS: destination tmpLo is assigned more than once'' = Inr dc1"
      by (auto simp: res_iff)
    with assignedOnce_defined [OF m(1) a(2)] assignedOnce_defined(2) [OF m(2)] Ist_CAS show ?thesis by auto
  qed (use Ist_CAS in simp)
qed auto

text \<open>A new statement passes the checker when its uses are defined and its definitions are not.\<close>

lemma chunk_ok_total:
  assumes "stmt_ok E gw (Some st)" "checked_temps st \<subseteq> defined dc" "length dc = types_used E" "set (stmt_defs st) \<subseteq> {..<types_used E}"
    and "set (stmt_defs st) \<inter> defined dc = {}" "distinct (stmt_defs st)"
  shows "\<exists>dc1. chunk_ok E gw dc [Some st] dc1 \<and> defined dc1 = set (stmt_defs st) \<union> defined dc \<and> length dc1 = types_used E"
proof -
  obtain dc1 where d: "assignedOnce_Stmt st dc (types_used E) = Inr dc1" using assignedOnce_Stmt_total [OF assms(4,3,5,6)] by blast
  with assignedOnce_stmt_defined [OF d assms(3)] useBeforeDef_total [OF assms(1-3)] assms(1) show ?thesis
    by (auto simp: countStmt_def)
qed

lemma subst_checked:
  assumes "subst_and_maybe_fold_Stmt fld env st = Inr st2" "sane_step E gw dc st dc1" "env_wf dc env"
  shows "checked_temps st2 \<subseteq> defined dc - prop_temps env"
proof -
  note st = assms(2) [unfolded sane_step_def]
  have ch: "checked_temps st \<subseteq> defined dc" using useBeforeDef_checked [of E dc st] st by blast
  show ?thesis
  proof (cases "\<exists>d. st = Ist_Dirty d")
    case True
    then obtain d where Ist_Dirty: "st = Ist_Dirty d" by blast
    with assms(1) have "subst_Dirty fld env d = Inr st2" by simp
    then obtain args g args2 m2 g2 where d: "d_args d = Some args"
      "mapR (\<lambda>arg. if is_IRExpr_VECRET_or_GSPTR arg then Inr arg else bindR (atomR arg) (\<lambda>_. subst_fold fld env arg)) args = Inr args2"
      "st2 = Ist_Dirty (d\<lparr>d_args := Some args2, d_mAddr := m2, d_guard := Some g2\<rparr>)"
      "if d_mFx d = Ifx_None then m2 = d_mAddr d
       else \<exists>m n. d_mAddr d = Some m \<and> isIRAtom m \<and> subst_fold fld env m = Inr n \<and> m2 = Some n"
      by (rule subst_Dirty_cases)
    have "(\<Union>a\<in>set args2. temps_of a) \<subseteq> defined dc - prop_temps env"
    proof -
      have "(\<Union>a\<in>set args. temps_of a) \<subseteq> defined dc" using ch Ist_Dirty d(1) by (auto simp: checked_temps_def)
      with subst_args [OF d(2) assms(3), of log_sem undefined undefined] show ?thesis by blast
    qed
    moreover have "temps_of n \<subseteq> defined dc - prop_temps env" if "d_mFx d \<noteq> Ifx_None" "m2 = Some n" for n
    proof -
      from that d(4) obtain m where m: "d_mAddr d = Some m" "isIRAtom m" "subst_fold fld env m = Inr n" by auto
      then have "temps_of m \<subseteq> defined dc" using ch Ist_Dirty that(1) by (simp add: checked_temps_def)
      with subst_fold_atom [OF m(3,2) assms(3), of log_sem undefined undefined] show ?thesis by blast
    qed
    ultimately show ?thesis using d(3) by (cases m2) (auto simp: checked_temps_def)
  next
    case False
    then have "stmt_temps st \<subseteq> defined dc" using ch checked_temps_eq [of st] by blast
    with subst_Stmt_static(1) [OF assms(1,3) sane_step_facts(2) [OF assms(2)]] checked_temps_sub [of st2] show ?thesis by blast
  qed
qed

section \<open>The loop keeps an invariant\<close>

definition fixup_at :: "IRStmt option list \<Rightarrow> nat \<Rightarrow> bool" where
  "fixup_at sts ix \<longleftrightarrow> Suc ix < length sts \<and> sts ! ix = Some Ist_NoOp
     \<and> (\<exists>lg. sts ! Suc ix = Some (Ist_LoadG lg) \<and> lg_guard lg = Iex_Const (Ico_U1 1))"

definition out_ok :: "IRTypeEnv \<Rightarrow> IRType \<Rightarrow> IRTemp set \<Rightarrow> IRSB \<Rightarrow> nat list \<Rightarrow> bool" where
  "out_ok E gw D out fx \<longleftrightarrow> wf_sb out \<and> types (tyenv out) = types E \<and> length fx \<le> N_FIXUPS \<and> distinct fx \<and> (\<forall>ix\<in>set fx. fixup_at (stmts out) ix)
     \<and> (\<exists>dc. chunk_ok E gw (replicate (types_used E) 0) (stmts out) dc \<and> defined dc = D)"

definition cprop_inv :: "IRTypeEnv \<Rightarrow> IRType \<Rightarrow> nat list \<Rightarrow> cprop_state \<Rightarrow> bool" where
  "cprop_inv E gw dc = (\<lambda>(out, env, fx). env_wf dc env \<and> env_wt E gw env \<and> out_ok E gw (defined dc - prop_temps env) out fx)"

lemma fixup_at_append: "fixup_at sts ix \<Longrightarrow> fixup_at (sts @ xs) ix"
  by (auto simp: fixup_at_def nth_append)

definition addable :: "IRTypeEnv \<Rightarrow> IRType \<Rightarrow> IRTemp set \<Rightarrow> IRStmt \<Rightarrow> bool" where
  "addable E gw D st \<longleftrightarrow> good_stmt E gw st \<and> checked_temps st \<subseteq> D \<and> set (stmt_defs st) \<subseteq> {..<types_used E}
     \<and> set (stmt_defs st) \<inter> D = {} \<and> distinct (stmt_defs st)"

lemma out_push:
  assumes "out_ok E gw D out fx" "addable E gw D st"
  shows "out_ok E gw (set (stmt_defs st) \<union> D) (push_stmt out (Some st)) fx"
proof -
  obtain dc where dc: "chunk_ok E gw (replicate (types_used E) 0) (stmts out) dc" "defined dc = D" using assms(1) by (auto simp: out_ok_def)
  have "length dc = types_used E" using chunk_ok_length [OF dc(1)] by simp
  then obtain dc1 where dc1: "chunk_ok E gw dc [Some st] dc1" "defined dc1 = set (stmt_defs st) \<union> defined dc"
    using chunk_ok_total [of E gw st dc] assms(2) dc(2) by (auto simp: addable_def good_stmt_def)
  then have "chunk_ok E gw (replicate (types_used E) 0) (stmts out @ [Some st]) dc1" using dc(1) unfolding chunk_ok_append by blast
  with assms(1) dc1(2) dc(2) show ?thesis by (auto simp: out_ok_def intro: fixup_at_append)
qed

lemma addable_NoOp [simp]: "addable E gw D Ist_NoOp"
  by (simp add: addable_def good_stmt_def stmt_ok_def checked_temps_def)

lemma out_fixup:
  assumes "out_ok E gw D out fx" "addable E gw D (Ist_LoadG lg)" "lg_guard lg = Iex_Const (Ico_U1 1)" "length fx < N_FIXUPS"
  shows "out_ok E gw (insert (lg_dst lg) D) (push_stmt (push_stmt out (Some Ist_NoOp)) (Some (Ist_LoadG lg))) (fx @ [stmts_used out])"
proof -
  have "out_ok E gw D (push_stmt out (Some Ist_NoOp)) fx" using out_push [OF assms(1) addable_NoOp] by simp
  from out_push [OF this assms(2)]
  have o: "out_ok E gw (insert (lg_dst lg) D) (push_stmt (push_stmt out (Some Ist_NoOp)) (Some (Ist_LoadG lg))) fx" by simp
  have "stmts_used out \<notin> set fx" using assms(1) by (auto simp: out_ok_def fixup_at_def)
  moreover have "fixup_at (stmts out @ [Some Ist_NoOp, Some (Ist_LoadG lg)]) (stmts_used out)"
    using assms(3) by (simp add: fixup_at_def nth_append)
  ultimately show ?thesis using o assms(4) by (auto simp: out_ok_def)
qed

lemma cprop_LoadG_total:
  assumes "out_ok E gw D out fx" "addable E gw D (Ist_LoadG lg)"
  shows "\<exists>out2 fx2. cprop_LoadG (out, env, fx) lg = Inr (out2, env, fx2) \<and> out_ok E gw (insert (lg_dst lg) D) out2 fx2"
proof -
  have wf: "wf_sb out" "length fx \<le> N_FIXUPS" using assms(1) by (auto simp: out_ok_def)
  show ?thesis
  proof (cases "\<exists>c. lg_guard lg = Iex_Const c")
    case True
    then have g: "lg_guard lg = Iex_Const (Ico_U1 1)" using assms(2) by (auto simp: addable_def good_stmt_def)
    with wf out_push [OF assms] out_fixup [OF assms g] show ?thesis
      by (cases "length fx < N_FIXUPS") (auto simp: cprop_LoadG_def con_U1_def addStmtToIRSB_ok)
  next
    case False
    with wf out_push [OF assms] show ?thesis by (cases "lg_guard lg") (auto simp: cprop_LoadG_def addStmtToIRSB_ok)
  qed
qed

text \<open>What the substituted statement is.\<close>

lemma subst_addable:
  assumes "sane_step E gw dc st dc1" "plain_stmt st" "env_wf dc env" "env_wt E gw env" "gw \<noteq> Ity_I1"
  shows "\<exists>st2. subst_and_maybe_fold_Stmt fld env st = Inr st2 \<and> addable E gw (defined dc - prop_temps env) st2 \<and> stmt_defs st2 = stmt_defs st"
proof -
  note f = sane_step_facts [OF assms(1)] and s = assms(1) [unfolded sane_step_def]
  obtain st2 where st2: "subst_and_maybe_fold_Stmt fld env st = Inr st2" "good_stmt E gw st2"
    using subst_Stmt_total [OF _ assms(2,4) env_wf_copies [OF assms(3)] f(8) assms(5)] s by blast
  have defs: "stmt_defs st2 = stmt_defs st" by (rule subst_Stmt_static(2) [OF st2(1) assms(3) f(2)])
  have "distinct (stmt_defs st)" using assignedOnce_distinct [of st dc "types_used E" dc1] s by blast
  with st2 defs subst_checked [OF st2(1) assms(1,3)] f(5,6) show ?thesis by (auto simp: addable_def)
qed

lemma prop_temps_defined: "env_wf dc env \<Longrightarrow> prop_temps env \<subseteq> defined dc"
  by (auto simp: prop_temps_def env_wf_def)

lemma bind_inv:
  assumes "sane_step E gw dc st dc1" "cprop_inv E gw dc (out, env, fx)" "subst_and_maybe_fold_Stmt fld env st = Inr (Ist_WrTmp t dat)"
    and "addable E gw (defined dc - prop_temps env) (Ist_WrTmp t dat)" "stmt_defs st = [t]"
  shows "\<exists>s2. cprop_WrTmp (out, env, fx) t dat = Inr s2 \<and> cprop_inv E gw dc1 s2"
proof -
  have i: "env_wf dc env" "env_wt E gw env" "out_ok E gw (defined dc - prop_temps env) out fx" using assms(2) by (auto simp: cprop_inv_def)
  have t: "t < length env" "t \<notin> defined dc" "length env = types_used E"
    using sane_step_facts(5,6) [OF assms(1)] assms(5) i(2) by (auto simp: env_wt_def)
  then have none: "env ! t = None" using i(1) by (auto simp: env_wf_def)
  note b = bind_static [OF assms(3,1) i(1) none]
  have wt: "env_wt E gw (env[t := Some dat])"
    using i(2) assms(4) by (auto simp: env_wt_def nth_list_update addable_def good_stmt_def)
  show ?thesis
  proof (cases "propagated dat")
    case True
    then have "defined dc1 - prop_temps (env[t := Some dat]) = defined dc - prop_temps env"
      using prop_temps_bind [OF t(1) none, of dat] b(5) t(2) by auto
    with True t none i b(6) wt show ?thesis by (auto simp: cprop_WrTmp_def env_get_def cprop_inv_def)
  next
    case False
    then have "defined dc1 - prop_temps (env[t := Some dat]) = insert t (defined dc - prop_temps env)"
      using prop_temps_bind [OF t(1) none, of dat] b(5) t(2) prop_temps_defined [OF i(1)] by auto
    moreover have "wf_sb out" using i(3) by (simp add: out_ok_def)
    ultimately show ?thesis using False t none i b(6) wt out_push [OF i(3) assms(4)]
      by (auto simp: cprop_WrTmp_def env_get_def cprop_inv_def addStmtToIRSB_ok)
  qed
qed

lemma cprop_step_total:
  assumes "sane_step E gw dc st dc1" "plain_stmt st" "cprop_inv E gw dc s" "gw \<noteq> Ity_I1"
  shows "\<exists>s2. cprop_step keep fld s (Some st) = Inr s2 \<and> cprop_inv E gw dc1 s2"
proof -
  obtain out env fx where s: "s = (out, env, fx)" by (cases s)
  note i = assms(3) [unfolded s cprop_inv_def, simplified]
  have f: "length dc1 = length dc" "defined dc1 = set (stmt_defs st) \<union> defined dc" "set (stmt_defs st) \<inter> defined dc = {}"
    using sane_step_facts [OF assms(1)] by auto
  obtain st2 where st2: "subst_and_maybe_fold_Stmt fld env st = Inr st2" "addable E gw (defined dc - prop_temps env) st2" "stmt_defs st2 = stmt_defs st"
    using subst_addable [OF assms(1,2) _ _ assms(4)] i by blast
  have wf1: "env_wf dc1 env" using env_wf_defs [of dc env dc1] i f by blast
  have D: "set (stmt_defs st) \<union> (defined dc - prop_temps env) = defined dc1 - prop_temps env"
    using f(2,3) prop_temps_defined i by blast
  have add: "\<exists>s2. bindR (addStmtToIRSB out (Some st2)) (\<lambda>out. Inr (out, env, fx)) = Inr s2 \<and> cprop_inv E gw dc1 s2"
    using out_push [of E gw _ out fx, OF _ st2(2)] i wf1 D st2(3) by (auto simp: cprop_inv_def out_ok_def addStmtToIRSB_ok)
  show ?thesis
  proof (cases "st = Ist_NoOp \<and> \<not> keep")
    case True
    then have "dc1 = dc" using assms(1) by (auto simp: sane_step_def)
    with True assms(3) show ?thesis by (simp add: cprop_step_def)
  next
    case False
    then have step: "cprop_step keep fld s (Some st) = (case st2 of Ist_WrTmp t dat \<Rightarrow> cprop_WrTmp s t dat | Ist_LoadG lg \<Rightarrow> cprop_LoadG s lg
       | _ \<Rightarrow> if st2 = Ist_NoOp \<and> \<not> keep then Inr s
             else bindR (addStmtToIRSB out (Some st2)) (\<lambda>out'. Inr (out', env, fx)))"
      using st2(1) s by (cases st2) (auto simp: cprop_step_def)
    consider (wr) t dat where "st2 = Ist_WrTmp t dat" | (lg) lg where "st2 = Ist_LoadG lg" | (nop) "st2 = Ist_NoOp" "\<not> keep"
      | (other) "\<And>t dat. st2 \<noteq> Ist_WrTmp t dat" "\<And>lg. st2 \<noteq> Ist_LoadG lg" "st2 \<noteq> Ist_NoOp \<or> keep"
      by blast
    then show ?thesis
    proof cases
      case wr
      with bind_inv [OF assms(1) assms(3) [unfolded s] st2(1) [unfolded wr] st2(2) [unfolded wr]] st2(3) step s show ?thesis by simp
    next
      case lg
      obtain out2 fx2 where "cprop_LoadG (out, env, fx) lg = Inr (out2, env, fx2)" "out_ok E gw (insert (lg_dst lg) (defined dc - prop_temps env)) out2 fx2"
        using cprop_LoadG_total [OF _ st2(2) [unfolded lg]] i by blast
      moreover have "insert (lg_dst lg) (defined dc - prop_temps env) = defined dc1 - prop_temps env"
        unfolding D [symmetric] st2(3) [symmetric] lg by simp
      ultimately show ?thesis using step s lg i wf1 by (auto simp: cprop_inv_def)
    next
      case nop
      with st2(3) f(2) i wf1 s step show ?thesis by (auto simp: cprop_inv_def)
    next
      case other
      with step have "cprop_step keep fld s (Some st) = bindR (addStmtToIRSB out (Some st2)) (\<lambda>out'. Inr (out', env, fx))" by (cases st2) auto
      with add show ?thesis by simp
    qed
  qed
qed

lemma cprop_loop_total:
  assumes "chunk_ok E gw dc xs dc2" "length dc = types_used E" "\<forall>st. Some st \<in> set xs \<longrightarrow> plain_stmt st" "cprop_inv E gw dc s" "gw \<noteq> Ity_I1"
  shows "\<exists>s2. foldR (cprop_step keep fld) s xs = Inr s2 \<and> cprop_inv E gw dc2 s2"
  using assms
proof (induction xs arbitrary: s dc)
  case (Cons x xs)
  obtain st dc1 where st: "x = Some st" "sane_step E gw dc st dc1" "chunk_ok E gw dc1 xs dc2"
    using Cons.prems(1,2) by (auto simp: countStmt_def res_iff sane_step_def stmt_ok_def)
  obtain s1 where s1: "cprop_step keep fld s (Some st) = Inr s1" "cprop_inv E gw dc1 s1"
    using cprop_step_total [OF st(2) _ Cons.prems(4,5)] Cons.prems(3) st(1) by (metis list.set_intros(1))
  moreover have "length dc1 = types_used E" using sane_step_facts(3) [OF st(2)] Cons.prems(2) by simp
  ultimately show ?case using Cons.IH [OF st(3) _ _ s1(2) Cons.prems(5)] Cons.prems(3) st(1) by simp
qed simp

section \<open>The fixups\<close>

text \<open>A block that passes the checker, but for the fixups to come.\<close>

definition fixable :: "IRType \<Rightarrow> IRSB \<Rightarrow> nat list \<Rightarrow> bool" where
  "fixable gw bb fx \<longleftrightarrow> sanityCheckIRSB bb True gw = Inr () \<and> wf_sb bb \<and> distinct fx \<and> (\<forall>ix\<in>set fx. fixup_at (stmts bb) ix)"

lemma cvt_sigs:
  "typeOfPrimop (Iop ''8Uto32'') = Inr (UNARY Ity_I8 Ity_I32)" "typeOfPrimop (Iop ''8Sto32'') = Inr (UNARY Ity_I8 Ity_I32)"
  "typeOfPrimop (Iop ''16Uto32'') = Inr (UNARY Ity_I16 Ity_I32)" "typeOfPrimop (Iop ''16Sto32'') = Inr (UNARY Ity_I16 Ity_I32)"
  by code_simp+

lemma cvt_op_wt:
  assumes "typeOfIRLoadGOp cvt = Inr (res, arg)"
  obtains op where "cvt_op cvt = Inr op" "isPlausibleIRType arg" "\<And>E t. typeOfIRTemp E t = Inr arg \<Longrightarrow> wt E gw (converted op (Iex_RdTmp t)) res"
  using assms by (cases cvt) (auto simp: cvt_op_def converted_def wt_def res_iff cvt_sigs UNARY_def no_sig_def intro!: that)

lemma cprop_fixup_total:
  assumes "fixable gw bb (ix # fx)"
  shows "\<exists>bb2. cprop_fixup bb ix = Inr bb2 \<and> fixable gw bb2 fx"
proof -
  let ?E = "tyenv bb" and ?n = "types_used (tyenv bb)"
  have fx: "Suc ix < stmts_used bb" "stmts bb ! ix = Some Ist_NoOp" "ix \<notin> set fx" "distinct fx" "\<forall>j\<in>set fx. fixup_at (stmts bb) j" "wf_sb bb"
    using assms by (auto simp: fixable_def fixup_at_def)
  obtain lg where lg: "stmts bb ! Suc ix = Some (Ist_LoadG lg)" "lg_guard lg = Iex_Const (Ico_U1 1)"
    using assms by (auto simp: fixable_def fixup_at_def)
  define pre post where "pre = take ix (stmts bb)" and "post = drop (Suc (Suc ix)) (stmts bb)"
  have len: "length pre = ix" using fx(1) by (simp add: pre_def)
  have sts: "stmts bb = pre @ [Some Ist_NoOp, Some (Ist_LoadG lg)] @ post"
  proof -
    have "drop ix (stmts bb) = Some Ist_NoOp # Some (Ist_LoadG lg) # post"
      unfolding post_def using fx(1,2) lg(1) by (metis Cons_nth_drop_Suc Suc_lessD)
    then show ?thesis unfolding pre_def by (metis append_Cons append_Nil append_take_drop_id)
  qed
  obtain nx dc where s: "gw = Ity_I32 \<or> gw = Ity_I64" "\<forall>ty\<in>set (types ?E). isPlausibleIRType ty" "chunk_ok ?E gw (replicate ?n 0) (stmts bb) dc"
      "sb_next bb = Some nx" "isIRAtom nx" "typeOfIRExpr ?E nx = Inr gw" "16 \<le> sb_offsIP bb"
    using assms by (auto simp: fixable_def sanityCheckIRSB_iff)
  then obtain dcp dcl where c: "chunk_ok ?E gw (replicate ?n 0) pre dcp" "chunk_ok ?E gw dcp [Some (Ist_LoadG lg)] dcl" "chunk_ok ?E gw dcl post dc"
    unfolding sts chunk_ok_append by (auto simp: countStmt_def)
  have lens: "length dcp = ?n" "length dcl = ?n" using chunk_ok_length [OF c(1)] chunk_ok_length [OF c(2)] by simp_all
  obtain td arg where l: "isIRAtom (lg_addr lg)" "tcExpr ?E gw (lg_addr lg) = Inr ()" "typeOfIRExpr ?E (lg_addr lg) = Inr gw"
      "typeOfIRTemp ?E (lg_dst lg) = Inr td" "typeOfIRLoadGOp (lg_cvt lg) = Inr (td, arg)" "useBeforeDef_Expr ?E dcp (lg_addr lg) = Inr ()"
      "assignedOnce_Stmt (Ist_LoadG lg) dcp ?n = Inr dcl"
    using c(2) by (auto simp: stmt_ok_def countStmt_def res_iff)
  obtain op where op: "cvt_op (lg_cvt lg) = Inr op" "isPlausibleIRType arg" "\<And>E t. typeOfIRTemp E t = Inr arg \<Longrightarrow> wt E gw (converted op (Iex_RdTmp t)) td"
    using cvt_op_wt [OF l(5)] by blast
  let ?F = "push_type ?E arg" and ?new = "[Some (Ist_WrTmp ?n (Iex_Load (lg_end lg) arg (lg_addr lg))), Some (Ist_WrTmp (lg_dst lg) (converted op (Iex_RdTmp ?n)))]"
  let ?bb = "bb\<lparr>tyenv := ?F, stmts := pre @ ?new @ post\<rparr>"
  have run: "cprop_fixup bb ix = Inr ?bb"
    using fx(1,2,6) lg l(5) op(1) sts len
    by (simp add: cprop_fixup_def con_U1_def fixup_LoadG_def newIRTemp_ok list_update_append)
  have tn: "typeOfIRTemp ?F ?n = Inr arg" by (simp add: typeOfIRTemp_def nth_append)
  have new: "chunk_ok ?F gw (dcp @ [0]) ?new (dcl @ [1])"
  proof -
    have u: "useBeforeDef_Expr ?F (dcp @ [0]) (lg_addr lg) = Inr ()"
      using okleD [OF useBeforeDef_Expr_ext [of ?E ?F dcp "lg_addr lg" "[0]"] l(6)] lens(1) by simp
    have t: "tcExpr ?F gw (lg_addr lg) = Inr ()" "typeOfIRExpr ?F (lg_addr lg) = Inr gw" "typeOfIRTemp ?F (lg_dst lg) = Inr td"
      using okleD [OF tcExpr_ext [of ?E ?F gw "lg_addr lg"] l(2)] typeOfIRExpr_ext [of ?E ?F, OF _ l(3)] typeOfIRTemp_ext [of ?E ?F, OF _ l(4)] by simp_all
    note w = op(3) [OF tn, unfolded wt_def]
    have "useBeforeDef_Expr ?F (dcp @ [1]) (converted op (Iex_RdTmp ?n)) = Inr ()"
      using lens(1) by (cases op) (auto simp: converted_def useBeforeDef_Temp_def nth_append)
    moreover have "assignedOnce_Stmt (Ist_WrTmp (lg_dst lg) e) (dcp @ [1]) (Suc ?n) = Inr (dcl @ [1])" for e
      using l(7) lens(1) by (auto simp: assignedOnce_Temp_def Let_def res_iff nth_append list_update_append1)
    ultimately have two: "chunk_ok ?F gw (dcp @ [1]) [Some (Ist_WrTmp (lg_dst lg) (converted op (Iex_RdTmp ?n)))] (dcl @ [1])"
      using w t(3) by (simp add: countStmt_def stmt_ok_def)
    have one: "chunk_ok ?F gw (dcp @ [0]) [Some (Ist_WrTmp ?n (Iex_Load (lg_end lg) arg (lg_addr lg)))] (dcp @ [1])"
      using l(1) t(1,2) tn u lens(1) by (simp add: countStmt_def stmt_ok_def assignedOnce_Temp_def nth_append list_update_append)
    show ?thesis using one two by (auto simp: chunk_ok_def res_iff)
  qed
  have "chunk_ok ?F gw (replicate ?n 0 @ [0]) (pre @ ?new @ post) (dc @ [1])"
    using new chunk_ok_ext [OF c(1), of ?F "[0]"] chunk_ok_ext [OF c(3), of ?F "[1]"] lens(2) unfolding chunk_ok_append [of _ _ _ pre] chunk_ok_append [of _ _ _ ?new]
    by (auto simp del: chunk_ok_Cons)
  then have "sanityCheckIRSB ?bb True gw = Inr ()"
    using s op(2) assms typeOfIRExpr_ext [of ?E ?F nx gw] sts by (auto simp: sanityCheckIRSB_iff fixable_def replicate_append_same)
  moreover have "fixup_at (stmts ?bb) j" if "j \<in> set fx" for j
  proof -
    have j: "fixup_at (stmts bb) j" "j \<noteq> ix" using that fx by auto
    then have "j \<noteq> Suc ix" "Suc j \<noteq> ix" using fx(2) lg(1) by (auto simp: fixup_at_def)
    moreover have "stmts ?bb ! i = stmts bb ! i" if "i \<noteq> ix" "i \<noteq> Suc ix" for i
      unfolding sts using that len by (auto simp: nth_append nth_Cons split: nat.split)
    moreover have "length (stmts ?bb) = stmts_used bb" using sts by simp
    ultimately show ?thesis using j by (auto simp: fixup_at_def)
  qed
  moreover have "wf_sb ?bb" using fx(6) sts by (auto simp: wf_sb_def)
  ultimately show ?thesis using run fx(4) by (auto simp: fixable_def)
qed

lemma cprop_fixups_total:
  assumes "fixable gw bb fx"
  shows "\<exists>bb2. foldR cprop_fixup bb fx = Inr bb2 \<and> sanityCheckIRSB bb2 True gw = Inr () \<and> wf_sb bb2"
  using assms
proof (induction fx arbitrary: bb)
  case (Cons ix fx)
  then show ?case using cprop_fixup_total [OF Cons.prems] by auto
qed (auto simp: fixable_def)

section \<open>The pass\<close>

definition plain_sb :: "IRSB \<Rightarrow> bool" where
  "plain_sb bb \<longleftrightarrow> (\<forall>st. Some st \<in> set (stmts bb) \<longrightarrow> plain_stmt st)"

lemma cprop_WRK_total:
  assumes "sanityCheckIRSB bb True gw = Inr ()" "wf_env (tyenv bb)" "plain_sb bb"
  shows "\<exists>bb2. cprop_BB_WRK bb keep fld = Inr bb2 \<and> sanityCheckIRSB bb2 True gw = Inr () \<and> wf_sb bb2"
proof -
  let ?E = "tyenv bb" and ?out = "emptyIRSB\<lparr>tyenv := deepCopyIRTypeEnv (tyenv bb)\<rparr>" and ?env = "replicate (types_used (tyenv bb)) None"
  let ?dc = "replicate (types_used (tyenv bb)) (0::nat)"
  obtain nx dc2 where s: "gw = Ity_I32 \<or> gw = Ity_I64" "\<forall>ty\<in>set (types ?E). isPlausibleIRType ty" "chunk_ok ?E gw ?dc (stmts bb) dc2"
      "sb_next bb = Some nx" "isIRAtom nx" "typeOfIRExpr ?E nx = Inr gw" "16 \<le> sb_offsIP bb"
    using assms(1) by (auto simp: sanityCheckIRSB_iff)
  have gw: "gw \<noteq> Ity_I1" using s(1) by auto
  have "cprop_inv ?E gw ?dc (?out, ?env, [])"
    using assms(2)
    by (auto simp: cprop_inv_def env_wf_def env_wt_def out_ok_def defined_def wf_sb_def wf_env_def emptyIRSB_def deepCopyIRTypeEnv_def)
  then obtain out env fx where l: "foldR (cprop_step keep fld) (?out, ?env, []) (stmts bb) = Inr (out, env, fx)" "cprop_inv ?E gw dc2 (out, env, fx)"
    using cprop_loop_total [OF s(3) _ _ _ gw, of "(?out, ?env, [])" keep fld] assms(3) by (auto simp: plain_sb_def)
  have w: "wt ?E gw nx gw"
  proof (cases nx)
    case (Iex_Const c)
    with s(1,5,6) show ?thesis by (cases c) (auto simp: wt_def)
  qed (use s(5,6) in \<open>auto simp: wt_def\<close>)
  obtain nx2 where nx2: "subst_Expr env nx = Inr nx2" "isIRAtom nx2" "wt ?E gw nx2 gw"
    using subst_atom_wt [OF s(5) w] l(2) by (auto simp: cprop_inv_def)
  let ?out2 = "out\<lparr>sb_next := Some nx2, sb_jumpkind := sb_jumpkind bb, sb_offsIP := sb_offsIP bb\<rparr>"
  have o: "wf_sb out" "types (tyenv out) = types ?E" "length fx \<le> N_FIXUPS" "distinct fx" "\<forall>ix\<in>set fx. fixup_at (stmts out) ix"
      "\<exists>dc. chunk_ok ?E gw ?dc (stmts out) dc"
    using l(2) by (auto simp: cprop_inv_def out_ok_def)
  have ext: "env_ext ?E (tyenv out)" using o(2) by (simp add: env_ext_def)
  have "\<exists>dc. chunk_ok (tyenv out) gw ?dc (stmts out) dc" using o(6) chunk_ok_ext [OF _ ext, of gw ?dc "stmts out" _ "[]"] by auto
  moreover have "typeOfIRExpr (tyenv out) nx2 = Inr gw"
    using nx2(3) typeOfIRExpr_ext [OF ext, of nx2 gw] by (simp add: wt_def)
  ultimately have "fixable gw ?out2 fx"
    using o s nx2(2) by (auto simp: fixable_def sanityCheckIRSB_iff wf_sb_def)
  from cprop_fixups_total [OF this] l(1) nx2(1) s(4) o(3) show ?thesis by (auto simp: cprop_BB_WRK_def)
qed

end
