(* ===== verification/Opt_Pipeline.thy ===== *)
theory Opt_Pipeline
  imports Opt_Cprop_Sane
begin

text \<open>
  The cleanup that VEX runs on every block a tool has instrumented (\<open>LibVEX_FrontEnd\<close> in
  \<open>VEX/priv/main_main.c\<close>): dead code, constant propagation, dead code, sanity check.
  \<open>post_instr_cleanup_ok\<close> says that it returns a sane block with the same outcomes. \<open>log_sem_ok\<close>
  shows that a meaning with the documented properties exists.
\<close>

section \<open>A meaning with the documented types\<close>

definition unop_row_typed :: "string \<times> (ir_val \<Rightarrow> ir_val option) \<Rightarrow> bool" where
  "unop_row_typed p \<longleftrightarrow> (\<exists>s. sig_of (fst p) = Some s \<and> (\<forall>v r. snd p v = Some r \<longrightarrow> has_type (t_dst s) r))"

definition binop_row_typed :: "string \<times> (ir_val \<Rightarrow> ir_val \<Rightarrow> ir_val option) \<Rightarrow> bool" where
  "binop_row_typed p \<longleftrightarrow> (\<exists>s. sig_of (fst p) = Some s \<and> (\<forall>u v r. snd p u v = Some r \<longrightarrow> has_type (t_dst s) r))"

lemma unop_rows_typed: "list_all unop_row_typed unop_vals"
  unfolding unop_vals_def list.pred_inject unop_row_typed_def fst_conv snd_conv
  by (simp add: sig_of_def sig_defs on_defs split: ir_val.splits)

lemma binop_rows_typed: "list_all binop_row_typed binop_vals"
  unfolding binop_vals_def list.pred_inject binop_row_typed_def fst_conv snd_conv
  by (simp add: sig_of_def sig_defs both_defs split: ir_val.splits)

lemma op_val_typed:
  assumes "op_val op vs = Some r" "typeOfPrimop op = Inr s"
  shows "has_type (t_dst s) r"
proof -
  obtain nm where nm: "op = Iop nm" using assms(1) by (cases op) (auto simp: op_val_def)
  consider u f where "vs = [u]" "map_of unop_vals nm = Some f" "f u = Some r" | u v f where "vs = [u, v]" "map_of binop_vals nm = Some f" "f u v = Some r"
    using assms(1) nm by (auto simp: op_val_def split: list.splits option.splits)
  then show ?thesis
  proof cases
    case 1
    then have "unop_row_typed (nm, f)" using unop_rows_typed map_of_SomeD [of unop_vals nm f] by (auto simp: list_all_iff)
    with 1(3) typeOfPrimop_sig [of nm s] assms(2) nm show ?thesis by (auto simp: unop_row_typed_def)
  next
    case 2
    then have "binop_row_typed (nm, f)" using binop_rows_typed map_of_SomeD [of binop_vals nm f] by (auto simp: list_all_iff)
    with 2(3) typeOfPrimop_sig [of nm s] assms(2) nm show ?thesis by (auto simp: binop_row_typed_def)
  qed
qed

lemma zero_val_type [simp]: "has_type ty (zero_val ty)"
  by (cases ty) auto

lemma log_sem_typed: "sem_typed log_sem"
  by (auto simp: sem_typed_def log_sem_def log_op_def op_val_typed split: option.splits)

lemma log_sem_ok: "sem_ok log_sem"
  by (simp add: sem_ok_def log_sem_documented log_sem_typed log_sem_guarded)

section \<open>The whole cleanup\<close>

definition post_instr_cleanup :: "IRSB \<Rightarrow> IRType \<Rightarrow> IRSB res" where
  "post_instr_cleanup irsb guest_word_type =
     bindR (do_deadcode_BB irsb) (\<lambda>irsb.
     bindR (cprop_BB irsb) (\<lambda>irsb.
     bindR (do_deadcode_BB irsb) (\<lambda>irsb.
     bindR (sanityCheckIRSB irsb True guest_word_type) (\<lambda>_. Inr irsb))))"

text \<open>Calls with a result are unconditional. Propagation can turn the guard of any other into the
  constant \<open>False\<close>, and the removal of dead code then drops the assignment to the result.\<close>

definition result_unguarded :: "IRStmt option \<Rightarrow> bool" where
  "result_unguarded x = (case x of Some (Ist_Dirty d) \<Rightarrow> d_tmp d = IRTemp_INVALID \<or> d_guard d = Some (Iex_Const (Ico_U1 1)) | _ \<Rightarrow> True)"

lemma unguarded_simps [simp]:
  "result_unguarded (Some (Ist_WrTmp t e))" "result_unguarded (Some Ist_NoOp)" "result_unguarded (Some (Ist_Store en a b))"
  "result_unguarded (Some (Ist_StoreG sg))" "result_unguarded (Some (Ist_LoadG lg))" "result_unguarded (Some (Ist_CAS c))"
  "result_unguarded (Some (Ist_Exit g jk dst off))" "result_unguarded (Some (Ist_Put offs e))" "result_unguarded (Some (Ist_PutI p))"
  "result_unguarded (Some (Ist_AbiHint a n b))" "result_unguarded (Some (Ist_LLSC en t a sd))" "result_unguarded (Some (Ist_IMark addr len delta))"
  "result_unguarded (Some (Ist_MBE ev))"
  "result_unguarded (Some (Ist_Dirty d)) \<longleftrightarrow> d_tmp d = IRTemp_INVALID \<or> d_guard d = Some (Iex_Const (Ico_U1 1))"
  by (simp_all add: result_unguarded_def)

lemma results_skipped: "\<forall>x\<in>set xs. result_unguarded x \<Longrightarrow> skipped_no_result xs"
proof -
  assume a: "\<forall>x\<in>set xs. result_unguarded x"
  have "stmt_defs st = []" if "Some st \<in> set xs" "never_called st" for st
    using bspec [OF a that(1)] that(2) by (cases st) (auto simp: never_called_def isZeroU1_def split: option.splits)
  then show ?thesis by (simp add: skipped_no_result_def)
qed

lemma deadcode_scan_set:
  "deadcode_scan i xs us = Inr (xs', us', exit) \<Longrightarrow> set xs' \<subseteq> insert (Some Ist_NoOp) (set xs)"
proof (induction xs arbitrary: i xs' us' exit)
  case (Cons x xs)
  obtain st xs1 us1 exit1 y where "deadcode_scan (Suc i) xs us = Inr (xs1, us1, exit1)" "xs' = y # xs1" "y = x \<or> y = Some Ist_NoOp"
    using deadcode_step [OF Cons.prems] by metis
  with Cons.IH [of "Suc i" xs1 us1 exit1] show ?case by auto
qed simp

lemma do_deadcode_set:
  assumes "do_deadcode_BB bb = Inr bb'"
  shows "set (stmts bb') \<subseteq> insert (Some Ist_NoOp) (set (stmts bb))"
    and "sb_next bb' = sb_next bb \<or> (\<exists>c. sb_next bb' = Some (Iex_Const c))" and "tyenv bb' = tyenv bb"
proof -
  obtain us sts us' exit where d: "deadcode_scan 0 (stmts bb) us = Inr (sts, us', exit)"
      "(case exit of None \<Rightarrow> Inr (bb\<lparr>stmts := sts\<rparr>) | Some k \<Rightarrow> zap_from k (bb\<lparr>stmts := sts\<rparr>)) = Inr bb'"
    using assms by (auto simp: do_deadcode_BB_def res_iff)
  note s = deadcode_scan_set [OF d(1)]
  have "(\<exists>k. set (stmts bb') \<subseteq> set (take k sts) \<union> {Some Ist_NoOp} \<or> stmts bb' = sts)
      \<and> (sb_next bb' = sb_next bb \<or> (\<exists>c. sb_next bb' = Some (Iex_Const c))) \<and> tyenv bb' = tyenv bb"
    using d(2) by (fastforce simp: zap_from_def res_iff split: option.splits IRStmt.splits)
  with s show "set (stmts bb') \<subseteq> insert (Some Ist_NoOp) (set (stmts bb))"
      "sb_next bb' = sb_next bb \<or> (\<exists>c. sb_next bb' = Some (Iex_Const c))" "tyenv bb' = tyenv bb"
    using set_take_subset [of _ sts] by blast+
qed

lemma deadcode_plain:
  assumes "do_deadcode_BB bb = Inr bb'" "plain_sb bb"
  shows "plain_sb bb'"
  using do_deadcode_set(1) [OF assms(1)] assms(2) by (auto simp: plain_sb_def dest!: subsetD)

lemma deadcode_acts_typed:
  "do_deadcode_BB bb = Inr bb' \<Longrightarrow> acts_typed E S (stmts bb) \<Longrightarrow> acts_typed E S (stmts bb')"
  using do_deadcode_set(1) [of bb bb'] unfolding acts_typed_def by fastforce

text \<open>Propagation keeps unconditional calls unconditional.\<close>

lemma subst_to_Dirty:
  assumes "subst_and_maybe_fold_Stmt fld env st = Inr (Ist_Dirty d2)"
  shows "\<exists>d. st = Ist_Dirty d"
proof (cases st)
  case (Ist_StoreG sg)
  with assms show ?thesis by (auto simp: subst_StoreG_def Let_def res_iff split: option.splits bool.splits)
next
  case (Ist_LoadG lg)
  with assms show ?thesis by (auto simp: subst_LoadG_def Let_def res_iff split: if_splits)
next
  case (Ist_CAS c)
  with assms show ?thesis by (auto simp: subst_CAS_def Let_def res_iff)
qed (use assms in \<open>auto simp: res_iff split: if_splits\<close>)

lemma subst_result_unguarded:
  assumes "subst_and_maybe_fold_Stmt fld env st = Inr st2" "result_unguarded (Some st)"
  shows "result_unguarded (Some st2)"
proof (cases "\<exists>d2. st2 = Ist_Dirty d2")
  case True
  then obtain d where d: "st = Ist_Dirty d" using subst_to_Dirty assms(1) by blast
  with assms(1) have "subst_Dirty fld env d = Inr st2" by simp
  then obtain g g2 args2 m2 where g: "d_guard d = Some g" "subst_fold fld env g = Inr g2"
      "st2 = Ist_Dirty (d\<lparr>d_args := Some args2, d_mAddr := m2, d_guard := Some g2\<rparr>)"
    by (rule subst_Dirty_cases)
  have "g2 = Iex_Const c" if "g = Iex_Const c" for c
    using g(2) that fold_atom [of "Iex_Const c"] by (simp add: subst_fold_def)
  with assms(2) d g(1,3) show ?thesis by auto
next
  case False
  then show ?thesis by (cases st2) auto
qed

lemma cprop_step_unguarded:
  assumes "cprop_step keep fld (out, env, fx) x = Inr (out2, env2, fx2)" "result_unguarded x" "\<forall>y\<in>set (stmts out). result_unguarded y"
  shows "\<forall>y\<in>set (stmts out2). result_unguarded y"
proof -
  obtain st where st: "x = Some st" using assms(1) by (auto simp: cprop_step_def res_iff)
  from assms(1) [unfolded st] show ?thesis
  proof (cases rule: cprop_step_cases)
    case (bind t dat)
    with assms(3) show ?thesis by auto
  next
    case (add st2 ys)
    have "ys = [] \<or> (\<forall>y\<in>set ys. y = Some st2 \<or> y = Some Ist_NoOp)" using add(5) by auto
    with assms(3) add(4) subst_result_unguarded [OF add(1)] assms(2) st show ?thesis by auto
  qed (use assms(3) in simp)
qed

lemma cprop_loop_unguarded:
  assumes "foldR (cprop_step keep fld) (out, env, fx) xs = Inr (out2, env2, fx2)" "\<forall>x\<in>set xs. result_unguarded x" "\<forall>y\<in>set (stmts out). result_unguarded y"
  shows "\<forall>y\<in>set (stmts out2). result_unguarded y"
  using assms
proof (induction xs arbitrary: out env fx)
  case (Cons x xs)
  obtain out1 env1 fx1 where s: "cprop_step keep fld (out, env, fx) x = Inr (out1, env1, fx1)"
      "foldR (cprop_step keep fld) (out1, env1, fx1) xs = Inr (out2, env2, fx2)"
    using Cons.prems(1) by (auto simp: res_iff)
  from Cons.IH [OF s(2)] cprop_step_unguarded [OF s(1) _ Cons.prems(3)] Cons.prems(2) show ?case by simp
qed simp

lemma cprop_fixups_unguarded:
  assumes "foldR cprop_fixup bb fx = Inr bb2" "\<forall>y\<in>set (stmts bb). result_unguarded y"
  shows "\<forall>y\<in>set (stmts bb2). result_unguarded y"
  using assms
proof (induction fx arbitrary: bb)
  case (Cons ix fx)
  then obtain bb1 where bb1: "cprop_fixup bb ix = Inr bb1" "foldR cprop_fixup bb1 fx = Inr bb2" by (auto simp: res_iff)
  have "\<forall>y\<in>set (stmts bb1). result_unguarded y"
    by (rule cprop_fixup_cases [OF bb1(1)]) (use Cons.prems(2) in auto)
  with Cons.IH bb1(2) show ?case by blast
qed simp

lemma cprop_unguarded:
  assumes "cprop_BB_WRK bb keep fld = Inr bb2" "\<forall>x\<in>set (stmts bb). result_unguarded x"
  shows "\<forall>x\<in>set (stmts bb2). result_unguarded x"
proof -
  obtain out env fx nx2 where c: "foldR (cprop_step keep fld) (emptyIRSB\<lparr>tyenv := deepCopyIRTypeEnv (tyenv bb)\<rparr>, replicate (types_used (tyenv bb)) None, []) (stmts bb)
        = Inr (out, env, fx)"
      "foldR cprop_fixup (out\<lparr>sb_next := Some nx2, sb_jumpkind := sb_jumpkind bb, sb_offsIP := sb_offsIP bb\<rparr>) fx = Inr bb2"
    using assms(1) by (auto simp: cprop_BB_WRK_def res_iff)
  have "\<forall>y\<in>set (stmts out). result_unguarded y"
    using cprop_loop_unguarded [OF c(1) assms(2)] by (simp add: emptyIRSB_def)
  with cprop_fixups_unguarded [OF c(2)] show ?thesis by simp
qed

lemma sem_ok_bits: "sem_ok S \<Longrightarrow> sem_bits S"
  using documented_bits by (auto simp: sem_ok_def sem_bits_def)

lemma post_instr_cleanup_ok:
  assumes "sanityCheckIRSB bb True gw = Inr ()" "wf_env (tyenv bb)" "plain_sb bb" "\<forall>x\<in>set (stmts bb). result_unguarded x"
  shows "\<exists>bb2. post_instr_cleanup bb gw = Inr bb2 \<and> sanityCheckIRSB bb2 True gw = Inr ()
    \<and> (\<forall>S s. sem_ok S \<longrightarrow> acts_typed (tyenv bb) S (stmts bb) \<longrightarrow> block_outcome S s bb2 = block_outcome S s bb)"
proof -
  obtain b1 where b1: "do_deadcode_BB bb = Inr b1" using do_deadcode_total [OF assms(1)] by blast
  note d1 = do_deadcode_set [OF b1] and s1 = do_deadcode_sane [OF b1 results_skipped [OF assms(4)] assms(1)]
  have u1: "\<forall>x\<in>set (stmts b1). result_unguarded x" using d1(1) assms(4) by auto
  obtain b2 where b2: "cprop_BB b1 = Inr b2" "sanityCheckIRSB b2 True gw = Inr ()"
    using cprop_WRK_total [of b1 gw False True] s1 assms(2) deadcode_plain [OF b1 assms(3)] by (auto simp: cprop_BB_def)
  have u2: "\<forall>x\<in>set (stmts b2). result_unguarded x" using cprop_unguarded [OF b2(1) [unfolded cprop_BB_def] u1] .
  obtain b3 where b3: "do_deadcode_BB b2 = Inr b3" using do_deadcode_total [OF b2(2)] by blast
  have s3: "sanityCheckIRSB b3 True gw = Inr ()" using do_deadcode_sane [OF b3 results_skipped [OF u2] b2(2)] by blast
  have "block_outcome S s b3 = block_outcome S s bb" if S: "sem_ok S" "acts_typed (tyenv bb) S (stmts bb)" for S :: "(ir_val, 'b) ir_sem" and s
  proof -
    have "block_outcome S s b3 = block_outcome S s b2" by (rule do_deadcode_outcome [OF b3 results_skipped [OF u2] sem_ok_bits [OF S(1)]])
    also have "\<dots> = block_outcome S s b1"
    proof (rule cprop_WRK_outcome [OF b2(1) [unfolded cprop_BB_def] _ S(1)])
      show "acts_typed (tyenv b1) S (stmts b1)" using deadcode_acts_typed [OF b1 S(2)] s1 by simp
    qed (use s1 in blast)
    also have "\<dots> = block_outcome S s bb" by (rule do_deadcode_outcome [OF b1 results_skipped [OF assms(4)] sem_ok_bits [OF S(1)]])
    finally show ?thesis .
  qed
  moreover have "post_instr_cleanup bb gw = Inr b3" using b1 b2(1) b3 s3 by (simp add: post_instr_cleanup_def)
  ultimately show ?thesis using s3 by blast
qed

end
