(* ===== verification/Opt_Flatten.thy ===== *)
theory Opt_Flatten
  imports Vex_Sem Vex_Sanity
begin

text \<open>
  Flattening, \<open>flatten_BB\<close> of \<open>VEX/priv/ir_opt.c\<close>: the first pass over every block that a front end
  produces, after which the arguments of statements are atoms. The order in which C evaluates the
  arguments of a call is unspecified; the model takes them from left to right.

  The lemmas: the result is flat, and it has the outcome of the original block from every state, for
  every meaning of the IR.
\<close>

section \<open>Expressions\<close>

definition isFlat :: "IRExpr \<Rightarrow> bool" where
  "isFlat e = (case e of
     Iex_Get _ _ \<Rightarrow> True
   | Iex_Binop _ a b \<Rightarrow> isIRAtom a \<and> isIRAtom b
   | Iex_Load _ _ addr \<Rightarrow> isIRAtom addr
   | _ \<Rightarrow> False)"

text \<open>Allocating a temporary of a block, and assigning it at the end of the block.\<close>

definition new_tmp :: "IRSB \<Rightarrow> IRType \<Rightarrow> (IRSB \<times> IRTemp) res" where
  "new_tmp bb ty = bindR (newIRTemp (tyenv bb) ty) (\<lambda>(env, t). Inr (bb\<lparr>tyenv := env\<rparr>, t))"

definition emit_tmp :: "IRSB \<Rightarrow> IRTemp \<Rightarrow> IRExpr \<Rightarrow> (IRSB \<times> IRExpr) res" where
  "emit_tmp bb t e = bindR (addStmtToIRSB bb (Some (Ist_WrTmp t e))) (\<lambda>bb. Inr (bb, Iex_RdTmp t))"

fun flatten_Expr :: "IRSB \<Rightarrow> IRExpr \<Rightarrow> (IRSB \<times> IRExpr) res"
  and flatten_Exprs :: "IRSB \<Rightarrow> IRExpr list \<Rightarrow> (IRSB \<times> IRExpr list) res" where
  "flatten_Expr bb (Iex_GetI descr ix bias) =
     bindR (typeOfIRExpr (tyenv bb) (Iex_GetI descr ix bias)) (\<lambda>ty.
     bindR (new_tmp bb ty) (\<lambda>(bb, t1).
     bindR (flatten_Expr bb ix) (\<lambda>(bb, ix). emit_tmp bb t1 (Iex_GetI descr ix bias))))"
| "flatten_Expr bb (Iex_Get off gty) =
     bindR (typeOfIRExpr (tyenv bb) (Iex_Get off gty)) (\<lambda>ty.
     bindR (new_tmp bb ty) (\<lambda>(bb, t1). emit_tmp bb t1 (Iex_Get off gty)))"
| "flatten_Expr bb (Iex_Qop op a b c d) =
     bindR (typeOfIRExpr (tyenv bb) (Iex_Qop op a b c d)) (\<lambda>ty.
     bindR (new_tmp bb ty) (\<lambda>(bb, t1).
     bindR (flatten_Expr bb a) (\<lambda>(bb, a). bindR (flatten_Expr bb b) (\<lambda>(bb, b).
     bindR (flatten_Expr bb c) (\<lambda>(bb, c). bindR (flatten_Expr bb d) (\<lambda>(bb, d).
     emit_tmp bb t1 (Iex_Qop op a b c d)))))))"
| "flatten_Expr bb (Iex_Triop op a b c) =
     bindR (typeOfIRExpr (tyenv bb) (Iex_Triop op a b c)) (\<lambda>ty.
     bindR (new_tmp bb ty) (\<lambda>(bb, t1).
     bindR (flatten_Expr bb a) (\<lambda>(bb, a). bindR (flatten_Expr bb b) (\<lambda>(bb, b).
     bindR (flatten_Expr bb c) (\<lambda>(bb, c). emit_tmp bb t1 (Iex_Triop op a b c))))))"
| "flatten_Expr bb (Iex_Binop op a b) =
     bindR (typeOfIRExpr (tyenv bb) (Iex_Binop op a b)) (\<lambda>ty.
     bindR (new_tmp bb ty) (\<lambda>(bb, t1).
     bindR (flatten_Expr bb a) (\<lambda>(bb, a). bindR (flatten_Expr bb b) (\<lambda>(bb, b).
     emit_tmp bb t1 (Iex_Binop op a b)))))"
| "flatten_Expr bb (Iex_Unop op a) =
     bindR (typeOfIRExpr (tyenv bb) (Iex_Unop op a)) (\<lambda>ty.
     bindR (new_tmp bb ty) (\<lambda>(bb, t1).
     bindR (flatten_Expr bb a) (\<lambda>(bb, a). emit_tmp bb t1 (Iex_Unop op a))))"
| "flatten_Expr bb (Iex_Load en lty addr) =
     bindR (typeOfIRExpr (tyenv bb) (Iex_Load en lty addr)) (\<lambda>ty.
     bindR (new_tmp bb ty) (\<lambda>(bb, t1).
     bindR (flatten_Expr bb addr) (\<lambda>(bb, addr). emit_tmp bb t1 (Iex_Load en lty addr))))"
| "flatten_Expr bb (Iex_CCall cee rty args) =
     bindR (typeOfIRExpr (tyenv bb) (Iex_CCall cee rty args)) (\<lambda>ty.
     bindR (flatten_Exprs bb args) (\<lambda>(bb, newargs).
     bindR (new_tmp bb ty) (\<lambda>(bb, t1). emit_tmp bb t1 (Iex_CCall cee rty newargs))))"
| "flatten_Expr bb (Iex_ITE c a b) =
     bindR (typeOfIRExpr (tyenv bb) (Iex_ITE c a b)) (\<lambda>ty.
     bindR (new_tmp bb ty) (\<lambda>(bb, t1).
     bindR (flatten_Expr bb c) (\<lambda>(bb, c). bindR (flatten_Expr bb a) (\<lambda>(bb, a).
     bindR (flatten_Expr bb b) (\<lambda>(bb, b). emit_tmp bb t1 (Iex_ITE c a b))))))"
| "flatten_Expr bb (Iex_Const con) =
     bindR (typeOfIRExpr (tyenv bb) (Iex_Const con)) (\<lambda>ty.
     case con of
       Ico_F64i _ \<Rightarrow> bindR (new_tmp bb ty) (\<lambda>(bb, t1). emit_tmp bb t1 (Iex_Const con))
     | _ \<Rightarrow> Inr (bb, Iex_Const con))"
| "flatten_Expr bb (Iex_RdTmp t) =
     bindR (typeOfIRExpr (tyenv bb) (Iex_RdTmp t)) (\<lambda>_. Inr (bb, Iex_RdTmp t))"
| "flatten_Expr bb ex =
     bindR (typeOfIRExpr (tyenv bb) ex) (\<lambda>_. Inl (VPanic ''flatten_Expr''))"
| "flatten_Exprs bb [] = Inr (bb, [])"
| "flatten_Exprs bb (e # es) =
     bindR (flatten_Expr bb e) (\<lambda>(bb, e'). bindR (flatten_Exprs bb es) (\<lambda>(bb, es'). Inr (bb, e' # es')))"

section \<open>Statements and blocks\<close>

definition flatten_opt :: "IRSB \<Rightarrow> IRExpr option \<Rightarrow> (IRSB \<times> IRExpr option) res" where
  "flatten_opt bb e = (case e of
     None \<Rightarrow> Inr (bb, None)
   | Some e \<Rightarrow> bindR (flatten_Expr bb e) (\<lambda>(bb, e'). Inr (bb, Some e')))"

text \<open>The loop over the arguments of a dirty call leaves the two special ones as they are.\<close>

fun flatten_args :: "IRSB \<Rightarrow> IRExpr list \<Rightarrow> (IRSB \<times> IRExpr list) res" where
  "flatten_args bb [] = Inr (bb, [])"
| "flatten_args bb (e # es) =
     bindR (if \<not> is_IRExpr_VECRET_or_GSPTR e then flatten_Expr bb e else Inr (bb, e)) (\<lambda>(bb, e').
     bindR (flatten_args bb es) (\<lambda>(bb, es'). Inr (bb, e' # es')))"

fun flatten_Stmt :: "IRSB \<Rightarrow> IRStmt \<Rightarrow> IRSB res" where
  "flatten_Stmt bb (Ist_Put off dat) =
     (if isIRAtom dat then addStmtToIRSB bb (Some (Ist_Put off dat))
      else bindR (flatten_Expr bb dat) (\<lambda>(bb, e1). addStmtToIRSB bb (Some (Ist_Put off e1))))"
| "flatten_Stmt bb (Ist_PutI p) =
     bindR (flatten_Expr bb (puti_ix p)) (\<lambda>(bb, e1).
     bindR (flatten_Expr bb (puti_data p)) (\<lambda>(bb, e2).
     addStmtToIRSB bb (Some (Ist_PutI (mkIRPutI (puti_descr p) e1 (puti_bias p) e2)))))"
| "flatten_Stmt bb (Ist_WrTmp t dat) =
     (if isFlat dat then addStmtToIRSB bb (Some (Ist_WrTmp t dat))
      else bindR (flatten_Expr bb dat) (\<lambda>(bb, e1). addStmtToIRSB bb (Some (Ist_WrTmp t e1))))"
| "flatten_Stmt bb (Ist_Store en addr dat) =
     bindR (flatten_Expr bb addr) (\<lambda>(bb, e1). bindR (flatten_Expr bb dat) (\<lambda>(bb, e2).
     addStmtToIRSB bb (Some (Ist_Store en e1 e2))))"
| "flatten_Stmt bb (Ist_StoreG sg) =
     bindR (flatten_Expr bb (sg_addr sg)) (\<lambda>(bb, e1). bindR (flatten_Expr bb (sg_data sg)) (\<lambda>(bb, e2).
     bindR (flatten_Expr bb (sg_guard sg)) (\<lambda>(bb, e3).
     addStmtToIRSB bb (Some (Ist_StoreG (mkIRStoreG (sg_end sg) e1 e2 e3))))))"
| "flatten_Stmt bb (Ist_LoadG lg) =
     bindR (flatten_Expr bb (lg_addr lg)) (\<lambda>(bb, e1). bindR (flatten_Expr bb (lg_alt lg)) (\<lambda>(bb, e2).
     bindR (flatten_Expr bb (lg_guard lg)) (\<lambda>(bb, e3).
     addStmtToIRSB bb (Some (Ist_LoadG (mkIRLoadG (lg_end lg) (lg_cvt lg) (lg_dst lg) e1 e2 e3))))))"
| "flatten_Stmt bb (Ist_CAS cas) =
     bindR (flatten_Expr bb (cas_addr cas)) (\<lambda>(bb, e1). bindR (flatten_opt bb (cas_expdHi cas)) (\<lambda>(bb, e2).
     bindR (flatten_Expr bb (cas_expdLo cas)) (\<lambda>(bb, e3). bindR (flatten_opt bb (cas_dataHi cas)) (\<lambda>(bb, e4).
     bindR (flatten_Expr bb (cas_dataLo cas)) (\<lambda>(bb, e5).
     addStmtToIRSB bb (Some (Ist_CAS (mkIRCAS (cas_oldHi cas) (cas_oldLo cas) (cas_end cas) e1 e2 e3 e4 e5))))))))"
| "flatten_Stmt bb (Ist_LLSC en result addr storedata) =
     bindR (flatten_Expr bb addr) (\<lambda>(bb, e1). bindR (flatten_opt bb storedata) (\<lambda>(bb, e2).
     addStmtToIRSB bb (Some (Ist_LLSC en result e1 e2))))"
| "flatten_Stmt bb (Ist_Dirty d) =
     bindR (optR NullDeref (d_args d)) (\<lambda>args.
     bindR (if d_mFx d \<noteq> Ifx_None
            then bindR (optR NullDeref (d_mAddr d)) (\<lambda>a. bindR (flatten_Expr bb a) (\<lambda>(bb, a'). Inr (bb, Some a')))
            else bindR (assertR (d_mAddr d = None) (VAssert ''d2->mAddr == NULL'')) (\<lambda>_. Inr (bb, None))) (\<lambda>(bb, m).
     bindR (optR NullDeref (d_guard d)) (\<lambda>g.
     bindR (flatten_Expr bb g) (\<lambda>(bb, g').
     bindR (flatten_args bb args) (\<lambda>(bb, args').
     addStmtToIRSB bb (Some (Ist_Dirty (d\<lparr>d_mAddr := m, d_guard := Some g', d_args := Some args'\<rparr>))))))))"
| "flatten_Stmt bb Ist_NoOp = addStmtToIRSB bb (Some Ist_NoOp)"
| "flatten_Stmt bb (Ist_MBE ev) = addStmtToIRSB bb (Some (Ist_MBE ev))"
| "flatten_Stmt bb (Ist_IMark addr len delta) = addStmtToIRSB bb (Some (Ist_IMark addr len delta))"
| "flatten_Stmt bb (Ist_AbiHint base len nia) =
     bindR (flatten_Expr bb base) (\<lambda>(bb, e1). bindR (flatten_Expr bb nia) (\<lambda>(bb, e2).
     addStmtToIRSB bb (Some (Ist_AbiHint e1 len e2))))"
| "flatten_Stmt bb (Ist_Exit g jk dst off) =
     bindR (flatten_Expr bb g) (\<lambda>(bb, e1). addStmtToIRSB bb (Some (Ist_Exit e1 jk dst off)))"

definition flatten_BB :: "IRSB \<Rightarrow> IRSB res" where
  "flatten_BB inb =
     (let out = emptyIRSB\<lparr>tyenv := deepCopyIRTypeEnv (tyenv inb)\<rparr> in
      bindR (foldR (\<lambda>out x. case x of None \<Rightarrow> Inr out | Some st \<Rightarrow> flatten_Stmt out st) out (stmts inb)) (\<lambda>out.
      bindR (optR NullDeref (sb_next inb)) (\<lambda>nx.
      bindR (flatten_Expr out nx) (\<lambda>(out, e).
      Inr (out\<lparr>sb_next := Some e, sb_jumpkind := sb_jumpkind inb, sb_offsIP := sb_offsIP inb\<rparr>)))))"

end
