(* ===== verification/Opt_Flatten_Run.thy ===== *)
theory Opt_Flatten_Run
  imports Opt_Flatten
begin

text \<open>
  Flattening keeps the meaning of a block. \<open>flattened\<close> relates the expressions handed to the
  flattener to the atoms it returns: the statements it appended assign fresh temporaries, are flat,
  and after running them the atoms have the values that the expressions had before.
\<close>

section \<open>Flattened expressions\<close>

definition in_range :: "IRSB \<Rightarrow> IRExpr list \<Rightarrow> bool" where
  "in_range bb es \<longleftrightarrow> (\<forall>e\<in>set es. temps_of e \<subseteq> {..<types_used (tyenv bb)})"

lemma in_range_simps [simp]:
  "in_range bb []"
  "in_range bb (e # es) \<longleftrightarrow> temps_of e \<subseteq> {..<types_used (tyenv bb)} \<and> in_range bb es"
  "in_range bb (es @ fs) \<longleftrightarrow> in_range bb es \<and> in_range bb fs"
  by (auto simp: in_range_def)

lemma in_range_mono: "in_range bb es \<Longrightarrow> env_ext (tyenv bb) (tyenv bb') \<Longrightarrow> in_range bb' es"
  using env_ext_used [of "tyenv bb" "tyenv bb'"] by (fastforce simp: in_range_def)

lemma in_range_agree:
  "in_range bb es \<Longrightarrow> agree {..<types_used (tyenv bb)} r r' \<Longrightarrow> map (eval S r w) es = map (eval S r' w) es"
  by (rule map_cong) (auto simp: in_range_def intro!: eval_agree elim!: agree_subset)

definition runs_to :: "('v, 'w) ir_sem \<Rightarrow> IRSB \<Rightarrow> IRStmt list \<Rightarrow> IRExpr list \<Rightarrow> IRExpr list \<Rightarrow> bool" where
  "runs_to S bb sts es es' \<longleftrightarrow>
     (\<forall>r w. \<exists>r'. exec S (r, w) (map Some sts) = Inr (r', w) \<and> agree {..<types_used (tyenv bb)} r r'
        \<and> map (eval S r' w) es' = map (eval S r w) es)"

definition flattened :: "('v, 'w) ir_sem \<Rightarrow> IRSB \<Rightarrow> IRExpr list \<Rightarrow> IRSB \<Rightarrow> IRExpr list \<Rightarrow> bool" where
  "flattened S bb es bb' es' \<longleftrightarrow>
     wf_sb bb' \<and> env_ext (tyenv bb) (tyenv bb') \<and> in_range bb' es' \<and> length es' = length es \<and>
     (\<exists>sts. stmts bb' = stmts bb @ map Some sts \<and> (\<forall>st\<in>set sts. isFlatIRStmt st = Inr True)
        \<and> runs_to S bb sts es es')"

lemma flattenedE:
  assumes "flattened S bb es bb' es'"
  obtains sts where "wf_sb bb'" "env_ext (tyenv bb) (tyenv bb')" "in_range bb' es'" "length es' = length es"
    "stmts bb' = stmts bb @ map Some sts" "\<forall>st\<in>set sts. isFlatIRStmt st = Inr True" "runs_to S bb sts es es'"
  using assms by (auto simp: flattened_def)

lemma flattened_refl: "wf_sb bb \<Longrightarrow> in_range bb es \<Longrightarrow> flattened S bb es bb es"
  by (auto simp: flattened_def runs_to_def intro!: exI [of _ "[]"])

lemma runs_to_append:
  assumes "runs_to S bb xs es es'" "runs_to S bb1 ys fs fs'" "env_ext (tyenv bb) (tyenv bb1)"
    and "in_range bb1 es'" "in_range bb fs"
  shows "runs_to S bb (xs @ ys) (es @ fs) (es' @ fs')"
  unfolding runs_to_def
proof (intro allI)
  fix r w
  obtain r1 where r1: "exec S (r, w) (map Some xs) = Inr (r1, w)" "agree {..<types_used (tyenv bb)} r r1"
      "map (eval S r1 w) es' = map (eval S r w) es"
    using assms(1) unfolding runs_to_def by blast
  obtain r2 where r2: "exec S (r1, w) (map Some ys) = Inr (r2, w)" "agree {..<types_used (tyenv bb1)} r1 r2"
      "map (eval S r2 w) fs' = map (eval S r1 w) fs"
    using assms(2) unfolding runs_to_def by blast
  have "agree {..<types_used (tyenv bb)} r1 r2"
    using r2(2) env_ext_used [OF assms(3)] by (elim agree_subset) auto
  then have "agree {..<types_used (tyenv bb)} r r2" by (rule agree_trans [OF r1(2)])
  moreover have "map (eval S r2 w) es' = map (eval S r1 w) es'"
    by (rule in_range_agree [OF assms(4) r2(2), symmetric])
  moreover have "map (eval S r1 w) fs = map (eval S r w) fs"
    by (rule in_range_agree [OF assms(5) r1(2), symmetric])
  ultimately show "\<exists>r'. exec S (r, w) (map Some (xs @ ys)) = Inr (r', w)
      \<and> agree {..<types_used (tyenv bb)} r r' \<and> map (eval S r' w) (es' @ fs') = map (eval S r w) (es @ fs)"
    using r1 r2 by (auto simp: exec_append intro!: exI [of _ r2])
qed

lemma flattened_append:
  assumes "flattened S bb es bb1 es'" "flattened S bb1 fs bb2 fs'" "in_range bb fs"
  shows "flattened S bb (es @ fs) bb2 (es' @ fs')"
proof -
  from assms(1) obtain xs where xs: "env_ext (tyenv bb) (tyenv bb1)" "in_range bb1 es'" "length es' = length es"
      "stmts bb1 = stmts bb @ map Some xs" "\<forall>st\<in>set xs. isFlatIRStmt st = Inr True" "runs_to S bb xs es es'"
    by (elim flattenedE)
  from assms(2) obtain ys where ys: "wf_sb bb2" "env_ext (tyenv bb1) (tyenv bb2)" "in_range bb2 fs'"
      "length fs' = length fs" "stmts bb2 = stmts bb1 @ map Some ys"
      "\<forall>st\<in>set ys. isFlatIRStmt st = Inr True" "runs_to S bb1 ys fs fs'"
    by (elim flattenedE)
  show ?thesis
    unfolding flattened_def
    using xs ys assms(3) runs_to_append [OF xs(6) ys(7) xs(1,2) assms(3)] in_range_mono [OF xs(2) ys(2)]
    by (auto intro!: exI [of _ "xs @ ys"] elim: env_ext_trans)
qed

section \<open>New temporaries\<close>

lemma new_tmpD:
  assumes "new_tmp bb ty = Inr (bb0, t)" "wf_sb bb"
  shows "bb0 = bb\<lparr>tyenv := push_type (tyenv bb) ty\<rparr>" "t = types_used (tyenv bb)" "wf_sb bb0"
    "types_used (tyenv bb0) = Suc t" "stmts bb0 = stmts bb" "env_ext (tyenv bb) (tyenv bb0)"
proof -
  have "Inr (bb0, t) = (Inr (bb\<lparr>tyenv := push_type (tyenv bb) ty\<rparr>, types_used (tyenv bb)) :: (IRSB \<times> IRTemp) res)"
    using assms by (simp add: new_tmp_def newIRTemp_ok)
  then have eq: "bb0 = bb\<lparr>tyenv := push_type (tyenv bb) ty\<rparr>" "t = types_used (tyenv bb)"
    by blast+
  show "bb0 = bb\<lparr>tyenv := push_type (tyenv bb) ty\<rparr>" "t = types_used (tyenv bb)" by (fact eq)+
  show "wf_sb bb0" "types_used (tyenv bb0) = Suc t" "stmts bb0 = stmts bb" "env_ext (tyenv bb) (tyenv bb0)"
    using assms(2) eq by simp_all
qed

lemma flattened_before:
  assumes "new_tmp bb ty = Inr (bb0, t)" "wf_sb bb" "flattened S bb0 es bb1 es'"
  shows "flattened S bb es bb1 es'"
proof -
  note nt = new_tmpD [OF assms(1,2)]
  have "runs_to S bb sts es es'" if run: "runs_to S bb0 sts es es'" for sts
    unfolding runs_to_def
  proof (intro allI)
    fix r w
    obtain r' where "exec S (r, w) (map Some sts) = Inr (r', w)" "agree {..<types_used (tyenv bb0)} r r'"
        "map (eval S r' w) es' = map (eval S r w) es"
      using run unfolding runs_to_def by blast
    moreover have "{..<types_used (tyenv bb)} \<subseteq> {..<types_used (tyenv bb0)}" using nt(2,4) by simp
    ultimately show "\<exists>r'. exec S (r, w) (map Some sts) = Inr (r', w)
        \<and> agree {..<types_used (tyenv bb)} r r' \<and> map (eval S r' w) es' = map (eval S r w) es"
      using agree_subset by blast
  qed
  then show ?thesis
    using assms(3) nt(5,6) unfolding flattened_def by (auto elim: env_ext_trans)
qed

lemma flattened_after:
  assumes "new_tmp bb1 ty = Inr (bb2, t)" "flattened S bb es bb1 es'"
  shows "flattened S bb es bb2 es'"
proof -
  have "wf_sb bb1" using assms(2) by (simp add: flattened_def)
  note nt = new_tmpD [OF assms(1) this]
  show ?thesis
    using assms(2) nt(3,5,6) in_range_mono [of bb1 es' bb2] unfolding flattened_def
    by (auto elim: env_ext_trans)
qed

lemma emit_tmpD:
  assumes "emit_tmp bb t e = Inr (bb', y)" "wf_sb bb"
  shows "bb' = push_stmt bb (Some (Ist_WrTmp t e))" "y = Iex_RdTmp t"
  using assms by (auto simp: emit_tmp_def addStmtToIRSB_ok)

lemma flattened_emit:
  assumes "flattened S bb es bb1 es'" "emit_tmp bb1 t x' = Inr (bb2, y)"
    and "types_used (tyenv bb) \<le> t" "t < types_used (tyenv bb1)" "isFlatRHS x' = Inr True"
    and ev: "\<And>r r' w. map (eval S r' w) es' = map (eval S r w) es \<Longrightarrow> eval S r' w x' = eval S r w x"
  shows "flattened S bb [x] bb2 [y] \<and> isIRAtom y"
proof -
  obtain sts where sts: "wf_sb bb1" "env_ext (tyenv bb) (tyenv bb1)" "stmts bb1 = stmts bb @ map Some sts"
      "\<forall>st\<in>set sts. isFlatIRStmt st = Inr True" "runs_to S bb sts es es'"
    using assms(1) by (elim flattenedE)
  note em = emit_tmpD [OF assms(2) sts(1)]
  have "runs_to S bb (sts @ [Ist_WrTmp t x']) [x] [y]"
    unfolding runs_to_def
  proof (intro allI)
    fix r w
    obtain r1 where r1: "exec S (r, w) (map Some sts) = Inr (r1, w)" "agree {..<types_used (tyenv bb)} r r1"
        "map (eval S r1 w) es' = map (eval S r w) es"
      using sts(5) unfolding runs_to_def by blast
    then show "\<exists>r'. exec S (r, w) (map Some (sts @ [Ist_WrTmp t x'])) = Inr (r', w)
        \<and> agree {..<types_used (tyenv bb)} r r' \<and> map (eval S r' w) [y] = map (eval S r w) [x]"
      using ev [OF r1(3)] assms(3) em(2)
      by (auto simp: exec_append exec_stmt_def agree_def)
  qed
  then show ?thesis
    using sts em assms(4,5) unfolding flattened_def by (auto intro!: exI [of _ "sts @ [Ist_WrTmp t x']"])
qed

lemma flattened_node:
  assumes "new_tmp bb ty = Inr (bb0, t)" "wf_sb bb" "flattened S bb0 es bb1 es'" "emit_tmp bb1 t x' = Inr (bb2, y)"
    and "isFlatRHS x' = Inr True"
    and "\<And>r r' w. map (eval S r' w) es' = map (eval S r w) es \<Longrightarrow> eval S r' w x' = eval S r w x"
  shows "flattened S bb [x] bb2 [y] \<and> isIRAtom y"
proof (rule flattened_emit [OF flattened_before [OF assms(1-3)] assms(4) _ _ assms(5,6)])
  note nt = new_tmpD [OF assms(1,2)]
  show "types_used (tyenv bb) \<le> t" using nt(2) by simp
  show "t < types_used (tyenv bb1)"
    using nt(4) assms(3) env_ext_used [of "tyenv bb0" "tyenv bb1"] by (simp add: flattened_def)
qed

section \<open>The flattener\<close>

text \<open>The arguments of an expression are flattened one after the other, as the arguments of a call are.\<close>

lemma flatten_Exprs_flattened:
  assumes "\<And>e bb bb' e'. e \<in> set es \<Longrightarrow> flatten_Expr bb e = Inr (bb', e') \<Longrightarrow> wf_sb bb \<Longrightarrow> in_range bb [e] \<Longrightarrow>
      flattened S bb [e] bb' [e'] \<and> isIRAtom e'"
    and "flatten_Exprs bb es = Inr (bb', es')" "wf_sb bb" "in_range bb es"
  shows "flattened S bb es bb' es' \<and> list_all isIRAtom es'"
  using assms
proof (induction es arbitrary: bb bb' es')
  case Nil
  then show ?case by (simp add: flattened_refl)
next
  case (Cons e es)
  then obtain bb1 e1 es1 where s: "flatten_Expr bb e = Inr (bb1, e1)" "flatten_Exprs bb1 es = Inr (bb', es1)"
      "es' = e1 # es1"
    by (auto simp: res_iff)
  have f: "flattened S bb [e] bb1 [e1] \<and> isIRAtom e1"
    using Cons.prems(1) [OF _ s(1)] Cons.prems(3,4) by simp
  then have w: "wf_sb bb1" "in_range bb1 es" using Cons.prems(4) by (auto simp: flattened_def elim: in_range_mono)
  have g: "flattened S bb1 es bb' es1 \<and> list_all isIRAtom es1"
    using Cons.IH [OF Cons.prems(1) s(2) w] by simp
  with f flattened_append [of S bb "[e]" bb1 "[e1]" es bb' es1] Cons.prems(4) show ?case by (simp add: s(3))
qed

definition flattens_well :: "('v, 'w) ir_sem \<Rightarrow> IRExpr \<Rightarrow> bool" where
  "flattens_well S e \<longleftrightarrow> (\<forall>bb bb' e'. flatten_Expr bb e = Inr (bb', e') \<longrightarrow> wf_sb bb \<longrightarrow> in_range bb [e] \<longrightarrow>
     flattened S bb [e] bb' [e'] \<and> isIRAtom e')"

lemma flattens_args:
  assumes "\<And>e. e \<in> set es \<Longrightarrow> flattens_well S e"
    and "flatten_Exprs bb es = Inr (bb', es')" "wf_sb bb" "in_range bb es"
  shows "flattened S bb es bb' es' \<and> list_all isIRAtom es'"
  using assms(1) by (intro flatten_Exprs_flattened [OF _ assms(2-4)]) (auto simp: flattens_well_def)

lemma flattens_node:
  assumes "new_tmp bb ty = Inr (bb0, t)" "wf_sb bb" "in_range bb es" "\<And>e. e \<in> set es \<Longrightarrow> flattens_well S e"
    and "flatten_Exprs bb0 es = Inr (bb1, es')" "emit_tmp bb1 t x' = Inr (bb2, y)"
    and "list_all isIRAtom es' \<Longrightarrow> isFlatRHS x' = Inr True"
    and "\<And>r r' w. map (eval S r' w) es' = map (eval S r w) es \<Longrightarrow> eval S r' w x' = eval S r w x"
  shows "flattened S bb [x] bb2 [y] \<and> isIRAtom y"
proof -
  note nt = new_tmpD [OF assms(1,2)]
  have "flattened S bb0 es bb1 es' \<and> list_all isIRAtom es'"
    by (rule flattens_args [OF assms(4,5) nt(3) in_range_mono [OF assms(3) nt(6)]])
  then show ?thesis
    using assms(7) by (intro flattened_node [OF assms(1,2) _ assms(6) _ assms(8)]) auto
qed

text \<open>The common form of the flattener's cases: a new temporary, the arguments, an assignment.\<close>

definition flatten_node :: "IRExpr \<Rightarrow> IRExpr list \<Rightarrow> (IRExpr list \<Rightarrow> IRExpr) \<Rightarrow> IRSB \<Rightarrow> (IRSB \<times> IRExpr) res" where
  "flatten_node x es C bb =
     bindR (typeOfIRExpr (tyenv bb) x) (\<lambda>ty. bindR (new_tmp bb ty) (\<lambda>(bb, t).
     bindR (flatten_Exprs bb es) (\<lambda>(bb, es'). emit_tmp bb t (C es'))))"

lemma flattens_wellI:
  assumes "\<And>bb. flatten_Expr bb x = flatten_node x es C bb"
    and "\<And>e. e \<in> set es \<Longrightarrow> flattens_well S e" "\<And>e. e \<in> set es \<Longrightarrow> temps_of e \<subseteq> temps_of x"
    and "\<And>es'. length es' = length es \<Longrightarrow> list_all isIRAtom es' \<Longrightarrow> isFlatRHS (C es') = Inr True"
    and "\<And>r r' w es'. map (eval S r' w) es' = map (eval S r w) es \<Longrightarrow> eval S r' w (C es') = eval S r w x"
  shows "flattens_well S x"
  unfolding flattens_well_def
proof (intro allI impI)
  fix bb bb' y assume h: "flatten_Expr bb x = Inr (bb', y)" "wf_sb bb" "in_range bb [x]"
  then obtain ty bb0 t bb1 es' where s: "new_tmp bb ty = Inr (bb0, t)" "flatten_Exprs bb0 es = Inr (bb1, es')"
      "emit_tmp bb1 t (C es') = Inr (bb', y)"
    by (auto simp: assms(1) flatten_node_def res_iff)
  note nt = new_tmpD [OF s(1) h(2)]
  have range: "in_range bb es" using h(3) assms(3) by (fastforce simp: in_range_def)
  have "length es' = length es"
    using flattens_args [OF assms(2) s(2) nt(3) in_range_mono [OF range nt(6)]] by (simp add: flattened_def)
  with range show "flattened S bb [x] bb' [y] \<and> isIRAtom y"
    using assms(4) by (intro flattens_node [OF s(1) h(2) _ assms(2) s(2,3) _ assms(5)]) auto
qed

lemmas flatten_node_simps = flatten_node_def bindR_assoc split_def

lemma flatten_Expr_well: "flattens_well S e"
proof (induction e)
  case (Iex_Binder x)
  show ?case by (simp add: flattens_well_def)
next
  case (Iex_Get off ty)
  show ?case
    by (rule flattens_wellI [where es = "[]" and C = "\<lambda>_. Iex_Get off ty"]) (simp_all add: flatten_node_simps)
next
  case (Iex_GetI descr ix bias)
  show ?case
    by (rule flattens_wellI [where es = "[ix]" and C = "\<lambda>xs. Iex_GetI descr (xs ! 0) bias"])
      (auto simp: flatten_node_simps Iex_GetI.IH length_Suc_conv)
next
  case (Iex_RdTmp t)
  show ?case by (auto simp: flattens_well_def res_iff intro!: flattened_refl)
next
  case (Iex_Qop op a b c d)
  show ?case
    by (rule flattens_wellI [where es = "[a, b, c, d]" and C = "\<lambda>xs. Iex_Qop op (xs ! 0) (xs ! 1) (xs ! 2) (xs ! 3)"])
      (auto simp: flatten_node_simps Iex_Qop.IH length_Suc_conv numeral_2_eq_2 numeral_3_eq_3)
next
  case (Iex_Triop op a b c)
  show ?case
    by (rule flattens_wellI [where es = "[a, b, c]" and C = "\<lambda>xs. Iex_Triop op (xs ! 0) (xs ! 1) (xs ! 2)"])
      (auto simp: flatten_node_simps Iex_Triop.IH length_Suc_conv numeral_2_eq_2)
next
  case (Iex_Binop op a b)
  show ?case
    by (rule flattens_wellI [where es = "[a, b]" and C = "\<lambda>xs. Iex_Binop op (xs ! 0) (xs ! 1)"])
      (auto simp: flatten_node_simps Iex_Binop.IH length_Suc_conv)
next
  case (Iex_Unop op a)
  show ?case
    by (rule flattens_wellI [where es = "[a]" and C = "\<lambda>xs. Iex_Unop op (xs ! 0)"])
      (auto simp: flatten_node_simps Iex_Unop.IH length_Suc_conv)
next
  case (Iex_Load en ty a)
  show ?case
    by (rule flattens_wellI [where es = "[a]" and C = "\<lambda>xs. Iex_Load en ty (xs ! 0)"])
      (auto simp: flatten_node_simps Iex_Load.IH length_Suc_conv)
next
  case (Iex_Const c)
  have "flattens_well S (Iex_Const c)" if "c = Ico_F64i x" for x
    by (rule flattens_wellI [where es = "[]" and C = "\<lambda>_. Iex_Const c"]) (simp_all add: flatten_node_simps that)
  moreover have "flattens_well S (Iex_Const c)" if "\<And>x. c \<noteq> Ico_F64i x"
    using that by (cases c) (auto simp: flattens_well_def intro!: flattened_refl)
  ultimately show ?case by blast
next
  case (Iex_ITE c a b)
  show ?case
    by (rule flattens_wellI [where es = "[c, a, b]" and C = "\<lambda>xs. Iex_ITE (xs ! 0) (xs ! 1) (xs ! 2)"])
      (auto simp: flatten_node_simps Iex_ITE.IH length_Suc_conv numeral_2_eq_2)
next
  case (Iex_CCall cee rty args)
  show ?case
    unfolding flattens_well_def
  proof (intro allI impI)
    fix bb bb' y assume h: "flatten_Expr bb (Iex_CCall cee rty args) = Inr (bb', y)" "wf_sb bb"
      "in_range bb [Iex_CCall cee rty args]"
    then obtain bb1 es' bb2 t where s: "flatten_Exprs bb args = Inr (bb1, es')" "new_tmp bb1 rty = Inr (bb2, t)"
        "emit_tmp bb2 t (Iex_CCall cee rty es') = Inr (bb', y)"
      by (auto simp: res_iff)
    have "in_range bb args" using h(3) by (auto simp: in_range_def)
    then have f: "flattened S bb args bb1 es' \<and> list_all isIRAtom es'"
      by (intro flattens_args [OF Iex_CCall.IH s(1) h(2)])
    then have nt: "t = types_used (tyenv bb1)" "types_used (tyenv bb2) = Suc t"
      using new_tmpD [OF s(2)] by (simp_all add: flattened_def)
    show "flattened S bb [Iex_CCall cee rty args] bb' [y] \<and> isIRAtom y"
      using f nt env_ext_used [of "tyenv bb" "tyenv bb1"]
      by (intro flattened_emit [OF flattened_after [OF s(2) conjunct1 [OF f]] s(3)]) (auto simp: flattened_def)
  qed
qed (simp_all add: flattens_well_def)

lemmas flatten_Expr_flattened = flatten_Expr_well [unfolded flattens_well_def, rule_format]

section \<open>Statements\<close>

lemma flatten_opt_flattened:
  assumes "flatten_opt bb x = Inr (bb', x')" "wf_sb bb" "in_range bb (opt_list x)"
  shows "flattened S bb (opt_list x) bb' (opt_list x') \<and> (x' = None \<longleftrightarrow> x = None) \<and> atom_or_null x'"
proof (cases x)
  case (Some e)
  then show ?thesis
    using assms by (auto simp: flatten_opt_def res_iff dest!: flatten_Expr_flattened [where S = S])
qed (use assms in \<open>auto simp: flatten_opt_def intro: flattened_refl\<close>)

definition special_or_hole :: "IRExpr \<Rightarrow> IRExpr" where
  "special_or_hole a = (if is_IRExpr_VECRET_or_GSPTR a then a else hole)"

lemma flatten_args_flattened:
  assumes "flatten_args bb es = Inr (bb', es')" "wf_sb bb" "in_range bb es"
  shows "flattened S bb es bb' es' \<and> list_all isIRAtom_or_VECRET_or_GSPTR es'
    \<and> map special_or_hole es' = map special_or_hole es"
  using assms
proof (induction es arbitrary: bb bb' es')
  case Nil
  then show ?case by (simp add: flattened_refl)
next
  case (Cons e es)
  then obtain bb1 e1 es1 where
      s: "(if \<not> is_IRExpr_VECRET_or_GSPTR e then flatten_Expr bb e else Inr (bb, e)) = Inr (bb1, e1)"
        "flatten_args bb1 es = Inr (bb', es1)" "es' = e1 # es1"
    by (auto simp: res_iff)
  have f: "flattened S bb [e] bb1 [e1] \<and> isIRAtom_or_VECRET_or_GSPTR e1 \<and> special_or_hole e1 = special_or_hole e"
  proof (cases "is_IRExpr_VECRET_or_GSPTR e")
    case True
    with s(1) Cons.prems show ?thesis by (auto simp: isIRAtom_or_VECRET_or_GSPTR_def intro: flattened_refl)
  next
    case False
    then have "flattened S bb [e] bb1 [e1] \<and> isIRAtom e1"
      using flatten_Expr_flattened [of bb e bb1 e1 S] s(1) Cons.prems by auto
    with False show ?thesis by (cases e1) (auto simp: isIRAtom_or_VECRET_or_GSPTR_def special_or_hole_def)
  qed
  then have "flattened S bb1 es bb' es1 \<and> list_all isIRAtom_or_VECRET_or_GSPTR es1
      \<and> map special_or_hole es1 = map special_or_hole es"
    using Cons.prems(3) by (intro Cons.IH [OF s(2)]) (auto simp: flattened_def elim: in_range_mono)
  with f flattened_append [of S bb "[e]" bb1 "[e1]" es bb' es1] Cons.prems(3) show ?case by (simp add: s(3))
qed

text \<open>What the flattener appends for a statement: the assignments of its arguments, then the statement
  with its arguments replaced by atoms.\<close>

definition stmt_flattened :: "('v, 'w) ir_sem \<Rightarrow> IRSB \<Rightarrow> IRStmt \<Rightarrow> IRSB \<Rightarrow> bool" where
  "stmt_flattened S bb st bb' \<longleftrightarrow>
     (\<exists>bb1 st'. flattened S bb (stmt_args st) bb1 (stmt_args st') \<and> addStmtToIRSB bb1 (Some st') = Inr bb'
        \<and> stmt_shape st' = stmt_shape st \<and> isFlatIRStmt st' = Inr True)"

lemma stmt_flattenedI:
  "flattened S bb es bb1 es' \<Longrightarrow> addStmtToIRSB bb1 (Some st') = Inr bb' \<Longrightarrow> stmt_args st = es \<Longrightarrow>
     stmt_args st' = es' \<Longrightarrow> stmt_shape st' = stmt_shape st \<Longrightarrow> isFlatIRStmt st' = Inr True \<Longrightarrow>
     stmt_flattened S bb st bb'"
  unfolding stmt_flattened_def by blast

lemma stmt_flattened_kept:
  "addStmtToIRSB bb (Some st) = Inr bb' \<Longrightarrow> wf_sb bb \<Longrightarrow> in_range bb (stmt_args st) \<Longrightarrow> isFlatIRStmt st = Inr True \<Longrightarrow>
     stmt_flattened S bb st bb'"
  unfolding stmt_flattened_def by (intro exI [of _ bb] exI [of _ st]) (auto intro: flattened_refl)

lemma isFlat_flat: "isFlat e \<Longrightarrow> isFlatRHS e = Inr True"
  by (cases e) (auto simp: isFlat_def)

lemma stmt_flattened_args:
  assumes "flatten_Exprs bb (stmt_args st) = Inr (bb1, es')" "wf_sb bb" "in_range bb (stmt_args st)"
    and "addStmtToIRSB bb1 (Some st') = Inr bb'" "stmt_args st' = es'" "stmt_shape st' = stmt_shape st"
    and "list_all isIRAtom es' \<Longrightarrow> isFlatIRStmt st' = Inr True"
  shows "stmt_flattened S bb st bb'"
  using flattens_args [OF flatten_Expr_well assms(1-3), of S] assms(4-7)
  unfolding stmt_flattened_def by (intro exI [of _ bb1] exI [of _ st']) auto

text \<open>Flattening the next argument, from what the earlier ones have become.\<close>

lemma flattened_next:
  assumes "flattened S bb es b1 es'" "in_range bb fs"
  shows "flatten_Expr b1 e = Inr (b2, e') \<Longrightarrow> fs = [e] \<Longrightarrow> flattened S bb (es @ fs) b2 (es' @ [e']) \<and> isIRAtom e'"
    and "flatten_opt b1 x = Inr (b2, x') \<Longrightarrow> fs = opt_list x \<Longrightarrow>
      flattened S bb (es @ fs) b2 (es' @ opt_list x') \<and> (x' = None \<longleftrightarrow> x = None) \<and> atom_or_null x'"
    and "flatten_args b1 fs = Inr (b2, fs') \<Longrightarrow>
      flattened S bb (es @ fs) b2 (es' @ fs') \<and> list_all isIRAtom_or_VECRET_or_GSPTR fs'
        \<and> map special_or_hole fs' = map special_or_hole fs"
proof -
  have w: "wf_sb b1" "in_range b1 fs" using assms by (auto simp: flattened_def elim: in_range_mono)
  note app = flattened_append [OF assms(1) _ assms(2)]
  show "flattened S bb (es @ fs) b2 (es' @ [e']) \<and> isIRAtom e'" if "flatten_Expr b1 e = Inr (b2, e')" "fs = [e]"
    using flatten_Expr_flattened [OF that(1) w(1)] w(2) app that(2) by blast
  show "flattened S bb (es @ fs) b2 (es' @ opt_list x') \<and> (x' = None \<longleftrightarrow> x = None) \<and> atom_or_null x'"
    if "flatten_opt b1 x = Inr (b2, x')" "fs = opt_list x"
    using flatten_opt_flattened [OF that(1) w(1)] w(2) app that(2) by blast
  show "flattened S bb (es @ fs) b2 (es' @ fs') \<and> list_all isIRAtom_or_VECRET_or_GSPTR fs'
      \<and> map special_or_hole fs' = map special_or_hole fs" if "flatten_args b1 fs = Inr (b2, fs')"
    using flatten_args_flattened [OF that w] app by blast
qed

lemma flatten_CAS_flattened:
  assumes "flatten_Stmt bb (Ist_CAS c) = Inr bb'" "wf_sb bb" "in_range bb (stmt_args (Ist_CAS c))"
  shows "stmt_flattened S bb (Ist_CAS c) bb'"
proof -
  obtain b1 e1 b2 e2 b3 e3 b4 e4 b5 e5 where s: "flatten_Expr bb (cas_addr c) = Inr (b1, e1)"
      "flatten_opt b1 (cas_expdHi c) = Inr (b2, e2)" "flatten_Expr b2 (cas_expdLo c) = Inr (b3, e3)"
      "flatten_opt b3 (cas_dataHi c) = Inr (b4, e4)" "flatten_Expr b4 (cas_dataLo c) = Inr (b5, e5)"
      "addStmtToIRSB b5 (Some (Ist_CAS (mkIRCAS (cas_oldHi c) (cas_oldLo c) (cas_end c) e1 e2 e3 e4 e5))) = Inr bb'"
    using assms(1) by (auto simp: res_iff)
  have rg: "in_range bb [cas_addr c]" "in_range bb (opt_list (cas_expdHi c))" "in_range bb [cas_expdLo c]"
      "in_range bb (opt_list (cas_dataHi c))" "in_range bb [cas_dataLo c]"
    using assms(3) by simp_all
  note f1 = flatten_Expr_flattened [OF s(1) assms(2) rg(1), of S]
  note f2 = flattened_next(2) [OF conjunct1 [OF f1] rg(2) s(2) refl]
  note f3 = flattened_next(1) [OF conjunct1 [OF f2] rg(3) s(3) refl]
  note f4 = flattened_next(2) [OF conjunct1 [OF f3] rg(4) s(4) refl]
  note f5 = flattened_next(1) [OF conjunct1 [OF f4] rg(5) s(5) refl]
  show ?thesis
    by (rule stmt_flattenedI [OF conjunct1 [OF f5] s(6)])
      (use f1 f2 f3 f4 f5 in \<open>auto simp: mkIRCAS_def map_option_case split: option.splits\<close>)
qed

lemma flatten_LLSC_flattened:
  assumes "flatten_Stmt bb (Ist_LLSC en result addr sd) = Inr bb'" "wf_sb bb"
    and "in_range bb (stmt_args (Ist_LLSC en result addr sd))"
  shows "stmt_flattened S bb (Ist_LLSC en result addr sd) bb'"
proof -
  obtain b1 e1 b2 e2 where s: "flatten_Expr bb addr = Inr (b1, e1)" "flatten_opt b1 sd = Inr (b2, e2)"
      "addStmtToIRSB b2 (Some (Ist_LLSC en result e1 e2)) = Inr bb'"
    using assms(1) by (auto simp: res_iff)
  have rg: "in_range bb [addr]" "in_range bb (opt_list sd)" using assms(3) by simp_all
  note f1 = flatten_Expr_flattened [OF s(1) assms(2) rg(1), of S]
  note f2 = flattened_next(2) [OF conjunct1 [OF f1] rg(2) s(2) refl]
  show ?thesis
    by (rule stmt_flattenedI [OF conjunct1 [OF f2] s(3)])
      (use f1 f2 in \<open>auto simp: map_option_case split: option.splits\<close>)
qed

text \<open>The memory address of a dirty call is there exactly when the call accesses memory.\<close>

definition flatten_mAddr :: "IRSB \<Rightarrow> IRDirty \<Rightarrow> (IRSB \<times> IRExpr option) res" where
  "flatten_mAddr bb d = (if d_mFx d \<noteq> Ifx_None
     then bindR (optR NullDeref (d_mAddr d)) (\<lambda>a. bindR (flatten_Expr bb a) (\<lambda>(bb, a'). Inr (bb, Some a')))
     else bindR (assertR (d_mAddr d = None) (VAssert ''d2->mAddr == NULL'')) (\<lambda>_. Inr (bb, None)))"

lemma flatten_mAddr_flattened:
  assumes "flatten_mAddr bb d = Inr (bb', m)" "wf_sb bb"
    and "in_range bb (if d_mFx d \<noteq> Ifx_None then opt_list (d_mAddr d) else [])"
  shows "flattened S bb (if d_mFx d \<noteq> Ifx_None then opt_list (d_mAddr d) else []) bb' (opt_list m)
    \<and> (m = None \<longleftrightarrow> d_mAddr d = None) \<and> (d_mFx d = Ifx_None \<longrightarrow> m = None) \<and> atom_or_null m"
proof (cases "d_mFx d = Ifx_None")
  case True
  with assms show ?thesis by (auto simp: flatten_mAddr_def res_iff intro: flattened_refl)
next
  case False
  with assms show ?thesis
    by (auto simp: flatten_mAddr_def res_iff dest!: flatten_Expr_flattened [where S = S])
qed

lemma flatten_Dirty_flattened:
  assumes "flatten_Stmt bb (Ist_Dirty d) = Inr bb'" "wf_sb bb" "in_range bb (stmt_args (Ist_Dirty d))"
  shows "stmt_flattened S bb (Ist_Dirty d) bb'"
proof -
  obtain args b1 m g b2 g' b3 args' where s: "d_args d = Some args" "flatten_mAddr bb d = Inr (b1, m)"
      "d_guard d = Some g" "flatten_Expr b1 g = Inr (b2, g')" "flatten_args b2 args = Inr (b3, args')"
      "addStmtToIRSB b3 (Some (Ist_Dirty (d\<lparr>d_mAddr := m, d_guard := Some g', d_args := Some args'\<rparr>))) = Inr bb'"
    using assms(1) unfolding flatten_Stmt.simps flatten_mAddr_def [symmetric]
    by (auto simp del: split_paired_Ex elim!: bindR_InrE simp: optR_eq_Inr)
  have rg: "in_range bb (if d_mFx d \<noteq> Ifx_None then opt_list (d_mAddr d) else [])" "in_range bb [g]"
      "in_range bb args"
    using assms(3) s(1,3) by simp_all
  note f1 = flatten_mAddr_flattened [OF s(2) assms(2) rg(1), of S]
  note f2 = flattened_next(1) [OF conjunct1 [OF f1] rg(2) s(4) refl]
  note f3 = flattened_next(3) [OF conjunct1 [OF f2] rg(3) s(5)]
  have sh: "map_option (\<lambda>_. hole) m = map_option (\<lambda>_. hole) (d_mAddr d)"
    using f1 by (cases m; cases "d_mAddr d") auto
  show ?thesis
    by (rule stmt_flattenedI [OF conjunct1 [OF f3] s(6)])
      (use f1 f2 f3 s(1,3) sh in \<open>auto simp: special_or_hole_def [abs_def]\<close>)
qed

lemma flatten_Stmt_flattened:
  assumes "flatten_Stmt bb st = Inr bb'" "wf_sb bb" "in_range bb (stmt_args st)"
  shows "stmt_flattened S bb st bb'"
proof (cases st)
  case (Ist_Put off dat)
  then show ?thesis
  proof (cases "isIRAtom dat")
    case False
    with Ist_Put assms obtain b1 e1 where s: "flatten_Exprs bb [dat] = Inr (b1, [e1])"
        "addStmtToIRSB b1 (Some (Ist_Put off e1)) = Inr bb'"
      by (auto simp: res_iff)
    with Ist_Put assms(2,3) show ?thesis by (intro stmt_flattened_args [OF _ _ _ s(2)]) auto
  qed (use Ist_Put assms in \<open>auto intro!: stmt_flattened_kept\<close>)
next
  case (Ist_WrTmp t dat)
  then show ?thesis
  proof (cases "isFlat dat")
    case False
    with Ist_WrTmp assms obtain b1 e1 where s: "flatten_Exprs bb [dat] = Inr (b1, [e1])"
        "addStmtToIRSB b1 (Some (Ist_WrTmp t e1)) = Inr bb'"
      by (auto simp: res_iff)
    with Ist_WrTmp assms(2,3) show ?thesis by (intro stmt_flattened_args [OF _ _ _ s(2)]) (auto intro: atom_flat)
  qed (use Ist_WrTmp assms in \<open>auto intro!: stmt_flattened_kept isFlat_flat\<close>)
next
  case (Ist_PutI p)
  with assms obtain b1 e1 e2 where s: "flatten_Exprs bb [puti_ix p, puti_data p] = Inr (b1, [e1, e2])"
      "addStmtToIRSB b1 (Some (Ist_PutI (mkIRPutI (puti_descr p) e1 (puti_bias p) e2))) = Inr bb'"
    by (auto simp: res_iff)
  with Ist_PutI assms(2,3) show ?thesis by (intro stmt_flattened_args [OF _ _ _ s(2)]) (auto simp: mkIRPutI_def)
next
  case (Ist_Store en addr dat)
  with assms obtain b1 e1 e2 where s: "flatten_Exprs bb [addr, dat] = Inr (b1, [e1, e2])"
      "addStmtToIRSB b1 (Some (Ist_Store en e1 e2)) = Inr bb'"
    by (auto simp: res_iff)
  with Ist_Store assms(2,3) show ?thesis by (intro stmt_flattened_args [OF _ _ _ s(2)]) auto
next
  case (Ist_StoreG sg)
  with assms obtain b1 e1 e2 e3 where
      s: "flatten_Exprs bb [sg_addr sg, sg_data sg, sg_guard sg] = Inr (b1, [e1, e2, e3])"
      "addStmtToIRSB b1 (Some (Ist_StoreG (mkIRStoreG (sg_end sg) e1 e2 e3))) = Inr bb'"
    by (auto simp: res_iff)
  with Ist_StoreG assms(2,3) show ?thesis by (intro stmt_flattened_args [OF _ _ _ s(2)]) (auto simp: mkIRStoreG_def)
next
  case (Ist_LoadG lg)
  with assms obtain b1 e1 e2 e3 where
      s: "flatten_Exprs bb [lg_addr lg, lg_alt lg, lg_guard lg] = Inr (b1, [e1, e2, e3])"
      "addStmtToIRSB b1 (Some (Ist_LoadG (mkIRLoadG (lg_end lg) (lg_cvt lg) (lg_dst lg) e1 e2 e3))) = Inr bb'"
    by (auto simp: res_iff)
  with Ist_LoadG assms(2,3) show ?thesis by (intro stmt_flattened_args [OF _ _ _ s(2)]) (auto simp: mkIRLoadG_def)
next
  case (Ist_AbiHint base len nia)
  with assms obtain b1 e1 e2 where s: "flatten_Exprs bb [base, nia] = Inr (b1, [e1, e2])"
      "addStmtToIRSB b1 (Some (Ist_AbiHint e1 len e2)) = Inr bb'"
    by (auto simp: res_iff)
  with Ist_AbiHint assms(2,3) show ?thesis by (intro stmt_flattened_args [OF _ _ _ s(2)]) auto
next
  case (Ist_Exit g jk dst off)
  with assms obtain b1 e1 where s: "flatten_Exprs bb [g] = Inr (b1, [e1])"
      "addStmtToIRSB b1 (Some (Ist_Exit e1 jk dst off)) = Inr bb'"
    by (auto simp: res_iff)
  with Ist_Exit assms(2,3) show ?thesis by (intro stmt_flattened_args [OF _ _ _ s(2)]) auto
next
  case (Ist_CAS c)
  with assms show ?thesis by (simp only: flatten_CAS_flattened)
next
  case (Ist_LLSC en result addr sd)
  with assms show ?thesis by (simp only: flatten_LLSC_flattened)
next
  case (Ist_Dirty d)
  with assms show ?thesis by (simp only: flatten_Dirty_flattened)
qed (use assms in \<open>auto intro!: stmt_flattened_kept\<close>)

section \<open>Runs\<close>

lemma stmt_defs_shape: "stmt_defs (stmt_shape st) = stmt_defs st"
  by (cases st) simp_all

lemma guard_holds_shape:
  assumes "stmt_shape (Ist_Dirty d') = stmt_shape (Ist_Dirty d)"
    and "map (eval S r' w) (stmt_args (Ist_Dirty d')) = map (eval S r w) (stmt_args (Ist_Dirty d))"
  shows "guard_holds S (r', w) d' = guard_holds S (r, w) d"
proof -
  have eq: "d'\<lparr>d_mAddr := map_option (\<lambda>_. hole) (d_mAddr d'), d_guard := map_option (\<lambda>_. hole) (d_guard d'),
        d_args := map_option (map (\<lambda>a. if is_IRExpr_VECRET_or_GSPTR a then a else hole)) (d_args d')\<rparr>
      = d\<lparr>d_mAddr := map_option (\<lambda>_. hole) (d_mAddr d), d_guard := map_option (\<lambda>_. hole) (d_guard d),
        d_args := map_option (map (\<lambda>a. if is_IRExpr_VECRET_or_GSPTR a then a else hole)) (d_args d)\<rparr>"
    using assms(1) by simp
  have "d_mFx d' = d_mFx d" using arg_cong [OF eq, of d_mFx] by simp
  moreover have "(d_mAddr d' = None) = (d_mAddr d = None)" using arg_cong [OF eq, of d_mAddr]
    by (cases "d_mAddr d'"; cases "d_mAddr d") auto
  moreover have "(d_guard d' = None) = (d_guard d = None)" using arg_cong [OF eq, of d_guard]
    by (cases "d_guard d'"; cases "d_guard d") auto
  ultimately show ?thesis
    using assms(2)
    by (cases "d_mAddr d'"; cases "d_mAddr d"; cases "d_guard d'"; cases "d_guard d")
      (auto simp: guard_holds_def split: if_splits)
qed

lemma exec_same_shape:
  assumes "stmt_shape st' = stmt_shape st" "map (eval S r' w) (stmt_args st') = map (eval S r w) (stmt_args st)"
    and "agree X r r'"
  shows "same_run X (exec_stmt S (r, w) (Some st)) (exec_stmt S (r', w) (Some st'))"
proof -
  have defs: "stmt_defs st' = stmt_defs st"
    using arg_cong [OF assms(1), of stmt_defs] by (simp add: stmt_defs_shape)
  have act: "same_run X (Inr (act S st (r, w))) (Inr (act S st' (r', w)))"
    using assms(3) by (auto simp: act_def assms(1,2) defs assign_def agree_def split: prod.splits)
  show ?thesis
  proof (cases st)
    case (Ist_Dirty d)
    then obtain d' where d': "st' = Ist_Dirty d'" using assms(1) by (cases st') auto
    have "guard_holds S (r', w) d' = guard_holds S (r, w) d"
      using assms(1,2) Ist_Dirty d' by (intro guard_holds_shape) simp_all
    with act defs assms(3) Ist_Dirty d' show ?thesis
      by (auto simp: exec_stmt_def assign_def agree_def)
  qed (use assms act in \<open>cases st'; auto simp: exec_stmt_def agree_def\<close>)+
qed

lemma flatten_Stmt_run:
  assumes "stmt_flattened S bb st bb'" "N \<le> types_used (tyenv bb)" "stmt_temps st \<subseteq> {..<N}"
  shows "\<exists>sts. stmts bb' = stmts bb @ map Some sts \<and> (\<forall>st\<in>set sts. isFlatIRStmt st = Inr True)
    \<and> wf_sb bb' \<and> N \<le> types_used (tyenv bb')
    \<and> (\<forall>r r' w. agree {..<N} r r' \<longrightarrow>
         same_run {..<N} (exec_stmt S (r, w) (Some st)) (exec S (r', w) (map Some sts)))"
proof -
  obtain bb1 st' where f: "flattened S bb (stmt_args st) bb1 (stmt_args st')"
      "addStmtToIRSB bb1 (Some st') = Inr bb'" "stmt_shape st' = stmt_shape st" "isFlatIRStmt st' = Inr True"
    using assms(1) unfolding stmt_flattened_def by blast
  obtain sts where sts: "wf_sb bb1" "env_ext (tyenv bb) (tyenv bb1)" "stmts bb1 = stmts bb @ map Some sts"
      "\<forall>st\<in>set sts. isFlatIRStmt st = Inr True" "runs_to S bb sts (stmt_args st) (stmt_args st')"
    using f(1) by (elim flattenedE)
  have bb': "bb' = push_stmt bb1 (Some st')" using f(2) sts(1) by (simp add: addStmtToIRSB_ok)
  have "same_run {..<N} (exec_stmt S (r, w) (Some st)) (exec S (r', w) (map Some (sts @ [st'])))"
    if ag: "agree {..<N} r r'" for r r' w
  proof -
    obtain r1 where r1: "exec S (r', w) (map Some sts) = Inr (r1, w)" "agree {..<types_used (tyenv bb)} r' r1"
        "map (eval S r1 w) (stmt_args st') = map (eval S r' w) (stmt_args st)"
      using sts(5) unfolding runs_to_def by blast
    have "agree {..<N} r' r1" using r1(2) assms(2) by (elim agree_subset) auto
    then have "agree {..<N} r r1" by (rule agree_trans [OF ag])
    moreover have "map (eval S r1 w) (stmt_args st') = map (eval S r w) (stmt_args st)"
      using r1(3) stmt_temps_args [OF ag assms(3)] by metis
    moreover have "bindR (exec_stmt S (r1, w) (Some st')) (\<lambda>s'. exec S s' []) = exec_stmt S (r1, w) (Some st')"
      by (cases "exec_stmt S (r1, w) (Some st')") auto
    ultimately show ?thesis
      using exec_same_shape [OF f(3)] r1(1) by (simp add: exec_append)
  qed
  then show ?thesis
    using bb' sts f(4) assms(2) env_ext_used [OF sts(2)]
    by (intro exI [of _ "sts @ [st']"] conjI) simp_all
qed

text \<open>The expressions of a block.\<close>

definition block_exprs :: "IRSB \<Rightarrow> IRExpr list" where
  "block_exprs bb = concat (map (\<lambda>x. concat (map stmt_args (opt_list x))) (stmts bb)) @ opt_list (sb_next bb)"

definition flatten_stmts :: "IRSB \<Rightarrow> IRStmt option list \<Rightarrow> IRSB res" where
  "flatten_stmts = foldR (\<lambda>out x. case x of None \<Rightarrow> Inr out | Some st \<Rightarrow> flatten_Stmt out st)"

lemma flatten_stmts_run:
  assumes "flatten_stmts bb xs = Inr bb'" "wf_sb bb" "N \<le> types_used (tyenv bb)"
    and "\<And>st. Some st \<in> set xs \<Longrightarrow> stmt_temps st \<subseteq> {..<N}"
  shows "\<exists>sts. stmts bb' = stmts bb @ map Some sts \<and> (\<forall>st\<in>set sts. isFlatIRStmt st = Inr True)
    \<and> wf_sb bb' \<and> N \<le> types_used (tyenv bb')
    \<and> (\<forall>r r' w. agree {..<N} r r' \<longrightarrow> same_run {..<N} (exec S (r, w) xs) (exec S (r', w) (map Some sts)))"
  using assms
proof (induction xs arbitrary: bb)
  case Nil
  then show ?case by (auto simp: flatten_stmts_def)
next
  case (Cons x xs)
  show ?case
  proof (cases x)
    case None
    with Cons.IH [of bb] Cons.prems show ?thesis by (auto simp: flatten_stmts_def)
  next
    case (Some st)
    then obtain bb1 where bb1: "flatten_Stmt bb st = Inr bb1" "flatten_stmts bb1 xs = Inr bb'"
      using Cons.prems(1) by (auto simp: flatten_stmts_def res_iff)
    have st: "stmt_temps st \<subseteq> {..<N}" using Cons.prems(4) Some by simp
    then have "in_range bb (stmt_args st)" using Cons.prems(3) by (fastforce simp: in_range_def stmt_temps_def)
    then have "stmt_flattened S bb st bb1" by (rule flatten_Stmt_flattened [OF bb1(1) Cons.prems(2)])
    then obtain ys where ys: "stmts bb1 = stmts bb @ map Some ys" "\<forall>st\<in>set ys. isFlatIRStmt st = Inr True"
        "wf_sb bb1" "N \<le> types_used (tyenv bb1)"
        "\<And>r r' w. agree {..<N} r r' \<Longrightarrow>
           same_run {..<N} (exec_stmt S (r, w) (Some st)) (exec S (r', w) (map Some ys))"
      using flatten_Stmt_run [OF _ Cons.prems(3) st] by blast
    obtain zs where zs: "stmts bb' = stmts bb1 @ map Some zs" "\<forall>st\<in>set zs. isFlatIRStmt st = Inr True"
        "wf_sb bb'" "N \<le> types_used (tyenv bb')"
        "\<And>r r' w. agree {..<N} r r' \<Longrightarrow> same_run {..<N} (exec S (r, w) xs) (exec S (r', w) (map Some zs))"
      using Cons.IH [OF bb1(2) ys(3,4)] Cons.prems(4) by auto
    have "same_run {..<N} (exec S (r, w) (x # xs)) (exec S (r', w) (map Some (ys @ zs)))"
      if "agree {..<N} r r'" for r r' w
    proof -
      have "same_run {..<N} (bindR (exec_stmt S (r, w) (Some st)) (\<lambda>s. exec S s xs))
          (bindR (exec S (r', w) (map Some ys)) (\<lambda>s. exec S s (map Some zs)))"
        by (rule same_run_bind [OF ys(5) [OF that]]) (rule zs(5))
      then show ?thesis using Some by (simp add: exec_append)
    qed
    then show ?thesis
      using ys(1,2) zs(1-4) by (intro exI [of _ "ys @ zs"] conjI) (simp_all add: ball_Un)
  qed
qed

lemma isFlatIRSB_flat:
  assumes "stmts bb = map Some sts" "\<forall>st\<in>set sts. isFlatIRStmt st = Inr True" "sb_next bb = Some nx" "isIRAtom nx"
  shows "isFlatIRSB bb = Inr True"
proof -
  have "foldR (\<lambda>ok st. if ok then bindR (optR NullDeref st) isFlatIRStmt else Inr False) True (map Some sts) = Inr True"
    using assms(2) by (induction sts) auto
  then show ?thesis using assms by (simp add: isFlatIRSB_def)
qed

lemma flatten_BB_correct:
  assumes "flatten_BB bb = Inr bb'" "wf_env (tyenv bb)" "in_range bb (block_exprs bb)"
  shows "isFlatIRSB bb' = Inr True" "block_outcome S s bb' = block_outcome S s bb"
proof -
  define out where "out = emptyIRSB\<lparr>tyenv := deepCopyIRTypeEnv (tyenv bb)\<rparr>"
  define N where "N = types_used (tyenv bb)"
  obtain r w where s: "s = (r, w)" by fastforce
  have out: "wf_sb out" "N \<le> types_used (tyenv out)" "stmts out = []"
    using assms(2) by (auto simp: out_def wf_sb_def wf_env_def emptyIRSB_def deepCopyIRTypeEnv_def N_def)
  obtain b1 nx b2 e where f: "flatten_stmts out (stmts bb) = Inr b1" "sb_next bb = Some nx"
      "flatten_Expr b1 nx = Inr (b2, e)"
      "bb' = b2\<lparr>sb_next := Some e, sb_jumpkind := sb_jumpkind bb, sb_offsIP := sb_offsIP bb\<rparr>"
    using assms(1) unfolding flatten_BB_def Let_def flatten_stmts_def out_def [symmetric] by (auto simp: res_iff)
  have "stmt_temps st \<subseteq> {..<N}" if "Some st \<in> set (stmts bb)" for st
    using assms(3) that by (fastforce simp: in_range_def block_exprs_def stmt_temps_def N_def)
  then obtain ys where ys: "stmts b1 = map Some ys" "\<forall>st\<in>set ys. isFlatIRStmt st = Inr True" "wf_sb b1"
      "N \<le> types_used (tyenv b1)"
      "same_run {..<N} (exec S (r, w) (stmts bb)) (exec S (r, w) (map Some ys))"
    using flatten_stmts_run [OF f(1) out(1,2), of S] out(3) by auto
  have nx: "temps_of nx \<subseteq> {..<N}" using assms(3) f(2) by (auto simp: block_exprs_def N_def)
  then have "in_range b1 [nx]" using ys(4) by fastforce
  then have fl: "flattened S b1 [nx] b2 [e]" and at: "isIRAtom e"
    using flatten_Expr_flattened [OF f(3) ys(3), of S] by auto
  obtain zs where zs: "stmts b2 = stmts b1 @ map Some zs" "\<forall>st\<in>set zs. isFlatIRStmt st = Inr True"
      "runs_to S b1 zs [nx] [e]"
    using fl by (elim flattenedE)
  show "isFlatIRSB bb' = Inr True"
    by (rule isFlatIRSB_flat [of _ "ys @ zs"]) (use f(4) ys zs at in auto)
  show "block_outcome S s bb' = block_outcome S s bb"
  proof (cases "exec S (r, w) (stmts bb)")
    case (Inl o1)
    with ys(5) have "exec S (r, w) (map Some ys) = Inl o1" by (cases "exec S (r, w) (map Some ys)") auto
    with Inl f(4) zs(1) ys(1) s show ?thesis by (simp add: block_outcome_def exec_append)
  next
    case (Inr p)
    then obtain r1 w1 where p: "exec S (r, w) (stmts bb) = Inr (r1, w1)" by (cases p) auto
    then obtain r2 where r2: "exec S (r, w) (map Some ys) = Inr (r2, w1)" "agree {..<N} r1 r2"
      using ys(5) by (cases "exec S (r, w) (map Some ys)") auto
    obtain r3 where r3: "exec S (r2, w1) (map Some zs) = Inr (r3, w1)" "eval S r3 w1 e = eval S r2 w1 nx"
      using zs(3) unfolding runs_to_def by fastforce
    have "eval S r1 w1 nx = eval S r2 w1 nx" by (rule eval_agree [OF agree_subset [OF r2(2) nx]])
    with p r2 r3 f zs(1) ys(1) s show ?thesis by (simp add: block_outcome_def exec_append)
  qed
qed

end
