(* ===== verification/Tool_Run.thy ===== *)
theory Tool_Run
  imports Opt_Pipeline Opt_Flatten_Run Ct_Instrument Cl_Instrument
begin

text \<open>
  Running an instrumented block. The world of an instrumented block is the guest's world and the
  tool's: a call of one of the tool's helpers acts on the second component only, everything else acts
  on the first as it does without the tool. For every meaning of the IR and every behaviour of the
  helpers, the guest's part of the outcome is that of the block before instrumentation.
\<close>

section \<open>A guest with a tool\<close>

definition helper_call :: "string set \<Rightarrow> IRStmt \<Rightarrow> bool" where
  "helper_call fns st \<longleftrightarrow> (case st of Ist_Dirty d \<Rightarrow> tool_call fns d | _ \<Rightarrow> False)"

definition with_tool :: "string set \<Rightarrow> ('v, 'g) ir_sem \<Rightarrow> (IRStmt \<Rightarrow> 'v list \<Rightarrow> 'g \<Rightarrow> 't \<Rightarrow> 't) \<Rightarrow>
    ('v, 'g \<times> 't) ir_sem" where
  "with_tool fns S T = \<lparr>sem_const = sem_const S, sem_op = sem_op S, sem_get = (\<lambda>w. sem_get S (fst w)),
     sem_geti = (\<lambda>w. sem_geti S (fst w)), sem_load = (\<lambda>w. sem_load S (fst w)), sem_ccall = sem_ccall S,
     sem_special = sem_special S, sem_true = sem_true S, sem_filler = sem_filler S,
     sem_act = (\<lambda>st vs w. if helper_call fns st then ((fst w, T st vs (fst w) (snd w)), sem_filler S)
                else let (g, out) = sem_act S st vs (fst w) in ((g, snd w), out))\<rparr>"

lemma with_tool_simps [simp]:
  "sem_const (with_tool fns S T) = sem_const S" "sem_op (with_tool fns S T) = sem_op S"
  "sem_true (with_tool fns S T) = sem_true S" "sem_filler (with_tool fns S T) = sem_filler S"
  "sem_bits (with_tool fns S T) = sem_bits S"
  by (simp_all add: with_tool_def sem_bits_def)

lemma eval_with_tool [simp]: "eval (with_tool fns S T) r (g, t) e = eval S r g e"
proof (induction e)
  case (Iex_CCall cee ty args)
  then have "map (eval (with_tool fns S T) r (g, t)) args = map (eval S r g) args" by simp
  then show ?case by (simp only: eval.simps) (simp add: with_tool_def)
qed (simp_all add: with_tool_def)

lemma eval_with_tool_eta [simp]: "eval (with_tool fns S T) r (g, t) = eval S r g"
  by (rule ext) simp

definition guest_run :: "('v, 'g \<times> 't) running \<Rightarrow> ('v, 'g) running" where
  "guest_run = map_sum (map_prod id (map_prod id (map_prod id fst))) (map_prod id fst)"

definition guest_outcome :: "('v, 'g \<times> 't) outcome \<Rightarrow> ('v, 'g) outcome" where
  "guest_outcome = map_prod id (map_prod id (map_prod id fst))"

lemma guest_run_simps [simp]:
  "guest_run (Inl (v, jk, off, g, t)) = Inl (v, jk, off, g)" "guest_run (Inr (r, g, t)) = Inr (r, g)"
  by (simp_all add: guest_run_def)

section \<open>Statements of the program and of the tool\<close>

lemma helper_call_shape [simp]: "helper_call fns (stmt_shape st) = helper_call fns st"
  by (cases st) (simp_all add: helper_call_def tool_call_def)

lemma act_with_tool:
  assumes "\<not> helper_call fns st"
  shows "\<exists>g' r'. act S st (r, g) = (r', g') \<and> act (with_tool fns S T) st (r, g, t) = (r', g', t)"
proof -
  have "sem_act (with_tool fns S T) (stmt_shape st) vs (g, t)
      = (let (g', out) = sem_act S (stmt_shape st) vs g in ((g', t), out))" for vs
    using assms by (simp add: with_tool_def)
  then show ?thesis by (simp add: act_def split: prod.splits)
qed

lemma exec_stmt_with_tool:
  assumes "\<not> helper_call fns st"
  shows "guest_run (exec_stmt (with_tool fns S T) (r, g, t) (Some st)) = exec_stmt S (r, g) (Some st)
    \<and> (\<forall>r' g' t'. exec_stmt (with_tool fns S T) (r, g, t) (Some st) = Inr (r', g', t') \<longrightarrow> t' = t)"
  using act_with_tool [OF assms, of S r g T t]
  by (cases st) (auto simp: exec_stmt_def guard_holds_def guest_run_def split: option.splits)

lemma tool_stmt_run:
  assumes "tool_stmt fns n st"
  shows "\<exists>r' t'. exec_stmt (with_tool fns S T) (r, g, t) (Some st) = Inr (r', g, t') \<and> agree {..<n} r r'"
proof (cases st)
  case (Ist_Dirty d)
  then have "helper_call fns st" "stmt_defs st = []"
    using assms by (auto simp: helper_call_def tool_call_def)
  then have "\<exists>t'. act (with_tool fns S T) st (r, g, t) = (r, g, t')"
    by (simp add: act_def assign_def with_tool_def)
  then show ?thesis
    using Ist_Dirty \<open>stmt_defs st = []\<close>
    by (auto simp: exec_stmt_def assign_def agree_def simp del: stmt_defs.simps)
next
  case (Ist_WrTmp u e)
  then show ?thesis using assms by (auto simp: exec_stmt_def agree_def)
qed (use assms in auto)

section \<open>Blocks\<close>

lemma woven_run:
  assumes "woven fns n xs ys" "\<forall>x\<in>set xs. \<not> is_tool_stmt fns n x"
    and "\<And>st. Some st \<in> set xs \<Longrightarrow> stmt_temps st \<subseteq> {..<n}" "agree {..<n} r r'"
  shows "same_run {..<n} (exec S (r, g) xs) (guest_run (exec (with_tool fns S T) (r', g, t) ys))"
  using assms
proof (induction arbitrary: r r' g t rule: woven.induct)
  case woven_nil
  then show ?case by simp
next
  case (woven_skip x xs ys)
  then show ?case by (auto simp: skipped_def)
next
  case (woven_add st xs ys)
  obtain r1 t1 where r1: "exec_stmt (with_tool fns S T) (r', g, t) (Some st) = Inr (r1, g, t1)" "agree {..<n} r' r1"
    using tool_stmt_run [OF woven_add.hyps(1), of S T r' g t] by blast
  then have "agree {..<n} r r1" using woven_add.prems(3) by (blast intro: agree_trans)
  with woven_add r1(1) show ?case by simp
next
  case (woven_keep xs ys x)
  show ?case
  proof (cases x)
    case None
    with woven_keep show ?thesis by simp
  next
    case (Some st)
    then have nh: "\<not> helper_call fns st" and tm: "stmt_temps st \<subseteq> {..<n}"
      using woven_keep.prems by (auto simp: is_tool_stmt_def helper_call_def split: IRStmt.splits)
    note e = exec_stmt_with_tool [OF nh, of S T r' g t]
    have run: "same_run {..<n} (exec_stmt S (r, g) (Some st)) (exec_stmt S (r', g) (Some st))"
      by (rule exec_stmt_agree [OF woven_keep.prems(3) tm])
    show ?thesis
    proof (cases "exec_stmt (with_tool fns S T) (r', g, t) (Some st)")
      case (Inl o1)
      obtain v jk off g1 t1 where o1: "o1 = (v, jk, off, g1, t1)" by (cases o1)
      then have "exec_stmt S (r', g) (Some st) = Inl (v, jk, off, g1)" using e Inl by simp
      then have "exec_stmt S (r, g) (Some st) = Inl (v, jk, off, g1)"
        using run by (cases "exec_stmt S (r, g) (Some st)") auto
      with Inl o1 Some show ?thesis by simp
    next
      case (Inr p)
      then obtain r1 g1 where p: "exec_stmt (with_tool fns S T) (r', g, t) (Some st) = Inr (r1, g1, t)"
        "exec_stmt S (r', g) (Some st) = Inr (r1, g1)"
        using e by (cases p) auto
      then obtain r0 where r0: "exec_stmt S (r, g) (Some st) = Inr (r0, g1)" "agree {..<n} r0 r1"
        using run by (cases "exec_stmt S (r, g) (Some st)") auto
      have "same_run {..<n} (exec S (r0, g1) xs) (guest_run (exec (with_tool fns S T) (r1, g1, t) ys))"
        by (rule woven_keep.IH [OF _ _ r0(2)]) (use woven_keep.prems in auto)
      with p r0 Some show ?thesis by simp
    qed
  qed
qed

lemma woven_outcome:
  assumes "woven fns (types_used (tyenv bb)) (stmts bb) (stmts bb')" "sb_next bb' = sb_next bb"
    and "sb_jumpkind bb' = sb_jumpkind bb" "sb_offsIP bb' = sb_offsIP bb"
    and "\<forall>x\<in>set (stmts bb). \<not> is_tool_stmt fns (types_used (tyenv bb)) x" "in_range bb (block_exprs bb)"
  shows "guest_outcome (block_outcome (with_tool fns S T) (r, g, t) bb') = block_outcome S (r, g) bb"
proof -
  have temps: "stmt_temps st \<subseteq> {..<types_used (tyenv bb)}" if "Some st \<in> set (stmts bb)" for st
    using assms(6) that by (fastforce simp: in_range_def block_exprs_def stmt_temps_def)
  have nx: "temps_of nx \<subseteq> {..<types_used (tyenv bb)}" if "sb_next bb = Some nx" for nx
    using assms(6) that by (auto simp: block_exprs_def)
  have run: "same_run {..<types_used (tyenv bb)} (exec S (r, g) (stmts bb))
      (guest_run (exec (with_tool fns S T) (r, g, t) (stmts bb')))"
    by (rule woven_run [OF assms(1,5) temps]) simp_all
  show ?thesis
  proof (cases "exec (with_tool fns S T) (r, g, t) (stmts bb')")
    case (Inl o1)
    with run show ?thesis
      by (cases "exec S (r, g) (stmts bb)"; cases o1) (auto simp: block_outcome_def guest_outcome_def)
  next
    case (Inr p)
    then obtain r1 g1 t1 where p: "exec (with_tool fns S T) (r, g, t) (stmts bb') = Inr (r1, g1, t1)" by (cases p) auto
    then obtain r0 where r0: "exec S (r, g) (stmts bb) = Inr (r0, g1)" "agree {..<types_used (tyenv bb)} r0 r1"
      using run by (cases "exec S (r, g) (stmts bb)") auto
    have "eval S r1 g1 e = eval S r0 g1 e" if "sb_next bb = Some e" for e
      by (rule eval_agree [OF agree_subset [OF r0(2) nx [OF that]], symmetric])
    with p r0 assms(2-4) show ?thesis
      by (cases "sb_next bb") (auto simp: block_outcome_def guest_outcome_def)
  qed
qed

section \<open>What the sanity checker guarantees\<close>

lemma sane_in_range:
  assumes "sanityCheckIRSB bb True gw = Inr ()"
  shows "in_range bb (block_exprs bb)"
proof -
  let ?n = "types_used (tyenv bb)"
  obtain dc nx where h: "chunk_ok (tyenv bb) gw (replicate ?n 0) (stmts bb) dc"
      "sb_next bb = Some nx" "isIRAtom nx" "typeOfIRExpr (tyenv bb) nx = Inr gw"
    using assms by (auto simp: sanityCheckIRSB_iff)
  have st: "stmt_temps st \<subseteq> {..<?n}" if mem: "Some st \<in> set (stmts bb)" for st
  proof -
    obtain xs ys where xs: "stmts bb = xs @ Some st # ys" using split_list [OF mem] by blast
    obtain dc1 dc2 where dc2: "countStmt (tyenv bb) dc1 (Some st) = Inr dc2" "stmt_ok (tyenv bb) gw (Some st)"
      using h(1) unfolding xs chunk_ok_append chunk_ok_Cons by blast
    then have dc1: "useBeforeDef_Stmt (tyenv bb) dc1 st = Inr ()" "stmt_ok (tyenv bb) gw (Some st)"
      by (auto simp: countStmt_def res_iff)
    obtain us where us: "addUses_Stmt (replicate ?n False) st = Inr us" "length us = ?n"
      using addUses_Stmt_total [OF dc1, of "replicate ?n False"] by auto
    have "stmt_temps st \<subseteq> marked us" using addUses_Stmt_marked [OF us(1)] by simp
    then show ?thesis using us(2) by (auto simp: marked_def)
  qed
  have "temps_of nx \<subseteq> {..<?n}" using h(3,4) by (cases nx) (auto simp: typeOfIRTemp_def res_iff)
  moreover have "temps_of e \<subseteq> {..<?n}" if "x \<in> set (stmts bb)" "s \<in> set (opt_list x)" "e \<in> set (stmt_args s)" for x s e
    using st [of s] that by (cases x) (auto simp: stmt_temps_def)
  ultimately show ?thesis using h(2) by (auto simp: in_range_def block_exprs_def)
qed

section \<open>Instrumented blocks can be cleaned up\<close>

text \<open>What the cleanup asks of a block holds of an instrumented block when it holds of the original.\<close>

lemma woven_set: "woven fns n xs ys \<Longrightarrow> y \<in> set ys \<Longrightarrow> y \<in> set xs \<or> is_tool_stmt fns n y"
  by (induction rule: woven.induct) (auto simp: is_tool_stmt_def)

lemma sane_stmt:
  assumes "sanityCheckIRSB bb True gw = Inr ()" "Some st \<in> set (stmts bb)"
  shows "stmt_ok (tyenv bb) gw (Some st)" "set (stmt_defs st) \<subseteq> {..<types_used (tyenv bb)}"
proof -
  obtain dc where h: "chunk_ok (tyenv bb) gw (replicate (types_used (tyenv bb)) 0) (stmts bb) dc"
    using assms(1) by (auto simp: sanityCheckIRSB_iff)
  obtain xs ys where xs: "stmts bb = xs @ Some st # ys" using split_list [OF assms(2)] by blast
  obtain dc1 dc2 where dc1: "chunk_ok (tyenv bb) gw (replicate (types_used (tyenv bb)) 0) xs dc1"
      "countStmt (tyenv bb) dc1 (Some st) = Inr dc2" "stmt_ok (tyenv bb) gw (Some st)"
    using h unfolding xs chunk_ok_append chunk_ok_Cons by blast
  then show "stmt_ok (tyenv bb) gw (Some st)" by blast
  have "length dc1 = types_used (tyenv bb)" using chunk_ok_length [OF dc1(1)] by simp
  then show "set (stmt_defs st) \<subseteq> {..<types_used (tyenv bb)}"
    using dc1(2) assignedOnce_stmt_defined [of st dc1 "types_used (tyenv bb)" dc2] by (auto simp: countStmt_def res_iff)
qed

lemma instrumented_plain:
  assumes "woven fns (types_used (tyenv bb)) (stmts bb) (stmts bb1)" "types (tyenv bb1) = types (tyenv bb) @ tys" "\<forall>ty\<in>set tys. tool_type ty"
    and "sanityCheckIRSB bb1 True gw = Inr ()" "plain_sb bb"
  shows "plain_sb bb1"
  unfolding plain_sb_def
proof (intro allI impI)
  fix st assume st: "Some st \<in> set (stmts bb1)"
  show "plain_stmt st"
  proof (cases "Some st \<in> set (stmts bb)")
    case True
    with assms(5) show ?thesis by (simp add: plain_sb_def)
  next
    case False
    with woven_set [OF assms(1) st] have tool: "tool_stmt fns (types_used (tyenv bb)) st" by (simp add: is_tool_stmt_def)
    have const: "plain_const c" if c: "st = Ist_WrTmp t (Iex_Const c)" for t c
    proof -
      have "types_used (tyenv bb) \<le> t" using tool c by simp
      moreover have "t < types_used (tyenv bb1)" "types (tyenv bb1) ! t = typeOfIRConst c"
        using sane_stmt(1) [OF assms(4) st] c by (auto simp: stmt_ok_def res_iff typeOfIRTemp_def)
      ultimately have "typeOfIRConst c \<in> set tys" using assms(2)
        by (auto simp: nth_append in_set_conv_nth intro!: exI [of _ "t - types_used (tyenv bb)"])
      with assms(3) show ?thesis by (cases c) (auto simp: tool_type_def)
    qed
    show ?thesis
    proof (cases st)
      case (Ist_WrTmp t e)
      with tool const show ?thesis by (cases e rule: pure_atom_expr.cases) auto
    qed (use tool in auto)
  qed
qed

lemma instrumented_unguarded:
  "woven fns n xs ys \<Longrightarrow> \<forall>x\<in>set xs. result_unguarded x \<Longrightarrow> \<forall>y\<in>set ys. result_unguarded y"
proof (induction rule: woven.induct)
  case (woven_add t xs ys)
  have "result_unguarded (Some t)" using woven_add.hyps(1) by (cases t) (auto simp: tool_call_def)
  with woven_add show ?case by simp
qed auto

lemma instrumented_acts_typed:
  assumes "woven fns (types_used (tyenv bb)) (stmts bb) (stmts bb1)" "types (tyenv bb1) = types (tyenv bb) @ tys"
    and "sanityCheckIRSB bb True gw = Inr ()" "\<forall>x\<in>set (stmts bb). \<not> is_tool_stmt fns (types_used (tyenv bb)) x"
    and "acts_typed (tyenv bb) S (stmts bb)"
  shows "acts_typed (tyenv bb1) (with_tool fns S T) (stmts bb1)"
  unfolding acts_typed_def
proof (intro allI impI)
  fix st t assume st: "Some st \<in> set (stmts bb1)" "\<forall>u e. st \<noteq> Ist_WrTmp u e" "t \<in> set (stmt_defs st)"
  have "\<not> tool_stmt fns (types_used (tyenv bb)) st" using st(2,3) by (cases st) (auto simp: tool_call_def)
  then have mem: "Some st \<in> set (stmts bb)" using woven_set [OF assms(1) st(1)] by (simp add: is_tool_stmt_def)
  have nh: "\<not> helper_call fns (stmt_shape st)" using bspec [OF assms(4) mem] by (cases st) (auto simp: is_tool_stmt_def helper_call_def tool_call_def)
  have "t < types_used (tyenv bb)" using sane_stmt(2) [OF assms(3) mem] st(3) by auto
  then have ty: "types (tyenv bb1) ! t = types (tyenv bb) ! t" using assms(2) by (simp add: nth_append)
  have "snd (sem_act (with_tool fns S T) (stmt_shape st) vs w) = snd (sem_act S (stmt_shape st) vs (fst w))" for vs w
    using nh by (simp add: with_tool_def split: prod.splits)
  with assms(5) mem st(2,3) ty
  show "(\<forall>d. st = Ist_Dirty d \<longrightarrow> has_type (types (tyenv bb1) ! t) (sem_filler (with_tool fns S T) t))
      \<and> (\<forall>vs w. has_type (types (tyenv bb1) ! t) (snd (sem_act (with_tool fns S T) (stmt_shape st) vs w) t))"
    unfolding acts_typed_def by simp
qed

lemma with_tool_ok:
  assumes "sem_ok S"
  shows "sem_ok (with_tool fns S T)"
proof -
  have nh: "\<not> helper_call fns (Ist_StoreG sg)" "\<not> helper_call fns (Ist_Store en a b)" "\<not> helper_call fns (Ist_LoadG lg)" for sg en a b lg
    by (simp_all add: helper_call_def)
  have doc: "sem_documented (with_tool fns S T)" using assms by (simp add: sem_ok_def sem_documented_def)
  have ty: "sem_typed (with_tool fns S T)" using assms by (simp add: sem_ok_def sem_typed_def with_tool_def)
  have "cvt_val (with_tool fns S T) = cvt_val S" by (rule ext)+ (simp add: cvt_val_def split: option.split)
  moreover have "fst (sem_act (with_tool fns S T) st vs w) = (fst (sem_act S st vs (fst w)), snd w)"
      "snd (sem_act (with_tool fns S T) st vs w) = snd (sem_act S st vs (fst w))" if "\<not> helper_call fns st" for st vs w
    using that by (simp_all add: with_tool_def split: prod.splits)
  moreover have "sem_load (with_tool fns S T) w = sem_load S (fst w)" for w by (simp add: with_tool_def)
  moreover have "sem_guarded S" using assms by (simp add: sem_ok_def)
  ultimately have "sem_guarded (with_tool fns S T)" by (simp add: sem_guarded_def nh)
  with doc ty show ?thesis by (simp add: sem_ok_def)
qed

section \<open>From the front end to the back end\<close>

text \<open>A tool's result, cleaned up: it can be cleaned up, stays sane, and means to the guest what the
  block before instrumentation did.\<close>

lemma instrumented_cleanup:
  assumes "woven fns (types_used (tyenv bb)) (stmts bb) (stmts bb1) \<and> (\<exists>tys. types (tyenv bb1) = types (tyenv bb) @ tys \<and> (\<forall>ty\<in>set tys. tool_type ty))
      \<and> sb_next bb1 = sb_next bb \<and> sb_jumpkind bb1 = sb_jumpkind bb \<and> sb_offsIP bb1 = sb_offsIP bb \<and> wf_sb bb1"
    and "sanityCheckIRSB bb True gw = Inr ()" "sanityCheckIRSB bb1 True gw = Inr ()"
    and "\<forall>x\<in>set (stmts bb). \<not> is_tool_stmt fns (types_used (tyenv bb)) x" "plain_sb bb" "\<forall>x\<in>set (stmts bb). result_unguarded x"
  shows "\<exists>bb2. post_instr_cleanup bb1 gw = Inr bb2 \<and> sanityCheckIRSB bb2 True gw = Inr ()
    \<and> (\<forall>(S :: (ir_val, 'g) ir_sem) (T :: IRStmt \<Rightarrow> ir_val list \<Rightarrow> 'g \<Rightarrow> 't \<Rightarrow> 't) r g t. sem_ok S \<longrightarrow> acts_typed (tyenv bb) S (stmts bb) \<longrightarrow>
        block_outcome (with_tool fns S T) (r, g, t) bb2 = block_outcome (with_tool fns S T) (r, g, t) bb1
      \<and> guest_outcome (block_outcome (with_tool fns S T) (r, g, t) bb2) = block_outcome S (r, g) bb)"
proof -
  obtain tys where w: "woven fns (types_used (tyenv bb)) (stmts bb) (stmts bb1)" "types (tyenv bb1) = types (tyenv bb) @ tys"
      "\<forall>ty\<in>set tys. tool_type ty" "wf_env (tyenv bb1)"
    using assms(1) by auto
  obtain bb2 where bb2: "post_instr_cleanup bb1 gw = Inr bb2" "sanityCheckIRSB bb2 True gw = Inr ()"
      "\<And>(S :: (ir_val, 'g \<times> 't) ir_sem) s. sem_ok S \<Longrightarrow> acts_typed (tyenv bb1) S (stmts bb1) \<Longrightarrow> block_outcome S s bb2 = block_outcome S s bb1"
    using post_instr_cleanup_ok [OF assms(3) w(4) instrumented_plain [OF w(1-3) assms(3,5)] instrumented_unguarded [OF w(1) assms(6)]] by blast
  have "guest_outcome (block_outcome (with_tool fns S T) (r, g, t) bb1) = block_outcome S (r, g) bb" for S :: "(ir_val, 'g) ir_sem" and T :: "IRStmt \<Rightarrow> ir_val list \<Rightarrow> 'g \<Rightarrow> 't \<Rightarrow> 't" and r g t
    using assms(1) by (intro woven_outcome [OF _ _ _ _ assms(4) sane_in_range [OF assms(2)]]) blast+
  moreover have "block_outcome (with_tool fns S T) (r, g, t) bb2 = block_outcome (with_tool fns S T) (r, g, t) bb1"
    if "sem_ok S" "acts_typed (tyenv bb) S (stmts bb)" for S :: "(ir_val, 'g) ir_sem" and T :: "IRStmt \<Rightarrow> ir_val list \<Rightarrow> 'g \<Rightarrow> 't \<Rightarrow> 't" and r g t
    by (rule bb2(3) [OF with_tool_ok [OF that(1)] instrumented_acts_typed [OF w(1,2) assms(2,4) that(2)]])
  ultimately show ?thesis using bb2(1,2) by simp
qed

end
