(* ===== verification/Tool_Log.thy ===== *)
theory Tool_Log
  imports Tool_Run
begin

text \<open>
  Which helper calls a run of an instrumented block makes, with the values of their arguments.

  A call that an instrumentation function inserts is described by \<open>icall\<close>: the helper, its
  arguments and its guard, as expressions over the temporaries of the original block. Running the
  block makes of it, if the guard holds, an entry of a log: the helper, the values of the arguments
  and the guest's world at that time. The log of a run of the instrumented block is computed from a
  run of the original one (\<open>logged_run\<close>): before a statement come the calls \<open>pre\<close>, after it the
  calls \<open>post\<close>, and an exit that is taken ends both. The locale \<open>logged_step\<close> has this for one step
  of the statement loop as its law.
\<close>

section \<open>Calls and logs\<close>

type_synonym icall = "string \<times> IRExpr list \<times> IRExpr"

type_synonym ('v, 'g) entry = "string \<times> 'v list \<times> 'g"

definition callee_name :: "IRStmt \<Rightarrow> string" where
  "callee_name st =
     (case st of
        Ist_Dirty d \<Rightarrow> (case d_cee d of Some cee \<Rightarrow> (case cee_addr cee of Fn f \<Rightarrow> f | NullFn \<Rightarrow> []) | None \<Rightarrow> [])
      | _ \<Rightarrow> [])"

text \<open>Of the values of a call's expressions the first ones are the address of the memory it accesses
  and its guard.\<close>

definition arg_values :: "IRStmt \<Rightarrow> 'v list \<Rightarrow> 'v list" where
  "arg_values st vs = (case st of Ist_Dirty d \<Rightarrow> drop (if d_mFx d = Ifx_None then 1 else 2) vs | _ \<Rightarrow> [])"

definition entry_of :: "IRStmt \<Rightarrow> 'v list \<Rightarrow> 'g \<Rightarrow> ('v, 'g) entry" where
  "entry_of st vs g = (callee_name st, arg_values st vs, g)"

definition log_call :: "IRStmt \<Rightarrow> 'v list \<Rightarrow> 'g \<Rightarrow> ('v, 'g) entry list \<Rightarrow> ('v, 'g) entry list" where
  "log_call st vs g log = log @ [entry_of st vs g]"

definition made :: "('v, 'g) ir_sem \<Rightarrow> 'v temps \<times> 'g \<Rightarrow> icall list \<Rightarrow> ('v, 'g) entry list" where
  "made S s cs = concat (map (\<lambda>(f, args, gd).
     if sem_true S (eval S (fst s) (snd s) gd) then [(f, map (eval S (fst s) (snd s)) args, snd s)] else []) cs)"

lemma made_simps [simp]:
  "made S s [] = []" "made S s (xs @ ys) = made S s xs @ made S s ys"
  by (simp_all add: made_def)

definition icall_exprs :: "icall list \<Rightarrow> IRExpr list" where
  "icall_exprs cs = concat (map (\<lambda>(f, args, gd). gd # args) cs)"

lemma icall_exprs_simps [simp]:
  "icall_exprs [] = []" "icall_exprs ((f, args, gd) # cs) = (gd # args) @ icall_exprs cs"
  "icall_exprs (cs @ ds) = icall_exprs cs @ icall_exprs ds"
  by (simp_all add: icall_exprs_def)

lemma made_agree:
  assumes "agree {..<N} r r'" "\<forall>e\<in>set (icall_exprs cs). temps_of e \<subseteq> {..<N}"
  shows "made S (r, g) cs = made S (r', g) cs"
proof -
  have ev: "eval S r g e = eval S r' g e" if "e \<in> set (icall_exprs cs)" for e
    using assms that by (intro eval_agree agree_subset [OF assms(1)]) auto
  show ?thesis
    unfolding made_def using ev
    by (intro arg_cong [where f = concat] map_cong) (fastforce simp: icall_exprs_def)+
qed

text \<open>A statement that is a given call.\<close>

definition is_call :: "string set \<Rightarrow> icall \<Rightarrow> IRStmt option \<Rightarrow> bool" where
  "is_call fns c st \<longleftrightarrow>
     (\<exists>d. st = Some (Ist_Dirty d) \<and> tool_call fns d \<and> callee_name (Ist_Dirty d) = fst c
        \<and> d_args d = Some (fst (snd c)) \<and> d_guard d = Some (snd (snd c)) \<and> (d_mFx d = Ifx_None \<or> d_mAddr d \<noteq> None))"

lemma callee_name_shape [simp]: "callee_name (stmt_shape st) = callee_name st"
  by (cases st) (simp_all add: callee_name_def)

lemma with_tool_act:
  "helper_call fns st \<Longrightarrow> sem_act (with_tool fns S T) st vs (g, t) = ((g, T st vs g t), sem_filler S)"
  by (simp add: with_tool_def)

lemma is_call_run:
  assumes "is_call fns c st"
  shows "exec_stmt (with_tool fns S log_call) (r, g, log) st = Inr (r, g, log @ made S (r, g) [c])"
proof -
  obtain f args gd where c: "c = (f, args, gd)" by (cases c)
  obtain d where d: "st = Some (Ist_Dirty d)" "tool_call fns d" "callee_name (Ist_Dirty d) = f"
      "d_args d = Some args" "d_guard d = Some gd" "d_mFx d = Ifx_None \<or> d_mAddr d \<noteq> None"
    using assms c by (auto simp: is_call_def)
  have h: "helper_call fns (stmt_shape (Ist_Dirty d))" "stmt_defs (Ist_Dirty d) = []"
    using d(2) by (auto simp: helper_call_def tool_call_def)
  have args: "arg_values (stmt_shape (Ist_Dirty d)) (map (eval S r g) (stmt_args (Ist_Dirty d))) = map (eval S r g) args"
    using d(4-6) by (auto simp: arg_values_def)
  have "act (with_tool fns S log_call) (Ist_Dirty d) (r, g, log) = (r, g, log @ [(f, map (eval S r g) args, g)])"
    unfolding act_def using h args d(3)
    by (simp add: with_tool_act assign_def log_call_def entry_of_def del: stmt_shape.simps stmt_args.simps stmt_defs.simps)
  moreover have "assign (stmt_defs (Ist_Dirty d)) out r = r" for out
    unfolding h(2) by (simp add: assign_def)
  ultimately show ?thesis
    using d(1,5) by (simp add: exec_stmt_def guard_holds_def made_def c del: stmt_defs.simps)
qed

lemma calls_run:
  "list_all2 (is_call fns) cs sts \<Longrightarrow>
     exec (with_tool fns S log_call) (r, g, log) sts = Inr (r, g, log @ made S (r, g) cs)"
proof (induction cs sts arbitrary: log rule: list_all2_induct)
  case (Cons c cs st sts)
  have "made S (r, g) (c # cs) = made S (r, g) [c] @ made S (r, g) cs" by (simp add: made_def)
  with Cons is_call_run [OF Cons.hyps(1), of S r g log] show ?case by simp
qed simp

section \<open>A statement with its calls\<close>

definition stmt_logged :: "('v, 'g) ir_sem \<Rightarrow> icall list \<Rightarrow> icall list \<Rightarrow> IRStmt \<Rightarrow>
    'v temps \<times> 'g \<times> ('v, 'g) entry list \<Rightarrow> ('v, 'g \<times> ('v, 'g) entry list) running" where
  "stmt_logged S pre post st = (\<lambda>(r, g, log).
     case exec_stmt S (r, g) (Some st) of
       Inl (v, jk, off, g1) \<Rightarrow> Inl (v, jk, off, g1, log @ made S (r, g) pre)
     | Inr (r1, g1) \<Rightarrow> Inr (r1, g1, log @ made S (r, g) pre @ made S (r1, g1) post))"

definition runs_chunk :: "('v, 'g) ir_sem \<Rightarrow> string set \<Rightarrow> nat \<Rightarrow> IRStmt option list \<Rightarrow>
    icall list \<Rightarrow> icall list \<Rightarrow> IRStmt \<Rightarrow> bool" where
  "runs_chunk S fns N chunk pre post st \<longleftrightarrow>
     (\<forall>r r' g log. agree {..<N} r r' \<longrightarrow>
        same_run {..<N} (stmt_logged S pre post st (r, g, log)) (exec (with_tool fns S log_call) (r', g, log) chunk))"

lemma exec_stmt_logged:
  assumes "\<not> helper_call fns st"
  shows "exec_stmt (with_tool fns S T) (r, g, t) (Some st) =
    (case exec_stmt S (r, g) (Some st) of
       Inl (v, jk, off, g1) \<Rightarrow> Inl (v, jk, off, g1, t)
     | Inr (r1, g1) \<Rightarrow> Inr (r1, g1, t))"
  using act_with_tool [OF assms, of S r g T t]
  by (cases st) (auto simp: exec_stmt_def guard_holds_def split: option.splits)

lemma runs_chunkI:
  assumes "\<not> helper_call fns st" "stmt_temps st \<subseteq> {..<N}"
    and "\<forall>e\<in>set (icall_exprs pre). temps_of e \<subseteq> {..<N}" "\<forall>e\<in>set (icall_exprs post). temps_of e \<subseteq> {..<N}"
    and before: "\<And>r r' g log. agree {..<N} r r' \<Longrightarrow> \<exists>r1. agree {..<N} r r1 \<and>
      exec (with_tool fns S log_call) (r', g, log) xs = Inr (r1, g, log @ made S (r, g) pre)"
    and after: "\<And>r g log. exec (with_tool fns S log_call) (r, g, log) ys = Inr (r, g, log @ made S (r, g) post)"
  shows "runs_chunk S fns N (xs @ [Some st] @ ys) pre post st"
  unfolding runs_chunk_def
proof (intro allI impI)
  fix r r' :: "'a temps" and g log assume ag: "agree {..<N} r r'"
  obtain r1 where r1: "agree {..<N} r r1"
      "exec (with_tool fns S log_call) (r', g, log) xs = Inr (r1, g, log @ made S (r, g) pre)"
    using before [OF ag] by blast
  have "same_run {..<N} (exec_stmt S (r, g) (Some st)) (exec_stmt S (r1, g) (Some st))"
    by (rule exec_stmt_agree [OF r1(1) assms(2)])
  with r1 after exec_stmt_logged [OF assms(1), of S log_call r1 g] made_agree [OF _ assms(4), of _ _ S]
  show "same_run {..<N} (stmt_logged S pre post st (r, g, log))
      (exec (with_tool fns S log_call) (r', g, log) (xs @ [Some st] @ ys))"
    by (cases "exec_stmt S (r, g) (Some st)"; cases "exec_stmt S (r1, g) (Some st)")
      (auto simp: stmt_logged_def exec_append split: prod.splits)
qed

lemma runs_chunk_calls:
  assumes "\<not> helper_call fns st" "stmt_temps st \<subseteq> {..<N}"
    and "\<forall>e\<in>set (icall_exprs pre). temps_of e \<subseteq> {..<N}" "\<forall>e\<in>set (icall_exprs post). temps_of e \<subseteq> {..<N}"
    and "list_all2 (is_call fns) pre xs" "list_all2 (is_call fns) post ys"
  shows "runs_chunk S fns N (xs @ [Some st] @ ys) pre post st"
  by (rule runs_chunkI [OF assms(1-4)])
    (use calls_run [OF assms(5), of S] calls_run [OF assms(6), of S] made_agree [OF _ assms(3), of _ _ S] in auto)

text \<open>The calls at a conditional branch go through two fresh temporaries.\<close>

definition always :: IRExpr where
  "always = Iex_Const (Ico_U1 1)"

definition branch_icall :: "bool \<Rightarrow> IRExpr \<Rightarrow> icall" where
  "branch_icall ci guard = (''trace_branch_conditional'',
     [mkIRExpr_HWord (if ci then 1 else 0), Iex_Unop (Iop ''1Sto64'') guard], always)"

lemma plain_call_is_call:
  "fn \<in> fns \<Longrightarrow> is_call fns (fn, args, always) (Some (Ist_Dirty (plain_call n name fn args)))"
  by (simp add: is_call_def plain_call_def tool_call_def emptyIRDirty_def callee_name_def always_def)

lemma runs_chunk_branch:
  assumes "''trace_branch_conditional'' \<in> fns" "\<not> helper_call fns st" "stmt_temps st \<subseteq> {..<N}"
    and "temps_of guard \<subseteq> {..<N}" "N \<le> n"
  shows "runs_chunk S fns N (branch_chunk n ci guard @ [Some st] @ []) [branch_icall ci guard] [] st"
proof (rule runs_chunkI [OF assms(2,3)])
  fix r r' :: "'a temps" and g log assume ag: "agree {..<N} r r'"
  define r1 where "r1 = r'(n := eval S r' g guard)"
  define r2 where "r2 = r1(Suc n := eval S r1 g (Iex_Unop (Iop ''1Sto64'') (Iex_RdTmp n)))"
  have gd: "eval S r' g guard = eval S r g guard"
    by (rule eval_agree [OF agree_subset [OF ag assms(4)], symmetric])
  have "agree {..<N} r r2" using ag assms(5) by (simp add: agree_def r1_def r2_def)
  moreover have "made S (r2, g) [(''trace_branch_conditional'',
        [mkIRExpr_HWord (if ci then 1 else 0), Iex_RdTmp (Suc n)], always)] = made S (r, g) [branch_icall ci guard]"
    using gd by (simp add: made_def branch_icall_def always_def r2_def r1_def mkIRExpr_HWord_def)
  moreover have "exec (with_tool fns S log_call) (r', g, log) (branch_chunk n ci guard) =
      exec_stmt (with_tool fns S log_call) (r2, g, log) (branch_chunk n ci guard ! 2)"
    by (simp add: branch_chunk_def exec_stmt_def r1_def r2_def)
  ultimately show "\<exists>r1. agree {..<N} r r1 \<and> exec (with_tool fns S log_call) (r', g, log) (branch_chunk n ci guard)
      = Inr (r1, g, log @ made S (r, g) [branch_icall ci guard])"
    using is_call_run [OF plain_call_is_call [OF assms(1)], of S r2 g log] by (auto simp: branch_chunk_def)
qed (use assms(4) in \<open>simp_all add: branch_icall_def always_def mkIRExpr_HWord_def\<close>)

section \<open>Blocks\<close>

text \<open>The instruction that a statement belongs to; there is none before the first \<open>IMark\<close>.\<close>

fun mark_of :: "imark option \<Rightarrow> IRStmt \<Rightarrow> imark option" where
  "mark_of i (Ist_IMark addr len delta) = Some (addr, len)"
| "mark_of i st = i"

definition calls_at :: "(imark \<Rightarrow> IRStmt \<Rightarrow> icall list) \<Rightarrow> imark option \<Rightarrow> IRStmt \<Rightarrow> icall list" where
  "calls_at f i st = (case mark_of i st of None \<Rightarrow> [] | Some m \<Rightarrow> f m st)"

fun logged_run :: "('v, 'g) ir_sem \<Rightarrow> (imark \<Rightarrow> IRStmt \<Rightarrow> icall list) \<Rightarrow> (imark \<Rightarrow> IRStmt \<Rightarrow> icall list) \<Rightarrow>
    imark option \<Rightarrow> 'v temps \<times> 'g \<times> ('v, 'g) entry list \<Rightarrow> IRStmt option list \<Rightarrow>
    ('v, 'g \<times> ('v, 'g) entry list) running" where
  "logged_run S pre post i s [] = Inr s"
| "logged_run S pre post i s (None # xs) = logged_run S pre post i s xs"
| "logged_run S pre post i s (Some st # xs) =
     bindR (stmt_logged S (calls_at pre i st) (calls_at post i st) st s)
       (\<lambda>s. logged_run S pre post (mark_of i st) s xs)"

lemma stmt_logged_no_calls:
  assumes "\<not> helper_call fns st"
  shows "exec_stmt (with_tool fns S log_call) (r, g, log) (Some st) = stmt_logged S [] [] st (r, g, log)"
  using exec_stmt_logged [OF assms, of S log_call r g log] by (simp add: stmt_logged_def split: sum.splits prod.splits)

lemma stmt_logged_NoOp: "stmt_logged S [] [] Ist_NoOp s = Inr s"
  by (cases s) (simp add: stmt_logged_def)

locale logged_step =
  fixes step :: "IRTypeEnv \<Rightarrow> IRSB \<Rightarrow> imark \<Rightarrow> IRStmt \<Rightarrow> (IRSB \<times> imark) res"
    and fns :: "string set"
    and S :: "('v, 'g) ir_sem"
    and pre post :: "IRTypeEnv \<Rightarrow> imark \<Rightarrow> IRStmt \<Rightarrow> icall list"
  assumes no_calls: "pre E i Ist_NoOp = []" "post E i Ist_NoOp = []"
    and step_runs: "wf_sb sb \<Longrightarrow> step E sb i st = Inr (sb', i') \<Longrightarrow> \<not> helper_call fns st \<Longrightarrow>
      stmt_temps st \<subseteq> {..<types_used E} \<Longrightarrow> types_used E \<le> types_used (tyenv sb) \<Longrightarrow>
      i' = advance i st \<and> (\<exists>tys chunk. grows sb sb' tys chunk \<and>
        runs_chunk S fns (types_used E) chunk (pre E (advance i st) st) (post E (advance i st) st) st)"
begin

lemma loop_logged:
  assumes "stmt_loop (step E) sb i xs = Inr (sb', i')" "wf_sb sb" "types_used E \<le> types_used (tyenv sb)"
    and "\<And>st. Some st \<in> set xs \<Longrightarrow> \<not> helper_call fns st \<and> stmt_temps st \<subseteq> {..<types_used E}"
    and "j = Some i \<or> j = None \<and> (xs = [] \<or> (\<exists>a l d ys. xs = Some (Ist_IMark a l d) # ys))"
  shows "\<exists>tys out. grows sb sb' tys out \<and>
    (\<forall>r r' g log. agree {..<types_used E} r r' \<longrightarrow>
       same_run {..<types_used E} (logged_run S (pre E) (post E) j (r, g, log) xs)
         (exec (with_tool fns S log_call) (r', g, log) out))"
  using assms
proof (induction xs arbitrary: sb i j)
  case Nil
  then show ?case by (intro exI [of _ "[]"]) auto
next
  case (Cons x xs)
  show ?case
  proof (cases "skipped x")
    case True
    then have loop: "stmt_loop (step E) sb i xs = Inr (sb', i')" and j: "j = Some i"
      using Cons.prems(1,5) by (auto simp: skipped_def)
    have "logged_run S (pre E) (post E) j s (x # xs) = logged_run S (pre E) (post E) j s xs" for s
      using True j by (auto simp: skipped_def calls_at_def no_calls stmt_logged_NoOp)
    with Cons.IH [OF loop Cons.prems(2,3), of j] Cons.prems(4) j show ?thesis by auto
  next
    case False
    then obtain st sb1 i1 where s: "x = Some st" "step E sb i st = Inr (sb1, i1)"
        "stmt_loop (step E) sb1 i1 xs = Inr (sb', i')"
      using Cons.prems(1) by (auto simp: skipped_def res_iff split: option.splits)
    have st: "\<not> helper_call fns st" "stmt_temps st \<subseteq> {..<types_used E}" using Cons.prems(4) s(1) by auto
    obtain tys chunk where c: "i1 = advance i st" "grows sb sb1 tys chunk"
        "runs_chunk S fns (types_used E) chunk (pre E (advance i st) st) (post E (advance i st) st) st"
      using step_runs [OF Cons.prems(2) s(2) st Cons.prems(3)] by blast
    have mark: "mark_of j st = Some i1" using Cons.prems(5) s(1) c(1) by (cases st) auto
    have sb1: "wf_sb sb1" "types_used E \<le> types_used (tyenv sb1)"
      using c(2) Cons.prems(3) by (auto simp: grows_def)
    obtain tys' out where o: "grows sb1 sb' tys' out"
        "\<And>r r' g log. agree {..<types_used E} r r' \<Longrightarrow>
           same_run {..<types_used E} (logged_run S (pre E) (post E) (Some i1) (r, g, log) xs)
             (exec (with_tool fns S log_call) (r', g, log) out)"
      using Cons.IH [OF s(3) sb1, of "Some i1"] Cons.prems(4) by auto
    have "same_run {..<types_used E} (logged_run S (pre E) (post E) j (r, g, log) (x # xs))
        (exec (with_tool fns S log_call) (r', g, log) (chunk @ out))" if ag: "agree {..<types_used E} r r'" for r r' g log
    proof -
      have "same_run {..<types_used E} (stmt_logged S (pre E i1 st) (post E i1 st) st (r, g, log))
          (exec (with_tool fns S log_call) (r', g, log) chunk)"
        using c(3) ag unfolding runs_chunk_def c(1) by blast
      then have "same_run {..<types_used E}
          (bindR (stmt_logged S (pre E i1 st) (post E i1 st) st (r, g, log)) (\<lambda>s. logged_run S (pre E) (post E) (Some i1) s xs))
          (bindR (exec (with_tool fns S log_call) (r', g, log) chunk) (\<lambda>s. exec (with_tool fns S log_call) s out))"
        by (rule same_run_bind) (use o(2) in auto)
      then show ?thesis by (simp add: s(1) mark calls_at_def exec_append)
    qed
    then show ?thesis using grows_trans [OF c(2) o(1)] by blast
  qed
qed

end

text \<open>The preamble is copied without calls.\<close>

lemma copy_preamble_split:
  "wf_sb sb \<Longrightarrow> copy_preamble sb xs = Inr (sb', rest) \<Longrightarrow>
     \<exists>ys. xs = ys @ rest \<and> grows sb sb' [] ys \<and> (\<forall>a l d. Some (Ist_IMark a l d) \<notin> set ys)
       \<and> (rest = [] \<or> (\<exists>a l d zs. rest = Some (Ist_IMark a l d) # zs))"
proof (induction xs arbitrary: sb)
  case (Cons x xs)
  then obtain s where st: "x = Some s" by (auto simp: res_iff)
  show ?case
  proof (cases "\<exists>a l d. s = Ist_IMark a l d")
    case True
    with Cons.prems st show ?thesis by auto
  next
    case False
    then have "copy_preamble (push_stmt sb x) xs = Inr (sb', rest)"
      using Cons.prems st by (cases s) (auto simp: addStmtToIRSB_ok)
    then obtain ys where "xs = ys @ rest" "grows (push_stmt sb x) sb' [] ys"
        "\<forall>a l d. Some (Ist_IMark a l d) \<notin> set ys" "rest = [] \<or> (\<exists>a l d zs. rest = Some (Ist_IMark a l d) # zs)"
      using Cons.IH [of "push_stmt sb x"] Cons.prems(1) by auto
    then show ?thesis
      using False st by (intro exI [of _ "x # ys"]) (auto simp: grows_def)
  qed
qed simp

lemma logged_run_preamble:
  assumes "\<And>st. Some st \<in> set ys \<Longrightarrow> \<not> helper_call fns st" "\<forall>a l d. Some (Ist_IMark a l d) \<notin> set ys"
  shows "logged_run S pre post None (r, g, log) (ys @ rest) =
    bindR (exec (with_tool fns S log_call) (r, g, log) ys) (\<lambda>s. logged_run S pre post None s rest)"
  using assms
proof (induction ys arbitrary: r g log)
  case (Cons x ys)
  show ?case
  proof (cases x)
    case None
    with Cons show ?thesis by simp
  next
    case (Some st)
    then have nm: "mark_of None st = None" using Cons.prems(2) by (cases st) auto
    have "bindR (stmt_logged S [] [] st (r, g, log)) (\<lambda>s. logged_run S pre post None s (ys @ rest)) =
      bindR (stmt_logged S [] [] st (r, g, log))
        (\<lambda>s. bindR (exec (with_tool fns S log_call) s ys) (\<lambda>s. logged_run S pre post None s rest))"
      using Cons by (intro bindR_cong) auto
    with Some nm stmt_logged_no_calls [of fns st S r g log] Cons.prems(1) show ?thesis
      by (simp add: calls_at_def bindR_assoc)
  qed
qed simp

context logged_step
begin

lemma translate_logged:
  assumes "translate_stmts step sbIn = Inr sbOut" "wf_env (tyenv sbIn)"
    and "\<And>st. Some st \<in> set (stmts sbIn) \<Longrightarrow> \<not> helper_call fns st \<and> stmt_temps st \<subseteq> {..<types_used (tyenv sbIn)}"
  shows "wf_sb sbOut \<and> same_run {..<types_used (tyenv sbIn)}
    (logged_run S (pre (tyenv sbIn)) (post (tyenv sbIn)) None (r, g, log) (stmts sbIn))
    (exec (with_tool fns S log_call) (r, g, log) (stmts sbOut))"
proof -
  obtain sb0 sb1 rest i where s: "deepCopyIRSBExceptStmts sbIn = Inr sb0"
      "copy_preamble sb0 (stmts sbIn) = Inr (sb1, rest)"
      "stmt_loop (step (tyenv sbIn)) sb1 (0, 0) rest = Inr (sbOut, i)"
    using assms(1) by (auto simp: translate_stmts_def res_iff)
  obtain nx nx' where "sb_next sbIn = Some nx" "deepCopyIRExpr nx = Inr nx'"
    using s(1) by (auto simp: deepCopyIRSBExceptStmts_def res_iff)
  from deepCopyIRSBExceptStmts_ok [OF this assms(2)] s(1)
  have sb0: "wf_sb sb0" "stmts sb0 = []" "types (tyenv sb0) = types (tyenv sbIn)" by auto
  obtain ys where p: "stmts sbIn = ys @ rest" "grows sb0 sb1 [] ys" "\<forall>a l d. Some (Ist_IMark a l d) \<notin> set ys"
      "rest = [] \<or> (\<exists>a l d zs. rest = Some (Ist_IMark a l d) # zs)"
    using copy_preamble_split [OF sb0(1) s(2)] by blast
  have sb1: "wf_sb sb1" "types_used (tyenv sbIn) \<le> types_used (tyenv sb1)" "stmts sb1 = ys"
    using p(2) sb0 by (auto simp: grows_def)
  obtain tys out where o: "grows sb1 sbOut tys out"
      "\<And>r r' g log. agree {..<types_used (tyenv sbIn)} r r' \<Longrightarrow>
         same_run {..<types_used (tyenv sbIn)} (logged_run S (pre (tyenv sbIn)) (post (tyenv sbIn)) None (r, g, log) rest)
           (exec (with_tool fns S log_call) (r', g, log) out)"
    using loop_logged [OF s(3) sb1(1,2), of None] assms(3) p(1,4) by auto
  have "same_run {..<types_used (tyenv sbIn)}
      (bindR (exec (with_tool fns S log_call) (r, g, log) ys)
        (\<lambda>s. logged_run S (pre (tyenv sbIn)) (post (tyenv sbIn)) None s rest))
      (bindR (exec (with_tool fns S log_call) (r, g, log) ys) (\<lambda>s. exec (with_tool fns S log_call) s out))"
    by (rule same_run_bind [OF same_run_refl]) (use o(2) in auto)
  moreover have "stmts sbOut = ys @ out" "wf_sb sbOut" using o(1) sb1(3) by (auto simp: grows_def)
  moreover have "\<And>st. Some st \<in> set ys \<Longrightarrow> \<not> helper_call fns st" using assms(3) p(1) by auto
  note logged_run_preamble [OF this p(3), of S "pre (tyenv sbIn)" "post (tyenv sbIn)" r g log rest]
  ultimately show ?thesis by (simp add: p(1) exec_append)
qed

end

end
