(* ===== verification/Tool_Trace.thy ===== *)
theory Tool_Trace
  imports Tool_Log Tool_Calls
begin

text \<open>
  The calls that cstracer and ctlite insert, with all their arguments and guards, and the
  interpretation of \<open>logged_step\<close> for both tools.
\<close>

section \<open>Memory accesses, branches, registers\<close>

fun acc_icall :: "access \<Rightarrow> icall" where
  "acc_icall (Access_load a n g) = (''trace_load'', [a, mkIRExpr_HWord (of_int n)], always)"
| "acc_icall (Access_store a n g) =
     (''trace_store'', [a, mkIRExpr_HWord (of_int n)], case g of None \<Rightarrow> always | Some g \<Rightarrow> g)"

definition access_icalls :: "IRTypeEnv \<Rightarrow> IRStmt \<Rightarrow> icall list" where
  "access_icalls E st = (case accesses E st of Inl _ \<Rightarrow> [] | Inr as \<Rightarrow> map acc_icall as)"

definition exit_icalls :: "imark \<Rightarrow> IRExpr \<Rightarrow> IRJumpKind \<Rightarrow> IRConst \<Rightarrow> icall list" where
  "exit_icalls i guard jk dst =
     (if guest_branch jk then [branch_icall (Ico_as_U64 dst = Inr (fst i + ucast (snd i))) guard] else [])"

definition reg_icalls :: "platform \<Rightarrow> string \<Rightarrow> int \<Rightarrow> icall list" where
  "reg_icalls p fn offset =
     (case offset_to_register p offset 0 of
        Inl _ \<Rightarrow> []
      | Inr r \<Rightarrow> if r = 0 \<or> r = reg_ip p then [] else [(fn, [mkIRExpr_HWord (of_int r)], always)])"

lemma const_temps [simp]: "temps_of (mkIRExpr_HWord w) = {}" "temps_of always = {}"
  by (simp_all add: mkIRExpr_HWord_def always_def)

lemma access_temps:
  assumes "e \<in> set (icall_exprs (access_icalls E st))"
  shows "temps_of e \<subseteq> stmt_temps st"
proof -
  have acc: "temps_of (acc_addr a) \<subseteq> stmt_temps st \<and> (\<forall>g. acc_guard a = Some g \<longrightarrow> temps_of g \<subseteq> stmt_temps st)"
    if "accesses E st = Inr as" "a \<in> set as" for as a
  proof (cases st)
    case (Ist_WrTmp t e)
    with that show ?thesis by (cases e) (auto simp: res_iff stmt_temps_def)
  next
    case (Ist_LLSC en r a sd)
    with that show ?thesis by (cases sd) (auto simp: res_iff stmt_temps_def)
  next
    case (Ist_Dirty d)
    with that show ?thesis by (auto simp: res_iff stmt_temps_def split: if_splits option.splits)
  qed (use that in \<open>auto simp: res_iff stmt_temps_def Let_def\<close>)
  have "temps_of e \<subseteq> stmt_temps st" if "accesses E st = Inr as" "a \<in> set as" "e \<in> set (icall_exprs [acc_icall a])" for as a e
    using acc [OF that(1,2)] that(3) by (cases a) (auto split: option.splits)
  moreover obtain as a where "accesses E st = Inr as" "a \<in> set as" "e \<in> set (icall_exprs [acc_icall a])"
    using assms by (cases "accesses E st") (force simp: access_icalls_def icall_exprs_def)+
  ultimately show ?thesis by blast
qed

text \<open>What the functions that insert the calls append.\<close>

definition inserts_icall :: "string set \<Rightarrow> inserter \<Rightarrow> inserter \<Rightarrow> bool" where
  "inserts_icall fns ld st \<longleftrightarrow> (\<forall>sb a sb'. wf_sb sb \<longrightarrow> instrument_access ld st sb a = Inr sb' \<longrightarrow>
     (\<exists>x. sb' = push_stmt sb x \<and> is_call fns (acc_icall a) x))"

lemma accesses_icalls:
  assumes "inserts_icall fns ld st" "instrument_accesses ld st E sb s = Inr sb'" "wf_sb sb"
  shows "\<exists>xs. grows sb sb' [] xs \<and> list_all2 (is_call fns) (access_icalls E s) xs"
proof -
  obtain as where as: "accesses E s = Inr as" "foldR (instrument_access ld st) sb as = Inr sb'"
    using assms(2) by (auto simp: instrument_accesses_def res_iff)
  have "foldR (instrument_access ld st) sb as = Inr sb' \<Longrightarrow> wf_sb sb \<Longrightarrow>
      \<exists>xs. grows sb sb' [] xs \<and> list_all2 (is_call fns) (map acc_icall as) xs"
  proof (induction as arbitrary: sb)
    case (Cons a as)
    then obtain sb1 where s1: "instrument_access ld st sb a = Inr sb1" "foldR (instrument_access ld st) sb1 as = Inr sb'"
      by (auto simp: res_iff)
    then obtain x where x: "sb1 = push_stmt sb x" "is_call fns (acc_icall a) x"
      using assms(1) Cons.prems(2) unfolding inserts_icall_def by blast
    then obtain xs where "grows sb1 sb' [] xs" "list_all2 (is_call fns) (map acc_icall as) xs"
      using Cons.IH [OF s1(2)] Cons.prems(2) by auto
    with x show ?case by (intro exI [of _ "x # xs"]) (simp add: grows_def)
  qed auto
  with as assms(3) show ?thesis by (simp add: access_icalls_def)
qed

lemma cl_mem_call_is_call:
  assumes "cl_mem_call fn gd sb a n = Inr sb'" "wf_sb sb" "fn \<in> cl_helpers"
  shows "\<exists>x. sb' = push_stmt sb x \<and> is_call cl_helpers (fn, [a, mkIRExpr_HWord (of_int n)], gd) x"
proof -
  define d where "d = emptyIRDirty\<lparr>d_args := Some [a, mkIRExpr_HWord (of_int n)],
    d_cee := Some \<lparr>cee_regparms = 2, cee_name = Some fn, cee_addr = Fn fn, cee_mcx_mask = 0\<rparr>, d_guard := Some gd\<rparr>"
  have "sb' = push_stmt sb (Some (Ist_Dirty d))"
    using assms(1,2) by (simp add: cl_mem_call_def addStmtToIRSB_ok d_def)
  moreover have "is_call cl_helpers (fn, [a, mkIRExpr_HWord (of_int n)], gd) (Some (Ist_Dirty d))"
    using assms(3) by (simp add: is_call_def tool_call_def callee_name_def emptyIRDirty_def d_def)
  ultimately show ?thesis by blast
qed

lemma cl_inserts_icall: "inserts_icall cl_helpers cl_instrument_load cl_instrument_store"
  unfolding inserts_icall_def
proof (intro allI impI)
  fix sb a sb' assume h: "wf_sb sb" "instrument_access cl_instrument_load cl_instrument_store sb a = Inr sb'"
  have fns: "''trace_load'' \<in> cl_helpers" "''trace_store'' \<in> cl_helpers" by (simp_all add: cl_helpers_def)
  show "\<exists>x. sb' = push_stmt sb x \<and> is_call cl_helpers (acc_icall a) x"
    using h(2) cl_mem_call_is_call [OF _ h(1) fns(1)] cl_mem_call_is_call [OF _ h(1) fns(2)]
    by (cases a) (auto simp: cl_instrument_load_def cl_instrument_store_def res_iff always_def split: option.splits)
qed

lemma ct_mem_call_is_call:
  assumes "ct_mem_call fn gd sb a n = Inr sb'" "wf_sb sb" "fn \<in> ct_helpers"
  shows "\<exists>x. sb' = push_stmt sb x \<and> is_call ct_helpers (fn, [a, mkIRExpr_HWord (of_int n)], gd) x"
proof -
  obtain m where m: "cache_block_addr a = Inr m" using assms(1) by (auto simp: ct_mem_call_def res_iff)
  define d where "d = emptyIRDirty\<lparr>d_mFx := Ifx_Read, d_mAddr := Some m, d_mSize := int CACHE_LINE_SIZE,
    d_args := Some [a, mkIRExpr_HWord (of_int n)],
    d_cee := Some \<lparr>cee_regparms = 2, cee_name = Some fn, cee_addr = Fn fn, cee_mcx_mask = 0\<rparr>, d_guard := Some gd\<rparr>"
  have "sb' = push_stmt sb (Some (Ist_Dirty d))"
    using assms(1,2) m by (simp add: ct_mem_call_def addStmtToIRSB_ok d_def)
  moreover have "is_call ct_helpers (fn, [a, mkIRExpr_HWord (of_int n)], gd) (Some (Ist_Dirty d))"
    using assms(3) by (simp add: is_call_def tool_call_def callee_name_def emptyIRDirty_def d_def)
  ultimately show ?thesis by blast
qed

lemma ct_inserts_icall: "inserts_icall ct_helpers ct_instrument_load ct_instrument_store"
  unfolding inserts_icall_def
proof (intro allI impI)
  fix sb a sb' assume h: "wf_sb sb" "instrument_access ct_instrument_load ct_instrument_store sb a = Inr sb'"
  have fns: "''trace_load'' \<in> ct_helpers" "''trace_store'' \<in> ct_helpers" by (simp_all add: ct_helpers_def)
  show "\<exists>x. sb' = push_stmt sb x \<and> is_call ct_helpers (acc_icall a) x"
    using h(2) ct_mem_call_is_call [OF _ h(1) fns(1)] ct_mem_call_is_call [OF _ h(1) fns(2)]
    by (cases a) (auto simp: ct_instrument_load_def ct_instrument_store_def res_iff always_def split: option.splits)
qed

lemma exit_icalls_run:
  assumes "instrument_exit sb i guard jk dst = Inr sb1" "wf_sb sb" "''trace_branch_conditional'' \<in> fns"
    and "\<not> helper_call fns st" "stmt_temps st \<subseteq> {..<N}" "temps_of guard \<subseteq> {..<N}" "N \<le> types_used (tyenv sb)"
  shows "\<exists>tys xs. grows sb sb1 tys xs \<and> runs_chunk S fns N (xs @ [Some st] @ []) (exit_icalls i guard jk dst) [] st"
proof (cases "guest_branch jk")
  case True
  with assms(1) obtain d where d: "Ico_as_U64 dst = Inr d"
      "instrument_branch_conditional sb (d = fst i + ucast (snd i)) guard = Inr sb1"
    by (auto simp: instrument_exit_def Let_def res_iff)
  with branch_conditional_grows [OF assms(2), of "d = fst i + ucast (snd i)" guard]
    runs_chunk_branch [OF assms(3-7), of S "d = fst i + ucast (snd i)"] True
  show ?thesis by (auto simp: exit_icalls_def)
next
  case False
  with assms(1) have "sb1 = sb" by (auto simp: instrument_exit_def Let_def res_iff)
  with False assms(2,4,5) show ?thesis
    by (intro exI [of _ "[]"]) (auto simp: exit_icalls_def intro!: runs_chunk_calls [of fns st N "[]" "[]" "[]" "[]", simplified])
qed

section \<open>ctlite\<close>

fun cl_pre :: "IRTypeEnv \<Rightarrow> imark \<Rightarrow> IRStmt \<Rightarrow> icall list" where
  "cl_pre E i (Ist_IMark addr len delta) =
     [(''trace_instr'', [mkIRExpr_HWord addr, mkIRExpr_HWord (ucast len)], always)]"
| "cl_pre E i (Ist_Exit guard jk dst offsIP) = exit_icalls i guard jk dst"
| "cl_pre E i st = []"

definition cl_post :: "IRTypeEnv \<Rightarrow> imark \<Rightarrow> IRStmt \<Rightarrow> icall list" where
  "cl_post E i st = access_icalls E st"

lemma cl_step_runs:
  assumes "wf_sb sb" "cl_step p E sb i st = Inr (sb', i')" "\<not> helper_call cl_helpers st"
    and "stmt_temps st \<subseteq> {..<types_used E}" "types_used E \<le> types_used (tyenv sb)"
  shows "i' = advance i st \<and> (\<exists>tys chunk. grows sb sb' tys chunk \<and>
    runs_chunk S cl_helpers (types_used E) chunk (cl_pre E (advance i st) st) (cl_post E (advance i st) st) st)"
proof -
  have acc: "i' = i \<and> (\<exists>tys chunk. grows sb sb' tys chunk \<and>
      runs_chunk S cl_helpers (types_used E) chunk [] (access_icalls E st) st)"
    if "cl_step p E sb i st = bindR (addStmtToIRSB sb (Some st)) (\<lambda>sb.
     bindR (instrument_accesses cl_instrument_load cl_instrument_store E sb st) (\<lambda>sb. Inr (sb, i)))"
  proof -
    have i: "i' = i" "instrument_accesses cl_instrument_load cl_instrument_store E (push_stmt sb (Some st)) st = Inr sb'"
      using assms(1,2) that by (auto simp: addStmtToIRSB_ok res_iff)
    obtain xs where xs: "grows (push_stmt sb (Some st)) sb' [] xs" "list_all2 (is_call cl_helpers) (access_icalls E st) xs"
      using accesses_icalls [OF cl_inserts_icall i(2)] assms(1) by auto
    have "grows sb sb' [] ([] @ [Some st] @ xs)" using xs(1) by (simp add: grows_def)
    moreover have "\<forall>e\<in>set (icall_exprs (access_icalls E st)). temps_of e \<subseteq> {..<types_used E}"
      using access_temps assms(4) by blast
    ultimately show ?thesis
      using i(1) runs_chunk_calls [OF assms(3,4) _ _ _ xs(2), of "[]" "[]" S] by auto
  qed
  show ?thesis
  proof (cases st)
    case (Ist_IMark addr len delta)
    then obtain sb1 where s: "cl_instrument_instruction p sb (mkIRExpr_HWord addr) len = Inr sb1"
        "addStmtToIRSB sb1 (Some st) = Inr sb'" "i' = (addr, len)"
      using assms(2) by (auto simp: res_iff)
    define c where "c = Some (Ist_Dirty (plain_call 2 ''trace_instr'' ''trace_instr''
      [mkIRExpr_HWord addr, mkIRExpr_HWord (ucast len)]))"
    have "''trace_instr'' \<in> cl_helpers" by (simp add: cl_helpers_def)
    then have "is_call cl_helpers (''trace_instr'', [mkIRExpr_HWord addr, mkIRExpr_HWord (ucast len)], always) c"
      unfolding c_def by (rule plain_call_is_call)
    moreover have "sb1 = push_stmt sb c"
      using s(1) assms(1) by (auto simp: cl_instrument_instruction_def res_iff add_call_ok c_def)
    moreover have "sb' = push_stmt sb1 (Some st)" using s(2) calculation(2) assms(1) by (simp add: addStmtToIRSB_ok)
    ultimately have "grows sb sb' [] ([c] @ [Some st] @ [])"
      "list_all2 (is_call cl_helpers) (cl_pre E (advance i st) st) [c]"
      using assms(1) Ist_IMark by (auto simp: grows_def)
    moreover from this(2) have "runs_chunk S cl_helpers (types_used E) ([c] @ [Some st] @ []) (cl_pre E (advance i st) st) [] st"
      using Ist_IMark by (intro runs_chunk_calls [OF assms(3,4)]) auto
    ultimately show ?thesis using s(3) Ist_IMark by (auto simp: cl_post_def access_icalls_def)
  next
    case (Ist_Exit guard jk dst off)
    then obtain sb1 where s: "instrument_exit sb i guard jk dst = Inr sb1" "addStmtToIRSB sb1 (Some st) = Inr sb'" "i' = i"
      using assms(2) by (auto simp: res_iff)
    have "''trace_branch_conditional'' \<in> cl_helpers" by (simp add: cl_helpers_def)
    moreover have "temps_of guard \<subseteq> {..<types_used E}" using assms(4) Ist_Exit by (simp add: stmt_temps_def)
    ultimately obtain tys xs where x: "grows sb sb1 tys xs"
        "runs_chunk S cl_helpers (types_used E) (xs @ [Some st] @ []) (exit_icalls i guard jk dst) [] st"
      using exit_icalls_run [OF s(1) assms(1) _ assms(3,4) _ assms(5)] by blast
    have "sb' = push_stmt sb1 (Some st)" using s(2) x(1) by (simp add: addStmtToIRSB_ok grows_def)
    then have "grows sb sb' tys (xs @ [Some st] @ [])" using x(1) by simp
    with x(2) s(3) Ist_Exit show ?thesis by (auto simp: cl_post_def access_icalls_def)
  qed (use acc in \<open>auto simp: cl_post_def\<close>)
qed

interpretation cl_log: logged_step "cl_step p" cl_helpers S cl_pre cl_post for p S
  by unfold_locales (simp, simp add: cl_post_def access_icalls_def, rule cl_step_runs)

section \<open>cstracer\<close>

fun ct_pre :: "platform \<Rightarrow> IRTypeEnv \<Rightarrow> imark \<Rightarrow> IRStmt \<Rightarrow> icall list" where
  "ct_pre p E i (Ist_IMark addr len delta) =
     [(''inc_inst'', [], always), (''write_inst_to_file'', [], always), (''zero_inst'', [], always),
      (''trace_instr'', [mkIRExpr_HWord addr, mkIRExpr_HWord (ucast len)], always)]"
| "ct_pre p E i (Ist_Put offset dat) = reg_icalls p ''trace_reg_write'' offset"
| "ct_pre p E i (Ist_Exit guard jk dst offsIP) = exit_icalls i guard jk dst"
| "ct_pre p E i st = []"

definition ct_post :: "platform \<Rightarrow> IRTypeEnv \<Rightarrow> imark \<Rightarrow> IRStmt \<Rightarrow> icall list" where
  "ct_post p E i st = access_icalls E st @
     (case st of Ist_WrTmp t (Iex_Get offset ty) \<Rightarrow> reg_icalls p ''trace_reg_read'' offset | _ \<Rightarrow> [])"

lemma reg_icalls_temps: "e \<in> set (icall_exprs (reg_icalls p fn offset)) \<Longrightarrow> temps_of e = {}"
  by (auto simp: reg_icalls_def split: sum.splits if_splits)

lemma one_icall:
  assumes "add_call n name fn args sb = Inr sb'" "wf_sb sb" "fn \<in> fns" "0 \<le> n" "n \<le> 3"
  shows "\<exists>xs. grows sb sb' [] xs \<and> list_all2 (is_call fns) [(fn, args, always)] xs"
  using assms by (auto simp: add_call_ok grows_def intro!: exI [of _ "[Some (Ist_Dirty (plain_call n name fn args))]"] plain_call_is_call)

lemma reg_icalls_run:
  assumes "wf_sb sb"
  shows "instrument_reg_read p sb offset sz = Inr sb' \<Longrightarrow>
      \<exists>xs. grows sb sb' [] xs \<and> list_all2 (is_call ct_helpers) (reg_icalls p ''trace_reg_read'' offset) xs"
    and "instrument_reg_write p sb offset sz = Inr sb' \<Longrightarrow>
      \<exists>xs. grows sb sb' [] xs \<and> list_all2 (is_call ct_helpers) (reg_icalls p ''trace_reg_write'' offset) xs"
proof -
  have fns: "''trace_reg_read'' \<in> ct_helpers" "''trace_reg_write'' \<in> ct_helpers" by (simp_all add: ct_helpers_def)
  note size = offset_size_irrelevant [of p offset sz 0]
  show "\<exists>xs. grows sb sb' [] xs \<and> list_all2 (is_call ct_helpers) (reg_icalls p ''trace_reg_read'' offset) xs"
    if "instrument_reg_read p sb offset sz = Inr sb'"
    using that size one_icall [OF _ assms fns(1), of 1] assms
    by (auto simp: instrument_reg_read_def reg_icalls_def res_iff split: if_splits)
  show "\<exists>xs. grows sb sb' [] xs \<and> list_all2 (is_call ct_helpers) (reg_icalls p ''trace_reg_write'' offset) xs"
    if "instrument_reg_write p sb offset sz = Inr sb'"
    using that size one_icall [OF _ assms fns(2), of 1] assms
    by (auto simp: instrument_reg_write_def reg_icalls_def res_iff split: if_splits)
qed

lemma mark_icalls_run:
  assumes "ct_instrument_instruction p sb (mkIRExpr_HWord addr) len = Inr sb1" "wf_sb sb"
  shows "\<exists>xs. grows sb sb1 [] xs \<and> list_all2 (is_call ct_helpers) (ct_pre p E i (Ist_IMark addr len delta)) xs"
proof -
  have fns: "''inc_inst'' \<in> ct_helpers" "''write_inst_to_file'' \<in> ct_helpers" "''zero_inst'' \<in> ct_helpers"
      "''trace_instr'' \<in> ct_helpers" by (simp_all add: ct_helpers_def)
  have "instr_size_ok p len" using assms(1) by (auto simp: ct_instrument_instruction_def res_iff)
  then have "grows sb sb1 [] (imark_calls (mkIRExpr_HWord addr) len)"
    using instrument_instruction_calls [OF assms(2), of p len addr] assms(1) by (auto simp: adds_calls_def)
  moreover have "list_all2 (is_call ct_helpers) (ct_pre p E i (Ist_IMark addr len delta)) (imark_calls (mkIRExpr_HWord addr) len)"
    using fns by (simp add: imark_calls_def plain_call_is_call)
  ultimately show ?thesis by blast
qed

lemma ct_step_runs:
  assumes "wf_sb sb" "ct_step p E sb i st = Inr (sb', i')" "\<not> helper_call ct_helpers st"
    and "stmt_temps st \<subseteq> {..<types_used E}" "types_used E \<le> types_used (tyenv sb)"
  shows "i' = advance i st \<and> (\<exists>tys chunk. grows sb sb' tys chunk \<and>
    runs_chunk S ct_helpers (types_used E) chunk (ct_pre p E (advance i st) st) (ct_post p E (advance i st) st) st)"
proof -
  have acc_range: "\<forall>e\<in>set (icall_exprs (access_icalls E st)). temps_of e \<subseteq> {..<types_used E}"
    using access_temps assms(4) by blast
  have before: "\<exists>tys chunk. grows sb sb' tys chunk \<and> runs_chunk S ct_helpers (types_used E) chunk cs [] st"
    if "grows sb sb1 [] xs" "addStmtToIRSB sb1 (Some st) = Inr sb'" "list_all2 (is_call ct_helpers) cs xs"
      "\<forall>e\<in>set (icall_exprs cs). temps_of e = {}" for sb1 xs cs
  proof -
    have "sb' = push_stmt sb1 (Some st)" using that(1,2) by (simp add: addStmtToIRSB_ok grows_def)
    then have "grows sb sb' [] (xs @ [Some st] @ [])" using that(1) by simp
    moreover have "runs_chunk S ct_helpers (types_used E) (xs @ [Some st] @ []) cs [] st"
      using that(3,4) by (intro runs_chunk_calls [OF assms(3,4)]) auto
    ultimately show ?thesis by blast
  qed
  have after: "\<exists>tys chunk. grows sb sb' tys chunk \<and>
      runs_chunk S ct_helpers (types_used E) chunk [] (access_icalls E st @ cs) st"
    if acc: "instrument_accesses ct_instrument_load ct_instrument_store E (push_stmt sb (Some st)) st = Inr sb1"
      and more: "grows sb1 sb' [] ys" "list_all2 (is_call ct_helpers) cs ys" "\<forall>e\<in>set (icall_exprs cs). temps_of e = {}" for sb1 ys cs
  proof -
    obtain xs where xs: "grows (push_stmt sb (Some st)) sb1 [] xs" "list_all2 (is_call ct_helpers) (access_icalls E st) xs"
      using accesses_icalls [OF ct_inserts_icall acc] assms(1) by auto
    have "grows sb sb' [] ([] @ [Some st] @ (xs @ ys))" using xs(1) more(1) by (simp add: grows_def)
    moreover have "\<forall>e\<in>set (icall_exprs (access_icalls E st @ cs)). temps_of e \<subseteq> {..<types_used E}"
      using acc_range more(3) by auto
    then have "runs_chunk S ct_helpers (types_used E) ([] @ [Some st] @ (xs @ ys)) [] (access_icalls E st @ cs) st"
      by (intro runs_chunk_calls [OF assms(3,4) _ _ _ list_all2_appendI [OF xs(2) more(2)]]) simp_all
    ultimately show ?thesis by blast
  qed
  have plain: "i' = i \<and> (\<exists>tys chunk. grows sb sb' tys chunk \<and>
      runs_chunk S ct_helpers (types_used E) chunk [] (access_icalls E st) st)"
    if "ct_step p E sb i st = bindR (addStmtToIRSB sb (Some st)) (\<lambda>sb.
     bindR (instrument_accesses ct_instrument_load ct_instrument_store E sb st) (\<lambda>sb. Inr (sb, i)))"
  proof -
    have acc: "i' = i" "instrument_accesses ct_instrument_load ct_instrument_store E (push_stmt sb (Some st)) st = Inr sb'"
      using assms(1,2) that by (auto simp: addStmtToIRSB_ok res_iff)
    then have "wf_sb sb'" using ct_accs.accesses_wf [OF wf_push_stmt [OF assms(1)]] by blast
    then show ?thesis using after [OF acc(2) grows_refl, of "[]"] acc(1) by simp
  qed
  show ?thesis
  proof (cases st)
    case (Ist_IMark addr len delta)
    then obtain sb1 where s: "ct_instrument_instruction p sb (mkIRExpr_HWord addr) len = Inr sb1"
        "addStmtToIRSB sb1 (Some st) = Inr sb'" "i' = (addr, len)"
      using assms(2) by (auto simp: res_iff)
    obtain xs where xs: "grows sb sb1 [] xs"
        "list_all2 (is_call ct_helpers) (ct_pre p E i (Ist_IMark addr len delta)) xs"
      using mark_icalls_run [OF s(1) assms(1)] by blast
    then have "\<exists>tys chunk. grows sb sb' tys chunk \<and>
        runs_chunk S ct_helpers (types_used E) chunk (ct_pre p E i (Ist_IMark addr len delta)) [] st"
      using before [OF xs(1) s(2) xs(2)] by auto
    with s(3) Ist_IMark show ?thesis by (auto simp: ct_post_def access_icalls_def)
  next
    case (Ist_Put offset dat)
    with assms(2) obtain sb1 sz where s: "instrument_reg_write p sb offset sz = Inr sb1" "i' = i"
        "addStmtToIRSB sb1 (Some st) = Inr sb'"
      by (auto simp: res_iff)
    with reg_icalls_run(2) [OF assms(1) s(1)] before reg_icalls_temps Ist_Put show ?thesis
      by (auto simp: ct_post_def access_icalls_def)
  next
    case (Ist_WrTmp t dat)
    with assms(1,2) obtain sb1 where s: "instrument_accesses ct_instrument_load ct_instrument_store E
          (push_stmt sb (Some st)) st = Inr sb1" "i' = i"
        "(case dat of Iex_Get offset ty \<Rightarrow> bindR (sizeofIRType ty) (\<lambda>sz. instrument_reg_read p sb1 offset sz)
            | _ \<Rightarrow> Inr sb1) = Inr sb'"
      by (auto simp: res_iff addStmtToIRSB_ok)
    have wf: "wf_sb sb1" using ct_accs.accesses_wf [OF wf_push_stmt [OF assms(1)] s(1)] .
    show ?thesis
    proof (cases "\<exists>offset ty. dat = Iex_Get offset ty")
      case True
      then obtain offset ty sz where g: "dat = Iex_Get offset ty" "instrument_reg_read p sb1 offset sz = Inr sb'"
        using s(3) by (auto simp: res_iff)
      with reg_icalls_run(1) [OF wf g(2)] after [OF s(1)] reg_icalls_temps s(2) Ist_WrTmp show ?thesis
        by (auto simp: ct_post_def)
    next
      case False
      then have "sb' = sb1" using s(3) by (cases dat) auto
      then have "grows sb1 sb' [] []" using grows_refl [OF wf] by simp
      with after [OF s(1), of "[]" "[]"] False s(2) Ist_WrTmp show ?thesis
        by (cases dat) (auto simp: ct_post_def)
    qed
  next
    case (Ist_Exit guard jk dst off)
    then obtain sb1 where s: "instrument_exit sb i guard jk dst = Inr sb1" "addStmtToIRSB sb1 (Some st) = Inr sb'" "i' = i"
      using assms(2) by (auto simp: res_iff)
    have "''trace_branch_conditional'' \<in> ct_helpers" by (simp add: ct_helpers_def)
    moreover have "temps_of guard \<subseteq> {..<types_used E}" using assms(4) Ist_Exit by (simp add: stmt_temps_def)
    ultimately obtain tys xs where x: "grows sb sb1 tys xs"
        "runs_chunk S ct_helpers (types_used E) (xs @ [Some st] @ []) (exit_icalls i guard jk dst) [] st"
      using exit_icalls_run [OF s(1) assms(1) _ assms(3,4) _ assms(5)] by blast
    have "sb' = push_stmt sb1 (Some st)" using s(2) x(1) by (simp add: addStmtToIRSB_ok grows_def)
    then have "grows sb sb' tys (xs @ [Some st] @ [])" using x(1) by simp
    with x(2) s(3) Ist_Exit show ?thesis by (auto simp: ct_post_def access_icalls_def)
  qed (use plain in \<open>auto simp: ct_post_def\<close>)
qed

interpretation ct_log: logged_step "ct_step p" ct_helpers S "ct_pre p" "ct_post p" for p S
  by unfold_locales (simp, simp add: ct_post_def access_icalls_def, rule ct_step_runs)

end
