(* ===== verification/Tool_Program.thy ===== *)
theory Tool_Program
  imports Tool_Trace
begin

text \<open>
  Running instrumented blocks one after the other with the tool's helpers behind their calls: the
  tool's state is what its helpers make of the calls of the log, and the log is computed from runs of
  the original blocks.
\<close>

section \<open>Tools with the same calls\<close>

text \<open>The behaviour of a tool whose state is changed at every entry of the log by \<open>f\<close>.\<close>

definition on_entry :: "('t \<Rightarrow> ('v, 'g) entry \<Rightarrow> 't) \<Rightarrow> IRStmt \<Rightarrow> 'v list \<Rightarrow> 'g \<Rightarrow> 't \<Rightarrow> 't" where
  "on_entry f st vs g t = f t (entry_of st vs g)"

definition map_tool :: "('t \<Rightarrow> 'u) \<Rightarrow> ('v, 'g \<times> 't) running \<Rightarrow> ('v, 'g \<times> 'u) running" where
  "map_tool h = map_sum (map_prod id (map_prod id (map_prod id (map_prod id h)))) (map_prod id (map_prod id h))"

lemma map_tool_simps [simp]:
  "map_tool h (Inl (v, jk, off, g, t)) = Inl (v, jk, off, g, h t)" "map_tool h (Inr (r, g, t)) = Inr (r, g, h t)"
  by (simp_all add: map_tool_def)

lemma act_tool_hom:
  assumes "\<And>st vs g t. h (T st vs g t) = T' st vs g (h t)"
  shows "act (with_tool fns S T') st (r, g, h t) = (let (r', g', t') = act (with_tool fns S T) st (r, g, t) in (r', g', h t'))"
proof (cases "helper_call fns st")
  case True
  then show ?thesis by (simp add: act_def with_tool_act assms)
next
  case False
  obtain g' r' where "act S st (r, g) = (r', g')" "act (with_tool fns S T) st (r, g, t) = (r', g', t)"
    using act_with_tool [OF False, of S r g T t] by blast
  moreover have "act (with_tool fns S T') st (r, g, h t) = (r', g', h t)"
    using act_with_tool [OF False, of S r g T' "h t"] calculation(1) by auto
  ultimately show ?thesis by simp
qed

lemma exec_stmt_tool_hom:
  assumes "\<And>st vs g t. h (T st vs g t) = T' st vs g (h t)"
  shows "exec_stmt (with_tool fns S T') (r, g, h t) x = map_tool h (exec_stmt (with_tool fns S T) (r, g, t) x)"
proof (cases x)
  case (Some st)
  note act = act_tool_hom [of h T T' fns S st r g t, OF assms]
  show ?thesis
    unfolding Some using act
    by (cases st) (auto simp: exec_stmt_def guard_holds_def split: prod.splits option.splits)
qed simp

lemma exec_tool_hom:
  assumes "\<And>st vs g t. h (T st vs g t) = T' st vs g (h t)"
  shows "exec (with_tool fns S T') (r, g, h t) xs = map_tool h (exec (with_tool fns S T) (r, g, t) xs)"
proof (induction xs arbitrary: r g t)
  case (Cons x xs)
  note step = exec_stmt_tool_hom [of h T T' fns S r g t x, OF assms]
  show ?case
  proof (cases "exec_stmt (with_tool fns S T) (r, g, t) x")
    case (Inl o1)
    with step show ?thesis by (cases o1) simp
  next
    case (Inr s1)
    with step Cons.IH show ?thesis by (cases s1) simp
  qed
qed simp

section \<open>Blocks and programs\<close>

definition world_after :: "('v, 'w) outcome \<Rightarrow> 'w" where
  "world_after out = snd (snd (snd out))"

definition run_block :: "('v, 'w) ir_sem \<Rightarrow> 'v temps \<Rightarrow> 'w \<Rightarrow> IRSB \<Rightarrow> 'w" where
  "run_block S r w b = world_after (block_outcome S (r, w) b)"

definition run_blocks :: "('v, 'w) ir_sem \<Rightarrow> 'v temps \<Rightarrow> 'w \<Rightarrow> IRSB list \<Rightarrow> 'w" where
  "run_blocks S r = foldl (run_block S r)"

text \<open>The calls of a run of an instrumented block, from a run of the original one. \<open>fin\<close> gives the
  calls at the end of a block.\<close>

definition block_log :: "('v, 'g) ir_sem \<Rightarrow> (IRTypeEnv \<Rightarrow> imark \<Rightarrow> IRStmt \<Rightarrow> icall list) \<Rightarrow>
    (IRTypeEnv \<Rightarrow> imark \<Rightarrow> IRStmt \<Rightarrow> icall list) \<Rightarrow> (IRSB \<Rightarrow> icall list) \<Rightarrow> 'v temps \<Rightarrow> 'g \<Rightarrow> IRSB \<Rightarrow>
    ('v, 'g) entry list" where
  "block_log S pre post fin r g b =
     (case logged_run S (pre (tyenv b)) (post (tyenv b)) None (r, g, []) (stmts b) of
        Inl (v, jk, off, g1, log) \<Rightarrow> log
      | Inr (r1, g1, log) \<Rightarrow> log @ made S (r1, g1) (fin b))"

fun program_log :: "('v, 'g) ir_sem \<Rightarrow> (IRTypeEnv \<Rightarrow> imark \<Rightarrow> IRStmt \<Rightarrow> icall list) \<Rightarrow>
    (IRTypeEnv \<Rightarrow> imark \<Rightarrow> IRStmt \<Rightarrow> icall list) \<Rightarrow> (IRSB \<Rightarrow> icall list) \<Rightarrow> 'v temps \<Rightarrow> 'g \<Rightarrow> IRSB list \<Rightarrow>
    ('v, 'g) entry list" where
  "program_log S pre post fin r g [] = []"
| "program_log S pre post fin r g (b # bs) =
     block_log S pre post fin r g b @ program_log S pre post fin r (run_block S r g b) bs"

text \<open>An instrumented block whose run makes the calls of the log.\<close>

definition logs :: "('v, 'g) ir_sem \<Rightarrow> string set \<Rightarrow> (IRTypeEnv \<Rightarrow> imark \<Rightarrow> IRStmt \<Rightarrow> icall list) \<Rightarrow>
    (IRTypeEnv \<Rightarrow> imark \<Rightarrow> IRStmt \<Rightarrow> icall list) \<Rightarrow> (IRSB \<Rightarrow> icall list) \<Rightarrow> IRSB \<Rightarrow> IRSB \<Rightarrow> bool" where
  "logs S fns pre post fin b b' \<longleftrightarrow>
     (\<forall>r g. run_block (with_tool fns S log_call) r (g, []) b' = (run_block S r g b, block_log S pre post fin r g b))"

lemma run_block_entries:
  assumes "logs S fns pre post fin b b'"
  shows "run_block (with_tool fns S (on_entry f)) r (g, t) b' =
    (run_block S r g b, foldl f t (block_log S pre post fin r g b))"
proof -
  let ?h = "foldl f t"
  have "exec (with_tool fns S (on_entry f)) (r, g, ?h []) (stmts b')
      = map_tool ?h (exec (with_tool fns S log_call) (r, g, []) (stmts b'))"
    by (rule exec_tool_hom) (simp add: log_call_def on_entry_def)
  then have "run_block (with_tool fns S (on_entry f)) r (g, t) b'
      = map_prod id ?h (run_block (with_tool fns S log_call) r (g, []) b')"
    by (cases "exec (with_tool fns S log_call) (r, g, []) (stmts b')")
      (auto simp: run_block_def world_after_def block_outcome_def map_tool_def)
  with assms show ?thesis by (simp add: logs_def)
qed

lemma run_blocks_entries:
  assumes "list_all2 (logs S fns pre post fin) bs bs'"
  shows "run_blocks (with_tool fns S (on_entry f)) r (g, t) bs' =
    (run_blocks S r g bs, foldl f t (program_log S pre post fin r g bs))"
  using assms
proof (induction bs bs' arbitrary: g t rule: list_all2_induct)
  case (Cons b bs b' bs')
  from run_block_entries [OF Cons.hyps(1), of f r g t] Cons.IH show ?case by (simp add: run_blocks_def)
qed (simp add: run_blocks_def)

text \<open>When instrumented blocks log a run of statements, and the guest's part of their outcome is known.\<close>

lemma logsI:
  assumes "\<And>r g. guest_outcome (block_outcome (with_tool fns S log_call) (r, g, []) b') = block_outcome S (r, g) b"
    and run: "\<And>r g. same_run N (case logged_run S (pre (tyenv b)) (post (tyenv b)) None (r, g, []) (stmts b) of
          Inl out \<Rightarrow> Inl out
        | Inr (r1, g1, log) \<Rightarrow> Inr (r1, g1, log @ made S (r1, g1) (fin b)))
      (exec (with_tool fns S log_call) (r, g, []) (stmts b'))"
  shows "logs S fns pre post fin b b'"
  unfolding logs_def
proof (intro allI)
  fix r g
  have "fst (run_block (with_tool fns S log_call) r (g, []) b') = run_block S r g b"
    using arg_cong [OF assms(1) [of r g], of world_after] by (simp add: run_block_def world_after_def guest_outcome_def)
  moreover have "snd (run_block (with_tool fns S log_call) r (g, []) b') = block_log S pre post fin r g b"
    using run [of r g]
    by (cases "logged_run S (pre (tyenv b)) (post (tyenv b)) None (r, g, []) (stmts b)";
        cases "exec (with_tool fns S log_call) (r, g, []) (stmts b')")
      (auto simp: run_block_def world_after_def block_outcome_def block_log_def split: prod.splits)
  ultimately show "run_block (with_tool fns S log_call) r (g, []) b' = (run_block S r g b, block_log S pre post fin r g b)"
    by (simp add: prod_eq_iff)
qed

section \<open>The two tools\<close>

text \<open>What is asked of a block before instrumentation.\<close>

definition block_ok :: "string set \<Rightarrow> (IRTypeEnv \<Rightarrow> imark \<Rightarrow> IRStmt \<Rightarrow> bool) \<Rightarrow> IRType \<Rightarrow> IRSB \<Rightarrow> bool" where
  "block_ok fns req gw b \<longleftrightarrow> wf_env (tyenv b) \<and> sanityCheckIRSB b True gw = Inr ()
     \<and> all_req (req (tyenv b)) (0, 0) (from_first_imark (stmts b))
     \<and> (\<forall>st\<in>set (stmts b). \<not> is_tool_stmt fns (types_used (tyenv b)) st)
     \<and> plain_sb b \<and> (\<forall>x\<in>set (stmts b). result_unguarded x)"

lemma block_ok_stmts:
  assumes "block_ok fns req gw b" "Some st \<in> set (stmts b)"
  shows "\<not> helper_call fns st \<and> stmt_temps st \<subseteq> {..<types_used (tyenv b)}"
proof -
  have "in_range b (block_exprs b)" using assms(1) sane_in_range by (auto simp: block_ok_def)
  then have "stmt_temps st \<subseteq> {..<types_used (tyenv b)}"
    using assms(2) by (fastforce simp: in_range_def block_exprs_def stmt_temps_def)
  moreover have "\<not> is_tool_stmt fns (types_used (tyenv b)) (Some st)"
    using assms by (auto simp: block_ok_def)
  then have "\<not> helper_call fns st" by (cases st) (auto simp: is_tool_stmt_def helper_call_def)
  ultimately show ?thesis by blast
qed

lemma cl_block_logs:
  assumes "cl_instrument p b gw gw = Inr b'" "block_ok cl_helpers (cl_req p) gw b"
  shows "logs S cl_helpers cl_pre cl_post (\<lambda>_. []) b b'"
proof (rule logsI)
  note ok = assms(2) [unfolded block_ok_def]
  note w = cl_block_woven [OF assms(1) _ sane_block_facts(3)]
  show "guest_outcome (block_outcome (with_tool cl_helpers S log_call) (r, g, []) b') = block_outcome S (r, g) b" for r g
    by (rule woven_outcome) (use w ok sane_in_range in blast)+
  have tr: "translate_stmts (cl_step p) b = Inr b'" using assms(1) by (auto simp: cl_instrument_def split: if_splits)
  show "same_run {..<types_used (tyenv b)}
      (case logged_run S (cl_pre (tyenv b)) (cl_post (tyenv b)) None (r, g, []) (stmts b) of
         Inl out \<Rightarrow> Inl out | Inr (r1, g1, log) \<Rightarrow> Inr (r1, g1, log @ made S (r1, g1) []))
      (exec (with_tool cl_helpers S log_call) (r, g, []) (stmts b'))" for r g
    using conjunct2 [OF cl_log.translate_logged [OF tr _ block_ok_stmts [OF assms(2)], of S r g "[]"]] ok
    by (cases "logged_run S (cl_pre (tyenv b)) (cl_post (tyenv b)) None (r, g, []) (stmts b)") auto
qed

definition ct_fin :: "IRSB \<Rightarrow> icall list" where
  "ct_fin b =
     (if guest_branch (sb_jumpkind b)
      then [(case sb_next b of Some (Iex_Const _) \<Rightarrow> ''trace_branch_direct'' | _ \<Rightarrow> ''trace_branch_indirect'',
             [mkIRExpr_HWord (ucast (jk_code (sb_jumpkind b)))], always)]
      else [])"

lemma ct_tail_icalls:
  assumes "ct_tail b sb = Inr sb'" "wf_sb sb"
  shows "\<exists>xs. grows sb sb' [] xs \<and> list_all2 (is_call ct_helpers) (ct_fin b) xs"
proof -
  have fns: "''trace_branch_direct'' \<in> ct_helpers" "''trace_branch_indirect'' \<in> ct_helpers"
    by (simp_all add: ct_helpers_def)
  show ?thesis
  proof (cases "guest_branch (sb_jumpkind b)")
    case True
    then obtain nx where nx: "sb_next b = Some nx" using assms(1) by (auto simp: ct_tail_def res_iff)
    show ?thesis
    proof (cases nx)
      case (Iex_Const c)
      with True nx assms(1) one_icall [OF _ assms(2) fns(1), of 1] show ?thesis
        by (auto simp: ct_tail_def ct_fin_def instrument_branch_direct_def)
    next
      case (Iex_RdTmp u)
      with True nx assms(1) one_icall [OF _ assms(2) fns(2), of 1] show ?thesis
        by (auto simp: ct_tail_def ct_fin_def instrument_branch_indirect_def)
    qed (use True nx assms(1) in \<open>simp_all add: ct_tail_def\<close>)
  qed (use assms in \<open>auto simp: ct_tail_def ct_fin_def\<close>)
qed

lemma ct_block_logs:
  assumes "ct_instrument p b gw gw = Inr b'" "block_ok ct_helpers (ct_req p) gw b"
  shows "logs S ct_helpers (ct_pre p) (ct_post p) ct_fin b b'"
proof (rule logsI)
  note ok = assms(2) [unfolded block_ok_def]
  note w = ct_block_woven [OF assms(1) _ sane_block_facts(3)]
  show "guest_outcome (block_outcome (with_tool ct_helpers S log_call) (r, g, []) b') = block_outcome S (r, g) b" for r g
    by (rule woven_outcome) (use w ok sane_in_range in blast)+
  obtain sb where sb: "translate_stmts (ct_step p) b = Inr sb" "ct_tail b sb = Inr b'"
    using ct_instrument_translate [OF assms(1)] .
  fix r g
  have tr: "wf_sb sb" "same_run {..<types_used (tyenv b)}
      (logged_run S (ct_pre p (tyenv b)) (ct_post p (tyenv b)) None (r, g, []) (stmts b))
      (exec (with_tool ct_helpers S log_call) (r, g, []) (stmts sb))"
    using ct_log.translate_logged [OF sb(1) _ block_ok_stmts [OF assms(2)], of S r g "[]"] ok by auto
  obtain xs where xs: "grows sb b' [] xs" "list_all2 (is_call ct_helpers) (ct_fin b) xs"
    using ct_tail_icalls [OF sb(2) tr(1)] by blast
  have st: "stmts b' = stmts sb @ xs" using xs(1) by (simp add: grows_def)
  have fin: "made S (r1, g1) (ct_fin b) = made S (r2, g1) (ct_fin b)" for r1 r2 g1
    by (rule made_agree [of 0]) (auto simp: ct_fin_def agree_def)
  show "same_run {..<types_used (tyenv b)}
      (case logged_run S (ct_pre p (tyenv b)) (ct_post p (tyenv b)) None (r, g, []) (stmts b) of
         Inl out \<Rightarrow> Inl out | Inr (r1, g1, log) \<Rightarrow> Inr (r1, g1, log @ made S (r1, g1) (ct_fin b)))
      (exec (with_tool ct_helpers S log_call) (r, g, []) (stmts b'))"
    using tr(2) calls_run [OF xs(2), of S] fin unfolding st exec_append
    by (cases "logged_run S (ct_pre p (tyenv b)) (ct_post p (tyenv b)) None (r, g, []) (stmts b)";
        cases "exec (with_tool ct_helpers S log_call) (r, g, []) (stmts sb)") auto
qed

section \<open>Instrumentation and clean-up\<close>

text \<open>What VEX does with a block between the front end and the back end, as far as the tool is
  concerned.\<close>

definition clean_block :: "(IRSB \<Rightarrow> IRType \<Rightarrow> IRType \<Rightarrow> IRSB res) \<Rightarrow> IRType \<Rightarrow> IRSB \<Rightarrow> IRSB res" where
  "clean_block instrument gw b = bindR (instrument b gw gw) (\<lambda>b. post_instr_cleanup b gw)"

text \<open>What is asked of a meaning of the IR: it is as documented, and gives the blocks values of the
  declared types.\<close>

definition meaning_ok :: "(ir_val, 'g) ir_sem \<Rightarrow> IRSB list \<Rightarrow> bool" where
  "meaning_ok S bs \<longleftrightarrow> sem_ok S \<and> (\<forall>b\<in>set bs. acts_typed (tyenv b) S (stmts b))"

lemma meaning_ok_bits: "meaning_ok S bs \<Longrightarrow> sem_bits S"
  by (simp add: meaning_ok_def sem_ok_bits)

lemma meaning_ok_one: "meaning_ok S bs \<Longrightarrow> b \<in> set bs \<Longrightarrow> meaning_ok S [b]"
  by (simp add: meaning_ok_def)

lemma clean_block_logs:
  assumes "block_ok fns req gw b" "instrument b gw gw = Inr b1" "sanityCheckIRSB b1 True gw = Inr ()"
    and "woven fns (types_used (tyenv b)) (stmts b) (stmts b1) \<and> (\<exists>tys. types (tyenv b1) = types (tyenv b) @ tys \<and> (\<forall>ty\<in>set tys. tool_type ty))
      \<and> sb_next b1 = sb_next b \<and> sb_jumpkind b1 = sb_jumpkind b \<and> sb_offsIP b1 = sb_offsIP b \<and> wf_sb b1"
    and "logs S fns pre post fin b b1" "meaning_ok S [b]"
  shows "\<exists>b2. clean_block instrument gw b = Inr b2 \<and> logs S fns pre post fin b b2"
proof -
  note ok = assms(1) [unfolded block_ok_def]
  obtain b2 where b2: "post_instr_cleanup b1 gw = Inr b2"
      "\<And>r g t. block_outcome (with_tool fns S log_call) (r, g, t) b2 = block_outcome (with_tool fns S log_call) (r, g, t) b1"
    using instrumented_cleanup [OF assms(4) _ assms(3)] ok assms(6) unfolding meaning_ok_def
    by (metis list.set_intros(1))
  then have "logs S fns pre post fin b b2" using assms(5) by (simp add: logs_def run_block_def)
  with assms(2) b2(1) show ?thesis by (simp add: clean_block_def)
qed

lemma ct_clean_block:
  assumes "block_ok ct_helpers (ct_req p) gw b" "meaning_ok S [b]"
  shows "\<exists>b2. clean_block (ct_instrument p) gw b = Inr b2 \<and> logs S ct_helpers (ct_pre p) (ct_post p) ct_fin b b2"
proof -
  note ok = assms(1) [unfolded block_ok_def]
  obtain b1 where b1: "ct_instrument p b gw gw = Inr b1" "sanityCheckIRSB b1 True gw = Inr ()"
    using ct_block_total [of b gw p] ok by blast
  have "flat_stmts (stmts b)" using ok sane_block_facts(3) by blast
  from ct_block_woven [OF b1(1) _ this] ok show ?thesis
    by (intro clean_block_logs [where instrument = "ct_instrument p", OF assms(1) b1 _ ct_block_logs [OF b1(1) assms(1)] assms(2)]) blast
qed

lemma cl_clean_block:
  assumes "block_ok cl_helpers (cl_req p) gw b" "meaning_ok S [b]"
  shows "\<exists>b2. clean_block (cl_instrument p) gw b = Inr b2 \<and> logs S cl_helpers cl_pre cl_post (\<lambda>_. []) b b2"
proof -
  note ok = assms(1) [unfolded block_ok_def]
  obtain b1 where b1: "cl_instrument p b gw gw = Inr b1" "sanityCheckIRSB b1 True gw = Inr ()"
    using cl_block_total [of b gw p] ok by blast
  have "flat_stmts (stmts b)" using ok sane_block_facts(3) by blast
  from cl_block_woven [OF b1(1) _ this] ok show ?thesis
    by (intro clean_block_logs [where instrument = "cl_instrument p", OF assms(1) b1 _ cl_block_logs [OF b1(1) assms(1)] assms(2)]) blast
qed

lemma clean_blocks:
  assumes "\<And>b. b \<in> set bs \<Longrightarrow> \<exists>b2. clean_block instrument gw b = Inr b2 \<and> logs S fns pre post fin b b2"
  shows "\<exists>bs2. mapR (clean_block instrument gw) bs = Inr bs2 \<and> list_all2 (logs S fns pre post fin) bs bs2"
  using assms
proof (induction bs)
  case (Cons b bs)
  then obtain b2 bs2 where "clean_block instrument gw b = Inr b2" "logs S fns pre post fin b b2"
      "mapR (clean_block instrument gw) bs = Inr bs2" "list_all2 (logs S fns pre post fin) bs bs2"
    by (metis list.set_intros(1) list.set_intros(2))
  then show ?case by simp
qed simp

end
