(* ===== verification/Options.thy ===== *)
theory Options
  imports Base_Prelude
begin

text \<open>
  Command-line options: the string functions of \<open>coregrind/m_libcbase.c\<close> that option parsing uses
  (\<open>VG_(strlen)\<close>, \<open>VG_(strcmp)\<close>, \<open>VG_(strncmp)\<close>, \<open>VG_(isspace)\<close>, \<open>VG_(strtoll10)\<close> and its
  unsigned and hexadecimal relatives), \<open>VG_(check_clom)\<close> of \<open>coregrind/m_options.c\<close>, and the
  recognisers \<open>VG_STR_CLO\<close>, \<open>VG_INT_CLO\<close> and \<open>VG_BOOL_CLO\<close> of \<open>include/pub_tool_options.h\<close>.

  A C string is the list of its characters before the terminating NUL; \<open>deref\<close> reads the first
  character, NUL at the end. The type \<open>Long\<close> is a 64-bit word: what the compiled loops do on
  overflow.

  The lemmas: comparison functions decide equality and prefixes, and \<open>strtoll10\<close> inverts decimal
  notation, so that a numeric option read from its decimal form has the value it was written with.
\<close>

section \<open>Characters and strings\<close>

definition deref :: "string \<Rightarrow> char" where
  "deref s = (case s of [] \<Rightarrow> CHR 0x00 | c # _ \<Rightarrow> c)"

definition code_of :: "char \<Rightarrow> int" where
  "code_of c = int (of_char c)"

definition isspace :: "char \<Rightarrow> bool" where
  "isspace c \<longleftrightarrow> c = CHR '' '' \<or> c = CHR 0x0A \<or> c = CHR 0x09 \<or> c = CHR 0x0C \<or> c = CHR 0x0B \<or> c = CHR 0x0D"

definition isdigit :: "char \<Rightarrow> bool" where
  "isdigit c \<longleftrightarrow> code_of c \<ge> code_of (CHR ''0'') \<and> code_of c \<le> code_of (CHR ''9'')"

definition is_dec_digit :: "char \<Rightarrow> int option" where
  "is_dec_digit c = (if isdigit c then Some (code_of c - code_of (CHR ''0'')) else None)"

definition is_hex_digit :: "char \<Rightarrow> int option" where
  "is_hex_digit c =
     (if code_of c \<ge> code_of (CHR ''0'') \<and> code_of c \<le> code_of (CHR ''9'')
      then Some (code_of c - code_of (CHR ''0''))
      else if code_of c \<ge> code_of (CHR ''A'') \<and> code_of c \<le> code_of (CHR ''F'')
      then Some (code_of c - code_of (CHR ''A'') + 10)
      else if code_of c \<ge> code_of (CHR ''a'') \<and> code_of c \<le> code_of (CHR ''f'')
      then Some (code_of c - code_of (CHR ''a'') + 10)
      else None)"

fun strlen :: "string \<Rightarrow> nat" where
  "strlen [] = 0"
| "strlen (_ # s) = Suc (strlen s)"

fun strcmp :: "string \<Rightarrow> string \<Rightarrow> int" where
  "strcmp s1 s2 =
     (if code_of (deref s1) < code_of (deref s2) then - 1
      else if code_of (deref s1) > code_of (deref s2) then 1
      else if s1 = [] \<or> s2 = [] then 0
      else strcmp (tl s1) (tl s2))"

fun strncmp :: "string \<Rightarrow> string \<Rightarrow> nat \<Rightarrow> int" where
  "strncmp s1 s2 0 = 0"
| "strncmp s1 s2 (Suc n) =
     (if code_of (deref s1) < code_of (deref s2) then - 1
      else if code_of (deref s1) > code_of (deref s2) then 1
      else if s1 = [] \<or> s2 = [] then 0
      else strncmp (tl s1) (tl s2) n)"

declare strcmp.simps [simp del]

section \<open>Numbers\<close>

fun skip_spaces :: "string \<Rightarrow> string" where
  "skip_spaces [] = []"
| "skip_spaces (c # s) = (if isspace c then skip_spaces s else c # s)"

text \<open>The digit loop: the number so far, whether a digit was read, the rest.\<close>

fun digits_loop :: "64 word \<Rightarrow> (char \<Rightarrow> int option) \<Rightarrow> 64 word \<Rightarrow> bool \<Rightarrow> string \<Rightarrow> 64 word \<times> bool \<times> string" where
  "digits_loop base dig n converted [] = (n, converted, [])"
| "digits_loop base dig n converted (c # s) =
     (case dig c of
        Some d \<Rightarrow> digits_loop base dig (base * n + of_int d) True s
      | None \<Rightarrow> (n, converted, c # s))"

definition strtoll10 :: "string \<Rightarrow> 64 word \<times> string" where
  "strtoll10 str0 =
     (let str = skip_spaces str0;
          neg = (deref str = CHR ''-'');
          str = (if deref str = CHR ''-'' then tl str
                 else if deref str = CHR ''+'' then tl str else str);
          (n, converted, str) = digits_loop 10 is_dec_digit 0 False str;
          str = (if \<not> converted then str0 else str)
      in (if neg then - n else n, str))"

definition strtoull10 :: "string \<Rightarrow> 64 word \<times> string" where
  "strtoull10 str0 =
     (let str = skip_spaces str0;
          str = (if deref str = CHR ''+'' then tl str else str);
          (n, converted, str) = digits_loop 10 is_dec_digit 0 False str;
          str = (if \<not> converted then str0 else str)
      in (n, str))"

text \<open>A leading \<open>0x\<close> is skipped if a hexadecimal digit follows it.\<close>

definition skip_0x :: "string \<Rightarrow> string" where
  "skip_0x str =
     (if deref str = CHR ''0'' \<and> (deref (drop 1 str) = CHR ''x'' \<or> deref (drop 1 str) = CHR ''X'')
         \<and> is_hex_digit (deref (drop 2 str)) \<noteq> None
      then drop 2 str else str)"

definition strtoll16 :: "string \<Rightarrow> 64 word \<times> string" where
  "strtoll16 str0 =
     (let str = skip_spaces str0;
          neg = (deref str = CHR ''-'');
          str = (if deref str = CHR ''-'' then tl str
                 else if deref str = CHR ''+'' then tl str else str);
          str = skip_0x str;
          (n, converted, str) = digits_loop 16 is_hex_digit 0 False str;
          str = (if \<not> converted then str0 else str)
      in (if neg then - n else n, str))"

section \<open>Recognisers\<close>

datatype Clo_Mode = cloE | cloP | cloD | cloH

text \<open>The value returned by \<open>VG_(check_clom)\<close>; its messages and the flag it sets for the caller
  of the tool's function are left out.\<close>

definition check_clom :: "Clo_Mode set \<Rightarrow> Clo_Mode \<Rightarrow> bool \<Rightarrow> bool" where
  "check_clom modes mode recognised \<longleftrightarrow> recognised \<and> mode \<in> modes"

definition clo_value :: "Clo_Mode \<Rightarrow> string \<Rightarrow> string \<Rightarrow> string option" where
  "clo_value mode arg option =
     (if check_clom {cloP} mode (strncmp arg (option @ ''='') (strlen option + 1) = 0)
      then Some (drop (strlen option + 1) arg) else None)"

definition VG_STR_CLO :: "Clo_Mode \<Rightarrow> string \<Rightarrow> string \<Rightarrow> string option res" where
  "VG_STR_CLO mode arg option = Inr (clo_value mode arg option)"

text \<open>The integer recogniser for a 64-bit unsigned variable, in which every \<open>Long\<close> compares equal
  to itself, and for a 32-bit one.\<close>

definition VG_INT_CLO_64 :: "Clo_Mode \<Rightarrow> string \<Rightarrow> string \<Rightarrow> 64 word option res" where
  "VG_INT_CLO_64 mode arg option =
     (case clo_value mode arg option of
        None \<Rightarrow> Inr None
      | Some val \<Rightarrow>
          (let (n, s) = strtoll10 val in
           if deref s \<noteq> CHR 0x00 then Inl (BadOption arg) else Inr (Some n)))"

definition VG_INT_CLO_32 :: "Clo_Mode \<Rightarrow> string \<Rightarrow> string \<Rightarrow> 32 word option res" where
  "VG_INT_CLO_32 mode arg option =
     (case clo_value mode arg option of
        None \<Rightarrow> Inr None
      | Some val \<Rightarrow>
          (let (n, s) = strtoll10 val; var = (ucast n :: 32 word) in
           if deref s \<noteq> CHR 0x00 \<or> ucast var \<noteq> n then Inl (BadOption arg) else Inr (Some var)))"

definition VG_BOOL_CLO :: "Clo_Mode \<Rightarrow> string \<Rightarrow> string \<Rightarrow> bool option res" where
  "VG_BOOL_CLO mode arg option =
     (case clo_value mode arg option of
        None \<Rightarrow> Inr None
      | Some val \<Rightarrow>
          (if strcmp val ''yes'' = 0 then Inr (Some True)
           else if strcmp val ''no'' = 0 then Inr (Some False)
           else Inl (BadOption arg)))"

section \<open>Decimal notation\<close>

definition digit_char :: "nat \<Rightarrow> char" where
  "digit_char d = char_of (48 + d)"

fun decimal :: "nat \<Rightarrow> string" where
  "decimal n = (if n < 10 then [digit_char n] else decimal (n div 10) @ [digit_char (n mod 10)])"

declare decimal.simps [simp del]

text \<open>The buffer \<open>char str[128]\<close> that both tools fill with
  \<open>VG_(sprintf)(str, "%s_%u", t_fname, pid)\<close>: the characters and the terminating NUL have to fit.\<close>

definition trace_file_name :: "string \<Rightarrow> 32 word \<Rightarrow> string res" where
  "trace_file_name fname pid =
     (let str = fname @ ''_'' @ decimal (unat pid) in
      bindR (assertR (strlen str + 1 \<le> 128) BufOverflow) (\<lambda>_. Inr str))"

section \<open>Facts\<close>

text \<open>Strings without NUL, as every C string is.\<close>

definition nul_free :: "string \<Rightarrow> bool" where
  "nul_free s \<longleftrightarrow> CHR 0x00 \<notin> set s"

lemma code_of_inj [simp]: "code_of c = code_of d \<longleftrightarrow> c = d"
  by (simp add: code_of_def)

lemma code_of_NUL [simp]: "code_of (CHR 0x00) = 0"
  by (simp add: code_of_def)

lemma code_of_ge: "code_of c \<ge> 0"
  by (simp add: code_of_def)

lemma code_of_pos: "c \<noteq> CHR 0x00 \<Longrightarrow> code_of c > 0"
proof -
  assume "c \<noteq> CHR 0x00"
  then have "code_of c \<noteq> 0" by (metis code_of_inj code_of_NUL)
  with code_of_ge [of c] show ?thesis by linarith
qed

lemma strlen_length [simp]: "strlen s = length s"
  by (induction s) auto

lemma deref_simps [simp]: "deref [] = CHR 0x00" "deref (c # s) = c"
  by (simp_all add: deref_def)

lemma strcmp_Nil: "strcmp [] [] = 0"
  by (subst strcmp.simps) simp

lemma strcmp_Nil_Cons: "c \<noteq> CHR 0x00 \<Longrightarrow> strcmp [] (c # s) = - 1 \<and> strcmp (c # s) [] = 1"
proof
  assume c: "c \<noteq> CHR 0x00"
  show "strcmp [] (c # s) = - 1" using code_of_pos [OF c] by (subst strcmp.simps) simp
  show "strcmp (c # s) [] = 1" using code_of_pos [OF c] by (subst strcmp.simps) simp
qed

lemma strcmp_Cons: "strcmp (c # s) (d # t) =
    (if c = d then strcmp s t else if code_of c < code_of d then - 1 else 1)"
proof (cases "c = d")
  case True
  then show ?thesis by (subst strcmp.simps) simp
next
  case False
  then have "code_of c \<noteq> code_of d" by simp
  then show ?thesis using False by (subst strcmp.simps) auto
qed

lemma strcmp_eq_0: "nul_free s1 \<Longrightarrow> nul_free s2 \<Longrightarrow> strcmp s1 s2 = 0 \<longleftrightarrow> s1 = s2"
proof (induction s1 arbitrary: s2)
  case Nil
  then show ?case by (cases s2) (auto simp: strcmp_Nil strcmp_Nil_Cons nul_free_def)
next
  case (Cons c s)
  then show ?case by (cases s2) (auto simp: strcmp_Cons strcmp_Nil_Cons nul_free_def)
qed

lemma strncmp_prefix: "nul_free s1 \<Longrightarrow> nul_free s2 \<Longrightarrow> length s2 = n \<Longrightarrow>
    strncmp s1 s2 n = 0 \<longleftrightarrow> take n s1 = s2"
proof (induction n arbitrary: s1 s2)
  case (Suc n)
  then obtain d t where s2: "s2 = d # t" "length t = n" by (cases s2) auto
  show ?case
  proof (cases s1)
    case Nil
    then show ?thesis using s2 Suc.prems code_of_pos [of d] by (auto simp: nul_free_def)
  next
    case (Cons c s)
    then show ?thesis
      using s2 Suc.prems Suc.IH [of s t] code_of_inj [of c d]
      by (auto simp: nul_free_def simp del: code_of_inj)
  qed
qed simp

lemma clo_value_iff:
  assumes "nul_free arg" "nul_free option"
  shows "clo_value cloP arg option = Some val \<longleftrightarrow> arg = option @ ''='' @ val"
proof -
  have "nul_free (option @ ''='')" using assms(2) by (simp add: nul_free_def)
  from strncmp_prefix [OF assms(1) this refl]
  have "clo_value cloP arg option = Some val \<longleftrightarrow>
      take (length option + 1) arg = option @ ''='' \<and> drop (length option + 1) arg = val"
    by (auto simp: clo_value_def check_clom_def)
  also have "\<dots> \<longleftrightarrow> arg = (option @ ''='') @ val"
  proof
    assume "take (length option + 1) arg = option @ ''='' \<and> drop (length option + 1) arg = val"
    then show "arg = (option @ ''='') @ val" using append_take_drop_id [of "length option + 1" arg] by simp
  qed simp
  finally show ?thesis by simp
qed

lemma digit_char_code: "d < 10 \<Longrightarrow> code_of (digit_char d) = 48 + int d"
  by (simp add: code_of_def digit_char_def of_char_of)

lemma is_dec_digit_char: "d < 10 \<Longrightarrow> is_dec_digit (digit_char d) = Some (int d)"
  unfolding is_dec_digit_def isdigit_def digit_char_code by (simp add: code_of_def)

lemma digits_loop_append:
  assumes "digits_loop b dig n c s = (n', c', [])"
  shows "digits_loop b dig n c (s @ t) = digits_loop b dig n' c' t"
  using assms by (induction b dig n c s rule: digits_loop.induct) (auto split: option.splits)

lemma digits_loop_decimal: "digits_loop 10 is_dec_digit 0 c (decimal n) = (of_nat n, True, [])"
proof (induction n arbitrary: c rule: decimal.induct)
  case (1 n)
  show ?case
  proof (cases "n < 10")
    case True
    then show ?thesis by (simp add: decimal.simps [of n] is_dec_digit_char)
  next
    case False
    have "(10 :: 64 word) * of_nat (n div 10) + of_nat (n mod 10) = of_nat n"
      by (metis mult_div_mod_eq of_nat_add of_nat_mult of_nat_numeral)
    with False digits_loop_append [OF 1 [OF False]] show ?thesis
      by (simp add: decimal.simps [of n] is_dec_digit_char)
  qed
qed

lemma decimal_shape: "\<exists>d s. d < 10 \<and> decimal n = digit_char d # s"
proof (induction n rule: decimal.induct)
  case (1 n)
  then show ?case by (cases "n < 10") (auto simp: decimal.simps [of n])
qed

lemma digit_not_special: "d < 10 \<Longrightarrow> \<not> isspace (digit_char d) \<and> digit_char d \<noteq> CHR ''-'' \<and> digit_char d \<noteq> CHR ''+''"
proof -
  assume "d < 10"
  note digit_char_code [OF this]
  then have "code_of (digit_char d) \<ge> 48" by simp
  then show ?thesis by (auto simp: isspace_def code_of_def)
qed

lemma strtoll10_decimal: "strtoll10 (decimal n) = (of_nat n, [])"
proof -
  obtain d s where d: "d < 10" "decimal n = digit_char d # s" using decimal_shape by blast
  have "skip_spaces (decimal n) = decimal n" "deref (decimal n) = digit_char d"
    using d digit_not_special [OF d(1)] by simp_all
  with digit_not_special [OF d(1)] digits_loop_decimal [of False n] show ?thesis
    by (simp add: strtoll10_def Let_def)
qed

lemma strtoll10_negative: "strtoll10 (CHR ''-'' # decimal n) = (- of_nat n, [])"
  using digits_loop_decimal [of False n] by (simp add: strtoll10_def Let_def isspace_def)

lemma strtoll10_empty: "strtoll10 [] = (0, [])"
  by (simp add: strtoll10_def Let_def)

lemma digit_not_nul: "d < 10 \<Longrightarrow> CHR 0x00 \<noteq> digit_char d"
proof
  assume "d < 10" and eq: "CHR 0x00 = digit_char d"
  from digit_char_code [OF this(1)] show False unfolding eq [symmetric] by simp
qed

lemma nul_free_decimal: "nul_free (decimal n)"
proof (induction n rule: decimal.induct)
  case (1 n)
  then show ?case
    using digit_not_nul [of n] digit_not_nul [of "n mod 10"]
    by (cases "n < 10") (auto simp: decimal.simps [of n] nul_free_def)
qed

lemma length_decimal: "0 < k \<Longrightarrow> n < 10 ^ k \<Longrightarrow> length (decimal n) \<le> k"
proof (induction k arbitrary: n)
  case (Suc k)
  show ?case
  proof (cases "n < 10")
    case False
    with Suc.prems have "0 < k" by (cases k) auto
    moreover have "n div 10 < 10 ^ k" using Suc.prems(2) by (simp add: less_mult_imp_div_less mult.commute)
    ultimately show ?thesis using Suc.IH [of "n div 10"] False by (simp add: decimal.simps [of n])
  qed (simp add: decimal.simps [of n])
qed simp

lemma trace_file_name_fits: "length fname \<le> 116 \<Longrightarrow> trace_file_name fname pid = Inr (fname @ ''_'' @ decimal (unat pid))"
proof -
  assume "length fname \<le> 116"
  moreover have "unat pid < 10 ^ 10" using unsigned_less [of pid, THEN order.strict_trans2, of "10 ^ 10 :: nat"] by simp
  then have "length (decimal (unat pid)) \<le> 10" using length_decimal [of 10 "unat pid"] by simp
  ultimately show ?thesis by (simp add: trace_file_name_def assertR_def)
qed

lemma length_decimal_pos: "length (decimal n) \<ge> 1"
  using decimal_shape [of n] by auto

lemma trace_file_name_overflow: "length fname \<ge> 126 \<Longrightarrow> trace_file_name fname pid = Inl BufOverflow"
  using length_decimal_pos [of "unat pid"] by (simp add: trace_file_name_def assertR_def)

end
