(* ===== verification/Trace_Codec.thy ===== *)
theory Trace_Codec
  imports Base_Prelude
begin

text \<open>
  Files that are sequences of self-delimiting records, the form of the output of both tools. The
  locale \<open>codec\<close> is the contract between a writer and a reader of one record: the reader undoes the
  writer whatever follows. From it: a whole file of records reads back as the sequence of records,
  and two sequences with the same file say the same.
\<close>

section \<open>Self-delimiting records\<close>

text \<open>Reading records until the input is used up; \<open>k\<close> bounds the number of reads.\<close>

fun dec_all :: "(byte list \<Rightarrow> ('v \<times> byte list) option) \<Rightarrow> nat \<Rightarrow> byte list \<Rightarrow> 'v list option" where
  "dec_all dec 0 bs = None"
| "dec_all dec (Suc k) bs =
     (if bs = [] then Some []
      else case dec bs of
             None \<Rightarrow> None
           | Some (v, rest) \<Rightarrow> map_option ((#) v) (dec_all dec k rest))"

locale codec =
  fixes enc :: "'a \<Rightarrow> byte list" and dec :: "byte list \<Rightarrow> ('v \<times> byte list) option"
    and wf :: "'a \<Rightarrow> bool" and view :: "'a \<Rightarrow> 'v"
  assumes dec_enc: "wf x \<Longrightarrow> dec (enc x @ rest) = Some (view x, rest)"
    and enc_nonempty: "wf x \<Longrightarrow> enc x \<noteq> []"
begin

lemma dec_all_encs:
  "(\<And>x. x \<in> set xs \<Longrightarrow> wf x) \<Longrightarrow> length xs < k \<Longrightarrow>
     dec_all dec k (concat (map enc xs)) = Some (map view xs)"
proof (induction xs arbitrary: k)
  case Nil
  then show ?case by (cases k) auto
next
  case (Cons x xs)
  then obtain k' where k: "k = Suc k'" "length xs < k'" by (cases k) auto
  have "dec (enc x @ concat (map enc xs)) = Some (view x, concat (map enc xs))" "enc x \<noteq> []"
    using Cons.prems enc_nonempty [of x] by (auto intro: dec_enc)
  with k Cons show ?case by simp
qed

lemma encs_injective:
  assumes "\<And>x. x \<in> set xs \<Longrightarrow> wf x" "\<And>y. y \<in> set ys \<Longrightarrow> wf y"
    and "concat (map enc xs) = concat (map enc ys)"
  shows "map view xs = map view ys"
  using dec_all_encs [of xs "Suc (length xs + length ys)"] dec_all_encs [of ys "Suc (length xs + length ys)"]
    assms by simp

end

end
