(* ===== verification/Ct_Encode.thy ===== *)
theory Ct_Encode
  imports Ct_Record Trace_Codec
begin

text \<open>
  The trace file of cstracer: \<open>write_inst_to_file\<close> of \<open>cstracer/ct_main.c\<close>, which packs the
  instruction record into a variable-length byte string, and a decoder for that format.

  A record in the file is a 16-bit key, the instruction pointer, and one entry for each register and
  each cache line present. The key says how many entries of each of the four groups follow, in unary:
  each group has its own range of bits and every entry present sets the next bit of the range.

  The locale \<open>codec\<close> (theory \<open>Trace_Codec\<close>) is interpreted for the records of cstracer.
\<close>

unbundle bit_operations_syntax

section \<open>The writer\<close>

definition INST_IS_BRANCH_MASK :: "32 word" where "INST_IS_BRANCH_MASK = 0x2000"

definition INST_BRANCH_TAKEN_MASK :: "32 word" where "INST_BRANCH_TAKEN_MASK = 0x1000"

definition DEST_REG_MASK :: "32 word" where "DEST_REG_MASK = 0x400"

definition DEST_MEM_MASK :: "32 word" where "DEST_MEM_MASK = 0x100"

definition SOURCE_REG_MASK :: "32 word" where "SOURCE_REG_MASK = 0x10"

definition SOURCE_MEM_MASK :: "32 word" where "SOURCE_MEM_MASK = 0x1"

text \<open>The body that the four loops share: an entry that is present sets the next bit of its group in
  the key and appends its bytes to the buffer.\<close>

fun enc_slot :: "32 word \<times> 32 word \<times> byte list \<Rightarrow> bool \<times> byte list \<Rightarrow> 32 word \<times> 32 word \<times> byte list" where
  "enc_slot (encode_key, msk, buffer) (present, bytes) =
     (if present then (encode_key OR msk, push_bit 1 msk, buffer @ bytes)
      else (encode_key, msk, buffer))"

text \<open>The part of the struct that starts at \<open>destination_registers\<close>. A register is one byte there,
  and \<open>memcpy\<close> takes four from its address, so that the bytes of the members that follow come
  along.\<close>

definition reg_area :: "trace_instr_format_t \<Rightarrow> byte list" where
  "reg_area r = destination_registers r @ source_registers r
     @ concat (map (le_bytes 8) (destination_memory r))"

definition dest_reg_entries :: "trace_instr_format_t \<Rightarrow> (bool \<times> byte list) list" where
  "dest_reg_entries r =
     map (\<lambda>i. (destination_registers r ! i \<noteq> 0, take 4 (drop i (reg_area r)))) [0..<NUM_INSTR_DESTINATIONS]"

definition source_reg_entries :: "trace_instr_format_t \<Rightarrow> (bool \<times> byte list) list" where
  "source_reg_entries r =
     map (\<lambda>i. (source_registers r ! i \<noteq> 0, take 4 (drop (NUM_INSTR_DESTINATIONS + i) (reg_area r))))
       [0..<NUM_INSTR_SOURCES]"

definition dest_mem_entries :: "trace_instr_format_t \<Rightarrow> (bool \<times> byte list) list" where
  "dest_mem_entries r =
     map (\<lambda>i. (d_valid r ! i \<noteq> 0, le_bytes 8 (destination_memory r ! i) @ d_value r ! i))
       [0..<NUM_INSTR_DESTINATIONS]"

definition source_mem_entries :: "trace_instr_format_t \<Rightarrow> (bool \<times> byte list) list" where
  "source_mem_entries r =
     map (\<lambda>i. (s_valid r ! i \<noteq> 0, le_bytes 8 (source_memory r ! i) @ s_value r ! i))
       [0..<NUM_INSTR_SOURCES]"

definition encode_buffer :: "trace_instr_format_t \<Rightarrow> byte list res" where
  "encode_buffer r =
     (let key = 0;
          key = (if is_branch r \<noteq> 0 then key OR INST_IS_BRANCH_MASK else key);
          key = (if branch_taken r \<noteq> 0 then key OR INST_BRANCH_TAKEN_MASK else key);
          buf = le_bytes 8 (ip r);
          (key, _, buf) = foldl enc_slot (key, DEST_REG_MASK, buf) (dest_reg_entries r);
          (key, _, buf) = foldl enc_slot (key, DEST_MEM_MASK, buf) (dest_mem_entries r);
          (key, _, buf) = foldl enc_slot (key, SOURCE_REG_MASK, buf) (source_reg_entries r);
          (key, _, buf) = foldl enc_slot (key, SOURCE_MEM_MASK, buf) (source_mem_entries r)
      in bindR (assertR (key AND 0xffff0000 = 0) (ToolAssert ''(encode_key & 0xffff0000U) == 0'')) (\<lambda>_.
         let encode_key_write = (ucast (key AND 0xffff) :: 16 word)
         in Inr (le_bytes 2 encode_key_write @ buf)))"

definition write_inst_to_file :: "ct_state \<Rightarrow> ct_state res" where
  "write_inst_to_file s =
     (if \<not> tracing s then Inr s
      else if ip (inst s) = 0 then Inr s
      else bindR (encode_buffer (inst s)) (\<lambda>buffer.
           Inr (if tracing s \<and> fd_open s then s\<lparr>trace_out := trace_out s @ [buffer]\<rparr> else s)))"

section \<open>The reader\<close>

record trace_view =
  v_ip :: "64 word"
  v_is_branch :: bool
  v_branch_taken :: bool
  v_dest_regs :: "byte list"
  v_dest_mem :: "(64 word \<times> byte list) list"
  v_source_regs :: "byte list"
  v_source_mem :: "(64 word \<times> byte list) list"

definition unary_count :: "16 word \<Rightarrow> nat \<Rightarrow> nat \<Rightarrow> nat" where
  "unary_count key b n = length (takeWhile (bit key) [b..<b + n])"

fun dec_regs :: "nat \<Rightarrow> byte list \<Rightarrow> (byte list \<times> byte list) option" where
  "dec_regs 0 bs = Some ([], bs)"
| "dec_regs (Suc n) bs =
     (if length bs < 4 then None
      else case dec_regs n (drop 4 bs) of
             None \<Rightarrow> None
           | Some (rs, rest) \<Rightarrow> Some (hd bs # rs, rest))"

fun dec_mems :: "nat \<Rightarrow> byte list \<Rightarrow> ((64 word \<times> byte list) list \<times> byte list) option" where
  "dec_mems 0 bs = Some ([], bs)"
| "dec_mems (Suc n) bs =
     (if length bs < 72 then None
      else case dec_mems n (drop 72 bs) of
             None \<Rightarrow> None
           | Some (ms, rest) \<Rightarrow> Some ((le_word (take 8 bs), take 64 (drop 8 bs)) # ms, rest))"

definition decode_record :: "byte list \<Rightarrow> (trace_view \<times> byte list) option" where
  "decode_record bs =
     (if length bs < 10 then None else
      let key = (le_word (take 2 bs) :: 16 word) in
      case dec_regs (unary_count key 10 2) (drop 10 bs) of None \<Rightarrow> None | Some (dr, bs1) \<Rightarrow>
      case dec_mems (unary_count key 8 2) bs1 of None \<Rightarrow> None | Some (dm, bs2) \<Rightarrow>
      case dec_regs (unary_count key 4 4) bs2 of None \<Rightarrow> None | Some (sr, bs3) \<Rightarrow>
      case dec_mems (unary_count key 0 4) bs3 of None \<Rightarrow> None | Some (sm, bs4) \<Rightarrow>
      Some (\<lparr>v_ip = le_word (take 8 (drop 2 bs)), v_is_branch = bit key 13, v_branch_taken = bit key 12,
              v_dest_regs = dr, v_dest_mem = dm, v_source_regs = sr, v_source_mem = sm\<rparr>, bs4))"

text \<open>What a record says: its registers and cache lines without the free slots.\<close>

definition mem_view :: "64 word list \<Rightarrow> byte list \<Rightarrow> byte list list \<Rightarrow> (64 word \<times> byte list) list" where
  "mem_view as vs ds = map (\<lambda>i. (as ! i, ds ! i)) (filter (\<lambda>i. vs ! i \<noteq> 0) [0..<length as])"

definition view_of :: "trace_instr_format_t \<Rightarrow> trace_view" where
  "view_of r = \<lparr>v_ip = ip r, v_is_branch = is_branch r \<noteq> 0, v_branch_taken = branch_taken r \<noteq> 0,
     v_dest_regs = filter (\<lambda>x. x \<noteq> 0) (destination_registers r),
     v_dest_mem = mem_view (destination_memory r) (d_valid r) (d_value r),
     v_source_regs = filter (\<lambda>x. x \<noteq> 0) (source_registers r),
     v_source_mem = mem_view (source_memory r) (s_valid r) (s_value r)\<rparr>"

section \<open>The key\<close>

abbreviation present :: "(bool \<times> 'a) list \<Rightarrow> 'a list" where
  "present es \<equiv> map snd (filter fst es)"

definition sets_bits :: "32 word \<Rightarrow> nat \<Rightarrow> nat \<Rightarrow> 32 word" where
  "sets_bits key b c = key OR push_bit b (mask c)"

lemma bit_sets_bits: "bit (sets_bits key b c) n \<longleftrightarrow> bit key n \<or> b \<le> n \<and> n < b + c \<and> n < 32"
  unfolding sets_bits_def by (auto simp: bit_simps)

lemma sets_bits_Suc: "sets_bits (key OR push_bit b 1) (Suc b) c = sets_bits key b (Suc c)"
  by (rule bit_word_eqI) (auto simp: bit_sets_bits bit_simps)

lemma enc_slots:
  "foldl enc_slot (key, push_bit b 1, buf) es =
     (sets_bits key b (length (present es)), push_bit (b + length (present es)) 1,
      buf @ concat (present es))"
proof (induction es arbitrary: key b buf)
  case Nil
  then show ?case by (simp add: sets_bits_def)
next
  case (Cons e es)
  obtain p bs where e: "e = (p, bs)" by (cases e)
  have "push_bit 1 (push_bit b 1) = (push_bit (Suc b) 1 :: 32 word)"
    by (simp add: push_bit_push_bit)
  with Cons [of "key OR push_bit b 1" "Suc b" "buf @ bs"] Cons [of key b buf] e show ?case
    by (simp add: sets_bits_Suc del: push_bit_Suc push_bit_of_1)
qed

definition make_key :: "bool \<Rightarrow> bool \<Rightarrow> nat \<Rightarrow> nat \<Rightarrow> nat \<Rightarrow> nat \<Rightarrow> 32 word" where
  "make_key br tk dr dm sr sm =
     sets_bits (sets_bits (sets_bits (sets_bits
       (sets_bits (sets_bits 0 13 (if br then 1 else 0)) 12 (if tk then 1 else 0))
       10 dr) 8 dm) 4 sr) 0 sm"

lemma bit_make_key:
  assumes "dr \<le> 2" "dm \<le> 2" "sr \<le> 4" "sm \<le> 4"
  shows "bit (make_key br tk dr dm sr sm) n \<longleftrightarrow>
     n = 13 \<and> br \<or> n = 12 \<and> tk \<or> 10 \<le> n \<and> n < 10 + dr \<or> 8 \<le> n \<and> n < 8 + dm
     \<or> 4 \<le> n \<and> n < 4 + sr \<or> n < sm"
proof -
  have "13 \<le> n \<and> n < 13 + (if br then 1 else 0) \<and> n < 32 \<longleftrightarrow> n = 13 \<and> br"
    "12 \<le> n \<and> n < 12 + (if tk then 1 else 0) \<and> n < 32 \<longleftrightarrow> n = 12 \<and> tk" by auto
  moreover have "10 \<le> n \<and> n < 10 + dr \<and> n < 32 \<longleftrightarrow> 10 \<le> n \<and> n < 10 + dr"
    "8 \<le> n \<and> n < 8 + dm \<and> n < 32 \<longleftrightarrow> 8 \<le> n \<and> n < 8 + dm"
    "4 \<le> n \<and> n < 4 + sr \<and> n < 32 \<longleftrightarrow> 4 \<le> n \<and> n < 4 + sr"
    "0 \<le> n \<and> n < 0 + sm \<and> n < 32 \<longleftrightarrow> n < sm"
    using assms by linarith+
  ultimately show ?thesis
    unfolding make_key_def bit_sets_bits by (simp only: bit_0_eq bot_fun_def bot_bool_def) blast
qed

definition key_of :: "trace_instr_format_t \<Rightarrow> 32 word" where
  "key_of r = make_key (is_branch r \<noteq> 0) (branch_taken r \<noteq> 0)
     (length (present (dest_reg_entries r))) (length (present (dest_mem_entries r)))
     (length (present (source_reg_entries r))) (length (present (source_mem_entries r)))"

lemma length_present: "length (present es) \<le> length es"
  by simp

lemma entry_counts:
  "length (present (dest_reg_entries r)) \<le> 2" "length (present (dest_mem_entries r)) \<le> 2"
  "length (present (source_reg_entries r)) \<le> 4" "length (present (source_mem_entries r)) \<le> 4"
  using length_present [of "dest_reg_entries r"] length_present [of "dest_mem_entries r"]
    length_present [of "source_reg_entries r"] length_present [of "source_mem_entries r"]
  by (simp_all add: dest_reg_entries_def dest_mem_entries_def source_reg_entries_def
      source_mem_entries_def)

lemma bit_key_of:
  "bit (key_of r) n \<longleftrightarrow>
     n = 13 \<and> is_branch r \<noteq> 0 \<or> n = 12 \<and> branch_taken r \<noteq> 0
     \<or> 10 \<le> n \<and> n < 10 + length (present (dest_reg_entries r))
     \<or> 8 \<le> n \<and> n < 8 + length (present (dest_mem_entries r))
     \<or> 4 \<le> n \<and> n < 4 + length (present (source_reg_entries r))
     \<or> n < length (present (source_mem_entries r))"
  unfolding key_of_def by (rule bit_make_key [OF entry_counts])

lemma bit_masks:
  "bit (0xffff0000 :: 32 word) n \<longleftrightarrow> 16 \<le> n \<and> n < 32" "bit (0xffff :: 32 word) n \<longleftrightarrow> n < 16"
proof -
  have hi: "(0xffff0000 :: 32 word) = push_bit 16 (mask 16)"
    by (simp add: mask_eq_exp_minus_1 push_bit_eq_mult)
  show "bit (0xffff0000 :: 32 word) n \<longleftrightarrow> 16 \<le> n \<and> n < 32"
    unfolding hi by (auto simp: bit_simps)
  have lo: "(0xffff :: 32 word) = mask 16" by (simp add: mask_eq_exp_minus_1)
  show "bit (0xffff :: 32 word) n \<longleftrightarrow> n < 16"
    unfolding lo by (auto simp: bit_simps)
qed

lemma bit_key_bound: "bit (key_of r) n \<Longrightarrow> n < 14"
  using entry_counts [of r] unfolding bit_key_of by linarith

lemma key_fits: "key_of r AND 0xffff0000 = 0"
proof (rule bit_word_eqI)
  fix n
  show "bit (key_of r AND 0xffff0000) n = bit (0 :: 32 word) n"
    unfolding bit_and_iff bit_masks bit_0_eq by (auto dest: bit_key_bound)
qed

lemma encode_buffer_eq:
  "encode_buffer r = Inr (le_bytes 2 (ucast (key_of r) :: 16 word) @ le_bytes 8 (ip r)
     @ concat (present (dest_reg_entries r)) @ concat (present (dest_mem_entries r))
     @ concat (present (source_reg_entries r)) @ concat (present (source_mem_entries r)))"
proof -
  have m: "DEST_REG_MASK = push_bit 10 1" "DEST_MEM_MASK = push_bit 8 1"
      "SOURCE_REG_MASK = push_bit 4 1" "SOURCE_MEM_MASK = push_bit 0 1"
    by (simp_all add: DEST_REG_MASK_def DEST_MEM_MASK_def SOURCE_REG_MASK_def SOURCE_MEM_MASK_def
        push_bit_eq_mult)
  have k: "(if branch_taken r \<noteq> 0
            then (if is_branch r \<noteq> 0 then 0 OR INST_IS_BRANCH_MASK else 0) OR INST_BRANCH_TAKEN_MASK
            else (if is_branch r \<noteq> 0 then 0 OR INST_IS_BRANCH_MASK else 0))
      = sets_bits (sets_bits 0 13 (if is_branch r \<noteq> 0 then 1 else 0)) 12 (if branch_taken r \<noteq> 0 then 1 else 0)"
    by (simp add: sets_bits_def INST_IS_BRANCH_MASK_def INST_BRANCH_TAKEN_MASK_def push_bit_eq_mult)
  have u: "ucast (key_of r AND 0xffff) = (ucast (key_of r) :: 16 word)"
  proof (rule bit_word_eqI)
    fix n
    show "n < LENGTH(16) \<Longrightarrow>
        bit (ucast (key_of r AND 0xffff) :: 16 word) n = bit (ucast (key_of r) :: 16 word) n"
      unfolding bit_unsigned_iff bit_and_iff bit_masks by auto
  qed
  have key: "sets_bits (sets_bits (sets_bits (sets_bits
      (sets_bits (sets_bits 0 13 (if is_branch r \<noteq> 0 then 1 else 0)) 12 (if branch_taken r \<noteq> 0 then 1 else 0))
       10 (length (present (dest_reg_entries r)))) 8 (length (present (dest_mem_entries r))))
       4 (length (present (source_reg_entries r)))) 0 (length (present (source_mem_entries r))) = key_of r"
    by (simp add: key_of_def make_key_def)
  show ?thesis
    unfolding encode_buffer_def Let_def k m enc_slots prod.case key
    by (simp add: key_fits u)
qed

section \<open>Reading back\<close>

lemma takeWhile_upt:
  assumes "c \<le> n" "\<And>j. j < n \<Longrightarrow> P (b + j) = (j < c)"
  shows "length (takeWhile P [b..<b + n]) = c"
proof -
  have "[b..<b + n] = [b..<b + c] @ [b + c..<b + n]"
    using assms(1) upt_add_eq_append [of b "b + c" "n - c"] by simp
  moreover have "P x" if "x \<in> set [b..<b + c]" for x
    using that assms(2) [of "x - b"] assms(1) by auto
  then have "takeWhile P ([b..<b + c] @ zs) = [b..<b + c] @ takeWhile P zs" for zs
    by (rule takeWhile_append2)
  moreover have "takeWhile P [b + c..<b + n] = []"
    using assms(2) [of c] assms(1) by (cases "c = n") (auto simp: upt_conv_Cons)
  ultimately show ?thesis by simp
qed

lemma bit_key16: "n < 16 \<Longrightarrow> bit (ucast (key_of r) :: 16 word) n = bit (key_of r) n"
  by (simp add: bit_unsigned_iff)

lemma key_counts:
  "unary_count (ucast (key_of r)) 10 2 = length (present (dest_reg_entries r))"
  "unary_count (ucast (key_of r)) 8 2 = length (present (dest_mem_entries r))"
  "unary_count (ucast (key_of r)) 4 4 = length (present (source_reg_entries r))"
  "unary_count (ucast (key_of r)) 0 4 = length (present (source_mem_entries r))"
proof -
  note c = entry_counts [of r]
  show "unary_count (ucast (key_of r)) 10 2 = length (present (dest_reg_entries r))"
    unfolding unary_count_def
  proof (rule takeWhile_upt [OF c(1)])
    fix j :: nat assume "j < 2"
    then show "bit (ucast (key_of r) :: 16 word) (10 + j) = (j < length (present (dest_reg_entries r)))"
      using c by (subst bit_key16, simp) (unfold bit_key_of, linarith)
  qed
  show "unary_count (ucast (key_of r)) 8 2 = length (present (dest_mem_entries r))"
    unfolding unary_count_def
  proof (rule takeWhile_upt [OF c(2)])
    fix j :: nat assume "j < 2"
    then show "bit (ucast (key_of r) :: 16 word) (8 + j) = (j < length (present (dest_mem_entries r)))"
      using c by (subst bit_key16, simp) (unfold bit_key_of, linarith)
  qed
  show "unary_count (ucast (key_of r)) 4 4 = length (present (source_reg_entries r))"
    unfolding unary_count_def
  proof (rule takeWhile_upt [OF c(3)])
    fix j :: nat assume "j < 4"
    then show "bit (ucast (key_of r) :: 16 word) (4 + j) = (j < length (present (source_reg_entries r)))"
      using c by (subst bit_key16, simp) (unfold bit_key_of, linarith)
  qed
  show "unary_count (ucast (key_of r)) 0 4 = length (present (source_mem_entries r))"
    unfolding unary_count_def
  proof (rule takeWhile_upt [OF c(4)])
    fix j :: nat assume "j < 4"
    then show "bit (ucast (key_of r) :: 16 word) (0 + j) = (j < length (present (source_mem_entries r)))"
      using c by (subst bit_key16, simp) (unfold bit_key_of, linarith)
  qed
qed

lemma key_flags:
  "bit (ucast (key_of r) :: 16 word) 13 = (is_branch r \<noteq> 0)"
  "bit (ucast (key_of r) :: 16 word) 12 = (branch_taken r \<noteq> 0)"
  using entry_counts [of r] by (subst bit_key16, simp, unfold bit_key_of, linarith)+

lemma dec_regs_concat:
  "(\<And>e. e \<in> set es \<Longrightarrow> length e = 4) \<Longrightarrow> dec_regs (length es) (concat es @ rest) = Some (map hd es, rest)"
proof (induction es)
  case (Cons e es)
  have "length e = 4" using Cons.prems [of e] by simp
  moreover from this have "e \<noteq> []" by auto
  moreover have "dec_regs (length es) (concat es @ rest) = Some (map hd es, rest)"
    using Cons by simp
  ultimately show ?case by simp
qed simp

lemma dec_mems_concat:
  "(\<And>a d. (a, d) \<in> set ms \<Longrightarrow> length d = 64) \<Longrightarrow>
     dec_mems (length ms) (concat (map (\<lambda>(a, d). le_bytes 8 a @ d) ms) @ rest) = Some (ms, rest)"
proof (induction ms)
  case (Cons m ms)
  obtain a d where m: "m = (a, d)" "length d = 64" using Cons.prems by (cases m) auto
  moreover have "dec_mems (length ms) (concat (map (\<lambda>(a, d). le_bytes 8 a @ d) ms) @ rest) = Some (ms, rest)"
    using Cons.prems by (intro Cons.IH) auto
  ultimately show ?case by simp
qed simp

lemma length_reg_area: "wf_inst r \<Longrightarrow> length (reg_area r) = 22"
proof -
  assume "wf_inst r"
  then obtain a b where "destination_memory r = [a, b]"
    by (auto simp: wf_inst_def wf_mem_def numeral_2_eq_2 length_Suc_conv)
  with \<open>wf_inst r\<close> show ?thesis by (simp add: reg_area_def wf_inst_def)
qed

lemma present_map: "present (map (\<lambda>i. (P i, f i)) xs) = map f (filter P xs)"
  by (induction xs) auto

lemma filter_via_index: "map (\<lambda>i. xs ! i) (filter (\<lambda>i. P (xs ! i)) [0..<length xs]) = filter P xs"
proof -
  have "map ((!) xs) (filter (P \<circ> (!) xs) [0..<length xs]) = filter P (map ((!) xs) [0..<length xs])"
    by (simp add: filter_map)
  then show ?thesis by (simp add: map_nth comp_def)
qed

lemma dest_reg_bytes:
  assumes "wf_inst r"
  shows "\<And>e. e \<in> set (present (dest_reg_entries r)) \<Longrightarrow> length e = 4"
    and "map hd (present (dest_reg_entries r)) = filter (\<lambda>x. x \<noteq> 0) (destination_registers r)"
proof -
  have len: "length (reg_area r) = 22" "length (destination_registers r) = 2"
    using assms length_reg_area [OF assms] by (auto simp: wf_inst_def)
  show "length e = 4" if "e \<in> set (present (dest_reg_entries r))" for e
    using that len by (auto simp: dest_reg_entries_def)
  have "hd (take 4 (drop i (reg_area r))) = destination_registers r ! i" if "i < 2" for i
    using that len by (simp add: hd_drop_conv_nth) (simp add: reg_area_def nth_append)
  then have "map hd (present (dest_reg_entries r)) =
      map (\<lambda>i. destination_registers r ! i) (filter (\<lambda>i. destination_registers r ! i \<noteq> 0) [0..<2])"
    by (simp add: dest_reg_entries_def present_map del: upt_rec_numeral)
  then show "map hd (present (dest_reg_entries r)) = filter (\<lambda>x. x \<noteq> 0) (destination_registers r)"
    using filter_via_index [of "destination_registers r" "\<lambda>x. x \<noteq> 0"] len by simp
qed

lemma source_reg_bytes:
  assumes "wf_inst r"
  shows "\<And>e. e \<in> set (present (source_reg_entries r)) \<Longrightarrow> length e = 4"
    and "map hd (present (source_reg_entries r)) = filter (\<lambda>x. x \<noteq> 0) (source_registers r)"
proof -
  have len: "length (reg_area r) = 22" "length (source_registers r) = 4"
      "length (destination_registers r) = 2"
    using assms length_reg_area [OF assms] by (auto simp: wf_inst_def)
  show "length e = 4" if "e \<in> set (present (source_reg_entries r))" for e
    using that len by (auto simp: source_reg_entries_def)
  have "hd (take 4 (drop (2 + i) (reg_area r))) = source_registers r ! i" if "i < 4" for i
    using that len by (simp add: hd_drop_conv_nth del: add_2_eq_Suc) (simp add: reg_area_def nth_append)
  then have "map hd (present (source_reg_entries r)) =
      map (\<lambda>i. source_registers r ! i) (filter (\<lambda>i. source_registers r ! i \<noteq> 0) [0..<4])"
    by (simp add: source_reg_entries_def present_map del: upt_rec_numeral add_2_eq_Suc)
  then show "map hd (present (source_reg_entries r)) = filter (\<lambda>x. x \<noteq> 0) (source_registers r)"
    using filter_via_index [of "source_registers r" "\<lambda>x. x \<noteq> 0"] len by simp
qed

lemma mem_entries_view:
  assumes "wf_mem n as vs ds"
  shows "present (map (\<lambda>i. (vs ! i \<noteq> 0, le_bytes 8 (as ! i) @ ds ! i)) [0..<n]) =
           map (\<lambda>(a, d). le_bytes 8 a @ d) (mem_view as vs ds)"
    and "\<And>a d. (a, d) \<in> set (mem_view as vs ds) \<Longrightarrow> length d = 64"
  using assms by (auto simp: mem_view_def present_map wf_mem_def)

definition encoding :: "trace_instr_format_t \<Rightarrow> byte list" where
  "encoding r = (case encode_buffer r of Inl _ \<Rightarrow> [] | Inr bs \<Rightarrow> bs)"

lemma encode_buffer_encoding: "encode_buffer r = Inr (encoding r)"
  by (simp add: encoding_def encode_buffer_eq)

lemma mem_entries:
  assumes "wf_inst r"
  shows "present (dest_mem_entries r) =
      map (\<lambda>(a, d). le_bytes 8 a @ d) (mem_view (destination_memory r) (d_valid r) (d_value r))"
    and "present (source_mem_entries r) =
      map (\<lambda>(a, d). le_bytes 8 a @ d) (mem_view (source_memory r) (s_valid r) (s_value r))"
  using assms unfolding wf_inst_def dest_mem_entries_def source_mem_entries_def
  by (auto simp only: mem_entries_view)

lemma decode_mems:
  assumes "wf_inst r"
  shows "dec_mems (length (present (dest_mem_entries r))) (concat (present (dest_mem_entries r)) @ rest) =
      Some (mem_view (destination_memory r) (d_valid r) (d_value r), rest)"
    and "dec_mems (length (present (source_mem_entries r))) (concat (present (source_mem_entries r)) @ rest) =
      Some (mem_view (source_memory r) (s_valid r) (s_value r), rest)"
proof -
  have wf: "wf_mem NUM_INSTR_DESTINATIONS (destination_memory r) (d_valid r) (d_value r)"
      "wf_mem NUM_INSTR_SOURCES (source_memory r) (s_valid r) (s_value r)"
    using assms by (auto simp only: wf_inst_def)
  show "dec_mems (length (present (dest_mem_entries r))) (concat (present (dest_mem_entries r)) @ rest) =
      Some (mem_view (destination_memory r) (d_valid r) (d_value r), rest)"
    unfolding mem_entries [OF assms] length_map
    by (rule dec_mems_concat) (rule mem_entries_view(2) [OF wf(1)])
  show "dec_mems (length (present (source_mem_entries r))) (concat (present (source_mem_entries r)) @ rest) =
      Some (mem_view (source_memory r) (s_valid r) (s_value r), rest)"
    unfolding mem_entries [OF assms] length_map
    by (rule dec_mems_concat) (rule mem_entries_view(2) [OF wf(2)])
qed

lemma decode_encoding:
  assumes "wf_inst r"
  shows "decode_record (encoding r @ rest) = Some (view_of r, rest)"
proof -
  let ?k = "ucast (key_of r) :: 16 word"
  let ?b4 = "concat (present (source_mem_entries r)) @ rest"
  let ?b3 = "concat (present (source_reg_entries r)) @ ?b4"
  let ?b2 = "concat (present (dest_mem_entries r)) @ ?b3"
  let ?b1 = "concat (present (dest_reg_entries r)) @ ?b2"
  have bs: "encoding r @ rest = le_bytes 2 ?k @ le_bytes 8 (ip r) @ ?b1"
    by (simp add: encoding_def encode_buffer_eq)
  have take: "take 2 (encoding r @ rest) = le_bytes 2 ?k"
    "take 8 (drop 2 (encoding r @ rest)) = le_bytes 8 (ip r)"
    "drop 10 (encoding r @ rest) = ?b1" "\<not> length (encoding r @ rest) < 10"
    unfolding bs by simp_all
  note regs = dec_regs_concat [OF dest_reg_bytes(1) [OF assms]] dec_regs_concat [OF source_reg_bytes(1) [OF assms]]
  show ?thesis
    by (simp only: decode_record_def Let_def take le_word_bytes_16 le_word_bytes_64 key_counts key_flags
        if_False regs option.case prod.case decode_mems [OF assms] view_of_def
        dest_reg_bytes(2) [OF assms] source_reg_bytes(2) [OF assms])
qed

lemma length_concat_le: "(\<And>e. e \<in> set es \<Longrightarrow> length e = k) \<Longrightarrow> length (concat es) = length es * k"
  by (induction es) auto

lemma encoding_length:
  assumes "wf_inst r"
  shows "10 \<le> length (encoding r)" "length (encoding r) \<le> 466"
proof -
  have m: "length e = 72" if "e \<in> set (present (dest_mem_entries r)) \<union> set (present (source_mem_entries r))" for e
    using that assms unfolding mem_entries [OF assms] wf_inst_def
    by (auto dest!: mem_entries_view(2) [rotated])
  have "length (concat (present (dest_reg_entries r))) = length (present (dest_reg_entries r)) * 4"
    "length (concat (present (source_reg_entries r))) = length (present (source_reg_entries r)) * 4"
    "length (concat (present (dest_mem_entries r))) = length (present (dest_mem_entries r)) * 72"
    "length (concat (present (source_mem_entries r))) = length (present (source_mem_entries r)) * 72"
    using dest_reg_bytes(1) [OF assms] source_reg_bytes(1) [OF assms] m
    by (blast intro: length_concat_le)+
  then have "length (encoding r) = 10 + length (present (dest_reg_entries r)) * 4
      + length (present (dest_mem_entries r)) * 72 + length (present (source_reg_entries r)) * 4
      + length (present (source_mem_entries r)) * 72"
    unfolding encoding_def encode_buffer_eq by simp
  then show "10 \<le> length (encoding r)" "length (encoding r) \<le> 466"
    using entry_counts [of r] by linarith+
qed

interpretation trace_file: codec encoding decode_record wf_inst view_of
proof
  show "decode_record (encoding x @ rest) = Some (view_of x, rest)" if "wf_inst x" for x rest
    using that by (rule decode_encoding)
  show "encoding x \<noteq> []" if "wf_inst x" for x
    using encoding_length(1) [OF that] by auto
qed

lemma write_inst_to_file_eq:
  "write_inst_to_file s =
     Inr (if tracing s \<and> ip (inst s) \<noteq> 0 \<and> fd_open s
          then s\<lparr>trace_out := trace_out s @ [encoding (inst s)]\<rparr> else s)"
  by (simp add: write_inst_to_file_def encode_buffer_encoding)

end
