(* ===== verification/Ct_Window.thy ===== *)
theory Ct_Window
  imports Ct_Encode
begin

text \<open>
  The tracing window of cstracer (\<open>cstracer/ct_main.c\<close>): \<open>inc_inst\<close>, which counts instructions
  and turns tracing on and off, \<open>ct_fini\<close>, and runs of the helpers.

  A run is a sequence of helper calls, one \<open>ct_call\<close> each, in the order in which the instrumented
  program makes them. At every guest instruction the instrumentation (theory \<open>Ct_Instrument\<close>)
  calls \<open>inc_inst\<close>, \<open>write_inst_to_file\<close>, \<open>zero_inst\<close> and \<open>trace_instr\<close>, then one helper for
  each event of the instruction. \<open>window_run\<close> determines the trace file after any number of
  instructions.
\<close>

section \<open>Counting instructions\<close>

definition inc_inst :: "ct_state \<Rightarrow> ct_state res" where
  "inc_inst s =
     (let n = instructions s + 1; s = s\<lparr>instructions := n\<rparr> in
      bindR (assertR (heartbeat s \<noteq> 0) DivByZero) (\<lambda>_.
      let s = (if n mod heartbeat s = 0 then s\<lparr>ct_log := ct_log s @ [MsgHeartbeat n]\<rparr> else s);
          s = (if n = skip s + 1
               then s\<lparr>tracing := True, ct_log := ct_log s @ [MsgSkipped (n - 1), MsgStarting]\<rparr>
               else s)
      in if n = skip s + trace_instrs s + 1 then
           (let s = s\<lparr>tracing := False\<rparr> in
            if \<not> tracing_done s then
              (let s = s\<lparr>tracing_done := True, ct_log := ct_log s @ [MsgCompleted (n - 1)],
                         fd_open := False\<rparr>
               in Inr (if exit_after_tracing s
                       then s\<lparr>ct_log := ct_log s @ [MsgHalting], ct_exited := True\<rparr> else s))
            else Inr s)
         else Inr s))"

definition ct_fini :: "ct_state \<Rightarrow> ct_state" where
  "ct_fini s =
     (let s = s\<lparr>ct_log := ct_log s @ [MsgProgramCompleted (instructions s)]\<rparr>
      in if \<not> tracing_done s then s\<lparr>fd_open := False\<rparr> else s)"

section \<open>Helper calls\<close>

text \<open>A load or store carries the memory that the helper reads.\<close>

datatype ct_call =
    C_inc_inst
  | C_write_inst
  | C_zero_inst
  | C_trace_instr "64 word" "64 word"
  | C_trace_load "64 word \<Rightarrow> byte" "64 word" "64 word"
  | C_trace_store "64 word \<Rightarrow> byte" "64 word" "64 word"
  | C_trace_reg_read "64 word"
  | C_trace_reg_write "64 word"
  | C_trace_branch_conditional byte byte
  | C_trace_branch_direct "32 word"
  | C_trace_branch_indirect "32 word"

text \<open>Once the process has exited nothing runs any more.\<close>

fun call_helper :: "platform \<Rightarrow> ct_call \<Rightarrow> ct_state \<Rightarrow> ct_state res" where
  "call_helper p C_inc_inst s = inc_inst s"
| "call_helper p C_write_inst s = write_inst_to_file s"
| "call_helper p C_zero_inst s = Inr (zero_inst s)"
| "call_helper p (C_trace_instr a n) s = Inr (trace_instr a n s)"
| "call_helper p (C_trace_load mem a n) s = Inr (trace_load mem a n s)"
| "call_helper p (C_trace_store mem a n) s = Inr (trace_store mem a n s)"
| "call_helper p (C_trace_reg_read r) s = Inr (trace_reg_read r s)"
| "call_helper p (C_trace_reg_write r) s = Inr (trace_reg_write r s)"
| "call_helper p (C_trace_branch_conditional ci g) s = Inr (trace_branch_conditional p ci g s)"
| "call_helper p (C_trace_branch_direct jk) s = trace_branch_direct p jk s"
| "call_helper p (C_trace_branch_indirect jk) s = trace_branch_indirect p jk s"

definition run_call :: "platform \<Rightarrow> ct_state \<Rightarrow> ct_call \<Rightarrow> ct_state res" where
  "run_call p s c = (if ct_exited s then Inr s else call_helper p c s)"

definition run_calls :: "platform \<Rightarrow> ct_state \<Rightarrow> ct_call list \<Rightarrow> ct_state res" where
  "run_calls p = foldR (run_call p)"

text \<open>A guest instruction as the helpers see it: its address, its length and its events.\<close>

type_synonym guest_instr = "64 word \<times> 64 word \<times> ct_call list"

fun instr_calls :: "guest_instr \<Rightarrow> ct_call list" where
  "instr_calls (a, n, evs) = [C_inc_inst, C_write_inst, C_zero_inst, C_trace_instr a n] @ evs"

fun good_event :: "ct_call \<Rightarrow> bool" where
  "good_event C_inc_inst = False"
| "good_event C_write_inst = False"
| "good_event C_zero_inst = False"
| "good_event (C_trace_instr _ _) = False"
| "good_event (C_trace_branch_direct jk) = (jk \<in> jk_code ` {Ijk_Boring, Ijk_Call, Ijk_Ret})"
| "good_event (C_trace_branch_indirect jk) = (jk \<in> jk_code ` {Ijk_Boring, Ijk_Call, Ijk_Ret})"
| "good_event _ = True"

fun good_instr :: "guest_instr \<Rightarrow> bool" where
  "good_instr (a, n, evs) = (a \<noteq> 0 \<and> (\<forall>e\<in>set evs. good_event e))"

section \<open>Events and the record\<close>

text \<open>The effect of an event on the record alone.\<close>

definition event_inst :: "platform \<Rightarrow> trace_instr_format_t \<Rightarrow> ct_call \<Rightarrow> trace_instr_format_t" where
  "event_inst p r c =
     (case call_helper p c (ct_initial\<lparr>tracing := True, inst := r\<rparr>) of
        Inl _ \<Rightarrow> r
      | Inr s \<Rightarrow> inst s)"

text \<open>The record of an instruction.\<close>

fun record_of :: "platform \<Rightarrow> guest_instr \<Rightarrow> trace_instr_format_t" where
  "record_of p (a, n, evs) = foldl (event_inst p) (zeroed_inst\<lparr>ip := a\<rparr>) evs"

lemma event_off: "good_event c \<Longrightarrow> \<not> tracing s \<Longrightarrow> call_helper p c s = Inr s"
  by (cases c) (auto simp: trace_load_def trace_store_def trace_reg_read_def trace_reg_write_def
      trace_branch_conditional_def trace_branch_direct_def trace_branch_indirect_def)

lemma branch_on:
  assumes "jk \<in> jk_code ` {Ijk_Boring, Ijk_Call, Ijk_Ret}" "tracing s"
  shows "trace_branch_direct p jk s =
      Inr (s\<lparr>inst := event_inst p (inst s) (C_trace_branch_direct jk)\<rparr>)"
    and "trace_branch_indirect p jk s =
      Inr (s\<lparr>inst := event_inst p (inst s) (C_trace_branch_indirect jk)\<rparr>)"
proof -
  have jk: "jk = jk_code Ijk_Boring \<or> jk = jk_code Ijk_Call \<or> jk = jk_code Ijk_Ret"
    using assms(1) by auto
  show "trace_branch_direct p jk s =
      Inr (s\<lparr>inst := event_inst p (inst s) (C_trace_branch_direct jk)\<rparr>)"
    using jk assms(2) by (elim disjE; simp add: event_inst_def trace_branch_direct_def Let_def)
  show "trace_branch_indirect p jk s =
      Inr (s\<lparr>inst := event_inst p (inst s) (C_trace_branch_indirect jk)\<rparr>)"
    using jk assms(2) by (elim disjE; simp add: event_inst_def trace_branch_indirect_def Let_def)
qed

lemma event_on:
  assumes "good_event c" "tracing s"
  shows "call_helper p c s = Inr (s\<lparr>inst := event_inst p (inst s) c\<rparr>)"
proof (cases c)
  case (C_trace_load mem a n)
  then show ?thesis using assms
    by (cases "free_slot a (source_memory (inst s))") (simp_all add: event_inst_def trace_load_def)
next
  case (C_trace_store mem a n)
  then show ?thesis using assms
    by (cases "free_slot a (destination_memory (inst s))") (simp_all add: event_inst_def trace_store_def)
next
  case (C_trace_reg_read r)
  then show ?thesis using assms
    by (cases "free_slot (ucast r) (source_registers (inst s))")
       (simp_all add: event_inst_def trace_reg_read_def)
next
  case (C_trace_reg_write r)
  then show ?thesis using assms
    by (cases "index_of 0 (take NUM_INSTR_SOURCES
               (destination_registers (inst s) @ source_registers (inst s)))")
       (simp_all add: event_inst_def trace_reg_write_def del: index_of_None take_append)
next
  case (C_trace_branch_conditional ci g)
  then show ?thesis using assms
    by (simp add: event_inst_def trace_branch_conditional_def Let_def)
qed (use assms branch_on in auto)

lemma run_Nil [simp]: "run_calls p s [] = Inr s"
  by (simp add: run_calls_def)

lemma run_Cons: "run_calls p s (c # cs) = bindR (run_call p s c) (\<lambda>s'. run_calls p s' cs)"
  by (simp add: run_calls_def)

lemma run_append: "run_calls p s (cs @ ds) = bindR (run_calls p s cs) (\<lambda>s'. run_calls p s' ds)"
  by (simp add: run_calls_def foldR_append)

lemma run_exited: "ct_exited s \<Longrightarrow> run_calls p s cs = Inr s"
  by (induction cs) (auto simp: run_Cons run_call_def)

lemma events_off:
  "(\<And>e. e \<in> set evs \<Longrightarrow> good_event e) \<Longrightarrow> \<not> tracing s \<Longrightarrow> run_calls p s evs = Inr s"
  by (induction evs) (auto simp: run_Cons run_call_def event_off)

lemma events_on:
  "(\<And>e. e \<in> set evs \<Longrightarrow> good_event e) \<Longrightarrow> tracing s \<Longrightarrow> \<not> ct_exited s \<Longrightarrow>
     run_calls p s evs = Inr (s\<lparr>inst := foldl (event_inst p) (inst s) evs\<rparr>)"
  by (induction evs arbitrary: s) (auto simp: run_Cons run_call_def event_on)

lemma call_helper_wf:
  assumes "call_helper p c s = Inr s'" "wf_inst (inst s)"
  shows "wf_inst (inst s')"
proof (cases c)
  case C_inc_inst
  with assms show ?thesis by (auto simp: inc_inst_def Let_def split: if_splits elim!: bindR_InrE)
next
  case C_write_inst
  with assms show ?thesis by (auto simp: write_inst_to_file_eq split: if_splits)
next
  case (C_trace_branch_direct jk)
  with assms show ?thesis by (intro trace_branch_direct_wf [of s p jk s']) auto
next
  case (C_trace_branch_indirect jk)
  with assms show ?thesis by (intro trace_branch_indirect_wf [of s p jk s']) auto
qed (use assms in \<open>auto intro: record_wf\<close>)

lemma run_call_wf: "run_call p s c = Inr s' \<Longrightarrow> wf_inst (inst s) \<Longrightarrow> wf_inst (inst s')"
  by (auto simp: run_call_def intro: call_helper_wf split: if_splits)

lemma event_inst_wf:
  assumes "wf_inst r"
  shows "wf_inst (event_inst p r c)"
proof (cases "call_helper p c (ct_initial\<lparr>tracing := True, inst := r\<rparr>)")
  case (Inr s)
  from call_helper_wf [OF this] assms Inr show ?thesis by (simp add: event_inst_def)
qed (simp add: event_inst_def assms)

lemma record_of_wf: "wf_inst (record_of p x)"
proof -
  obtain a n evs where x: "x = (a, n, evs)" by (cases x)
  have "wf_inst r \<Longrightarrow> wf_inst (foldl (event_inst p) r evs)" for r
    by (induction evs arbitrary: r) (auto intro: event_inst_wf)
  moreover have "wf_inst (zeroed_inst\<lparr>ip := a\<rparr>)"
    using wf_zeroed_inst by (simp add: wf_inst_def)
  ultimately show ?thesis by (simp add: x)
qed

lemma event_inst_ip: "good_event c \<Longrightarrow> ip (event_inst p r c) = ip r"
  by (cases c; cases p)
     (auto simp: event_inst_def trace_load_def trace_store_def trace_reg_read_def trace_reg_write_def
       trace_branch_conditional_def trace_branch_direct_def trace_branch_indirect_def Let_def
       put_regs_def set_dest_reg_def split: option.splits if_splits)

lemma record_of_ip: "good_instr (a, n, evs) \<Longrightarrow> ip (record_of p (a, n, evs)) = a"
proof -
  have "(\<forall>e\<in>set evs. good_event e) \<Longrightarrow> ip (foldl (event_inst p) r evs) = ip r" for r
    by (induction evs arbitrary: r) (auto simp: event_inst_ip)
  then show "good_instr (a, n, evs) \<Longrightarrow> ?thesis" by simp
qed

section \<open>The window\<close>

text \<open>The four calls at an instruction and its events: what is written is the record of the previous
  instruction, and the record of this one replaces it.\<close>

lemma instr_step:
  assumes "good_instr x" "\<not> ct_exited s" "inc_inst s = Inr s1" "ct_exited s1 \<Longrightarrow> \<not> tracing s1"
  shows "run_calls p s (instr_calls x) =
    Inr (if \<not> tracing s1 then s1
         else (if ip (inst s1) \<noteq> 0 \<and> fd_open s1
               then s1\<lparr>trace_out := trace_out s1 @ [encoding (inst s1)]\<rparr> else s1)
              \<lparr>inst := record_of p x\<rparr>)"
proof -
  obtain a n evs where x: "x = (a, n, evs)" by (cases x)
  have evs: "\<And>e. e \<in> set evs \<Longrightarrow> good_event e" using assms(1) x by simp
  show ?thesis
  proof (cases "tracing s1")
    case True
    define s2 where "s2 = (if ip (inst s1) \<noteq> 0 \<and> fd_open s1
        then s1\<lparr>trace_out := trace_out s1 @ [encoding (inst s1)]\<rparr> else s1)"
    have "\<not> ct_exited s1" using True assms(4) by auto
    moreover have "write_inst_to_file s1 = Inr s2"
      using True by (simp add: write_inst_to_file_eq s2_def)
    moreover have s2: "tracing s2" "\<not> ct_exited s2" using True calculation(1) by (simp_all add: s2_def)
    moreover have "run_calls p (s2\<lparr>inst := zeroed_inst\<lparr>ip := a\<rparr>\<rparr>) evs = Inr (s2\<lparr>inst := record_of p x\<rparr>)"
      using events_on [OF evs, where s = "s2\<lparr>inst := zeroed_inst\<lparr>ip := a\<rparr>\<rparr>" and p = p] s2
      by (simp add: x)
    ultimately show ?thesis
      using assms(2,3) True
      by (simp add: x run_Cons run_call_def zero_inst_def trace_instr_def s2_def [symmetric])
  next
    case False
    have "run_calls p s1 evs = Inr s1" using events_off [OF evs False] .
    with False assms(2,3) show ?thesis
      by (simp add: x run_Cons run_call_def run_exited write_inst_to_file_def zero_inst_def trace_instr_def)
  qed
qed

text \<open>The state after \<open>n\<close> instructions, of which \<open>xs\<close> is the list, when \<open>K\<close> instructions are
  skipped and \<open>T\<close> is the number given to \<open>--trace\<close>.\<close>

definition written :: "nat \<Rightarrow> nat \<Rightarrow> 'a list \<Rightarrow> 'a list" where
  "written K T xs = take (min (length xs - 1) (K + T - 1) - K) (drop K xs)"

definition window_state :: "platform \<Rightarrow> nat \<Rightarrow> nat \<Rightarrow> guest_instr list \<Rightarrow> ct_state \<Rightarrow> bool" where
  "window_state p K T xs s \<longleftrightarrow>
     skip s = of_nat K \<and> trace_instrs s = of_nat T \<and> heartbeat s \<noteq> 0
     \<and> trace_out s = map (\<lambda>x. encoding (record_of p x)) (written K T xs)
     \<and> (ct_exited s \<longrightarrow> K + T < length xs)
     \<and> (\<not> ct_exited s \<longrightarrow> instructions s = of_nat (length xs))
     \<and> (length xs \<le> K \<longrightarrow> \<not> tracing s \<and> inst s = zeroed_inst \<and> fd_open s \<and> \<not> tracing_done s)
     \<and> (K < length xs \<and> length xs \<le> K + T \<longrightarrow>
          tracing s \<and> inst s = record_of p (last xs) \<and> fd_open s \<and> \<not> tracing_done s)
     \<and> (K + T < length xs \<longrightarrow> \<not> tracing s \<and> tracing_done s)"

lemma written_snoc:
  "written K T (xs @ [x]) =
     (if K < length xs \<and> length xs < K + T then written K T xs @ [last xs] else written K T xs)"
proof (cases "K < length xs \<and> length xs < K + T")
  case True
  then have n: "min (length xs) (K + T - 1) - K = length xs - K"
      "min (length xs - 1) (K + T - 1) - K = length (drop K xs) - 1" by auto
  have "take (length xs - K) (drop K (xs @ [x])) = butlast (drop K xs) @ [last (drop K xs)]"
    using True by (subst append_butlast_last_id) auto
  with True n show ?thesis
    by (simp add: written_def butlast_conv_take)
next
  case False
  then consider "length xs \<le> K" | "K + T \<le> length xs" by linarith
  then show ?thesis
  proof cases
    case 2
    then have "min (length xs) (K + T - 1) = K + T - 1" "min (length xs - 1) (K + T - 1) = K + T - 1"
      by auto
    with 2 show ?thesis by (auto simp: written_def)
  qed (auto simp: written_def)
qed

text \<open>\<open>inc_inst\<close> in a state of the window: which of its two tests succeed is decided by the number
  of instructions.\<close>

lemma inc_inst_window:
  assumes "window_state p K T xs s" "\<not> ct_exited s" "length xs < 2 ^ 64 - 1" "K + T < 2 ^ 64 - 1"
  shows "\<exists>s1. inc_inst s = Inr s1 \<and> skip s1 = skip s \<and> trace_instrs s1 = trace_instrs s
    \<and> heartbeat s1 = heartbeat s \<and> inst s1 = inst s \<and> trace_out s1 = trace_out s
    \<and> instructions s1 = instructions s + 1
    \<and> tracing s1 = (if length xs = K + T then False else if length xs = K then True else tracing s)
    \<and> tracing_done s1 = (length xs = K + T \<or> tracing_done s)
    \<and> fd_open s1 = (fd_open s \<and> (length xs = K + T \<longrightarrow> tracing_done s))
    \<and> (ct_exited s1 \<longrightarrow> length xs = K + T)"
proof -
  have w: "instructions s = of_nat (length xs)" "skip s = of_nat K" "trace_instrs s = of_nat T"
    and h: "heartbeat s \<noteq> 0"
    using assms(1,2) by (auto simp: window_state_def)
  have "instructions s = skip s \<longleftrightarrow> length xs = K"
      "instructions s = skip s + trace_instrs s \<longleftrightarrow> length xs = K + T"
      "trace_instrs s = 0 \<longleftrightarrow> T = 0"
    using assms(3,4) of_nat_eq_64 [of "length xs" K] of_nat_eq_64 [of "length xs" "K + T"]
      of_nat_eq_64 [of T 0]
    by (simp_all add: w)
  with h assms(2) show ?thesis
    unfolding inc_inst_def Let_def by simp
qed

lemma window_step:
  assumes "window_state p K T xs s" "good_instr x" "\<forall>y\<in>set xs. good_instr y"
    and "length xs < 2 ^ 64 - 1" "K + T < 2 ^ 64 - 1"
  shows "\<exists>s'. run_calls p s (instr_calls x) = Inr s' \<and> window_state p K T (xs @ [x]) s'"
proof (cases "ct_exited s")
  case True
  then have "window_state p K T (xs @ [x]) s"
    using assms(1) by (auto simp: window_state_def written_snoc)
  with True show ?thesis by (simp add: run_exited)
next
  case False
  obtain s1 where s1: "inc_inst s = Inr s1" "skip s1 = skip s" "trace_instrs s1 = trace_instrs s"
    "heartbeat s1 = heartbeat s" "inst s1 = inst s" "trace_out s1 = trace_out s"
    "instructions s1 = instructions s + 1"
    "tracing s1 = (if length xs = K + T then False else if length xs = K then True else tracing s)"
    "tracing_done s1 = (length xs = K + T \<or> tracing_done s)"
    "fd_open s1 = (fd_open s \<and> (length xs = K + T \<longrightarrow> tracing_done s))"
    "ct_exited s1 \<longrightarrow> length xs = K + T"
    using inc_inst_window [OF assms(1) False assms(4,5)] by blast
  have "ct_exited s1 \<Longrightarrow> \<not> tracing s1" using s1 by auto
  note step = instr_step [OF assms(2) False s1(1) this]
  have ip: "ip (record_of p (last xs)) \<noteq> 0" if "K < length xs"
  proof -
    obtain a n evs where x: "last xs = (a, n, evs)" by (cases "last xs")
    have "last xs \<in> set xs" using that by (intro last_in_set) auto
    with assms(3) x have "good_instr (a, n, evs)" by auto
    with x record_of_ip [OF this] show ?thesis by simp
  qed
  consider "length xs < K" | "length xs = K" "T = 0" | "length xs = K" "0 < T"
    | "K < length xs" "length xs < K + T" | "length xs = K + T" "0 < T" | "K + T < length xs"
    by linarith
  then show ?thesis
    using assms(1) False s1 step ip
    by cases (auto simp: window_state_def written_snoc zeroed_inst_def)
qed

lemma window_run:
  assumes "window_state p K T [] s" "\<forall>x\<in>set xs. good_instr x" "length xs < 2 ^ 64"
    and "K + T < 2 ^ 64 - 1"
  shows "\<exists>s'. run_calls p s (concat (map instr_calls xs)) = Inr s' \<and> window_state p K T xs s'"
  using assms
proof (induction xs rule: rev_induct)
  case (snoc x xs)
  then obtain s1 where s1: "run_calls p s (concat (map instr_calls xs)) = Inr s1" "window_state p K T xs s1"
    by auto
  with snoc.prems window_step [OF s1(2), of x] show ?case
    by (simp add: run_append)
qed simp

end
