(* ===== verification/Ctlite.thy ===== *)
theory Ctlite
  imports Tool_Access Guest_Layout Trace_Codec Options
begin

text \<open>
  ctlite (\<open>ctlite/cl_main.c\<close>): the state (two tables of 1024 counters for code and memory regions,
  two branch counters, the instruction count), the helpers \<open>trace_instr\<close>, \<open>trace_load\<close>,
  \<open>trace_store\<close> and \<open>trace_branch_conditional\<close>, \<open>cl_post_clo_init\<close>, \<open>cl_fini\<close>, and the
  instrumentation \<open>cl_instrument\<close>. Names carry the prefix \<open>cl_\<close> where cstracer has a function of
  the same name.

  The abstract specification \<open>spec_call\<close> keeps the list of events since the last heartbeat and
  the list of completed intervals. \<open>cl_refines\<close> says that the counters are the histogram of the
  current interval and the file is the sequence of snapshots of the completed ones; every helper
  keeps it.
\<close>

section \<open>State\<close>

definition IMAP_SIZE :: nat where "IMAP_SIZE = 1024"

definition MMAP_SIZE :: nat where "MMAP_SIZE = 1024"

record cl_state =
  cl_t_fname :: string
  MShiftSize :: "32 word"
  MMask :: "64 word"
  IShiftSize :: "32 word"
  IMask :: "64 word"
  cl_heartbeat :: "64 word"
  Imap :: "32 word list"
  Mmap :: "32 word list"
  cl_instructions :: "64 word"
  TBranches :: "32 word"
  UBranches :: "32 word"
  cl_fd_open :: bool
  cl_out :: "byte list list"
  cl_heartbeats :: "64 word list"

definition cl_initial :: cl_state where
  "cl_initial = \<lparr>cl_t_fname = ''tracefile'', MShiftSize = 22, MMask = 2 ^ 12 - 1, IShiftSize = 22,
     IMask = 2 ^ 12 - 1, cl_heartbeat = 100000000, Imap = replicate IMAP_SIZE 0,
     Mmap = replicate MMAP_SIZE 0, cl_instructions = 0, TBranches = 0, UBranches = 0,
     cl_fd_open = False, cl_out = [], cl_heartbeats = []\<rparr>"

section \<open>Start and end\<close>

text \<open>\<open>(1 << n) - 1\<close> at type \<open>int\<close>.\<close>

definition int_mask :: "32 word \<Rightarrow> 64 word res" where
  "int_mask n = bindR (assertR (unat n < 31) BadShift) (\<lambda>_. Inr (2 ^ unat n - 1))"

text \<open>The system calls are parameters: the process number, and which files can be opened.\<close>

definition cl_post_clo_init :: "32 word \<Rightarrow> (string \<Rightarrow> bool) \<Rightarrow> cl_state \<Rightarrow> cl_state res" where
  "cl_post_clo_init pid opens s =
     (let s = s\<lparr>MShiftSize := MShiftSize s - 10, IShiftSize := IShiftSize s - 10\<rparr> in
      bindR (int_mask (MShiftSize s)) (\<lambda>mm.
      bindR (int_mask (IShiftSize s)) (\<lambda>im.
      bindR (trace_file_name (cl_t_fname s) pid) (\<lambda>str.
      bindR (assertR (opens str) (ToolAssert ''fd != -1'')) (\<lambda>_.
      Inr (s\<lparr>MMask := mm, IMask := im, cl_fd_open := True\<rparr>))))))"

definition cl_fini :: "cl_state \<Rightarrow> cl_state" where
  "cl_fini s = s\<lparr>cl_fd_open := False\<rparr>"

section \<open>Helpers\<close>

definition bump :: "'a::{plus,one} list \<Rightarrow> nat \<Rightarrow> 'a list" where
  "bump xs k = xs[k := xs ! k + 1]"

text \<open>The region of an address: \<open>(addr >> shift) % size\<close>.\<close>

definition region :: "32 word \<Rightarrow> nat \<Rightarrow> 64 word \<Rightarrow> nat res" where
  "region shift n a =
     bindR (assertR (unat shift < 64) BadShift) (\<lambda>_. Inr (unat (drop_bit (unat shift) a) mod n))"

definition cl_write :: "byte list \<Rightarrow> cl_state \<Rightarrow> cl_state" where
  "cl_write bs s = (if cl_fd_open s then s\<lparr>cl_out := cl_out s @ [bs]\<rparr> else s)"

definition cl_trace_instr :: "64 word \<Rightarrow> 64 word \<Rightarrow> cl_state \<Rightarrow> cl_state res" where
  "cl_trace_instr iaddr sz s =
     (let s = s\<lparr>cl_instructions := cl_instructions s + 1\<rparr> in
      bindR (region (IShiftSize s) IMAP_SIZE iaddr) (\<lambda>k.
      let s = s\<lparr>Imap := bump (Imap s) k\<rparr> in
      bindR (assertR (cl_heartbeat s \<noteq> 0) DivByZero) (\<lambda>_.
      if cl_instructions s mod cl_heartbeat s = 0 then
        (let s = s\<lparr>cl_heartbeats := cl_heartbeats s @ [cl_instructions s]\<rparr>;
             s = cl_write (le_bytes 8 (cl_instructions s)) s;
             s = cl_write (concat (map (le_bytes 4) (Mmap s))) s;
             s = cl_write (concat (map (le_bytes 4) (Imap s))) s;
             s = cl_write (le_bytes 4 (TBranches s)) s;
             s = cl_write (le_bytes 4 (UBranches s)) s
         in Inr (s\<lparr>Mmap := replicate MMAP_SIZE 0, Imap := replicate IMAP_SIZE 0, TBranches := 0,
                   UBranches := 0\<rparr>))
      else Inr s)))"

definition cl_trace_load :: "64 word \<Rightarrow> 64 word \<Rightarrow> cl_state \<Rightarrow> cl_state res" where
  "cl_trace_load addr sz s =
     bindR (region (MShiftSize s) MMAP_SIZE addr) (\<lambda>k. Inr (s\<lparr>Mmap := bump (Mmap s) k\<rparr>))"

definition cl_trace_store :: "64 word \<Rightarrow> 64 word \<Rightarrow> cl_state \<Rightarrow> cl_state res" where
  "cl_trace_store addr sz s =
     bindR (region (MShiftSize s) MMAP_SIZE addr) (\<lambda>k. Inr (s\<lparr>Mmap := bump (Mmap s) k\<rparr>))"

definition cl_trace_branch_conditional :: "byte \<Rightarrow> byte \<Rightarrow> cl_state \<Rightarrow> cl_state" where
  "cl_trace_branch_conditional ci guard s =
     (if guard \<noteq> 0 then
        (if ci \<noteq> 0 then s\<lparr>UBranches := UBranches s + 1\<rparr> else s\<lparr>TBranches := TBranches s + 1\<rparr>)
      else
        (if ci \<noteq> 0 then s\<lparr>TBranches := TBranches s + 1\<rparr> else s\<lparr>UBranches := UBranches s + 1\<rparr>))"

datatype cl_call =
    L_trace_instr "64 word" "64 word"
  | L_trace_load "64 word" "64 word"
  | L_trace_store "64 word" "64 word"
  | L_trace_branch_conditional byte byte

fun cl_run_call :: "cl_state \<Rightarrow> cl_call \<Rightarrow> cl_state res" where
  "cl_run_call s (L_trace_instr a n) = cl_trace_instr a n s"
| "cl_run_call s (L_trace_load a n) = cl_trace_load a n s"
| "cl_run_call s (L_trace_store a n) = cl_trace_store a n s"
| "cl_run_call s (L_trace_branch_conditional ci g) = Inr (cl_trace_branch_conditional ci g s)"

section \<open>Specification\<close>

text \<open>The configuration of a run, the regions and branch outcomes of a list of events, and the
  histogram of a list of regions.\<close>

type_synonym cl_conf = "nat \<times> nat \<times> nat"

fun instr_regions :: "nat \<Rightarrow> cl_call list \<Rightarrow> nat list" where
  "instr_regions sh [] = []"
| "instr_regions sh (L_trace_instr a _ # cs) =
     unat (drop_bit sh a) mod IMAP_SIZE # instr_regions sh cs"
| "instr_regions sh (_ # cs) = instr_regions sh cs"

fun data_regions :: "nat \<Rightarrow> cl_call list \<Rightarrow> nat list" where
  "data_regions sh [] = []"
| "data_regions sh (L_trace_load a _ # cs) =
     unat (drop_bit sh a) mod MMAP_SIZE # data_regions sh cs"
| "data_regions sh (L_trace_store a _ # cs) =
     unat (drop_bit sh a) mod MMAP_SIZE # data_regions sh cs"
| "data_regions sh (_ # cs) = data_regions sh cs"

text \<open>A conditional branch is taken when its guard holds, unless the condition was inverted.\<close>

fun branches :: "bool \<Rightarrow> cl_call list \<Rightarrow> nat" where
  "branches tk [] = 0"
| "branches tk (L_trace_branch_conditional ci g # cs) =
     (if ((g \<noteq> 0) \<noteq> (ci \<noteq> 0)) = tk then 1 else 0) + branches tk cs"
| "branches tk (_ # cs) = branches tk cs"

definition histogram :: "nat list \<Rightarrow> 32 word list" where
  "histogram ks = map (\<lambda>j. of_nat (count_list ks j)) [0..<1024]"

record cl_spec =
  total :: nat
  current :: "cl_call list"
  intervals :: "(nat \<times> cl_call list) list"

definition spec_call :: "nat \<Rightarrow> cl_spec \<Rightarrow> cl_call \<Rightarrow> cl_spec" where
  "spec_call h a c =
     (case c of
        L_trace_instr _ _ \<Rightarrow>
          (if Suc (total a) mod h = 0
           then \<lparr>total = Suc (total a), current = [],
                 intervals = intervals a @ [(Suc (total a), current a @ [c])]\<rparr>
           else a\<lparr>total := Suc (total a), current := current a @ [c]\<rparr>)
      | _ \<Rightarrow> a\<lparr>current := current a @ [c]\<rparr>)"

text \<open>The bytes of a snapshot: the count, the two histograms, the two branch counts.\<close>

definition snapshot :: "nat \<Rightarrow> nat \<Rightarrow> nat \<times> cl_call list \<Rightarrow> byte list list" where
  "snapshot msh ish = (\<lambda>(n, cs).
     [le_bytes 8 (of_nat n :: 64 word),
      concat (map (le_bytes 4) (histogram (data_regions msh cs))),
      concat (map (le_bytes 4) (histogram (instr_regions ish cs))),
      le_bytes 4 (of_nat (branches True cs) :: 32 word),
      le_bytes 4 (of_nat (branches False cs) :: 32 word)])"

definition cl_refines :: "nat \<Rightarrow> nat \<Rightarrow> nat \<Rightarrow> cl_state \<Rightarrow> cl_spec \<Rightarrow> bool" where
  "cl_refines h msh ish s a \<longleftrightarrow>
     cl_heartbeat s = of_nat h \<and> unat (MShiftSize s) = msh \<and> unat (IShiftSize s) = ish
     \<and> cl_instructions s = of_nat (total a)
     \<and> Mmap s = histogram (data_regions msh (current a))
     \<and> Imap s = histogram (instr_regions ish (current a))
     \<and> TBranches s = of_nat (branches True (current a))
     \<and> UBranches s = of_nat (branches False (current a))
     \<and> cl_fd_open s \<and> cl_out s = concat (map (snapshot msh ish) (intervals a))"

section \<open>Refinement\<close>

lemma instr_regions_append: "instr_regions sh (cs @ ds) = instr_regions sh cs @ instr_regions sh ds"
  by (induction sh cs rule: instr_regions.induct) auto

lemma data_regions_append: "data_regions sh (cs @ ds) = data_regions sh cs @ data_regions sh ds"
  by (induction sh cs rule: data_regions.induct) auto

lemma branches_append: "branches tk (cs @ ds) = branches tk cs + branches tk ds"
  by (induction tk cs rule: branches.induct) auto

lemma histogram_Nil: "histogram [] = replicate 1024 0"
  by (simp add: histogram_def map_replicate_const)

lemma histogram_snoc: "k < 1024 \<Longrightarrow> histogram (ks @ [k]) = bump (histogram ks) k"
  by (rule nth_equalityI) (auto simp: histogram_def bump_def nth_list_update)

lemmas cl_append = instr_regions_append data_regions_append branches_append

lemma unat_mod_1024 [simp]: "(n :: nat) mod 1024 < 1024"
  by simp

lemma heartbeat_test:
  assumes "n < 2 ^ 64" "h < 2 ^ 64"
  shows "(of_nat n :: 64 word) mod of_nat h = 0 \<longleftrightarrow> n mod h = 0"
proof -
  have "unat ((of_nat n :: 64 word) mod of_nat h) = n mod h"
    using assms by (simp add: unat_mod_distrib unat_of_nat)
  then show ?thesis by (metis unat_0 unat_eq_zero)
qed

lemma trace_instr_refines:
  assumes "cl_refines h msh ish s a" "ish < 64" "0 < h" "h < 2 ^ 64" "Suc (total a) < 2 ^ 64"
  shows "\<exists>s'. cl_trace_instr x n s = Inr s' \<and> cl_refines h msh ish s' (spec_call h a (L_trace_instr x n))"
proof -
  have h: "(of_nat h :: 64 word) \<noteq> 0"
    using assms(3,4) of_nat_eq_64 [of h 0] by simp
  have t: "cl_instructions s + 1 = of_nat (Suc (total a))"
    using assms(1) by (simp add: cl_refines_def)
  have test: "(of_nat (Suc (total a)) :: 64 word) mod of_nat h = 0 \<longleftrightarrow> Suc (total a) mod h = 0"
    by (rule heartbeat_test [OF assms(5,4)])
  let ?k = "unat (drop_bit ish x) mod 1024"
  have k: "region (IShiftSize s) IMAP_SIZE x = Inr ?k"
    using assms(1,2) by (simp add: region_def cl_refines_def IMAP_SIZE_def)
  have hist: "histogram (instr_regions ish (current a @ [L_trace_instr x n])) = bump (Imap s) ?k"
    using assms(1) by (simp add: cl_append histogram_snoc cl_refines_def IMAP_SIZE_def)
  show ?thesis
  proof (cases "Suc (total a) mod h = 0")
    case True
    then show ?thesis
      using assms(1) h t test k hist
      by (simp add: cl_trace_instr_def Let_def cl_refines_def spec_call_def cl_write_def snapshot_def
          histogram_Nil IMAP_SIZE_def MMAP_SIZE_def cl_append del: of_nat_Suc)
  next
    case False
    then show ?thesis
      using assms(1) h t test k hist
      by (simp add: cl_trace_instr_def Let_def cl_refines_def spec_call_def cl_append del: of_nat_Suc)
  qed
qed

lemma trace_mem_refines:
  assumes "cl_refines h msh ish s a" "msh < 64"
  shows "\<exists>s'. cl_trace_load x n s = Inr s' \<and> cl_refines h msh ish s' (spec_call h a (L_trace_load x n))"
    and "\<exists>s'. cl_trace_store x n s = Inr s' \<and> cl_refines h msh ish s' (spec_call h a (L_trace_store x n))"
proof -
  let ?k = "unat (drop_bit msh x) mod 1024"
  have k: "region (MShiftSize s) MMAP_SIZE x = Inr ?k"
    using assms by (simp add: region_def cl_refines_def MMAP_SIZE_def)
  show "\<exists>s'. cl_trace_load x n s = Inr s' \<and> cl_refines h msh ish s' (spec_call h a (L_trace_load x n))"
    "\<exists>s'. cl_trace_store x n s = Inr s' \<and> cl_refines h msh ish s' (spec_call h a (L_trace_store x n))"
    using assms(1) k
    by (simp_all add: cl_trace_load_def cl_trace_store_def cl_refines_def spec_call_def cl_append
        histogram_snoc MMAP_SIZE_def)
qed

lemma trace_branch_refines:
  "cl_refines h msh ish s a \<Longrightarrow>
     cl_refines h msh ish (cl_trace_branch_conditional ci g s) (spec_call h a (L_trace_branch_conditional ci g))"
  by (simp add: cl_refines_def spec_call_def cl_trace_branch_conditional_def cl_append)

definition instr_calls_of :: "cl_call list \<Rightarrow> nat" where
  "instr_calls_of cs = length (filter (\<lambda>c. case c of L_trace_instr _ _ \<Rightarrow> True | _ \<Rightarrow> False) cs)"

lemma spec_total: "total (foldl (spec_call h) a cs) = total a + instr_calls_of cs"
  by (induction cs arbitrary: a) (auto simp: instr_calls_of_def spec_call_def split: cl_call.splits)

lemma cl_run_refines:
  assumes "cl_refines h msh ish s a" "msh < 64" "ish < 64" "0 < h" "h < 2 ^ 64"
    and "total a + instr_calls_of cs < 2 ^ 64"
  shows "\<exists>s'. foldR cl_run_call s cs = Inr s' \<and> cl_refines h msh ish s' (foldl (spec_call h) a cs)"
  using assms(1,6)
proof (induction cs arbitrary: s a)
  case (Cons c cs)
  have "\<exists>s1. cl_run_call s c = Inr s1 \<and> cl_refines h msh ish s1 (spec_call h a c)"
  proof (cases c)
    case (L_trace_instr x n)
    then have "Suc (total a) < 2 ^ 64" using Cons.prems(2) by (simp add: instr_calls_of_def)
    with L_trace_instr trace_instr_refines [OF Cons.prems(1) assms(3-5)] show ?thesis by simp
  qed (use trace_mem_refines [OF Cons.prems(1) assms(2)] trace_branch_refines [OF Cons.prems(1)] in auto)
  then obtain s1 where s1: "cl_run_call s c = Inr s1" "cl_refines h msh ish s1 (spec_call h a c)" by blast
  have "total (spec_call h a c) + instr_calls_of cs < 2 ^ 64"
    using Cons.prems(2) spec_total [of h a "[c]"] by (auto simp: instr_calls_of_def split: if_splits)
  with Cons.IH [OF s1(2)] s1(1) show ?case by simp
qed simp

text \<open>The specification writes one snapshot for every \<open>h\<close> instructions.\<close>

lemma spec_intervals:
  assumes "0 < h" "length (intervals a) = total a div h"
  shows "length (intervals (foldl (spec_call h) a cs)) = (total a + instr_calls_of cs) div h"
proof -
  have "length (intervals (foldl (spec_call h) a cs)) = total (foldl (spec_call h) a cs) div h"
    using assms(2)
  proof (induction cs arbitrary: a)
    case (Cons c cs)
    have "length (intervals (spec_call h a c)) = total (spec_call h a c) div h"
      using Cons.prems assms(1)
      by (auto simp: spec_call_def div_Suc split: cl_call.splits)
    then show ?case using Cons.IH by simp
  qed simp
  then show ?thesis by (simp add: spec_total)
qed

section \<open>The file\<close>

record cl_view =
  w_instructions :: "64 word"
  w_Mmap :: "32 word list"
  w_Imap :: "32 word list"
  w_TBranches :: "32 word"
  w_UBranches :: "32 word"

fun dec_words :: "nat \<Rightarrow> byte list \<Rightarrow> 32 word list" where
  "dec_words 0 bs = []"
| "dec_words (Suc n) bs = le_word (take 4 bs) # dec_words n (drop 4 bs)"

definition decode_snapshot :: "byte list \<Rightarrow> (cl_view \<times> byte list) option" where
  "decode_snapshot bs =
     (if length bs < 8208 then None
      else Some (\<lparr>w_instructions = le_word (take 8 bs), w_Mmap = dec_words 1024 (drop 8 bs),
                  w_Imap = dec_words 1024 (drop 4104 bs), w_TBranches = le_word (take 4 (drop 8200 bs)),
                  w_UBranches = le_word (take 4 (drop 8204 bs))\<rparr>, drop 8208 bs))"

definition snapshot_view :: "nat \<Rightarrow> nat \<Rightarrow> nat \<times> cl_call list \<Rightarrow> cl_view" where
  "snapshot_view msh ish = (\<lambda>(n, cs).
     \<lparr>w_instructions = of_nat n, w_Mmap = histogram (data_regions msh cs),
      w_Imap = histogram (instr_regions ish cs), w_TBranches = of_nat (branches True cs),
      w_UBranches = of_nat (branches False cs)\<rparr>)"

lemma dec_words_concat:
  "dec_words (length ws) (concat (map (le_bytes 4) ws) @ rest) = ws"
  by (induction ws) auto

lemma length_words: "length (concat (map (le_bytes 4) ws)) = 4 * length (ws :: 32 word list)"
  by (induction ws) auto

lemma length_histogram [simp]: "length (histogram ks) = 1024"
  by (simp add: histogram_def)

lemma decode_snapshot_enc:
  "decode_snapshot (concat (snapshot msh ish x) @ rest) = Some (snapshot_view msh ish x, rest)"
proof -
  obtain n cs where x: "x = (n, cs)" by (cases x)
  let ?n = "le_bytes 8 (of_nat n :: 64 word)"
  let ?m = "concat (map (le_bytes 4) (histogram (data_regions msh cs)))"
  let ?i = "concat (map (le_bytes 4) (histogram (instr_regions ish cs)))"
  let ?t = "le_bytes 4 (of_nat (branches True cs) :: 32 word)"
  let ?u = "le_bytes 4 (of_nat (branches False cs) :: 32 word)"
  have bs: "concat (snapshot msh ish x) @ rest = ?n @ ?m @ ?i @ ?t @ ?u @ rest"
    by (simp add: x snapshot_def)
  have len: "length ?m = 4096" "length ?i = 4096" by (simp_all add: length_words)
  have words: "dec_words 1024 (?m @ zs) = histogram (data_regions msh cs)"
      "dec_words 1024 (?i @ zs) = histogram (instr_regions ish cs)" for zs
    using dec_words_concat [of "histogram (data_regions msh cs)" zs]
      dec_words_concat [of "histogram (instr_regions ish cs)" zs] by simp_all
  show ?thesis
    unfolding bs decode_snapshot_def
    by (simp add: len words snapshot_view_def x del: dec_words.simps)
qed

interpretation snapshot_file: codec "\<lambda>x. concat (snapshot msh ish x)" decode_snapshot "\<lambda>_. True"
    "snapshot_view msh ish" for msh ish
proof
  show "decode_snapshot (concat (snapshot msh ish x) @ rest) = Some (snapshot_view msh ish x, rest)"
    for x rest by (rule decode_snapshot_enc)
  show "concat (snapshot msh ish x) \<noteq> []" for x
  proof
    assume "concat (snapshot msh ish x) = []"
    then have "decode_snapshot [] = Some (snapshot_view msh ish x, [])"
      using decode_snapshot_enc [of msh ish x "[]"] by (simp only: append.simps)
    then show False by (simp add: decode_snapshot_def)
  qed
qed

end
