(* ===== verification/Tool_Options.thy ===== *)
theory Tool_Options
  imports Options Ct_Window Ctlite
begin

text \<open>
  The options of the two tools: \<open>ct_process_cmd_line_option\<close> and \<open>ct_post_clo_init\<close> of
  \<open>cstracer/ct_main.c\<close>, \<open>cl_process_cmd_line_option\<close> of \<open>ctlite/cl_main.c\<close> (whose
  \<open>cl_post_clo_init\<close> is in theory \<open>Ctlite\<close>). A recognised option with a bad value ends the
  process: \<open>VG_(fmsg_bad_option)\<close> exits while the command line is processed.

  The chain of recognisers is modelled once, as the function \<open>clo_else\<close> that goes on to the next
  recogniser when one does not accept the argument. The lemmas say that every numeric option read
  in decimal notation sets its own variable and nothing else, that an argument which no recogniser
  accepts is left to the caller with the state unchanged, and what the values that are
  accepted without a check lead to.
\<close>

section \<open>The chain of recognisers\<close>

text \<open>The outcome of the chain so far: the updated state, or none while nothing accepted the
  argument.\<close>

definition clo_else :: "'s option res \<Rightarrow> 'a option res \<Rightarrow> ('a \<Rightarrow> 's) \<Rightarrow> 's option res" where
  "clo_else before test assign =
     bindR before (\<lambda>r. case r of
       Some s \<Rightarrow> Inr (Some s)
     | None \<Rightarrow> bindR test (\<lambda>v. Inr (map_option assign v)))"

definition ct_process_cmd_line_option :: "Clo_Mode \<Rightarrow> string \<Rightarrow> ct_state \<Rightarrow> (bool \<times> ct_state) res" where
  "ct_process_cmd_line_option mode arg s =
     (let r = clo_else (Inr None) (VG_STR_CLO mode arg ''--trace-file'') (\<lambda>v. s\<lparr>t_fname := v\<rparr>);
          r = clo_else r (VG_INT_CLO_64 mode arg ''--skip'') (\<lambda>v. s\<lparr>skip := v\<rparr>);
          r = clo_else r (VG_INT_CLO_64 mode arg ''--trace'') (\<lambda>v. s\<lparr>trace_instrs := v\<rparr>);
          r = clo_else r (VG_INT_CLO_64 mode arg ''--heartbeat'') (\<lambda>v. s\<lparr>heartbeat := v\<rparr>);
          r = clo_else r (VG_BOOL_CLO mode arg ''--exit-after'') (\<lambda>v. s\<lparr>exit_after_tracing := v\<rparr>)
      in bindR r (\<lambda>r. case r of
           None \<Rightarrow> Inr (False, s)
         | Some s \<Rightarrow>
             bindR (assertR (deref (t_fname s) \<noteq> CHR 0x00) (ToolAssert ''t_fname[0]'')) (\<lambda>_.
             Inr (True, s))))"

definition cl_process_cmd_line_option :: "Clo_Mode \<Rightarrow> string \<Rightarrow> cl_state \<Rightarrow> (bool \<times> cl_state) res" where
  "cl_process_cmd_line_option mode arg s =
     (let r = clo_else (Inr None) (VG_STR_CLO mode arg ''--trace-file'') (\<lambda>v. s\<lparr>cl_t_fname := v\<rparr>);
          r = clo_else r (VG_INT_CLO_32 mode arg ''--mem-size'') (\<lambda>v. s\<lparr>MShiftSize := v\<rparr>);
          r = clo_else r (VG_INT_CLO_32 mode arg ''--code-size'') (\<lambda>v. s\<lparr>IShiftSize := v\<rparr>);
          r = clo_else r (VG_INT_CLO_64 mode arg ''--heartbeat'') (\<lambda>v. s\<lparr>cl_heartbeat := v\<rparr>)
      in bindR r (\<lambda>r. case r of
           None \<Rightarrow> Inr (False, s)
         | Some s \<Rightarrow>
             bindR (assertR (deref (cl_t_fname s) \<noteq> CHR 0x00) (ToolAssert ''t_fname[0]'')) (\<lambda>_.
             bindR (assertR (MShiftSize s \<ge> 10) (ToolAssert ''MShiftSize >= 10'')) (\<lambda>_.
             bindR (assertR (IShiftSize s \<ge> 10) (ToolAssert ''IShiftSize >= 10'')) (\<lambda>_.
             Inr (True, s))))))"

text \<open>The system calls are parameters: the process number, and which files can be opened.\<close>

definition ct_post_clo_init :: "32 word \<Rightarrow> (string \<Rightarrow> bool) \<Rightarrow> ct_state \<Rightarrow> ct_state res" where
  "ct_post_clo_init pid opens s =
     bindR (trace_file_name (t_fname s) pid) (\<lambda>str.
     bindR (assertR (opens str) (ToolAssert ''fd != -1'')) (\<lambda>_.
     Inr (s\<lparr>fd_open := True\<rparr>)))"

section \<open>The recognisers on an option of a given name\<close>

lemma clo_else_simps [simp]:
  "clo_else (Inr (Some s)) t f = Inr (Some s)"
  "clo_else (Inr None) (Inr None) f = Inr None"
  "clo_else (Inr None) (Inr (Some v)) f = Inr (Some (f v))"
  "clo_else (Inr None) (Inl e) f = Inl e"
  "clo_else (Inl e) t f = Inl e"
  by (simp_all add: clo_else_def)

text \<open>An option name that no \<open>=\<close> occurs in; the argument \<open>name=val\<close>.\<close>

definition clo_name :: "string \<Rightarrow> bool" where
  "clo_name opt \<longleftrightarrow> nul_free opt \<and> CHR ''='' \<notin> set opt"

lemma append_eq_sep:
  "c \<notin> set a \<Longrightarrow> c \<notin> set b \<Longrightarrow> a @ c # u = b @ c # v \<longleftrightarrow> a = b \<and> u = v"
proof (induction a arbitrary: b)
  case Nil
  then show ?case by (cases b) auto
next
  case (Cons x a)
  then show ?case by (cases b) auto
qed

lemma clo_value_named:
  assumes "clo_name opt" "clo_name name" "nul_free val"
  shows "clo_value cloP (name @ ''='' @ val) opt = (if name = opt then Some val else None)"
proof -
  have "clo_value cloP (name @ ''='' @ val) opt = Some w \<longleftrightarrow> name = opt \<and> w = val" for w
    using assms clo_value_iff [of "name @ ''='' @ val" opt w] append_eq_sep [of "CHR ''=''" name opt val w]
    by (auto simp: clo_name_def nul_free_def)
  then show ?thesis by (cases "clo_value cloP (name @ ''='' @ val) opt") auto
qed

text \<open>The value of a decimal number, and the error of any other text.\<close>

lemma VG_INT_CLO_64_named:
  assumes "clo_name opt" "clo_name name" "nul_free val"
  shows "VG_INT_CLO_64 cloP (name @ ''='' @ val) opt =
    (if name \<noteq> opt then Inr None
     else if deref (snd (strtoll10 val)) \<noteq> CHR 0x00 then Inl (BadOption (name @ ''='' @ val))
     else Inr (Some (fst (strtoll10 val))))"
  using clo_value_named [OF assms] by (auto simp: VG_INT_CLO_64_def split: prod.splits)

lemma VG_INT_CLO_32_named:
  assumes "clo_name opt" "clo_name name" "nul_free val"
  shows "VG_INT_CLO_32 cloP (name @ ''='' @ val) opt =
    (if name \<noteq> opt then Inr None
     else if deref (snd (strtoll10 val)) \<noteq> CHR 0x00 \<or> fst (strtoll10 val) \<ge> 2 ^ 32
     then Inl (BadOption (name @ ''='' @ val))
     else Inr (Some (ucast (fst (strtoll10 val)))))"
proof -
  have "ucast (ucast n :: 32 word) \<noteq> n \<longleftrightarrow> n \<ge> 2 ^ 32" for n :: "64 word"
  proof -
    have "ucast (ucast n :: 32 word) = n \<longleftrightarrow> unat n mod 2 ^ 32 = unat n"
      by (simp add: word_eq_iff_unsigned unsigned_ucast_eq take_bit_eq_mod word_unat_eq_iff unat_mod)
    also have "\<dots> \<longleftrightarrow> unat n < 2 ^ 32" by (simp add: mod_less_divisor mod_eq_self_iff_div_eq_0 div_eq_0_iff)
    finally show ?thesis by (auto simp: word_le_nat_alt)
  qed
  then show ?thesis
    using clo_value_named [OF assms] by (auto simp: VG_INT_CLO_32_def Let_def split: prod.splits)
qed

text \<open>The arguments that set the integer options, with the number in decimal notation.\<close>

definition int_option :: "string \<Rightarrow> nat \<Rightarrow> string" where
  "int_option opt n = opt @ ''='' @ decimal n"

lemma clo_names:
  "clo_name ''--trace-file''" "clo_name ''--skip''" "clo_name ''--trace''" "clo_name ''--heartbeat''"
  "clo_name ''--exit-after''" "clo_name ''--mem-size''" "clo_name ''--code-size''"
  by (simp_all add: clo_name_def nul_free_def)

text \<open>The name of the option in an argument with a value decides.\<close>

lemma ct_option_named:
  assumes "clo_name opt" "nul_free val"
  shows "ct_process_cmd_line_option cloP (opt @ ''='' @ val) s =
   (let arg = opt @ ''='' @ val; (n, rest) = strtoll10 val;
        named = (\<lambda>s. if deref (t_fname s) = CHR 0x00 then Inl (ToolAssert ''t_fname[0]'') else Inr (True, s));
        number = (\<lambda>s. if deref rest \<noteq> CHR 0x00 then Inl (BadOption arg) else named s)
    in if opt = ''--trace-file'' then named (s\<lparr>t_fname := val\<rparr>)
       else if opt = ''--skip'' then number (s\<lparr>skip := n\<rparr>)
       else if opt = ''--trace'' then number (s\<lparr>trace_instrs := n\<rparr>)
       else if opt = ''--heartbeat'' then number (s\<lparr>heartbeat := n\<rparr>)
       else if opt = ''--exit-after'' then
         (if val = ''yes'' then named (s\<lparr>exit_after_tracing := True\<rparr>)
          else if val = ''no'' then named (s\<lparr>exit_after_tracing := False\<rparr>)
          else Inl (BadOption arg))
       else Inr (False, s))"
proof -
  have "nul_free ''yes''" "nul_free ''no''" by (simp_all add: nul_free_def)
  then have b: "VG_BOOL_CLO cloP (opt @ ''='' @ val) ''--exit-after'' =
    (if opt \<noteq> ''--exit-after'' then Inr None else if val = ''yes'' then Inr (Some True)
     else if val = ''no'' then Inr (Some False) else Inl (BadOption (opt @ ''='' @ val)))"
    using assms(2) clo_value_named [OF clo_names(5) assms] by (simp add: VG_BOOL_CLO_def strcmp_eq_0)
  note v = clo_value_named [OF clo_names(1) assms]
  note i = VG_INT_CLO_64_named [OF clo_names(2) assms] VG_INT_CLO_64_named [OF clo_names(3) assms]
    VG_INT_CLO_64_named [OF clo_names(4) assms]
  show ?thesis
    unfolding ct_process_cmd_line_option_def VG_STR_CLO_def v i b Let_def
    by (simp add: case_prod_unfold split: if_splits)
qed

lemma cl_option_named:
  assumes "clo_name opt" "nul_free val"
  shows "cl_process_cmd_line_option cloP (opt @ ''='' @ val) s =
   (let arg = opt @ ''='' @ val; (n, rest) = strtoll10 val;
        checked = (\<lambda>s. if deref (cl_t_fname s) = CHR 0x00 then Inl (ToolAssert ''t_fname[0]'')
                      else if MShiftSize s < 10 then Inl (ToolAssert ''MShiftSize >= 10'')
                      else if IShiftSize s < 10 then Inl (ToolAssert ''IShiftSize >= 10'')
                      else Inr (True, s));
        number = (\<lambda>s. if deref rest \<noteq> CHR 0x00 then Inl (BadOption arg) else checked s);
        number32 = (\<lambda>s. if n \<ge> 2 ^ 32 then Inl (BadOption arg) else number s)
    in if opt = ''--trace-file'' then checked (s\<lparr>cl_t_fname := val\<rparr>)
       else if opt = ''--mem-size'' then number32 (s\<lparr>MShiftSize := ucast n\<rparr>)
       else if opt = ''--code-size'' then number32 (s\<lparr>IShiftSize := ucast n\<rparr>)
       else if opt = ''--heartbeat'' then number (s\<lparr>cl_heartbeat := n\<rparr>)
       else Inr (False, s))"
proof -
  note v = clo_value_named [OF clo_names(1) assms]
  note i = VG_INT_CLO_32_named [OF clo_names(6) assms] VG_INT_CLO_32_named [OF clo_names(7) assms]
    VG_INT_CLO_64_named [OF clo_names(4) assms]
  show ?thesis
    unfolding cl_process_cmd_line_option_def VG_STR_CLO_def v i Let_def
    by (simp add: case_prod_unfold not_le [symmetric] split: if_splits)
qed

lemma ct_int_options:
  assumes "t_fname s \<noteq> []" "nul_free (t_fname s)"
  shows "ct_process_cmd_line_option cloP (int_option ''--skip'' n) s = Inr (True, s\<lparr>skip := of_nat n\<rparr>)"
    and "ct_process_cmd_line_option cloP (int_option ''--trace'' n) s = Inr (True, s\<lparr>trace_instrs := of_nat n\<rparr>)"
    and "ct_process_cmd_line_option cloP (int_option ''--heartbeat'' n) s = Inr (True, s\<lparr>heartbeat := of_nat n\<rparr>)"
proof -
  have "deref (t_fname s) \<noteq> CHR 0x00" using assms by (cases "t_fname s") (auto simp: nul_free_def)
  then show "ct_process_cmd_line_option cloP (int_option ''--skip'' n) s = Inr (True, s\<lparr>skip := of_nat n\<rparr>)"
    "ct_process_cmd_line_option cloP (int_option ''--trace'' n) s = Inr (True, s\<lparr>trace_instrs := of_nat n\<rparr>)"
    "ct_process_cmd_line_option cloP (int_option ''--heartbeat'' n) s = Inr (True, s\<lparr>heartbeat := of_nat n\<rparr>)"
    unfolding int_option_def
    by (simp_all only: ct_option_named [OF clo_names(2) nul_free_decimal] ct_option_named [OF clo_names(3) nul_free_decimal]
        ct_option_named [OF clo_names(4) nul_free_decimal] strtoll10_decimal Let_def prod.case) simp_all
qed

text \<open>A run of cstracer with \<open>--skip=K --trace=T\<close>, up to the point at which the guest starts.\<close>

definition ct_start :: "32 word \<Rightarrow> (string \<Rightarrow> bool) \<Rightarrow> string list \<Rightarrow> ct_state res" where
  "ct_start pid opens args =
     bindR (foldR (\<lambda>s arg. bindR (ct_process_cmd_line_option cloP arg s) (\<lambda>(ok, s).
              if ok then Inr s else Inl (BadOption arg))) ct_initial args)
       (ct_post_clo_init pid opens)"

lemma ct_start_window:
  assumes "opens (''tracefile_'' @ decimal (unat pid))" "K < 2 ^ 64" "T < 2 ^ 64"
  shows "\<exists>s. ct_start pid opens [int_option ''--skip'' K, int_option ''--trace'' T] = Inr s
    \<and> window_state p K T [] s"
proof -
  have "trace_file_name ''tracefile'' pid = Inr (''tracefile_'' @ decimal (unat pid))"
    by (subst trace_file_name_fits) simp_all
  then show ?thesis
    using assms by (simp add: ct_start_def ct_int_options ct_initial_def nul_free_def ct_post_clo_init_def
        window_state_def written_def)
qed

text \<open>The same for ctlite.\<close>

lemma cl_int_options:
  assumes "cl_t_fname s \<noteq> []" "nul_free (cl_t_fname s)" "MShiftSize s \<ge> 10" "IShiftSize s \<ge> 10"
  shows "10 \<le> n \<Longrightarrow> n < 2 ^ 32 \<Longrightarrow>
      cl_process_cmd_line_option cloP (int_option ''--mem-size'' n) s = Inr (True, s\<lparr>MShiftSize := of_nat n\<rparr>)"
    and "10 \<le> n \<Longrightarrow> n < 2 ^ 32 \<Longrightarrow>
      cl_process_cmd_line_option cloP (int_option ''--code-size'' n) s = Inr (True, s\<lparr>IShiftSize := of_nat n\<rparr>)"
    and "cl_process_cmd_line_option cloP (int_option ''--heartbeat'' n) s = Inr (True, s\<lparr>cl_heartbeat := of_nat n\<rparr>)"
proof -
  note named = cl_option_named [OF clo_names(6) nul_free_decimal] cl_option_named [OF clo_names(7) nul_free_decimal]
    cl_option_named [OF clo_names(4) nul_free_decimal] strtoll10_decimal Let_def prod.case
  have f: "deref (cl_t_fname s) \<noteq> CHR 0x00" using assms by (cases "cl_t_fname s") (auto simp: nul_free_def)
  have n: "\<not> (2 ^ 32 :: 64 word) \<le> of_nat n" "ucast (of_nat n :: 64 word) = (of_nat n :: 32 word)"
      "\<not> (of_nat n :: 32 word) < 10" if "10 \<le> n" "n < 2 ^ 32"
    using that by (simp_all add: word_le_nat_alt word_less_nat_alt unat_of_nat unsigned_of_nat take_bit_nat_eq_self)
  show "10 \<le> n \<Longrightarrow> n < 2 ^ 32 \<Longrightarrow>
      cl_process_cmd_line_option cloP (int_option ''--mem-size'' n) s = Inr (True, s\<lparr>MShiftSize := of_nat n\<rparr>)"
    unfolding int_option_def by (simp only: named) (use n f assms(3,4) in \<open>simp add: not_less\<close>)
  show "10 \<le> n \<Longrightarrow> n < 2 ^ 32 \<Longrightarrow>
      cl_process_cmd_line_option cloP (int_option ''--code-size'' n) s = Inr (True, s\<lparr>IShiftSize := of_nat n\<rparr>)"
    unfolding int_option_def by (simp only: named) (use n f assms(3,4) in \<open>simp add: not_less\<close>)
  show "cl_process_cmd_line_option cloP (int_option ''--heartbeat'' n) s = Inr (True, s\<lparr>cl_heartbeat := of_nat n\<rparr>)"
    unfolding int_option_def by (simp only: named) (use f assms(3,4) in \<open>simp add: not_less\<close>)
qed

definition cl_start :: "32 word \<Rightarrow> (string \<Rightarrow> bool) \<Rightarrow> string list \<Rightarrow> cl_state res" where
  "cl_start pid opens args =
     bindR (foldR (\<lambda>s arg. bindR (cl_process_cmd_line_option cloP arg s) (\<lambda>(ok, s).
              if ok then Inr s else Inl (BadOption arg))) cl_initial args)
       (cl_post_clo_init pid opens)"

definition spec_initial :: cl_spec where
  "spec_initial = \<lparr>total = 0, current = [], intervals = []\<rparr>"

lemma cl_start_refines:
  assumes "opens (''tracefile_'' @ decimal (unat pid))" "10 \<le> m" "m \<le> 40" "10 \<le> i" "i \<le> 40"
  shows "\<exists>s. cl_start pid opens [int_option ''--mem-size'' m, int_option ''--code-size'' i,
      int_option ''--heartbeat'' h] = Inr s \<and> cl_refines h (m - 10) (i - 10) s spec_initial"
proof -
  have "trace_file_name ''tracefile'' pid = Inr (''tracefile_'' @ decimal (unat pid))"
    by (subst trace_file_name_fits) simp_all
  moreover have sub: "unat (of_nat n - 10 :: 32 word) = n - 10" if "10 \<le> n" "n \<le> 40" for n
  proof -
    have "of_nat n - 10 = (of_nat (n - 10) :: 32 word)" using that by (simp add: of_nat_diff)
    moreover have "unat (of_nat (n - 10) :: 32 word) = n - 10"
      using that by (simp only: unat_of_nat) (simp add: take_bit_nat_eq_self)
    ultimately show ?thesis by metis
  qed
  moreover have "(of_nat n :: 32 word) \<ge> 10" if "10 \<le> n" "n \<le> 40" for n
    using that by (simp add: word_le_nat_alt unat_of_nat)
  moreover have "m - 10 < 31" "i - 10 < 31" using assms by simp_all
  ultimately show ?thesis
    using assms
    by (simp add: cl_start_def cl_int_options cl_initial_def nul_free_def cl_post_clo_init_def int_mask_def
        Let_def cl_refines_def spec_initial_def histogram_Nil IMAP_SIZE_def MMAP_SIZE_def)
qed

text \<open>A heartbeat of zero is accepted.\<close>

lemma heartbeat_zero_accepted:
  assumes "val = ''0'' \<or> val = []"
  shows "\<exists>s s'. ct_process_cmd_line_option cloP (''--heartbeat='' @ val) ct_initial = Inr (True, s)
    \<and> inc_inst s = Inl DivByZero
    \<and> cl_process_cmd_line_option cloP (''--heartbeat='' @ val) cl_initial = Inr (True, s')
    \<and> cl_trace_instr 0x1000 4 s' = Inl DivByZero"
proof -
  have zero: "decimal 0 = ''0''" by code_simp
  have val: "nul_free val" "strtoll10 val = (0, [])"
    using assms strtoll10_decimal [of 0] strtoll10_empty by (auto simp: nul_free_def zero)
  have "ct_process_cmd_line_option cloP (''--heartbeat'' @ ''='' @ val) ct_initial =
      Inr (True, ct_initial\<lparr>heartbeat := 0\<rparr>)"
    by (subst ct_option_named [OF clo_names(4) val(1)]) (simp add: val(2) ct_initial_def)
  moreover have "cl_process_cmd_line_option cloP (''--heartbeat'' @ ''='' @ val) cl_initial =
      Inr (True, cl_initial\<lparr>cl_heartbeat := 0\<rparr>)"
    by (subst cl_option_named [OF clo_names(4) val(1)]) (simp add: val(2) cl_initial_def)
  moreover have "inc_inst (ct_initial\<lparr>heartbeat := 0\<rparr>) = Inl DivByZero"
    by (simp add: inc_inst_def Let_def)
  moreover have "cl_trace_instr 0x1000 4 (cl_initial\<lparr>cl_heartbeat := 0\<rparr>) = Inl DivByZero"
    by (simp add: cl_trace_instr_def Let_def region_def cl_initial_def)
  ultimately show ?thesis by simp
qed

end
