(* ===== verification/Ct_Program.thy ===== *)
theory Ct_Program
  imports Tool_Program Tool_Options
begin

text \<open>
  cstracer on a running program: from the blocks of the guest to the trace file.

  \<open>executed\<close> lists the guest instructions that a run of a block executes, each with its address,
  its length and its events: registers read and written, memory accessed, branches taken. The calls
  of the log of a run are the calls for these instructions, so that the results about the helpers
  apply to running programs.
\<close>

section \<open>Entries of the log as helper calls\<close>

text \<open>\<open>arg\<close> reads a value as an argument register, \<open>mem\<close> is the guest memory of a world. Arguments of
  narrower types are the low bits of their registers.\<close>

definition ct_decode :: "('v \<Rightarrow> 64 word) \<Rightarrow> ('g \<Rightarrow> 64 word \<Rightarrow> byte) \<Rightarrow> ('v, 'g) entry \<Rightarrow> ct_call" where
  "ct_decode arg mem = (\<lambda>(f, vs, g).
     if f = ''inc_inst'' then C_inc_inst
     else if f = ''write_inst_to_file'' then C_write_inst
     else if f = ''zero_inst'' then C_zero_inst
     else if f = ''trace_instr'' then C_trace_instr (arg (vs ! 0)) (arg (vs ! 1))
     else if f = ''trace_load'' then C_trace_load (mem g) (arg (vs ! 0)) (arg (vs ! 1))
     else if f = ''trace_store'' then C_trace_store (mem g) (arg (vs ! 0)) (arg (vs ! 1))
     else if f = ''trace_reg_read'' then C_trace_reg_read (arg (vs ! 0))
     else if f = ''trace_reg_write'' then C_trace_reg_write (arg (vs ! 0))
     else if f = ''trace_branch_conditional'' then C_trace_branch_conditional (ucast (arg (vs ! 0))) (ucast (arg (vs ! 1)))
     else if f = ''trace_branch_direct'' then C_trace_branch_direct (ucast (arg (vs ! 0)))
     else C_trace_branch_indirect (ucast (arg (vs ! 0))))"

text \<open>The state of the tool, which is an error once a helper has failed.\<close>

definition ct_tool :: "platform \<Rightarrow> ('v \<Rightarrow> 64 word) \<Rightarrow> ('g \<Rightarrow> 64 word \<Rightarrow> byte) \<Rightarrow> ct_state res \<Rightarrow> ('v, 'g) entry \<Rightarrow> ct_state res" where
  "ct_tool p arg mem t e = bindR t (\<lambda>s. run_call p s (ct_decode arg mem e))"

lemma ct_tool_fold: "foldl (ct_tool p arg mem) t es = bindR t (\<lambda>s. run_calls p s (map (ct_decode arg mem) es))"
proof (induction es arbitrary: t)
  case Nil
  show ?case by (cases t) simp_all
next
  case (Cons e es)
  show ?case
    by (simp only: foldl_Cons Cons) (simp add: ct_tool_def run_Cons bindR_assoc)
qed

section \<open>The instructions that a block executes\<close>

definition add_events :: "ct_call list \<Rightarrow> guest_instr list \<Rightarrow> guest_instr list" where
  "add_events evs is = (if is = [] then [] else butlast is @ [(case last is of (a, n, es) \<Rightarrow> (a, n, es @ evs))])"

text \<open>The events around a statement, as calls; \<open>f\<close> is \<open>ct_pre\<close> or \<open>ct_post\<close>.\<close>

definition events_at :: "(('v, 'g) entry \<Rightarrow> ct_call) \<Rightarrow> ('v, 'g) ir_sem \<Rightarrow> (imark \<Rightarrow> IRStmt \<Rightarrow> icall list) \<Rightarrow>
    imark option \<Rightarrow> 'v temps \<times> 'g \<Rightarrow> IRStmt \<Rightarrow> ct_call list" where
  "events_at dec S f i s st = map dec (made S s (calls_at f i st))"

fun executed :: "(('v, 'g) entry \<Rightarrow> ct_call) \<Rightarrow> ('v, 'g) ir_sem \<Rightarrow> platform \<Rightarrow> IRTypeEnv \<Rightarrow> imark option \<Rightarrow>
    guest_instr list \<Rightarrow> 'v temps \<times> 'g \<Rightarrow> IRStmt option list \<Rightarrow> guest_instr list \<times> ('v temps \<times> 'g) option" where
  "executed dec S p E i is s [] = (is, Some s)"
| "executed dec S p E i is s (None # xs) = executed dec S p E i is s xs"
| "executed dec S p E i is s (Some st # xs) =
     (let is = (case st of
                  Ist_IMark a l d \<Rightarrow> is @ [(a, ucast l, [])]
                | _ \<Rightarrow> add_events (events_at dec S (ct_pre p E) i s st) is)
      in case exec_stmt S s (Some st) of
           Inl _ \<Rightarrow> (is, None)
         | Inr s \<Rightarrow> executed dec S p E (mark_of i st) (add_events (events_at dec S (ct_post p E) i s st) is) s xs)"

definition executed_block :: "(('v, 'g) entry \<Rightarrow> ct_call) \<Rightarrow> ('v, 'g) ir_sem \<Rightarrow> platform \<Rightarrow> 'v temps \<Rightarrow> 'g \<Rightarrow> IRSB \<Rightarrow> guest_instr list" where
  "executed_block dec S p r g b =
     (case executed dec S p (tyenv b) None [] (r, g) (stmts b) of
        (is, None) \<Rightarrow> is
      | (is, Some s) \<Rightarrow> add_events (map dec (made S s (ct_fin b))) is)"

fun executed_program :: "(('v, 'g) entry \<Rightarrow> ct_call) \<Rightarrow> ('v, 'g) ir_sem \<Rightarrow> platform \<Rightarrow> 'v temps \<Rightarrow> 'g \<Rightarrow> IRSB list \<Rightarrow> guest_instr list" where
  "executed_program dec S p r g [] = []"
| "executed_program dec S p r g (b # bs) =
     executed_block dec S p r g b @ executed_program dec S p r (run_block S r g b) bs"

section \<open>The log is the calls for these instructions\<close>

definition arg_const :: "('v, 'g) ir_sem \<Rightarrow> ('v \<Rightarrow> 64 word) \<Rightarrow> bool" where
  "arg_const S arg \<longleftrightarrow> (\<forall>w. arg (sem_const S (Ico_U64 w)) = w)"

lemma add_events_calls:
  "is \<noteq> [] \<or> evs = [] \<Longrightarrow> concat (map instr_calls (add_events evs is)) = concat (map instr_calls is) @ evs"
proof (cases "is = []")
  case False
  then obtain js j where "is = js @ [j]" by (metis append_butlast_last_id)
  then show ?thesis by (cases j) (simp add: add_events_def)
qed (simp add: add_events_def)

lemma add_events_empty [simp]: "add_events evs is = [] \<longleftrightarrow> is = []"
  by (simp add: add_events_def)

lemma made_mark:
  assumes "sem_bits S" "arg_const S arg"
  shows "map (ct_decode arg mem) (made S s (ct_pre p E i (Ist_IMark a l d))) = instr_calls (a, ucast l, [])"
  using assms by (simp add: made_def ct_decode_def always_def mkIRExpr_HWord_def sem_bits_def arg_const_def)

lemma ct_post_mark [simp]: "ct_post p E i (Ist_IMark a l d) = []"
  by (simp add: ct_post_def access_icalls_def)

lemma calls_at_simps:
  "calls_at f i (Ist_IMark a l d) = f (a, l) (Ist_IMark a l d)"
  "calls_at f None st = [] \<or> (\<exists>a l d. st = Ist_IMark a l d)"
  by (cases st; simp add: calls_at_def)+

definition log_matches :: "(('v, 'g) entry \<Rightarrow> ct_call) \<Rightarrow> ('v, 'g \<times> ('v, 'g) entry list) running \<Rightarrow>
    guest_instr list \<times> ('v temps \<times> 'g) option \<Rightarrow> bool" where
  "log_matches dec m ex =
     (case m of
        Inl (v, jk, off, g, log) \<Rightarrow> snd ex = None \<and> map dec log = concat (map instr_calls (fst ex))
      | Inr (r, g, log) \<Rightarrow> snd ex = Some (r, g) \<and> map dec log = concat (map instr_calls (fst ex)))"

lemma executed_log:
  assumes "map dec log = concat (map instr_calls is)" "i = None \<longleftrightarrow> is = []"
    and dec: "dec = ct_decode arg mem" "sem_bits S" "arg_const S arg"
  shows "log_matches dec (logged_run S (ct_pre p E) (ct_post p E) i (r, g, log) xs) (executed dec S p E i is (r, g) xs)"
  using assms(1,2)
proof (induction xs arbitrary: i r g log "is")
  case Nil
  then show ?case by (simp add: log_matches_def)
next
  case (Cons x xs)
  show ?case
  proof (cases x)
    case None
    with Cons show ?thesis by simp
  next
    case (Some st)
    define is1 where "is1 = (case st of Ist_IMark a l d \<Rightarrow> is @ [(a, ucast l, [])]
        | _ \<Rightarrow> add_events (events_at dec S (ct_pre p E) i (r, g) st) is)"
    have nc: "i = None \<Longrightarrow> \<not> (\<exists>a l d. st = Ist_IMark a l d) \<Longrightarrow> calls_at f i st = []" for f
      using calls_at_simps(2) by blast
    have is1: "map dec (log @ made S (r, g) (calls_at (ct_pre p E) i st)) = concat (map instr_calls is1)"
    proof (cases "\<exists>a l d. st = Ist_IMark a l d")
      case True
      then show ?thesis
        using Cons.prems(1) made_mark [OF dec(2,3), of mem "(r, g)" p E] by (auto simp: is1_def calls_at_simps(1) dec(1))
    next
      case False
      then have eq: "is1 = add_events (events_at dec S (ct_pre p E) i (r, g) st) is"
        unfolding is1_def by (cases st) auto
      have "is \<noteq> [] \<or> events_at dec S (ct_pre p E) i (r, g) st = []"
        using Cons.prems(2) nc False by (auto simp: events_at_def)
      with eq Cons.prems(1) show ?thesis by (simp add: add_events_calls) (simp add: events_at_def)
    qed
    show ?thesis
    proof (cases "exec_stmt S (r, g) (Some st)")
      case (Inl o1)
      with Some is1 show ?thesis by (cases o1) (simp add: stmt_logged_def is1_def [symmetric] Let_def log_matches_def)
    next
      case (Inr s1)
      then obtain r1 g1 where s1: "exec_stmt S (r, g) (Some st) = Inr (r1, g1)" by (cases s1) auto
      define is2 where "is2 = add_events (events_at dec S (ct_post p E) i (r1, g1) st) is1"
      have e1: "is1 = [] \<longleftrightarrow> mark_of i st = None" using Cons.prems(2) by (cases st) (auto simp: is1_def)
      then have "is1 \<noteq> [] \<or> events_at dec S (ct_post p E) i (r1, g1) st = []"
        by (auto simp: events_at_def calls_at_def)
      from add_events_calls [OF this] is1
      have "map dec ((log @ made S (r, g) (calls_at (ct_pre p E) i st)) @ made S (r1, g1) (calls_at (ct_post p E) i st))
          = concat (map instr_calls is2)"
        unfolding is2_def by (simp add: events_at_def)
      moreover have "mark_of i st = None \<longleftrightarrow> is2 = []" using e1 by (simp add: is2_def)
      ultimately have "log_matches dec (logged_run S (ct_pre p E) (ct_post p E) (mark_of i st)
            (r1, g1, (log @ made S (r, g) (calls_at (ct_pre p E) i st)) @ made S (r1, g1) (calls_at (ct_post p E) i st)) xs)
          (executed dec S p E (mark_of i st) is2 (r1, g1) xs)"
        by (rule Cons.IH)
      then show ?thesis using Some s1 by (simp add: stmt_logged_def is1_def [symmetric] is2_def Let_def)
    qed
  qed
qed

lemma executed_nonempty:
  "executed dec S p E i is s xs = (is', Some s') \<Longrightarrow> is \<noteq> [] \<or> (\<exists>a l d. Some (Ist_IMark a l d) \<in> set xs) \<Longrightarrow> is' \<noteq> []"
proof (induction xs arbitrary: i "is" s)
  case (Cons x xs)
  show ?case
  proof (cases x)
    case None
    with Cons show ?thesis by auto
  next
    case (Some st)
    define is1 where "is1 = (case st of Ist_IMark a l d \<Rightarrow> is @ [(a, ucast l, [])]
        | _ \<Rightarrow> add_events (events_at dec S (ct_pre p E) i s st) is)"
    obtain s1 where s1: "exec_stmt S s (Some st) = Inr s1"
        "executed dec S p E (mark_of i st) (add_events (events_at dec S (ct_post p E) i s1 st) is1) s1 xs = (is', Some s')"
      using Cons.prems(1) Some by (auto simp: is1_def [symmetric] Let_def split: sum.splits)
    have "is1 \<noteq> [] \<or> (\<exists>a l d. Some (Ist_IMark a l d) \<in> set xs)"
      using Cons.prems(2) Some by (cases st) (auto simp: is1_def)
    then show ?thesis using Cons.IH [OF s1(2)] by simp
  qed
qed simp

text \<open>The instructions have addresses other than zero and events that the helpers can handle.\<close>

definition marks_ok :: "IRSB \<Rightarrow> bool" where
  "marks_ok b \<longleftrightarrow> (\<exists>a l d. Some (Ist_IMark a l d) \<in> set (stmts b))
     \<and> (\<forall>a l d. Some (Ist_IMark a l d) \<in> set (stmts b) \<longrightarrow> a \<noteq> 0)"

lemma made_fst: "e \<in> set (made S s cs) \<Longrightarrow> fst e \<in> fst ` set cs"
  by (force simp: made_def split: if_splits)

lemma event_names:
  "(\<And>a l d. st \<noteq> Ist_IMark a l d) \<Longrightarrow> fst ` set (ct_pre p E i st) \<subseteq> {''trace_reg_write'', ''trace_branch_conditional''}"
  "fst ` set (ct_post p E i st) \<subseteq> {''trace_load'', ''trace_store'', ''trace_reg_read''}"
proof -
  show "fst ` set (ct_pre p E i st) \<subseteq> {''trace_reg_write'', ''trace_branch_conditional''}" if "\<And>a l d. st \<noteq> Ist_IMark a l d"
    using that by (cases st) (auto simp: reg_icalls_def exit_icalls_def branch_icall_def split: sum.splits)
  have acc: "fst (acc_icall a) \<in> {''trace_load'', ''trace_store''}" for a by (cases a) auto
  have "fst ` set (access_icalls E st) \<subseteq> {''trace_load'', ''trace_store''}"
  proof (cases "accesses E st")
    case (Inr as)
    then have "fst ` set (access_icalls E st) = (\<lambda>a. fst (acc_icall a)) ` set as"
      by (simp add: access_icalls_def image_image)
    also have "\<dots> \<subseteq> {''trace_load'', ''trace_store''}" using acc by (rule image_subsetI)
    finally show ?thesis .
  qed (simp add: access_icalls_def)
  moreover have "fst ` set (reg_icalls p ''trace_reg_read'' offset) \<subseteq> {''trace_reg_read''}" for offset
    by (auto simp: reg_icalls_def split: sum.splits)
  then have "fst ` set (case st of Ist_WrTmp t (Iex_Get offset ty) \<Rightarrow> reg_icalls p ''trace_reg_read'' offset | _ \<Rightarrow> [])
      \<subseteq> {''trace_reg_read''}"
  proof (cases st)
    case (Ist_WrTmp t e)
    with \<open>\<And>offset. fst ` set (reg_icalls p ''trace_reg_read'' offset) \<subseteq> _\<close> show ?thesis by (cases e) simp_all
  qed simp_all
  ultimately show "fst ` set (ct_post p E i st) \<subseteq> {''trace_load'', ''trace_store'', ''trace_reg_read''}"
    unfolding ct_post_def set_append image_Un by blast
qed

lemma decode_good:
  "fst e \<in> {''trace_load'', ''trace_store'', ''trace_reg_read'', ''trace_reg_write'', ''trace_branch_conditional''} \<Longrightarrow>
     good_event (ct_decode arg mem e)"
  by (cases e) (elim insertE; simp add: ct_decode_def)

lemma events_at_good:
  assumes "dec = ct_decode arg mem" "e \<in> set (events_at dec S f i s st)"
    and "f = ct_pre p E \<and> (\<forall>a l d. st \<noteq> Ist_IMark a l d) \<or> f = ct_post p E"
  shows "good_event e"
proof -
  obtain en where en: "e = dec en" "en \<in> set (made S s (calls_at f i st))"
    using assms(2) by (auto simp: events_at_def)
  from made_fst [OF en(2)] obtain m where "fst en \<in> fst ` set (f m st)" by (auto simp: calls_at_def split: option.splits)
  then have "fst en \<in> {''trace_load'', ''trace_store'', ''trace_reg_read'', ''trace_reg_write'', ''trace_branch_conditional''}"
    using assms(3) event_names(1) [of st p E m] event_names(2) [of p E m st] by blast
  then show ?thesis unfolding en(1) assms(1) by (rule decode_good)
qed

lemma add_events_good:
  "\<forall>x\<in>set is. good_instr x \<Longrightarrow> \<forall>e\<in>set evs. good_event e \<Longrightarrow> \<forall>x\<in>set (add_events evs is). good_instr x"
  by (cases "last is") (auto simp: add_events_def dest: in_set_butlastD dest!: last_in_set)

lemma executed_good:
  assumes "dec = ct_decode arg mem" "\<forall>x\<in>set is. good_instr x"
    and "\<forall>a l d. Some (Ist_IMark a l d) \<in> set xs \<longrightarrow> a \<noteq> 0"
  shows "\<forall>x\<in>set (fst (executed dec S p E i is s xs)). good_instr x"
  using assms(2,3)
proof (induction xs arbitrary: i "is" s)
  case (Cons x xs)
  show ?case
  proof (cases x)
    case None
    with Cons show ?thesis by auto
  next
    case (Some st)
    define is1 where "is1 = (case st of Ist_IMark a l d \<Rightarrow> is @ [(a, ucast l, [])]
        | _ \<Rightarrow> add_events (events_at dec S (ct_pre p E) i s st) is)"
    have is1: "\<forall>x\<in>set is1. good_instr x"
    proof (cases "\<exists>a l d. st = Ist_IMark a l d")
      case True
      then show ?thesis using Cons.prems Some by (auto simp: is1_def)
    next
      case False
      then have "is1 = add_events (events_at dec S (ct_pre p E) i s st) is" unfolding is1_def by (cases st) auto
      moreover have "\<forall>e\<in>set (events_at dec S (ct_pre p E) i s st). good_event e"
        using events_at_good [OF assms(1)] False by blast
      ultimately show ?thesis using add_events_good [OF Cons.prems(1)] by simp
    qed
    show ?thesis
    proof (cases "exec_stmt S s (Some st)")
      case (Inl o1)
      with Some is1 show ?thesis by (simp add: is1_def [symmetric] Let_def)
    next
      case (Inr s1)
      have "\<forall>x\<in>set (add_events (events_at dec S (ct_post p E) i s1 st) is1). good_instr x"
        using events_at_good [OF assms(1)] by (intro add_events_good [OF is1]) blast
      moreover have "\<forall>a l d. Some (Ist_IMark a l d) \<in> set xs \<longrightarrow> a \<noteq> 0" using Cons.prems(2) by auto
      ultimately show ?thesis using Cons.IH [of _ "mark_of i st" s1] Some Inr by (simp add: is1_def [symmetric] Let_def)
    qed
  qed
qed simp

section \<open>Blocks and programs\<close>

lemma ct_fin_good:
  assumes "sem_bits S" "arg_const S arg" "e \<in> set (map (ct_decode arg mem) (made S s (ct_fin b)))"
  shows "good_event e"
proof -
  have jk: "jk \<in> {Ijk_Boring, Ijk_Call, Ijk_Ret}" if "guest_branch jk" for jk
    using that by (simp add: guest_branch_def)
  let ?jk = "sb_jumpkind b"
  have u: "ucast (ucast (jk_code jk) :: 64 word) = jk_code jk" for jk :: IRJumpKind
    by (simp add: is_up ucast_up_ucast_id)
  have br: "guest_branch ?jk" using assms(3) by (cases "guest_branch ?jk") (simp_all add: ct_fin_def)
  define f where "f = (case sb_next b of Some (Iex_Const _) \<Rightarrow> ''trace_branch_direct'' | _ \<Rightarrow> ''trace_branch_indirect'')"
  have f: "f = ''trace_branch_direct'' \<or> f = ''trace_branch_indirect''"
      "ct_fin b = [(f, [mkIRExpr_HWord (ucast (jk_code ?jk))], always)]"
    using br by (simp_all add: f_def ct_fin_def split: option.split IRExpr.split)
  from assms(3) obtain vs g where e: "e = ct_decode arg mem (f, vs, g)" "vs = [sem_const S (Ico_U64 (ucast (jk_code ?jk)))]"
    unfolding f(2) by (auto simp: made_def mkIRExpr_HWord_def split: if_splits)
  have "e = C_trace_branch_direct (jk_code ?jk) \<or> e = C_trace_branch_indirect (jk_code ?jk)"
    using f(1) assms(2) unfolding e by (elim disjE) (simp_all add: ct_decode_def arg_const_def u)
  with imageI [OF jk [OF br], of jk_code] show ?thesis by (elim disjE) (simp_all only: good_event.simps)
qed

lemma executed_block_log:
  assumes "dec = ct_decode arg mem" "sem_bits S" "arg_const S arg" "marks_ok b"
  shows "map dec (block_log S (ct_pre p) (ct_post p) ct_fin r g b)
    = concat (map instr_calls (executed_block dec S p r g b))"
proof -
  have m: "log_matches dec (logged_run S (ct_pre p (tyenv b)) (ct_post p (tyenv b)) None (r, g, []) (stmts b))
      (executed dec S p (tyenv b) None [] (r, g) (stmts b))"
    by (rule executed_log [OF _ _ assms(1-3)]) simp_all
  obtain "is" o1 where ex: "executed dec S p (tyenv b) None [] (r, g) (stmts b) = (is, o1)" by (cases "executed dec S p (tyenv b) None [] (r, g) (stmts b)")
  show ?thesis
  proof (cases "logged_run S (ct_pre p (tyenv b)) (ct_post p (tyenv b)) None (r, g, []) (stmts b)")
    case (Inl out)
    with m ex show ?thesis by (cases out) (auto simp: log_matches_def block_log_def executed_block_def)
  next
    case (Inr s)
    then obtain r1 g1 log where s: "s = (r1, g1, log)" by (cases s) auto
    with m ex Inr have o1: "o1 = Some (r1, g1)" "map dec log = concat (map instr_calls is)"
      by (auto simp: log_matches_def)
    have "is \<noteq> []" using executed_nonempty [OF ex [unfolded o1]] assms(4) by (auto simp: marks_ok_def)
    with add_events_calls [of "is"] o1(2) Inr s ex [unfolded o1] show ?thesis
      by (simp add: block_log_def executed_block_def)
  qed
qed

lemma executed_block_good:
  assumes "dec = ct_decode arg mem" "sem_bits S" "arg_const S arg" "marks_ok b"
  shows "\<forall>x\<in>set (executed_block dec S p r g b). good_instr x"
proof -
  obtain "is" o1 where ex: "executed dec S p (tyenv b) None [] (r, g) (stmts b) = (is, o1)" by (cases "executed dec S p (tyenv b) None [] (r, g) (stmts b)")
  have "is": "\<forall>x\<in>set is. good_instr x"
    using executed_good [OF assms(1), of "[]" "stmts b" S p "tyenv b" None "(r, g)"] assms(4) ex
    by (auto simp: marks_ok_def)
  show ?thesis
  proof (cases o1)
    case (Some s)
    have "\<forall>x\<in>set (add_events (map dec (made S s (ct_fin b))) is). good_instr x"
      using ct_fin_good [OF assms(2,3)] unfolding assms(1) by (intro add_events_good [OF "is"]) blast
    with Some ex show ?thesis by (simp add: executed_block_def)
  qed (use ex "is" in \<open>simp add: executed_block_def\<close>)
qed

lemma executed_program_log:
  assumes "dec = ct_decode arg mem" "sem_bits S" "arg_const S arg" "\<forall>b\<in>set bs. marks_ok b"
  shows "map dec (program_log S (ct_pre p) (ct_post p) ct_fin r g bs)
    = concat (map instr_calls (executed_program dec S p r g bs))"
  using assms(4)
  by (induction bs arbitrary: g) (simp_all add: executed_block_log [OF assms(1-3)])

lemma executed_program_good:
  assumes "dec = ct_decode arg mem" "sem_bits S" "arg_const S arg" "\<forall>b\<in>set bs. marks_ok b"
  shows "\<forall>x\<in>set (executed_program dec S p r g bs). good_instr x"
  using assms(4)
proof (induction bs arbitrary: g)
  case (Cons b bs)
  then show ?case using executed_block_good [OF assms(1-3), of b p r g] by (auto simp del: good_instr.simps)
qed simp

text \<open>A program that runs under cstracer: the guest is not affected, and the helpers are called as for
  the instructions that the original blocks execute.\<close>

lemma ct_program_calls:
  assumes "\<forall>b\<in>set bs. block_ok ct_helpers (ct_req p) gw b \<and> marks_ok b" "meaning_ok S bs" "arg_const S arg"
  shows "\<exists>bs2. mapR (clean_block (ct_instrument p) gw) bs = Inr bs2
    \<and> (\<forall>t. run_blocks (with_tool ct_helpers S (on_entry (ct_tool p arg mem))) r (g, t) bs2
        = (run_blocks S r g bs, bindR t (\<lambda>s. run_calls p s (concat (map instr_calls (executed_program (ct_decode arg mem) S p r g bs))))))"
proof -
  obtain bs2 where bs2: "mapR (clean_block (ct_instrument p) gw) bs = Inr bs2"
      "list_all2 (logs S ct_helpers (ct_pre p) (ct_post p) ct_fin) bs bs2"
    using clean_blocks [where instrument = "ct_instrument p" and S = S, OF ct_clean_block [OF _ meaning_ok_one [OF assms(2)]]] assms(1) by blast
  have log: "map (ct_decode arg mem) (program_log S (ct_pre p) (ct_post p) ct_fin r g bs)
      = concat (map instr_calls (executed_program (ct_decode arg mem) S p r g bs))"
    using executed_program_log [OF refl meaning_ok_bits [OF assms(2)] assms(3)] assms(1) by blast
  have "run_blocks (with_tool ct_helpers S (on_entry (ct_tool p arg mem))) r (g, t) bs2
      = (run_blocks S r g bs, bindR t (\<lambda>s. run_calls p s (concat (map instr_calls (executed_program (ct_decode arg mem) S p r g bs)))))" for t
    unfolding run_blocks_entries [OF bs2(2)] ct_tool_fold log ..
  with bs2(1) show ?thesis by blast
qed

section \<open>The trace file\<close>

text \<open>The trace file of a run, decoded.\<close>

lemma ct_run_decodes:
  assumes "opens (''tracefile_'' @ decimal (unat pid))" "K + T < 2 ^ 64 - 1"
    and "\<forall>x\<in>set xs. good_instr x" "length xs < 2 ^ 64"
  shows "\<exists>s s'. ct_start pid opens [int_option ''--skip'' K, int_option ''--trace'' T] = Inr s
    \<and> run_calls p s (concat (map instr_calls xs)) = Inr s'
    \<and> dec_all decode_record (Suc (length xs)) (concat (trace_out s'))
        = Some (map (\<lambda>x. view_of (record_of p x)) (written K T xs))"
proof -
  obtain s where s: "ct_start pid opens [int_option ''--skip'' K, int_option ''--trace'' T] = Inr s"
      "window_state p K T [] s"
    using ct_start_window [of opens pid K T p] assms(1,2) by auto
  obtain s' where s': "run_calls p s (concat (map instr_calls xs)) = Inr s'" "window_state p K T xs s'"
    using window_run [OF s(2) assms(3,4,2)] by blast
  have "trace_out s' = map encoding (map (record_of p) (written K T xs))"
    using s'(2) by (simp add: window_state_def comp_def)
  moreover have "length (written K T xs) < Suc (length xs)" by (simp add: written_def less_Suc_eq_le)
  moreover have "\<And>r. r \<in> set (map (record_of p) (written K T xs)) \<Longrightarrow> wf_inst r"
    by (auto simp: record_of_wf simp del: record_of.simps)
  ultimately have "dec_all decode_record (Suc (length xs)) (concat (trace_out s'))
      = Some (map view_of (map (record_of p) (written K T xs)))"
    using trace_file.dec_all_encs [of "map (record_of p) (written K T xs)" "Suc (length xs)"]
    by (simp only: length_map)
  then have "dec_all decode_record (Suc (length xs)) (concat (trace_out s'))
      = Some (map (\<lambda>x. view_of (record_of p x)) (written K T xs))" by (simp only: map_map comp_def)
  with s s' show ?thesis by blast
qed

text \<open>The trace file of a program.\<close>

lemma ct_program_decodes:
  assumes "opens (''tracefile_'' @ decimal (unat pid))" "K + T < 2 ^ 64 - 1"
    and "\<forall>b\<in>set bs. block_ok ct_helpers (ct_req p) gw b \<and> marks_ok b" "meaning_ok S bs" "arg_const S arg"
    and "length (executed_program (ct_decode arg mem) S p r g bs) < 2 ^ 64"
  shows "\<exists>bs2 s s'. mapR (clean_block (ct_instrument p) gw) bs = Inr bs2
    \<and> ct_start pid opens [int_option ''--skip'' K, int_option ''--trace'' T] = Inr s
    \<and> run_blocks (with_tool ct_helpers S (on_entry (ct_tool p arg mem))) r (g, Inr s) bs2 = (run_blocks S r g bs, Inr s')
    \<and> dec_all decode_record (Suc (length (executed_program (ct_decode arg mem) S p r g bs))) (concat (trace_out s'))
        = Some (map (\<lambda>x. view_of (record_of p x)) (written K T (executed_program (ct_decode arg mem) S p r g bs)))"
proof -
  have "\<forall>b\<in>set bs. marks_ok b" using assms(3) by blast
  note good = executed_program_good [OF refl meaning_ok_bits [OF assms(4)] assms(5) this, of mem p r g]
  obtain bs2 where bs2: "mapR (clean_block (ct_instrument p) gw) bs = Inr bs2"
      "\<And>t. run_blocks (with_tool ct_helpers S (on_entry (ct_tool p arg mem))) r (g, t) bs2
        = (run_blocks S r g bs, bindR t (\<lambda>s. run_calls p s (concat (map instr_calls (executed_program (ct_decode arg mem) S p r g bs)))))"
    using ct_program_calls [OF assms(3-5), of mem r g] by blast
  from ct_run_decodes [of opens pid K T, OF assms(1,2) good assms(6), of p] bs2 show ?thesis by (auto simp del: record_of.simps)
qed

end
