(* ===== verification/Cl_Program.thy ===== *)
theory Cl_Program
  imports Tool_Program Tool_Options
begin

text \<open>
  ctlite on a running program: its counters and its file after a run of instrumented blocks are those
  of its specification for the calls of the log of the original blocks.
\<close>

definition cl_decode :: "('v \<Rightarrow> 64 word) \<Rightarrow> ('v, 'g) entry \<Rightarrow> cl_call" where
  "cl_decode arg = (\<lambda>(f, vs, g).
     if f = ''trace_instr'' then L_trace_instr (arg (vs ! 0)) (arg (vs ! 1))
     else if f = ''trace_load'' then L_trace_load (arg (vs ! 0)) (arg (vs ! 1))
     else if f = ''trace_store'' then L_trace_store (arg (vs ! 0)) (arg (vs ! 1))
     else L_trace_branch_conditional (ucast (arg (vs ! 0))) (ucast (arg (vs ! 1))))"

definition cl_tool :: "('v \<Rightarrow> 64 word) \<Rightarrow> cl_state res \<Rightarrow> ('v, 'g) entry \<Rightarrow> cl_state res" where
  "cl_tool arg t e = bindR t (\<lambda>s. cl_run_call s (cl_decode arg e))"

lemma cl_tool_fold: "foldl (cl_tool arg) t es = bindR t (\<lambda>s. foldR cl_run_call s (map (cl_decode arg) es))"
proof (induction es arbitrary: t)
  case Nil
  show ?case by (cases t) simp_all
next
  case (Cons e es)
  show ?case by (simp only: foldl_Cons Cons) (simp add: cl_tool_def bindR_assoc)
qed

text \<open>The calls of a program.\<close>

definition cl_calls :: "('v \<Rightarrow> 64 word) \<Rightarrow> ('v, 'g) ir_sem \<Rightarrow> 'v temps \<Rightarrow> 'g \<Rightarrow> IRSB list \<Rightarrow> cl_call list" where
  "cl_calls arg S r g bs = map (cl_decode arg) (program_log S cl_pre cl_post (\<lambda>_. []) r g bs)"

text \<open>The file of a run, decoded.\<close>

lemma cl_run_decodes:
  assumes "opens (''tracefile_'' @ decimal (unat pid))" "10 \<le> m" "m \<le> 40" "10 \<le> i" "i \<le> 40"
    and "0 < h" "h < 2 ^ 64" "instr_calls_of cs < 2 ^ 64"
  shows "\<exists>s s'. cl_start pid opens [int_option ''--mem-size'' m, int_option ''--code-size'' i,
        int_option ''--heartbeat'' h] = Inr s
    \<and> foldR cl_run_call s cs = Inr s'
    \<and> cl_refines h (m - 10) (i - 10) s' (foldl (spec_call h) spec_initial cs)
    \<and> dec_all decode_snapshot (Suc (instr_calls_of cs div h)) (concat (cl_out s'))
        = Some (map (snapshot_view (m - 10) (i - 10)) (intervals (foldl (spec_call h) spec_initial cs)))
    \<and> length (intervals (foldl (spec_call h) spec_initial cs)) = instr_calls_of cs div h"
proof -
  let ?a = "foldl (spec_call h) spec_initial cs"
  obtain s where s: "cl_start pid opens [int_option ''--mem-size'' m, int_option ''--code-size'' i,
        int_option ''--heartbeat'' h] = Inr s" "cl_refines h (m - 10) (i - 10) s spec_initial"
    using cl_start_refines [of opens pid m i h] assms(1-5) by blast
  obtain s' where s': "foldR cl_run_call s cs = Inr s'" "cl_refines h (m - 10) (i - 10) s' ?a"
  proof -
    have "m - 10 < 64" "i - 10 < 64" "total spec_initial + instr_calls_of cs < 2 ^ 64"
      using assms by (simp_all add: spec_initial_def)
    from cl_run_refines [OF s(2) this(1,2) assms(6,7) this(3)] show thesis using that by blast
  qed
  have len: "length (intervals ?a) = instr_calls_of cs div h"
    using spec_intervals [OF assms(6), of spec_initial cs] by (simp add: spec_initial_def)
  have "concat (cl_out s') = concat (map (\<lambda>x. concat (snapshot (m - 10) (i - 10) x)) (intervals ?a))"
    using s'(2) by (simp add: cl_refines_def concat_concat_map)
  then have "dec_all decode_snapshot (Suc (instr_calls_of cs div h)) (concat (cl_out s'))
      = Some (map (snapshot_view (m - 10) (i - 10)) (intervals ?a))"
    using snapshot_file.dec_all_encs [of "intervals ?a" "Suc (instr_calls_of cs div h)" "m - 10" "i - 10"]
      len lessI by metis
  with s s' len show ?thesis by blast
qed

lemma cl_program_decodes:
  assumes "opens (''tracefile_'' @ decimal (unat pid))" "10 \<le> m" "m \<le> 40" "10 \<le> i" "i \<le> 40"
    and "0 < h" "h < 2 ^ 64" "instr_calls_of (cl_calls arg S r g bs) < 2 ^ 64"
    and "\<forall>b\<in>set bs. block_ok cl_helpers (cl_req p) gw b" "meaning_ok S bs"
  shows "\<exists>bs2 s s'. mapR (clean_block (cl_instrument p) gw) bs = Inr bs2
    \<and> cl_start pid opens [int_option ''--mem-size'' m, int_option ''--code-size'' i, int_option ''--heartbeat'' h] = Inr s
    \<and> run_blocks (with_tool cl_helpers S (on_entry (cl_tool arg))) r (g, Inr s) bs2 = (run_blocks S r g bs, Inr s')
    \<and> cl_refines h (m - 10) (i - 10) s' (foldl (spec_call h) spec_initial (cl_calls arg S r g bs))
    \<and> dec_all decode_snapshot (Suc (instr_calls_of (cl_calls arg S r g bs) div h)) (concat (cl_out s'))
        = Some (map (snapshot_view (m - 10) (i - 10)) (intervals (foldl (spec_call h) spec_initial (cl_calls arg S r g bs))))"
proof -
  obtain bs2 where bs2: "mapR (clean_block (cl_instrument p) gw) bs = Inr bs2"
      "list_all2 (logs S cl_helpers cl_pre cl_post (\<lambda>_. [])) bs bs2"
    using clean_blocks [where instrument = "cl_instrument p" and S = S, OF cl_clean_block [OF _ meaning_ok_one [OF assms(10)]]] assms(9) by blast
  have "run_blocks (with_tool cl_helpers S (on_entry (cl_tool arg))) r (g, Inr s) bs2
      = (run_blocks S r g bs, foldR cl_run_call s (cl_calls arg S r g bs))" for s
    unfolding run_blocks_entries [OF bs2(2)] cl_tool_fold cl_calls_def by simp
  with cl_run_decodes [of opens pid, OF assms(1-8)] bs2(1) show ?thesis by (auto simp del: dec_all.simps)
qed

end
