(* ===== verification/Core_XArray.thy ===== *)
theory Core_XArray
  imports Base_Prelude
begin

text \<open>
  Extensible arrays of the core (\<open>src/coregrind/m_xarray.c\<close>).

  An array has \<open>usedsizeE\<close> elements in a block with room for \<open>totsizeE\<close>. The block is a list of slots;
  a slot that was never written is \<open>None\<close>, and a NULL pointer to the block is \<open>None\<close> too. \<open>Word\<close> is
  \<open>int\<close>, with the overflow of signed arithmetic as an error. Allocation functions never return NULL, by
  their contract in \<open>pub_tool_xarray.h\<close>, and are left out together with the cost centre.

  The locale \<open>growable_array\<close> is the contract of an array for its clients: what each operation does to
  the list of elements. Its interpretation \<open>xa\<close> is on the operations below.
\<close>

section \<open>Words and memory\<close>

definition wordR :: "int \<Rightarrow> int res" where
  "wordR x = (if - (2 ^ 63) \<le> x \<and> x < 2 ^ 63 then Inr x else Inl SignedOverflow)"

definition uword :: "int \<Rightarrow> 64 word" where
  "uword x = word_of_int x"

text \<open>Moving \<open>k\<close> slots within a block, as \<open>VG_(memmove)\<close> and \<open>VG_(memcpy)\<close> do.\<close>

definition move_slots :: "nat \<Rightarrow> nat \<Rightarrow> nat \<Rightarrow> 'b list \<Rightarrow> 'b list res" where
  "move_slots dst src k sl =
     (if dst + k \<le> length sl \<and> src + k \<le> length sl
      then Inr (take dst sl @ take k (drop src sl) @ drop (dst + k) sl) else Inl BufOverflow)"

definition write_slot :: "nat \<Rightarrow> 'a \<Rightarrow> 'a option list \<Rightarrow> 'a option list res" where
  "write_slot n x sl = (if n < length sl then Inr (sl[n := Some x]) else Inl BufOverflow)"

section \<open>The array\<close>

record 'a XArray =
  xa_cmpFn :: "('a \<Rightarrow> 'a \<Rightarrow> int) option"
  xa_elemSzB :: int
  xa_arr :: "'a option list option"
  xa_usedsizeE :: int
  xa_totsizeE :: int
  xa_sorted :: bool

definition newXA :: "int \<Rightarrow> 'a XArray res" where
  "newXA elemSzB =
     bindR (assertR (elemSzB > 0) (VAssert ''elemSzB > 0'')) (\<lambda>_.
     Inr \<lparr>xa_cmpFn = None, xa_elemSzB = elemSzB, xa_arr = None, xa_usedsizeE = 0, xa_totsizeE = 0, xa_sorted = False\<rparr>)"

definition cloneXA :: "'a XArray \<Rightarrow> 'a XArray res" where
  "cloneXA xa =
     bindR (assertR (xa_elemSzB xa \<ge> 1) (VAssert ''xa->elemSzB >= 1'')) (\<lambda>_.
     case xa_arr xa of
       None \<Rightarrow> Inr xa
     | Some sl \<Rightarrow>
         bindR (assertR (nat (xa_usedsizeE xa) \<le> length sl) BufOverflow) (\<lambda>_.
         Inr (xa\<lparr>xa_totsizeE := xa_usedsizeE xa, xa_arr := Some (take (nat (xa_usedsizeE xa)) sl)\<rparr>)))"

definition setCmpFnXA :: "'a XArray \<Rightarrow> ('a \<Rightarrow> 'a \<Rightarrow> int) \<Rightarrow> 'a XArray" where
  "setCmpFnXA xa compar = xa\<lparr>xa_cmpFn := Some compar, xa_sorted := False\<rparr>"

text \<open>\<open>indexXA\<close> returns the address of an element, here the number of its slot; \<open>deref_xa\<close> and \<open>assign_xa\<close> are the
  accesses through that address.\<close>

definition indexXA :: "'a XArray \<Rightarrow> int \<Rightarrow> nat res" where
  "indexXA xa n =
     bindR (assertR (uword n < uword (xa_usedsizeE xa)) (VAssert ''(UWord)n < (UWord)xa->usedsizeE'')) (\<lambda>_. Inr (nat n))"

definition deref_xa :: "'a XArray \<Rightarrow> nat \<Rightarrow> 'a res" where
  "deref_xa xa p =
     bindR (optR NullDeref (xa_arr xa)) (\<lambda>sl. if p < length sl then optR UninitRead (sl ! p) else Inl BufOverflow)"

definition assign_xa :: "'a XArray \<Rightarrow> nat \<Rightarrow> 'a \<Rightarrow> 'a XArray res" where
  "assign_xa xa p x =
     bindR (optR NullDeref (xa_arr xa)) (\<lambda>sl. bindR (write_slot p x sl) (\<lambda>sl. Inr (xa\<lparr>xa_arr := Some sl\<rparr>)))"

definition elemXA :: "'a XArray \<Rightarrow> int \<Rightarrow> 'a res" where
  "elemXA xa n = bindR (indexXA xa n) (deref_xa xa)"

definition storeXA :: "'a XArray \<Rightarrow> int \<Rightarrow> 'a \<Rightarrow> 'a XArray res" where
  "storeXA xa n x = bindR (indexXA xa n) (\<lambda>p. assign_xa xa p x)"

definition hintSizeXA :: "'a XArray \<Rightarrow> int \<Rightarrow> 'a XArray res" where
  "hintSizeXA xa n =
     bindR (assertR (xa_usedsizeE xa = 0) (VAssert ''xa->usedsizeE == 0'')) (\<lambda>_.
     bindR (assertR (xa_totsizeE xa = 0) (VAssert ''xa->totsizeE == 0'')) (\<lambda>_.
     bindR (assertR (xa_arr xa = None) (VAssert ''!xa->arr'')) (\<lambda>_.
     if n > 0
     then bindR (wordR (n * xa_elemSzB xa)) (\<lambda>_. Inr (xa\<lparr>xa_arr := Some (replicate (nat n) None), xa_totsizeE := n\<rparr>))
     else Inr xa)))"

definition growXA :: "'a XArray \<Rightarrow> int res" where
  "growXA xa =
     (if xa_totsizeE xa = 0
      then Inr (if xa_elemSzB xa = 1 then 8 else if xa_elemSzB xa = 2 then 4 else 2)
      else bindR (wordR (3 * xa_totsizeE xa)) (\<lambda>t. wordR (2 + t div 2)))"

definition ensureSpaceXA :: "'a XArray \<Rightarrow> 'a XArray res" where
  "ensureSpaceXA xa =
     (if xa_usedsizeE xa = xa_totsizeE xa
      then bindR (assertR (xa_totsizeE xa = 0 \<longrightarrow> xa_arr xa = None) (VAssert ''!xa->arr'')) (\<lambda>_.
           bindR (assertR (xa_totsizeE xa > 0 \<longrightarrow> xa_arr xa \<noteq> None) (VAssert ''xa->arr'')) (\<lambda>_.
           bindR (growXA xa) (\<lambda>newsz.
           bindR (wordR (newsz * xa_elemSzB xa)) (\<lambda>_.
           bindR (if xa_usedsizeE xa > 0
                  then bindR (optR NullDeref (xa_arr xa)) (\<lambda>sl.
                       bindR (assertR (nat (xa_usedsizeE xa) \<le> length sl \<and> xa_usedsizeE xa \<le> newsz) BufOverflow) (\<lambda>_.
                       Inr (take (nat (xa_usedsizeE xa)) sl)))
                  else Inr []) (\<lambda>kept.
           Inr (xa\<lparr>xa_arr := Some (kept @ replicate (nat newsz - length kept) None), xa_totsizeE := newsz\<rparr>))))))
      else Inr xa)"

definition addToXA :: "'a XArray \<Rightarrow> 'a \<Rightarrow> ('a XArray \<times> int) res" where
  "addToXA xa elem =
     bindR (assertR (xa_totsizeE xa \<ge> 0) (VAssert ''xa->totsizeE >= 0'')) (\<lambda>_.
     bindR (assertR (xa_usedsizeE xa \<ge> 0 \<and> xa_usedsizeE xa \<le> xa_totsizeE xa)
       (VAssert ''xa->usedsizeE >= 0 && xa->usedsizeE <= xa->totsizeE'')) (\<lambda>_.
     bindR (ensureSpaceXA xa) (\<lambda>xa.
     bindR (assertR (xa_usedsizeE xa < xa_totsizeE xa) (VAssert ''xa->usedsizeE < xa->totsizeE'')) (\<lambda>_.
     bindR (assertR (xa_arr xa \<noteq> None) (VAssert ''xa->arr'')) (\<lambda>_.
     bindR (assign_xa xa (nat (xa_usedsizeE xa)) elem) (\<lambda>xa.
     Inr (xa\<lparr>xa_usedsizeE := xa_usedsizeE xa + 1, xa_sorted := False\<rparr>, xa_usedsizeE xa)))))))"

definition addByteXA :: "byte XArray \<Rightarrow> byte \<Rightarrow> byte XArray res" where
  "addByteXA xa b =
     bindR (ensureSpaceXA xa) (\<lambda>xa.
     bindR (assertR (xa_usedsizeE xa < xa_totsizeE xa) (VAssert ''xa->usedsizeE < xa->totsizeE'')) (\<lambda>_.
     bindR (assertR (xa_arr xa \<noteq> None) (VAssert ''xa->arr'')) (\<lambda>_.
     bindR (assign_xa xa (nat (xa_usedsizeE xa)) b) (\<lambda>xa.
     Inr (xa\<lparr>xa_usedsizeE := xa_usedsizeE xa + 1\<rparr>)))))"

definition addBytesToXA :: "byte XArray \<Rightarrow> byte list \<Rightarrow> (byte XArray \<times> int) res" where
  "addBytesToXA xa bytesV =
     bindR (assertR (xa_elemSzB xa = 1) (VAssert ''xa->elemSzB == 1'')) (\<lambda>_.
     bindR (assertR (xa_totsizeE xa \<ge> 0) (VAssert ''xa->totsizeE >= 0'')) (\<lambda>_.
     bindR (assertR (xa_usedsizeE xa \<ge> 0 \<and> xa_usedsizeE xa \<le> xa_totsizeE xa)
       (VAssert ''xa->usedsizeE >= 0 && xa->usedsizeE <= xa->totsizeE'')) (\<lambda>_.
     bindR (foldR addByteXA xa bytesV) (\<lambda>xa'.
     Inr (xa'\<lparr>xa_sorted := False\<rparr>, xa_usedsizeE xa)))))"

definition sizeXA :: "'a XArray \<Rightarrow> int" where
  "sizeXA xa = xa_usedsizeE xa"

definition dropTailXA :: "'a XArray \<Rightarrow> int \<Rightarrow> 'a XArray res" where
  "dropTailXA xa n =
     bindR (assertR (n \<ge> 0) (VAssert ''n >= 0'')) (\<lambda>_.
     bindR (assertR (n \<le> xa_usedsizeE xa) (VAssert ''n <= xa->usedsizeE'')) (\<lambda>_.
     Inr (xa\<lparr>xa_usedsizeE := xa_usedsizeE xa - n\<rparr>)))"

definition dropHeadXA :: "'a XArray \<Rightarrow> int \<Rightarrow> 'a XArray res" where
  "dropHeadXA xa n =
     bindR (assertR (n \<ge> 0) (VAssert ''n >= 0'')) (\<lambda>_.
     bindR (assertR (n \<le> xa_usedsizeE xa) (VAssert ''n <= xa->usedsizeE'')) (\<lambda>_.
     if n = 0 then Inr xa
     else if n = xa_usedsizeE xa then Inr (xa\<lparr>xa_usedsizeE := 0\<rparr>)
     else
       bindR (assertR (n > 0) (VAssert ''n > 0'')) (\<lambda>_.
       bindR (assertR (xa_usedsizeE xa - n > 0) (VAssert ''xa->usedsizeE - n > 0'')) (\<lambda>_.
       bindR (optR NullDeref (xa_arr xa)) (\<lambda>sl.
       bindR (move_slots 0 (nat n) (nat (xa_usedsizeE xa - n)) sl) (\<lambda>sl.
       Inr (xa\<lparr>xa_arr := Some sl, xa_usedsizeE := xa_usedsizeE xa - n\<rparr>)))))))"

definition removeIndexXA :: "'a XArray \<Rightarrow> int \<Rightarrow> 'a XArray res" where
  "removeIndexXA xa n =
     bindR (assertR (n \<ge> 0) (VAssert ''n >= 0'')) (\<lambda>_.
     bindR (assertR (n < xa_usedsizeE xa) (VAssert ''n < xa->usedsizeE'')) (\<lambda>_.
     bindR (if n + 1 < xa_usedsizeE xa
            then bindR (optR NullDeref (xa_arr xa)) (\<lambda>sl.
                 bindR (move_slots (nat n) (nat (n + 1)) (nat (xa_usedsizeE xa - n - 1)) sl) (\<lambda>sl. Inr (Some sl)))
            else Inr (xa_arr xa)) (\<lambda>arr.
     Inr (xa\<lparr>xa_arr := arr, xa_usedsizeE := xa_usedsizeE xa - 1\<rparr>))))"

definition insertIndexXA :: "'a XArray \<Rightarrow> int \<Rightarrow> 'a \<Rightarrow> 'a XArray res" where
  "insertIndexXA xa n elem =
     bindR (assertR (n \<ge> 0) (VAssert ''n >= 0'')) (\<lambda>_.
     bindR (assertR (n \<le> xa_usedsizeE xa) (VAssert ''n <= xa->usedsizeE'')) (\<lambda>_.
     bindR (assertR (xa_usedsizeE xa \<ge> 0 \<and> xa_usedsizeE xa \<le> xa_totsizeE xa)
       (VAssert ''xa->usedsizeE >= 0 && xa->usedsizeE <= xa->totsizeE'')) (\<lambda>_.
     bindR (ensureSpaceXA xa) (\<lambda>xa.
     bindR (assertR (xa_usedsizeE xa < xa_totsizeE xa) (VAssert ''xa->usedsizeE < xa->totsizeE'')) (\<lambda>_.
     bindR (assertR (xa_arr xa \<noteq> None) (VAssert ''xa->arr'')) (\<lambda>_.
     bindR (optR NullDeref (xa_arr xa)) (\<lambda>sl.
     bindR (if n < xa_usedsizeE xa then move_slots (nat (n + 1)) (nat n) (nat (xa_usedsizeE xa - n)) sl else Inr sl) (\<lambda>sl.
     bindR (write_slot (nat n) elem sl) (\<lambda>sl.
     Inr (xa\<lparr>xa_arr := Some sl, xa_usedsizeE := xa_usedsizeE xa + 1, xa_sorted := False\<rparr>))))))))))"

definition replaceIndexXA :: "'a XArray \<Rightarrow> int \<Rightarrow> 'a \<Rightarrow> 'a XArray res" where
  "replaceIndexXA xa n elem =
     bindR (assertR (n \<ge> 0) (VAssert ''n >= 0'')) (\<lambda>_.
     bindR (assertR (n < xa_usedsizeE xa) (VAssert ''n < xa->usedsizeE'')) (\<lambda>_.
     bindR (assertR (xa_usedsizeE xa \<ge> 0 \<and> xa_usedsizeE xa \<le> xa_totsizeE xa)
       (VAssert ''xa->usedsizeE >= 0 && xa->usedsizeE <= xa->totsizeE'')) (\<lambda>_.
     bindR (assign_xa xa (nat n) elem) (\<lambda>xa.
     Inr (xa\<lparr>xa_sorted := False\<rparr>)))))"

section \<open>The elements\<close>

definition xa_slots :: "'a XArray \<Rightarrow> 'a option list" where
  "xa_slots xa = (case xa_arr xa of None \<Rightarrow> [] | Some sl \<Rightarrow> sl)"

definition xa_elems :: "'a XArray \<Rightarrow> 'a list" where
  "xa_elems xa = map the (take (nat (xa_usedsizeE xa)) (xa_slots xa))"

text \<open>The invariant: the block has room for \<open>totsizeE\<close> elements and is NULL when that is 0, and the slots in use
  are written.\<close>

definition wf_xa :: "'a XArray \<Rightarrow> bool" where
  "wf_xa xa \<longleftrightarrow> xa_elemSzB xa \<ge> 1 \<and> 0 \<le> xa_usedsizeE xa \<and> xa_usedsizeE xa \<le> xa_totsizeE xa \<and> xa_totsizeE xa < 2 ^ 63
     \<and> int (length (xa_slots xa)) = xa_totsizeE xa \<and> (xa_arr xa = None \<longleftrightarrow> xa_totsizeE xa = 0)
     \<and> None \<notin> set (take (nat (xa_usedsizeE xa)) (xa_slots xa))"

text \<open>The sizes that the next growth computes are words.\<close>

definition xa_room :: "'a XArray \<Rightarrow> bool" where
  "xa_room xa \<longleftrightarrow> (xa_usedsizeE xa = xa_totsizeE xa \<longrightarrow> 8 + (2 + 3 * xa_totsizeE xa) * xa_elemSzB xa < 2 ^ 63)"

text \<open>An array that holds the list \<open>l\<close>, with the rest of its block.\<close>

definition xa_holds :: "'a XArray \<Rightarrow> 'a list \<Rightarrow> 'a option list \<Rightarrow> bool" where
  "xa_holds xa l rest \<longleftrightarrow> xa_elemSzB xa \<ge> 1 \<and> xa_usedsizeE xa = int (length l) \<and> xa_slots xa = map Some l @ rest
     \<and> xa_totsizeE xa = int (length l + length rest) \<and> xa_totsizeE xa < 2 ^ 63 \<and> (xa_arr xa = None \<longleftrightarrow> xa_totsizeE xa = 0)"

lemma holds_elems: "xa_holds xa l rest \<Longrightarrow> xa_elems xa = l"
  by (simp add: xa_holds_def xa_elems_def comp_def)

lemma holds_wf: "xa_holds xa l rest \<Longrightarrow> wf_xa xa"
  by (auto simp: xa_holds_def wf_xa_def)

lemma map_Some_the: "None \<notin> set xs \<Longrightarrow> map (Some \<circ> the) xs = xs"
  by (induction xs) auto

lemma wf_holds:
  assumes "wf_xa xa"
  obtains rest where "xa_holds xa (xa_elems xa) rest"
proof
  show "xa_holds xa (xa_elems xa) (drop (nat (xa_usedsizeE xa)) (xa_slots xa))"
    using assms by (auto simp: xa_holds_def wf_xa_def xa_elems_def map_Some_the)
qed

lemma wf_size: "wf_xa xa \<Longrightarrow> sizeXA xa = int (length (xa_elems xa))"
  by (metis wf_holds xa_holds_def sizeXA_def)

section \<open>Growing\<close>

lemma ensureSpaceXA_ok:
  assumes "xa_holds xa l rest" "xa_room xa"
  shows "\<exists>arr rest'. ensureSpaceXA xa = Inr (xa\<lparr>xa_arr := Some arr, xa_totsizeE := int (length l + length rest')\<rparr>)
    \<and> arr = map Some l @ rest' \<and> rest' \<noteq> [] \<and> int (length l + length rest') < 2 ^ 63"
proof (cases "rest = []")
  case False
  then obtain sl where "xa_arr xa = Some sl" "xa_slots xa = sl"
    using assms(1) by (auto simp: xa_holds_def xa_slots_def split: option.splits)
  with False assms(1) show ?thesis
    by (intro exI [of _ sl] exI [of _ rest]) (auto simp: xa_holds_def ensureSpaceXA_def)
next
  case True
  let ?e = "xa_elemSzB xa" and ?t = "xa_totsizeE xa"
  have h: "?e \<ge> 1" "xa_usedsizeE xa = int (length l)" "?t = int (length l)" "xa_slots xa = map Some l" "xa_arr xa = None \<longleftrightarrow> l = []"
    using assms(1) True by (auto simp: xa_holds_def)
  have r: "8 + (2 + 3 * ?t) * ?e < 2 ^ 63" using assms(2) h by (simp add: xa_room_def)
  have "(2 + 3 * ?t) * 1 \<le> (2 + 3 * ?t) * ?e" using h by (intro mult_left_mono) auto
  then have "8 + (2 + 3 * ?t) < 2 ^ 63" by (intro le_less_trans [OF _ r]) simp
  then have m: "3 * ?t < 2 ^ 63 - 10" by simp
  define newsz where "newsz = (if ?t = 0 then if ?e = 1 then 8 else if ?e = 2 then 4 else 2 else 2 + 3 * ?t div 2)"
  have n: "?t < newsz" "newsz < 2 ^ 63" using m h by (auto simp: newsz_def)
  have ne: "newsz * ?e \<le> 8 + (2 + 3 * ?t) * ?e"
  proof (cases "?t = 0")
    case True
    with h show ?thesis by (simp add: newsz_def)
  next
    case False
    have "newsz \<le> 2 + 3 * ?t" using h False by (auto simp: newsz_def)
    then have "newsz * ?e \<le> (2 + 3 * ?t) * ?e" using h by (intro mult_right_mono) auto
    then show ?thesis by simp
  qed
  have g: "growXA xa = Inr newsz"
    using m h by (auto simp: growXA_def newsz_def wordR_def)
  have w: "wordR (newsz * ?e) = Inr (newsz * ?e)"
    using ne r h n by (auto simp: wordR_def intro: order_trans [OF _ mult_nonneg_nonneg])
  let ?rest = "replicate (nat newsz - length l) None"
  have "ensureSpaceXA xa = Inr (xa\<lparr>xa_arr := Some (map Some l @ ?rest), xa_totsizeE := newsz\<rparr>)"
  proof (cases "l = []")
    case True
    with h g w show ?thesis by (simp add: ensureSpaceXA_def)
  next
    case False
    then have "xa_arr xa = Some (map Some l)" using h by (auto simp: xa_slots_def split: option.splits)
    with False h g w n show ?thesis by (simp add: ensureSpaceXA_def)
  qed
  moreover have "newsz = int (length l + length ?rest)" "?rest \<noteq> []" using n h by auto
  ultimately show ?thesis using n(2) by metis
qed

section \<open>The operations on the elements\<close>

lemma index_cond:
  assumes "- (2 ^ 63) \<le> n" "n < 2 ^ 63" "0 \<le> k" "k < 2 ^ 63"
  shows "uword n < uword k \<longleftrightarrow> 0 \<le> n \<and> n < k"
proof (cases "0 \<le> n")
  case True
  with assms show ?thesis by (simp add: uword_def word_less_def take_bit_int_eq_self uint_word_of_int)
next
  case False
  have "n mod 2 ^ 64 = (n + 2 ^ 64) mod 2 ^ 64" by simp
  also have "\<dots> = n + 2 ^ 64" using assms False by (intro mod_pos_pos_trivial) auto
  finally have "n mod 2 ^ 64 = n + 2 ^ 64" .
  with assms False show ?thesis by (simp add: uword_def word_less_def uint_word_of_int)
qed

lemma xa_holds_arr:
  assumes "xa_holds xa l rest" "l \<noteq> [] \<or> rest \<noteq> []"
  shows "xa_arr xa = Some (map Some l @ rest)"
  using assms by (auto simp: xa_holds_def xa_slots_def split: option.splits)

lemma indexXA_ok:
  "xa_holds xa l rest \<Longrightarrow> 0 \<le> n \<Longrightarrow> n < int (length l) \<Longrightarrow> indexXA xa n = Inr (nat n)"
  by (simp add: indexXA_def xa_holds_def index_cond)

lemma indexXA_out:
  "xa_holds xa l rest \<Longrightarrow> n < 0 \<or> int (length l) \<le> n \<Longrightarrow> - (2 ^ 63) \<le> n \<Longrightarrow> n < 2 ^ 63 \<Longrightarrow>
   indexXA xa n = Inl (VAssert ''(UWord)n < (UWord)xa->usedsizeE'')"
  by (auto simp: indexXA_def xa_holds_def index_cond)

lemma elemXA_holds: "xa_holds xa l rest \<Longrightarrow> 0 \<le> n \<Longrightarrow> n < int (length l) \<Longrightarrow> elemXA xa n = Inr (l ! nat n)"
  using xa_holds_arr [of xa l rest]
  by (cases "l = []") (auto simp: elemXA_def indexXA_ok deref_xa_def nth_append nat_less_iff)

lemma xa_holds_arr_nth: "xa_holds xa l rest \<Longrightarrow> n < length l \<Longrightarrow> xa_arr xa = Some (map Some l @ rest)"
  by (rule xa_holds_arr) auto

lemma assign_holds:
  assumes "xa_holds xa l rest" "n < length l"
  shows "\<exists>xa'. assign_xa xa n x = Inr xa' \<and> xa_holds xa' (l[n := x]) rest \<and> xa_sorted xa' = xa_sorted xa \<and> xa_cmpFn xa' = xa_cmpFn xa"
proof (intro exI conjI)
  let ?xa = "xa\<lparr>xa_arr := Some (map Some (l[n := x]) @ rest)\<rparr>"
  show "assign_xa xa n x = Inr ?xa"
    using xa_holds_arr_nth [OF assms] assms(2) by (simp add: assign_xa_def write_slot_def list_update_append map_update)
  show "xa_holds ?xa (l[n := x]) rest" using assms by (auto simp: xa_holds_def xa_slots_def)
qed simp_all

lemma push_holds:
  assumes "xa_holds xa l rest" "xa_room xa"
  shows "\<exists>xa1 arr rest'. ensureSpaceXA xa = Inr xa1 \<and> xa_usedsizeE xa1 = int (length l) \<and> xa_usedsizeE xa1 < xa_totsizeE xa1
    \<and> xa_arr xa1 = Some (map Some l @ rest') \<and> rest' \<noteq> [] \<and> xa_holds xa1 l rest'"
proof -
  obtain arr rest' where e: "ensureSpaceXA xa = Inr (xa\<lparr>xa_arr := Some arr, xa_totsizeE := int (length l + length rest')\<rparr>)"
      "arr = map Some l @ rest'" "rest' \<noteq> []" "int (length l + length rest') < 2 ^ 63"
    using ensureSpaceXA_ok [OF assms] by blast
  then have "int (length l + length rest') \<noteq> 0" by (cases rest') auto
  with e assms(1) have "xa_holds (xa\<lparr>xa_arr := Some arr, xa_totsizeE := int (length l + length rest')\<rparr>) l rest'"
    by (simp only: xa_holds_def xa_slots_def) simp
  with e assms(1) show ?thesis by (simp add: xa_holds_def)
qed

lemma addToXA_ok:
  assumes "xa_holds xa l rest" "xa_room xa"
  shows "\<exists>xa' rest'. addToXA xa x = Inr (xa', int (length l)) \<and> xa_holds xa' (l @ [x]) rest' \<and> \<not> xa_sorted xa'"
proof -
  obtain xa1 y rest' where e: "ensureSpaceXA xa = Inr xa1" "xa_usedsizeE xa1 = int (length l)" "xa_usedsizeE xa1 < xa_totsizeE xa1"
      "xa_arr xa1 = Some (map Some l @ y # rest')" "xa_holds xa1 l (y # rest')"
    using push_holds [OF assms] by (metis neq_Nil_conv)
  from assms(1) have "0 \<le> xa_totsizeE xa" "0 \<le> xa_usedsizeE xa \<and> xa_usedsizeE xa \<le> xa_totsizeE xa" by (auto simp: xa_holds_def)
  with e show ?thesis
    by (auto simp: addToXA_def assign_xa_def write_slot_def xa_holds_def xa_slots_def list_update_append)
qed

lemma insertIndexXA_ok:
  assumes "xa_holds xa l rest" "xa_room xa" "0 \<le> n" "n \<le> int (length l)"
  shows "\<exists>xa' rest'. insertIndexXA xa n x = Inr xa' \<and> xa_holds xa' (take (nat n) l @ x # drop (nat n) l) rest'"
proof -
  obtain xa1 y rest' where e: "ensureSpaceXA xa = Inr xa1" "xa_usedsizeE xa1 = int (length l)" "xa_usedsizeE xa1 < xa_totsizeE xa1"
      "xa_arr xa1 = Some (map Some l @ y # rest')" "xa_holds xa1 l (y # rest')"
    using push_holds [OF assms(1,2)] by (metis neq_Nil_conv)
  define i where "i = nat n"
  then have i: "n = int i" "i \<le> length l" using assms(3,4) by auto
  have u: "0 \<le> xa_totsizeE xa" "xa_usedsizeE xa = int (length l)" "xa_usedsizeE xa \<le> xa_totsizeE xa"
    using assms(1) by (auto simp: xa_holds_def)
  let ?sl = "map Some (take i l @ x # drop i l) @ rest'"
    and ?xa = "\<lambda>sl. xa1\<lparr>xa_arr := Some sl, xa_usedsizeE := xa_usedsizeE xa1 + 1, xa_sorted := False\<rparr>"
  have k: "nat (int (length l) - int i) = length l - i" "nat (int i + 1) = Suc i" using i by auto
  have "insertIndexXA xa n x = Inr (?xa ?sl)"
  proof (cases "i < length l")
    case True
    have "move_slots (Suc i) i (length l - i) (map Some l @ y # rest') = Inr (map Some (take (Suc i) l @ drop i l) @ rest')"
      using True by (simp add: move_slots_def take_map drop_map)
    moreover have "write_slot i x (map Some (take (Suc i) l @ drop i l) @ rest') = Inr ?sl"
      using True by (simp add: write_slot_def list_update_append take_Suc_conv_app_nth)
    ultimately show ?thesis using True e u i k by (simp add: insertIndexXA_def)
  next
    case False
    with i e u show ?thesis by (simp add: insertIndexXA_def write_slot_def list_update_append)
  qed
  moreover have "xa_holds (?xa ?sl) (take i l @ x # drop i l) rest'"
    using e(5) i by (auto simp: xa_holds_def xa_slots_def)
  ultimately show ?thesis by (auto simp: i_def)
qed

lemma removeIndexXA_ok:
  assumes "xa_holds xa l rest" "0 \<le> n" "n < int (length l)"
  shows "\<exists>xa' rest'. removeIndexXA xa n = Inr xa' \<and> xa_holds xa' (take (nat n) l @ drop (Suc (nat n)) l) rest'"
proof -
  define i where "i = nat n"
  then have i: "n = int i" "i < length l" using assms(2,3) by auto
  have a: "xa_arr xa = Some (map Some l @ rest)" by (rule xa_holds_arr_nth [OF assms(1) i(2)])
  have u: "xa_usedsizeE xa = int (length l)" using assms(1) by (simp add: xa_holds_def)
  let ?new = "take i l @ drop (Suc i) l" and ?rest = "drop (length l - 1) (map Some l) @ rest"
  have k: "nat (int (length l) - int i - 1) = length l - Suc i" "nat (int i + 1) = Suc i" "i + (length l - Suc i) = length l - 1"
    using i by auto
  have "removeIndexXA xa n = Inr (xa\<lparr>xa_arr := Some (map Some ?new @ ?rest), xa_usedsizeE := xa_usedsizeE xa - 1\<rparr>)"
  proof (cases "Suc i < length l")
    case True
    then have "move_slots i (Suc i) (length l - Suc i) (map Some l @ rest) = Inr (map Some ?new @ ?rest)"
      using i k(3) by (auto simp: move_slots_def take_map drop_map)
    with True a u i k show ?thesis by (simp add: removeIndexXA_def)
  next
    case False
    with i have l: "length l = Suc i" by simp
    then have "map Some l @ rest = map Some ?new @ ?rest"
      by (metis append_assoc append_take_drop_id append_Nil2 diff_Suc_1 drop_all drop_map le_refl map_append)
    with False a u i show ?thesis by (simp add: removeIndexXA_def)
  qed
  moreover have "xa_holds (xa\<lparr>xa_arr := Some (map Some ?new @ ?rest), xa_usedsizeE := xa_usedsizeE xa - 1\<rparr>) ?new ?rest"
  proof -
    have "length ?new + length ?rest = length l + length rest" "int (length l) - 1 = int (length ?new)" using i by auto
    moreover have "xa_totsizeE xa \<noteq> 0" "xa_totsizeE xa = int (length l + length rest)" "1 \<le> xa_elemSzB xa" "xa_totsizeE xa < 2 ^ 63"
      using assms(1) a by (auto simp: xa_holds_def)
    ultimately show ?thesis by (simp only: xa_holds_def xa_slots_def u) simp
  qed
  ultimately show ?thesis unfolding i_def by blast
qed

lemma dropTailXA_ok:
  assumes "xa_holds xa l rest" "0 \<le> n" "n \<le> int (length l)"
  shows "\<exists>xa' rest'. dropTailXA xa n = Inr xa' \<and> xa_holds xa' (take (length l - nat n) l) rest'"
proof (intro exI conjI)
  let ?k = "length l - nat n" and ?xa = "xa\<lparr>xa_usedsizeE := xa_usedsizeE xa - n\<rparr>"
  show "dropTailXA xa n = Inr ?xa" using assms by (simp add: dropTailXA_def xa_holds_def)
  have "map Some l @ rest = map Some (take ?k l) @ (map Some (drop ?k l) @ rest)"
    by (simp flip: map_append append_assoc)
  moreover have "length l + length rest = length (take ?k l) + length (map Some (drop ?k l) @ rest)" by simp
  ultimately show "xa_holds ?xa (take ?k l) (map Some (drop ?k l) @ rest)"
    using assms by (auto simp: xa_holds_def xa_slots_def)
qed

lemma dropHeadXA_ok:
  assumes "xa_holds xa l rest" "0 \<le> n" "n \<le> int (length l)"
  shows "\<exists>xa' rest'. dropHeadXA xa n = Inr xa' \<and> xa_holds xa' (drop (nat n) l) rest'"
proof -
  define i where "i = nat n"
  then have i: "n = int i" "i \<le> length l" using assms(2,3) by auto
  have u: "xa_usedsizeE xa = int (length l)" using assms(1) by (simp add: xa_holds_def)
  consider "i = 0" | "i = length l" "i \<noteq> 0" | "0 < i" "i < length l" using i by linarith
  then show ?thesis
  proof cases
    case 1
    with assms(1) i u show ?thesis by (auto simp: dropHeadXA_def)
  next
    case 2
    with assms(1) i u have "xa_holds (xa\<lparr>xa_usedsizeE := 0\<rparr>) [] (map Some l @ rest)" by (auto simp: xa_holds_def xa_slots_def)
    with 2 i u show ?thesis by (auto simp: dropHeadXA_def)
  next
    case 3
    have a: "xa_arr xa = Some (map Some l @ rest)" by (rule xa_holds_arr_nth [OF assms(1) 3(2)])
    let ?rest = "drop (length l - i) (map Some l) @ rest"
    let ?xa = "xa\<lparr>xa_arr := Some (map Some (drop i l) @ ?rest), xa_usedsizeE := xa_usedsizeE xa - n\<rparr>"
    have "move_slots 0 i (length l - i) (map Some l @ rest) = Inr (map Some (drop i l) @ ?rest)"
      using 3 by (auto simp: move_slots_def drop_map)
    moreover have "nat (int (length l) - int i) = length l - i" by simp
    ultimately have "dropHeadXA xa n = Inr ?xa" using 3 i u a by (simp add: dropHeadXA_def)
    moreover have "xa_holds ?xa (drop i l) ?rest"
      using assms(1) 3 a i by (auto simp: xa_holds_def xa_slots_def of_nat_diff)
    ultimately show ?thesis by (auto simp: i_def)
  qed
qed

lemma replaceIndexXA_ok:
  assumes "xa_holds xa l rest" "0 \<le> n" "n < int (length l)"
  shows "\<exists>xa' rest'. replaceIndexXA xa n x = Inr xa' \<and> xa_holds xa' (l[nat n := x]) rest'"
proof -
  have "nat n < length l" using assms by simp
  then obtain xa' where x: "assign_xa xa (nat n) x = Inr xa'" "xa_holds xa' (l[nat n := x]) rest"
    using assign_holds [OF assms(1)] by blast
  from assms(1) have "0 \<le> xa_usedsizeE xa \<and> xa_usedsizeE xa \<le> xa_totsizeE xa" "xa_usedsizeE xa = int (length l)" by (auto simp: xa_holds_def)
  moreover have "xa_holds (xa'\<lparr>xa_sorted := False\<rparr>) (l[nat n := x]) rest" using x(2) by (simp add: xa_holds_def xa_slots_def)
  ultimately show ?thesis using assms x(1) by (auto simp: replaceIndexXA_def)
qed

lemma hintSizeXA_ok:
  assumes "xa_holds xa [] []" "0 \<le> n" "n * xa_elemSzB xa < 2 ^ 63"
  shows "\<exists>xa'. hintSizeXA xa n = Inr xa' \<and> xa_holds xa' [] (replicate (nat n) None)"
proof -
  have "n * 1 \<le> n * xa_elemSzB xa" using assms by (intro mult_left_mono) (auto simp: xa_holds_def)
  then have "n < 2 ^ 63" "wordR (n * xa_elemSzB xa) = Inr (n * xa_elemSzB xa)" using assms(2,3) by (auto simp: wordR_def)
  with assms show ?thesis by (auto simp: hintSizeXA_def xa_holds_def xa_slots_def)
qed

lemma cloneXA_ok:
  assumes "xa_holds xa l rest" "l \<noteq> [] \<or> rest = []"
  shows "\<exists>xa'. cloneXA xa = Inr xa' \<and> xa_holds xa' l [] \<and> xa_cmpFn xa' = xa_cmpFn xa \<and> xa_sorted xa' = xa_sorted xa"
proof (cases "l = []")
  case True
  with assms show ?thesis by (auto simp: cloneXA_def xa_holds_def)
next
  case False
  with xa_holds_arr [OF assms(1)] assms show ?thesis by (auto simp: cloneXA_def xa_holds_def xa_slots_def)
qed

text \<open>The copy of an array that is empty but has a block: \<open>totsizeE\<close> becomes 0 and \<open>arr\<close> does not become NULL, so
  the next element that is added to the copy runs into the assertion of \<open>ensureSpaceXA\<close>.\<close>

lemma cloneXA_empty:
  assumes "xa_holds xa [] rest" "rest \<noteq> []"
  shows "\<exists>xa'. cloneXA xa = Inr xa' \<and> addToXA xa' x = Inl (VAssert ''!xa->arr'')"
  using assms xa_holds_arr [of xa "[]" rest] by (auto simp: cloneXA_def xa_holds_def addToXA_def ensureSpaceXA_def)

section \<open>The interface of an array\<close>

locale growable_array =
  fixes inv :: "'s \<Rightarrow> bool" and fits :: "'s \<Rightarrow> bool" and els :: "'s \<Rightarrow> 'a list"
    and size_of :: "'s \<Rightarrow> int" and get :: "'s \<Rightarrow> int \<Rightarrow> 'a res" and put :: "'s \<Rightarrow> int \<Rightarrow> 'a \<Rightarrow> 's res"
    and add :: "'s \<Rightarrow> 'a \<Rightarrow> ('s \<times> int) res" and ins :: "'s \<Rightarrow> int \<Rightarrow> 'a \<Rightarrow> 's res" and del :: "'s \<Rightarrow> int \<Rightarrow> 's res"
  assumes size_law: "inv s \<Longrightarrow> size_of s = int (length (els s))"
    and get_law: "inv s \<Longrightarrow> 0 \<le> n \<Longrightarrow> n < int (length (els s)) \<Longrightarrow> get s n = Inr (els s ! nat n)"
    and put_law: "inv s \<Longrightarrow> 0 \<le> n \<Longrightarrow> n < int (length (els s)) \<Longrightarrow> \<exists>s'. put s n x = Inr s' \<and> inv s' \<and> els s' = (els s)[nat n := x]"
    and add_law: "inv s \<Longrightarrow> fits s \<Longrightarrow> \<exists>s'. add s x = Inr (s', int (length (els s))) \<and> inv s' \<and> els s' = els s @ [x]"
    and ins_law: "inv s \<Longrightarrow> fits s \<Longrightarrow> 0 \<le> n \<Longrightarrow> n \<le> int (length (els s)) \<Longrightarrow>
      \<exists>s'. ins s n x = Inr s' \<and> inv s' \<and> els s' = take (nat n) (els s) @ x # drop (nat n) (els s)"
    and del_law: "inv s \<Longrightarrow> 0 \<le> n \<Longrightarrow> n < int (length (els s)) \<Longrightarrow>
      \<exists>s'. del s n = Inr s' \<and> inv s' \<and> els s' = take (nat n) (els s) @ drop (Suc (nat n)) (els s)"
begin

text \<open>Positions given by the lists before and after them.\<close>

lemma get_at: "inv s \<Longrightarrow> els s = xs @ x # ys \<Longrightarrow> get s (int (length xs)) = Inr x"
  using get_law [of s "int (length xs)"] by simp

lemma put_at: "inv s \<Longrightarrow> els s = xs @ x # ys \<Longrightarrow> \<exists>s'. put s (int (length xs)) y = Inr s' \<and> inv s' \<and> els s' = xs @ y # ys"
  using put_law [of s "int (length xs)" y] by (simp add: list_update_append)

lemma ins_at: "inv s \<Longrightarrow> fits s \<Longrightarrow> els s = xs @ ys \<Longrightarrow> \<exists>s'. ins s (int (length xs)) x = Inr s' \<and> inv s' \<and> els s' = xs @ x # ys"
  using ins_law [of s "int (length xs)" x] by simp

lemma del_at: "inv s \<Longrightarrow> els s = xs @ x # ys \<Longrightarrow> \<exists>s'. del s (int (length xs)) = Inr s' \<and> inv s' \<and> els s' = xs @ ys"
  using del_law [of s "int (length xs)"] by simp

text \<open>A loop that changes the elements of a segment one by one.\<close>

lemma update_loop:
  "inv s \<Longrightarrow> els s = xs @ ys @ zs \<Longrightarrow>
   \<exists>s'. foldR (\<lambda>s i. bindR (get s i) (\<lambda>x. put s i (f x))) s [int (length xs)..int (length xs + length ys) - 1] = Inr s'
     \<and> inv s' \<and> els s' = xs @ map f ys @ zs"
proof (induction ys arbitrary: s xs)
  case Nil
  then show ?case by simp
next
  case (Cons y ys)
  obtain s1 where s1: "put s (int (length xs)) (f y) = Inr s1" "inv s1" "els s1 = (xs @ [f y]) @ ys @ zs"
    using put_at [OF Cons.prems(1), of xs y "ys @ zs" "f y"] Cons.prems(2) by auto
  have "[int (length xs)..int (length xs + length (y # ys)) - 1]
      = int (length xs) # [int (length (xs @ [f y]))..int (length (xs @ [f y]) + length ys) - 1]"
    by (subst upto_rec1) (auto simp: add.commute)
  with Cons.IH [OF s1(2,3)] s1(1) get_at [OF Cons.prems(1), of xs y "ys @ zs"] Cons.prems(2) show ?case by auto
qed

end

text \<open>Arrays with elements of \<open>e\<close> bytes.\<close>

definition sized_xa :: "int \<Rightarrow> 'a XArray \<Rightarrow> bool" where
  "sized_xa e xa \<longleftrightarrow> wf_xa xa \<and> xa_elemSzB xa = e"

definition fits_xa :: "int \<Rightarrow> 'a XArray \<Rightarrow> bool" where
  "fits_xa e xa \<longleftrightarrow> 8 + (2 + 3 * int (length (xa_elems xa))) * e < 2 ^ 63"

lemma elemSzB_simps:
  "assign_xa xa p x = Inr xa' \<Longrightarrow> xa_elemSzB xa' = xa_elemSzB xa"
  "ensureSpaceXA xa = Inr xa' \<Longrightarrow> xa_elemSzB xa' = xa_elemSzB xa"
  by (auto simp: assign_xa_def ensureSpaceXA_def res_iff split: if_splits)

lemma elemSzB_kept:
  "storeXA xa n x = Inr xa' \<Longrightarrow> xa_elemSzB xa' = xa_elemSzB xa"
  "addToXA xa x = Inr (xa', k) \<Longrightarrow> xa_elemSzB xa' = xa_elemSzB xa"
  "insertIndexXA xa n x = Inr xa' \<Longrightarrow> xa_elemSzB xa' = xa_elemSzB xa"
  "removeIndexXA xa n = Inr xa' \<Longrightarrow> xa_elemSzB xa' = xa_elemSzB xa"
  by (auto simp: storeXA_def addToXA_def insertIndexXA_def removeIndexXA_def res_iff dest!: elemSzB_simps)

lemma fits_room: "sized_xa e xa \<Longrightarrow> fits_xa e xa \<Longrightarrow> xa_room xa"
  using wf_size [of xa] by (auto simp: sized_xa_def fits_xa_def xa_room_def sizeXA_def)

lemma sized_holds:
  assumes "sized_xa e xa"
  obtains rest where "xa_holds xa (xa_elems xa) rest"
  using assms wf_holds by (auto simp: sized_xa_def)

lemma sizedI: "xa_holds xa l rest \<Longrightarrow> xa_elemSzB xa = e \<Longrightarrow> sized_xa e xa \<and> xa_elems xa = l"
  using holds_wf [of xa l rest] holds_elems [of xa l rest] by (simp add: sized_xa_def)

interpretation xa: growable_array "sized_xa e" "fits_xa e" xa_elems sizeXA elemXA storeXA addToXA insertIndexXA removeIndexXA for e
proof
  fix s :: "'a XArray" and n x
  assume s: "sized_xa e s"
  then obtain rest where h: "xa_holds s (xa_elems s) rest" by (rule sized_holds)
  have e: "xa_elemSzB s = e" using s by (simp add: sized_xa_def)
  show "sizeXA s = int (length (xa_elems s))" using h by (simp add: xa_holds_def sizeXA_def)
  show "0 \<le> n \<Longrightarrow> n < int (length (xa_elems s)) \<Longrightarrow> elemXA s n = Inr (xa_elems s ! nat n)" by (rule elemXA_holds [OF h])
  show "\<exists>s'. storeXA s n x = Inr s' \<and> sized_xa e s' \<and> xa_elems s' = (xa_elems s)[nat n := x]"
    if n: "0 \<le> n" "n < int (length (xa_elems s))"
    using assign_holds [OF h, of "nat n" x] indexXA_ok [OF h n] n sizedI elemSzB_simps(1) e by (fastforce simp: storeXA_def)
  show "\<exists>s'. removeIndexXA s n = Inr s' \<and> sized_xa e s' \<and> xa_elems s' = take (nat n) (xa_elems s) @ drop (Suc (nat n)) (xa_elems s)"
    if "0 \<le> n" "n < int (length (xa_elems s))"
    using removeIndexXA_ok [OF h that] sizedI elemSzB_kept(4) e by fastforce
  assume "fits_xa e s"
  then have r: "xa_room s" by (rule fits_room [OF s])
  show "\<exists>s'. addToXA s x = Inr (s', int (length (xa_elems s))) \<and> sized_xa e s' \<and> xa_elems s' = xa_elems s @ [x]"
    using addToXA_ok [OF h r] sizedI elemSzB_kept(2) e by fastforce
  show "\<exists>s'. insertIndexXA s n x = Inr s' \<and> sized_xa e s' \<and> xa_elems s' = take (nat n) (xa_elems s) @ x # drop (nat n) (xa_elems s)"
    if "0 \<le> n" "n \<le> int (length (xa_elems s))"
    using insertIndexXA_ok [OF h r that] sizedI elemSzB_kept(3) e by fastforce
qed

section \<open>Runs of operations\<close>

datatype 'a xa_op =
    Add 'a
  | InsertIndex int 'a
  | RemoveIndex int
  | ReplaceIndex int 'a
  | DropTail int
  | DropHead int

fun xa_step :: "'a XArray \<Rightarrow> 'a xa_op \<Rightarrow> 'a XArray res" where
  "xa_step xa (Add x) = bindR (addToXA xa x) (\<lambda>(xa, i). Inr xa)"
| "xa_step xa (InsertIndex n x) = insertIndexXA xa n x"
| "xa_step xa (RemoveIndex n) = removeIndexXA xa n"
| "xa_step xa (ReplaceIndex n x) = replaceIndexXA xa n x"
| "xa_step xa (DropTail n) = dropTailXA xa n"
| "xa_step xa (DropHead n) = dropHeadXA xa n"

text \<open>The specification: a list, and no result for an index or a number that is out of range.\<close>

fun list_step :: "'a list \<Rightarrow> 'a xa_op \<Rightarrow> 'a list option" where
  "list_step l (Add x) = Some (l @ [x])"
| "list_step l (InsertIndex n x) = (if 0 \<le> n \<and> n \<le> int (length l) then Some (take (nat n) l @ x # drop (nat n) l) else None)"
| "list_step l (RemoveIndex n) = (if 0 \<le> n \<and> n < int (length l) then Some (take (nat n) l @ drop (Suc (nat n)) l) else None)"
| "list_step l (ReplaceIndex n x) = (if 0 \<le> n \<and> n < int (length l) then Some (l[nat n := x]) else None)"
| "list_step l (DropTail n) = (if 0 \<le> n \<and> n \<le> int (length l) then Some (take (length l - nat n) l) else None)"
| "list_step l (DropHead n) = (if 0 \<le> n \<and> n \<le> int (length l) then Some (drop (nat n) l) else None)"

fun list_run :: "'a list \<Rightarrow> 'a xa_op list \<Rightarrow> 'a list option" where
  "list_run l [] = Some l"
| "list_run l (p # ps) = (case list_step l p of None \<Rightarrow> None | Some l' \<Rightarrow> list_run l' ps)"

lemma list_step_length: "list_step l p = Some l' \<Longrightarrow> length l' \<le> Suc (length l)"
  by (cases p) (auto split: if_splits)

lemma xa_step_rejects: "xa_holds xa l rest \<Longrightarrow> list_step l p = None \<Longrightarrow> \<exists>msg. xa_step xa p = Inl (VAssert msg)"
  by (cases p) (auto simp: xa_holds_def insertIndexXA_def removeIndexXA_def replaceIndexXA_def dropTailXA_def dropHeadXA_def assertR_def split: if_splits)

lemma more_elemSzB_kept:
  "replaceIndexXA xa n x = Inr xa' \<Longrightarrow> xa_elemSzB xa' = xa_elemSzB xa"
  "dropTailXA xa n = Inr xa' \<Longrightarrow> xa_elemSzB xa' = xa_elemSzB xa"
  "dropHeadXA xa n = Inr xa' \<Longrightarrow> xa_elemSzB xa' = xa_elemSzB xa"
  by (auto simp: replaceIndexXA_def dropTailXA_def dropHeadXA_def res_iff dest!: elemSzB_simps split: if_splits)

lemma xa_step_elemSzB: "xa_step xa p = Inr xa' \<Longrightarrow> xa_elemSzB xa' = xa_elemSzB xa"
  by (cases p) (auto simp: res_iff dest: elemSzB_kept more_elemSzB_kept)

lemma xa_step_ok:
  assumes "sized_xa e xa" "fits_xa e xa" "list_step (xa_elems xa) p = Some l'"
  shows "\<exists>xa'. xa_step xa p = Inr xa' \<and> sized_xa e xa' \<and> xa_elems xa' = l'"
proof -
  obtain rest where h: "xa_holds xa (xa_elems xa) rest" using assms(1) by (rule sized_holds)
  note r = fits_room [OF assms(1,2)]
  have "\<exists>xa' rest'. xa_step xa p = Inr xa' \<and> xa_holds xa' l' rest'"
  proof (cases p)
    case (Add x)
    then show ?thesis using addToXA_ok [OF h r, of x] assms(3) by auto
  next
    case (InsertIndex n x)
    then show ?thesis using insertIndexXA_ok [OF h r, of n x] assms(3) by (auto split: if_splits)
  next
    case (RemoveIndex n)
    then show ?thesis using removeIndexXA_ok [OF h, of n] assms(3) by (auto split: if_splits)
  next
    case (ReplaceIndex n x)
    then show ?thesis using replaceIndexXA_ok [OF h, of n x] assms(3) by (auto split: if_splits)
  next
    case (DropTail n)
    then show ?thesis using dropTailXA_ok [OF h, of n] assms(3) by (auto split: if_splits)
  next
    case (DropHead n)
    then show ?thesis using dropHeadXA_ok [OF h, of n] assms(3) by (auto split: if_splits)
  qed
  then show ?thesis using sizedI xa_step_elemSzB assms(1) by (metis sized_xa_def)
qed

lemma xa_run_ok:
  "sized_xa e xa \<Longrightarrow> 8 + (2 + 3 * int (length (xa_elems xa) + length ps)) * e < 2 ^ 63 \<Longrightarrow>
   (case list_run (xa_elems xa) ps of
      Some l' \<Rightarrow> \<exists>xa'. foldR xa_step xa ps = Inr xa' \<and> sized_xa e xa' \<and> xa_elems xa' = l'
    | None \<Rightarrow> \<exists>msg. foldR xa_step xa ps = Inl (VAssert msg))"
proof (induction ps arbitrary: xa)
  case (Cons p ps)
  have e: "1 \<le> e" using Cons.prems(1) by (auto simp: sized_xa_def wf_xa_def)
  have le: "8 + (2 + 3 * int k) * e < 2 ^ 63" if "k \<le> length (xa_elems xa) + length (p # ps)" for k
    using that e by (intro le_less_trans [OF _ Cons.prems(2)] add_left_mono mult_right_mono) auto
  have f: "fits_xa e xa" using le [of "length (xa_elems xa)"] by (simp add: fits_xa_def)
  show ?case
  proof (cases "list_step (xa_elems xa) p")
    case None
    obtain rest where "xa_holds xa (xa_elems xa) rest" using Cons.prems(1) by (rule sized_holds)
    from xa_step_rejects [OF this None] None show ?thesis by auto
  next
    case (Some l')
    obtain xa' where x: "xa_step xa p = Inr xa'" "sized_xa e xa'" "xa_elems xa' = l'"
      using xa_step_ok [OF Cons.prems(1) f Some] by blast
    have "length (xa_elems xa') + length ps \<le> length (xa_elems xa) + length (p # ps)" using list_step_length [OF Some] x(3) by simp
    note ih = Cons.IH [OF x(2) le [OF this]]
    have "foldR xa_step xa (p # ps) = foldR xa_step xa' ps" "list_run (xa_elems xa) (p # ps) = list_run (xa_elems xa') ps"
      using x Some by simp_all
    then show ?thesis using ih by (simp only:)
  qed
qed simp

end
