(* ===== verification/Core_Lookup.thy ===== *)
theory Core_Lookup
  imports Core_XArray
begin

text \<open>
  Binary search, as \<open>VG_(lookupXA_UNSAFE)\<close> (\<open>src/coregrind/m_xarray.c\<close>) and \<open>find\<close>
  (\<open>src/coregrind/m_rangemap.c\<close>) do it.

  Both loops halve an interval of indices, and \<open>bisect\<close> is that loop, over a function that compares the key
  with the element at an index. When the comparisons are ordered by the index
  (\<open>ordered_probe\<close>) the search is shown to find an index if there is one in the interval, and not to find one otherwise;
  the upper end of the interval may be one past the last index, where \<open>find\<close> starts.
\<close>

section \<open>The loop\<close>

function bisect :: "(int \<Rightarrow> int res) \<Rightarrow> int \<Rightarrow> int \<Rightarrow> (int \<times> int \<times> int) option res" where
  "bisect probe lo hi =
     (if lo > hi then Inr None
      else bindR (wordR (lo + hi)) (\<lambda>s. let mid = s div 2 in
           bindR (probe mid) (\<lambda>cres.
           if cres < 0 then bisect probe lo (mid - 1)
           else if cres > 0 then bisect probe (mid + 1) hi
           else Inr (Some (lo, mid, hi)))))"
  by pat_completeness auto

termination bisect
  by (relation "measure (\<lambda>(probe, lo, hi). nat (hi - lo + 1))") (auto simp: wordR_def split: if_splits)

declare bisect.simps [simp del]

text \<open>The comparisons \<open>c i\<close> with the \<open>n\<close> elements, in the order of an ordered array: first the elements that are
  smaller than the key, then the equal ones, then the greater ones.\<close>

definition ordered_probe :: "(int \<Rightarrow> int res) \<Rightarrow> nat \<Rightarrow> (nat \<Rightarrow> int) \<Rightarrow> bool" where
  "ordered_probe probe n c \<longleftrightarrow> (\<forall>i<n. probe (int i) = Inr (c i)) \<and> int n < 2 ^ 62
     \<and> (\<forall>j<n. \<forall>i\<le>j. (c i < 0 \<longrightarrow> c j < 0) \<and> (0 < c j \<longrightarrow> 0 < c i))"

lemma ordered_probeD:
  assumes "ordered_probe probe n c"
  shows probe_int: "0 \<le> k \<Longrightarrow> k < int n \<Longrightarrow> probe k = Inr (c (nat k))"
    and c_less: "i \<le> j \<Longrightarrow> j < n \<Longrightarrow> c i < 0 \<Longrightarrow> c j < 0"
    and c_greater: "i \<le> j \<Longrightarrow> j < n \<Longrightarrow> 0 < c j \<Longrightarrow> 0 < c i"
    and n_word: "int n < 2 ^ 62"
  using assms by (auto simp: ordered_probe_def dest!: spec [of _ "nat k"])

lemma bisect_finds:
  assumes P: "ordered_probe probe n c"
  shows "0 \<le> lo \<Longrightarrow> lo \<le> int k \<Longrightarrow> int k \<le> hi \<Longrightarrow> hi \<le> int n \<Longrightarrow> k < n \<Longrightarrow> c k = 0 \<Longrightarrow>
   \<exists>l m h. bisect probe lo hi = Inr (Some (l, m, h)) \<and> lo \<le> l \<and> l \<le> m \<and> m \<le> h \<and> h \<le> hi \<and> m < int n \<and> c (nat m) = 0"
proof (induction "nat (hi - lo)" arbitrary: lo hi rule: less_induct)
  case less
  note probe_int = probe_int [OF P] and c_less = c_less [OF P] and c_greater = c_greater [OF P] and n_word = n_word [OF P]
  let ?mid = "(lo + hi) div 2"
  have w: "wordR (lo + hi) = Inr (lo + hi)" using less.prems n_word by (simp add: wordR_def)
  have m: "lo \<le> ?mid" "?mid \<le> hi" "?mid < int n" using less.prems by auto
  have p: "probe ?mid = Inr (c (nat ?mid))" using m less.prems by (intro probe_int) auto
  consider "c (nat ?mid) < 0" | "0 < c (nat ?mid)" | "c (nat ?mid) = 0" by linarith
  then show ?case
  proof cases
    case 1
    then have "\<not> nat ?mid \<le> k" using c_less [of "nat ?mid" k] less.prems by auto
    then have "int k \<le> ?mid - 1" using m less.prems by auto
    with less.hyps [of "?mid - 1" lo] less.prems m have
      "\<exists>l m h. bisect probe lo (?mid - 1) = Inr (Some (l, m, h)) \<and> lo \<le> l \<and> l \<le> m \<and> m \<le> h \<and> h \<le> ?mid - 1 \<and> m < int n \<and> c (nat m) = 0"
      by auto
    moreover have "bisect probe lo hi = bisect probe lo (?mid - 1)"
      using 1 w p m by (subst bisect.simps) (simp add: Let_def)
    ultimately show ?thesis using m by fastforce
  next
    case 2
    moreover have "nat ?mid < n" using m less.prems by linarith
    ultimately have "\<not> k \<le> nat ?mid" using c_greater [of k "nat ?mid"] less.prems(6) by auto
    then have "?mid + 1 \<le> int k" using m less.prems by auto
    with less.hyps [of hi "?mid + 1"] less.prems m have
      "\<exists>l m h. bisect probe (?mid + 1) hi = Inr (Some (l, m, h)) \<and> ?mid + 1 \<le> l \<and> l \<le> m \<and> m \<le> h \<and> h \<le> hi \<and> m < int n \<and> c (nat m) = 0"
      by auto
    moreover have "bisect probe lo hi = bisect probe (?mid + 1) hi"
      using 2 w p m by (subst bisect.simps) (simp add: Let_def)
    ultimately show ?thesis using m by fastforce
  next
    case 3
    with w p m have "bisect probe lo hi = Inr (Some (lo, ?mid, hi))" by (subst bisect.simps) (simp add: Let_def)
    with 3 m show ?thesis by auto
  qed
qed

lemma bisect_misses:
  assumes P: "ordered_probe probe n c"
  shows "0 \<le> lo \<Longrightarrow> hi < int n \<Longrightarrow> (\<And>k. lo \<le> int k \<Longrightarrow> int k \<le> hi \<Longrightarrow> c k \<noteq> 0) \<Longrightarrow> bisect probe lo hi = Inr None"
proof (induction "nat (hi - lo + 1)" arbitrary: lo hi rule: less_induct)
  case less
  note probe_int = probe_int [OF P] and c_less = c_less [OF P] and c_greater = c_greater [OF P] and n_word = n_word [OF P]
  let ?mid = "(lo + hi) div 2"
  show ?case
  proof (cases "lo > hi")
    case True
    then show ?thesis by (subst bisect.simps) simp
  next
    case False
    have w: "wordR (lo + hi) = Inr (lo + hi)" using less.prems n_word False by (simp add: wordR_def)
    have m: "lo \<le> ?mid" "?mid \<le> hi" "0 \<le> ?mid" using less.prems False by auto
    have p: "probe ?mid = Inr (c (nat ?mid))" using m less.prems by (intro probe_int) auto
    have "c (nat ?mid) \<noteq> 0" using less.prems(3) [of "nat ?mid"] m by simp
    moreover have "bisect probe lo (?mid - 1) = Inr None" using less m by (intro less.hyps) auto
    moreover have "bisect probe (?mid + 1) hi = Inr None" using less m by (intro less.hyps) auto
    ultimately show ?thesis using False w p by (subst bisect.simps) (auto simp: Let_def)
  qed
qed

section \<open>Looking up a key\<close>

function first_loop :: "(int \<Rightarrow> int res) \<Rightarrow> int \<Rightarrow> int res" where
  "first_loop probe first =
     (if first > 0 then bindR (probe (first - 1)) (\<lambda>c. if c = 0 then first_loop probe (first - 1) else Inr first) else Inr first)"
  by pat_completeness auto

termination first_loop
  by (relation "measure (\<lambda>(probe, first). nat first)") auto

function last_loop :: "(int \<Rightarrow> int res) \<Rightarrow> int \<Rightarrow> int \<Rightarrow> int res" where
  "last_loop probe used at =
     (if at < used - 1 then bindR (probe (at + 1)) (\<lambda>c. if c = 0 then last_loop probe used (at + 1) else Inr at) else Inr at)"
  by pat_completeness auto

termination last_loop
  by (relation "measure (\<lambda>(probe, used, at). nat (used - at))") auto

declare first_loop.simps [simp del] last_loop.simps [simp del]

text \<open>The two results are written only when the caller asks for them.\<close>

definition lookupXA_UNSAFE :: "'a XArray \<Rightarrow> 'a \<Rightarrow> bool \<Rightarrow> bool \<Rightarrow> ('a \<Rightarrow> 'a \<Rightarrow> int) \<Rightarrow> (bool \<times> int option \<times> int option) res" where
  "lookupXA_UNSAFE xa key wantFirst wantLast cmpFn =
     (let probe = (\<lambda>i. bindR (elemXA xa i) (\<lambda>x. Inr (cmpFn key x))) in
      bindR (bisect probe 0 (xa_usedsizeE xa - 1)) (\<lambda>r.
      case r of
        None \<Rightarrow> Inr (False, None, None)
      | Some (lo, mid, hi) \<Rightarrow>
          bindR (probe lo) (\<lambda>c. bindR (assertR (c \<ge> 0) (VAssert ''cmpFn( key, VG_(indexXA)(xa, lo) ) >= 0'')) (\<lambda>_.
          bindR (probe hi) (\<lambda>c. bindR (assertR (c \<le> 0) (VAssert ''cmpFn( key, VG_(indexXA)(xa, hi) ) <= 0'')) (\<lambda>_.
          bindR (if wantFirst then bindR (first_loop probe mid) (\<lambda>f. Inr (Some f)) else Inr None) (\<lambda>fst.
          bindR (if wantLast then bindR (last_loop probe (xa_usedsizeE xa) mid) (\<lambda>l. Inr (Some l)) else Inr None) (\<lambda>lst.
          Inr (True, fst, lst)))))))))"

definition lookupXA :: "'a XArray \<Rightarrow> 'a \<Rightarrow> bool \<Rightarrow> bool \<Rightarrow> (bool \<times> int option \<times> int option) res" where
  "lookupXA xa key wantFirst wantLast =
     bindR (optR (VAssert ''xa->cmpFn'') (xa_cmpFn xa)) (\<lambda>cmpFn.
     bindR (assertR (xa_sorted xa) (VAssert ''xa->sorted'')) (\<lambda>_.
     lookupXA_UNSAFE xa key wantFirst wantLast cmpFn))"

text \<open>Going down from an index with the key to the first one, and up to the last one.\<close>

lemma first_loop_ok:
  assumes P: "ordered_probe probe n c"
  shows "0 \<le> m \<Longrightarrow> m < int n \<Longrightarrow> c (nat m) = 0 \<Longrightarrow>
   \<exists>f. first_loop probe m = Inr (int f) \<and> f < n \<and> c f = 0 \<and> (\<forall>i<f. c i \<noteq> 0)"
proof (induction "nat m" arbitrary: m rule: less_induct)
  case less
  note probe_int = probe_int [OF P] and c_less = c_less [OF P] and c_greater = c_greater [OF P] and n_word = n_word [OF P]
  show ?case
  proof (cases "0 < m \<and> c (nat (m - 1)) = 0")
    case True
    with less.hyps [of "m - 1"] less.prems probe_int [of "m - 1"] show ?thesis
      by (subst first_loop.simps) simp
  next
    case False
    have "c i \<noteq> 0" if "i < nat m" for i
    proof -
      from that False have "c (nat (m - 1)) \<noteq> 0" by auto
      moreover have "nat (m - 1) \<le> nat m" "nat m < n" using less.prems by linarith+
      then have "\<not> c (nat (m - 1)) < 0" using c_less less.prems(3) by fastforce
      ultimately have "0 < c (nat (m - 1))" by simp
      then have "0 < c i" using that less.prems by (intro c_greater [of i "nat (m - 1)"]) auto
      then show ?thesis by simp
    qed
    moreover have "first_loop probe m = Inr m"
      using False less.prems probe_int [of "m - 1"] by (subst first_loop.simps) auto
    ultimately show ?thesis using less.prems by (intro exI [of _ "nat m"]) auto
  qed
qed

lemma last_loop_ok:
  assumes P: "ordered_probe probe n c"
  shows "0 \<le> m \<Longrightarrow> m < int n \<Longrightarrow> c (nat m) = 0 \<Longrightarrow>
   \<exists>l. last_loop probe (int n) m = Inr (int l) \<and> l < n \<and> c l = 0 \<and> (\<forall>i<n. l < i \<longrightarrow> c i \<noteq> 0)"
proof (induction "nat (int n - m)" arbitrary: m rule: less_induct)
  case less
  note probe_int = probe_int [OF P] and c_less = c_less [OF P] and c_greater = c_greater [OF P] and n_word = n_word [OF P]
  show ?case
  proof (cases "m < int n - 1 \<and> c (nat (m + 1)) = 0")
    case True
    with less.hyps [of "m + 1"] less.prems probe_int [of "m + 1"] show ?thesis
      by (subst last_loop.simps) simp
  next
    case False
    have "c i \<noteq> 0" if "nat m < i" "i < n" for i
    proof -
      from that False have "c (nat (m + 1)) \<noteq> 0" by auto
      moreover have "nat m \<le> nat (m + 1)" "nat (m + 1) < n" using less.prems that by linarith+
      then have "\<not> 0 < c (nat (m + 1))" using c_greater less.prems(3) by fastforce
      ultimately have "c (nat (m + 1)) < 0" by simp
      then have "c i < 0" using that less.prems by (intro c_less [of "nat (m + 1)" i]) auto
      then show ?thesis by simp
    qed
    moreover have "last_loop probe (int n) m = Inr m"
      using False less.prems probe_int [of "m + 1"] by (subst last_loop.simps) auto
    ultimately show ?thesis using less.prems by (intro exI [of _ "nat m"]) auto
  qed
qed

section \<open>Ordered arrays\<close>

text \<open>A comparison function that gives the order of its arguments.\<close>

definition cmp_order :: "('a \<Rightarrow> 'a \<Rightarrow> int) \<Rightarrow> bool" where
  "cmp_order cmp \<longleftrightarrow> (\<forall>x y. cmp x y < 0 \<longleftrightarrow> 0 < cmp y x) \<and> (\<forall>x y z. cmp x y \<le> 0 \<longrightarrow> cmp y z \<le> 0 \<longrightarrow> cmp x z \<le> 0)"

lemma cmp_flip: "cmp_order cmp \<Longrightarrow> cmp x y < 0 \<longleftrightarrow> 0 < cmp y x"
  by (simp add: cmp_order_def)

lemma cmp_trans: "cmp_order cmp \<Longrightarrow> cmp x y \<le> 0 \<Longrightarrow> cmp y z \<le> 0 \<Longrightarrow> cmp x z \<le> 0"
  unfolding cmp_order_def by blast

lemma cmp_refl: "cmp_order cmp \<Longrightarrow> cmp x x = 0"
  using cmp_flip [of cmp x x] by linarith

lemma sorted_probe:
  assumes "wf_xa xa" "int (length (xa_elems xa)) < 2 ^ 62" "cmp_order cmp" "sorted_wrt (\<lambda>x y. cmp x y \<le> 0) (xa_elems xa)"
  shows "ordered_probe (\<lambda>i. bindR (elemXA xa i) (\<lambda>x. Inr (cmp key x))) (length (xa_elems xa)) (\<lambda>i. cmp key (xa_elems xa ! i))"
proof -
  obtain rest where h: "xa_holds xa (xa_elems xa) rest" using assms(1) by (rule wf_holds)
  have le: "cmp (xa_elems xa ! i) (xa_elems xa ! j) \<le> 0" if "i \<le> j" "j < length (xa_elems xa)" for i j
    using that assms(4) cmp_refl [OF assms(3)] by (cases "i = j") (auto simp: sorted_wrt_iff_nth_less)
  have "cmp key y < 0" if "cmp key x < 0" "cmp x y \<le> 0" for x y
    using that cmp_flip [OF assms(3)] cmp_trans [OF assms(3), of x y key] by (meson linorder_not_le)
  moreover have "0 < cmp key x" if "0 < cmp key y" "cmp x y \<le> 0" for x y
    using that cmp_trans [OF assms(3), of key x y] by linarith
  ultimately show ?thesis using elemXA_holds [OF h] le assms(2) by (auto simp: ordered_probe_def)
qed

text \<open>The indices of the elements that are equal to a key.\<close>

definition hits :: "('a \<Rightarrow> 'a \<Rightarrow> int) \<Rightarrow> 'a \<Rightarrow> 'a list \<Rightarrow> nat list" where
  "hits cmp key l = filter (\<lambda>i. cmp key (l ! i) = 0) [0..<length l]"

lemma upt_split: "k < n \<Longrightarrow> [0..<n] = [0..<k] @ k # [Suc k..<n]"
  using upt_add_eq_append [of 0 k "n - k"] upt_conv_Cons [of k n] by simp

lemma hd_hits: "f < length l \<Longrightarrow> cmp key (l ! f) = 0 \<Longrightarrow> (\<forall>i<f. cmp key (l ! i) \<noteq> 0) \<Longrightarrow> hd (hits cmp key l) = f"
proof -
  assume a: "f < length l" "cmp key (l ! f) = 0" "\<forall>i<f. cmp key (l ! i) \<noteq> 0"
  have "[0..<length l] = [0..<f] @ f # [Suc f..<length l]" using a(1) by (rule upt_split)
  then show ?thesis using a by (simp add: hits_def)
qed

lemma last_hits: "k < length l \<Longrightarrow> cmp key (l ! k) = 0 \<Longrightarrow> (\<forall>i<length l. k < i \<longrightarrow> cmp key (l ! i) \<noteq> 0) \<Longrightarrow> last (hits cmp key l) = k"
proof -
  assume a: "k < length l" "cmp key (l ! k) = 0" "\<forall>i<length l. k < i \<longrightarrow> cmp key (l ! i) \<noteq> 0"
  have "[0..<length l] = [0..<k] @ k # [Suc k..<length l]" using a(1) by (rule upt_split)
  moreover have "filter (\<lambda>i. cmp key (l ! i) = 0) [Suc k..<length l] = []" using a(3) by (auto simp: filter_empty_conv)
  ultimately show ?thesis using a by (simp add: hits_def)
qed

definition lookup_result :: "bool \<Rightarrow> bool \<Rightarrow> nat list \<Rightarrow> bool \<times> int option \<times> int option" where
  "lookup_result wantFirst wantLast ixs =
     (if ixs = [] then (False, None, None)
      else (True, if wantFirst then Some (int (hd ixs)) else None, if wantLast then Some (int (last ixs)) else None))"

lemma lookupXA_UNSAFE_ok:
  assumes "wf_xa xa" "int (length (xa_elems xa)) < 2 ^ 62" "cmp_order cmp" "sorted_wrt (\<lambda>x y. cmp x y \<le> 0) (xa_elems xa)"
  shows "lookupXA_UNSAFE xa key wF wL cmp = Inr (lookup_result wF wL (hits cmp key (xa_elems xa)))"
proof -
  let ?l = "xa_elems xa" and ?p = "\<lambda>i. bindR (elemXA xa i) (\<lambda>x. Inr (cmp key x))" and ?c = "\<lambda>i. cmp key (xa_elems xa ! i)"
  note P = sorted_probe [OF assms, of key]
  have u: "xa_usedsizeE xa = int (length ?l)" using wf_size [OF assms(1)] by (simp add: sizeXA_def)
  show ?thesis
  proof (cases "hits cmp key ?l = []")
    case True
    then have "?c k \<noteq> 0" if "k < length ?l" for k using that by (auto simp: hits_def filter_empty_conv)
    then have "bisect ?p 0 (int (length ?l) - 1) = Inr None" by (intro bisect_misses [OF P]) auto
    with True u show ?thesis by (simp add: lookupXA_UNSAFE_def lookup_result_def)
  next
    case False
    then obtain k where k: "k < length ?l" "?c k = 0" by (auto simp: hits_def filter_empty_conv)
    obtain lo m hi where b: "bisect ?p 0 (int (length ?l) - 1) = Inr (Some (lo, m, hi))" "0 \<le> lo" "lo \<le> m" "m \<le> hi" "hi \<le> int (length ?l) - 1"
        "m < int (length ?l)" "?c (nat m) = 0"
      using bisect_finds [OF P, of 0 k "int (length ?l) - 1"] k by auto
    have n: "nat lo \<le> nat m" "nat m \<le> nat hi" "nat m < length ?l" "nat hi < length ?l" using b by linarith+
    have m0: "0 \<le> m" using b by simp
    obtain f where f: "first_loop ?p m = Inr (int f)" "f < length ?l" "?c f = 0" "\<forall>i<f. ?c i \<noteq> 0"
      using first_loop_ok [OF P m0 b(6,7)] by blast
    obtain t where t: "last_loop ?p (int (length ?l)) m = Inr (int t)" "t < length ?l" "?c t = 0" "\<forall>i<length ?l. t < i \<longrightarrow> ?c i \<noteq> 0"
      using last_loop_ok [OF P m0 b(6,7)] by blast
    note ends = f(1) hd_hits [of f ?l cmp key, OF f(2-)] t(1) last_hits [of t ?l cmp key, OF t(2-)]
    have "\<not> ?c (nat lo) < 0" using c_less [OF P n(1,3)] b(7) by auto
    moreover have "\<not> 0 < ?c (nat hi)" using c_greater [OF P n(2,4)] b(7) by auto
    moreover have "?p lo = Inr (?c (nat lo))" "?p hi = Inr (?c (nat hi))" using b by (auto intro!: probe_int [OF P])
    ultimately show ?thesis using False b(1) u ends by (simp add: lookupXA_UNSAFE_def lookup_result_def Let_def)
  qed
qed

end
