(* ===== verification/Core_RangeMap.thy ===== *)
theory Core_RangeMap
  imports Core_Lookup
begin

text \<open>
  Range maps (\<open>src/coregrind/m_rangemap.c\<close>): a map from all 64-bit keys to values, kept as an extensible array of
  adjacent ranges.

  The invariant \<open>rm_inv\<close> is that the ranges cover the keys from 0 to \<open>UWORD_MAX\<close> without gap or overlap. It
  makes the search total (\<open>rm_find_ok\<close>), and \<open>bindRangeMap\<close> refines the update of a function on an interval
  (\<open>bindRangeMap_ok\<close>). The proofs work on lists of ranges cut into segments (\<open>covers\<close>) and reach the array
  through the interface \<open>growable_array\<close>.
\<close>

unbundle bit_operations_syntax

section \<open>The code\<close>

type_synonym uword64 = "64 word"

record Range =
  key_min :: uword64
  key_max :: uword64
  rng_val :: uword64

type_synonym RangeMap = "Range XArray"

definition UWORD_MIN :: uword64 where "UWORD_MIN = 0"

definition UWORD_MAX :: uword64 where "UWORD_MAX = NOT 0"

definition sizeof_Range :: int where "sizeof_Range = 24"

definition newRangeMap :: "uword64 \<Rightarrow> RangeMap res" where
  "newRangeMap initialVal =
     bindR (newXA sizeof_Range) (\<lambda>ranges.
     bindR (addToXA ranges \<lparr>key_min = UWORD_MIN, key_max = UWORD_MAX, rng_val = initialVal\<rparr>) (\<lambda>(ranges, i).
     bindR (assertR (i = 0) (VAssert ''i == 0'')) (\<lambda>_.
     bindR (assertR (sizeXA ranges = 1) (VAssert ''VG_(sizeXA)(rm->ranges) == 1'')) (\<lambda>_.
     Inr ranges))))"

definition find_probe :: "RangeMap \<Rightarrow> uword64 \<Rightarrow> int \<Rightarrow> int res" where
  "find_probe rm key mid =
     bindR (elemXA rm mid) (\<lambda>mid_rng.
     Inr (if key < key_min mid_rng then -1 else if key > key_max mid_rng then 1 else 0))"

definition rm_find :: "RangeMap \<Rightarrow> uword64 \<Rightarrow> int res" where
  "rm_find rm key =
     bindR (bisect (find_probe rm key) 0 (sizeXA rm)) (\<lambda>r.
     case r of None \<Rightarrow> Inl (VPanic ''RangeMap::find: not found'') | Some (lo, mid, hi) \<Rightarrow> Inr mid)"

definition split_at :: "RangeMap \<Rightarrow> uword64 \<Rightarrow> RangeMap res" where
  "split_at rm key =
     bindR (rm_find rm key) (\<lambda>i.
     bindR (elemXA rm i) (\<lambda>rng_i0.
     if key_min rng_i0 = key then Inr rm
     else bindR (insertIndexXA rm (i + 1) rng_i0) (\<lambda>rm.
          bindR (elemXA rm i) (\<lambda>rng_i0. bindR (storeXA rm i (rng_i0\<lparr>key_max := key - 1\<rparr>)) (\<lambda>rm.
          bindR (elemXA rm (i + 1)) (\<lambda>rng_i1. storeXA rm (i + 1) (rng_i1\<lparr>key_min := key\<rparr>)))))))"

lemma size_after_store: "storeXA xa n x = Inr xa' \<Longrightarrow> sizeXA xa' = sizeXA xa"
  by (auto simp: storeXA_def assign_xa_def sizeXA_def res_iff)

lemma size_after_remove: "removeIndexXA xa n = Inr xa' \<Longrightarrow> sizeXA xa' = sizeXA xa - 1"
  by (auto simp: removeIndexXA_def sizeXA_def res_iff)

function preen :: "RangeMap \<Rightarrow> int \<Rightarrow> RangeMap res" where
  "preen rm i =
     (if i < sizeXA rm - 1
      then bindR (elemXA rm i) (\<lambda>rng0. bindR (elemXA rm (i + 1)) (\<lambda>rng1.
           if rng_val rng0 \<noteq> rng_val rng1 then preen rm (i + 1)
           else bindR (storeXA rm i (rng0\<lparr>key_max := key_max rng1\<rparr>)) (\<lambda>rm1.
                bindR (removeIndexXA rm1 (i + 1)) (\<lambda>rm2. preen rm2 (i - 1 + 1)))))
      else Inr rm)"
  by pat_completeness auto

termination preen
  by (relation "measure (\<lambda>(rm, i). nat (sizeXA rm - i))") (auto dest!: size_after_store size_after_remove)

declare preen.simps [simp del]

definition bindRangeMap :: "RangeMap \<Rightarrow> uword64 \<Rightarrow> uword64 \<Rightarrow> uword64 \<Rightarrow> RangeMap res" where
  "bindRangeMap rm kmin kmax v =
     bindR (assertR (kmin \<le> kmax) (VAssert ''key_min <= key_max'')) (\<lambda>_.
     bindR (split_at rm kmin) (\<lambda>rm.
     bindR (if kmax < UWORD_MAX then split_at rm (kmax + 1) else Inr rm) (\<lambda>rm.
     bindR (rm_find rm kmin) (\<lambda>iMin. bindR (rm_find rm kmax) (\<lambda>iMax.
     bindR (foldR (\<lambda>rm i. bindR (elemXA rm i) (\<lambda>rng. storeXA rm i (rng\<lparr>rng_val := v\<rparr>))) rm [iMin..iMax]) (\<lambda>rm.
     preen rm 0))))))"

definition lookupRangeMap :: "RangeMap \<Rightarrow> uword64 \<Rightarrow> (uword64 \<times> uword64 \<times> uword64) res" where
  "lookupRangeMap rm key =
     bindR (rm_find rm key) (\<lambda>i. bindR (elemXA rm i) (\<lambda>rng. Inr (key_min rng, key_max rng, rng_val rng)))"

definition sizeRangeMap :: "RangeMap \<Rightarrow> 32 word res" where
  "sizeRangeMap rm =
     bindR (assertR (sizeXA rm \<ge> 0) (VAssert ''size >= 0'')) (\<lambda>_. Inr (word_of_int (sizeXA rm)))"

definition indexRangeMap :: "RangeMap \<Rightarrow> int \<Rightarrow> (uword64 \<times> uword64 \<times> uword64) res" where
  "indexRangeMap rm ix = bindR (elemXA rm ix) (\<lambda>rng. Inr (key_min rng, key_max rng, rng_val rng))"

section \<open>Segments of ranges\<close>

text \<open>The ranges \<open>rs\<close> cover the keys from \<open>k\<close> to \<open>m - 1\<close>.\<close>

fun covers :: "nat \<Rightarrow> Range list \<Rightarrow> nat \<Rightarrow> bool" where
  "covers k [] m \<longleftrightarrow> k = m"
| "covers k (r # rs) m \<longleftrightarrow> unat (key_min r) = k \<and> key_min r \<le> key_max r \<and> covers (unat (key_max r) + 1) rs m"

definition inside :: "uword64 \<Rightarrow> Range \<Rightarrow> bool" where
  "inside key r \<longleftrightarrow> key_min r \<le> key \<and> key \<le> key_max r"

text \<open>The map that a list of ranges stands for.\<close>

definition rm_map :: "Range list \<Rightarrow> uword64 \<rightharpoonup> uword64" where
  "rm_map rs key = map_option rng_val (find (inside key) rs)"

definition rm_inv :: "RangeMap \<Rightarrow> bool" where
  "rm_inv rm \<longleftrightarrow> sized_xa sizeof_Range rm \<and> covers 0 (xa_elems rm) (2 ^ 64)"

lemma covers_append: "covers k (xs @ ys) m \<longleftrightarrow> (\<exists>j. covers k xs j \<and> covers j ys m)"
  by (induction xs arbitrary: k) auto

lemma covers_le: "covers k rs m \<Longrightarrow> k \<le> m"
proof (induction rs arbitrary: k)
  case (Cons r rs)
  then show ?case by (fastforce simp: word_le_nat_alt)
qed simp

lemma inside_nat: "inside key r \<longleftrightarrow> unat (key_min r) \<le> unat key \<and> unat key \<le> unat (key_max r)"
  by (simp add: inside_def word_le_nat_alt)

lemma covers_inside: "covers k rs m \<Longrightarrow> r \<in> set rs \<Longrightarrow> inside key r \<Longrightarrow> k \<le> unat key \<and> unat key < m"
proof (induction rs arbitrary: k)
  case (Cons a rs)
  then show ?case using covers_le [of "unat (key_max a) + 1" rs m]
    by (fastforce simp: inside_nat word_le_nat_alt)
qed simp

lemma covers_split:
  "covers k rs m \<Longrightarrow> k \<le> unat key \<Longrightarrow> unat key < m \<Longrightarrow> \<exists>xs r ys. rs = xs @ r # ys \<and> inside key r"
proof (induction rs arbitrary: k)
  case (Cons a rs)
  show ?case
  proof (cases "inside key a")
    case True
    then show ?thesis by (metis append_Nil)
  next
    case False
    with Cons.prems have "unat (key_max a) + 1 \<le> unat key" by (auto simp: inside_nat)
    with Cons.IH [of "unat (key_max a) + 1"] Cons.prems obtain xs r ys where "rs = xs @ r # ys" "inside key r" by auto
    then show ?thesis by (metis append_Cons)
  qed
qed simp

lemma rm_map_outside: "covers k rs m \<Longrightarrow> unat key < k \<or> m \<le> unat key \<Longrightarrow> rm_map rs key = None"
  using covers_inside [of k rs m _ key] by (fastforce simp: rm_map_def find_None_iff)

lemma rm_map_append: "rm_map (xs @ ys) key = (case rm_map xs key of None \<Rightarrow> rm_map ys key | Some v \<Rightarrow> Some v)"
  by (auto simp: rm_map_def find_append split: option.splits)

lemma rm_map_seg:
  assumes "covers k xs j" "covers j ys m"
  shows "rm_map (xs @ ys) key = (if unat key < j then rm_map xs key else rm_map ys key)"
  using assms rm_map_outside [of k xs j key] rm_map_outside [of j ys m key]
  by (auto simp: rm_map_append split: option.splits)

section \<open>Searching\<close>

lemma covers_before: "covers k (xs @ r # ys) m \<Longrightarrow> x \<in> set xs \<Longrightarrow> unat (key_max x) < unat (key_min r)"
proof -
  assume a: "covers k (xs @ r # ys) m" "x \<in> set xs"
  then have "covers k xs (unat (key_min r))" by (auto simp: covers_append)
  with a(2) show ?thesis
  proof (induction xs arbitrary: k)
    case (Cons a xs)
    then show ?case using covers_le [of "unat (key_max a) + 1" xs "unat (key_min r)"] by auto
  qed simp
qed

lemma covers_ordered: "covers k rs m \<Longrightarrow> r \<in> set rs \<Longrightarrow> key_min r \<le> key_max r"
  by (induction rs arbitrary: k) auto

lemma covers_after: "covers k (xs @ r # ys) m \<Longrightarrow> y \<in> set ys \<Longrightarrow> unat (key_max r) < unat (key_min y)"
proof -
  assume a: "covers k (xs @ r # ys) m" "y \<in> set ys"
  then have c: "covers (unat (key_max r) + 1) ys m" by (auto simp: covers_append)
  from covers_inside [OF c a(2), of "key_min y"] covers_ordered [OF c a(2)] show ?thesis by (simp add: inside_def)
qed

lemma rm_find_ok:
  assumes "sized_xa e rm" "covers k (xa_elems rm) m" "xa_elems rm = xs @ r # ys" "inside key r" "int (length (xa_elems rm)) < 2 ^ 62"
  shows "rm_find rm key = Inr (int (length xs))"
proof -
  let ?rs = "xa_elems rm" and ?i = "length xs"
  define c :: "nat \<Rightarrow> int" where "c = (\<lambda>j. if j < ?i then 1 else if j = ?i then 0 else -1)"
  have "find_probe rm key (int j) = Inr (c j)" if j: "j < length ?rs" for j
  proof -
    have e: "elemXA rm (int j) = Inr (?rs ! j)" using xa.get_law [OF assms(1), of "int j"] j by simp
    consider "j < ?i" "?rs ! j \<in> set xs" | "j = ?i" "?rs ! j = r" | "?i < j" "?rs ! j \<in> set ys"
      using j assms(3) by (cases "j < ?i"; cases "j = ?i") (auto simp: nth_append nth_Cons')
    then show ?thesis
    proof cases
      case 1
      then have "unat (key_max (?rs ! j)) < unat key" "key_min (?rs ! j) \<le> key_max (?rs ! j)"
        using assms(3,4) covers_before [OF assms(2) [unfolded assms(3)]] covers_ordered [OF assms(2)] by (fastforce simp: inside_nat)+
      then have "key_max (?rs ! j) < key" "\<not> key < key_min (?rs ! j)" by (auto simp: word_less_nat_alt word_le_nat_alt)
      with 1 e show ?thesis by (simp add: find_probe_def c_def)
    next
      case 2
      with assms(4) e show ?thesis by (auto simp: find_probe_def c_def inside_def)
    next
      case 3
      with assms(4) covers_after [OF assms(2) [unfolded assms(3)]] have "key < key_min (?rs ! j)"
        by (fastforce simp: inside_nat word_less_nat_alt)
      with 3 e show ?thesis by (simp add: find_probe_def c_def)
    qed
  qed
  then have P: "ordered_probe (find_probe rm key) (length ?rs) c" using assms(5) by (auto simp: ordered_probe_def c_def)
  have "\<exists>l m h. bisect (find_probe rm key) 0 (int (length ?rs)) = Inr (Some (l, m, h)) \<and> 0 \<le> l \<and> l \<le> m \<and> m \<le> h \<and> h \<le> int (length ?rs)
      \<and> m < int (length ?rs) \<and> c (nat m) = 0"
    using assms(3) by (intro bisect_finds [OF P, of _ ?i]) (auto simp: c_def)
  then obtain l m h where b: "bisect (find_probe rm key) 0 (int (length ?rs)) = Inr (Some (l, m, h))" "0 \<le> m" "c (nat m) = 0" by auto
  from b(2,3) have "m = int ?i" by (auto simp: c_def split: if_splits)
  with b(1) xa.size_law [OF assms(1)] show ?thesis by (simp add: rm_find_def)
qed

section \<open>Splitting a range\<close>

lemma unat_pred: "(key :: uword64) \<noteq> 0 \<Longrightarrow> Suc (unat (key - 1)) = unat key"
  using unat_sub [of 1 key] by (simp add: word_le_nat_alt unat_eq_0 Suc_le_eq unat_gt_0)

lemma split_ranges:
  assumes "covers k (xs @ r # ys) m" "inside key r" "key_min r \<noteq> key"
  shows "covers k (xs @ [r\<lparr>key_max := key - 1\<rparr>]) (unat key)" "covers (unat key) (r\<lparr>key_min := key\<rparr> # ys) m"
    "rm_map (xs @ r\<lparr>key_max := key - 1\<rparr> # r\<lparr>key_min := key\<rparr> # ys) = rm_map (xs @ r # ys)"
proof -
  have k: "unat (key_min r) < unat key" "unat key \<le> unat (key_max r)"
    using assms(2,3) by (auto simp: inside_nat word_unat_eq_iff le_less)
  then have p: "Suc (unat (key - 1)) = unat key" by (intro unat_pred) auto
  with k have "key_min r \<le> key - 1" by (simp add: word_le_nat_alt)
  with assms(1) p show "covers k (xs @ [r\<lparr>key_max := key - 1\<rparr>]) (unat key)" by (auto simp: covers_append)
  show "covers (unat key) (r\<lparr>key_min := key\<rparr> # ys) m" using assms(1) k(2) by (auto simp: covers_append word_le_nat_alt)
  have "inside q r \<longleftrightarrow> inside q (r\<lparr>key_max := key - 1\<rparr>) \<or> inside q (r\<lparr>key_min := key\<rparr>)" for q
    using k p by (auto simp: inside_nat)
  then show "rm_map (xs @ r\<lparr>key_max := key - 1\<rparr> # r\<lparr>key_min := key\<rparr> # ys) = rm_map (xs @ r # ys)"
    by (auto simp: rm_map_def find_append split: option.splits)
qed

lemma split_at_ok:
  assumes "sized_xa e rm" "fits_xa e rm" "int (length (xa_elems rm)) < 2 ^ 62" "xa_elems rm = xs @ rs"
    "covers 0 xs j" "covers j rs (2 ^ 64)" "j \<le> unat key"
  shows "\<exists>rm' ys zs. split_at rm key = Inr rm' \<and> sized_xa e rm' \<and> xa_elems rm' = xs @ ys @ zs \<and> covers j ys (unat key)
    \<and> covers (unat key) zs (2 ^ 64) \<and> rm_map (ys @ zs) = rm_map rs \<and> length (ys @ zs) \<le> Suc (length rs)"
proof -
  obtain ys r zs where rs: "rs = ys @ r # zs" "inside key r" using covers_split [OF assms(6,7)] unat_bound [of key] by auto
  have all: "covers 0 (xa_elems rm) (2 ^ 64)" using assms(4-6) by (auto simp: covers_append)
  have els: "xa_elems rm = (xs @ ys) @ r # zs" using rs assms(4) by simp
  have f: "rm_find rm key = Inr (int (length (xs @ ys)))" by (rule rm_find_ok [OF assms(1) all els rs(2) assms(3)])
  have g: "elemXA rm (int (length (xs @ ys))) = Inr r" by (rule xa.get_at [OF assms(1) els])
  show ?thesis
  proof (cases "key_min r = key")
    case True
    then have "split_at rm key = Inr rm" using f g by (simp add: split_at_def)
    with True rs assms show ?thesis
      by (intro exI [of _ rm] exI [of _ ys] exI [of _ "r # zs"]) (auto simp: covers_append)
  next
    case False
    obtain rm1 where r1: "insertIndexXA rm (int (length (xs @ ys @ [r]))) r = Inr rm1" "sized_xa e rm1" "xa_elems rm1 = (xs @ ys) @ r # r # zs"
      using xa.ins_at [OF assms(1,2), of "xs @ ys @ [r]" zs r] els by auto
    obtain rm2 where r2: "storeXA rm1 (int (length (xs @ ys))) (r\<lparr>key_max := key - 1\<rparr>) = Inr rm2" "sized_xa e rm2"
        "xa_elems rm2 = (xs @ ys @ [r\<lparr>key_max := key - 1\<rparr>]) @ r # zs"
      using xa.put_at [OF r1(2,3)] by auto
    obtain rm3 where r3: "storeXA rm2 (int (length (xs @ ys @ [r]))) (r\<lparr>key_min := key\<rparr>) = Inr rm3" "sized_xa e rm3"
        "xa_elems rm3 = (xs @ ys @ [r\<lparr>key_max := key - 1\<rparr>]) @ r\<lparr>key_min := key\<rparr> # zs"
      using xa.put_at [OF r2(2,3)] by auto
    have "elemXA rm1 (int (length (xs @ ys))) = Inr r" by (rule xa.get_at [OF r1(2,3)])
    moreover have "elemXA rm2 (int (length (xs @ ys @ [r]))) = Inr r" using xa.get_at [OF r2(2,3)] by simp
    moreover have "int (length (xs @ ys)) + 1 = int (length (xs @ ys @ [r]))" by simp
    ultimately have "split_at rm key = Inr rm3"
      using False f g r1(1) r2(1) r3(1) by (simp only: split_at_def bindR_Inr if_False)
    with r3 split_ranges [OF assms(6) [unfolded rs(1)] rs(2) False] rs(1) show ?thesis
      by (intro exI [of _ rm3] exI [of _ "ys @ [r\<lparr>key_max := key - 1\<rparr>]"] exI [of _ "r\<lparr>key_min := key\<rparr> # zs"]) auto
  qed
qed

section \<open>Merging neighbours\<close>

fun merge :: "Range list \<Rightarrow> Range list" where
  "merge (r0 # r1 # rs) =
     (if rng_val r0 = rng_val r1 then merge (r0\<lparr>key_max := key_max r1\<rparr> # rs) else r0 # merge (r1 # rs))"
| "merge rs = rs"

lemma merge_Cons: "\<exists>m rs'. merge (r # rs) = m # rs' \<and> rng_val m = rng_val r"
proof (induction "r # rs" arbitrary: r rs rule: merge.induct)
  case (1 r0 r1 rs)
  then show ?case by auto
qed simp

lemma merge_distinct: "successively (\<lambda>a b. rng_val a \<noteq> rng_val b) (merge rs)"
proof (induction rs rule: merge.induct)
  case (1 r0 r1 rs)
  then show ?case using merge_Cons [of r1 rs] by (auto simp: successively_Cons)
qed auto

lemma merge_length: "length (merge rs) \<le> length rs"
  by (induction rs rule: merge.induct) auto

lemma merge_covers: "covers k rs m \<Longrightarrow> covers k (merge rs) m"
proof (induction rs arbitrary: k rule: merge.induct)
  case (1 r0 r1 rs)
  then show ?case by (auto simp: word_le_nat_alt)
qed auto

lemma merge_map: "covers k rs m \<Longrightarrow> rm_map (merge rs) = rm_map rs"
proof (induction rs arbitrary: k rule: merge.induct)
  case (1 r0 r1 rs)
  show ?case
  proof (cases "rng_val r0 = rng_val r1")
    case True
    let ?r = "r0\<lparr>key_max := key_max r1\<rparr>"
    have c: "covers k (?r # rs) m" using 1(3) by (auto simp: word_le_nat_alt)
    have "inside q ?r \<longleftrightarrow> inside q r0 \<or> inside q r1" for q using 1(3) by (auto simp: inside_nat word_le_nat_alt)
    then have "rm_map (?r # rs) = rm_map (r0 # r1 # rs)" using True by (auto simp: rm_map_def)
    with 1(1) [OF True c] True show ?thesis by simp
  next
    case False
    have "covers (unat (key_max r0) + 1) (r1 # rs) m" using 1(3) by simp
    with 1(2) [OF False this] False show ?thesis by (auto simp: rm_map_def fun_eq_iff)
  qed
qed auto

lemma preen_ok:
  "sized_xa e rm \<Longrightarrow> xa_elems rm = xs @ rs \<Longrightarrow>
   \<exists>rm'. preen rm (int (length xs)) = Inr rm' \<and> sized_xa e rm' \<and> xa_elems rm' = xs @ merge rs"
proof (induction rs arbitrary: rm xs rule: merge.induct)
  case (1 r0 r1 rs)
  have s: "int (length xs) < sizeXA rm - 1" using xa.size_law [OF 1(3)] 1(4) by simp
  have i: "int (length xs) + 1 = int (length (xs @ [r0]))" "int (length xs) - 1 + 1 = int (length xs)" by simp_all
  have g: "elemXA rm (int (length xs)) = Inr r0" "elemXA rm (int (length (xs @ [r0]))) = Inr r1"
    using xa.get_at [OF 1(3), of xs r0] xa.get_at [OF 1(3), of "xs @ [r0]" r1] 1(4) by auto
  show ?case
  proof (cases "rng_val r0 = rng_val r1")
    case False
    then have "preen rm (int (length xs)) = preen rm (int (length (xs @ [r0])))"
      using s g i by (subst preen.simps) (simp del: length_append)
    with False 1(2) [OF False 1(3), of "xs @ [r0]"] 1(4) show ?thesis by simp
  next
    case True
    let ?r = "r0\<lparr>key_max := key_max r1\<rparr>"
    obtain rm1 where r1: "storeXA rm (int (length xs)) ?r = Inr rm1" "sized_xa e rm1" "xa_elems rm1 = (xs @ [?r]) @ r1 # rs"
      using xa.put_at [OF 1(3), of xs r0 "r1 # rs" ?r] 1(4) by auto
    obtain rm2 where r2: "removeIndexXA rm1 (int (length (xs @ [r0]))) = Inr rm2" "sized_xa e rm2" "xa_elems rm2 = xs @ ?r # rs"
      using xa.del_at [OF r1(2,3)] by auto
    have "preen rm (int (length xs)) = preen rm2 (int (length xs))"
      using True s g i r1(1) r2(1) by (subst preen.simps) (simp del: length_append)
    with 1(1) [OF True r2(2,3)] True show ?thesis by simp
  qed
qed (use xa.size_law in \<open>subst preen.simps, fastforce\<close>)+

section \<open>Binding an interval\<close>

definition rebind :: "uword64 \<Rightarrow> Range \<Rightarrow> Range" where
  "rebind v r = r\<lparr>rng_val := v\<rparr>"

lemma covers_rebind: "covers k (map (rebind v) rs) m = covers k rs m"
  by (induction rs arbitrary: k) (auto simp: rebind_def)

lemma rm_map_rebind:
  assumes "covers k rs m"
  shows "rm_map (map (rebind v) rs) key = (if k \<le> unat key \<and> unat key < m then Some v else None)"
proof (cases "k \<le> unat key \<and> unat key < m")
  case True
  then obtain xs r ys where r: "rs = xs @ r # ys" "inside key r" using covers_split [OF assms] by blast
  have "rebind v r \<in> set (map (rebind v) rs)" "inside key (rebind v r)" using r by (auto simp: inside_def rebind_def)
  then have "find (inside key) (map (rebind v) rs) \<noteq> None" by (meson find_None_iff)
  then obtain r' where r': "find (inside key) (map (rebind v) rs) = Some r'" by auto
  then have "r' \<in> rebind v ` set rs" using find_SomeD [OF r'] by auto
  with r' True show ?thesis by (auto simp: rm_map_def rebind_def)
next
  case False
  then show ?thesis using rm_map_outside [of k "map (rebind v) rs" m key] assms by (auto simp: covers_rebind)
qed

lemma covers_ends:
  assumes "covers k rs m" "k < m"
  obtains r rs' rs'' r'' where "rs = r # rs'" "unat (key_min r) = k" "inside (key_min r) r"
    "rs = rs'' @ [r'']" "Suc (unat (key_max r'')) = m" "inside (key_max r'') r''"
proof -
  from assms have "rs \<noteq> []" by auto
  then obtain r rs' where a: "rs = r # rs'" by (cases rs) auto
  from \<open>rs \<noteq> []\<close> obtain rs'' r'' where b: "rs = rs'' @ [r'']" by (cases rs rule: rev_cases) auto
  have "r \<in> set rs" "r'' \<in> set rs" using a b by (metis list.set_intros(1), metis in_set_conv_decomp)
  then have "key_min r \<le> key_max r" "key_min r'' \<le> key_max r''" using covers_ordered [OF assms(1)] by blast+
  moreover have "unat (key_min r) = k" using assms(1) a by simp
  moreover have "Suc (unat (key_max r'')) = m" using assms(1) unfolding b by (auto simp: covers_append)
  ultimately show thesis using that [OF a _ _ b] by (simp add: inside_def)
qed

lemma fits_ranges: "length (xa_elems rm) \<le> 2 ^ 56 + 2 \<Longrightarrow> fits_xa sizeof_Range rm \<and> int (length (xa_elems rm)) < 2 ^ 62"
  by (simp add: fits_xa_def sizeof_Range_def)

lemma unat_UWORD_MAX: "unat UWORD_MAX = 2 ^ 64 - 1"
  by (simp add: UWORD_MAX_def unsigned_minus_1_eq_mask mask_eq_exp_minus_1)

text \<open>The two splits cut the ranges of the interval out of the others.\<close>

lemma cut_interval:
  assumes "rm_inv rm" "length (xa_elems rm) \<le> 2 ^ 56" "kmin \<le> kmax"
  shows "\<exists>rm1 rm2 xs ys zs. split_at rm kmin = Inr rm1 \<and> (if kmax < UWORD_MAX then split_at rm1 (kmax + 1) else Inr rm1) = Inr rm2
    \<and> sized_xa sizeof_Range rm2 \<and> xa_elems rm2 = xs @ ys @ zs \<and> covers 0 xs (unat kmin) \<and> covers (unat kmin) ys (Suc (unat kmax))
    \<and> covers (Suc (unat kmax)) zs (2 ^ 64) \<and> rm_map (xs @ ys @ zs) = rm_map (xa_elems rm) \<and> length (xs @ ys @ zs) \<le> length (xa_elems rm) + 2"
proof -
  have i: "sized_xa sizeof_Range rm" "covers 0 (xa_elems rm) (2 ^ 64)" using assms(1) by (auto simp: rm_inv_def)
  have l: "fits_xa sizeof_Range rm" "int (length (xa_elems rm)) < 2 ^ 62" using fits_ranges [of rm] assms(2) by auto
  obtain rm1 xs rs where r1: "split_at rm kmin = Inr rm1" "sized_xa sizeof_Range rm1" "xa_elems rm1 = xs @ rs" "covers 0 xs (unat kmin)"
      "covers (unat kmin) rs (2 ^ 64)" "rm_map (xs @ rs) = rm_map (xa_elems rm)" "length (xs @ rs) \<le> Suc (length (xa_elems rm))"
    using split_at_ok [OF i(1) l, of "[]" "xa_elems rm" 0 kmin] i(2) by auto
  show ?thesis
  proof (cases "kmax < UWORD_MAX")
    case True
    have m: "unat (kmax + 1) = Suc (unat kmax)"
      using True unat_add_lem [of kmax 1] by (simp add: unat_UWORD_MAX word_less_nat_alt)
    have l1: "fits_xa sizeof_Range rm1" "int (length (xa_elems rm1)) < 2 ^ 62" using fits_ranges [of rm1] r1(3,7) assms(2) by auto
    obtain rm2 ys zs where r2: "split_at rm1 (kmax + 1) = Inr rm2" "sized_xa sizeof_Range rm2" "xa_elems rm2 = xs @ ys @ zs"
        "covers (unat kmin) ys (Suc (unat kmax))" "covers (Suc (unat kmax)) zs (2 ^ 64)" "rm_map (ys @ zs) = rm_map rs"
        "length (ys @ zs) \<le> Suc (length rs)"
      using split_at_ok [OF r1(2) l1 r1(3-5), of "kmax + 1"] m assms(3) by (auto simp: word_le_nat_alt)
    have "rm_map (xs @ ys @ zs) = rm_map (xs @ rs)" by (rule ext) (simp only: rm_map_append [of xs] r2(6))
    with r1 r2 True show ?thesis
      by (intro exI [of _ rm1] exI [of _ rm2] exI [of _ xs] exI [of _ ys] exI [of _ zs]) auto
  next
    case False
    then have "Suc (unat kmax) = 2 ^ 64"
      using unat_bound [of kmax] by (simp add: unat_UWORD_MAX word_less_nat_alt)
    with False r1 show ?thesis
      by (intro exI [of _ rm1] exI [of _ rm1] exI [of _ xs] exI [of _ rs] exI [of _ "[]"]) auto
  qed
qed

lemma bindRangeMap_ok:
  assumes "rm_inv rm" "length (xa_elems rm) \<le> 2 ^ 56" "kmin \<le> kmax"
  shows "\<exists>rm'. bindRangeMap rm kmin kmax v = Inr rm' \<and> rm_inv rm' \<and> successively (\<lambda>a b. rng_val a \<noteq> rng_val b) (xa_elems rm')
    \<and> rm_map (xa_elems rm') = (\<lambda>key. if kmin \<le> key \<and> key \<le> kmax then Some v else rm_map (xa_elems rm) key)
    \<and> length (xa_elems rm') \<le> length (xa_elems rm) + 2"
proof -
  obtain rm1 rm2 xs ys zs where c: "split_at rm kmin = Inr rm1" "(if kmax < UWORD_MAX then split_at rm1 (kmax + 1) else Inr rm1) = Inr rm2"
      "sized_xa sizeof_Range rm2" "xa_elems rm2 = xs @ ys @ zs" "covers 0 xs (unat kmin)" "covers (unat kmin) ys (Suc (unat kmax))"
      "covers (Suc (unat kmax)) zs (2 ^ 64)" "rm_map (xs @ ys @ zs) = rm_map (xa_elems rm)" "length (xs @ ys @ zs) \<le> length (xa_elems rm) + 2"
    using cut_interval [OF assms] by blast
  have all: "covers 0 (xa_elems rm2) (2 ^ 64)" using c(4-7) by (auto simp: covers_append)
  have l: "int (length (xa_elems rm2)) < 2 ^ 62" using fits_ranges [of rm2] c(4,9) assms(2) by auto
  have "unat kmin < Suc (unat kmax)" using assms(3) by (simp add: word_le_nat_alt)
  from covers_ends [OF c(6) this] obtain r rs' rs'' r'' where e: "ys = r # rs'" "unat (key_min r) = unat kmin" "inside (key_min r) r"
      "ys = rs'' @ [r'']" "unat (key_max r'') = unat kmax" "inside (key_max r'') r''"
    by (metis nat.inject)
  have k: "key_min r = kmin" "key_max r'' = kmax" using e by (auto simp: word_unat_eq_iff)
  have f1: "rm_find rm2 kmin = Inr (int (length xs))"
    using e(1,3) k(1) c(4) by (intro rm_find_ok [OF c(3) all _ _ l]) auto
  have f2: "rm_find rm2 kmax = Inr (int (length (xs @ rs'')))"
    using e(4,6) k(2) c(4) by (intro rm_find_ok [OF c(3) all _ _ l]) auto
  have ix: "int (length (xs @ rs'')) = int (length xs + length ys) - 1" using e(4) by simp
  obtain rm3 where u: "foldR (\<lambda>rm i. bindR (elemXA rm i) (\<lambda>rng. storeXA rm i (rebind v rng))) rm2 [int (length xs)..int (length xs + length ys) - 1] = Inr rm3"
      "sized_xa sizeof_Range rm3" "xa_elems rm3 = [] @ xs @ map (rebind v) ys @ zs"
    using xa.update_loop [OF c(3,4), of "rebind v"] by auto
  obtain rm4 where p: "preen rm3 0 = Inr rm4" "sized_xa sizeof_Range rm4" "xa_elems rm4 = merge (xs @ map (rebind v) ys @ zs)"
    using preen_ok [OF u(2,3)] by auto
  have "bindRangeMap rm kmin kmax v = Inr rm4"
    using assms(3) c(1,2) f1 f2 ix u(1) p(1) by (simp add: bindRangeMap_def rebind_def del: length_append of_nat_add)
  moreover have n: "covers 0 (xs @ map (rebind v) ys @ zs) (2 ^ 64)" using c(5-7) covers_rebind by (auto simp: covers_append)
  moreover have "rm_map (xs @ map (rebind v) ys @ zs) key = (if kmin \<le> key \<and> key \<le> kmax then Some v else rm_map (xa_elems rm) key)" for key
  proof -
    have "covers (unat kmin) (map (rebind v) ys @ zs) (2 ^ 64)" "covers (unat kmin) (ys @ zs) (2 ^ 64)"
      using c(6,7) covers_rebind by (auto simp: covers_append)
    note seg = rm_map_seg [OF c(5) this(1), of key] rm_map_seg [OF c(5) this(2), of key]
    have "covers (unat kmin) (map (rebind v) ys) (Suc (unat kmax))" using c(6) by (simp add: covers_rebind)
    note seg2 = rm_map_seg [OF this c(7), of key] rm_map_seg [OF c(6,7), of key] rm_map_rebind [OF c(6), of v key]
    show ?thesis using seg seg2 c(8) [THEN fun_cong, of key] by (auto simp: word_le_nat_alt)
  qed
  ultimately show ?thesis
    using p(2,3) merge_covers [OF n] merge_map [OF n] merge_distinct merge_length [of "xs @ map (rebind v) ys @ zs"] c(9)
    by (auto simp: rm_inv_def fun_eq_iff)
qed

section \<open>Looking up\<close>

abbreviation distinct_neighbours :: "Range list \<Rightarrow> bool" where
  "distinct_neighbours \<equiv> successively (\<lambda>a b. rng_val a \<noteq> rng_val b)"

lemma rm_map_at: "covers k (xs @ r # ys) m \<Longrightarrow> inside key r \<Longrightarrow> rm_map (xs @ r # ys) key = Some (rng_val r)"
proof -
  assume a: "covers k (xs @ r # ys) m" "inside key r"
  have "\<not> inside key x" if "x \<in> set xs" for x
    using covers_before [OF a(1) that] a(2) by (auto simp: inside_nat)
  then have "find (inside key) xs = None" by (auto simp: find_None_iff)
  with a(2) show ?thesis by (simp add: rm_map_def find_append)
qed

lemma lookupRangeMap_ok:
  assumes "rm_inv rm" "length (xa_elems rm) \<le> 2 ^ 56"
  shows "\<exists>kmin kmax v. lookupRangeMap rm key = Inr (kmin, kmax, v) \<and> kmin \<le> key \<and> key \<le> kmax
    \<and> (\<forall>k. kmin \<le> k \<and> k \<le> kmax \<longrightarrow> rm_map (xa_elems rm) k = Some v)
    \<and> (distinct_neighbours (xa_elems rm) \<longrightarrow> (kmin \<noteq> 0 \<longrightarrow> rm_map (xa_elems rm) (kmin - 1) \<noteq> Some v)
        \<and> (kmax \<noteq> UWORD_MAX \<longrightarrow> rm_map (xa_elems rm) (kmax + 1) \<noteq> Some v))"
proof -
  have i: "sized_xa sizeof_Range rm" "covers 0 (xa_elems rm) (2 ^ 64)" using assms(1) by (auto simp: rm_inv_def)
  obtain xs r ys where r: "xa_elems rm = xs @ r # ys" "inside key r" using covers_split [OF i(2), of key] unat_bound [of key] by auto
  note c = i(2) [unfolded r(1)]
  have "int (length (xa_elems rm)) < 2 ^ 62" using fits_ranges [of rm] assms(2) by auto
  from rm_find_ok [OF i r this] xa.get_at [OF i(1) r(1)]
  have "lookupRangeMap rm key = Inr (key_min r, key_max r, rng_val r)" by (simp add: lookupRangeMap_def)
  moreover have "rm_map (xa_elems rm) (key_min r - 1) \<noteq> Some (rng_val r)"
    if d: "distinct_neighbours (xa_elems rm)" "key_min r \<noteq> 0"
  proof -
    have p: "Suc (unat (key_min r - 1)) = unat (key_min r)" using d(2) by (rule unat_pred)
    have "covers 0 xs (unat (key_min r))" using c by (auto simp: covers_append)
    moreover from this d(2) have "0 < unat (key_min r)" by (simp add: unat_gt_0)
    ultimately obtain q qs where q: "xs = qs @ [q]" "Suc (unat (key_max q)) = unat (key_min r)" "inside (key_max q) q"
      by (metis covers_ends)
    then have "key_max q = key_min r - 1" using p by (simp add: word_unat_eq_iff)
    moreover have "rm_map (xa_elems rm) (key_max q) = Some (rng_val q)" using rm_map_at [of 0 qs q "r # ys" "2 ^ 64"] c q r(1) by simp
    moreover have "rng_val q \<noteq> rng_val r" using d(1) r(1) q(1) by (simp add: successively_append_iff)
    ultimately show ?thesis by simp
  qed
  moreover have "rm_map (xa_elems rm) (key_max r + 1) \<noteq> Some (rng_val r)"
    if d: "distinct_neighbours (xa_elems rm)" "key_max r \<noteq> UWORD_MAX"
  proof -
    have "unat (key_max r) \<noteq> 2 ^ 64 - 1" using d(2) unat_UWORD_MAX by (metis word_unat_eq_iff)
    then have m: "Suc (unat (key_max r)) < 2 ^ 64" using unat_bound [of "key_max r"] by simp
    then have p: "unat (key_max r + 1) = Suc (unat (key_max r))" using unat_add_lem [of "key_max r" 1] by simp
    have "covers (Suc (unat (key_max r))) ys (2 ^ 64)" using c by (auto simp: covers_append)
    with m obtain q qs where q: "ys = q # qs" "unat (key_min q) = Suc (unat (key_max r))" "inside (key_min q) q"
      by (metis covers_ends)
    then have "key_min q = key_max r + 1" using p by (simp add: word_unat_eq_iff)
    moreover have "rm_map (xa_elems rm) (key_min q) = Some (rng_val q)" using rm_map_at [of 0 "xs @ [r]" q qs "2 ^ 64"] c q r(1) by simp
    moreover have "rng_val q \<noteq> rng_val r" using d(1) r(1) q(1) by (auto simp: successively_append_iff successively_Cons)
    ultimately show ?thesis by simp
  qed
  moreover have "rm_map (xa_elems rm) k = Some (rng_val r)" if "key_min r \<le> k" "k \<le> key_max r" for k
    using rm_map_at [OF c, of k] r(1) that by (simp add: inside_def)
  ultimately show ?thesis using r(2) by (intro exI [of _ "key_min r"] exI [of _ "key_max r"] exI [of _ "rng_val r"]) (auto simp: inside_def)
qed

lemma newRangeMap_ok:
  "\<exists>rm. newRangeMap v = Inr rm \<and> rm_inv rm \<and> rm_map (xa_elems rm) = (\<lambda>key. Some v) \<and> length (xa_elems rm) = 1
     \<and> distinct_neighbours (xa_elems rm)"
proof -
  let ?r = "\<lparr>key_min = UWORD_MIN, key_max = UWORD_MAX, rng_val = v\<rparr>"
  let ?xa = "\<lparr>xa_cmpFn = None, xa_elemSzB = sizeof_Range, xa_arr = None, xa_usedsizeE = 0, xa_totsizeE = 0, xa_sorted = False\<rparr> :: Range XArray"
  have n: "newXA sizeof_Range = Inr ?xa" by (simp add: newXA_def sizeof_Range_def)
  have e: "xa_elems ?xa = []" "sized_xa sizeof_Range ?xa" "fits_xa sizeof_Range ?xa"
    by (simp_all add: xa_elems_def xa_slots_def sized_xa_def wf_xa_def fits_xa_def sizeof_Range_def)
  obtain rm where a: "addToXA ?xa ?r = Inr (rm, 0)" "sized_xa sizeof_Range rm" "xa_elems rm = [?r]"
    using xa.add_law [OF e(2,3), of ?r] e(1) by auto
  have "newRangeMap v = Inr rm" using n a xa.size_law [OF a(2)] by (simp add: newRangeMap_def)
  moreover have "covers 0 (xa_elems rm) (2 ^ 64)" using a(3) unat_UWORD_MAX by (simp add: UWORD_MIN_def)
  moreover have "inside key ?r" for key using unat_bound [of key] unat_UWORD_MAX by (simp add: inside_nat UWORD_MIN_def)
  ultimately show ?thesis using a by (auto simp: rm_inv_def rm_map_def)
qed

section \<open>Programs of bindings\<close>

definition bind_spec :: "(uword64 \<rightharpoonup> uword64) \<Rightarrow> uword64 \<times> uword64 \<times> uword64 \<Rightarrow> (uword64 \<rightharpoonup> uword64)" where
  "bind_spec m = (\<lambda>(kmin, kmax, v) key. if kmin \<le> key \<and> key \<le> kmax then Some v else m key)"

definition bind_step :: "RangeMap \<Rightarrow> uword64 \<times> uword64 \<times> uword64 \<Rightarrow> RangeMap res" where
  "bind_step rm = (\<lambda>(kmin, kmax, v). bindRangeMap rm kmin kmax v)"

lemma binds_ok:
  "rm_inv rm \<Longrightarrow> distinct_neighbours (xa_elems rm) \<Longrightarrow> \<forall>(kmin, kmax, v)\<in>set bs. kmin \<le> kmax \<Longrightarrow>
   length (xa_elems rm) + 2 * length bs \<le> 2 ^ 56 \<Longrightarrow>
   \<exists>rm'. foldR bind_step rm bs = Inr rm' \<and> rm_inv rm' \<and> distinct_neighbours (xa_elems rm')
     \<and> rm_map (xa_elems rm') = foldl bind_spec (rm_map (xa_elems rm)) bs \<and> length (xa_elems rm') \<le> 2 ^ 56"
proof (induction bs arbitrary: rm)
  case (Cons b bs)
  obtain kmin kmax v where b: "b = (kmin, kmax, v)" by (cases b)
  with Cons.prems obtain rm1 where r: "bindRangeMap rm kmin kmax v = Inr rm1" "rm_inv rm1" "distinct_neighbours (xa_elems rm1)"
      "rm_map (xa_elems rm1) = bind_spec (rm_map (xa_elems rm)) b" "length (xa_elems rm1) \<le> length (xa_elems rm) + 2"
    using bindRangeMap_ok [OF Cons.prems(1), of kmin kmax v] by (auto simp: bind_spec_def)
  with Cons.IH [OF r(2,3)] Cons.prems(3,4) b show ?case by (simp add: bind_step_def)
qed simp

text \<open>The ranges are determined by the map.\<close>

lemma covers_values: "covers k (r # rs) m \<Longrightarrow> rm_map (r # rs) (key_min r) = Some (rng_val r)"
  using rm_map_at [of k "[]" r rs m "key_min r"] by (simp add: inside_def)

lemma ends_not_before:
  assumes "covers k (r # rs) m" "covers k (r' # rs') m" "distinct_neighbours (r # rs)" "rm_map (r # rs) = rm_map (r' # rs')"
  shows "\<not> unat (key_max r) < unat (key_max r')"
proof
  assume l: "unat (key_max r) < unat (key_max r')"
  have "unat (key_max r') < m" using covers_le [of "unat (key_max r') + 1" rs' m] assms(2) by simp
  then have "covers (Suc (unat (key_max r))) rs m" "Suc (unat (key_max r)) < m" using assms(1) l by simp_all
  then obtain q qs where q: "rs = q # qs" "unat (key_min q) = Suc (unat (key_max r))" "inside (key_min q) q"
    by (rule covers_ends)
  have "rm_map (r # rs) (key_min q) = Some (rng_val q)" using rm_map_at [of k "[r]" q qs m] assms(1) q by simp
  moreover have "key_min r' = key_min r" using assms(1,2) by (simp add: word_unat_eq_iff)
  then have "rm_map (r' # rs') (key_min q) = Some (rng_val r')" "rng_val r' = rng_val r"
    using rm_map_at [of k "[]" r' rs' m "key_min q"] assms q(2) l covers_values [OF assms(1)] covers_values [OF assms(2)]
    by (auto simp: inside_nat word_le_nat_alt)
  ultimately have "rng_val q = rng_val r" using assms(4) by simp
  then show False using assms(3) q(1) by simp
qed

lemma ranges_unique:
  "covers k rs m \<Longrightarrow> covers k rs' m \<Longrightarrow> distinct_neighbours rs \<Longrightarrow> distinct_neighbours rs' \<Longrightarrow> rm_map rs = rm_map rs' \<Longrightarrow> rs = rs'"
proof (induction rs arbitrary: k rs')
  case Nil
  then show ?case using covers_le [of _ _ k] by (cases rs') (fastforce simp: word_le_nat_alt)+
next
  case (Cons r rs)
  have "rs' \<noteq> []" using Cons.prems(1,2) covers_le [of "unat (key_max r) + 1" rs m] by (auto simp: word_le_nat_alt)
  then obtain r' rs2 where r': "rs' = r' # rs2" by (cases rs') auto
  note p = Cons.prems [unfolded r']
  have mx: "unat (key_max r) = unat (key_max r')"
    using ends_not_before [OF p(1,2,3,5)] ends_not_before [OF p(2,1,4) p(5) [symmetric]] by simp
  have mn: "key_min r = key_min r'" using p(1,2) by (simp add: word_unat_eq_iff)
  have "rng_val r = rng_val r'" using covers_values [OF p(1)] covers_values [OF p(2)] p(5) mn by simp
  with mx mn have "r = r'" by (simp add: word_unat_eq_iff)
  moreover have "rm_map rs = rm_map rs2"
  proof (rule ext)
    fix key
    show "rm_map rs key = rm_map rs2 key"
    proof (cases "unat key \<le> unat (key_max r)")
      case True
      then show ?thesis using rm_map_outside [of "unat (key_max r) + 1" _ m key] p(1,2) mx by simp
    next
      case False
      with p(5) [THEN fun_cong, of key] \<open>r = r'\<close> show ?thesis by (simp add: rm_map_def inside_nat)
    qed
  qed
  moreover have "distinct_neighbours rs" "distinct_neighbours rs2" using p(3,4) by (auto simp: successively_Cons)
  ultimately show ?case using Cons.IH [of "unat (key_max r) + 1" rs2] p mx r' by simp
qed

end
