(* ===== verification/Core_Sort.thy ===== *)
theory Core_Sort
  imports Core_Lookup "HOL-Library.Multiset"
begin

text \<open>
  The sort function of the core: \<open>VG_(ssort)\<close> and the quicksort of Bentley and McIlroy behind it
  (\<open>src/coregrind/m_libcbase.c\<close>), and \<open>VG_(sortXA)\<close>, which sorts an extensible array with it.

  The array in memory is a list of elements, and the pointers into it are indices of elements. An access outside
  of the list is an error. The code exchanges elements, or blocks of them, by words or bytes; the blocks do not overlap, so
  here that is an exchange element by element. The recursion of \<open>bm_qsort\<close> depends on the comparison function, so it has
  fuel, and running out of it is \<open>NoReturn\<close>; as much fuel as there are elements is enough
  (\<open>bm_qsort_ok\<close>) for a comparison function that gives an order.
\<close>

unbundle bit_operations_syntax

section \<open>The code\<close>

definition rd :: "'a list \<Rightarrow> int \<Rightarrow> 'a res" where
  "rd xs i = (if 0 \<le> i \<and> i < int (length xs) then Inr (xs ! nat i) else Inl BufOverflow)"

definition cmp_at :: "('a \<Rightarrow> 'a \<Rightarrow> int) \<Rightarrow> 'a list \<Rightarrow> int \<Rightarrow> int \<Rightarrow> int res" where
  "cmp_at cmp xs i j = bindR (rd xs i) (\<lambda>x. bindR (rd xs j) (\<lambda>y. Inr (cmp x y)))"

definition bm_swap :: "'a list \<Rightarrow> int \<Rightarrow> int \<Rightarrow> 'a list res" where
  "bm_swap xs i j = bindR (rd xs i) (\<lambda>x. bindR (rd xs j) (\<lambda>y. Inr (xs[nat i := y, nat j := x])))"

definition bm_swapfunc :: "'a list \<Rightarrow> int \<Rightarrow> int \<Rightarrow> int \<Rightarrow> 'a list res" where
  "bm_swapfunc xs a b n = foldR (\<lambda>xs i. bm_swap xs (a + i) (b + i)) xs [0..n - 1]"

definition bm_med3 :: "('a \<Rightarrow> 'a \<Rightarrow> int) \<Rightarrow> 'a list \<Rightarrow> int \<Rightarrow> int \<Rightarrow> int \<Rightarrow> int res" where
  "bm_med3 cmp xs a b c =
     bindR (cmp_at cmp xs a b) (\<lambda>r.
     if r < 0
     then bindR (cmp_at cmp xs b c) (\<lambda>r. if r < 0 then Inr b else
          bindR (cmp_at cmp xs a c) (\<lambda>r. if r < 0 then Inr c else Inr a))
     else bindR (cmp_at cmp xs b c) (\<lambda>r. if r > 0 then Inr b else
          bindR (cmp_at cmp xs a c) (\<lambda>r. if r > 0 then Inr c else Inr a)))"

text \<open>The sort of fewer than seven elements.\<close>

function ins_loop :: "('a \<Rightarrow> 'a \<Rightarrow> int) \<Rightarrow> int \<Rightarrow> 'a list \<Rightarrow> int \<Rightarrow> 'a list res" where
  "ins_loop cmp a xs pl =
     (if pl > a
      then bindR (cmp_at cmp xs (pl - 1) pl) (\<lambda>r.
           if r > 0 then bindR (bm_swap xs pl (pl - 1)) (\<lambda>xs. ins_loop cmp a xs (pl - 1)) else Inr xs)
      else Inr xs)"
  by pat_completeness auto

termination ins_loop
  by (relation "measure (\<lambda>(cmp, a, xs, pl). nat (pl - a))") auto

text \<open>The pivot: the first element of the segment, or a copy of the chosen element when elements are single words.\<close>

datatype 'a pivot = PvAt int | PvVal 'a

fun pv_read :: "'a list \<Rightarrow> 'a pivot \<Rightarrow> 'a res" where
  "pv_read xs (PvAt i) = rd xs i"
| "pv_read xs (PvVal v) = Inr v"

definition choose_pivot :: "('a \<Rightarrow> 'a \<Rightarrow> int) \<Rightarrow> 'a list \<Rightarrow> int \<Rightarrow> int \<Rightarrow> int res" where
  "choose_pivot cmp xs a n =
     (let pm = a + n div 2 in
      if n > 7
      then let pl = a; pn = a + (n - 1) in
           if n > 40
           then let s = n div 8 in
                bindR (bm_med3 cmp xs pl (pl + s) (pl + 2 * s)) (\<lambda>pl.
                bindR (bm_med3 cmp xs (pm - s) pm (pm + s)) (\<lambda>pm.
                bindR (bm_med3 cmp xs (pn - 2 * s) (pn - s) pn) (\<lambda>pn.
                bm_med3 cmp xs pl pm pn)))
           else bm_med3 cmp xs pl pm pn
      else Inr pm)"

definition pv_init :: "bool \<Rightarrow> 'a list \<Rightarrow> int \<Rightarrow> int \<Rightarrow> ('a list \<times> 'a pivot) res" where
  "pv_init words xs a pm =
     (if words then bindR (rd xs pm) (\<lambda>v. Inr (xs, PvVal v))
      else bindR (bm_swap xs a pm) (\<lambda>xs. Inr (xs, PvAt a)))"

function left_loop :: "('a \<Rightarrow> 'a \<Rightarrow> int) \<Rightarrow> 'a pivot \<Rightarrow> 'a list \<Rightarrow> int \<Rightarrow> int \<Rightarrow> int \<Rightarrow> ('a list \<times> int \<times> int) res" where
  "left_loop cmp pv xs pa pb pc =
     (if pb \<le> pc
      then bindR (rd xs pb) (\<lambda>x. bindR (pv_read xs pv) (\<lambda>v.
           if cmp x v \<le> 0
           then if cmp x v = 0
                then bindR (bm_swap xs pa pb) (\<lambda>xs. left_loop cmp pv xs (pa + 1) (pb + 1) pc)
                else left_loop cmp pv xs pa (pb + 1) pc
           else Inr (xs, pa, pb)))
      else Inr (xs, pa, pb))"
  by pat_completeness auto

termination left_loop
  by (relation "measure (\<lambda>(cmp, pv, xs, pa, pb, pc). nat (pc - pb + 1))") auto

function right_loop :: "('a \<Rightarrow> 'a \<Rightarrow> int) \<Rightarrow> 'a pivot \<Rightarrow> 'a list \<Rightarrow> int \<Rightarrow> int \<Rightarrow> int \<Rightarrow> ('a list \<times> int \<times> int) res" where
  "right_loop cmp pv xs pb pc pd =
     (if pc \<ge> pb
      then bindR (rd xs pc) (\<lambda>x. bindR (pv_read xs pv) (\<lambda>v.
           if cmp x v \<ge> 0
           then if cmp x v = 0
                then bindR (bm_swap xs pc pd) (\<lambda>xs. right_loop cmp pv xs pb (pc - 1) (pd - 1))
                else right_loop cmp pv xs pb (pc - 1) pd
           else Inr (xs, pc, pd)))
      else Inr (xs, pc, pd))"
  by pat_completeness auto

termination right_loop
  by (relation "measure (\<lambda>(cmp, pv, xs, pb, pc, pd). nat (pc - pb + 1))") auto

declare ins_loop.simps [simp del] left_loop.simps [simp del] right_loop.simps [simp del]

lemma left_loop_mono: "left_loop cmp pv xs pa pb pc = Inr (xs', pa', pb') \<Longrightarrow> pb \<le> pb'"
proof (induction cmp pv xs pa pb pc arbitrary: xs' pa' pb' rule: left_loop.induct)
  case (1 cmp pv xs pa pb pc)
  from 1(3) consider "pb' = pb"
    | x v ys where "pb \<le> pc" "rd xs pb = Inr x" "pv_read xs pv = Inr v" "cmp x v \<le> 0" "cmp x v = 0" "bm_swap xs pa pb = Inr ys"
        "left_loop cmp pv ys (pa + 1) (pb + 1) pc = Inr (xs', pa', pb')"
    | x v where "pb \<le> pc" "rd xs pb = Inr x" "pv_read xs pv = Inr v" "cmp x v \<le> 0" "cmp x v \<noteq> 0"
        "left_loop cmp pv xs pa (pb + 1) pc = Inr (xs', pa', pb')"
    by (subst (asm) left_loop.simps) (auto simp: res_iff split: if_splits)
  then show ?case by cases (use 1(1,2) in fastforce)+
qed

lemma right_loop_mono: "right_loop cmp pv xs pb pc pd = Inr (xs', pc', pd') \<Longrightarrow> pc' \<le> pc"
proof (induction cmp pv xs pb pc pd arbitrary: xs' pc' pd' rule: right_loop.induct)
  case (1 cmp pv xs pb pc pd)
  from 1(3) consider "pc' = pc"
    | x v ys where "pb \<le> pc" "rd xs pc = Inr x" "pv_read xs pv = Inr v" "0 \<le> cmp x v" "cmp x v = 0" "bm_swap xs pc pd = Inr ys"
        "right_loop cmp pv ys pb (pc - 1) (pd - 1) = Inr (xs', pc', pd')"
    | x v where "pb \<le> pc" "rd xs pc = Inr x" "pv_read xs pv = Inr v" "0 \<le> cmp x v" "cmp x v \<noteq> 0"
        "right_loop cmp pv xs pb (pc - 1) pd = Inr (xs', pc', pd')"
    by (subst (asm) right_loop.simps) (auto simp: res_iff split: if_splits)
  then show ?case by cases (use 1(1,2) in fastforce)+
qed

function part_loop :: "('a \<Rightarrow> 'a \<Rightarrow> int) \<Rightarrow> 'a pivot \<Rightarrow> 'a list \<Rightarrow> int \<Rightarrow> int \<Rightarrow> int \<Rightarrow> int \<Rightarrow> ('a list \<times> int \<times> int \<times> int \<times> int) res" where
  "part_loop cmp pv xs pa pb pc pd =
     bindR (left_loop cmp pv xs pa pb pc) (\<lambda>(xs, pa, pb).
     bindR (right_loop cmp pv xs pb pc pd) (\<lambda>(xs, pc, pd).
     if pb > pc then Inr (xs, pa, pb, pc, pd)
     else bindR (bm_swap xs pb pc) (\<lambda>xs. part_loop cmp pv xs pa (pb + 1) (pc - 1) pd)))"
  by pat_completeness auto

termination part_loop
  by (relation "measure (\<lambda>(cmp, pv, xs, pa, pb, pc, pd). nat (pc - pb + 1))") (auto dest!: left_loop_mono right_loop_mono)

declare part_loop.simps [simp del]

fun bm_qsort :: "nat \<Rightarrow> bool \<Rightarrow> ('a \<Rightarrow> 'a \<Rightarrow> int) \<Rightarrow> 'a list \<Rightarrow> int \<Rightarrow> int \<Rightarrow> 'a list res" where
  "bm_qsort 0 words cmp xs a n = Inl NoReturn"
| "bm_qsort (Suc k) words cmp xs a n =
     (if n < 7 then foldR (ins_loop cmp a) xs [a + 1..a + n - 1]
      else
        bindR (choose_pivot cmp xs a n) (\<lambda>pm.
        bindR (pv_init words xs a pm) (\<lambda>(xs, pv).
        bindR (part_loop cmp pv xs a a (a + (n - 1)) (a + (n - 1))) (\<lambda>(xs, pa, pb, pc, pd).
        let pn = a + n; s = min (pa - a) (pb - pa) in
        bindR (if s > 0 then bm_swapfunc xs a (pb - s) s else Inr xs) (\<lambda>xs.
        let s = min (pd - pc) (pn - pd - 1) in
        bindR (if s > 0 then bm_swapfunc xs pb (pn - s) s else Inr xs) (\<lambda>xs.
        let s1 = pb - pa; s2 = pd - pc in
        if s1 < s2
        then bindR (if s1 > 1 then bm_qsort k words cmp xs a s1 else Inr xs) (\<lambda>xs.
             if s2 > 1 then bm_qsort k words cmp xs (pn - s2) s2 else Inr xs)
        else bindR (if s2 > 1 then bm_qsort k words cmp xs (pn - s2) s2 else Inr xs) (\<lambda>xs.
             if s1 > 1 then bm_qsort k words cmp xs a s1 else Inr xs)))))))"

text \<open>How elements are exchanged: as one word (0), word by word (1) or byte by byte (2). The code computes this at
  every call from the address of the segment; \<open>swapinit_segment\<close> shows that it is the same for every segment.\<close>

definition bm_swapinit :: "64 word \<Rightarrow> 64 word \<Rightarrow> int" where
  "bm_swapinit a es = (if (a OR es) mod 8 \<noteq> 0 then 2 else if es > 8 then 1 else 0)"

definition ssort :: "nat \<Rightarrow> 64 word \<Rightarrow> 64 word \<Rightarrow> ('a \<Rightarrow> 'a \<Rightarrow> int) \<Rightarrow> 'a list \<Rightarrow> 'a list res" where
  "ssort fuel base elsize compar xs = bm_qsort fuel (bm_swapinit base elsize = 0) compar xs 0 (int (length xs))"

definition sortXA :: "nat \<Rightarrow> 64 word \<Rightarrow> 'a XArray \<Rightarrow> 'a XArray res" where
  "sortXA fuel base xa =
     bindR (optR (VAssert ''xa->cmpFn'') (xa_cmpFn xa)) (\<lambda>cmpFn.
     bindR (mapR (optR UninitRead) (take (nat (xa_usedsizeE xa)) (xa_slots xa))) (\<lambda>l.
     bindR (ssort fuel base (uword (xa_elemSzB xa)) cmpFn l) (\<lambda>l.
     Inr (xa\<lparr>xa_arr := map_option (\<lambda>sl. map Some l @ drop (length l) sl) (xa_arr xa), xa_sorted := True\<rparr>))))"

lemma swapinit_segment: "bm_swapinit (a + k * es) es = bm_swapinit a es"
proof -
  have m: "x mod 8 = take_bit 3 x" for x :: "64 word" by (simp add: take_bit_eq_mod)
  have d: "(x OR es) mod 8 = 0 \<longleftrightarrow> 8 dvd x \<and> 8 dvd es" for x :: "64 word"
    by (simp add: m take_bit_or or_eq_0_iff take_bit_eq_0_iff)
  show ?thesis by (auto simp: bm_swapinit_def d dvd_add_left_iff)
qed

section \<open>Permuting a segment\<close>

definition elt :: "'a list \<Rightarrow> int \<Rightarrow> 'a" where
  "elt xs i = xs ! nat i"

definition perm_in :: "int \<Rightarrow> int \<Rightarrow> 'a list \<Rightarrow> 'a list \<Rightarrow> bool" where
  "perm_in lo hi xs ys \<longleftrightarrow> length ys = length xs \<and> mset ys = mset xs
     \<and> (\<forall>i. 0 \<le> i \<and> i < int (length xs) \<and> (i < lo \<or> hi \<le> i) \<longrightarrow> elt ys i = elt xs i)
     \<and> (\<forall>i. lo \<le> i \<and> i < hi \<longrightarrow> (\<exists>j. lo \<le> j \<and> j < hi \<and> elt ys i = elt xs j))
     \<and> (\<forall>i. lo \<le> i \<and> i < hi \<longrightarrow> (\<exists>j. lo \<le> j \<and> j < hi \<and> elt xs i = elt ys j))"

lemma perm_in_sym: "perm_in lo hi xs ys \<Longrightarrow> perm_in lo hi ys xs"
  by (simp add: perm_in_def)

lemma perm_in_refl: "perm_in lo hi xs xs"
  by (auto simp: perm_in_def)

lemma perm_in_trans: "perm_in lo hi xs ys \<Longrightarrow> perm_in lo hi ys zs \<Longrightarrow> perm_in lo hi xs zs"
  unfolding perm_in_def by (metis (no_types, lifting))

lemma perm_in_widen:
  assumes "perm_in lo hi xs ys" "0 \<le> lo'" "lo' \<le> lo" "hi \<le> hi'" "hi' \<le> int (length xs)"
  shows "perm_in lo' hi' xs ys"
proof -
  have w: "\<exists>j. lo' \<le> j \<and> j < hi' \<and> elt ys i = elt xs j"
    if p: "perm_in lo hi xs ys" "hi' \<le> int (length xs)" "lo' \<le> i" "i < hi'" for xs ys :: "'a list" and i
  proof (cases "lo \<le> i \<and> i < hi")
    case True
    then obtain j where "lo \<le> j" "j < hi" "elt ys i = elt xs j" using p(1) unfolding perm_in_def by blast
    with assms(3,4) show ?thesis by (intro exI [of _ j]) auto
  next
    case False
    with p assms(2,3) have "elt ys i = elt xs i" unfolding perm_in_def by auto
    with p show ?thesis by blast
  qed
  have "length ys = length xs" "mset ys = mset xs" using assms(1) by (simp_all add: perm_in_def)
  moreover have "elt ys i = elt xs i" if "0 \<le> i" "i < int (length xs)" "i < lo' \<or> hi' \<le> i" for i
    using assms that unfolding perm_in_def by auto
  ultimately show ?thesis using w [OF assms(1,5)] w [OF perm_in_sym [OF assms(1)]] assms(5) unfolding perm_in_def by simp
qed

lemma perm_in_all: "perm_in lo hi xs ys \<Longrightarrow> (\<And>i. lo \<le> i \<Longrightarrow> i < hi \<Longrightarrow> P (elt xs i)) \<Longrightarrow> lo \<le> i \<Longrightarrow> i < hi \<Longrightarrow> P (elt ys i)"
  unfolding perm_in_def by metis

lemma perm_in_outside: "perm_in lo hi xs ys \<Longrightarrow> 0 \<le> i \<Longrightarrow> i < int (length xs) \<Longrightarrow> i < lo \<or> hi \<le> i \<Longrightarrow> elt ys i = elt xs i"
  unfolding perm_in_def by blast

lemma perm_in_length: "perm_in lo hi xs ys \<Longrightarrow> length ys = length xs"
  by (simp add: perm_in_def)

lemma rd_ok: "0 \<le> i \<Longrightarrow> i < int (length xs) \<Longrightarrow> rd xs i = Inr (elt xs i)"
  by (simp add: rd_def elt_def)

lemma cmp_at_ok: "0 \<le> i \<Longrightarrow> i < int (length xs) \<Longrightarrow> 0 \<le> j \<Longrightarrow> j < int (length xs) \<Longrightarrow> cmp_at cmp xs i j = Inr (cmp (elt xs i) (elt xs j))"
  by (simp add: cmp_at_def rd_ok)

lemma bm_swap_ok:
  assumes "0 \<le> lo" "lo \<le> i" "i < hi" "lo \<le> j" "j < hi" "hi \<le> int (length xs)"
  shows "\<exists>ys. bm_swap xs i j = Inr ys \<and> perm_in lo hi xs ys
    \<and> (\<forall>k. 0 \<le> k \<and> k < int (length xs) \<longrightarrow> elt ys k = (if k = i then elt xs j else if k = j then elt xs i else elt xs k))"
proof (intro exI conjI)
  let ?ys = "xs[nat i := elt xs j, nat j := elt xs i]"
  have n: "nat i < length xs" "nat j < length xs" using assms by auto
  show "bm_swap xs i j = Inr ?ys" using assms by (simp add: bm_swap_def rd_ok)
  show e: "\<forall>k. 0 \<le> k \<and> k < int (length xs) \<longrightarrow> elt ?ys k = (if k = i then elt xs j else if k = j then elt xs i else elt xs k)"
  proof (intro allI impI)
    fix k assume k: "0 \<le> k \<and> k < int (length xs)"
    have "nat i = nat k \<longleftrightarrow> k = i" "nat j = nat k \<longleftrightarrow> k = j" using k assms by (auto simp: eq_nat_nat_iff)
    moreover have "nat k < length xs" using k by auto
    ultimately have "elt ?ys k = (if k = j then elt xs i else if k = i then elt xs j else elt xs k)"
      unfolding elt_def [of _ k] by (simp only: nth_list_update length_list_update n)
    then show "elt ?ys k = (if k = i then elt xs j else if k = j then elt xs i else elt xs k)" by auto
  qed
  have "mset ?ys = mset xs" using mset_swap [of "nat j" xs "nat i"] n by (simp add: elt_def)
  moreover have "\<exists>m. lo \<le> m \<and> m < hi \<and> elt ?ys k = elt xs m" if "lo \<le> k" "k < hi" for k
  proof -
    have "elt ?ys k = (if k = i then elt xs j else if k = j then elt xs i else elt xs k)" using e that assms by auto
    with that assms show ?thesis by (intro exI [of _ "if k = i then j else if k = j then i else k"]) simp
  qed
  moreover have "elt ?ys k = elt xs k" if "0 \<le> k" "k < int (length xs)" "k < lo \<or> hi \<le> k" for k
  proof -
    have "k \<noteq> i" "k \<noteq> j" using that assms by auto
    with e that show ?thesis by simp
  qed
  moreover have "\<exists>m. lo \<le> m \<and> m < hi \<and> elt xs k = elt ?ys m" if "lo \<le> k" "k < hi" for k
  proof -
    let ?m = "if k = i then j else if k = j then i else k"
    have "elt ?ys ?m = elt xs k" using e [rule_format, of ?m] that assms by auto
    with that assms show ?thesis by (intro exI [of _ ?m]) simp
  qed
  ultimately show "perm_in lo hi xs ?ys" unfolding perm_in_def by simp
qed

section \<open>Insertion\<close>

definition sorted_in :: "('a \<Rightarrow> 'a \<Rightarrow> int) \<Rightarrow> int \<Rightarrow> int \<Rightarrow> 'a list \<Rightarrow> bool" where
  "sorted_in cmp lo hi xs \<longleftrightarrow> (\<forall>i j. lo \<le> i \<and> i < j \<and> j < hi \<longrightarrow> cmp (elt xs i) (elt xs j) \<le> 0)"

lemma ins_loop_ok:
  assumes ord: "cmp_order cmp"
  shows "0 \<le> a \<Longrightarrow> a \<le> pl \<Longrightarrow> pl < hi \<Longrightarrow> hi \<le> int (length xs) \<Longrightarrow>
   (\<forall>i j. a \<le> i \<and> i < j \<and> j < hi \<and> j \<noteq> pl \<longrightarrow> cmp (elt xs i) (elt xs j) \<le> 0) \<Longrightarrow>
   \<exists>ys. ins_loop cmp a xs pl = Inr ys \<and> perm_in a hi xs ys \<and> sorted_in cmp a hi ys"
proof (induction "nat (pl - a)" arbitrary: pl xs rule: less_induct)
  case less
  show ?case
  proof (cases "a < pl \<and> cmp (elt xs (pl - 1)) (elt xs pl) > 0")
    case False
    have "ins_loop cmp a xs pl = Inr xs" using less.prems False by (subst ins_loop.simps) (auto simp: cmp_at_ok)
    moreover have "cmp (elt xs i) (elt xs pl) \<le> 0" if "a \<le> i" "i < pl" for i
    proof (cases "i = pl - 1")
      case True
      with False that show ?thesis by auto
    next
      case ne: False
      then have "cmp (elt xs i) (elt xs (pl - 1)) \<le> 0" using less.prems that by auto
      moreover have "cmp (elt xs (pl - 1)) (elt xs pl) \<le> 0" using False that by auto
      ultimately show ?thesis by (rule cmp_trans [OF ord])
    qed
    then have "sorted_in cmp a hi xs" using less.prems by (auto simp: sorted_in_def)
    ultimately show ?thesis using perm_in_refl by blast
  next
    case True
    obtain ys where y: "bm_swap xs pl (pl - 1) = Inr ys" "perm_in a hi xs ys"
        "\<And>k. 0 \<le> k \<Longrightarrow> k < int (length xs) \<Longrightarrow> elt ys k = (if k = pl then elt xs (pl - 1) else if k = pl - 1 then elt xs pl else elt xs k)"
      using bm_swap_ok [of a pl hi "pl - 1" xs] less.prems True by auto
    have lt: "cmp (elt xs pl) (elt xs (pl - 1)) < 0" using True cmp_flip [OF ord] by auto
    have "cmp (elt ys i) (elt ys j) \<le> 0" if "a \<le> i" "i < j" "j < hi" "j \<noteq> pl - 1" for i j
    proof -
      have e: "elt ys i = (if i = pl then elt xs (pl - 1) else if i = pl - 1 then elt xs pl else elt xs i)"
          "elt ys j = (if j = pl then elt xs (pl - 1) else elt xs j)"
        using y(3) [of i] y(3) [of j] that less.prems by auto
      show ?thesis
      proof (cases "j = pl")
        case True
        then show ?thesis using e that less.prems(5) lt by (cases "i = pl - 1") auto
      next
        case False
        then have "\<And>k. a \<le> k \<Longrightarrow> k < j \<Longrightarrow> cmp (elt xs k) (elt xs j) \<le> 0" using less.prems(5) that by auto
        with e False that True less.prems show ?thesis by auto
      qed
    qed
    then obtain zs where "ins_loop cmp a ys (pl - 1) = Inr zs" "perm_in a hi ys zs" "sorted_in cmp a hi zs"
      using less.hyps [of "pl - 1" ys] less.prems True perm_in_length [OF y(2)] by auto
    moreover have "ins_loop cmp a xs pl = ins_loop cmp a ys (pl - 1)"
      using True y(1) less.prems by (subst ins_loop.simps) (auto simp: cmp_at_ok)
    ultimately show ?thesis using perm_in_trans [OF y(2)] by auto
  qed
qed

lemma insertion_ok:
  assumes ord: "cmp_order cmp" and a: "0 \<le> a" "a + int n \<le> int (length xs)"
  shows "\<exists>ys. foldR (ins_loop cmp a) xs [a + 1..a + int n - 1] = Inr ys \<and> perm_in a (a + int n) xs ys \<and> sorted_in cmp a (a + int n) ys"
  using a(2)
proof (induction n)
  case 0
  then show ?case using perm_in_refl by (auto simp: sorted_in_def)
next
  case (Suc n)
  show ?case
  proof (cases "n = 0")
    case True
    then show ?thesis using perm_in_refl by (auto simp: sorted_in_def)
  next
    case False
    obtain ys where y: "foldR (ins_loop cmp a) xs [a + 1..a + int n - 1] = Inr ys" "perm_in a (a + int n) xs ys" "sorted_in cmp a (a + int n) ys"
      using Suc by auto
    then obtain zs where z: "ins_loop cmp a ys (a + int n) = Inr zs" "perm_in a (a + int (Suc n)) ys zs" "sorted_in cmp a (a + int (Suc n)) zs"
      using ins_loop_ok [OF ord, of a "a + int n" "a + int (Suc n)" ys] Suc.prems a(1) perm_in_length [OF y(2)] by (auto simp: sorted_in_def)
    have "[a + 1..a + int (Suc n) - 1] = [a + 1..a + int n - 1] @ [a + int n]"
      using False upto_rec2 [of "a + 1" "a + int n"] by simp
    moreover have "perm_in a (a + int (Suc n)) xs ys" using perm_in_widen [OF y(2)] Suc.prems a(1) by auto
    ultimately show ?thesis using y(1) z perm_in_trans by (fastforce simp: foldR_append)
  qed
qed

section \<open>Partition\<close>

text \<open>The state of the partition of the elements from \<open>a\<close> to \<open>d\<close>: equal elements at both ends, smaller and greater ones
  next to them.\<close>

definition zones :: "('a \<Rightarrow> 'a \<Rightarrow> int) \<Rightarrow> 'a \<Rightarrow> 'a list \<Rightarrow> int \<Rightarrow> int \<Rightarrow> int \<Rightarrow> int \<Rightarrow> int \<Rightarrow> int \<Rightarrow> bool" where
  "zones cmp v xs a pa pb pc pd d \<longleftrightarrow> 0 \<le> a \<and> a \<le> pa \<and> pa \<le> pb \<and> pb \<le> pc + 1 \<and> pc \<le> pd \<and> pd \<le> d \<and> d < int (length xs)
     \<and> (\<forall>i. a \<le> i \<and> i < pa \<longrightarrow> cmp (elt xs i) v = 0) \<and> (\<forall>i. pa \<le> i \<and> i < pb \<longrightarrow> cmp (elt xs i) v < 0)
     \<and> (\<forall>i. pc < i \<and> i \<le> pd \<longrightarrow> 0 < cmp (elt xs i) v) \<and> (\<forall>i. pd < i \<and> i \<le> d \<longrightarrow> cmp (elt xs i) v = 0)"

lemma zonesI:
  assumes "0 \<le> a" "a \<le> pa" "pa \<le> pb" "pb \<le> pc + 1" "pc \<le> pd" "pd \<le> d" "d < int (length xs)"
    "\<And>i. a \<le> i \<Longrightarrow> i < pa \<Longrightarrow> cmp (elt xs i) v = 0" "\<And>i. pa \<le> i \<Longrightarrow> i < pb \<Longrightarrow> cmp (elt xs i) v < 0"
    "\<And>i. pc < i \<Longrightarrow> i \<le> pd \<Longrightarrow> 0 < cmp (elt xs i) v" "\<And>i. pd < i \<Longrightarrow> i \<le> d \<Longrightarrow> cmp (elt xs i) v = 0"
  shows "zones cmp v xs a pa pb pc pd d"
  using assms by (simp add: zones_def)

lemma zonesD:
  assumes "zones cmp v xs a pa pb pc pd d"
  shows "0 \<le> a" "a \<le> pa" "pa \<le> pb" "pb \<le> pc + 1" "pc \<le> pd" "pd \<le> d" "d < int (length xs)"
    "a \<le> i \<Longrightarrow> i < pa \<Longrightarrow> cmp (elt xs i) v = 0" "pa \<le> i \<Longrightarrow> i < pb \<Longrightarrow> cmp (elt xs i) v < 0"
    "pc < i \<Longrightarrow> i \<le> pd \<Longrightarrow> 0 < cmp (elt xs i) v" "pd < i \<Longrightarrow> i \<le> d \<Longrightarrow> cmp (elt xs i) v = 0"
  using assms by (simp_all add: zones_def)

definition pv_ok :: "'a \<Rightarrow> 'a pivot \<Rightarrow> 'a list \<Rightarrow> int \<Rightarrow> int \<Rightarrow> bool" where
  "pv_ok v pv xs a pa \<longleftrightarrow> pv = PvVal v \<or> pv = PvAt a \<and> elt xs a = v \<and> a < pa"

lemma pv_ok_read: "pv_ok v pv xs a pa \<Longrightarrow> 0 \<le> a \<Longrightarrow> a < int (length xs) \<Longrightarrow> pv_read xs pv = Inr v"
  by (auto simp: pv_ok_def rd_ok)

lemma left_loop_ok:
  "zones cmp v xs a pa pb pc pd d \<Longrightarrow> pv_ok v pv xs a pa \<Longrightarrow>
   \<exists>ys pa' pb'. left_loop cmp pv xs pa pb pc = Inr (ys, pa', pb') \<and> zones cmp v ys a pa' pb' pc pd d \<and> pv_ok v pv ys a pa'
     \<and> perm_in a (d + 1) xs ys \<and> pb \<le> pb' \<and> (pb' \<le> pc \<longrightarrow> 0 < cmp (elt ys pb') v)"
proof (induction "nat (pc - pb + 1)" arbitrary: xs pa pb rule: less_induct)
  case less
  note z = zonesD [OF less.prems(1)]
  show ?case
  proof (cases "pb \<le> pc")
    case False
    then have "left_loop cmp pv xs pa pb pc = Inr (xs, pa, pb)" by (subst left_loop.simps) simp
    with False less.prems perm_in_refl show ?thesis by auto
  next
    case True
    let ?r = "cmp (elt xs pb) v"
    have rds: "rd xs pb = Inr (elt xs pb)" "pv_read xs pv = Inr v"
      using z(1-7) True pv_ok_read [OF less.prems(2)] by (auto intro: rd_ok)
    consider "0 < ?r" | "?r = 0" | "?r < 0" by linarith
    then show ?thesis
    proof cases
      case 1
      then have "left_loop cmp pv xs pa pb pc = Inr (xs, pa, pb)" using rds by (subst left_loop.simps) simp
      with 1 less.prems perm_in_refl show ?thesis by auto
    next
      case 2
      obtain ys where y: "bm_swap xs pa pb = Inr ys" "perm_in a (d + 1) xs ys"
          "\<And>k. 0 \<le> k \<Longrightarrow> k < int (length xs) \<Longrightarrow> elt ys k = (if k = pa then elt xs pb else if k = pb then elt xs pa else elt xs k)"
        using bm_swap_ok [of a pa "d + 1" pb xs] z(1-7) True by auto
      have e: "elt ys k = (if k = pa then elt xs pb else if k = pb then elt xs pa else elt xs k)" if "a \<le> k" "k \<le> d" for k
        using that z(1,7) by (intro y(3)) auto
      have "zones cmp v ys a (pa + 1) (pb + 1) pc pd d"
      proof (rule zonesI)
        fix i
        show "a \<le> i \<Longrightarrow> i < pa + 1 \<Longrightarrow> cmp (elt ys i) v = 0" using e [of i] z(1-8) 2 True by (cases "i = pa") auto
        show "pa + 1 \<le> i \<Longrightarrow> i < pb + 1 \<Longrightarrow> cmp (elt ys i) v < 0"
          using e [of i] z(9) [of pa] z(9) [of i] z(1-7) True by (cases "i = pb") auto
        show "pc < i \<Longrightarrow> i \<le> pd \<Longrightarrow> 0 < cmp (elt ys i) v" using e [of i] z(10) [of i] z(1-7) True by auto
        show "pd < i \<Longrightarrow> i \<le> d \<Longrightarrow> cmp (elt ys i) v = 0" using e [of i] z(11) [of i] z(1-7) True by auto
      qed (use z(1-7) True perm_in_length [OF y(2)] in auto)
      moreover have "pv_ok v pv ys a (pa + 1)"
        using less.prems(2) z(1-7) True e [of a] by (auto simp: pv_ok_def)
      moreover have "left_loop cmp pv xs pa pb pc = left_loop cmp pv ys (pa + 1) (pb + 1) pc"
        using True 2 rds y(1) by (subst left_loop.simps) simp
      ultimately show ?thesis using less.hyps [of "pb + 1" ys "pa + 1"] True perm_in_trans [OF y(2)] by fastforce
    next
      case 3
      have "zones cmp v xs a pa (pb + 1) pc pd d"
      proof (rule zonesI)
        show "cmp (elt xs i) v < 0" if "pa \<le> i" "i < pb + 1" for i using that z(9) [of i] 3 by (cases "i = pb") auto
      qed (use z True in auto)
      moreover have "left_loop cmp pv xs pa pb pc = left_loop cmp pv xs pa (pb + 1) pc"
        using True 3 rds by (subst left_loop.simps) simp
      ultimately show ?thesis using less.hyps [of "pb + 1" xs pa] True less.prems(2) by fastforce
    qed
  qed
qed

lemma right_loop_ok:
  "zones cmp v xs a pa pb pc pd d \<Longrightarrow> pv_ok v pv xs a pa \<Longrightarrow>
   \<exists>ys pc' pd'. right_loop cmp pv xs pb pc pd = Inr (ys, pc', pd') \<and> zones cmp v ys a pa pb pc' pd' d \<and> pv_ok v pv ys a pa
     \<and> perm_in a (d + 1) xs ys \<and> pc' \<le> pc \<and> (pb \<le> pc' \<longrightarrow> cmp (elt ys pc') v < 0) \<and> (\<forall>i. 0 \<le> i \<and> i \<le> pc' \<longrightarrow> elt ys i = elt xs i)"
proof (induction "nat (pc - pb + 1)" arbitrary: xs pc pd rule: less_induct)
  case less
  note z = zonesD [OF less.prems(1)]
  show ?case
  proof (cases "pb \<le> pc")
    case False
    then have "right_loop cmp pv xs pb pc pd = Inr (xs, pc, pd)" by (subst right_loop.simps) simp
    with False less.prems perm_in_refl show ?thesis by auto
  next
    case True
    let ?r = "cmp (elt xs pc) v"
    have rds: "rd xs pc = Inr (elt xs pc)" "pv_read xs pv = Inr v"
      using z(1-7) True pv_ok_read [OF less.prems(2)] by (auto intro: rd_ok)
    consider "?r < 0" | "?r = 0" | "0 < ?r" by linarith
    then show ?thesis
    proof cases
      case 1
      then have "right_loop cmp pv xs pb pc pd = Inr (xs, pc, pd)" using rds by (subst right_loop.simps) simp
      with 1 less.prems perm_in_refl show ?thesis by auto
    next
      case 2
      obtain ys where y: "bm_swap xs pc pd = Inr ys" "perm_in a (d + 1) xs ys"
          "\<And>k. 0 \<le> k \<Longrightarrow> k < int (length xs) \<Longrightarrow> elt ys k = (if k = pc then elt xs pd else if k = pd then elt xs pc else elt xs k)"
        using bm_swap_ok [of a pc "d + 1" pd xs] z(1-7) True by auto
      have e: "elt ys k = (if k = pc then elt xs pd else if k = pd then elt xs pc else elt xs k)" if "a \<le> k" "k \<le> d" for k
        using that z(1,7) by (intro y(3)) auto
      have "zones cmp v ys a pa pb (pc - 1) (pd - 1) d"
      proof (rule zonesI)
        fix i
        show "a \<le> i \<Longrightarrow> i < pa \<Longrightarrow> cmp (elt ys i) v = 0" using e [of i] z(8) [of i] z(1-7) True by auto
        show "pa \<le> i \<Longrightarrow> i < pb \<Longrightarrow> cmp (elt ys i) v < 0" using e [of i] z(9) [of i] z(1-7) True by auto
        show "pc - 1 < i \<Longrightarrow> i \<le> pd - 1 \<Longrightarrow> 0 < cmp (elt ys i) v"
          using e [of i] z(10) [of pd] z(10) [of i] z(1-7) True by (cases "i = pc") auto
        show "pd - 1 < i \<Longrightarrow> i \<le> d \<Longrightarrow> cmp (elt ys i) v = 0"
          using e [of i] z(11) [of i] z(1-7) 2 True by (cases "i = pd") auto
      qed (use z(1-7) True perm_in_length [OF y(2)] in auto)
      moreover have "pv_ok v pv ys a pa"
        using less.prems(2) z(1-7) True e [of a] by (auto simp: pv_ok_def)
      moreover have "right_loop cmp pv xs pb pc pd = right_loop cmp pv ys pb (pc - 1) (pd - 1)"
        using True 2 rds y(1) by (subst right_loop.simps) simp
      moreover have "elt ys i = elt xs i" if "0 \<le> i" "i \<le> pc - 1" for i using that y(3) [of i] z(1-7) by auto
      ultimately show ?thesis using less.hyps [of "pc - 1" ys "pd - 1"] True perm_in_trans [OF y(2)] by fastforce
    next
      case 3
      have "zones cmp v xs a pa pb (pc - 1) pd d"
      proof (rule zonesI)
        show "0 < cmp (elt xs i) v" if "pc - 1 < i" "i \<le> pd" for i using that z(10) [of i] 3 by (cases "i = pc") auto
      qed (use z True in auto)
      moreover have "right_loop cmp pv xs pb pc pd = right_loop cmp pv xs pb (pc - 1) pd"
        using True 3 rds by (subst right_loop.simps) simp
      ultimately show ?thesis using less.hyps [of "pc - 1" xs pd] True less.prems(2) by fastforce
    qed
  qed
qed

lemma part_loop_ok:
  "zones cmp v xs a pa pb pc pd d \<Longrightarrow> pv_ok v pv xs a pa \<Longrightarrow>
   \<exists>ys pa' pb' pc' pd'. part_loop cmp pv xs pa pb pc pd = Inr (ys, pa', pb', pc', pd') \<and> zones cmp v ys a pa' pb' pc' pd' d
     \<and> pb' = pc' + 1 \<and> perm_in a (d + 1) xs ys"
proof (induction "nat (pc - pb + 1)" arbitrary: xs pa pb pc pd rule: less_induct)
  case less
  obtain ys pa1 pb1 where l: "left_loop cmp pv xs pa pb pc = Inr (ys, pa1, pb1)" "zones cmp v ys a pa1 pb1 pc pd d" "pv_ok v pv ys a pa1"
      "perm_in a (d + 1) xs ys" "pb \<le> pb1" "pb1 \<le> pc \<Longrightarrow> 0 < cmp (elt ys pb1) v"
    using left_loop_ok [OF less.prems] by blast
  obtain zs pc1 pd1 where r: "right_loop cmp pv ys pb1 pc pd = Inr (zs, pc1, pd1)" "zones cmp v zs a pa1 pb1 pc1 pd1 d" "pv_ok v pv zs a pa1"
      "perm_in a (d + 1) ys zs" "pc1 \<le> pc" "pb1 \<le> pc1 \<Longrightarrow> cmp (elt zs pc1) v < 0" "\<And>i. 0 \<le> i \<Longrightarrow> i \<le> pc1 \<Longrightarrow> elt zs i = elt ys i"
    using right_loop_ok [OF l(2,3)] by blast
  note z = zonesD [OF r(2)] and p = perm_in_trans [OF l(4) r(4)]
  show ?case
  proof (cases "pb1 > pc1")
    case True
    then have "part_loop cmp pv xs pa pb pc pd = Inr (zs, pa1, pb1, pc1, pd1)" using l(1) r(1) by (subst part_loop.simps) simp
    with True z(4) r(2) p show ?thesis by (intro exI [of _ zs] exI [of _ pa1] exI [of _ pb1] exI [of _ pc1] exI [of _ pd1]) auto
  next
    case False
    have gt: "0 < cmp (elt zs pb1) v" using False l(6) r(5) r(7) [of pb1] z(1-7) by auto
    have lt: "cmp (elt zs pc1) v < 0" using False r(6) by auto
    with gt have "pb1 \<noteq> pc1" by auto
    with False have ne: "pb1 < pc1" by simp
    obtain ws where w: "bm_swap zs pb1 pc1 = Inr ws" "perm_in a (d + 1) zs ws"
        "\<And>k. 0 \<le> k \<Longrightarrow> k < int (length zs) \<Longrightarrow> elt ws k = (if k = pb1 then elt zs pc1 else if k = pc1 then elt zs pb1 else elt zs k)"
      using bm_swap_ok [of a pb1 "d + 1" pc1 zs] z(1-7) ne by auto
    have e: "elt ws k = (if k = pb1 then elt zs pc1 else if k = pc1 then elt zs pb1 else elt zs k)" if "a \<le> k" "k \<le> d" for k
      using that z(1,7) by (intro w(3)) auto
    have "zones cmp v ws a pa1 (pb1 + 1) (pc1 - 1) pd1 d"
    proof (rule zonesI)
      fix i
      show "a \<le> i \<Longrightarrow> i < pa1 \<Longrightarrow> cmp (elt ws i) v = 0" using e [of i] z(8) [of i] z(1-7) ne by auto
      show "pa1 \<le> i \<Longrightarrow> i < pb1 + 1 \<Longrightarrow> cmp (elt ws i) v < 0" using e [of i] z(9) [of i] z(1-7) ne lt by (cases "i = pb1") auto
      show "pc1 - 1 < i \<Longrightarrow> i \<le> pd1 \<Longrightarrow> 0 < cmp (elt ws i) v" using e [of i] z(10) [of i] z(1-7) ne gt by (cases "i = pc1") auto
      show "pd1 < i \<Longrightarrow> i \<le> d \<Longrightarrow> cmp (elt ws i) v = 0" using e [of i] z(11) [of i] z(1-7) ne by auto
    qed (use z(1-7) ne perm_in_length [OF w(2)] in auto)
    moreover have "pv_ok v pv ws a pa1" using r(3) z(1-7) ne e [of a] by (auto simp: pv_ok_def)
    moreover have "part_loop cmp pv xs pa pb pc pd = part_loop cmp pv ws pa1 (pb1 + 1) (pc1 - 1) pd1"
      using False l(1) r(1) w(1) by (subst part_loop.simps) simp
    moreover have "nat (pc1 - 1 - (pb1 + 1) + 1) < nat (pc - pb + 1)" using ne l(5) r(5) by linarith
    ultimately show ?thesis using less.hyps [of "pc1 - 1" "pb1 + 1" ws pa1 pd1] perm_in_trans [OF perm_in_trans [OF p w(2)]] by fastforce
  qed
qed

section \<open>Moving the equal elements to the middle\<close>

lemma bm_swapfunc_ok:
  "0 \<le> lo \<Longrightarrow> lo \<le> p \<Longrightarrow> p + int s \<le> b \<Longrightarrow> b + int s \<le> hi \<Longrightarrow> hi \<le> int (length xs) \<Longrightarrow>
   \<exists>ys. bm_swapfunc xs p b (int s) = Inr ys \<and> perm_in lo hi xs ys \<and> (\<forall>k. 0 \<le> k \<and> k < int (length xs) \<longrightarrow>
     elt ys k = (if p \<le> k \<and> k < p + int s then elt xs (k - p + b) else if b \<le> k \<and> k < b + int s then elt xs (k - b + p) else elt xs k))"
proof (induction s)
  case 0
  then show ?case using perm_in_refl by (auto simp: bm_swapfunc_def)
next
  case (Suc s)
  then obtain ys where y: "bm_swapfunc xs p b (int s) = Inr ys" "perm_in lo hi xs ys"
      "\<And>k. 0 \<le> k \<Longrightarrow> k < int (length xs) \<Longrightarrow>
        elt ys k = (if p \<le> k \<and> k < p + int s then elt xs (k - p + b) else if b \<le> k \<and> k < b + int s then elt xs (k - b + p) else elt xs k)"
    by auto
  have l: "length ys = length xs" by (rule perm_in_length [OF y(2)])
  obtain zs where z: "bm_swap ys (p + int s) (b + int s) = Inr zs" "perm_in lo hi ys zs"
      "\<And>k. 0 \<le> k \<Longrightarrow> k < int (length xs) \<Longrightarrow> elt zs k = (if k = p + int s then elt ys (b + int s) else if k = b + int s then elt ys (p + int s) else elt ys k)"
    using bm_swap_ok [of lo "p + int s" hi "b + int s" ys] Suc.prems l by auto
  have "[0..int (Suc s) - 1] = [0..int s - 1] @ [int s]" using upto_rec2 [of 0 "int s"] by simp
  then have "bm_swapfunc xs p b (int (Suc s)) = Inr zs" using y(1) z(1) by (simp add: bm_swapfunc_def foldR_append)
  moreover have "elt zs k = (if p \<le> k \<and> k < p + int (Suc s) then elt xs (k - p + b) else if b \<le> k \<and> k < b + int (Suc s) then elt xs (k - b + p) else elt xs k)"
    if "0 \<le> k" "k < int (length xs)" for k
  proof -
    have ends: "elt ys (b + int s) = elt xs (b + int s)" "elt ys (p + int s) = elt xs (p + int s)"
      using y(3) [of "b + int s"] y(3) [of "p + int s"] Suc.prems by auto
    consider "k = p + int s" | "k = b + int s" | "k \<noteq> p + int s" "k \<noteq> b + int s" by blast
    then show ?thesis
    proof cases
      case 1
      with z(3) [OF that] ends show ?thesis by (simp add: add.commute)
    next
      case 2
      with z(3) [OF that] ends Suc.prems show ?thesis by (auto simp: add.commute)
    next
      case 3
      then have "(p \<le> k \<and> k < p + int (Suc s)) = (p \<le> k \<and> k < p + int s)" "(b \<le> k \<and> k < b + int (Suc s)) = (b \<le> k \<and> k < b + int s)"
        by auto
      with 3 z(3) [OF that] y(3) [OF that] show ?thesis by simp
    qed
  qed
  ultimately show ?case using perm_in_trans [OF y(2) z(2)] by blast
qed

lemma block_swap:
  assumes "0 \<le> p" "p \<le> q" "q \<le> r" "r \<le> int (length xs)"
    "\<And>i. p \<le> i \<Longrightarrow> i < q \<Longrightarrow> P (elt xs i)" "\<And>i. q \<le> i \<Longrightarrow> i < r \<Longrightarrow> Q (elt xs i)" "s = min (q - p) (r - q)"
  shows "\<exists>ys. (if s > 0 then bm_swapfunc xs p (r - s) s else Inr xs) = Inr ys \<and> perm_in p r xs ys
    \<and> (\<forall>i. p \<le> i \<and> i < p + (r - q) \<longrightarrow> Q (elt ys i)) \<and> (\<forall>i. p + (r - q) \<le> i \<and> i < r \<longrightarrow> P (elt ys i))"
proof -
  have s: "0 \<le> s" "s \<le> q - p" "s \<le> r - q" "s = q - p \<or> s = r - q" using assms(2,3,7) by auto
  have "\<exists>ys. bm_swapfunc xs p (r - s) (int (nat s)) = Inr ys \<and> perm_in p r xs ys \<and> (\<forall>k. 0 \<le> k \<and> k < int (length xs) \<longrightarrow>
     elt ys k = (if p \<le> k \<and> k < p + int (nat s) then elt xs (k - p + (r - s)) else if r - s \<le> k \<and> k < r - s + int (nat s) then elt xs (k - (r - s) + p) else elt xs k))"
    using s(1-3) assms(1-4) by (intro bm_swapfunc_ok) auto
  then obtain ys where y: "bm_swapfunc xs p (r - s) s = Inr ys" "perm_in p r xs ys"
      "\<And>k. 0 \<le> k \<Longrightarrow> k < int (length xs) \<Longrightarrow> elt ys k = (if p \<le> k \<and> k < p + s then elt xs (k - p + (r - s))
        else if r - s \<le> k \<and> k < r then elt xs (k - (r - s) + p) else elt xs k)"
    using s(1) by auto
  have "bm_swapfunc xs p (r - s) s = Inr xs" if "s = 0" using that by (simp add: bm_swapfunc_def)
  with y(1) s(1) have "(if s > 0 then bm_swapfunc xs p (r - s) s else Inr xs) = Inr ys" by (cases "s = 0") auto
  moreover have "Q (elt ys i)" if i: "p \<le> i" "i < p + (r - q)" for i
  proof -
    have e: "elt ys i = (if i < p + s then elt xs (i - p + (r - s)) else if r - s \<le> i then elt xs (i - (r - s) + p) else elt xs i)"
      using y(3) [of i] i assms(1-4) by auto
    show ?thesis
    proof (cases "i < p + s")
      case True
      with e i s(2,3) show ?thesis by (auto intro!: assms(6))
    next
      case False
      then have "q \<le> i" "i < r - s" using s(4) i by auto
      with False e assms(6) [of i] s(1) show ?thesis by auto
    qed
  qed
  moreover have "P (elt ys i)" if i: "p + (r - q) \<le> i" "i < r" for i
  proof -
    have e: "elt ys i = (if i < p + s then elt xs (i - p + (r - s)) else if r - s \<le> i then elt xs (i - (r - s) + p) else elt xs i)"
      using y(3) [of i] i assms(1-4) by auto
    show ?thesis
    proof (cases "r - s \<le> i")
      case True
      with e i s(2,3) show ?thesis by (auto intro!: assms(5))
    next
      case False
      then have "p + s \<le> i" "i < q" using s(4) i by auto
      with False e assms(5) [of i] s(1) assms(2) i show ?thesis by auto
    qed
  qed
  ultimately show ?thesis using y(2) by blast
qed

section \<open>The pivot\<close>

lemma bm_med3_ok:
  assumes "0 \<le> lo" "hi \<le> int (length xs)" "lo \<le> x" "x < hi" "lo \<le> y" "y < hi" "lo \<le> z" "z < hi"
  shows "\<exists>m. bm_med3 cmp xs x y z = Inr m \<and> lo \<le> m \<and> m < hi"
proof -
  have "cmp_at cmp xs x y = Inr (cmp (elt xs x) (elt xs y))" "cmp_at cmp xs y z = Inr (cmp (elt xs y) (elt xs z))"
      "cmp_at cmp xs x z = Inr (cmp (elt xs x) (elt xs z))"
    using assms by (auto intro!: cmp_at_ok)
  with assms show ?thesis by (simp add: bm_med3_def)
qed

lemma choose_pivot_ok:
  assumes "0 \<le> a" "7 \<le> n" "a + n \<le> int (length xs)"
  shows "\<exists>pm. choose_pivot cmp xs a n = Inr pm \<and> a \<le> pm \<and> pm < a + n"
proof -
  have med: "\<exists>m. bm_med3 cmp xs x y z = Inr m \<and> a \<le> m \<and> m < a + n"
    if "a \<le> x" "x < a + n" "a \<le> y" "y < a + n" "a \<le> z" "z < a + n" for x y z
    using bm_med3_ok [OF assms(1,3) that] .
  consider "n = 7" | "7 < n" "n \<le> 40" | "40 < n" using assms(2) by linarith
  then show ?thesis
  proof cases
    case 1
    then show ?thesis by (simp add: choose_pivot_def)
  next
    case 2
    with med [of a "a + n div 2" "a + (n - 1)"] show ?thesis by (simp add: choose_pivot_def Let_def)
  next
    case 3
    define s where "s = n div 8"
    have s: "0 \<le> s" "8 * s \<le> n" "s \<le> n div 2" "n div 2 + s < n" using 3 by (auto simp: s_def)
    obtain pl where pl: "bm_med3 cmp xs a (a + s) (a + 2 * s) = Inr pl" "a \<le> pl" "pl < a + n"
      using med [of a "a + s" "a + 2 * s"] s 3 by auto
    obtain pm where pm: "bm_med3 cmp xs (a + n div 2 - s) (a + n div 2) (a + n div 2 + s) = Inr pm" "a \<le> pm" "pm < a + n"
      using med [of "a + n div 2 - s" "a + n div 2" "a + n div 2 + s"] s 3 by auto
    obtain pn where pn: "bm_med3 cmp xs (a + (n - 1) - 2 * s) (a + (n - 1) - s) (a + (n - 1)) = Inr pn" "a \<le> pn" "pn < a + n"
      using med [of "a + (n - 1) - 2 * s" "a + (n - 1) - s" "a + (n - 1)"] s 3 by auto
    from med [OF pl(2,3) pm(2,3) pn(2,3)] pl(1) pm(1) pn(1) 3 show ?thesis by (simp add: choose_pivot_def Let_def s_def)
  qed
qed

text \<open>The first round of the partition loop goes past a pivot that is the first element.\<close>

lemma pivot_start:
  assumes ord: "cmp_order cmp" and b: "0 \<le> a" "7 \<le> n" "a + n \<le> int (length xs)" "a \<le> pm" "pm < a + n"
  shows "\<exists>ys pv v pa. pv_init words xs a pm = Inr (ys, pv) \<and> perm_in a (a + n) xs ys \<and> (\<exists>i. a \<le> i \<and> i < a + n \<and> elt ys i = v)
    \<and> part_loop cmp pv ys a a (a + (n - 1)) (a + (n - 1)) = part_loop cmp pv ys pa pa (a + (n - 1)) (a + (n - 1))
    \<and> zones cmp v ys a pa pa (a + (n - 1)) (a + (n - 1)) (a + (n - 1)) \<and> pv_ok v pv ys a pa"
proof (cases words)
  case True
  let ?v = "elt xs pm"
  have "pv_init words xs a pm = Inr (xs, PvVal ?v)" using True b by (simp add: pv_init_def rd_ok)
  moreover have "zones cmp ?v xs a a a (a + (n - 1)) (a + (n - 1)) (a + (n - 1))" using b by (intro zonesI) auto
  ultimately show ?thesis using b perm_in_refl
    by (intro exI [of _ xs] exI [of _ "PvVal ?v"] exI [of _ ?v] exI [of _ a]) (auto simp: pv_ok_def)
next
  case False
  obtain ys where y: "bm_swap xs a pm = Inr ys" "perm_in a (a + n) xs ys"
    using bm_swap_ok [of a a "a + n" pm xs] b by auto
  let ?v = "elt ys a" and ?d = "a + (n - 1)"
  have l: "length ys = length xs" by (rule perm_in_length [OF y(2)])
  have "bm_swap ys a a = Inr ys" using b l by (simp add: bm_swap_def rd_ok elt_def)
  then have "left_loop cmp (PvAt a) ys a a ?d = left_loop cmp (PvAt a) ys (a + 1) (a + 1) ?d"
    using b l cmp_refl [OF ord] by (subst left_loop.simps) (simp add: rd_ok)
  then have "part_loop cmp (PvAt a) ys a a ?d ?d = part_loop cmp (PvAt a) ys (a + 1) (a + 1) ?d ?d"
    by (subst (1 2) part_loop.simps) simp
  moreover have "zones cmp ?v ys a (a + 1) (a + 1) ?d ?d ?d"
  proof (rule zonesI)
    show "cmp (elt ys i) ?v = 0" if "a \<le> i" "i < a + 1" for i using that cmp_refl [OF ord] by (cases "i = a") auto
  qed (use b l in auto)
  ultimately show ?thesis using y False b
    by (intro exI [of _ ys] exI [of _ "PvAt a"] exI [of _ ?v] exI [of _ "a + 1"]) (auto simp: pv_init_def pv_ok_def)
qed

section \<open>The whole sort\<close>

lemma partition_ok:
  assumes ord: "cmp_order cmp" and b: "0 \<le> a" "7 \<le> n" "a + n \<le> int (length xs)"
  shows "\<exists>pm ys pv zs pa pb pc pd v. choose_pivot cmp xs a n = Inr pm \<and> pv_init words xs a pm = Inr (ys, pv)
    \<and> part_loop cmp pv ys a a (a + (n - 1)) (a + (n - 1)) = Inr (zs, pa, pb, pc, pd)
    \<and> zones cmp v zs a pa pb pc pd (a + (n - 1)) \<and> pb = pc + 1 \<and> perm_in a (a + n) xs zs \<and> (pb - pa) + (pd - pc) < n"
proof -
  obtain pm where pm: "choose_pivot cmp xs a n = Inr pm" "a \<le> pm" "pm < a + n" using choose_pivot_ok [OF b] by blast
  obtain ys pv v p0 i where p: "pv_init words xs a pm = Inr (ys, pv)" "perm_in a (a + n) xs ys" "a \<le> i" "i < a + n" "elt ys i = v"
      "part_loop cmp pv ys a a (a + (n - 1)) (a + (n - 1)) = part_loop cmp pv ys p0 p0 (a + (n - 1)) (a + (n - 1))"
      "zones cmp v ys a p0 p0 (a + (n - 1)) (a + (n - 1)) (a + (n - 1))" "pv_ok v pv ys a p0"
    using pivot_start [OF ord b pm(2,3), of words] by blast
  obtain zs pa pb pc pd where q: "part_loop cmp pv ys p0 p0 (a + (n - 1)) (a + (n - 1)) = Inr (zs, pa, pb, pc, pd)"
      "zones cmp v zs a pa pb pc pd (a + (n - 1))" "pb = pc + 1" "perm_in a (a + (n - 1) + 1) ys zs"
    using part_loop_ok [OF p(7,8)] by blast
  have yz: "perm_in a (a + n) ys zs" using q(4) by (simp add: algebra_simps)
  have "(pb - pa) + (pd - pc) < n"
  proof (rule ccontr)
    assume "\<not> ?thesis"
    with zonesD(1-7) [OF q(2)] q(3) have all: "pa = a" "pd = a + (n - 1)" by auto
    obtain j where j: "a \<le> j" "j < a + n" "elt zs j = v" using yz p(3-5) unfolding perm_in_def by metis
    then have "cmp (elt zs j) v = 0" using cmp_refl [OF ord] by simp
    moreover have "cmp (elt zs j) v \<noteq> 0"
      using zonesD(9,10) [OF q(2), of j] all j q(3) by (cases "j < pb") auto
    ultimately show False by simp
  qed
  with pm p(1,6) q perm_in_trans [OF p(2) yz] show ?thesis by metis
qed

lemma sorted_zones:
  assumes ord: "cmp_order cmp" and "\<And>i. a \<le> i \<Longrightarrow> i < b \<Longrightarrow> cmp (elt xs i) v < 0" "\<And>i. b \<le> i \<Longrightarrow> i < c \<Longrightarrow> cmp (elt xs i) v = 0"
    "\<And>i. c \<le> i \<Longrightarrow> i < d \<Longrightarrow> 0 < cmp (elt xs i) v" "sorted_in cmp a b xs" "sorted_in cmp c d xs"
  shows "sorted_in cmp a d xs"
proof -
  have le: "cmp x y \<le> 0" if "cmp x v \<le> 0" "0 \<le> cmp y v" for x y
  proof (rule cmp_trans [OF ord that(1)])
    show "cmp v y \<le> 0" using that(2) cmp_flip [OF ord, of y v] by linarith
  qed
  have "cmp (elt xs i) (elt xs j) \<le> 0" if ij: "a \<le> i" "i < j" "j < d" for i j
  proof -
    consider "j < b" | "c \<le> i" | "b \<le> j" "i < c" by linarith
    then show ?thesis
    proof cases
      case 1
      with assms(5) ij show ?thesis by (simp add: sorted_in_def)
    next
      case 2
      with assms(6) ij show ?thesis by (simp add: sorted_in_def)
    next
      case 3
      have "cmp (elt xs i) v \<le> 0" using assms(2,3) [of i] ij 3 by (cases "i < b") auto
      moreover have "0 \<le> cmp (elt xs j) v" using assms(3,4) [of j] ij 3 by (cases "j < c") auto
      ultimately show ?thesis by (rule le)
    qed
  qed
  then show ?thesis by (simp add: sorted_in_def)
qed

lemma zone_kept:
  assumes "perm_in l h ys ws" "\<And>i. lo \<le> i \<Longrightarrow> i < hi \<Longrightarrow> P (elt ys i)" "0 \<le> lo" "hi \<le> int (length ys)" "lo = l \<and> hi = h \<or> hi \<le> l \<or> h \<le> lo"
    "lo \<le> i" "i < hi"
  shows "P (elt ws i)"
proof (cases "lo = l \<and> hi = h")
  case True
  with perm_in_all [OF assms(1), of P i] assms(2,6,7) show ?thesis by auto
next
  case False
  with perm_in_outside [OF assms(1), of i] assms(2-7) show ?thesis by auto
qed

lemma sorted_kept: "perm_in l2 h2 ys ws \<Longrightarrow> sorted_in cmp l1 h1 ys \<Longrightarrow> 0 \<le> l1 \<Longrightarrow> h1 \<le> int (length ys) \<Longrightarrow> h1 \<le> l2 \<or> h2 \<le> l1 \<Longrightarrow> sorted_in cmp l1 h1 ws"
  using perm_in_outside [of l2 h2 ys ws] by (auto simp: sorted_in_def)

text \<open>Sorting the smaller and the greater elements, in either order.\<close>

lemma sort_zones:
  assumes ord: "cmp_order cmp" and b: "0 \<le> a" "a \<le> b" "b \<le> c" "c \<le> d" "d \<le> int (length ws)"
    and zs: "\<And>i. a \<le> i \<Longrightarrow> i < b \<Longrightarrow> cmp (elt ws i) v < 0" "\<And>i. b \<le> i \<Longrightarrow> i < c \<Longrightarrow> cmp (elt ws i) v = 0"
      "\<And>i. c \<le> i \<Longrightarrow> i < d \<Longrightarrow> 0 < cmp (elt ws i) v"
    and s: "perm_in l1 h1 ws rs" "perm_in l2 h2 rs qs" "sorted_in cmp l1 h1 rs" "sorted_in cmp l2 h2 qs"
      "l1 = a \<and> h1 = b \<and> l2 = c \<and> h2 = d \<or> l1 = c \<and> h1 = d \<and> l2 = a \<and> h2 = b"
  shows "perm_in a d ws qs \<and> sorted_in cmp a d qs"
proof
  have l: "length rs = length ws" by (rule perm_in_length [OF s(1)])
  show "perm_in a d ws qs"
    using perm_in_trans [OF perm_in_widen [OF s(1), of a d] perm_in_widen [OF s(2), of a d]] s(5) b l by auto
  have one: "lo = l \<and> hi = h \<or> hi \<le> l \<or> h \<le> lo" if "lo = a \<and> hi = b \<or> lo = b \<and> hi = c \<or> lo = c \<and> hi = d" "l = a \<and> h = b \<or> l = c \<and> h = d" for lo hi l h
    using that b by auto
  have kept: "P (elt qs i)"
    if z: "lo = a \<and> hi = b \<or> lo = b \<and> hi = c \<or> lo = c \<and> hi = d" "\<And>i. lo \<le> i \<Longrightarrow> i < hi \<Longrightarrow> P (elt ws i)" "lo \<le> i" "i < hi" for lo hi P i
  proof -
    have r: "P (elt rs i)" if "lo \<le> i" "i < hi" for i
      using zone_kept [OF s(1), of lo hi P, OF z(2)] one [OF z(1), of l1 h1] s(5) z(1) b that by auto
    then show ?thesis using zone_kept [OF s(2), of lo hi P, OF r] one [OF z(1), of l2 h2] s(5) z(1,3,4) b l by auto
  qed
  have "sorted_in cmp l1 h1 qs" using sorted_kept [OF s(2,3)] s(5) b l by auto
  with s(4,5) have "sorted_in cmp a b qs" "sorted_in cmp c d qs" by auto
  then show "sorted_in cmp a d qs"
    using kept [of a b "\<lambda>x. cmp x v < 0"] kept [of b c "\<lambda>x. cmp x v = 0"] kept [of c d "\<lambda>x. 0 < cmp x v"] zs
    by (intro sorted_zones [OF ord, of a b qs v c d]) auto
qed

lemma small_sorted: "n \<le> 1 \<Longrightarrow> sorted_in cmp a (a + n) xs"
  by (auto simp: sorted_in_def)

text \<open>The elements equal to the pivot move from the ends to the middle.\<close>

lemma swap_zones:
  assumes z: "zones cmp v zs a pa pb pc pd (pn - 1)" "pb = pc + 1" "pn \<le> int (length zs)"
  shows "\<exists>us ws. (if min (pa - a) (pb - pa) > 0 then bm_swapfunc zs a (pb - min (pa - a) (pb - pa)) (min (pa - a) (pb - pa)) else Inr zs) = Inr us
    \<and> (if min (pd - pc) (pn - pd - 1) > 0 then bm_swapfunc us pb (pn - min (pd - pc) (pn - pd - 1)) (min (pd - pc) (pn - pd - 1)) else Inr us) = Inr ws
    \<and> perm_in a pn zs ws \<and> (\<forall>i. a \<le> i \<and> i < a + (pb - pa) \<longrightarrow> cmp (elt ws i) v < 0)
    \<and> (\<forall>i. a + (pb - pa) \<le> i \<and> i < pn - (pd - pc) \<longrightarrow> cmp (elt ws i) v = 0)
    \<and> (\<forall>i. pn - (pd - pc) \<le> i \<and> i < pn \<longrightarrow> 0 < cmp (elt ws i) v)"
proof -
  note z' = zonesD [OF z(1)]
  have c: "a + (pb - pa) \<le> pb" "pb \<le> pn - (pd - pc)" "pb + (pn - (pd + 1)) = pn - (pd - pc)" "pb \<le> int (length zs)" "pb \<le> pn"
    using z'(1-7) z(2,3) by auto
  obtain us where u: "(if min (pa - a) (pb - pa) > 0 then bm_swapfunc zs a (pb - min (pa - a) (pb - pa)) (min (pa - a) (pb - pa)) else Inr zs) = Inr us"
      "perm_in a pb zs us" "\<And>i. a \<le> i \<Longrightarrow> i < a + (pb - pa) \<Longrightarrow> cmp (elt us i) v < 0" "\<And>i. a + (pb - pa) \<le> i \<Longrightarrow> i < pb \<Longrightarrow> cmp (elt us i) v = 0"
    using block_swap [of a pa pb zs "\<lambda>x. cmp x v = 0" "\<lambda>x. cmp x v < 0", OF _ _ _ _ _ _ refl] z' c by auto
  have lu: "length us = length zs" by (rule perm_in_length [OF u(2)])
  have keep: "elt us i = elt zs i" if "pb \<le> i" "i < pn" for i using perm_in_outside [OF u(2), of i] that c z(3) z'(1-3) by auto
  let ?t = "min (pd - pc) (pn - pd - 1)"
  have t: "?t = min (pd + 1 - pb) (pn - (pd + 1))" using z(2) by (simp add: algebra_simps)
  have "\<exists>ws. (if ?t > 0 then bm_swapfunc us pb (pn - ?t) ?t else Inr us) = Inr ws \<and> perm_in pb pn us ws
      \<and> (\<forall>i. pb \<le> i \<and> i < pb + (pn - (pd + 1)) \<longrightarrow> cmp (elt ws i) v = 0) \<and> (\<forall>i. pb + (pn - (pd + 1)) \<le> i \<and> i < pn \<longrightarrow> 0 < cmp (elt ws i) v)"
  proof (rule block_swap [where P = "\<lambda>x. 0 < cmp x v" and Q = "\<lambda>x. cmp x v = 0", OF _ _ _ _ _ _ t])
    show "0 < cmp (elt us i) v" if "pb \<le> i" "i < pd + 1" for i using that keep [of i] z'(6) z'(10) [of i] z(2) by auto
    show "cmp (elt us i) v = 0" if "pd + 1 \<le> i" "i < pn" for i using that keep [of i] z'(5) z'(11) [of i] z(2) by auto
  qed (use z'(1-7) z(2,3) lu in auto)
  then obtain ws where w: "(if ?t > 0 then bm_swapfunc us pb (pn - ?t) ?t else Inr us) = Inr ws"
      "perm_in pb pn us ws" "\<And>i. pb \<le> i \<Longrightarrow> i < pn - (pd - pc) \<Longrightarrow> cmp (elt ws i) v = 0" "\<And>i. pn - (pd - pc) \<le> i \<Longrightarrow> i < pn \<Longrightarrow> 0 < cmp (elt ws i) v"
    unfolding c(3) by blast
  have L: "cmp (elt ws i) v < 0" if "a \<le> i" "i < a + (pb - pa)" for i
    using perm_in_outside [OF w(2), of i] u(3) [OF that] that c lu z'(1) by auto
  have M: "cmp (elt ws i) v = 0" if "a + (pb - pa) \<le> i" "i < pn - (pd - pc)" for i
    using perm_in_outside [OF w(2), of i] u(4) [of i] w(3) [of i] that c lu z'(1-3) by (cases "i < pb") auto
  have zw: "perm_in a pn zs ws"
    using perm_in_trans [OF perm_in_widen [OF u(2)] perm_in_widen [OF w(2)]] c z(3) z'(1-3) lu by auto
  with u(1) w(1,4) L M show ?thesis by blast
qed

lemma bm_qsort_ok:
  assumes ord: "cmp_order cmp"
  shows "0 \<le> a \<Longrightarrow> 0 \<le> n \<Longrightarrow> a + n \<le> int (length xs) \<Longrightarrow> n < int k \<Longrightarrow>
   \<exists>ys. bm_qsort k words cmp xs a n = Inr ys \<and> perm_in a (a + n) xs ys \<and> sorted_in cmp a (a + n) ys"
proof (induction k arbitrary: a n xs)
  case 0
  then show ?case by simp
next
  case (Suc k)
  show ?case
  proof (cases "n < 7")
    case True
    have "n = int (nat n)" using Suc.prems(2) by simp
    with insertion_ok [OF ord Suc.prems(1), of "nat n" xs] Suc.prems(3) True show ?thesis by simp
  next
    case False
    then have n7: "7 \<le> n" by simp
    obtain pm ys pv zs pa pb pc pd v where p: "choose_pivot cmp xs a n = Inr pm" "pv_init words xs a pm = Inr (ys, pv)"
        "part_loop cmp pv ys a a (a + (n - 1)) (a + (n - 1)) = Inr (zs, pa, pb, pc, pd)" "zones cmp v zs a pa pb pc pd (a + (n - 1))"
        "pb = pc + 1" "perm_in a (a + n) xs zs" "(pb - pa) + (pd - pc) < n"
      using partition_ok [OF ord Suc.prems(1) n7 Suc.prems(3), of words] by blast
    note z = zonesD [OF p(4)]
    define s1 s2 pn where "s1 = pb - pa" and "s2 = pd - pc" and "pn = a + n"
    have "zones cmp v zs a pa pb pc pd (pn - 1)" "pn \<le> int (length zs)"
      using p(4) Suc.prems(3) perm_in_length [OF p(6)] by (simp_all add: pn_def add_diff_eq)
    then obtain us ws where w: "(if min (pa - a) (pb - pa) > 0 then bm_swapfunc zs a (pb - min (pa - a) (pb - pa)) (min (pa - a) (pb - pa)) else Inr zs) = Inr us"
        "(if min (pd - pc) (pn - pd - 1) > 0 then bm_swapfunc us pb (pn - min (pd - pc) (pn - pd - 1)) (min (pd - pc) (pn - pd - 1)) else Inr us) = Inr ws"
        "perm_in a pn zs ws" "\<And>i. a \<le> i \<Longrightarrow> i < a + s1 \<Longrightarrow> cmp (elt ws i) v < 0"
        "\<And>i. a + s1 \<le> i \<Longrightarrow> i < pn - s2 \<Longrightarrow> cmp (elt ws i) v = 0" "\<And>i. pn - s2 \<le> i \<Longrightarrow> i < pn \<Longrightarrow> 0 < cmp (elt ws i) v"
      using swap_zones [of cmp v zs a pa pb pc pd pn] p(5) by (auto simp: s1_def s2_def)
    have c: "0 \<le> s1" "0 \<le> s2" "s1 < n" "s2 < n" "a + s1 \<le> pn - s2" "pn \<le> int (length ws)"
      using z(1-7) p(5,7) Suc.prems(3) perm_in_length [OF p(6)] perm_in_length [OF w(3)] by (auto simp: s1_def s2_def pn_def)
    have seg: "\<exists>qs. (if m > 1 then bm_qsort k words cmp rs l m else Inr rs) = Inr qs \<and> perm_in l h rs qs \<and> sorted_in cmp l h qs"
      if "0 \<le> l" "0 \<le> m" "h \<le> int (length rs)" "m < n" "h = l + m" for l m h and rs :: "'a list"
      using Suc.IH [of l m rs] Suc.prems(4) that perm_in_refl [of l h rs] small_sorted [of m cmp l rs] by (cases "m > 1") auto
    have fin: "perm_in a pn ws qs \<and> sorted_in cmp a pn qs"
      if "perm_in l1 h1 ws rs" "perm_in l2 h2 rs qs" "sorted_in cmp l1 h1 rs" "sorted_in cmp l2 h2 qs"
        "l1 = a \<and> h1 = a + s1 \<and> l2 = pn - s2 \<and> h2 = pn \<or> l1 = pn - s2 \<and> h1 = pn \<and> l2 = a \<and> h2 = a + s1" for l1 h1 l2 h2 rs qs
    proof (rule sort_zones [OF ord z(1) _ c(5) _ c(6) _ _ _ that])
      show "cmp (elt ws i) v < 0" if "a \<le> i" "i < a + s1" for i using w(4) that .
      show "cmp (elt ws i) v = 0" if "a + s1 \<le> i" "i < pn - s2" for i using w(5) that .
      show "0 < cmp (elt ws i) v" if "pn - s2 \<le> i" "i < pn" for i using w(6) that .
    qed (use c in auto)
    have "\<exists>qs. bm_qsort (Suc k) words cmp xs a n = Inr qs \<and> perm_in a pn ws qs \<and> sorted_in cmp a pn qs"
    proof (cases "s1 < s2")
      case True
      obtain rs where r: "(if s1 > 1 then bm_qsort k words cmp ws a s1 else Inr ws) = Inr rs" "perm_in a (a + s1) ws rs" "sorted_in cmp a (a + s1) rs"
        using seg [OF z(1) c(1) _ c(3) refl, of ws] c by auto
      obtain qs where q: "(if s2 > 1 then bm_qsort k words cmp rs (pn - s2) s2 else Inr rs) = Inr qs" "perm_in (pn - s2) pn rs qs" "sorted_in cmp (pn - s2) pn qs"
        using seg [of "pn - s2" s2 pn rs] c z(1) perm_in_length [OF r(2)] by auto
      have "bm_qsort (Suc k) words cmp xs a n = Inr qs"
        using False p(1-3) w(1,2) True r(1) q(1) unfolding s1_def s2_def pn_def by (simp add: Let_def)
      with fin [OF r(2) q(2) r(3) q(3)] show ?thesis by auto
    next
      case le: False
      obtain rs where r: "(if s2 > 1 then bm_qsort k words cmp ws (pn - s2) s2 else Inr ws) = Inr rs" "perm_in (pn - s2) pn ws rs" "sorted_in cmp (pn - s2) pn rs"
        using seg [of "pn - s2" s2 pn ws] c z(1) by auto
      obtain qs where q: "(if s1 > 1 then bm_qsort k words cmp rs a s1 else Inr rs) = Inr qs" "perm_in a (a + s1) rs qs" "sorted_in cmp a (a + s1) qs"
        using seg [OF z(1) c(1) _ c(3) refl, of rs] c perm_in_length [OF r(2)] by auto
      have "bm_qsort (Suc k) words cmp xs a n = Inr qs"
        using False p(1-3) w(1,2) le r(1) q(1) unfolding s1_def s2_def pn_def by (simp add: Let_def)
      with fin [OF r(2) q(2) r(3) q(3)] show ?thesis by auto
    qed
    then show ?thesis using perm_in_trans [OF perm_in_trans [OF p(6)]] w(3) unfolding pn_def by blast
  qed
qed

section \<open>Sorting an array and searching it\<close>

lemma sorted_in_all: "sorted_in cmp 0 (int (length xs)) xs \<longleftrightarrow> sorted_wrt (\<lambda>x y. cmp x y \<le> 0) xs"
proof
  assume s: "sorted_in cmp 0 (int (length xs)) xs"
  have "cmp (xs ! i) (xs ! j) \<le> 0" if "i < j" "j < length xs" for i j
    using s that unfolding sorted_in_def elt_def by (elim allE [of _ "int i"] allE [of _ "int j"]) auto
  then show "sorted_wrt (\<lambda>x y. cmp x y \<le> 0) xs" by (auto simp: sorted_wrt_iff_nth_less)
qed (auto simp: sorted_in_def elt_def sorted_wrt_iff_nth_less)

lemma ssort_ok:
  assumes "cmp_order cmp" "length xs < fuel"
  shows "\<exists>ys. ssort fuel base elsize cmp xs = Inr ys \<and> mset ys = mset xs \<and> sorted_wrt (\<lambda>x y. cmp x y \<le> 0) ys"
proof -
  obtain ys where y: "bm_qsort fuel (bm_swapinit base elsize = 0) cmp xs 0 (int (length xs)) = Inr ys"
      "perm_in 0 (0 + int (length xs)) xs ys" "sorted_in cmp 0 (0 + int (length xs)) ys"
    using bm_qsort_ok [OF assms(1), of 0 "int (length xs)" xs fuel] assms(2) by auto
  then have "sorted_wrt (\<lambda>x y. cmp x y \<le> 0) ys" using sorted_in_all [of cmp ys] perm_in_length [OF y(2)] by simp
  with y(1,2) show ?thesis by (auto simp: ssort_def perm_in_def)
qed

lemma read_slots: "mapR (optR UninitRead) (map Some l) = Inr l"
  by (induction l) auto

lemma sortXA_ok:
  assumes "wf_xa xa" "xa_cmpFn xa = Some cmp" "cmp_order cmp" "length (xa_elems xa) < fuel"
  shows "\<exists>xa'. sortXA fuel base xa = Inr xa' \<and> wf_xa xa' \<and> mset (xa_elems xa') = mset (xa_elems xa)
    \<and> sorted_wrt (\<lambda>x y. cmp x y \<le> 0) (xa_elems xa') \<and> xa_cmpFn xa' = Some cmp \<and> xa_sorted xa'"
proof -
  obtain rest where h: "xa_holds xa (xa_elems xa) rest" using assms(1) by (rule wf_holds)
  obtain l where l: "ssort fuel base (uword (xa_elemSzB xa)) cmp (xa_elems xa) = Inr l" "mset l = mset (xa_elems xa)"
      "sorted_wrt (\<lambda>x y. cmp x y \<le> 0) l"
    using ssort_ok [OF assms(3,4)] by blast
  have len: "length l = length (xa_elems xa)" using l(2) by (metis size_mset)
  have slots: "take (nat (xa_usedsizeE xa)) (xa_slots xa) = map Some (xa_elems xa)" using h by (simp add: xa_holds_def)
  let ?xa = "xa\<lparr>xa_arr := map_option (\<lambda>sl. map Some l @ drop (length l) sl) (xa_arr xa), xa_sorted := True\<rparr>"
  have s: "sortXA fuel base xa = Inr ?xa" using l(1) assms(2) by (simp add: sortXA_def slots read_slots)
  have "xa_holds ?xa l rest"
    using h len by (cases "xa_arr xa") (auto simp: xa_holds_def xa_slots_def)
  then have "wf_xa ?xa" "xa_elems ?xa = l" by (auto dest: holds_wf holds_elems)
  with s l assms(2) show ?thesis by auto
qed

lemma sortXA_lookup:
  assumes "wf_xa xa" "xa_cmpFn xa = Some cmp" "cmp_order cmp" "length (xa_elems xa) < fuel" "int (length (xa_elems xa)) < 2 ^ 62"
  shows "\<exists>xa'. sortXA fuel base xa = Inr xa' \<and> wf_xa xa' \<and> mset (xa_elems xa') = mset (xa_elems xa)
    \<and> sorted_wrt (\<lambda>x y. cmp x y \<le> 0) (xa_elems xa')
    \<and> (\<forall>key wF wL. lookupXA xa' key wF wL = Inr (lookup_result wF wL (hits cmp key (xa_elems xa'))))"
proof -
  obtain xa' where x: "sortXA fuel base xa = Inr xa'" "wf_xa xa'" "mset (xa_elems xa') = mset (xa_elems xa)"
      "sorted_wrt (\<lambda>x y. cmp x y \<le> 0) (xa_elems xa')" "xa_cmpFn xa' = Some cmp" "xa_sorted xa'"
    using sortXA_ok [OF assms(1-4)] by blast
  have "length (xa_elems xa') = length (xa_elems xa)" using x(3) by (metis size_mset)
  then have "lookupXA xa' key wF wL = Inr (lookup_result wF wL (hits cmp key (xa_elems xa')))" for key wF wL
    using lookupXA_UNSAFE_ok [OF x(2) _ assms(3) x(4)] assms(5) x(5,6) by (simp add: lookupXA_def)
  with x show ?thesis by auto
qed

end
