(* ===== verification/Spec2Isabelle.thy ===== *)
theory Spec2Isabelle
  imports Ct_Program Cl_Program Core_RangeMap Core_Sort
begin

text \<open>
  A verification development for cstracer and ctlite, two Valgrind tools (\<open>src/cstracer\<close>,
  \<open>src/ctlite\<close>), and for the part of Valgrind's intermediate representation library that they
  are written against (\<open>src/VEX/priv/ir_defs.c\<close>, and the passes of \<open>src/VEX/priv/ir_opt.c\<close> that run before and
  after instrumentation), and for containers of Valgrind's core (\<open>m_xarray.c\<close>, \<open>m_rangemap.c\<close> and the sort
  function of \<open>m_libcbase.c\<close>, under \<open>src/coregrind\<close>).

  \<^bold>\<open>The program.\<close> Valgrind translates the guest program block by block into VEX IR. A tool's
  \<open>instrument\<close> function receives each block and returns a block with calls of the tool's helper
  functions inserted; when the block runs, the helpers record what the guest does. cstracer keeps one
  record per guest instruction (registers, memory addresses and cache lines, branches) and writes the
  records of a window of instructions to a trace file for the ChampSim simulator. ctlite counts
  instruction and data accesses per region and branch outcomes, and writes the counters to its file
  at every heartbeat.

  \<^bold>\<open>The theories\<close>, in the order of their imports:

  \<^item> \<open>Base_Prelude\<close>: errors as values (\<open>vex_err\<close>, the monad of \<open>res\<close>), little-endian bytes, shared
    lemmas.
  \<^item> \<open>Vex_IR\<close> (\<open>libvex_ir.h\<close>, \<open>ir_defs.c\<close>): IR data, constructor functions, growable statement and
    type arrays. \<open>Vex_Primops\<close>: the signature table of \<open>typeOfPrimop\<close>. \<open>Vex_Types\<close>: types of
    expressions, sizes, deep copies. \<open>Vex_Sanity\<close>: \<open>sanityCheckIRSB\<close>; its checks are monotone in
    the type environment, which is what makes inserting statements with fresh temporaries safe.
  \<^item> \<open>Tool_Instrument\<close> and \<open>Tool_Access\<close>: the structure that \<open>ct_instrument\<close> and \<open>cl_instrument\<close>
    share. The locale \<open>stmt_instrumenter\<close> has as its laws what one step of the statement loop does;
    its theorems are about whole blocks. The locale \<open>access_calls\<close> does the same for the calls at
    memory accesses. Both are interpreted for both tools.
  \<^item> \<open>Guest_Layout\<close>: the guest state structs with offsets computed by the alignment rules of C, the
    register codes, and the functions from offsets to codes.
  \<^item> \<open>Ct_Record\<close>, \<open>Ct_Encode\<close>, \<open>Ct_Window\<close>, \<open>Ct_Instrument\<close> (\<open>ct_main.c\<close>): the record and its
    helpers, with the locale \<open>slot_table\<close> for its arrays; the bytes of a record; \<open>inc_inst\<close> and runs;
    the instrumentation. \<open>Trace_Codec\<close> has the locale \<open>codec\<close> of self-delimiting formats, interpreted
    for the records of cstracer and the snapshots of ctlite.
  \<^item> \<open>Ctlite\<close>, \<open>Cl_Instrument\<close> (\<open>cl_main.c\<close>): the counters with the specification they refine; the
    instrumentation.
  \<^item> \<open>Tool_Calls\<close>: which helper calls an instrumented block makes, in order, for both tools, through the
    locale \<open>event_step\<close>.
  \<^item> \<open>Vex_Sem\<close>: what a block means. The record \<open>ir_sem\<close> holds the values of operations and the effects
    of statements as parameters. \<open>Opt_Deadcode\<close>, \<open>Opt_Cleanup\<close>, \<open>Opt_Flatten\<close>, \<open>Opt_Flatten_Run\<close>
    (\<open>ir_opt.c\<close>): dead code removal and flattening, correct for every value of that record.
  \<^item> \<open>Vex_Values\<close>, \<open>Vex_Sigs\<close>: the values of constants and of the primitive operations that the optimiser
    folds. \<open>Opt_Fold\<close> (\<open>fold_Expr\<close>, \<open>sameIRExprs\<close>, \<open>chase\<close>), with \<open>Opt_Fold_Sound\<close> and
    \<open>Opt_Fold_Correct\<close>: a folded expression has the value and the type of the original; \<open>Opt_Fold_Total\<close>: when
    folding succeeds, and how many rounds \<open>chase\<close> needs. \<open>Opt_Cprop\<close> (\<open>cprop_BB\<close>): constant propagation, with
    the invariant of its environment (\<open>Opt_Cprop_Env\<close>), one statement (\<open>Opt_Cprop_Stmt\<close>), the whole block
    (\<open>Opt_Cprop_Run\<close>) and the sanity of its result (\<open>Opt_Cprop_Sane\<close>). \<open>Opt_Pipeline\<close>: the cleanup after
    instrumentation of \<open>main_main.c\<close>, which is dead code removal, constant propagation, dead code removal again and
    the sanity checker.
  \<^item> \<open>Tool_Run\<close>: running instrumented blocks, for every behaviour of the helpers.
  \<^item> \<open>Tool_Log\<close>: the calls that a run of an instrumented block makes, with the values of their arguments,
    computed from a run of the original block; the locale \<open>logged_step\<close> has the law for one statement.
    \<open>Tool_Trace\<close>: its interpretations for the two tools. \<open>Tool_Program\<close>: runs of many blocks with the
    helpers of a tool behind the calls. \<open>Ct_Program\<close>, \<open>Cl_Program\<close>: from a running program to the
    decoded file of each tool.
  \<^item> \<open>Options\<close>, \<open>Tool_Options\<close>: string functions of \<open>m_libcbase.c\<close>, the option recognisers of
    \<open>pub_tool_options.h\<close>, the options and the start-up of both tools.
  \<^item> \<open>Core_XArray\<close> (\<open>m_xarray.c\<close>): extensible arrays. The locale \<open>growable_array\<close> states what a client relies on;
    it is interpreted for the code's operations, and its lemmas carry the range maps. \<open>Core_Lookup\<close>: the binary
    search of \<open>VG_(lookupXA)\<close>. \<open>Core_RangeMap\<close> (\<open>m_rangemap.c\<close>): maps from address ranges to values, as functions on
    addresses. \<open>Core_Sort\<close> (\<open>m_libcbase.c\<close>): the quicksort behind \<open>VG_(sortXA)\<close>.

  \<^bold>\<open>State and effects.\<close> The static variables of a tool are a record, passed through its functions.
  Counters are 64-bit words and wrap around; theorems about runs bound the number of instructions by
  \<open>2 ^ 64\<close>. A failed assertion, a panic, undefined arithmetic, an overrun buffer and an exit for a bad
  option are values of \<open>vex_err\<close>. Files are the lists of the buffers written to them. A NULL pointer
  is \<open>None\<close>. Fuel occurs in three places: in the file decoders, as a bound on the number of records; in \<open>chase\<close>,
  where the theorem on it shows that two rounds are enough for the environments that constant propagation builds; and in
  the quicksort, whose recursion ends only if the comparison function gives an order, and for which one unit more than the
  number of elements is enough. Array sizes are words; the theorems on arrays, searches and range maps bound the number
  of elements so that the sizes that the code computes are words too.

  \<^bold>\<open>Parameters.\<close> The memory that the helpers read, the process number and which files can be
  opened are arguments of the definitions. The meaning of IR operations and statements is the record
  \<open>ir_sem\<close>; the hypotheses on it are \<open>sem_bits\<close>, that the constants of type \<open>Ity_I1\<close> are false
  and true, and \<open>arg_const\<close>, that a 64-bit constant is passed to a helper as it is; and for constant propagation
  \<open>sem_ok\<close> and \<open>acts_typed\<close>, that the operations which are folded mean what their description in
  \<open>libvex_ir.h\<close> says and that values have the types of their temporaries (\<open>meaning_ok\<close> collects these for a list of
  blocks). The blocks are sane and of the kind that front ends produce (\<open>plain_sb\<close>, and \<open>block_ok\<close> for a tool). Which block runs
  next is not decided by the model: a program is the list of the blocks that it runs.

  \<^bold>\<open>What the theorems show.\<close> For each tool: instrumentation of a sane block succeeds, its result is
  sane, and erasing the tool's statements gives the block back; the helpers keep the invariant of the
  record (cstracer) or refine the specification (ctlite) along every run; the file of a run decodes to
  what the instructions of the run did, and these instructions are the ones that the blocks of the
  program execute (\<open>ct_program_trace\<close>, \<open>cl_program_counts\<close>). For blocks on their way from the front end to the back end:
  flattening, instrumentation and the cleanup after it succeed, and together they leave the guest's behaviour as it was,
  while the cleanup leaves the tool's (\<open>ct_pipeline\<close>, \<open>cl_pipeline\<close>); each pass alone keeps the outcome of a block
  as well. For the containers: arrays behave as lists and range maps as functions, with a representation that is unique,
  and sorted arrays are searched correctly. For the components: what each table of the record holds, how
  long an encoded record is, which register an offset stands for, what the options set, and what the
  code does in the cases it does not handle.

  \<^bold>\<open>Not modelled.\<close> The front ends and back ends of VEX, the other passes of its optimiser (redundant GET and PUT removal, common
  subexpressions, loop unrolling, tree building), the rest of the core of Valgrind (scheduler, system calls, signals,
  memory manager, debug information), and the other tools. Of the two tools: usage texts, messages
  at start-up, the registration in \<open>pre_clo_init\<close>, and \<open>print_inst\<close>, which nothing calls.
\<close>

section \<open>Inputs of the witnesses\<close>

definition sample_block :: IRSB where
  "sample_block = \<lparr>tyenv = \<lparr>types = [Ity_I64, Ity_I64, Ity_I1], types_size = 8\<rparr>,
     stmts = [Some (Ist_IMark 0x1000 3 0), Some (Ist_WrTmp 0 (Iex_Get 16 Ity_I64)),
       Some (Ist_WrTmp 1 (Iex_Load Iend_LE Ity_I64 (Iex_RdTmp 0))), Some (Ist_Put 24 (Iex_RdTmp 1)),
       Some Ist_NoOp, Some (Ist_IMark 0x1003 2 0), Some (Ist_WrTmp 2 (Iex_Const (Ico_U1 1))),
       Some (Ist_Exit (Iex_RdTmp 2) Ijk_Boring (Ico_U64 0x1005) 184)],
     stmts_size = 8, sb_next = Some (Iex_Const (Ico_U64 0x2000)), sb_jumpkind = Ijk_Boring,
     sb_offsIP = 184\<rparr>"

definition sample_linear :: IRSB where
  "sample_linear = sample_block\<lparr>stmts := take 6 (stmts sample_block) @ [Some (Ist_Store Iend_LE (Iex_RdTmp 1) (Iex_RdTmp 0))]\<rparr>"

definition sample_run :: "guest_instr list" where
  "sample_run = [(0x1000, 3, [C_trace_reg_read 5]), (0x1003, 2, [C_trace_load (\<lambda>_. 7) 0x8000 4]),
     (0x1005, 1, []), (0x1006, 1, [C_trace_reg_write 3])]"

lemma sample_block_sane: "sanityCheckIRSB sample_block True Ity_I64 = Inr ()"
  by code_simp

lemma sample_block_env: "wf_env (tyenv sample_block)"
  by (simp add: sample_block_def wf_env_def)

lemma sample_block_flat: "flat_stmts (stmts sample_block)"
  by (rule sane_block_facts(3) [OF sample_block_sane])

lemma sample_block_ct: "all_req (ct_req Amd64 (tyenv sample_block)) (0, 0) (from_first_imark (stmts sample_block))"
  by code_simp

lemma sample_block_cl: "all_req (cl_req Amd64 (tyenv sample_block)) (0, 0) (from_first_imark (stmts sample_block))"
  by code_simp

lemma sample_block_no_tools: "\<forall>st\<in>set (stmts sample_block). \<not> is_tool_stmt fns 3 st"
  by (simp add: sample_block_def is_tool_stmt_def)


lemma sample_linear_sane: "sanityCheckIRSB sample_linear True Ity_I64 = Inr ()"
  by code_simp

lemma sample_linear_ok: "all_req (ct_req Amd64 (tyenv sample_linear)) (0, 0) (from_first_imark (stmts sample_linear))"
  "all_req (cl_req Amd64 (tyenv sample_linear)) (0, 0) (from_first_imark (stmts sample_linear))"
  by code_simp+

definition sample_sem :: "(int, int list) ir_sem" where
  "sample_sem = \<lparr>sem_const = (\<lambda>c. case c of Ico_U1 b \<Rightarrow> uint b | Ico_U64 w \<Rightarrow> uint w | _ \<Rightarrow> 0),
     sem_op = (\<lambda>_ vs. sum_list vs), sem_get = (\<lambda>w off _. off + sum_list w), sem_geti = (\<lambda>w _ v b. v + b),
     sem_load = (\<lambda>w _ _ a. a + sum_list w), sem_ccall = (\<lambda>_ _ vs. sum_list vs), sem_special = (\<lambda>_. 0),
     sem_true = (\<lambda>v. v \<noteq> 0), sem_filler = (\<lambda>_. 5), sem_act = (\<lambda>_ vs w. (vs @ w, (\<lambda>_. sum_list vs)))\<rparr>"

text \<open>A block as a front end hands it over, before flattening.\<close>

definition sample_tree :: IRSB where
  "sample_tree = \<lparr>tyenv = \<lparr>types = [Ity_I64], types_size = 8\<rparr>,
     stmts = [Some (Ist_IMark 0x1000 3 0), None,
       Some (Ist_WrTmp 0 (Iex_Load Iend_LE Ity_I64 (Iex_Binop (Iop ''Add64'') (Iex_Get 16 Ity_I64) (Iex_Const (Ico_U64 8))))),
       Some (Ist_Store Iend_LE (Iex_Get 24 Ity_I64) (Iex_Unop (Iop ''Not64'') (Iex_RdTmp 0)))],
     stmts_size = 8, sb_next = Some (Iex_Get 184 Ity_I64), sb_jumpkind = Ijk_Boring, sb_offsIP = 184\<rparr>"

definition sample_flat :: IRSB where
  "sample_flat = \<lparr>tyenv = \<lparr>types = replicate 7 Ity_I64, types_size = 8\<rparr>,
     stmts = [Some (Ist_IMark 0x1000 3 0), Some (Ist_WrTmp 3 (Iex_Get 16 Ity_I64)),
       Some (Ist_WrTmp 2 (Iex_Binop (Iop ''Add64'') (Iex_RdTmp 3) (Iex_Const (Ico_U64 8)))),
       Some (Ist_WrTmp 1 (Iex_Load Iend_LE Ity_I64 (Iex_RdTmp 2))), Some (Ist_WrTmp 0 (Iex_RdTmp 1)),
       Some (Ist_WrTmp 4 (Iex_Get 24 Ity_I64)), Some (Ist_WrTmp 5 (Iex_Unop (Iop ''Not64'') (Iex_RdTmp 0))),
       Some (Ist_Store Iend_LE (Iex_RdTmp 4) (Iex_RdTmp 5)), Some (Ist_WrTmp 6 (Iex_Get 184 Ity_I64))],
     stmts_size = 16, sb_next = Some (Iex_RdTmp 6), sb_jumpkind = Ijk_Boring, sb_offsIP = 184\<rparr>"

lemma sample_flat_eq: "flatten_BB sample_tree = Inr sample_flat"
  by code_simp

lemma sample_flat_sane: "sanityCheckIRSB sample_flat True Ity_I64 = Inr ()"
  by code_simp

lemma sample_tree_env: "wf_env (tyenv sample_tree)"
  by (simp add: sample_tree_def wf_env_def)

lemma sample_flat_env: "wf_env (tyenv sample_flat)"
  by (simp add: sample_flat_def wf_env_def)

lemma sample_tree_range: "in_range sample_tree (block_exprs sample_tree)"
  by (simp add: sample_tree_def block_exprs_def)

lemma sample_flat_ct: "all_req (ct_req Amd64 (tyenv sample_flat)) (0, 0) (from_first_imark (stmts sample_flat))"
  by code_simp

lemma sample_flat_cl: "all_req (cl_req Amd64 (tyenv sample_flat)) (0, 0) (from_first_imark (stmts sample_flat))"
  by code_simp

lemma sample_flat_no_tools:
  "\<forall>st\<in>set (stmts sample_flat). \<not> is_tool_stmt fns (types_used (tyenv sample_flat)) st"
  by (simp add: sample_flat_def is_tool_stmt_def)

lemma sample_flat_calls: "plain_sb sample_flat \<and> (\<forall>x\<in>set (stmts sample_flat). result_unguarded x)"
  by (auto simp: plain_sb_def sample_flat_def)

lemma sample_block_plain: "plain_sb sample_block \<and> (\<forall>x\<in>set (stmts sample_block). result_unguarded x)"
  by (auto simp: plain_sb_def sample_block_def)

lemma sample_sem_bits: "sem_bits sample_sem"
  by (simp add: sem_bits_def sample_sem_def)

lemma sample_block_calls: "skipped_no_result (stmts sample_block)"
  by (simp add: skipped_no_result_def sample_block_def never_called_def)

lemma sample_blocks_ok:
  "block_ok ct_helpers (ct_req Amd64) Ity_I64 sample_linear \<and> marks_ok sample_linear" "block_ok cl_helpers (cl_req Amd64) Ity_I64 sample_linear"
  "block_ok ct_helpers (ct_req Amd64) Ity_I64 sample_flat" "block_ok cl_helpers (cl_req Amd64) Ity_I64 sample_flat"
proof -
  have "wf_env (tyenv sample_linear)" "marks_ok sample_linear" "plain_sb sample_linear" "\<forall>x\<in>set (stmts sample_linear). result_unguarded x"
      "\<forall>st\<in>set (stmts sample_linear). \<not> is_tool_stmt fns (types_used (tyenv sample_linear)) st" for fns
    by (auto simp: wf_env_def marks_ok_def plain_sb_def is_tool_stmt_def sample_linear_def sample_block_def)
  then show "block_ok ct_helpers (ct_req Amd64) Ity_I64 sample_linear \<and> marks_ok sample_linear"
      "block_ok cl_helpers (cl_req Amd64) Ity_I64 sample_linear"
      "block_ok ct_helpers (ct_req Amd64) Ity_I64 sample_flat" "block_ok cl_helpers (cl_req Amd64) Ity_I64 sample_flat"
    by (simp_all add: block_ok_def sample_linear_sane sample_linear_ok
        sample_flat_env sample_flat_sane sample_flat_ct sample_flat_cl sample_flat_no_tools sample_flat_calls)
qed

text \<open>Reading the value of an argument; \<open>log_sem\<close> is the meaning that records actions.\<close>

fun arg64 :: "ir_val \<Rightarrow> 64 word" where
  "arg64 (V64 w) = w"
| "arg64 _ = 0"

lemma log_sem_arg: "arg_const log_sem arg64"
  by (simp add: arg_const_def log_sem_def)

lemma sample_acts: "acts_typed E log_sem (stmts sample_linear)" "acts_typed E log_sem (stmts sample_flat)"
  by (auto simp: acts_typed_def sample_linear_def sample_block_def sample_flat_def)

lemma sample_meaning: "meaning_ok log_sem [sample_linear, sample_linear]" "meaning_ok log_sem [sample_flat]"
  by (simp_all add: meaning_ok_def log_sem_ok sample_acts)

lemma sample_run_good: "\<forall>x\<in>set sample_run. good_instr x"
  by (simp add: sample_run_def)

section \<open>cstracer as a whole\<close>

text \<open>C1. cstracer on a program. A program is given by the blocks it runs, in their order. All of them are
  instrumented and cleaned up without failure; cstracer starts with \<open>--skip=K --trace=T\<close>; the blocks
  that result leave the guest's world exactly as the original blocks do, while the helpers behind their
  calls all succeed; and the trace file decodes to the records of the instructions numbered \<open>K + 1\<close> to
  \<open>K + T - 1\<close> among those that the original blocks execute. \<open>executed_program\<close> reads these off a run of
  the original blocks: an instruction starts at its \<open>IMark\<close>, and its events are the registers it reads
  and writes, its memory accesses with their addresses and the memory they see, the outcomes of its
  conditional exits, and its jump at the end of a block.\<close>

theorem ct_program_trace:
  assumes "opens (''tracefile_'' @ decimal (unat pid))" "K + T < 2 ^ 64 - 1"
    and "\<forall>b\<in>set bs. block_ok ct_helpers (ct_req p) gw b \<and> marks_ok b" "meaning_ok S bs" "arg_const S arg"
    and "length (executed_program (ct_decode arg mem) S p r g bs) < 2 ^ 64"
  shows "\<exists>bs2 s s'. mapR (clean_block (ct_instrument p) gw) bs = Inr bs2
    \<and> ct_start pid opens [int_option ''--skip'' K, int_option ''--trace'' T] = Inr s
    \<and> run_blocks (with_tool ct_helpers S (on_entry (ct_tool p arg mem))) r (g, Inr s) bs2 = (run_blocks S r g bs, Inr s')
    \<and> dec_all decode_record (Suc (length (executed_program (ct_decode arg mem) S p r g bs))) (concat (trace_out s'))
        = Some (map (\<lambda>x. view_of (record_of p x)) (written K T (executed_program (ct_decode arg mem) S p r g bs)))"
  by (rule ct_program_decodes [where opens = opens and pid = pid, OF assms])

theorem ct_program_trace_witness:
  "\<exists>bs2 s s'. mapR (clean_block (ct_instrument Amd64) Ity_I64) [sample_linear, sample_linear] = Inr bs2
    \<and> ct_start 7 (\<lambda>_. True) [int_option ''--skip'' 0, int_option ''--trace'' 3] = Inr s
    \<and> run_blocks (with_tool ct_helpers log_sem (on_entry (ct_tool Amd64 arg64 (\<lambda>_ _. 7)))) (\<lambda>_. V64 0) ([], Inr s) bs2
        = (run_blocks log_sem (\<lambda>_. V64 0) [] [sample_linear, sample_linear], Inr s')
    \<and> dec_all decode_record (Suc 4) (concat (trace_out s')) = Some (map (\<lambda>x. view_of (record_of Amd64 x))
        (written 0 3 (executed_program (ct_decode arg64 (\<lambda>_ _. 7)) log_sem Amd64 (\<lambda>_. V64 0) [] [sample_linear, sample_linear])))"
proof -
  have n: "length (executed_program (ct_decode arg64 (\<lambda>_ _. 7)) log_sem Amd64 (\<lambda>_. V64 0) [] [sample_linear, sample_linear]) = 4"
    by code_simp
  have ok: "\<forall>b\<in>set [sample_linear, sample_linear]. block_ok ct_helpers (ct_req Amd64) Ity_I64 b \<and> marks_ok b"
    using sample_blocks_ok(1) by simp
  show ?thesis
    using ct_program_trace [OF _ _ ok sample_meaning(1) log_sem_arg, of "\<lambda>_. True" 7 0 3 "\<lambda>_ _. 7" "\<lambda>_. V64 0" "[]"]
    unfolding n by simp
qed

text \<open>C2. The trace file of a run. With \<open>--skip=K --trace=T\<close> on the command line and a trace file
  that can be opened, cstracer starts; for every sequence of guest instructions the helper calls
  all succeed; and the decoder of the file format applied to what was written gives exactly the views
  of the records of the instructions numbered \<open>K + 1\<close> to \<open>K + T - 1\<close>, as far as the next
  instruction was reached.\<close>

theorem trace_of_run:
  assumes "opens (''tracefile_'' @ decimal (unat pid))" "K + T < 2 ^ 64 - 1"
    and "\<forall>x\<in>set xs. good_instr x" "length xs < 2 ^ 64"
  shows "\<exists>s s'. ct_start pid opens [int_option ''--skip'' K, int_option ''--trace'' T] = Inr s
    \<and> run_calls p s (concat (map instr_calls xs)) = Inr s'
    \<and> dec_all decode_record (Suc (length xs)) (concat (trace_out s'))
        = Some (map (\<lambda>x. view_of (record_of p x)) (written K T xs))"
  by (rule ct_run_decodes [where opens = opens and pid = pid, OF assms])

theorem trace_of_run_witness:
  "\<exists>s s'. ct_start 7 (\<lambda>_. True) [int_option ''--skip'' 1, int_option ''--trace'' 2] = Inr s
    \<and> run_calls Amd64 s (concat (map instr_calls sample_run)) = Inr s'
    \<and> dec_all decode_record (Suc (length sample_run)) (concat (trace_out s'))
        = Some (map (\<lambda>x. view_of (record_of Amd64 x)) (written 1 2 sample_run))"
  by (rule trace_of_run) (simp_all add: sample_run_good, simp add: sample_run_def)

text \<open>C3. The window is one record short: of \<open>T\<close> requested instructions a run that is long enough
  writes \<open>T - 1\<close>, because tracing is turned off before the record of the last one is written.\<close>

theorem window_size:
  assumes "window_state p K T [] s" "\<forall>x\<in>set xs. good_instr x" "length xs < 2 ^ 64"
    and "K + T < 2 ^ 64 - 1" "K + T \<le> length xs"
  shows "\<exists>s'. run_calls p s (concat (map instr_calls xs)) = Inr s' \<and> length (trace_out s') = T - 1"
proof -
  obtain s' where s': "run_calls p s (concat (map instr_calls xs)) = Inr s'" "window_state p K T xs s'"
    using window_run [OF assms(1-4)] by blast
  then have "length (trace_out s') = length (written K T xs)" by (simp add: window_state_def)
  also have "\<dots> = T - 1" using assms(5) by (auto simp: written_def min_def)
  finally show ?thesis using s'(1) by blast
qed

theorem window_size_witness:
  "\<exists>s'. run_calls Arm64 (ct_initial\<lparr>skip := 1, trace_instrs := 2, fd_open := True\<rparr>)
     (concat (map instr_calls sample_run)) = Inr s' \<and> length (trace_out s') = 2 - 1"
proof (rule window_size)
  show "window_state Arm64 1 2 [] (ct_initial\<lparr>skip := 1, trace_instrs := 2, fd_open := True\<rparr>)"
    by (simp add: window_state_def written_def ct_initial_def)
qed (use sample_run_good in \<open>simp_all add: sample_run_def\<close>)

section \<open>Instrumentation\<close>



text \<open>C5. cstracer does not change the program: what is left of an instrumented block when the calls
  of the tool's helpers and the assignments to its fresh temporaries are erased is the original block
  without its NULL and NoOp entries; the old temporaries keep their types and the jump its target.\<close>

theorem ct_instrument_transparent:
  assumes "ct_instrument p sbIn gw hw = Inr sbOut" "wf_env (tyenv sbIn)" "flat_stmts (stmts sbIn)"
    and "\<forall>st\<in>set (stmts sbIn). \<not> is_tool_stmt ct_helpers (types_used (tyenv sbIn)) st"
  shows "erase ct_helpers (types_used (tyenv sbIn)) (stmts sbOut) = filter (\<lambda>st. \<not> skipped st) (stmts sbIn)
    \<and> (\<exists>tys. types (tyenv sbOut) = types (tyenv sbIn) @ tys)
    \<and> sb_next sbOut = sb_next sbIn \<and> sb_jumpkind sbOut = sb_jumpkind sbIn \<and> sb_offsIP sbOut = sb_offsIP sbIn"
  using ct_block_woven [OF assms(1-3)] erase_woven [of ct_helpers _ "stmts sbIn" "stmts sbOut"] assms(4)
  by blast

theorem ct_instrument_transparent_witness:
  "\<exists>sbOut. ct_instrument Amd64 sample_block Ity_I64 Ity_I64 = Inr sbOut
    \<and> erase ct_helpers 3 (stmts sbOut) = filter (\<lambda>st. \<not> skipped st) (stmts sample_block)
    \<and> sb_next sbOut = sb_next sample_block"
proof -
  obtain sbOut where out: "ct_instrument Amd64 sample_block Ity_I64 Ity_I64 = Inr sbOut"
    using ct_block_total [OF sample_block_env sample_block_sane sample_block_ct] by blast
  have n: "types_used (tyenv sample_block) = 3" by (simp add: sample_block_def)
  from ct_instrument_transparent [OF out sample_block_env sample_block_flat, unfolded n,
      OF sample_block_no_tools] out
  show ?thesis by blast
qed



text \<open>C7. Instrumenting with ctlite never fails on such a block, and its result is sane.\<close>

theorem cl_instrument_sane:
  assumes "wf_env (tyenv sbIn)" "sanityCheckIRSB sbIn True gw = Inr ()"
    and "all_req (cl_req p (tyenv sbIn)) (0, 0) (from_first_imark (stmts sbIn))"
  shows "\<exists>sbOut. cl_instrument p sbIn gw gw = Inr sbOut \<and> sanityCheckIRSB sbOut True gw = Inr ()"
  by (rule cl_block_total [OF assms])

theorem cl_instrument_sane_witness:
  "\<exists>sbOut. cl_instrument Amd64 sample_block Ity_I64 Ity_I64 = Inr sbOut
     \<and> sanityCheckIRSB sbOut True Ity_I64 = Inr ()"
  by (rule cl_instrument_sane [OF sample_block_env sample_block_sane sample_block_cl])

text \<open>C8. ctlite does not change the program either.\<close>

theorem cl_instrument_transparent:
  assumes "cl_instrument p sbIn gw hw = Inr sbOut" "wf_env (tyenv sbIn)" "flat_stmts (stmts sbIn)"
    and "\<forall>st\<in>set (stmts sbIn). \<not> is_tool_stmt cl_helpers (types_used (tyenv sbIn)) st"
  shows "erase cl_helpers (types_used (tyenv sbIn)) (stmts sbOut) = filter (\<lambda>st. \<not> skipped st) (stmts sbIn)
    \<and> (\<exists>tys. types (tyenv sbOut) = types (tyenv sbIn) @ tys)
    \<and> sb_next sbOut = sb_next sbIn \<and> sb_jumpkind sbOut = sb_jumpkind sbIn \<and> sb_offsIP sbOut = sb_offsIP sbIn"
  using cl_block_woven [OF assms(1-3)] erase_woven [of cl_helpers _ "stmts sbIn" "stmts sbOut"] assms(4)
  by blast

theorem cl_instrument_transparent_witness:
  "\<exists>sbOut. cl_instrument Amd64 sample_block Ity_I64 Ity_I64 = Inr sbOut
    \<and> erase cl_helpers 3 (stmts sbOut) = filter (\<lambda>st. \<not> skipped st) (stmts sample_block)
    \<and> sb_next sbOut = sb_next sample_block"
proof -
  obtain sbOut where out: "cl_instrument Amd64 sample_block Ity_I64 Ity_I64 = Inr sbOut"
    using cl_block_total [OF sample_block_env sample_block_sane sample_block_cl] by blast
  have n: "types_used (tyenv sample_block) = 3" by (simp add: sample_block_def)
  from cl_instrument_transparent [OF out sample_block_env sample_block_flat, unfolded n,
      OF sample_block_no_tools] out
  show ?thesis by blast
qed



section \<open>Blocks on their way through the translator\<close>





text \<open>C12. Flattening. The result of \<open>flatten_BB\<close> is flat, and it has the outcome of the original block
  from every state, for every meaning of the IR.\<close>

theorem flatten_equivalent:
  assumes "flatten_BB bb = Inr bb'" "wf_env (tyenv bb)" "in_range bb (block_exprs bb)"
  shows "isFlatIRSB bb' = Inr True \<and> block_outcome S s bb' = block_outcome S s bb"
  using flatten_BB_correct [OF assms] by blast

theorem flatten_equivalent_witness:
  "isFlatIRSB sample_flat = Inr True
    \<and> block_outcome sample_sem (\<lambda>_. 0, [7]) sample_flat = block_outcome sample_sem (\<lambda>_. 0, [7]) sample_tree"
  by (rule flatten_equivalent [OF sample_flat_eq sample_tree_env sample_tree_range])

text \<open>C13. Dead code removal keeps the outcome of every block in which a call that is never made has no
  result, for every meaning of the IR in which the two constants of type \<open>Ity_I1\<close> are false and true.\<close>

theorem deadcode_equivalent:
  assumes "do_deadcode_BB bb = Inr bb'" "skipped_no_result (stmts bb)" "sem_bits S"
  shows "block_outcome S s bb' = block_outcome S s bb"
  by (rule do_deadcode_outcome [OF assms])

theorem deadcode_equivalent_witness:
  "\<exists>bb'. do_deadcode_BB sample_block = Inr bb' \<and>
     block_outcome sample_sem (\<lambda>_. 3, [1]) bb' = block_outcome sample_sem (\<lambda>_. 3, [1]) sample_block"
proof -
  obtain bb' where "do_deadcode_BB sample_block = Inr bb'" using do_deadcode_total [OF sample_block_sane] by blast
  then show ?thesis
    using deadcode_equivalent [OF _ sample_block_calls sample_sem_bits, of bb' "(\<lambda>_. 3, [1])"] by blast
qed

text \<open>C14. Constant propagation and folding. On a sane block of plain statements \<open>cprop_BB\<close> runs into none of its
  assertions and panics, its result is sane, and the result has the outcome of the block from every state, for every
  meaning that gives the operations of the folding tables their documented values and all expressions values of their types.\<close>

theorem cprop_equivalent:
  assumes "sanityCheckIRSB bb True gw = Inr ()" "wf_env (tyenv bb)" "plain_sb bb"
  shows "\<exists>bb2. cprop_BB bb = Inr bb2 \<and> sanityCheckIRSB bb2 True gw = Inr ()
    \<and> (\<forall>S s. sem_ok S \<longrightarrow> acts_typed (tyenv bb) S (stmts bb) \<longrightarrow> block_outcome S s bb2 = block_outcome S s bb)"
  using cprop_WRK_total [OF assms, of False True] cprop_WRK_outcome [OF _ assms(1)] unfolding cprop_BB_def by blast

theorem cprop_equivalent_witness:
  "\<exists>bb2. cprop_BB sample_flat = Inr bb2 \<and> sanityCheckIRSB bb2 True Ity_I64 = Inr ()
    \<and> block_outcome log_sem (\<lambda>_. V64 7, []) bb2 = block_outcome log_sem (\<lambda>_. V64 7, []) sample_flat"
proof -
  obtain bb2 where b: "cprop_BB sample_flat = Inr bb2" "sanityCheckIRSB bb2 True Ity_I64 = Inr ()"
      "\<And>(S :: (ir_val, act_log) ir_sem) s. sem_ok S \<Longrightarrow> acts_typed (tyenv sample_flat) S (stmts sample_flat) \<Longrightarrow> block_outcome S s bb2 = block_outcome S s sample_flat"
    using cprop_equivalent [OF sample_flat_sane sample_flat_env conjunct1 [OF sample_flat_calls]] by blast
  from b(1,2) b(3) [OF log_sem_ok sample_acts(2)] show ?thesis by blast
qed

text \<open>C15. Folding one expression: whatever \<open>fold_Expr\<close> makes of a flat expression has its value, when the bindings
  are true and the arguments have the types of the operation.\<close>

theorem fold_equivalent:
  assumes "fold_Expr (Some env) e = Inr e2" "sem_documented S" "env_true S env r" "isFlatRHS e = Inr True" "arg_typed S r w e"
  shows "eval S r w e2 = eval S r w e"
  using fold_sound [of env e e2 S r w] assms by (simp add: fold_Expr_def)

theorem fold_equivalent_witness:
  "fold_Expr (Some [None]) (Iex_Binop (Iop ''Xor32'') (Iex_RdTmp 0) (Iex_RdTmp 0)) = Inr (Iex_Const (Ico_U32 0))
    \<and> eval log_sem (\<lambda>_. V32 9) [] (Iex_Const (Ico_U32 0)) = eval log_sem (\<lambda>_. V32 9) [] (Iex_Binop (Iop ''Xor32'') (Iex_RdTmp 0) (Iex_RdTmp 0))"
proof
  show f: "fold_Expr (Some [None]) (Iex_Binop (Iop ''Xor32'') (Iex_RdTmp 0) (Iex_RdTmp 0)) = Inr (Iex_Const (Ico_U32 0))"
    by code_simp
  show "eval log_sem (\<lambda>_. V32 9) [] (Iex_Const (Ico_U32 0)) = eval log_sem (\<lambda>_. V32 9) [] (Iex_Binop (Iop ''Xor32'') (Iex_RdTmp 0) (Iex_RdTmp 0))"
  proof (rule fold_equivalent [OF f log_sem_documented])
    have "bin_typed ''Xor32'' (V32 9) (V32 9)" by code_simp
    then show "arg_typed log_sem (\<lambda>_. V32 9) [] (Iex_Binop (Iop ''Xor32'') (Iex_RdTmp 0) (Iex_RdTmp 0))" by (simp add: arg_typed_def)
  qed (simp_all add: env_true_def)
qed



section \<open>ctlite as a whole\<close>

text \<open>C17. ctlite on a program. All blocks are instrumented and cleaned up without failure; the guest's
  world is as without the tool; and the counters and the file are those of the specification for the
  instructions, memory accesses and conditional branches of a run of the original blocks.\<close>

theorem cl_program_counts:
  assumes "opens (''tracefile_'' @ decimal (unat pid))" "10 \<le> m" "m \<le> 40" "10 \<le> i" "i \<le> 40"
    and "0 < h" "h < 2 ^ 64" "instr_calls_of (cl_calls arg S r g bs) < 2 ^ 64"
    and "\<forall>b\<in>set bs. block_ok cl_helpers (cl_req p) gw b" "meaning_ok S bs"
  shows "\<exists>bs2 s s'. mapR (clean_block (cl_instrument p) gw) bs = Inr bs2
    \<and> cl_start pid opens [int_option ''--mem-size'' m, int_option ''--code-size'' i, int_option ''--heartbeat'' h] = Inr s
    \<and> run_blocks (with_tool cl_helpers S (on_entry (cl_tool arg))) r (g, Inr s) bs2 = (run_blocks S r g bs, Inr s')
    \<and> cl_refines h (m - 10) (i - 10) s' (foldl (spec_call h) spec_initial (cl_calls arg S r g bs))
    \<and> dec_all decode_snapshot (Suc (instr_calls_of (cl_calls arg S r g bs) div h)) (concat (cl_out s'))
        = Some (map (snapshot_view (m - 10) (i - 10)) (intervals (foldl (spec_call h) spec_initial (cl_calls arg S r g bs))))"
  by (rule cl_program_decodes [where opens = opens and pid = pid, OF assms])

theorem cl_program_counts_witness:
  "\<exists>bs2 s s'. mapR (clean_block (cl_instrument Amd64) Ity_I64) [sample_linear, sample_linear] = Inr bs2
    \<and> cl_start 7 (\<lambda>_. True) [int_option ''--mem-size'' 20, int_option ''--code-size'' 12, int_option ''--heartbeat'' 1] = Inr s
    \<and> run_blocks (with_tool cl_helpers log_sem (on_entry (cl_tool arg64))) (\<lambda>_. V64 0) ([], Inr s) bs2
        = (run_blocks log_sem (\<lambda>_. V64 0) [] [sample_linear, sample_linear], Inr s')
    \<and> cl_refines 1 10 2 s' (foldl (spec_call 1) spec_initial
        (cl_calls arg64 log_sem (\<lambda>_. V64 0) [] [sample_linear, sample_linear]))"
proof -
  have n: "instr_calls_of (cl_calls arg64 log_sem (\<lambda>_. V64 0) [] [sample_linear, sample_linear]) = 4"
    by code_simp
  have ok: "\<forall>b\<in>set [sample_linear, sample_linear]. block_ok cl_helpers (cl_req Amd64) Ity_I64 b"
    using sample_blocks_ok(2) by simp
  show ?thesis
    using cl_program_counts [of "\<lambda>_. True" 7 20 12 1 arg64 log_sem "\<lambda>_. V64 0" "[]", OF _ _ _ _ _ _ _ _ ok sample_meaning(1)]
    unfolding n by auto
qed

text \<open>C18. A run of ctlite with \<open>--mem-size=m --code-size=i --heartbeat=h\<close> refines its specification:
  all helper calls succeed; the file holds one snapshot for every \<open>h\<close> instructions; and decoding it
  gives the counts of the events of each interval.\<close>

theorem ctlite_run:
  assumes "opens (''tracefile_'' @ decimal (unat pid))" "10 \<le> m" "m \<le> 40" "10 \<le> i" "i \<le> 40"
    and "0 < h" "h < 2 ^ 64" "instr_calls_of cs < 2 ^ 64"
  shows "\<exists>s s'. cl_start pid opens [int_option ''--mem-size'' m, int_option ''--code-size'' i,
        int_option ''--heartbeat'' h] = Inr s
    \<and> foldR cl_run_call s cs = Inr s'
    \<and> cl_refines h (m - 10) (i - 10) s' (foldl (spec_call h) spec_initial cs)
    \<and> dec_all decode_snapshot (Suc (instr_calls_of cs div h)) (concat (cl_out s'))
        = Some (map (snapshot_view (m - 10) (i - 10)) (intervals (foldl (spec_call h) spec_initial cs)))
    \<and> length (intervals (foldl (spec_call h) spec_initial cs)) = instr_calls_of cs div h"
  by (rule cl_run_decodes [where opens = opens and pid = pid, OF assms])

theorem ctlite_run_witness:
  "\<exists>s s'. cl_start 7 (\<lambda>_. True) [int_option ''--mem-size'' 20, int_option ''--code-size'' 12,
        int_option ''--heartbeat'' 1] = Inr s
    \<and> foldR cl_run_call s [L_trace_load 0x8000 4, L_trace_instr 0x1000 3] = Inr s'"
  using ctlite_run [of "\<lambda>_. True" 7 20 12 1 "[L_trace_load 0x8000 4, L_trace_instr 0x1000 3]"]
  by (auto simp: instr_calls_of_def)

section \<open>The instruction record\<close>

text \<open>C19. The record keeps its invariant (array lengths, a valid flag exactly for the slots with an
  address, one cache line of data for each slot) through every sequence of helper
  calls that returns, whatever the calls are.\<close>

theorem record_invariant:
  assumes "run_calls p s cs = Inr s'" "wf_inst (inst s)"
  shows "wf_inst (inst s')"
  using assms
proof (induction cs arbitrary: s)
  case (Cons c cs)
  then obtain s1 where s1: "run_call p s c = Inr s1" "run_calls p s1 cs = Inr s'"
    by (auto simp: run_Cons elim!: bindR_InrE)
  then show ?case using Cons.IH [OF s1(2)] run_call_wf [OF s1(1) Cons.prems(2)] by blast
qed simp

theorem record_invariant_witness:
  "wf_inst (inst (trace_reg_read 5 (ct_initial\<lparr>tracing := True\<rparr>)))"
  by (rule record_invariant [where p = Amd64 and cs = "[C_trace_reg_read 5]"
        and s = "ct_initial\<lparr>tracing := True\<rparr>"])
     (simp_all add: run_Cons run_call_def ct_initial_def wf_zeroed_inst)

text \<open>C20. The sources of an instruction and its stores. After any sequence of loads the table of addresses
  holds the first four distinct nonzero ones, in the order of their first load, then zeros. The same holds for
  stores, of which two are kept, and for registers read, of which four are kept.\<close>

theorem inputs_recorded:
  assumes "tracing s" "source_memory (inst s) = replicate 4 0" "destination_memory (inst s) = replicate 2 0"
    "source_registers (inst s) = replicate 4 0"
  shows "source_memory (inst (fold (\<lambda>a. trace_load mem a sz) as s)) = table 4 (first_seen [] as)
    \<and> destination_memory (inst (fold (\<lambda>a. trace_store mem a sz) as s)) = table 2 (first_seen [] as)
    \<and> source_registers (inst (fold (\<lambda>r. trace_reg_read (ucast (r :: byte))) rs s)) = table 4 (first_seen [] rs)"
  using loads.adds_from_empty [of s mem sz as] stores.adds_from_empty [of s mem sz as] reg_reads.adds_from_empty [of s rs] assms
  by simp

theorem inputs_recorded_witness:
  "source_memory (inst (fold (\<lambda>a. trace_load (\<lambda>_. 0) a 8) [0x40, 0x80, 0x40, 0] (ct_initial\<lparr>tracing := True\<rparr>)))
      = table 4 (first_seen [] [0x40, 0x80, 0x40, 0])
    \<and> destination_memory (inst (fold (\<lambda>a. trace_store (\<lambda>_. 0) a 8) [0x40, 0x80, 0x40, 0] (ct_initial\<lparr>tracing := True\<rparr>)))
      = table 2 (first_seen [] [0x40, 0x80, 0x40, 0])
    \<and> source_registers (inst (fold (\<lambda>r. trace_reg_read (ucast (r :: byte))) [5, 6, 5] (ct_initial\<lparr>tracing := True\<rparr>)))
      = table 4 (first_seen [] [5, 6, 5])"
  by (rule inputs_recorded) (simp_all add: ct_initial_def zeroed_inst_def numeral_eq_Suc)

text \<open>C21. Registers written: while a destination slot is free the register goes there, once; when
  both are taken, a further register overwrites the first free one of the first two source
  registers, because the search runs past the end of the array.\<close>

theorem reg_writes_recorded:
  assumes "tracing s" "wf_inst (inst s)"
  shows "trace_reg_write r s =
    (if 0 \<in> set (destination_registers (inst s))
     then s\<lparr>inst := (inst s)\<lparr>destination_registers := slot_insert (ucast r) (destination_registers (inst s))\<rparr>\<rparr>
     else if ucast r \<in> set (destination_registers (inst s)) then s
     else case index_of 0 (take 2 (source_registers (inst s))) of
            None \<Rightarrow> s
          | Some i \<Rightarrow> s\<lparr>inst := (inst s)\<lparr>source_registers := (source_registers (inst s))[i := ucast r]\<rparr>\<rparr>)"
proof (cases "0 \<in> set (destination_registers (inst s))")
  case True
  then show ?thesis using trace_reg_write_free [OF assms] by simp
next
  case False
  show ?thesis
  proof (cases "ucast r \<in> set (destination_registers (inst s))")
    case True
    with False assms(1) show ?thesis by (simp add: trace_reg_write_def)
  next
    case new: False
    from trace_reg_write_overflow [OF assms False new] False new show ?thesis by simp
  qed
qed

theorem reg_writes_recorded_witness:
  "source_registers (inst (trace_reg_write 9 (ct_initial\<lparr>tracing := True,
     inst := zeroed_inst\<lparr>destination_registers := [3, 4]\<rparr>\<rparr>))) = [9, 0, 0, 0]"
proof -
  let ?s = "ct_initial\<lparr>tracing := True, inst := zeroed_inst\<lparr>destination_registers := [3, 4]\<rparr>\<rparr>"
  have "wf_inst (inst ?s)" using wf_zeroed_inst by (simp add: wf_inst_def)
  moreover have "source_registers zeroed_inst = [0, 0, 0, 0]"
    by (simp add: zeroed_inst_def numeral_eq_Suc)
  ultimately show ?thesis using reg_writes_recorded [of ?s 9] by simp
qed

section \<open>The trace format\<close>

text \<open>C22. A record that keeps the invariant is written as 10 to 466 bytes, so it fits the buffer of
  1152 bytes that \<open>write_inst_to_file\<close> fills.\<close>

theorem record_bytes:
  assumes "wf_inst r" "encode_buffer r = Inr bs"
  shows "10 \<le> length bs \<and> length bs \<le> 466"
  using assms encoding_length [OF assms(1)] by (simp add: encode_buffer_encoding)

theorem record_bytes_witness: "10 \<le> length (encoding zeroed_inst) \<and> length (encoding zeroed_inst) \<le> 466"
  by (rule record_bytes [OF wf_zeroed_inst encode_buffer_encoding])

text \<open>C23. The trace format is unambiguous: two sequences of records with the same bytes have the same
  contents, instruction by instruction.\<close>

theorem trace_unambiguous:
  assumes "\<forall>r\<in>set rs. wf_inst r" "\<forall>r\<in>set rs'. wf_inst r"
    and "concat (map encoding rs) = concat (map encoding rs')"
  shows "map view_of rs = map view_of rs'"
  by (rule trace_file.encs_injective) (use assms in auto)

theorem trace_unambiguous_witness:
  "map view_of [zeroed_inst\<lparr>is_branch := 1\<rparr>] = map view_of [zeroed_inst\<lparr>is_branch := 2\<rparr>]"
proof (rule trace_unambiguous)
  show "concat (map encoding [zeroed_inst\<lparr>is_branch := 1\<rparr>]) = concat (map encoding [zeroed_inst\<lparr>is_branch := 2\<rparr>])"
    by (simp add: encoding_def encode_buffer_eq key_of_def dest_reg_entries_def source_reg_entries_def reg_area_def
        dest_mem_entries_def source_mem_entries_def zeroed_inst_def)
qed (use wf_zeroed_inst in \<open>simp_all add: wf_inst_def\<close>)

section \<open>Guest registers\<close>

text \<open>C24. On amd64 every byte of the members of the guest state up to \<open>guest_ACFLAG\<close> is given the code
  of its register.\<close>

theorem amd64_registers:
  assumes "i < 26" "k < member_size amd64_layout i"
  shows "offset_to_x86_64_register (int (member_off amd64_layout i + k)) sz = Inr (amd64_codes ! i)"
  by (rule amd64_register_at [OF assms])

theorem amd64_registers_witness:
  "offset_to_x86_64_register (int (member_off amd64_layout 3 + 7)) 8 = Inr (amd64_codes ! 3)"
  by (rule amd64_registers) (simp_all add: amd64_member)

text \<open>C25. The last eight bytes of each vector register of amd64 are given the code of the next one
  (those of the last one the code 0), since the function subtracts an offset that is eight bytes too
  small.\<close>

theorem amd64_vector_registers:
  assumes "q < 16" "k < 32"
  shows "offset_to_x86_64_register (int (member_off amd64_layout (29 + q) + k)) sz =
    (if q = 15 \<and> 24 \<le> k then Inr 0 else Inr (REG_YMM0 + int q + (if k < 24 then 0 else 1)))"
  by (rule amd64_ymm_at [OF assms])

theorem amd64_vector_registers_witness:
  "offset_to_x86_64_register (int (member_off amd64_layout (29 + 2) + 24)) 8 = Inr (REG_YMM0 + 3)"
  using amd64_vector_registers [of 2 24 8] by simp

text \<open>C26. On arm64 every byte of the integer registers is given the code of its register; the upper half of each
  vector register is given the code of the next one.\<close>

theorem arm64_registers:
  "(q < 31 \<and> k < 8 \<longrightarrow> offset_to_arm64_register (int (member_off arm64_layout (3 + q) + k)) = Inr (REG_X0 + int q))
   \<and> (q < 32 \<and> k < 16 \<longrightarrow> offset_to_arm64_register (int (member_off arm64_layout (41 + q) + k)) =
        Inr (REG_Q0 + int q + (if k < 8 then 0 else 1)))"
proof (intro conjI impI)
  assume "q < 31 \<and> k < 8"
  then show "offset_to_arm64_register (int (member_off arm64_layout (3 + q) + k)) = Inr (REG_X0 + int q)"
    using arm64_x [of "16 + 8 * q + k"] arm64_word_member [of q] by simp
next
  assume a: "q < 32 \<and> k < 16"
  then have "(320 + 16 * q + k - 312) div 16 = q + (if k < 8 then 0 else 1)"
    by (auto simp: div_nat_eqI)
  then show "offset_to_arm64_register (int (member_off arm64_layout (41 + q) + k)) = Inr (REG_Q0 + int q + (if k < 8 then 0 else 1))"
    using arm64_q [of "320 + 16 * q + k"] a arm64_q_member [of q] by simp
qed

theorem arm64_registers_witness:
  "offset_to_arm64_register (int (member_off arm64_layout (3 + 30) + 7)) = Inr (REG_X0 + int 30)
   \<and> offset_to_arm64_register (int (member_off arm64_layout (41 + 3) + 8)) = Inr (REG_Q0 + 4)"
  using arm64_registers [of 30 7] arm64_registers [of 3 8] by simp



section \<open>The intermediate representation\<close>



text \<open>C29. A deep copy of a statement is equal to it.\<close>

theorem deep_copy_identity:
  assumes "deepCopyIRStmt s = Inr s'" "fx_trimmed s"
  shows "s' = s"
  by (rule deepCopyIRStmt_eq [OF assms])

theorem deep_copy_identity_witness:
  "\<exists>s'. deepCopyIRStmt (Ist_Put 16 (Iex_RdTmp 0)) = Inr s' \<and> s' = Ist_Put 16 (Iex_RdTmp 0)"
proof -
  obtain s' where s': "deepCopyIRStmt (Ist_Put 16 (Iex_RdTmp 0)) = Inr s'" by simp
  from deep_copy_identity [OF s'] s' show ?thesis by (simp add: fx_trimmed_def)
qed

text \<open>C30. The copy that \<open>deepCopyIRSB\<close> makes of a small block is rejected by the sanity check, because
  the copy's statement array is allocated to fit while the check asks for room for eight.\<close>

theorem small_copy_rejected:
  assumes "deepCopyIRSB bb = Inr bb2" "stmts_used bb < 8"
  shows "\<not> isOk (sanityCheckIRSB bb2 flat gw)"
  by (rule deepCopyIRSB_small [OF assms])

theorem small_copy_rejected_witness:
  "\<exists>bb2. deepCopyIRSB (emptyIRSB\<lparr>sb_next := Some (Iex_RdTmp 0)\<rparr>) = Inr bb2
     \<and> \<not> isOk (sanityCheckIRSB bb2 True Ity_I64)"
proof -
  obtain bb2 where "deepCopyIRSB (emptyIRSB\<lparr>sb_next := Some (Iex_RdTmp 0)\<rparr>) = Inr bb2"
    by (simp add: deepCopyIRSB_def deepCopyIRSBExceptStmts_def emptyIRSB_def emptyIRTypeEnv_def)
  with small_copy_rejected [OF this] show ?thesis by (simp add: emptyIRSB_def)
qed



section \<open>Containers of the core\<close>

text \<open>C32. Extensible arrays refine lists. A sequence of insertions, removals and replacements on an array does what the
  same sequence does to the list of its elements, however often the array has to grow; an index or a number
  that is out of range is rejected by an assertion, and by nothing else. The sizes that the growth computes are
  assumed to be words.\<close>

theorem xarray_refines:
  assumes "wf_xa xa" "8 + (2 + 3 * int (length (xa_elems xa) + length ps)) * xa_elemSzB xa < 2 ^ 63"
  shows "case list_run (xa_elems xa) ps of
      Some l \<Rightarrow> \<exists>xa'. foldR xa_step xa ps = Inr xa' \<and> wf_xa xa' \<and> xa_elems xa' = l
    | None \<Rightarrow> \<exists>msg. foldR xa_step xa ps = Inl (VAssert msg)"
  using xa_run_ok [of "xa_elemSzB xa" xa ps] assms by (auto simp: sized_xa_def split: option.splits)

theorem xarray_refines_witness:
  "\<exists>xa xa'. newXA 4 = Inr xa \<and> foldR xa_step xa [Add (5 :: int), Add 7, InsertIndex 1 6, RemoveIndex 0, Add 8] = Inr xa' \<and> wf_xa xa'
     \<and> xa_elems xa' = [6, 7, 8]"
proof -
  let ?xa = "\<lparr>xa_cmpFn = None, xa_elemSzB = 4, xa_arr = None, xa_usedsizeE = 0, xa_totsizeE = 0, xa_sorted = False\<rparr> :: int XArray"
  have "wf_xa ?xa" "xa_elems ?xa = []" by (simp_all add: wf_xa_def xa_elems_def xa_slots_def)
  moreover have "list_run [] [Add (5 :: int), Add 7, InsertIndex 1 6, RemoveIndex 0, Add 8] = Some [6, 7, 8]" by simp
  ultimately show ?thesis
    using xarray_refines [of ?xa "[Add 5, Add 7, InsertIndex 1 6, RemoveIndex 0, Add 8]"] by (simp add: newXA_def)
qed

text \<open>C33. Range maps refine functions. After any sequence of bindings to intervals of keys a range map stands for the
  function updated on these intervals, and looking up any key gives its value with the bounds of the largest interval around the key on which
  the function has that value. No search fails, although the one in \<open>find\<close> starts with an upper end that is one
  past the last range. The number of bindings is bounded by \<open>2 ^ 54\<close>, which keeps the array within the address space.\<close>

theorem rangemap_refines:
  assumes "\<forall>(kmin, kmax, v)\<in>set bs. kmin \<le> kmax" "length bs \<le> 2 ^ 54"
  shows "\<exists>rm0 rm. newRangeMap v0 = Inr rm0 \<and> foldR bind_step rm0 bs = Inr rm
    \<and> rm_map (xa_elems rm) = foldl bind_spec (\<lambda>_. Some v0) bs
    \<and> (\<forall>key. \<exists>kmin kmax v. lookupRangeMap rm key = Inr (kmin, kmax, v) \<and> kmin \<le> key \<and> key \<le> kmax
        \<and> (\<forall>k. kmin \<le> k \<and> k \<le> kmax \<longrightarrow> foldl bind_spec (\<lambda>_. Some v0) bs k = Some v)
        \<and> (kmin \<noteq> 0 \<longrightarrow> foldl bind_spec (\<lambda>_. Some v0) bs (kmin - 1) \<noteq> Some v)
        \<and> (kmax \<noteq> UWORD_MAX \<longrightarrow> foldl bind_spec (\<lambda>_. Some v0) bs (kmax + 1) \<noteq> Some v))"
proof -
  obtain rm0 where n: "newRangeMap v0 = Inr rm0" "rm_inv rm0" "rm_map (xa_elems rm0) = (\<lambda>_. Some v0)" "length (xa_elems rm0) = 1"
      "distinct_neighbours (xa_elems rm0)"
    using newRangeMap_ok by blast
  have "length (xa_elems rm0) + 2 * length bs \<le> 2 ^ 56" using n(4) assms(2) by simp
  from binds_ok [OF n(2,5) assms(1) this] obtain rm where r: "foldR bind_step rm0 bs = Inr rm" "rm_inv rm" "distinct_neighbours (xa_elems rm)"
      "rm_map (xa_elems rm) = foldl bind_spec (\<lambda>_. Some v0) bs" "length (xa_elems rm) \<le> 2 ^ 56"
    using n(3) by auto
  with n(1) lookupRangeMap_ok [OF r(2,5)] show ?thesis by auto
qed

theorem rangemap_refines_witness:
  "\<exists>rm0 rm. newRangeMap 1 = Inr rm0 \<and> foldR bind_step rm0 [(10, 20, 5), (15, 30, 1)] = Inr rm
    \<and> (\<exists>kmin kmax v. lookupRangeMap rm 12 = Inr (kmin, kmax, v) \<and> kmin \<le> 12 \<and> 12 \<le> kmax)"
proof -
  have "\<forall>(kmin, kmax, v)\<in>set [(10, 20, 5), (15, 30, 1)]. kmin \<le> (kmax :: uword64)" "length [(10, 20, 5 :: uword64), (15, 30, 1)] \<le> 2 ^ 54" by simp_all
  from rangemap_refines [OF this, of 1] show ?thesis by blast
qed

text \<open>C34. The ranges of a map are determined by the function it stands for: two sequences of bindings
  that give the same function give the same ranges, because neighbours with equal values are merged.\<close>

theorem rangemap_canonical:
  assumes "\<forall>(kmin, kmax, v)\<in>set bs. kmin \<le> kmax" "length bs \<le> 2 ^ 54"
    "\<forall>(kmin, kmax, v)\<in>set cs. kmin \<le> kmax" "length cs \<le> 2 ^ 54"
    "foldl bind_spec (\<lambda>_. Some v0) bs = foldl bind_spec (\<lambda>_. Some w0) cs"
  shows "\<exists>rm0 rm rm0' rm'. newRangeMap v0 = Inr rm0 \<and> foldR bind_step rm0 bs = Inr rm
    \<and> newRangeMap w0 = Inr rm0' \<and> foldR bind_step rm0' cs = Inr rm' \<and> xa_elems rm = xa_elems rm'"
proof -
  have "\<exists>rm0 rm. newRangeMap v = Inr rm0 \<and> foldR bind_step rm0 bs = Inr rm \<and> covers 0 (xa_elems rm) (2 ^ 64)
      \<and> distinct_neighbours (xa_elems rm) \<and> rm_map (xa_elems rm) = foldl bind_spec (\<lambda>_. Some v) bs"
    if b: "\<forall>(kmin, kmax, v)\<in>set bs. kmin \<le> kmax" "length bs \<le> 2 ^ 54" for bs v
  proof -
    obtain rm0 where n: "newRangeMap v = Inr rm0" "rm_inv rm0" "rm_map (xa_elems rm0) = (\<lambda>_. Some v)" "length (xa_elems rm0) = 1"
        "distinct_neighbours (xa_elems rm0)"
      using newRangeMap_ok by blast
    then show ?thesis using binds_ok [OF n(2,5) b(1)] b(2) by (auto simp: rm_inv_def)
  qed
  from this [OF assms(1,2), of v0] this [OF assms(3,4), of w0] show ?thesis using ranges_unique assms(5) by metis
qed

theorem rangemap_canonical_witness:
  "\<exists>rm0 rm rm0' rm'. newRangeMap 1 = Inr rm0 \<and> foldR bind_step rm0 [(0, UWORD_MAX, 2)] = Inr rm
    \<and> newRangeMap 2 = Inr rm0' \<and> foldR bind_step rm0' [] = Inr rm' \<and> xa_elems rm = xa_elems rm'"
proof -
  have "key \<le> UWORD_MAX" for key by (simp add: UWORD_MAX_def)
  then have "foldl bind_spec (\<lambda>_. Some 1) [(0, UWORD_MAX, 2)] = foldl bind_spec (\<lambda>_. Some 2) []"
    by (auto simp: bind_spec_def)
  from rangemap_canonical [OF _ _ _ _ this] show ?thesis by auto
qed

text \<open>C35. Sorting an extensible array returns, keeps its elements, with their numbers, and puts them in the order of
  its comparison function, whatever the size of the elements and the address of the block are. After that
  \<open>VG_(lookupXA)\<close> reports whether there is an element equal to the key, and the first and the last index of one.\<close>

theorem sort_lookup:
  assumes "wf_xa xa" "xa_cmpFn xa = Some cmp" "cmp_order cmp" "length (xa_elems xa) < fuel" "int (length (xa_elems xa)) < 2 ^ 62"
  shows "\<exists>xa'. sortXA fuel base xa = Inr xa' \<and> wf_xa xa' \<and> mset (xa_elems xa') = mset (xa_elems xa)
    \<and> sorted_wrt (\<lambda>x y. cmp x y \<le> 0) (xa_elems xa')
    \<and> (\<forall>key wF wL. lookupXA xa' key wF wL = Inr (lookup_result wF wL (hits cmp key (xa_elems xa'))))"
  by (rule sortXA_lookup [OF assms])

theorem sort_lookup_witness:
  "\<exists>xa'. sortXA 4 0x1000 \<lparr>xa_cmpFn = Some (-), xa_elemSzB = 8, xa_arr = Some [Some 3, Some 1, Some (3::int), None],
      xa_usedsizeE = 3, xa_totsizeE = 4, xa_sorted = False\<rparr> = Inr xa' \<and> mset (xa_elems xa') = {#1, 3, 3#}"
  using sort_lookup [of "\<lparr>xa_cmpFn = Some (-), xa_elemSzB = 8, xa_arr = Some [Some 3, Some 1, Some (3::int), None],
      xa_usedsizeE = 3, xa_totsizeE = 4, xa_sorted = False\<rparr>" "(-)" 4 "0x1000"]
  by (auto simp: wf_xa_def xa_slots_def xa_elems_def cmp_order_def add_mset_commute)

section \<open>Options\<close>


text \<open>C37. The options of cstracer: an argument \<open>name=value\<close> sets the variable of that name and nothing
  else, a value that is not a number or not yes or no ends the process, an empty file name fails the
  assertion, and an unknown name is left to the caller.\<close>

theorem ct_options:
  assumes "clo_name opt" "nul_free val"
  shows "ct_process_cmd_line_option cloP (opt @ ''='' @ val) s =
   (let arg = opt @ ''='' @ val; (n, rest) = strtoll10 val;
        named = (\<lambda>s. if deref (t_fname s) = CHR 0x00 then Inl (ToolAssert ''t_fname[0]'') else Inr (True, s));
        number = (\<lambda>s. if deref rest \<noteq> CHR 0x00 then Inl (BadOption arg) else named s)
    in if opt = ''--trace-file'' then named (s\<lparr>t_fname := val\<rparr>)
       else if opt = ''--skip'' then number (s\<lparr>skip := n\<rparr>)
       else if opt = ''--trace'' then number (s\<lparr>trace_instrs := n\<rparr>)
       else if opt = ''--heartbeat'' then number (s\<lparr>heartbeat := n\<rparr>)
       else if opt = ''--exit-after'' then
         (if val = ''yes'' then named (s\<lparr>exit_after_tracing := True\<rparr>)
          else if val = ''no'' then named (s\<lparr>exit_after_tracing := False\<rparr>)
          else Inl (BadOption arg))
       else Inr (False, s))"
  by (rule ct_option_named [OF assms])

theorem ct_options_witness:
  "ct_process_cmd_line_option cloP (''--exit-after'' @ ''='' @ ''maybe'') ct_initial = Inl (BadOption ''--exit-after=maybe'')"
  using ct_options [of "''--exit-after''" "''maybe''" ct_initial]
  by (simp add: clo_name_def nul_free_def split: prod.splits)

text \<open>C38. The options of ctlite, with the checks on the region sizes.\<close>

theorem cl_options:
  assumes "clo_name opt" "nul_free val"
  shows "cl_process_cmd_line_option cloP (opt @ ''='' @ val) s =
   (let arg = opt @ ''='' @ val; (n, rest) = strtoll10 val;
        checked = (\<lambda>s. if deref (cl_t_fname s) = CHR 0x00 then Inl (ToolAssert ''t_fname[0]'')
                      else if MShiftSize s < 10 then Inl (ToolAssert ''MShiftSize >= 10'')
                      else if IShiftSize s < 10 then Inl (ToolAssert ''IShiftSize >= 10'')
                      else Inr (True, s));
        number = (\<lambda>s. if deref rest \<noteq> CHR 0x00 then Inl (BadOption arg) else checked s);
        number32 = (\<lambda>s. if n \<ge> 2 ^ 32 then Inl (BadOption arg) else number s)
    in if opt = ''--trace-file'' then checked (s\<lparr>cl_t_fname := val\<rparr>)
       else if opt = ''--mem-size'' then number32 (s\<lparr>MShiftSize := ucast n\<rparr>)
       else if opt = ''--code-size'' then number32 (s\<lparr>IShiftSize := ucast n\<rparr>)
       else if opt = ''--heartbeat'' then number (s\<lparr>cl_heartbeat := n\<rparr>)
       else Inr (False, s))"
  by (rule cl_option_named [OF assms])

theorem cl_options_witness:
  "cl_process_cmd_line_option cloP (''--unknown'' @ ''='' @ ''1'') cl_initial = Inr (False, cl_initial)"
  using cl_options [of "''--unknown''" "''1''" cl_initial]
  by (simp add: clo_name_def nul_free_def split: prod.splits)



text \<open>C40. The buffer for the name of the trace file: names of at most 116 characters always fit,
  names of 126 characters or more never do, whatever the process number is.\<close>

theorem trace_file_name_bounds:
  "(length fname \<le> 116 \<longrightarrow> trace_file_name fname pid = Inr (fname @ ''_'' @ decimal (unat pid)))
    \<and> (126 \<le> length fname \<longrightarrow> trace_file_name fname pid = Inl BufOverflow)"
  using trace_file_name_fits trace_file_name_overflow by blast

theorem trace_file_name_bounds_witness:
  "trace_file_name (replicate 126 (CHR ''a'')) 7 = Inl BufOverflow"
  using trace_file_name_bounds [of "replicate 126 (CHR ''a'')" 7] by simp

end
